(* ===== verification/Prelude.thy ===== *)
theory Prelude
  imports Main "HOL-Library.AList" "HOL-Library.Char_ord" "HOL-Library.List_Lexorder"
    "HOL-Library.Sublist"
begin

text \<open>
  The Python data the other theories share: dictionaries with insertion order, decimal
  integers as text, the string methods the code calls, and the outcome of a method that
  returns a result object or raises.

  A Python \<open>str\<close> is a list of code points below 256 (Isabelle's \<open>string\<close>, ordered
  lexicographically as Python orders strings); \<open>bytes\<close> is the same type, read as octets.
  A Python float is a decimal with six fractional digits, represented by its value in
  millionths (\<open>flt\<close>): the clock values and durations of the program are of this
  resolution, and the program only adds, subtracts and compares them.
\<close>

named_theorems dict_simps \<open>lookups and key sets of dictionaries after an operation\<close>

type_synonym bytes = string
type_synonym flt = int

section \<open>Dictionaries\<close>

text \<open>
  A dict is the list of its items in insertion order. \<open>AList.update\<close> overwrites in place
  and appends a new key at the end, as \<open>d[k] = v\<close> does; \<open>AList.delete\<close> is
  \<open>d.pop(k, None)\<close>; \<open>map_of d k\<close> is \<open>d.get(k)\<close>.
\<close>

type_synonym ('k, 'v) dict = "('k \<times> 'v) list"

abbreviation dput :: "'k \<Rightarrow> 'v \<Rightarrow> ('k, 'v) dict \<Rightarrow> ('k, 'v) dict" where
  "dput \<equiv> AList.update"

abbreviation dpop :: "'k \<Rightarrow> ('k, 'v) dict \<Rightarrow> ('k, 'v) dict" where
  "dpop \<equiv> AList.delete"

abbreviation dkeys :: "('k, 'v) dict \<Rightarrow> 'k list" where
  "dkeys d \<equiv> map fst d"

abbreviation dvalues :: "('k, 'v) dict \<Rightarrow> 'v list" where
  "dvalues d \<equiv> map snd d"

definition dict_ok :: "('k, 'v) dict \<Rightarrow> bool" where
  "dict_ok d = distinct (dkeys d)"

text \<open>\<open>d.update(e)\<close>, also \<open>{**d, **e}\<close>.\<close>

definition dmerge :: "('k, 'v) dict \<Rightarrow> ('k, 'v) dict \<Rightarrow> ('k, 'v) dict" where
  "dmerge d e = fold (\<lambda>(k, v). dput k v) e d"

text \<open>\<open>d.get(k, v)\<close>.\<close>

definition dget :: "('k, 'v) dict \<Rightarrow> 'k \<Rightarrow> 'v \<Rightarrow> 'v" where
  "dget d k v = (case map_of d k of None \<Rightarrow> v | Some x \<Rightarrow> x)"

lemma dget_simps [simp]:
  "map_of d k = None \<Longrightarrow> dget d k v = v"
  "map_of d k = Some x \<Longrightarrow> dget d k v = x"
  by (simp_all add: dget_def)

lemma map_of_dput [simp, dict_simps]: "map_of (dput k v d) k' = (if k' = k then Some v else map_of d k')"
  by (simp add: update_conv')

lemma map_of_dpop [simp, dict_simps]: "map_of (dpop k d) k' = (if k' = k then None else map_of d k')"
  by (simp add: delete_conv')

lemma dget_dput [simp]: "dget (dput k v d) k' x = (if k' = k then v else dget d k' x)"
  by (simp add: dget_def)

lemma dkeys_dput [dict_simps]: "set (dkeys (dput k v d)) = insert k (set (dkeys d))"
  by (induction d) auto

lemma dkeys_dpop [dict_simps]: "set (dkeys (dpop k d)) = set (dkeys d) - {k}"
  by (induction d) (auto simp: AList.delete_eq)

lemma fst_dput [simp]: "fst ` set (dput k v d) = insert k (fst ` set d)"
  using dkeys_dput [of k v d] by simp

lemma fst_dpop [simp]: "fst ` set (dpop k d) = fst ` set d - {k}"
  using dkeys_dpop [of k d] by simp

lemma dict_ok_Nil [simp]: "dict_ok []"
  by (simp add: dict_ok_def)

lemma dict_ok_dput [simp, intro]: "dict_ok d \<Longrightarrow> dict_ok (dput k v d)"
  by (simp add: dict_ok_def distinct_update)

lemma dict_ok_dpop [simp, intro]: "dict_ok d \<Longrightarrow> dict_ok (dpop k d)"
  by (simp add: dict_ok_def distinct_delete)

lemma dict_ok_mem_iff: "dict_ok d \<Longrightarrow> (k, v) \<in> set d \<longleftrightarrow> map_of d k = Some v"
  by (auto simp: dict_ok_def intro: map_of_is_SomeI dest: map_of_SomeD)

lemma map_of_None_iff: "map_of d k = None \<longleftrightarrow> k \<notin> set (dkeys d)"
  by (simp add: map_of_eq_None_iff)

lemma dput_items: "set (dput k v d) \<subseteq> insert (k, v) (set d)"
  by (induction d) auto

lemma dpop_items: "set (dpop k d) \<subseteq> set d"
  by (auto simp: AList.delete_eq)

lemma dict_ok_dput_items:
  "dict_ok d \<Longrightarrow> (k', x) \<in> set (dput k v d) \<longleftrightarrow> (if k' = k then x = v else (k', x) \<in> set d)"
  using dict_ok_dput [of d k v] by (auto simp: dict_ok_mem_iff)

lemma dict_ok_dpop_items:
  "dict_ok d \<Longrightarrow> (k', x) \<in> set (dpop k d) \<longleftrightarrow> k' \<noteq> k \<and> (k', x) \<in> set d"
  using dict_ok_dpop [of d k] by (auto simp: dict_ok_mem_iff)

lemma length_dput: "length (dput k v d) = (if k \<in> set (dkeys d) then length d else Suc (length d))"
  by (induction d) auto

lemma length_dpop: "dict_ok d \<Longrightarrow> length (dpop k d) = (if k \<in> set (dkeys d) then length d - 1 else length d)"
proof (induction d)
  case Nil
  then show ?case by simp
next
  case (Cons p d)
  then have ok: "dict_ok d" and notin: "fst p \<notin> set (dkeys d)" by (auto simp: dict_ok_def)
  show ?case
  proof (cases "fst p = k")
    case True
    then have "dpop k d = d"
      using notin by (induction d) (auto simp: AList.delete_eq)
    then show ?thesis using True by (cases p) (simp add: AList.delete_eq)
  next
    case False
    then show ?thesis using Cons.IH [OF ok] by (cases p; cases d) (auto simp: AList.delete_eq)
  qed
qed

lemma dmerge_Nil [simp]: "dmerge d [] = d"
  by (simp add: dmerge_def)

lemma dmerge_Cons [simp]: "dmerge d ((k, v) # e) = dmerge (dput k v d) e"
  by (simp add: dmerge_def)

lemma dict_ok_dmerge [simp, intro]: "dict_ok d \<Longrightarrow> dict_ok (dmerge d e)"
  by (induction e arbitrary: d) (auto simp: dmerge_def split: prod.splits)

lemma map_of_dmerge [dict_simps]:
  "dict_ok e \<Longrightarrow> map_of (dmerge d e) k = (case map_of e k of None \<Rightarrow> map_of d k | Some v \<Rightarrow> Some v)"
proof (induction e arbitrary: d)
  case Nil
  then show ?case by simp
next
  case (Cons p e)
  obtain k' v' where p: "p = (k', v')" by (cases p)
  from Cons.prems p have ok: "dict_ok e" and new: "map_of e k' = None"
    by (auto simp: dict_ok_def map_of_eq_None_iff)
  show ?case using Cons.IH [OF ok, of "dput k' v' d"] new p by (auto split: option.splits)
qed

lemma dkeys_dmerge [dict_simps]: "set (dkeys (dmerge d e)) = set (dkeys d) \<union> set (dkeys e)"
proof (induction e arbitrary: d)
  case Nil
  then show ?case by simp
next
  case (Cons p e)
  then show ?case by (cases p) (auto simp: dkeys_dput simp del: set_map)
qed

text \<open>Inserting a key that is not there appends it; merging disjoint keys concatenates.\<close>

lemma dput_new: "k \<notin> set (dkeys d) \<Longrightarrow> dput k v d = d @ [(k, v)]"
  by (induction d) auto

lemma dmerge_disjoint:
  "distinct (dkeys e) \<Longrightarrow> set (dkeys d) \<inter> set (dkeys e) = {} \<Longrightarrow> dmerge d e = d @ e"
proof (induction e arbitrary: d)
  case Nil
  then show ?case by simp
next
  case (Cons p e)
  then obtain k v where p: "p = (k, v)" by (cases p)
  with Cons.prems have "dput k v d = d @ [(k, v)]" by (intro dput_new) auto
  with Cons p show ?case by auto
qed

lemma dmerge_Nil_left: "dict_ok e \<Longrightarrow> dmerge [] e = e"
  by (simp add: dmerge_disjoint dict_ok_def)
end
