(* ===== verification/Pystring.thy ===== *)
theory Pystring
  imports Prelude
begin

text \<open>
  The methods of \<open>str\<close> and \<open>bytes\<close> that the program calls, and the conversions between
  integers and their decimal text: \<open>s.split(c)\<close>, \<open>c.join(xs)\<close>, \<open>s.rpartition(sep)\<close>,
  \<open>str(n)\<close>, \<open>int(s)\<close>, \<open>s.isdigit()\<close>, \<open>s.encode("utf-8")\<close> and \<open>b.decode("utf-8")\<close>.
  Each comes with the round trip that the components use.
\<close>

section \<open>Splitting and joining\<close>

fun py_split :: "char \<Rightarrow> string \<Rightarrow> string list" where
  "py_split c [] = [[]]"
| "py_split c (x # xs) =
    (if x = c then [] # py_split c xs
     else case py_split c xs of [] \<Rightarrow> [[x]] | p # ps \<Rightarrow> (x # p) # ps)"

fun py_join :: "string \<Rightarrow> string list \<Rightarrow> string" where
  "py_join sep [] = []"
| "py_join sep [x] = x"
| "py_join sep (x # y # xs) = x @ sep @ py_join sep (y # xs)"

lemma py_split_ne [simp]: "py_split c s \<noteq> []"
  by (induction s) (auto split: list.splits)

lemma py_split_none [simp]: "c \<notin> set s \<Longrightarrow> py_split c s = [s]"
  by (induction s) auto

lemma py_split_append [simp]: "c \<notin> set a \<Longrightarrow> py_split c (a @ c # b) = a # py_split c b"
  by (induction a) (auto split: list.splits)

lemma py_split_join:
  "xs \<noteq> [] \<Longrightarrow> \<forall>x\<in>set xs. c \<notin> set x \<Longrightarrow> py_split c (py_join [c] xs) = xs"
  by (induction "[c]" xs rule: py_join.induct) auto

lemma py_join_split: "py_join [c] (py_split c s) = s"
proof (induction s)
  case Nil
  then show ?case by simp
next
  case (Cons x xs)
  obtain p ps where ps: "py_split c xs = p # ps" by (cases "py_split c xs") auto
  show ?case using Cons ps by (cases ps) auto
qed

lemma py_split_parts: "p \<in> set (py_split c s) \<Longrightarrow> c \<notin> set p"
  by (induction s arbitrary: p) (auto split: if_splits list.splits)

lemma py_split_length: "length (py_split c s) = Suc (length (filter (\<lambda>x. x = c) s))"
  by (induction s) (auto split: list.splits)

text \<open>\<open>s.rpartition(sep)\<close>: the last occurrence of a separator, \<open>None\<close> when there is none.\<close>

fun py_rpartition :: "string \<Rightarrow> string \<Rightarrow> (string \<times> string) option" where
  "py_rpartition sep [] = (if sep = [] then Some ([], []) else None)"
| "py_rpartition sep (x # xs) =
    (case py_rpartition sep xs of
       Some (a, b) \<Rightarrow> Some (x # a, b)
     | None \<Rightarrow> if prefix sep (x # xs) then Some ([], drop (length sep) (x # xs)) else None)"

lemma py_rpartition_Some: "py_rpartition sep s = Some (a, b) \<Longrightarrow> s = a @ sep @ b"
  by (induction s arbitrary: a) (auto split: option.splits if_splits prod.splits simp: prefix_def)

section \<open>Decimal numbers\<close>

definition digit_char :: "nat \<Rightarrow> char" where
  "digit_char d = char_of (48 + d)"

definition is_digit :: "char \<Rightarrow> bool" where
  "is_digit c = (48 \<le> (of_char c :: nat) \<and> (of_char c :: nat) \<le> 57)"

definition digit_val :: "char \<Rightarrow> nat" where
  "digit_val c = of_char c - 48"

fun str_nat :: "nat \<Rightarrow> string" where
  "str_nat n = (if n < 10 then [digit_char n] else str_nat (n div 10) @ [digit_char (n mod 10)])"

declare str_nat.simps [simp del]

definition str_int :: "int \<Rightarrow> string" where
  "str_int i = (if i < 0 then ''-'' @ str_nat (nat (- i)) else str_nat (nat i))"

definition nat_of_digits :: "string \<Rightarrow> nat" where
  "nat_of_digits s = foldl (\<lambda>n c. 10 * n + digit_val c) 0 s"

lemma digit_char_val [simp]: "d < 10 \<Longrightarrow> digit_val (digit_char d) = d"
  by (simp add: digit_val_def digit_char_def of_char_of)

lemma digit_char_is_digit [simp]: "d < 10 \<Longrightarrow> is_digit (digit_char d)"
  by (simp add: is_digit_def digit_char_def of_char_of)

lemma str_nat_digits: "list_all is_digit (str_nat n)"
  by (induction n rule: str_nat.induct) (subst str_nat.simps, auto)

lemma str_nat_is_digit: "c \<in> set (str_nat n) \<Longrightarrow> is_digit c"
  using str_nat_digits [of n] by (simp add: list_all_iff)

lemma str_nat_ne [simp]: "str_nat n \<noteq> []"
  by (subst str_nat.simps) simp

lemma nat_of_digits_snoc [simp]: "nat_of_digits (s @ [c]) = 10 * nat_of_digits s + digit_val c"
  by (simp add: nat_of_digits_def)

lemma nat_of_digits_Nil [simp]: "nat_of_digits [] = 0"
  by (simp add: nat_of_digits_def)

lemma nat_of_digits_str_nat [simp]: "nat_of_digits (str_nat n) = n"
proof (induction n rule: str_nat.induct)
  case (1 n)
  show ?case
  proof (cases "n < 10")
    case True
    then show ?thesis using nat_of_digits_snoc [of "[]"] by (simp add: str_nat.simps [of n])
  next
    case False
    then show ?thesis using 1 by (simp add: str_nat.simps [of n])
  qed
qed

lemma str_nat_inj: "str_nat m = str_nat n \<longleftrightarrow> m = n"
  by (metis nat_of_digits_str_nat)

text \<open>
  \<open>int(s)\<close>: surrounding white space is dropped, one sign is allowed, and single underscores
  between digits are ignored. \<open>None\<close> stands for \<open>ValueError\<close>.
\<close>

definition is_space :: "char \<Rightarrow> bool" where
  "is_space c = ((of_char c :: nat) \<in> {9, 10, 11, 12, 13, 28, 29, 30, 31, 32, 133, 160})"

definition py_strip :: "string \<Rightarrow> string" where
  "py_strip s = rev (dropWhile is_space (rev (dropWhile is_space s)))"

definition py_digits :: "string \<Rightarrow> nat option" where
  "py_digits s =
    (let ps = py_split (CHR ''_'') s
     in if list_all (\<lambda>p. p \<noteq> [] \<and> list_all is_digit p) ps then Some (nat_of_digits (concat ps))
        else None)"

definition py_int :: "string \<Rightarrow> int option" where
  "py_int s =
    (case py_strip s of
       [] \<Rightarrow> None
     | c # r \<Rightarrow> if c = CHR ''-'' then map_option (\<lambda>n. - int n) (py_digits r)
               else if c = CHR ''+'' then map_option int (py_digits r)
               else map_option int (py_digits (c # r)))"

lemma is_digit_simps [simp]:
  "\<not> is_digit (CHR ''_'')" "\<not> is_digit (CHR '':'')" "\<not> is_digit (CHR ''-'')"
  "\<not> is_digit (CHR ''+'')" "\<not> is_digit (CHR ''.'')" "\<not> is_digit (CHR '' '')"
  "\<not> is_digit (CHR '','')" "\<not> is_digit (CHR '']'')" "\<not> is_digit (CHR ''}'')"
  "\<not> is_digit (CHR 0x22)" "\<not> is_digit (CHR ''t'')" "\<not> is_digit (CHR ''f'')"
  "\<not> is_digit (CHR ''n'')" "\<not> is_digit (CHR ''['')" "\<not> is_digit (CHR ''{'')"
  "\<not> is_digit (CHR ''/'')" "\<not> is_digit (CHR ''e'')" "\<not> is_digit (CHR ''E'')"
  by (simp_all add: is_digit_def)

lemma is_digit_not_space: "is_digit c \<Longrightarrow> \<not> is_space c"
  by (auto simp: is_digit_def is_space_def)

lemma py_strip_id: "s = [] \<or> \<not> is_space (hd s) \<and> \<not> is_space (last s) \<Longrightarrow> py_strip s = s"
proof -
  assume *: "s = [] \<or> \<not> is_space (hd s) \<and> \<not> is_space (last s)"
  have id: "dropWhile is_space t = t" if "t = [] \<or> \<not> is_space (hd t)" for t
    using that by (cases t) auto
  have "dropWhile is_space s = s" "dropWhile is_space (rev s) = rev s"
    using * by (auto intro!: id simp: hd_rev)
  then show ?thesis by (simp add: py_strip_def)
qed

lemma py_digits_str_nat [simp]: "py_digits (str_nat n) = Some n"
proof -
  have "CHR ''_'' \<notin> set (str_nat n)" using str_nat_is_digit by fastforce
  then show ?thesis using str_nat_digits by (simp add: py_digits_def)
qed

lemma py_strip_str_int: "py_strip (str_int i) = str_int i"
proof -
  have last: "is_digit (last (str_nat n))" and hd: "is_digit (hd (str_nat n))" for n
    by (auto intro!: str_nat_is_digit last_in_set hd_in_set)
  have "\<not> is_space (CHR ''-'')" by (simp add: is_space_def)
  then show ?thesis
    using last hd is_digit_not_space by (intro py_strip_id) (auto simp: str_int_def)
qed

lemma str_nat_Cons: obtains c r where "str_nat n = c # r" "is_digit c"
  by (metis list.exhaust list.set_intros(1) str_nat_is_digit str_nat_ne)

lemma py_int_str_int [simp]: "py_int (str_int i) = Some i"
proof (cases "i < 0")
  case True
  then show ?thesis using py_strip_str_int [of i] by (simp add: py_int_def str_int_def)
next
  case False
  obtain c r where cr: "str_nat (nat i) = c # r" "is_digit c" by (rule str_nat_Cons)
  with False have "py_strip (str_int i) = c # r" using py_strip_str_int [of i] by (simp add: str_int_def)
  moreover have "c \<noteq> CHR ''-''" "c \<noteq> CHR ''+''" using cr by auto
  moreover have "py_digits (c # r) = Some (nat i)" using cr py_digits_str_nat [of "nat i"] by simp
  ultimately show ?thesis using False by (simp add: py_int_def)
qed

lemma str_int_inj: "str_int i = str_int j \<longleftrightarrow> i = j"
  by (metis option.inject py_int_str_int)

lemma str_int_ne [simp]: "str_int i \<noteq> []"
  by (simp add: str_int_def)

lemma str_int_chars: "c \<in> set (str_int i) \<Longrightarrow> is_digit c \<or> c = CHR ''-''"
  by (auto simp: str_int_def split: if_splits dest: str_nat_is_digit)

lemma str_int_no_colon [simp]: "CHR '':'' \<notin> set (str_int i)"
  using str_int_chars [of "CHR '':''" i] by auto

text \<open>\<open>s.isdigit()\<close>; the superscripts of Latin-1 count as digits for it (not for \<open>int\<close>).\<close>

definition py_isdigit :: "string \<Rightarrow> bool" where
  "py_isdigit s = (s \<noteq> [] \<and> list_all (\<lambda>c. is_digit c \<or> (of_char c :: nat) \<in> {178, 179, 185}) s)"

section \<open>UTF-8\<close>

text \<open>
  Code points below 256 need one or two octets. Octets that decode to a code point of 256 or
  more are outside the text of the model and are treated like malformed ones (\<open>None\<close>, the
  \<open>UnicodeDecodeError\<close> of the code).
\<close>

definition utf8_char :: "char \<Rightarrow> bytes" where
  "utf8_char c =
    (let n = of_char c :: nat
     in if n < 128 then [c] else [char_of (192 + n div 64), char_of (128 + n mod 64)])"

definition utf8_encode :: "string \<Rightarrow> bytes" where
  "utf8_encode s = concat (List.map utf8_char s)"

fun utf8_decode :: "bytes \<Rightarrow> string option" where
  "utf8_decode [] = Some []"
| "utf8_decode (b # bs) =
    (let n = of_char b :: nat
     in if n < 128 then map_option ((#) b) (utf8_decode bs)
        else if n = 194 \<or> n = 195 then
          (case bs of
             c # cs \<Rightarrow>
               let m = of_char c :: nat
               in if 128 \<le> m \<and> m < 192
                  then map_option ((#) (char_of ((n - 192) * 64 + (m - 128)))) (utf8_decode cs)
                  else None
           | [] \<Rightarrow> None)
        else None)"

lemma utf8_decode_char [simp]: "utf8_decode (utf8_char c @ bs) = map_option ((#) c) (utf8_decode bs)"
proof (cases "(of_char c :: nat) < 128")
  case True
  then show ?thesis by (simp add: utf8_char_def)
next
  case False
  define n where "n = (of_char c :: nat)"
  have n: "128 \<le> n" "n < 256" using False by (simp_all add: n_def)
  then have d: "n div 64 = 2 \<or> n div 64 = 3" by linarith
  have m: "n mod 64 < 64" by simp
  have a: "(of_char (char_of (192 + n div 64) :: char) :: nat) = 192 + n div 64"
    and b: "(of_char (char_of (128 + n mod 64) :: char) :: nat) = 128 + n mod 64"
    using d m by (auto simp: of_char_of)
  have c: "char_of (n div 64 * 64 + n mod 64) = c" by (simp add: n_def)
  show ?thesis
    unfolding utf8_char_def Let_def
    using False n d a b c m
    by (simp add: n_def [symmetric] Let_def del: of_char_eq_iff)
qed

lemma utf8_roundtrip [simp]: "utf8_decode (utf8_encode s) = Some s"
  by (induction s) (simp_all add: utf8_encode_def)

lemma utf8_ascii: "list_all (\<lambda>c. (of_char c :: nat) < 128) s \<Longrightarrow> utf8_encode s = s"
  by (induction s) (simp_all add: utf8_encode_def utf8_char_def)

end
