(* ===== verification/Errors.thy ===== *)
theory Errors
  imports Pystring
begin

text \<open>
  The error classes of the endpoint and of the code it shares with its clients, each with the
  class attributes \<open>code\<close> and \<open>name\<close>, in the order of the files, and the outcome of a method: a result
  object of the package \<open>option\<close> (\<open>Ok\<close> or \<open>Err\<close>) or an exception that leaves the method.
  An error carries its class and its message; the context dictionary and the source position
  that \<open>AxoError.__init__\<close> records are read by the logger only and are left out.
\<close>

datatype err_class = ErrClass (err_py: string) (err_code: nat) (err_name: string)

definition AxoError :: err_class where
  "AxoError = ErrClass ''AxoError'' 0 ''AXO_ERROR''"

definition MalformedFrameCountError :: err_class where
  "MalformedFrameCountError = ErrClass ''MalformedFrameCountError'' 5001 ''MALFORMED_FRAME_COUNT''"

definition MalformedEnvelopeError :: err_class where
  "MalformedEnvelopeError = ErrClass ''MalformedEnvelopeError'' 5002 ''MALFORMED_ENVELOPE''"

definition MalformedMetadataError :: err_class where
  "MalformedMetadataError = ErrClass ''MalformedMetadataError'' 5003 ''MALFORMED_METADATA''"

definition MalformedEventEnvelopeError :: err_class where
  "MalformedEventEnvelopeError = ErrClass ''MalformedEventEnvelopeError'' 5004 ''MALFORMED_EVENT_ENVELOPE''"


definition WireError :: err_class where
  "WireError = ErrClass ''WireError'' 5000 ''WIRE_ERROR''"


definition MissingFieldError :: err_class where
  "MissingFieldError = ErrClass ''MissingFieldError'' 1001 ''MISSING_FIELD''"

definition InvalidFieldError :: err_class where
  "InvalidFieldError = ErrClass ''InvalidFieldError'' 1002 ''INVALID_FIELD''"

definition UnknownOperationError :: err_class where
  "UnknownOperationError = ErrClass ''UnknownOperationError'' 1003 ''UNKNOWN_OPERATION''"

definition FunctionNotFoundError :: err_class where
  "FunctionNotFoundError = ErrClass ''FunctionNotFoundError'' 2001 ''FUNCTION_NOT_FOUND''"

definition JobNotFoundError :: err_class where
  "JobNotFoundError = ErrClass ''JobNotFoundError'' 2002 ''JOB_NOT_FOUND''"

definition InvalidStateError :: err_class where
  "InvalidStateError = ErrClass ''InvalidStateError'' 2003 ''INVALID_STATE_TRANSITION''"

definition EndpointBusyError :: err_class where
  "EndpointBusyError = ErrClass ''EndpointBusyError'' 2004 ''ENDPOINT_BUSY''"

definition WorkerCrashedError :: err_class where
  "WorkerCrashedError = ErrClass ''WorkerCrashedError'' 3001 ''WORKER_CRASHED''"

definition FunctionExecError :: err_class where
  "FunctionExecError = ErrClass ''FunctionExecError'' 3002 ''FUNCTION_EXEC_FAILED''"

definition InvocationError :: err_class where
  "InvocationError = ErrClass ''InvocationError'' 3003 ''INVOCATION_FAILED''"

definition ContainerError :: err_class where
  "ContainerError = ErrClass ''ContainerError'' 3004 ''CONTAINER_ERROR''"

definition ContainerBootstrapError :: err_class where
  "ContainerBootstrapError = ErrClass ''ContainerBootstrapError'' 3005 ''CONTAINER_BOOTSTRAP_ERROR''"

definition ContainerCrashError :: err_class where
  "ContainerCrashError = ErrClass ''ContainerCrashError'' 3006 ''CONTAINER_CRASH_ERROR''"

definition JobTimeoutError :: err_class where
  "JobTimeoutError = ErrClass ''JobTimeoutError'' 3007 ''JOB_TIMEOUT''"

definition JobCancelledError :: err_class where
  "JobCancelledError = ErrClass ''JobCancelledError'' 3008 ''JOB_CANCELLED''"

definition QueueFullError :: err_class where
  "QueueFullError = ErrClass ''QueueFullError'' 4001 ''QUEUE_FULL''"

definition DispatcherClosedError :: err_class where
  "DispatcherClosedError = ErrClass ''DispatcherClosedError'' 4002 ''DISPATCHER_CLOSED''"

definition StorageFailureError :: err_class where
  "StorageFailureError = ErrClass ''StorageFailureError'' 4003 ''STORAGE_ERROR''"

definition DataNotRegisteredError :: err_class where
  "DataNotRegisteredError = ErrClass ''DataNotRegisteredError'' 6001 ''DATA_NOT_REGISTERED''"

definition ChunkIndexOutOfRangeError :: err_class where
  "ChunkIndexOutOfRangeError = ErrClass ''ChunkIndexOutOfRangeError'' 6002 ''CHUNK_INDEX_OUT_OF_RANGE''"

definition ChunkSizeMismatchError :: err_class where
  "ChunkSizeMismatchError = ErrClass ''ChunkSizeMismatchError'' 6003 ''CHUNK_SIZE_MISMATCH''"

definition StreamNotOpenError :: err_class where
  "StreamNotOpenError = ErrClass ''StreamNotOpenError'' 6004 ''STREAM_NOT_OPEN''"

definition StreamAlreadyFinalizedError :: err_class where
  "StreamAlreadyFinalizedError = ErrClass ''StreamAlreadyFinalizedError'' 6005 ''STREAM_ALREADY_FINALIZED''"

definition BucketNotFoundError :: err_class where
  "BucketNotFoundError = ErrClass ''BucketNotFoundError'' 7001 ''BUCKET_NOT_FOUND''"

definition BucketAlreadyExistsError :: err_class where
  "BucketAlreadyExistsError = ErrClass ''BucketAlreadyExistsError'' 7002 ''BUCKET_ALREADY_EXISTS''"

definition QuotaExceededError :: err_class where
  "QuotaExceededError = ErrClass ''QuotaExceededError'' 7003 ''QUOTA_EXCEEDED''"

definition ResultHashMismatchError :: err_class where
  "ResultHashMismatchError = ErrClass ''ResultHashMismatchError'' 8001 ''RESULT_HASH_MISMATCH''"


definition LeaderUnreachableError :: err_class where
  "LeaderUnreachableError = ErrClass ''LeaderUnreachableError'' 6001 ''LEADER_UNREACHABLE''"

definition StaleTermError :: err_class where
  "StaleTermError = ErrClass ''StaleTermError'' 6002 ''STALE_TERM''"

definition ElectionInProgressError :: err_class where
  "ElectionInProgressError = ErrClass ''ElectionInProgressError'' 6003 ''ELECTION_IN_PROGRESS''"

definition ReplicationRejectedError :: err_class where
  "ReplicationRejectedError = ErrClass ''ReplicationRejectedError'' 6004 ''REPLICATION_REJECTED''"

definition ConcurrencyLedgerNotReadyError :: err_class where
  "ConcurrencyLedgerNotReadyError = ErrClass ''ConcurrencyLedgerNotReadyError'' 6005 ''CONCURRENCY_LEDGER_NOT_READY''"


definition DataIOError :: err_class where
  "DataIOError = ErrClass ''DataIOError'' 7000 ''DATAIO_ERROR''"

definition UnknownIOOpError :: err_class where
  "UnknownIOOpError = ErrClass ''UnknownIOOpError'' 7001 ''UNKNOWN_IO_OP''"

definition UnknownIORefKindError :: err_class where
  "UnknownIORefKindError = ErrClass ''UnknownIORefKindError'' 7002 ''UNKNOWN_IO_REF_KIND''"

definition UnknownIOFormatError :: err_class where
  "UnknownIOFormatError = ErrClass ''UnknownIOFormatError'' 7003 ''UNKNOWN_IO_FORMAT''"

definition IOPathTraversalError :: err_class where
  "IOPathTraversalError = ErrClass ''IOPathTraversalError'' 7004 ''IO_PATH_TRAVERSAL''"

definition IONotFoundError :: err_class where
  "IONotFoundError = ErrClass ''IONotFoundError'' 7005 ''IO_NOT_FOUND''"

definition IOBackendError :: err_class where
  "IOBackendError = ErrClass ''IOBackendError'' 7006 ''IO_BACKEND_ERROR''"

definition DataIOTimeoutError :: err_class where
  "DataIOTimeoutError = ErrClass ''DataIOTimeoutError'' 7007 ''DATAIO_TIMEOUT''"

definition MalformedIOFrameError :: err_class where
  "MalformedIOFrameError = ErrClass ''MalformedIOFrameError'' 7008 ''MALFORMED_IO_FRAME''"

definition DataIOUnavailableError :: err_class where
  "DataIOUnavailableError = ErrClass ''DataIOUnavailableError'' 7009 ''DATAIO_UNAVAILABLE''"

definition IOFormatUnavailableError :: err_class where
  "IOFormatUnavailableError = ErrClass ''IOFormatUnavailableError'' 7010 ''IO_FORMAT_UNAVAILABLE''"


definition StorageError :: err_class where
  "StorageError = ErrClass ''StorageError'' 8000 ''STORAGE_ERROR''"


definition StoragePathTraversalError :: err_class where
  "StoragePathTraversalError = ErrClass ''StoragePathTraversalError'' 8001 ''STORAGE_PATH_TRAVERSAL''"

definition StorageBackendIOError :: err_class where
  "StorageBackendIOError = ErrClass ''StorageBackendIOError'' 8002 ''STORAGE_BACKEND_IO_ERROR''"


definition RegistryError :: err_class where
  "RegistryError = ErrClass ''RegistryError'' 2000 ''REGISTRY_ERROR''"


definition FunctionRuntimeError :: err_class where
  "FunctionRuntimeError = ErrClass ''FunctionRuntimeError'' 3000 ''RUNTIME_ERROR''"

definition error_classes :: "err_class list" where
  "error_classes =
    [AxoError, MalformedFrameCountError, MalformedEnvelopeError, MalformedMetadataError,
      MalformedEventEnvelopeError, WireError, MissingFieldError, InvalidFieldError,
      UnknownOperationError, FunctionNotFoundError, JobNotFoundError, InvalidStateError,
      EndpointBusyError, WorkerCrashedError, FunctionExecError, InvocationError, ContainerError,
      ContainerBootstrapError, ContainerCrashError, JobTimeoutError, JobCancelledError,
      QueueFullError, DispatcherClosedError, StorageFailureError, DataNotRegisteredError,
      ChunkIndexOutOfRangeError, ChunkSizeMismatchError, StreamNotOpenError,
      StreamAlreadyFinalizedError, BucketNotFoundError, BucketAlreadyExistsError,
      QuotaExceededError, ResultHashMismatchError, LeaderUnreachableError, StaleTermError,
      ElectionInProgressError, ReplicationRejectedError, ConcurrencyLedgerNotReadyError,
      DataIOError, UnknownIOOpError, UnknownIORefKindError, UnknownIOFormatError,
      IOPathTraversalError, IONotFoundError, IOBackendError, DataIOTimeoutError,
      MalformedIOFrameError, DataIOUnavailableError, IOFormatUnavailableError, StorageError,
      StoragePathTraversalError, StorageBackendIOError, RegistryError, FunctionRuntimeError]"

lemmas error_class_defs =
  AxoError_def MalformedFrameCountError_def MalformedEnvelopeError_def
  MalformedMetadataError_def MalformedEventEnvelopeError_def WireError_def MissingFieldError_def
  InvalidFieldError_def UnknownOperationError_def FunctionNotFoundError_def JobNotFoundError_def
  InvalidStateError_def EndpointBusyError_def WorkerCrashedError_def FunctionExecError_def
  InvocationError_def ContainerError_def ContainerBootstrapError_def ContainerCrashError_def
  JobTimeoutError_def JobCancelledError_def QueueFullError_def DispatcherClosedError_def
  StorageFailureError_def DataNotRegisteredError_def ChunkIndexOutOfRangeError_def
  ChunkSizeMismatchError_def StreamNotOpenError_def StreamAlreadyFinalizedError_def
  BucketNotFoundError_def BucketAlreadyExistsError_def QuotaExceededError_def
  ResultHashMismatchError_def LeaderUnreachableError_def StaleTermError_def
  ElectionInProgressError_def ReplicationRejectedError_def ConcurrencyLedgerNotReadyError_def
  DataIOError_def UnknownIOOpError_def UnknownIORefKindError_def UnknownIOFormatError_def
  IOPathTraversalError_def IONotFoundError_def IOBackendError_def DataIOTimeoutError_def
  MalformedIOFrameError_def DataIOUnavailableError_def IOFormatUnavailableError_def
  StorageError_def StoragePathTraversalError_def StorageBackendIOError_def RegistryError_def
  FunctionRuntimeError_def

datatype axo_error = AxoErr (err_cls: err_class) (err_msg: string)

text \<open>
  The Python exceptions that the code raises or lets through outside its result objects. The
  text of an exception is chosen by the interpreter, so an exception is its class only.
\<close>

datatype py_exc =
    KeyError
  | ValueError
  | TypeError
  | AttributeError
  | IndexError
  | UnicodeDecodeError
  | JSONDecodeError
  | UnwrapError
  | ZeroDivisionError
  | OSError
  | OverflowError
  | DatabaseError
  | PyRaised axo_error

datatype 'a res = Ok (the_ok: 'a) | Err (the_err: axo_error) | Raise py_exc

definition is_ok :: "'a res \<Rightarrow> bool" where
  "is_ok r = (case r of Ok _ \<Rightarrow> True | _ \<Rightarrow> False)"

lemma is_ok_simps [simp]: "is_ok (Ok x)" "\<not> is_ok (Err e)" "\<not> is_ok (Raise ex)"
  by (simp_all add: is_ok_def)

text \<open>
  Sequencing: what follows a call runs on its value, and an error or an exception ends the
  function.
\<close>

definition bind_res :: "'a res \<Rightarrow> ('a \<Rightarrow> 'b res) \<Rightarrow> 'b res" where
  "bind_res r f = (case r of Ok x \<Rightarrow> f x | Err e \<Rightarrow> Err e | Raise ex \<Rightarrow> Raise ex)"

lemma bind_res_simps [simp]:
  "bind_res (Ok x) f = f x" "bind_res (Err e) f = Err e" "bind_res (Raise ex) f = Raise ex"
  by (simp_all add: bind_res_def)

text \<open>Only the base class has the code 0, the one that a result frame leaves out.\<close>

lemma err_code_pos: "list_all (\<lambda>c. 0 < err_code c) (tl error_classes)"
  by (simp add: error_classes_def error_class_defs)

end
