(* ===== verification/Json.thy ===== *)
theory Json
  imports Errors
begin

text \<open>
  The values that travel as JSON (command envelopes, result metadata, replicated state,
  stored results) and the standard library's \<open>json.dumps\<close> and \<open>json.loads\<close> on them, as the
  code calls them: default separators, \<open>ensure_ascii\<close>, strict strings, the last of two equal
  keys wins. \<open>json.loads\<close> is a recursive descent whose first argument bounds the depth of
  calls; \<open>json_loads\<close> starts it with the length of the text, which always suffices, and
  \<open>json_roundtrip\<close> shows that what \<open>json.dumps\<close> writes is read back unchanged.

  Not covered: \<open>NaN\<close>, \<open>Infinity\<close> and escapes above \<open>\u00ff\<close> (rejected here).
\<close>

datatype json =
    JNull
  | JBool bool
  | JInt int
  | JFloat flt
  | JStr string
  | JList "json list"
  | JObj "(string \<times> json) list"

text \<open>\<open>bool(x)\<close>, \<open>isinstance(x, dict)\<close> and \<open>x.get(k)\<close> on a decoded value.\<close>

fun py_truthy :: "json \<Rightarrow> bool" where
  "py_truthy JNull = False"
| "py_truthy (JBool b) = b"
| "py_truthy (JInt i) = (i \<noteq> 0)"
| "py_truthy (JFloat x) = (x \<noteq> 0)"
| "py_truthy (JStr s) = (s \<noteq> [])"
| "py_truthy (JList xs) = (xs \<noteq> [])"
| "py_truthy (JObj d) = (d \<noteq> [])"

definition jget :: "(string, json) dict \<Rightarrow> string \<Rightarrow> json" where
  "jget d k = dget d k JNull"

lemma jget_simps [simp]:
  "map_of d k = None \<Longrightarrow> jget d k = JNull"
  "map_of d k = Some x \<Longrightarrow> jget d k = x"
  by (simp_all add: jget_def)

text \<open>A value that a Python program can hold: dictionaries have distinct keys, at every level.\<close>

fun json_ok :: "json \<Rightarrow> bool" where
  "json_ok (JList xs) = list_all json_ok xs"
| "json_ok (JObj d) = (distinct (dkeys d) \<and> list_all json_ok (dvalues d))"
| "json_ok _ = True"

section \<open>Writing\<close>

definition hex_digit :: "nat \<Rightarrow> char" where
  "hex_digit d = (if d < 10 then char_of (48 + d) else char_of (87 + d))"

definition hex2 :: "nat \<Rightarrow> string" where
  "hex2 n = [hex_digit (n div 16), hex_digit (n mod 16)]"

text \<open>\<open>f"'{s}'"\<close> and \<open>repr(s)\<close>.\<close>

definition quoted :: "string \<Rightarrow> string" where
  "quoted s = [CHR 0x27] @ s @ [CHR 0x27]"

definition repr_char :: "char \<Rightarrow> char \<Rightarrow> string" where
  "repr_char q c =
    (let n = (of_char c :: nat)
     in if c = q \<or> c = CHR 0x5C then [CHR 0x5C, c]
        else if c = CHR 0x09 then [CHR 0x5C, CHR ''t'']
        else if c = CHR 0x0A then [CHR 0x5C, CHR ''n'']
        else if c = CHR 0x0D then [CHR 0x5C, CHR ''r'']
        else if n < 32 \<or> (127 \<le> n \<and> n \<le> 160) \<or> n = 173 then [CHR 0x5C, CHR ''x''] @ hex2 n
        else [c])"

definition py_repr :: "string \<Rightarrow> string" where
  "py_repr s =
    (let q = (if CHR 0x27 \<in> set s \<and> CHR 0x22 \<notin> set s then CHR 0x22 else CHR 0x27)
     in [q] @ concat (map (repr_char q) s) @ [q])"

definition json_char :: "char \<Rightarrow> string" where
  "json_char c =
    (if c = CHR 0x22 then [CHR 0x5C, CHR 0x22]
     else if c = CHR 0x5C then [CHR 0x5C, CHR 0x5C]
     else if c = CHR 0x0A then [CHR 0x5C, CHR ''n'']
     else if c = CHR 0x0D then [CHR 0x5C, CHR ''r'']
     else if c = CHR 0x09 then [CHR 0x5C, CHR ''t'']
     else if c = CHR 0x08 then [CHR 0x5C, CHR ''b'']
     else if c = CHR 0x0C then [CHR 0x5C, CHR ''f'']
     else if 32 \<le> (of_char c :: nat) \<and> (of_char c :: nat) < 127 then [c]
     else [CHR 0x5C, CHR ''u'', CHR ''0'', CHR ''0''] @ hex2 (of_char c))"

definition json_string :: "string \<Rightarrow> string" where
  "json_string s = CHR 0x22 # concat (map json_char s) @ [CHR 0x22]"

text \<open>
  \<open>repr\<close> of a float with six fractional digits: the shortest text that reads back, with an
  exponent below \<open>1e-4\<close>.
\<close>

definition pad6 :: "nat \<Rightarrow> string" where
  "pad6 n = replicate (6 - length (str_nat n)) (CHR ''0'') @ str_nat n"

definition frac_digits :: "nat \<Rightarrow> string" where
  "frac_digits n =
    (if n = 0 then ''0'' else rev (dropWhile (\<lambda>c. c = CHR ''0'') (rev (pad6 n))))"

definition float_abs :: "nat \<Rightarrow> string" where
  "float_abs n =
    (if 0 < n \<and> n < 10 then str_nat n @ ''e-06''
     else if 0 < n \<and> n < 100 then
       (if n mod 10 = 0 then str_nat (n div 10) else str_nat (n div 10) @ ''.'' @ str_nat (n mod 10)) @
       ''e-05''
     else str_nat (n div 1000000) @ ''.'' @ frac_digits (n mod 1000000))"

definition str_float :: "flt \<Rightarrow> string" where
  "str_float x = (if x < 0 then ''-'' else '''') @ float_abs (nat \<bar>x\<bar>)"

fun json_dumps :: "json \<Rightarrow> string" and json_items :: "json list \<Rightarrow> string"
  and json_pairs :: "(string \<times> json) list \<Rightarrow> string" where
  "json_dumps JNull = ''null''"
| "json_dumps (JBool b) = (if b then ''true'' else ''false'')"
| "json_dumps (JInt i) = str_int i"
| "json_dumps (JFloat x) = str_float x"
| "json_dumps (JStr s) = json_string s"
| "json_dumps (JList xs) = ''['' @ json_items xs @ '']''"
| "json_dumps (JObj d) = ''{'' @ json_pairs d @ ''}''"
| "json_items [] = []"
| "json_items [x] = json_dumps x"
| "json_items (x # y # xs) = json_dumps x @ '', '' @ json_items (y # xs)"
| "json_pairs [] = []"
| "json_pairs [(k, v)] = json_string k @ '': '' @ json_dumps v"
| "json_pairs ((k, v) # p # d) = json_string k @ '': '' @ json_dumps v @ '', '' @ json_pairs (p # d)"

section \<open>Reading\<close>

definition json_ws :: "char \<Rightarrow> bool" where
  "json_ws c = (c = CHR '' '' \<or> c = CHR 0x0A \<or> c = CHR 0x0D \<or> c = CHR 0x09)"

abbreviation skip_ws :: "string \<Rightarrow> string" where
  "skip_ws s \<equiv> dropWhile json_ws s"

definition hex_val :: "char \<Rightarrow> nat option" where
  "hex_val c =
    (let n = of_char c :: nat
     in if 48 \<le> n \<and> n \<le> 57 then Some (n - 48)
        else if 97 \<le> n \<and> n \<le> 102 then Some (n - 87)
        else if 65 \<le> n \<and> n \<le> 70 then Some (n - 55)
        else None)"

definition unescape1 :: "char \<Rightarrow> char option" where
  "unescape1 c =
    map_of [(CHR 0x22, CHR 0x22), (CHR 0x5C, CHR 0x5C), (CHR ''/'', CHR ''/''), (CHR ''n'', CHR 0x0A),
            (CHR ''r'', CHR 0x0D), (CHR ''t'', CHR 0x09), (CHR ''b'', CHR 0x08),
            (CHR ''f'', CHR 0x0C)] c"

definition unescape4 :: "string \<Rightarrow> char option" where
  "unescape4 s =
    (case map hex_val s of
       [Some a, Some b, Some c, Some d] \<Rightarrow>
         if a = 0 \<and> b = 0 then Some (char_of (16 * c + d)) else None
     | _ \<Rightarrow> None)"

text \<open>The rest of a string literal, after its opening quote: its text and what follows it.\<close>

fun read_string :: "nat \<Rightarrow> string \<Rightarrow> (string \<times> string) option" where
  "read_string 0 s = None"
| "read_string (Suc n) [] = None"
| "read_string (Suc n) (c # s) =
    (if c = CHR 0x22 then Some ([], s)
     else if c = CHR 0x5C then
       (case s of
          [] \<Rightarrow> None
        | e # s' \<Rightarrow>
            if e = CHR ''u'' then
              (case unescape4 (take 4 s') of
                 None \<Rightarrow> None
               | Some x \<Rightarrow> map_option (apfst ((#) x)) (read_string n (drop 4 s')))
            else
              (case unescape1 e of
                 None \<Rightarrow> None
               | Some x \<Rightarrow> map_option (apfst ((#) x)) (read_string n s')))
     else if (of_char c :: nat) < 32 then None
     else map_option (apfst ((#) c)) (read_string n s))"

text \<open>
  A number: \<open>-?(0|[1-9]\d*)(\.\d+)?([eE][+-]?\d+)?\<close>; an integer unless it has a fraction or an
  exponent.
\<close>

definition read_frac :: "string \<Rightarrow> (string \<times> string)" where
  "read_frac s =
    (case s of
       c # r \<Rightarrow>
         if c = CHR ''.'' \<and> r \<noteq> [] \<and> is_digit (hd r) then (takeWhile is_digit r, dropWhile is_digit r)
         else ([], s)
     | [] \<Rightarrow> ([], s))"

definition read_exp :: "string \<Rightarrow> (int option \<times> string)" where
  "read_exp s =
    (case s of
       c # r \<Rightarrow>
         if c = CHR ''e'' \<or> c = CHR ''E'' then
           (let sg = (r \<noteq> [] \<and> (hd r = CHR ''-'' \<or> hd r = CHR ''+''));
                r' = (if sg then tl r else r)
            in if r' \<noteq> [] \<and> is_digit (hd r')
               then (Some ((if sg \<and> hd r = CHR ''-'' then -1 else 1) *
                            int (nat_of_digits (takeWhile is_digit r'))),
                     dropWhile is_digit r')
               else (None, s))
         else (None, s)
     | [] \<Rightarrow> (None, s))"

definition scale10 :: "nat \<Rightarrow> int \<Rightarrow> nat" where
  "scale10 m e = (if 0 \<le> e then m * 10 ^ nat e else m div 10 ^ nat (- e))"

definition read_int_part :: "string \<Rightarrow> (string \<times> string) option" where
  "read_int_part s =
    (if s = [] \<or> \<not> is_digit (hd s) then None
     else if hd s = CHR ''0'' then Some (''0'', tl s)
     else Some (takeWhile is_digit s, dropWhile is_digit s))"

definition read_number :: "string \<Rightarrow> (json \<times> string) option" where
  "read_number s =
    (let neg = (s \<noteq> [] \<and> hd s = CHR ''-''); sg = (if neg then -1 else 1) :: int
     in case read_int_part (if neg then tl s else s) of
          None \<Rightarrow> None
        | Some (ip, r) \<Rightarrow>
            (case read_frac r of
               (fr, r1) \<Rightarrow>
                 (case read_exp r1 of
                    (ex, r2) \<Rightarrow>
                      if fr = [] \<and> ex = None then Some (JInt (sg * int (nat_of_digits ip)), r2)
                      else Some (JFloat (sg * int (scale10 (nat_of_digits (ip @ fr))
                             (6 - int (length fr) + (case ex of None \<Rightarrow> 0 | Some e \<Rightarrow> e)))), r2))))"

fun read_value :: "nat \<Rightarrow> string \<Rightarrow> (json \<times> string) option"
  and read_items :: "nat \<Rightarrow> string \<Rightarrow> (json list \<times> string) option"
  and read_pairs :: "nat \<Rightarrow> string \<Rightarrow> ((string, json) dict \<times> string) option" where
  "read_value 0 s = None"
| "read_value (Suc n) s =
    (case s of
       [] \<Rightarrow> None
     | c # r \<Rightarrow>
         if c = CHR 0x22 then map_option (apfst JStr) (read_string (length s) r)
         else if c = CHR ''{'' then
           (case skip_ws r of
              [] \<Rightarrow> None
            | c' # r' \<Rightarrow> if c' = CHR ''}'' then Some (JObj [], r')
                       else map_option (apfst (\<lambda>ps. JObj (dmerge [] ps))) (read_pairs n (c' # r')))
         else if c = CHR ''['' then
           (case skip_ws r of
              [] \<Rightarrow> None
            | c' # r' \<Rightarrow> if c' = CHR '']'' then Some (JList [], r')
                       else map_option (apfst JList) (read_items n (c' # r')))
         else if prefix ''null'' s then Some (JNull, drop 4 s)
         else if prefix ''true'' s then Some (JBool True, drop 4 s)
         else if prefix ''false'' s then Some (JBool False, drop 5 s)
         else read_number s)"
| "read_items 0 s = None"
| "read_items (Suc n) s =
    (case read_value n s of
       None \<Rightarrow> None
     | Some (v, r) \<Rightarrow>
         (case skip_ws r of
            [] \<Rightarrow> None
          | c # r' \<Rightarrow> if c = CHR '']'' then Some ([v], r')
                    else if c = CHR '','' then map_option (apfst ((#) v)) (read_items n (skip_ws r'))
                    else None))"
| "read_pairs 0 s = None"
| "read_pairs (Suc n) s =
    (case s of
       [] \<Rightarrow> None
     | q # r \<Rightarrow>
         if q \<noteq> CHR 0x22 then None
         else (case read_string (length s) r of
           None \<Rightarrow> None
         | Some (k, r1) \<Rightarrow>
             (case skip_ws r1 of
                [] \<Rightarrow> None
              | col # r2 \<Rightarrow>
                  if col \<noteq> CHR '':'' then None
                  else (case read_value n (skip_ws r2) of
                    None \<Rightarrow> None
                  | Some (v, r3) \<Rightarrow>
                      (case skip_ws r3 of
                         [] \<Rightarrow> None
                       | c # r4 \<Rightarrow> if c = CHR ''}'' then Some ([(k, v)], r4)
                                 else if c = CHR '','' then
                                   map_option (apfst ((#) (k, v))) (read_pairs n (skip_ws r4))
                                 else None)))))"

definition json_loads :: "string \<Rightarrow> json option" where
  "json_loads s =
    (case read_value (Suc (length s)) (skip_ws s) of
       Some (v, r) \<Rightarrow> if skip_ws r = [] then Some v else None
     | None \<Rightarrow> None)"

section \<open>What is written is read back\<close>

lemma hex_val_hex_digit [simp]: "d < 16 \<Longrightarrow> hex_val (hex_digit d) = Some d"
  by (simp add: hex_val_def hex_digit_def of_char_of)

lemma char_of_nat_parts: "(char_of (16 * (of_char c div 16) + of_char c mod 16 :: nat) :: char) = c"
  by (simp del: of_char_eq_iff)

lemma of_char_less: "(of_char c :: nat) < 256"
  by simp

lemma unescape4_char [simp]:
  "unescape4 [CHR ''0'', CHR ''0'', hex_digit (of_char c div 16), hex_digit (of_char c mod 16)] = Some c"
proof -
  have "(of_char c :: nat) div 16 < 16" using of_char_less [of c] by linarith
  moreover have "hex_val (CHR ''0'') = Some 0" by (simp add: hex_val_def)
  ultimately show ?thesis by (simp add: unescape4_def char_of_nat_parts)
qed

lemma unescape1_simps [simp]:
  "unescape1 (CHR 0x22) = Some (CHR 0x22)" "unescape1 (CHR 0x5C) = Some (CHR 0x5C)"
  "unescape1 (CHR ''n'') = Some (CHR 0x0A)" "unescape1 (CHR ''r'') = Some (CHR 0x0D)"
  "unescape1 (CHR ''t'') = Some (CHR 0x09)" "unescape1 (CHR ''b'') = Some (CHR 0x08)"
  "unescape1 (CHR ''f'') = Some (CHR 0x0C)"
  by (simp_all add: unescape1_def)

lemma json_char_ne: "json_char c \<noteq> []"
  by (simp add: json_char_def)

lemma read_string_char:
  "0 < n \<Longrightarrow> read_string n (json_char c @ s) = map_option (apfst ((#) c)) (read_string (n - 1) s)"
  by (cases n) (simp_all add: json_char_def hex2_def)

lemma read_string_written:
  "length s < n \<Longrightarrow> read_string n (concat (map json_char s) @ CHR 0x22 # r) = Some (s, r)"
proof (induction s arbitrary: n)
  case Nil
  then show ?case by (cases n) simp_all
next
  case (Cons c s)
  then show ?case by (simp add: read_string_char)
qed

lemma length_json_chars: "length s \<le> length (concat (map json_char s))"
proof (induction s)
  case (Cons c s)
  have "1 \<le> length (json_char c)" using json_char_ne [of c] by (cases "json_char c") auto
  then show ?case using Cons by simp
qed simp

lemma read_json_string:
  "read_string (length (json_string s @ r)) (tl (json_string s @ r)) = Some (s, r)"
proof -
  have "length s < length (json_string s @ r)"
    using length_json_chars [of s] by (simp add: json_string_def)
  from read_string_written [OF this, of r] show ?thesis by (simp add: json_string_def)
qed

lemma json_string_Cons: "json_string s = CHR 0x22 # tl (json_string s)"
  by (simp add: json_string_def)

text \<open>Numbers end where a delimiter follows.\<close>

definition delimited :: "string \<Rightarrow> bool" where
  "delimited r = (r = [] \<or> hd r \<in> {CHR '','', CHR '']'', CHR ''}''})"

lemma delimited_simps [simp]:
  "delimited []" "delimited (CHR '','' # r)" "delimited (CHR '']'' # r)" "delimited (CHR ''}'' # r)"
  by (simp_all add: delimited_def)

definition no_digit :: "string \<Rightarrow> bool" where
  "no_digit r = (r = [] \<or> \<not> is_digit (hd r))"

lemma no_digit_simps [simp]: "no_digit []" "no_digit (c # r) \<longleftrightarrow> \<not> is_digit c"
  by (simp_all add: no_digit_def)

lemma delimited_no_digit: "delimited r \<Longrightarrow> no_digit r"
  by (auto simp: delimited_def no_digit_def)

lemma takeWhile_digits [simp]:
  "list_all is_digit ds \<Longrightarrow> no_digit r \<Longrightarrow> takeWhile is_digit (ds @ r) = ds"
  "list_all is_digit ds \<Longrightarrow> no_digit r \<Longrightarrow> dropWhile is_digit (ds @ r) = r"
  by (induction ds) (cases r; auto)+

lemma digit_char_0: "d < 10 \<Longrightarrow> digit_char d = CHR ''0'' \<longleftrightarrow> d = 0"
  by (simp add: digit_char_def char_of_eq_iff take_bit_eq_mod)

lemma str_nat_0 [simp]: "str_nat 0 = ''0''"
  by (simp add: str_nat.simps digit_char_0)

lemma str_nat_head: "0 < n \<Longrightarrow> hd (str_nat n) \<noteq> CHR ''0''"
proof (induction n rule: str_nat.induct)
  case (1 n)
  then show ?case
    by (cases "n < 10") (simp_all add: str_nat.simps [of n] digit_char_0 hd_append)
qed

lemma read_int_part_str_nat: "no_digit r \<Longrightarrow> read_int_part (str_nat n @ r) = Some (str_nat n, r)"
proof (cases "n = 0")
  case False
  assume r: "no_digit r"
  obtain c t where ct: "str_nat n = c # t" "is_digit c" by (rule str_nat_Cons)
  moreover have "c \<noteq> CHR ''0''" using str_nat_head [of n] False ct by simp
  ultimately show ?thesis
    using takeWhile_digits [OF str_nat_digits r, of n] by (simp add: read_int_part_def)
qed (simp add: read_int_part_def is_digit_def)

lemma str_nat_first: "str_nat n @ r \<noteq> []" "hd (str_nat n @ r) \<noteq> CHR ''-''"
proof -
  obtain c t where "str_nat n = c # t" "is_digit c" by (rule str_nat_Cons)
  then show "str_nat n @ r \<noteq> []" "hd (str_nat n @ r) \<noteq> CHR ''-''" by auto
qed

lemma hd_str_nat [simp]: "hd (str_nat n) \<noteq> CHR ''-''"
  using str_nat_first(2) [of n "[]"] by simp

lemma read_frac_none: "delimited r \<Longrightarrow> read_frac r = ([], r)"
  by (cases r) (auto simp: read_frac_def delimited_def)

lemma read_exp_none: "delimited r \<Longrightarrow> read_exp r = (None, r)"
  by (cases r) (auto simp: read_exp_def delimited_def)

lemma read_number_sign:
  assumes "t \<noteq> []" "hd t \<noteq> CHR ''-''"
  shows "read_number (CHR ''-'' # t) =
    map_option (apfst (\<lambda>j. case j of JInt i \<Rightarrow> JInt (- i) | JFloat x \<Rightarrow> JFloat (- x) | j \<Rightarrow> j))
      (read_number t)"
  using assms by (simp add: read_number_def split: option.splits prod.splits)

lemma read_str_nat:
  "delimited r \<Longrightarrow> read_number (str_nat n @ r) = Some (JInt (int n), r)"
  by (simp add: read_number_def str_nat_first read_int_part_str_nat delimited_no_digit
      read_frac_none read_exp_none)

lemma read_str_int: "delimited r \<Longrightarrow> read_number (str_int i @ r) = Some (JInt i, r)"
  by (simp add: str_int_def read_number_sign [OF str_nat_first] read_str_nat)

text \<open>The fraction of a float, its zeros cut off at the end.\<close>

lemma nat_of_digits_append:
  "nat_of_digits (a @ b) = nat_of_digits a * 10 ^ length b + nat_of_digits b"
proof (induction b rule: rev_induct)
  case (snoc c b)
  have "nat_of_digits (a @ b @ [c]) = 10 * nat_of_digits (a @ b) + digit_val c"
    using nat_of_digits_snoc [of "a @ b" c] by simp
  then show ?case using snoc by simp
qed simp

lemma nat_of_digits_zeros [simp]: "nat_of_digits (replicate k (CHR ''0'')) = 0"
  by (induction k) (simp_all add: nat_of_digits_append [of "[_]", simplified] nat_of_digits_def digit_val_def)

lemma length_str_nat: "0 < k \<Longrightarrow> n < 10 ^ k \<Longrightarrow> length (str_nat n) \<le> k"
proof (induction n arbitrary: k rule: str_nat.induct)
  case (1 n)
  show ?case
  proof (cases "n < 10")
    case True
    then show ?thesis using 1 by (simp add: str_nat.simps [of n])
  next
    case False
    then obtain j where k: "k = Suc j" "0 < j" using 1 by (cases k; cases "k - 1") auto
    with 1 have "n div 10 < 10 ^ j" by (simp add: less_mult_imp_div_less)
    then show ?thesis using 1 False k by (simp add: str_nat.simps [of n])
  qed
qed

lemma pad6_facts:
  assumes "m < 1000000"
  shows "length (pad6 m) = 6" "nat_of_digits (pad6 m) = m" "list_all is_digit (pad6 m)"
  using length_str_nat [of 6 m] assms str_nat_digits [of m]
  by (simp_all add: pad6_def nat_of_digits_append) (auto simp: list_all_iff is_digit_def)

lemma frac_digits_facts:
  assumes m: "m < 1000000"
  shows "frac_digits m \<noteq> []" "list_all is_digit (frac_digits m)" "length (frac_digits m) \<le> 6"
    "nat_of_digits (frac_digits m) * 10 ^ (6 - length (frac_digits m)) = m"
proof -
  define z where "z = (\<lambda>c. c = CHR ''0'')"
  define ds where "ds = rev (dropWhile z (rev (pad6 m)))"
  define ks where "ks = takeWhile z (rev (pad6 m))"
  have ks: "ks = replicate (length ks) (CHR ''0'')"
    by (rule replicate_length_same [symmetric]) (auto simp: ks_def z_def dest: set_takeWhileD)
  have split: "pad6 m = ds @ rev ks"
    by (simp add: ds_def ks_def flip: rev_append)
  then have len: "length ds + length ks = 6" using pad6_facts(1) [OF m] by simp
  have "nat_of_digits (ds @ rev ks) = nat_of_digits ds * 10 ^ length ks"
    by (subst ks) (simp add: nat_of_digits_append)
  then have val: "nat_of_digits ds * 10 ^ length ks = m" using pad6_facts(2) [OF m] split by simp
  have dig: "list_all is_digit ds" using pad6_facts(3) [OF m] split by simp
  have ne: "ds \<noteq> []" if "m \<noteq> 0" using val that by auto
  have frac: "frac_digits m = (if m = 0 then ''0'' else ds)"
    by (simp add: frac_digits_def ds_def z_def)
  have kl: "length ks = 6 - length ds" and "length ds \<le> 6" using len by simp_all
  then show "frac_digits m \<noteq> []" "list_all is_digit (frac_digits m)" "length (frac_digits m) \<le> 6"
    "nat_of_digits (frac_digits m) * 10 ^ (6 - length (frac_digits m)) = m"
    using frac ne dig val
    by (cases "m = 0"; simp add: is_digit_def nat_of_digits_def digit_val_def)+
qed

lemma read_float_parts:
  assumes "no_digit t" "read_frac t = (fr, r1)" "read_exp r1 = (ex, r2)" "fr \<noteq> [] \<or> ex \<noteq> None"
  shows "read_number (str_nat a @ t) =
    Some (JFloat (int (scale10 (a * 10 ^ length fr + nat_of_digits fr)
            (6 - int (length fr) + (case ex of None \<Rightarrow> 0 | Some e \<Rightarrow> e)))), r2)"
  using assms by (auto simp: read_number_def str_nat_first read_int_part_str_nat nat_of_digits_append)

lemma read_exp_small:
  assumes "delimited r"
  shows "read_exp (''e-05'' @ r) = (Some (-5), r)" "read_exp (''e-06'' @ r) = (Some (-6), r)"
  using takeWhile_digits [of "''05''" r] takeWhile_digits [of "''06''" r] delimited_no_digit [OF assms]
  by (simp_all add: read_exp_def is_digit_def nat_of_digits_def digit_val_def)

lemma read_frac_digits:
  "ds \<noteq> [] \<Longrightarrow> list_all is_digit ds \<Longrightarrow> no_digit r \<Longrightarrow> read_frac (''.'' @ ds @ r) = (ds, r)"
  by (cases ds) (simp_all add: read_frac_def)

lemma read_float_abs:
  assumes r: "delimited r"
  shows "read_number (float_abs n @ r) = Some (JFloat (int n), r)"
proof -
  have small: ?thesis if n: "0 < n" "n < 100"
  proof (cases "n < 10")
    case True
    have "read_number (str_nat n @ (''e-06'' @ r)) = Some (JFloat (int n), r)"
      by (subst read_float_parts [where fr = "[]", OF _ _ read_exp_small(2) [OF r]])
         (simp_all add: read_frac_def scale10_def)
    then show ?thesis using n True by (simp add: float_abs_def)
  next
    case big: False
    show ?thesis
    proof (cases "n mod 10 = 0")
      case True
      then have "int (n div 10) * 10 = int n" by presburger
      then have "read_number (str_nat (n div 10) @ (''e-05'' @ r)) = Some (JFloat (int n), r)"
        by (subst read_float_parts [where fr = "[]", OF _ _ read_exp_small(1) [OF r]])
           (simp_all add: read_frac_def scale10_def)
      then show ?thesis using n True big by (simp add: float_abs_def)
    next
      case False
      have one: "length (str_nat (n mod 10)) = 1" by (simp add: str_nat.simps)
      have "read_frac (''.'' @ str_nat (n mod 10) @ (''e-05'' @ r)) = (str_nat (n mod 10), ''e-05'' @ r)"
        by (rule read_frac_digits) (simp_all add: str_nat_digits is_digit_def)
      then have "read_number (str_nat (n div 10) @ (''.'' @ str_nat (n mod 10) @ (''e-05'' @ r))) =
          Some (JFloat (int n), r)"
        by (subst read_float_parts [where fr = "str_nat (n mod 10)", OF _ _ read_exp_small(1) [OF r]])
           (simp_all add: scale10_def one)
      then show ?thesis using n big False by (simp add: float_abs_def)
    qed
  qed
  have large: ?thesis if n: "\<not> (0 < n \<and> n < 100)"
  proof -
    define ds where "ds = frac_digits (n mod 1000000)"
    have m: "n mod 1000000 < 1000000" by simp
    note ds = frac_digits_facts [OF m, folded ds_def]
    have "read_frac (''.'' @ ds @ r) = (ds, r)"
      by (rule read_frac_digits [OF ds(1,2) delimited_no_digit [OF r]])
    then have "read_number (str_nat (n div 1000000) @ (''.'' @ ds @ r)) =
        Some (JFloat (int (scale10 (n div 1000000 * 10 ^ length ds + nat_of_digits ds)
          (6 - int (length ds)))), r)"
      using ds(1) by (subst read_float_parts [OF _ _ read_exp_none [OF r]]) simp_all
    moreover have "scale10 (n div 1000000 * 10 ^ length ds + nat_of_digits ds) (6 - int (length ds)) = n"
    proof -
      have e: "nat (6 - int (length ds)) = 6 - length ds" using ds(3) by simp
      have "(10::nat) ^ length ds * 10 ^ (6 - length ds) = 1000000"
        using ds(3) by (simp flip: power_add)
      then have "(n div 1000000 * 10 ^ length ds + nat_of_digits ds) * 10 ^ (6 - length ds) =
          n div 1000000 * 1000000 + n mod 1000000"
        using ds(4) by (simp add: distrib_right mult.assoc)
      then show ?thesis using ds(3) e by (simp add: scale10_def)
    qed
    ultimately show ?thesis using n by (auto simp: float_abs_def ds_def)
  qed
  from small large show ?thesis by blast
qed

lemma float_abs_first: "float_abs n @ r \<noteq> []" "hd (float_abs n @ r) \<noteq> CHR ''-''"
  by (simp_all add: float_abs_def hd_append)

lemma read_str_float: "delimited r \<Longrightarrow> read_number (str_float x @ r) = Some (JFloat x, r)"
  using float_abs_first [of "nat \<bar>x\<bar>" r]
  by (auto simp: str_float_def read_number_sign read_float_abs)

text \<open>The first character of a written value tells the reader what to do.\<close>

definition num_start :: "string \<Rightarrow> bool" where
  "num_start s = (s \<noteq> [] \<and> (is_digit (hd s) \<or> hd s = CHR ''-''))"

lemma num_start_str_nat [simp]: "num_start (str_nat n @ r)"
  using str_nat_Cons [of n] by (metis append_Cons list.sel(1) list.distinct(1) num_start_def)

lemma num_start_minus [simp]: "num_start (CHR ''-'' # r)"
  by (simp add: num_start_def)

lemma num_start_str_int [simp]: "num_start (str_int i @ r)"
  by (simp add: str_int_def)

lemma num_start_zero [simp]: "num_start (CHR ''0'' # r)"
  by (simp add: num_start_def is_digit_def)

lemma num_start_str_float [simp]: "num_start (str_float x @ r)"
  by (simp add: str_float_def float_abs_def)

lemma read_value_num: "num_start s \<Longrightarrow> read_value (Suc n) s = read_number s"
proof (cases s)
  case (Cons c t)
  assume "num_start s"
  then have c: "is_digit c \<or> c = CHR ''-''" by (simp add: num_start_def Cons)
  have "c \<noteq> CHR 0x22" "c \<noteq> CHR ''{''" "c \<noteq> CHR ''[''" "c \<noteq> CHR ''n''" "c \<noteq> CHR ''t''"
    "c \<noteq> CHR ''f''"
    using c by auto
  then show ?thesis by (simp add: Cons)
qed (simp add: num_start_def)

lemma json_ws_simps [simp]:
  "json_ws (CHR '' '')" "\<not> json_ws (CHR '','')" "\<not> json_ws (CHR '':'')" "\<not> json_ws (CHR ''['')"
  "\<not> json_ws (CHR '']'')" "\<not> json_ws (CHR ''{'')" "\<not> json_ws (CHR ''}'')" "\<not> json_ws (CHR 0x22)"
  "\<not> json_ws (CHR ''n'')" "\<not> json_ws (CHR ''t'')" "\<not> json_ws (CHR ''f'')" "\<not> json_ws (CHR ''-'')"
  by (simp_all add: json_ws_def)

definition value_start :: "string \<Rightarrow> bool" where
  "value_start s = (s \<noteq> [] \<and> \<not> json_ws (hd s) \<and> hd s \<noteq> CHR '']'' \<and> hd s \<noteq> CHR ''}'')"

lemma is_digit_not_ws: "is_digit c \<Longrightarrow> \<not> json_ws c"
  by (auto simp: json_ws_def is_digit_def)

lemma value_start_num: "num_start s \<Longrightarrow> value_start s"
proof -
  assume "num_start s"
  then have "s \<noteq> []" and "is_digit (hd s) \<or> hd s = CHR ''-''" by (simp_all add: num_start_def)
  moreover from this(2) have "hd s \<noteq> CHR '']'' \<and> hd s \<noteq> CHR ''}'' \<and> \<not> json_ws (hd s)"
  proof
    assume d: "is_digit (hd s)"
    then have "hd s \<noteq> CHR '']''" "hd s \<noteq> CHR ''}''" by (metis is_digit_simps)+
    with is_digit_not_ws [OF d] show ?thesis by simp
  qed simp
  ultimately show ?thesis by (simp add: value_start_def)
qed

lemma value_start_dumps [simp]: "value_start (json_dumps v @ r)"
proof (cases v)
  case (JInt i)
  then show ?thesis by (simp add: value_start_num)
next
  case (JFloat x)
  then show ?thesis by (simp add: value_start_num)
qed (auto simp: value_start_def json_string_def)

lemma value_start_items [simp]: "xs \<noteq> [] \<Longrightarrow> value_start (json_items xs @ r)"
  by (cases xs; cases "tl xs"; auto)

lemma skip_ws_value [simp]: "value_start s \<Longrightarrow> skip_ws s = s"
  by (cases s) (auto simp: value_start_def)

lemma json_pairs_start: "d \<noteq> [] \<Longrightarrow> json_pairs d = CHR 0x22 # tl (json_pairs d)"
  by (cases d; cases "tl d"; auto simp: json_string_def)

lemma value_start_pairs [simp]: "d \<noteq> [] \<Longrightarrow> value_start (json_pairs d @ r)"
  by (subst json_pairs_start) (simp_all add: value_start_def json_ws_def)

lemma read_items_step:
  "read_value n s = Some (v, r) \<Longrightarrow>
   read_items (Suc n) s =
     (case skip_ws r of
        [] \<Rightarrow> None
      | c # r' \<Rightarrow> if c = CHR '']'' then Some ([v], r')
                else if c = CHR '','' then map_option (apfst ((#) v)) (read_items n (skip_ws r'))
                else None)"
  by simp

lemma read_pairs_step:
  "read_value n (json_dumps v @ r) = Some (v', r3) \<Longrightarrow>
   read_pairs (Suc n) (json_string k @ '': '' @ json_dumps v @ r) =
     (case skip_ws r3 of
        [] \<Rightarrow> None
      | c # r4 \<Rightarrow> if c = CHR ''}'' then Some ([(k, v')], r4)
                else if c = CHR '','' then map_option (apfst ((#) (k, v'))) (read_pairs n (skip_ws r4))
                else None)"
proof -
  assume v: "read_value n (json_dumps v @ r) = Some (v', r3)"
  obtain t where t: "json_string k = CHR 0x22 # t" by (simp add: json_string_def)
  have "read_string (length (json_string k @ '': '' @ json_dumps v @ r)) (t @ '': '' @ json_dumps v @ r) =
      Some (k, '': '' @ json_dumps v @ r)"
    using read_json_string [of k "'': '' @ json_dumps v @ r"] by (simp add: t)
  then show ?thesis using v by (simp add: t del: read_string.simps)
qed

lemma json_dumps_length: "0 < length (json_dumps v)"
  using value_start_dumps [of v "[]"] by (simp add: value_start_def)

lemma read_written:
  "json_ok v \<Longrightarrow> delimited r \<Longrightarrow> length (json_dumps v) < n \<Longrightarrow>
     read_value n (json_dumps v @ r) = Some (v, r)"
  "xs \<noteq> [] \<Longrightarrow> list_all json_ok xs \<Longrightarrow> Suc (length (json_items xs)) < n \<Longrightarrow>
     read_items n (json_items xs @ CHR '']'' # r) = Some (xs, r)"
  "d \<noteq> [] \<Longrightarrow> list_all json_ok (dvalues d) \<Longrightarrow> Suc (length (json_pairs d)) < n \<Longrightarrow>
     read_pairs n (json_pairs d @ CHR ''}'' # r) = Some (d, r)"
proof (induction v and xs and d arbitrary: n r and n r and n r
    rule: json_dumps_json_items_json_pairs.induct)
  case 1
  then show ?case by (cases n) (simp_all add: prefix_def)
next
  case (2 b)
  then show ?case by (cases n; cases b; simp add: prefix_def)
next
  case (3 i)
  then show ?case by (cases n) (simp_all add: read_value_num read_str_int del: read_value.simps(2))
next
  case (4 x)
  then show ?case by (cases n) (simp_all add: read_value_num read_str_float del: read_value.simps(2))
next
  case (5 s)
  obtain t where t: "json_string s = CHR 0x22 # t" by (simp add: json_string_def)
  show ?case using 5 read_json_string [of s r] by (cases n) (simp_all add: t)
next
  case (6 xs)
  then obtain m where n: "n = Suc m" by (cases n) auto
  show ?case
  proof (cases "xs = []")
    case True
    then show ?thesis using n by simp
  next
    case False
    with 6 n have it: "read_items m (json_items xs @ CHR '']'' # r) = Some (xs, r)" by auto
    have "value_start (json_items xs @ CHR '']'' # r)" using False by simp
    then obtain c t where ct: "json_items xs @ CHR '']'' # r = c # t" "\<not> json_ws c" "c \<noteq> CHR '']''"
      by (cases "json_items xs @ CHR '']'' # r") (auto simp: value_start_def)
    show ?thesis using it n ct by simp
  qed
next
  case (7 d)
  then obtain m where n: "n = Suc m" by (cases n) auto
  show ?case
  proof (cases "d = []")
    case True
    then show ?thesis using n by simp
  next
    case False
    with 7 n have it: "read_pairs m (json_pairs d @ CHR ''}'' # r) = Some (d, r)" by auto
    have "value_start (json_pairs d @ CHR ''}'' # r)" using False by simp
    then obtain c t where ct: "json_pairs d @ CHR ''}'' # r = c # t" "\<not> json_ws c" "c \<noteq> CHR ''}''"
      by (cases "json_pairs d @ CHR ''}'' # r") (auto simp: value_start_def)
    have "dmerge [] d = d" using 7 by (simp add: dmerge_Nil_left dict_ok_def)
    then show ?thesis using it n ct by simp
  qed
next
  case 8
  then show ?case by simp
next
  case (9 x)
  then obtain m where n: "n = Suc m" by (cases n) auto
  with 9 have "read_value m (json_dumps x @ CHR '']'' # r) = Some (x, CHR '']'' # r)" by simp
  then show ?case by (simp add: n read_items_step del: read_items.simps)
next
  case (10 x y xs)
  then obtain m where n: "n = Suc m" by (cases n) auto
  let ?r = "json_items (y # xs) @ CHR '']'' # r"
  have "read_value m (json_dumps x @ '', '' @ ?r) = Some (x, '', '' @ ?r)"
    using 10 n by simp
  moreover have "read_items m ?r = Some (y # xs, r)" using 10 n by simp
  ultimately show ?case
    by (simp add: n read_items_step del: read_items.simps json_items.simps(3)) (simp add: read_items_step)
next
  case 11
  then show ?case by simp
next
  case (12 k v)
  then obtain m where n: "n = Suc m" by (cases n) auto
  with 12 have "read_value m (json_dumps v @ CHR ''}'' # r) = Some (v, CHR ''}'' # r)" by simp
  from read_pairs_step [OF this] show ?case by (simp add: n del: read_pairs.simps)
next
  case (13 k v p d)
  then obtain m where n: "n = Suc m" by (cases n) auto
  let ?r = "json_pairs (p # d) @ CHR ''}'' # r"
  have v: "read_value m (json_dumps v @ '', '' @ ?r) = Some (v, '', '' @ ?r)"
    using 13 n by simp
  have "read_pairs m ?r = Some (p # d, r)" using 13 n by simp
  moreover have "skip_ws ?r = ?r" by (intro skip_ws_value value_start_pairs) simp
  ultimately show ?case
    using read_pairs_step [OF v, of k] by (simp add: n del: read_pairs.simps)
qed

theorem json_roundtrip: "json_ok v \<Longrightarrow> json_loads (json_dumps v) = Some v"
proof -
  assume "json_ok v"
  then have "read_value (Suc (length (json_dumps v))) (json_dumps v @ []) = Some (v, [])"
    by (intro read_written) simp_all
  moreover have "skip_ws (json_dumps v) = json_dumps v"
    using value_start_dumps [of v "[]"] by simp
  ultimately show ?thesis by (simp add: json_loads_def del: read_value.simps)
qed

end
