(* ===== verification/Protocol.thy ===== *)
theory Protocol
  imports Json
begin

text \<open>
  Commands and their results (\<open>axo_shared/protocol.py\<close>), the frames they travel in
  (\<open>axo_shared/wire.py\<close>) and the event envelope (\<open>axo_shared/events/envelope.py\<close>). The lemmas
  show what survives the wire: a command does, a result does but for its error code and
  name, which arrive inside the metadata.

  \<open>json.loads\<close> accepts any JSON value where the code expects an object, so a decoded envelope
  or metadata is a \<open>json\<close>; reading a field of something else raises \<open>AttributeError\<close>.
\<close>

section \<open>Commands and results\<close>

record command =
  operation :: string
  content_type :: string
  envelope :: json
  payload :: bytes

record command_result =
  cr_ok :: bool
  cr_payload :: bytes
  cr_error :: string
  cr_error_code :: nat
  cr_error_name :: string
  cr_metadata :: json

text \<open>The constructor with its defaults, for a success and for a bare failure text.\<close>

definition result_ok :: "(string, json) dict \<Rightarrow> command_result" where
  "result_ok meta = \<lparr>cr_ok = True, cr_payload = [], cr_error = [], cr_error_code = 0,
     cr_error_name = [], cr_metadata = JObj meta\<rparr>"

definition result_text :: "string \<Rightarrow> command_result" where
  "result_text err = \<lparr>cr_ok = False, cr_payload = [], cr_error = err, cr_error_code = 0,
     cr_error_name = [], cr_metadata = JObj []\<rparr>"

definition from_error_meta :: "axo_error \<Rightarrow> (string, json) dict \<Rightarrow> command_result" where
  "from_error_meta e meta = \<lparr>cr_ok = False, cr_payload = [], cr_error = err_msg e,
     cr_error_code = err_code (err_cls e), cr_error_name = err_name (err_cls e),
     cr_metadata = JObj meta\<rparr>"

abbreviation from_error :: "axo_error \<Rightarrow> command_result" where
  "from_error e \<equiv> from_error_meta e []"

text \<open>
  \<open>str(exc)\<close>. The text of an exception of our own is its message; the interpreter chooses the
  text of the others, and the class name stands for it.
\<close>

fun exc_text :: "py_exc \<Rightarrow> string" where
  "exc_text KeyError = ''KeyError''"
| "exc_text ValueError = ''ValueError''"
| "exc_text TypeError = ''TypeError''"
| "exc_text AttributeError = ''AttributeError''"
| "exc_text IndexError = ''IndexError''"
| "exc_text UnicodeDecodeError = ''UnicodeDecodeError''"
| "exc_text JSONDecodeError = ''JSONDecodeError''"
| "exc_text UnwrapError = ''UnwrapError''"
| "exc_text ZeroDivisionError = ''ZeroDivisionError''"
| "exc_text OSError = ''OSError''"
| "exc_text OverflowError = ''OverflowError''"
| "exc_text DatabaseError = ''DatabaseError''"
| "exc_text (PyRaised e) = err_msg e"

section \<open>Frames\<close>

text \<open>\<open>json.loads(b.decode("utf-8"))\<close>, with the two exceptions that the callers catch.\<close>

definition loads_bytes :: "bytes \<Rightarrow> json res" where
  "loads_bytes b =
    (case utf8_decode b of
       None \<Rightarrow> Raise UnicodeDecodeError
     | Some s \<Rightarrow> (case json_loads s of None \<Rightarrow> Raise JSONDecodeError | Some v \<Rightarrow> Ok v))"

definition dumps_bytes :: "json \<Rightarrow> bytes" where
  "dumps_bytes v = utf8_encode (json_dumps v)"

lemma loads_dumps [simp]: "json_ok v \<Longrightarrow> loads_bytes (dumps_bytes v) = Ok v"
  by (simp add: loads_bytes_def dumps_bytes_def json_roundtrip)

lemma loads_bytes_cases: "(\<exists>v. loads_bytes b = Ok v) \<or>
    loads_bytes b = Raise UnicodeDecodeError \<or> loads_bytes b = Raise JSONDecodeError"
  by (simp add: loads_bytes_def split: option.splits)

definition encode_command :: "command \<Rightarrow> bytes list" where
  "encode_command c =
    [utf8_encode (operation c), utf8_encode (content_type c), dumps_bytes (envelope c), payload c]"

definition frame_count_error :: "bytes list \<Rightarrow> axo_error" where
  "frame_count_error frames =
    AxoErr MalformedFrameCountError (''expected 4 frames, got '' @ str_nat (length frames))"

definition decode_command :: "bytes list \<Rightarrow> command res" where
  "decode_command frames =
    (case frames of
       [operation_b, content_type_b, envelope_b, payload_b] \<Rightarrow>
         (case loads_bytes envelope_b of
            Raise ex \<Rightarrow> Err (AxoErr MalformedEnvelopeError (exc_text ex))
          | Err e \<Rightarrow> Err e
          | Ok env \<Rightarrow>
              (case utf8_decode operation_b of
                 None \<Rightarrow> Raise UnicodeDecodeError
               | Some op \<Rightarrow>
                   (case utf8_decode content_type_b of
                      None \<Rightarrow> Raise UnicodeDecodeError
                    | Some ct \<Rightarrow>
                        Ok \<lparr>operation = op, content_type = ct, envelope = env, payload = payload_b\<rparr>)))
     | _ \<Rightarrow> Err (frame_count_error frames))"

text \<open>
  \<open>dict(result.metadata)\<close> raises on a value that is no mapping (a list of pairs, which
  \<open>dict\<close> would also take, never reaches this point and counts as such here).
\<close>

definition encode_command_result :: "command_result \<Rightarrow> bytes list res" where
  "encode_command_result r =
    (case cr_metadata r of
       JObj d \<Rightarrow>
         (let meta = (if cr_error_code r \<noteq> 0
                      then dput ''error_name'' (JStr (cr_error_name r))
                             (dput ''error_code'' (JInt (int (cr_error_code r))) d)
                      else d)
          in Ok [if cr_ok r then ''1'' else ''0'', utf8_encode (cr_error r), dumps_bytes (JObj meta),
                 cr_payload r])
     | _ \<Rightarrow> Raise TypeError)"

definition decode_command_result :: "bytes list \<Rightarrow> command_result res" where
  "decode_command_result frames =
    (case frames of
       [ok_b, error_b, metadata_b, payload_b] \<Rightarrow>
         (case loads_bytes metadata_b of
            Raise ex \<Rightarrow> Err (AxoErr MalformedMetadataError (exc_text ex))
          | Err e \<Rightarrow> Err e
          | Ok meta \<Rightarrow>
              (case utf8_decode error_b of
                 None \<Rightarrow> Raise UnicodeDecodeError
               | Some err \<Rightarrow>
                   Ok \<lparr>cr_ok = (ok_b = ''1''), cr_payload = payload_b, cr_error = err,
                       cr_error_code = 0, cr_error_name = [], cr_metadata = meta\<rparr>))
     | _ \<Rightarrow> Err (frame_count_error frames))"

subsection \<open>What survives the wire\<close>

lemma decode_encode_command: "json_ok (envelope c) \<Longrightarrow> decode_command (encode_command c) = Ok c"
  by (simp add: decode_command_def encode_command_def)

lemma json_ok_dput: "json_ok (JObj d) \<Longrightarrow> json_ok v \<Longrightarrow> json_ok (JObj (dput k v d))"
  using dict_ok_dput [of d k v] dput_items [of k v d]
  by (fastforce simp: dict_ok_def list_all_iff)

text \<open>The metadata as the receiver sees it.\<close>

definition wire_metadata :: "command_result \<Rightarrow> (string, json) dict \<Rightarrow> (string, json) dict" where
  "wire_metadata r d =
    (if cr_error_code r \<noteq> 0
     then dput ''error_name'' (JStr (cr_error_name r)) (dput ''error_code'' (JInt (int (cr_error_code r))) d)
     else d)"

lemma decode_encode_result:
  assumes "cr_metadata r = JObj d" "json_ok (JObj d)"
  obtains frames where "encode_command_result r = Ok frames"
    "decode_command_result frames =
       Ok (r\<lparr>cr_error_code := 0, cr_error_name := [], cr_metadata := JObj (wire_metadata r d)\<rparr>)"
proof -
  have "json_ok (JObj (wire_metadata r d))"
    using assms(2) by (simp add: wire_metadata_def json_ok_dput del: json_ok.simps(2))
  then have "loads_bytes (dumps_bytes (JObj (wire_metadata r d))) = Ok (JObj (wire_metadata r d))"
    by (rule loads_dumps)
  then show thesis
    using assms(1) by (intro that)
      (auto simp: encode_command_result_def decode_command_result_def wire_metadata_def Let_def)
qed

lemma decode_command_frames: "length frames \<noteq> 4 \<Longrightarrow> decode_command frames = Err (frame_count_error frames)"
  by (auto simp: decode_command_def split: list.splits)

lemma decode_command_bad_text:
  "loads_bytes e = Ok env \<Longrightarrow> utf8_decode op = None \<Longrightarrow>
   decode_command [op, ct, e, p] = Raise UnicodeDecodeError"
  by (simp add: decode_command_def)

section \<open>Event envelopes\<close>

definition encode_event :: "string \<Rightarrow> string \<Rightarrow> json \<Rightarrow> command" where
  "encode_event event_type endpoint_id data =
    \<lparr>operation = ''EVENT_PUBLISH'', content_type = ''application/json'',
     envelope = JObj [(''schema_version'', JInt 1), (''event_type'', JStr event_type),
       (''endpoint_id'', JStr endpoint_id), (''data'', data)],
     payload = []\<rparr>"

text \<open>The text of a list of names, as an f-string prints it.\<close>

definition str_list :: "string list \<Rightarrow> string" where
  "str_list xs = ''['' @ py_join '', '' (map (\<lambda>x. [CHR 0x27] @ x @ [CHR 0x27]) xs) @ '']''"

text \<open>\<open>k in x\<close> on a decoded value: a key, an element, a substring, or \<open>TypeError\<close>.\<close>

fun py_in :: "string \<Rightarrow> json \<Rightarrow> bool option" where
  "py_in k (JObj d) = Some (map_of d k \<noteq> None)"
| "py_in k (JList xs) = Some (JStr k \<in> set xs)"
| "py_in k (JStr s) = Some (sublist k s)"
| "py_in k _ = None"

definition decode_event :: "command \<Rightarrow> (json \<times> json \<times> json) res" where
  "decode_event c =
    (if py_in [] (envelope c) = None then Raise TypeError
     else
       (let missing = filter (\<lambda>k. py_in k (envelope c) = Some False)
                        [''event_type'', ''endpoint_id'', ''data'']
        in if missing \<noteq> [] then
             Err (AxoErr MalformedEventEnvelopeError
               (''event envelope missing required keys: '' @ str_list missing))
           else (case envelope c of
                   JObj d \<Rightarrow> Ok (jget d ''event_type'', jget d ''endpoint_id'', jget d ''data'')
                 | _ \<Rightarrow> Raise TypeError)))"

lemma decode_encode_event:
  "decode_event (encode_event t i d) = Ok (JStr t, JStr i, d)"
  by (simp add: decode_event_def encode_event_def)

lemma event_over_wire:
  "json_ok d \<Longrightarrow>
   (case decode_command (encode_command (encode_event t i d)) of
      Ok c \<Rightarrow> decode_event c | Err e \<Rightarrow> Err e | Raise ex \<Rightarrow> Raise ex) = Ok (JStr t, JStr i, d)"
  by (subst decode_encode_command) (simp_all add: encode_event_def decode_event_def)

end
