(* ===== verification/Election.thy ===== *)
theory Election
  imports Protocol
begin

text \<open>
  The leader of a cluster: \<open>LeaderView\<close> and the contract of a \<open>LeaderElector\<close>
  (\<open>core/consensus/elector.py\<close>, as the locale \<open>leader_elector\<close>), the Bully variant that the
  program runs (\<open>core/consensus/bully.py\<close>), and the handler that sends a leader-only command
  to the leader (\<open>service/handlers/leader_proxy.py\<close>). A frozenset of ids is a set; the code
  lists it in an order that the interpreter chooses, here in ascending order.
\<close>

record cluster_member =
  peer_id :: string
  rpc_uri :: string

record leader_view =
  leader_ids :: "string set"
  view_term :: int
  decided_at :: flt

section \<open>The contract\<close>

text \<open>
  An elector decides from the ids of the members alone; it is idempotent, and it opens a new
  term exactly when it replaces the leader set.
\<close>

locale leader_elector =
  fixes current_view :: "'e \<Rightarrow> leader_view"
    and recompute :: "'e \<Rightarrow> cluster_member list \<Rightarrow> flt \<Rightarrow> 'e"
    and decide :: "'e \<Rightarrow> string set \<Rightarrow> string set"
  assumes decides: "leader_ids (current_view (recompute e ms now)) = decide e (peer_id ` set ms)"
    and stable: "decide (recompute e ms now) ids = decide e ids"
    and term_step: "view_term (current_view (recompute e ms now)) =
      (if leader_ids (current_view e) = decide e (peer_id ` set ms)
       then view_term (current_view e) else view_term (current_view e) + 1)"
    and unchanged: "leader_ids (current_view e) = decide e (peer_id ` set ms) \<Longrightarrow> recompute e ms now = e"
begin

lemma idempotent: "recompute (recompute e ms now) ms later = recompute e ms now"
  by (rule unchanged) (simp add: decides stable)

lemma recompute_mem_cong:
  "peer_id ` set ms = peer_id ` set ms' \<Longrightarrow>
   leader_ids (current_view (recompute e ms now)) = leader_ids (current_view (recompute e ms' now'))"
  by (simp add: decides)

text \<open>A run of the elector: one recomputation per membership snapshot.\<close>

definition run :: "'e \<Rightarrow> (cluster_member list \<times> flt) list \<Rightarrow> 'e" where
  "run e ticks = fold (\<lambda>(ms, now) e. recompute e ms now) ticks e"

lemma run_simps [simp]:
  "run e [] = e" "run e ((ms, now) # ts) = run (recompute e ms now) ts"
  "run e (ts @ us) = run (run e ts) us"
  by (simp_all add: run_def)

lemma run_term_mono: "view_term (current_view e) \<le> view_term (current_view (run e ts))"
proof (induction ts arbitrary: e)
  case (Cons t ts)
  obtain ms now where t: "t = (ms, now)" by (cases t)
  have "view_term (current_view e) \<le> view_term (current_view (recompute e ms now))"
    by (simp add: term_step)
  also have "\<dots> \<le> view_term (current_view (run (recompute e ms now) ts))" by (rule Cons.IH)
  finally show ?case by (simp add: t)
qed simp

text \<open>Within one term the leader set does not change.\<close>

lemma run_same_term:
  "view_term (current_view (run e ts)) = view_term (current_view e) \<Longrightarrow>
   leader_ids (current_view (run e ts)) = leader_ids (current_view e)"
proof (induction ts arbitrary: e)
  case (Cons t ts)
  obtain ms now where t: "t = (ms, now)" by (cases t)
  let ?e = "recompute e ms now"
  have "view_term (current_view ?e) \<le> view_term (current_view e)"
    using run_term_mono [of ?e ts] Cons.prems t by simp
  then have same: "leader_ids (current_view e) = decide e (peer_id ` set ms)"
    by (simp add: term_step split: if_splits)
  with unchanged have "?e = e" by blast
  then show ?case using Cons t by simp
qed simp

lemma run_decide: "decide (run e ts) ids = decide e ids"
  by (induction ts arbitrary: e) (auto simp: stable)

text \<open>The terms that a run opens are at most one per tick.\<close>

lemma run_term_bound: "view_term (current_view (run e ts)) \<le> view_term (current_view e) + int (length ts)"
proof (induction ts arbitrary: e)
  case (Cons t ts)
  obtain ms now where t: "t = (ms, now)" by (cases t)
  have "view_term (current_view (recompute e ms now)) \<le> view_term (current_view e) + 1"
    by (simp add: term_step)
  with Cons.IH [of "recompute e ms now"] t show ?case by simp
qed simp

end

section \<open>The Bully elector\<close>

record bully =
  b_self_id :: string
  b_view :: leader_view

definition bully_init :: "string \<Rightarrow> bully" where
  "bully_init self_id =
    \<lparr>b_self_id = self_id, b_view = \<lparr>leader_ids = {self_id}, view_term = 0, decided_at = 0\<rparr>\<rparr>"

definition bully_leader_set_size :: nat where
  "bully_leader_set_size = 1"

abbreviation bully_current_view :: "bully \<Rightarrow> leader_view" where
  "bully_current_view \<equiv> b_view"

definition bully_recompute :: "bully \<Rightarrow> cluster_member list \<Rightarrow> flt \<Rightarrow> bully" where
  "bully_recompute e members now =
    (let winner = Max (set (b_self_id e # map peer_id members))
     in if leader_ids (b_view e) \<noteq> {winner}
        then e\<lparr>b_view := \<lparr>leader_ids = {winner}, view_term = view_term (b_view e) + 1, decided_at = now\<rparr>\<rparr>
        else e)"

definition bully_is_leader :: "bully \<Rightarrow> string \<Rightarrow> bool" where
  "bully_is_leader e p = (p \<in> leader_ids (b_view e))"

definition bully_winner :: "bully \<Rightarrow> string set \<Rightarrow> string set" where
  "bully_winner e ids = {Max (insert (b_self_id e) ids)}"

interpretation bully_elector: leader_elector bully_current_view bully_recompute bully_winner
  by unfold_locales (auto simp: bully_recompute_def bully_winner_def Let_def)

lemma bully_recompute_self [simp]: "b_self_id (bully_recompute e ms now) = b_self_id e"
  by (simp add: bully_recompute_def Let_def)

lemma bully_recompute_leader:
  "leader_ids (b_view (bully_recompute e ms now)) = {Max (insert (b_self_id e) (peer_id ` set ms))}"
  using bully_elector.decides [of e ms now] by (simp add: bully_winner_def)

lemma bully_run_self [simp]: "b_self_id (bully_elector.run e ts) = b_self_id e"
  by (induction ts arbitrary: e) auto

text \<open>A node sees every other node of the cluster, or a part of it.\<close>

definition sees :: "bully \<Rightarrow> cluster_member list \<Rightarrow> string set" where
  "sees e ms = insert (b_self_id e) (peer_id ` set ms)"

section \<open>Commands for the leader\<close>

text \<open>
  The handler it wraps, the address book and the transport are arguments; the transport's
  answer is what the leader replied or the reason why nobody did. The first component of the
  result says which node served the command.
\<close>

datatype served_by = Local | Remote string | Nobody

fun with_key :: "string \<Rightarrow> json \<Rightarrow> json \<Rightarrow> json res" where
  "with_key k v (JObj d) = Ok (JObj (dput k v d))"
| "with_key k v _ = Raise TypeError"

fun env_get :: "json \<Rightarrow> string \<Rightarrow> json res" where
  "env_get (JObj d) k = Ok (jget d k)"
| "env_get _ k = Raise AttributeError"

definition leader_proxy ::
  "bully \<Rightarrow> string \<Rightarrow> (command \<Rightarrow> 's \<Rightarrow> command_result res \<times> 's) \<Rightarrow> (string \<Rightarrow> string option) \<Rightarrow>
   (string \<Rightarrow> command \<Rightarrow> command_result res) \<Rightarrow> command \<Rightarrow> 's \<Rightarrow> served_by \<times> command_result res \<times> 's"
where
  "leader_proxy elector self_id inner resolve_leader_rpc_uri forward_fn cmd s =
    (if bully_is_leader elector self_id then (case inner cmd s of (r, s') \<Rightarrow> (Local, r, s'))
     else
       (case env_get (envelope cmd) ''__forwarded__'' of
          Raise ex \<Rightarrow> (Nobody, Raise ex, s)
        | Err e \<Rightarrow> (Nobody, Err e, s)
        | Ok fwd \<Rightarrow>
            if py_truthy fwd then
              (Nobody, Ok (from_error (AxoErr LeaderUnreachableError
                 ''leader view unresolved after one forward hop'')), s)
            else
              (let ids = sorted_list_of_set (leader_ids (b_view elector));
                   leader_id = (case ids of [] \<Rightarrow> [] | i # _ \<Rightarrow> i)
               in case resolve_leader_rpc_uri leader_id of
                    None \<Rightarrow>
                      (Nobody, Ok (from_error (AxoErr LeaderUnreachableError
                         (''no known address for leader '' @ [CHR 0x27] @ leader_id @ [CHR 0x27]))), s)
                  | Some uri \<Rightarrow>
                      (case with_key ''__forwarded__'' (JBool True) (envelope cmd) of
                         Raise ex \<Rightarrow> (Nobody, Raise ex, s)
                       | Err e \<Rightarrow> (Nobody, Err e, s)
                       | Ok env \<Rightarrow>
                           (case forward_fn uri (cmd\<lparr>envelope := env\<rparr>) of
                              Err e \<Rightarrow>
                                (Remote uri, Ok (from_error (AxoErr LeaderUnreachableError (err_msg e))), s)
                            | Ok r \<Rightarrow> (Remote uri, Ok r, s)
                            | Raise ex \<Rightarrow> (Remote uri, Raise ex, s))))))"

lemma env_get_forwarded:
  "with_key ''__forwarded__'' (JBool True) env = Ok env' \<Longrightarrow>
   env_get env' ''__forwarded__'' = Ok (JBool True)"
  by (cases env) auto

text \<open>On a follower the state of the wrapped handler is left alone.\<close>

lemma leader_proxy_follower_state:
  "\<not> bully_is_leader e i \<Longrightarrow> snd (snd (leader_proxy e i inner res fwd c s)) = s"
  by (simp add: leader_proxy_def Let_def split: res.splits option.splits)

lemma leader_proxy_local: "fst (leader_proxy e i inner res fwd c s) = Local \<longleftrightarrow> bully_is_leader e i"
  by (simp add: leader_proxy_def Let_def split: prod.splits res.splits option.splits)

text \<open>A command that was forwarded once is not forwarded again.\<close>

lemma leader_proxy_one_hop:
  "env_get (envelope c) ''__forwarded__'' = Ok (JBool True) \<Longrightarrow>
   fst (leader_proxy e i inner res fwd c s) \<in> {Local, Nobody}"
  by (simp add: leader_proxy_def split: prod.splits)

text \<open>What a follower puts on the wire carries the mark.\<close>

lemma leader_proxy_marks:
  "leader_proxy e i inner res fwd c s = (Remote uri, r, s') \<Longrightarrow>
   (\<exists>c'. env_get (envelope c') ''__forwarded__'' = Ok (JBool True) \<and>
      operation c' = operation c \<and> payload c' = payload c \<and>
      (case fwd uri c' of Ok x \<Rightarrow> r = Ok x | Raise ex \<Rightarrow> r = Raise ex
       | Err x \<Rightarrow> r = Ok (from_error (AxoErr LeaderUnreachableError (err_msg x)))))"
  by (auto simp: leader_proxy_def Let_def env_get_forwarded split: if_splits res.splits option.splits prod.splits
      intro!: exI [of _ "c\<lparr>envelope := the_ok (with_key ''__forwarded__'' (JBool True) (envelope c))\<rparr>"])

section \<open>Properties\<close>

text \<open>
  C20: Whatever a node's history, one recomputation elects the largest id among itself and the
  members it sees; two nodes that see the same ids elect the same leader, and at most one node
  of the ids seen takes itself for the leader.
\<close>

theorem bully_agreement:
  assumes "sees e1 ms1 = sees e2 ms2"
  shows "leader_ids (b_view (bully_recompute e1 ms1 now1)) = {Max (sees e1 ms1)} \<and>
    leader_ids (b_view (bully_recompute e1 ms1 now1)) = leader_ids (b_view (bully_recompute e2 ms2 now2)) \<and>
    (bully_is_leader (bully_recompute e1 ms1 now1) (b_self_id e1) \<longleftrightarrow> b_self_id e1 = Max (sees e1 ms1)) \<and>
    (bully_is_leader (bully_recompute e1 ms1 now1) (b_self_id e1) \<longrightarrow>
       bully_is_leader (bully_recompute e2 ms2 now2) (b_self_id e2) \<longrightarrow> b_self_id e1 = b_self_id e2)"
  using assms by (auto simp: bully_recompute_leader sees_def bully_is_leader_def)

lemma bully_agreement_witness:
  "leader_ids (b_view (bully_recompute (bully_init ''a'') [\<lparr>peer_id = ''b'', rpc_uri = []\<rparr>] 5)) =
   leader_ids (b_view (bully_recompute (bully_init ''b'') [\<lparr>peer_id = ''a'', rpc_uri = []\<rparr>] 9))"
  by (rule bully_agreement [THEN conjunct2, THEN conjunct1]) (auto simp: sees_def bully_init_def)

text \<open>
  Along any run of recomputations the term never decreases, grows by at most one per tick,
  and the leader set is constant while the term is; recomputing again for the same members
  changes nothing.
\<close>

theorem bully_terms:
  "view_term (b_view e) \<le> view_term (b_view (bully_elector.run e ticks)) \<and>
   view_term (b_view (bully_elector.run e ticks)) \<le> view_term (b_view e) + int (length ticks) \<and>
   (view_term (b_view (bully_elector.run e ticks)) = view_term (b_view e) \<longrightarrow>
      leader_ids (b_view (bully_elector.run e ticks)) = leader_ids (b_view e)) \<and>
   bully_recompute (bully_recompute e ms now) ms later = bully_recompute e ms now"
  by (intro conjI impI bully_elector.run_term_mono bully_elector.run_term_bound bully_elector.run_same_term
      bully_elector.idempotent)

lemma bully_terms_witness:
  "leader_ids (b_view (bully_elector.run (bully_init ''b'') [([\<lparr>peer_id = ''a'', rpc_uri = []\<rparr>], 3)])) = {''b''}"
proof -
  have "bully_elector.run (bully_init ''b'') [([\<lparr>peer_id = ''a'', rpc_uri = []\<rparr>], 3)] = bully_init ''b''"
    by (simp add: bully_recompute_def bully_init_def Let_def max_def)
  then have "view_term (b_view (bully_elector.run (bully_init ''b'')
      [([\<lparr>peer_id = ''a'', rpc_uri = []\<rparr>], 3)])) = view_term (b_view (bully_init ''b''))"
    by simp
  from bully_terms [THEN conjunct2, THEN conjunct2, THEN conjunct1, THEN mp, OF this]
  show ?thesis by (simp add: bully_init_def)
qed

text \<open>
  C21: A leader-only command is served by the node it reached exactly when that node takes
  itself for the leader; a follower leaves its own state alone, forwards the command once,
  with the mark, and a marked command is never forwarded again.
\<close>

theorem leader_proxy_routing:
  "(fst (leader_proxy e i inner res fwd c s) = Local \<longleftrightarrow> bully_is_leader e i) \<and>
   (\<not> bully_is_leader e i \<longrightarrow> snd (snd (leader_proxy e i inner res fwd c s)) = s) \<and>
   (env_get (envelope c) ''__forwarded__'' = Ok (JBool True) \<longrightarrow>
      fst (leader_proxy e i inner res fwd c s) \<in> {Local, Nobody}) \<and>
   (leader_proxy e i inner res fwd c s = (Remote uri, r, s') \<longrightarrow>
         (\<exists>c'. env_get (envelope c') ''__forwarded__'' = Ok (JBool True) \<and>
            operation c' = operation c \<and> payload c' = payload c \<and>
            (case fwd uri c' of Ok x \<Rightarrow> r = Ok x | Raise ex \<Rightarrow> r = Raise ex
             | Err x \<Rightarrow> r = Ok (from_error (AxoErr LeaderUnreachableError (err_msg x))))))"
  by (rule conjI, rule leader_proxy_local, rule conjI, rule impI, erule leader_proxy_follower_state,
      rule conjI, rule impI, erule leader_proxy_one_hop, rule impI, erule leader_proxy_marks)

lemma leader_proxy_routing_witness:
  "fst (leader_proxy (bully_recompute (bully_init ''a'') [\<lparr>peer_id = ''b'', rpc_uri = []\<rparr>] 5) ''a''
     (\<lambda>c s. (Ok (result_ok []), s + 1)) (\<lambda>_. Some ''tcp://b:5'') (\<lambda>_ _. Ok (result_ok []))
     \<lparr>operation = ''PING'', content_type = [], envelope = JObj [(''__forwarded__'', JBool True)], payload = []\<rparr>
     (0::nat)) \<in> {Local, Nobody}"
  by (rule leader_proxy_routing [THEN conjunct2, THEN conjunct2, THEN conjunct1, THEN mp]) simp

end
