(* ===== verification/Ledger.thy ===== *)
theory Ledger
  imports Election
begin

text \<open>
  The leader's ledger of container slots (\<open>axo_endpoint/core/consensus/concurrency.py\<close>): which
  endpoint owns which slot of the pool of a function version, what every endpoint reports
  about its pools, and the cursor of the round-robin strategy. \<open>random.sample\<close> and
  \<open>random.choice\<close> are arguments. The invariant is that no pool holds more slots than the cap
  its requests named; a slot index identifies one owner.
\<close>

section \<open>The key of the gossiped metrics\<close>

definition pool_metrics_key :: "string \<Rightarrow> int \<Rightarrow> string" where
  "pool_metrics_key function_id version = function_id @ ''::'' @ str_int version"

definition parse_pool_metrics_key :: "string \<Rightarrow> (string \<times> int) option" where
  "parse_pool_metrics_key key =
    (case py_rpartition ''::'' key of
       None \<Rightarrow> None
     | Some (function_id, version_str) \<Rightarrow>
         map_option (\<lambda>v. (function_id, v)) (py_int version_str))"

lemma rpartition_last:
  assumes "CHR '':'' \<notin> set b"
  shows "py_rpartition ''::'' b = None" "py_rpartition ''::'' (CHR '':'' # b) = None"
    "py_rpartition ''::'' (a @ ''::'' @ b) = Some (a, b)"
proof -
  show none: "py_rpartition ''::'' b = None"
    using assms by (induction b) auto
  show colon: "py_rpartition ''::'' (CHR '':'' # b) = None"
    using none assms by (cases b) auto
  have "py_rpartition ''::'' (''::'' @ b) = Some ([], b)"
    using colon by simp
  then show "py_rpartition ''::'' (a @ ''::'' @ b) = Some (a, b)"
    by (induction a) simp_all
qed

lemma pool_metrics_key_roundtrip:
  "parse_pool_metrics_key (pool_metrics_key function_id version) = Some (function_id, version)"
  using rpartition_last(3) [OF str_int_no_colon, of function_id version]
  by (simp add: parse_pool_metrics_key_def pool_metrics_key_def)

section \<open>The ledger\<close>

datatype slot_decision = Granted int | Place string | Retry

record count_entry =
  ce_function_id :: string
  ce_version :: int
  ce_slot_index :: int

type_synonym pool = "string \<times> int"

record ledger =
  strategy :: string
  ready :: bool
  grants :: "(pool, (int, string) dict) dict"
  pool_metrics :: "(pool, (string, int \<times> int) dict) dict"
  rr_cursor :: "(pool, nat) dict"

definition valid_strategies :: "string list" where
  "valid_strategies = [''round_robin'', ''random'', ''two_choices'']"

definition ledger_init :: "string \<Rightarrow> ledger" where
  "ledger_init s =
    \<lparr>strategy = (if s \<in> set valid_strategies then s else ''round_robin''), ready = True,
     grants = [], pool_metrics = [], rr_cursor = []\<rparr>"

definition idle_count :: "ledger \<Rightarrow> pool \<Rightarrow> string \<Rightarrow> int" where
  "idle_count l key eid = snd (dget (dget (pool_metrics l) key []) eid (0, 0))"

definition busy_count :: "ledger \<Rightarrow> pool \<Rightarrow> string \<Rightarrow> int" where
  "busy_count l key eid = (case dget (dget (pool_metrics l) key []) eid (0, 0) of
     (live, idle) \<Rightarrow> max 0 (live - idle))"

text \<open>
  The two random choices: a sample of two of a list (only asked for when there are two) and
  one element of a list.
\<close>

record rng =
  sample2 :: "string list \<Rightarrow> string \<times> string"
  choice :: "string list \<Rightarrow> string"

definition rng_ok :: "rng \<Rightarrow> bool" where
  "rng_ok r \<longleftrightarrow> (\<forall>xs. 2 \<le> length xs \<longrightarrow>
     choice r xs \<in> set xs \<and> fst (sample2 r xs) \<in> set xs \<and> snd (sample2 r xs) \<in> set xs)"

definition choose_owner :: "rng \<Rightarrow> ledger \<Rightarrow> pool \<Rightarrow> string list \<Rightarrow> string \<times> ledger" where
  "choose_owner r l key candidates =
    (if length candidates = 1 then (candidates ! 0, l)
     else if strategy l = ''round_robin'' then
       (let cursor = dget (rr_cursor l) key 0;
            target = candidates ! (cursor mod length candidates)
        in (target, l\<lparr>rr_cursor := dput key (cursor + 1) (rr_cursor l)\<rparr>))
     else if strategy l = ''two_choices'' then
       (case sample2 r candidates of
          (a, b) \<Rightarrow> ((if busy_count l key b < busy_count l key a then b else a), l))
     else (choice r candidates, l))"

text \<open>\<open>while i in grants: i += 1\<close>, with the number of grants as the bound on the steps.\<close>

fun smallest_from :: "nat \<Rightarrow> int \<Rightarrow> (int, string) dict \<Rightarrow> int" where
  "smallest_from 0 i g = i"
| "smallest_from (Suc n) i g = (if map_of g i = None then i else smallest_from n (i + 1) g)"

definition smallest_unused_index :: "(int, string) dict \<Rightarrow> int" where
  "smallest_unused_index g = smallest_from (length g) 0 g"

text \<open>\<open>self._grants.setdefault(key, {})\<close>, then the body of \<open>request_slot\<close> under the lock.\<close>

definition open_pool :: "pool \<Rightarrow> ledger \<Rightarrow> ledger" where
  "open_pool key l =
    (if map_of (grants l) key = None then l\<lparr>grants := dput key [] (grants l)\<rparr> else l)"

definition place_or_grow :: "rng \<Rightarrow> pool \<Rightarrow> int \<Rightarrow> string \<Rightarrow> ledger \<Rightarrow> slot_decision \<times> ledger" where
  "place_or_grow r key max_concurrency requester_id l =
    (let g = dget (grants l) key [];
         owners = sort (remdups (dvalues g));
         idle_owners = filter (\<lambda>eid. eid \<noteq> requester_id \<and> 0 < idle_count l key eid) owners
     in if idle_owners \<noteq> [] then
          (case choose_owner r l key idle_owners of (t, l) \<Rightarrow> (Place t, l))
        else if int (length g) < max 1 max_concurrency then
          (let slot_index = smallest_unused_index g
           in (Granted slot_index,
               l\<lparr>grants := dput key (dput slot_index requester_id g) (grants l)\<rparr>))
        else if owners = [] then (Retry, l)
        else (case choose_owner r l key owners of (t, l) \<Rightarrow> (Place t, l)))"

definition request_slot ::
  "rng \<Rightarrow> string \<Rightarrow> int \<Rightarrow> int \<Rightarrow> string \<Rightarrow> ledger \<Rightarrow> slot_decision \<times> ledger" where
  "request_slot r function_id version max_concurrency requester_id l =
    (if \<not> ready l then (Retry, l)
     else place_or_grow r (function_id, version) max_concurrency requester_id
            (open_pool (function_id, version) l))"

definition release_slot :: "string \<Rightarrow> int \<Rightarrow> int \<Rightarrow> string \<Rightarrow> ledger \<Rightarrow> ledger" where
  "release_slot function_id version slot_index endpoint_id l =
    (let key = (function_id, version)
     in case map_of (grants l) key of
          None \<Rightarrow> l
        | Some g \<Rightarrow>
            if map_of g slot_index = Some endpoint_id then
              (let g' = dpop slot_index g
               in if g' = [] then l\<lparr>grants := dpop key (grants l)\<rparr>
                  else l\<lparr>grants := dput key g' (grants l)\<rparr>)
            else l)"

definition reap_pool :: "string set \<Rightarrow> (int, string) dict \<Rightarrow> (int, string) dict" where
  "reap_pool known g = filter (\<lambda>(idx, eid). eid \<in> known) g"

definition reap_unknown_owners :: "string set \<Rightarrow> ledger \<Rightarrow> ledger" where
  "reap_unknown_owners known l =
    l\<lparr>grants := filter (\<lambda>(key, g). g \<noteq> []) (map (\<lambda>(key, g). (key, reap_pool known g)) (grants l))\<rparr>"

definition begin_reconciliation :: "ledger \<Rightarrow> ledger" where
  "begin_reconciliation l = l\<lparr>ready := False\<rparr>"

definition add_report :: "string \<Rightarrow> count_entry \<Rightarrow>
    (pool, (int, string) dict) dict \<Rightarrow> (pool, (int, string) dict) dict" where
  "add_report endpoint_id e ng =
    (let key = (ce_function_id e, ce_version e)
     in dput key (dput (ce_slot_index e) endpoint_id (dget ng key [])) ng)"

definition rebuild :: "(string, count_entry list) dict \<Rightarrow> (pool, (int, string) dict) dict" where
  "rebuild reports = fold (\<lambda>(endpoint_id, entries). fold (add_report endpoint_id) entries) reports []"

definition reconcile :: "(string, count_entry list) dict \<Rightarrow> ledger \<Rightarrow> ledger" where
  "reconcile reports l = l\<lparr>grants := rebuild reports, rr_cursor := [], ready := True\<rparr>"

definition ingest_peer_metrics ::
  "string \<Rightarrow> (string, (string, int) dict) dict \<Rightarrow> ledger \<Rightarrow> ledger" where
  "ingest_peer_metrics endpoint_id container_pools l =
    fold (\<lambda>(raw_key, counts) l.
      case parse_pool_metrics_key raw_key of
        None \<Rightarrow> l
      | Some key \<Rightarrow>
          l\<lparr>pool_metrics :=
             dput key (dput endpoint_id (dget counts ''live'' 0, dget counts ''idle'' 0)
                        (dget (pool_metrics l) key []))
               (pool_metrics l)\<rparr>)
      container_pools l"

section \<open>The smallest free index\<close>

lemma smallest_from_used: "i \<le> j \<Longrightarrow> j < smallest_from n i g \<Longrightarrow> map_of g j \<noteq> None"
proof (induction n arbitrary: i)
  case (Suc n)
  show ?case
  proof (cases "i = j")
    case False
    with Suc.prems Suc.IH [of "i + 1"] show ?thesis by (auto split: if_splits)
  qed (use Suc in \<open>auto split: if_splits\<close>)
qed simp

lemma smallest_from_bounds: "i \<le> smallest_from n i g \<and> smallest_from n i g \<le> i + int n"
proof (induction n arbitrary: i)
  case (Suc n)
  from Suc [of "i + 1"] show ?case by auto
qed simp

lemma smallest_from_free:
  "map_of g (smallest_from n i g) = None \<or> smallest_from n i g = i + int n"
proof (induction n arbitrary: i)
  case (Suc n)
  from Suc [of "i + 1"] show ?case by auto
qed simp

lemma smallest_unused_free: "map_of g (smallest_unused_index g) = None"
proof (rule ccontr)
  let ?m = "smallest_unused_index g"
  assume used: "map_of g ?m \<noteq> None"
  then have m: "?m = int (length g)"
    using smallest_from_free [of g "length g" 0] by (auto simp: smallest_unused_index_def)
  have "{0..?m} \<subseteq> fst ` set g"
  proof
    fix j
    assume j: "j \<in> {0..?m}"
    have "map_of g j \<noteq> None"
    proof (cases "j = ?m")
      case False
      with j show ?thesis
        by (intro smallest_from_used [of 0 j "length g"]) (auto simp: smallest_unused_index_def)
    qed (use used in simp)
    then show "j \<in> fst ` set g" by (simp add: map_of_eq_None_iff)
  qed
  then have "card {0..?m} \<le> card (fst ` set g)" by (intro card_mono) auto
  also have "\<dots> \<le> length g" using card_image_le [of "set g" fst] card_length [of g] by simp
  finally show False using m by simp
qed

lemma smallest_unused_least: "0 \<le> j \<Longrightarrow> j < smallest_unused_index g \<Longrightarrow> map_of g j \<noteq> None"
  unfolding smallest_unused_index_def by (rule smallest_from_used)

lemma smallest_unused_bounds: "0 \<le> smallest_unused_index g" "smallest_unused_index g \<le> int (length g)"
  using smallest_from_bounds [of 0 "length g" g] by (auto simp: smallest_unused_index_def)

section \<open>The decisions\<close>

text \<open>The pool that a request looks at, its owners and the owners that could take the job.\<close>

abbreviation pool_grants :: "ledger \<Rightarrow> pool \<Rightarrow> (int, string) dict" where
  "pool_grants l key \<equiv> dget (grants l) key []"

definition idle_elsewhere :: "ledger \<Rightarrow> pool \<Rightarrow> string \<Rightarrow> string set" where
  "idle_elsewhere l key rid = {eid \<in> snd ` set (pool_grants l key). eid \<noteq> rid \<and> 0 < idle_count l key eid}"

lemma choose_owner_grants [simp]: "grants (snd (choose_owner r l key xs)) = grants l"
  "ready (snd (choose_owner r l key xs)) = ready l" "pool_metrics (snd (choose_owner r l key xs)) = pool_metrics l"
  by (simp_all add: choose_owner_def Let_def split: prod.splits)

lemma choose_owner_mem: "rng_ok r \<Longrightarrow> xs \<noteq> [] \<Longrightarrow> fst (choose_owner r l key xs) \<in> set xs"
proof (cases "length xs = 1")
  case True
  then show ?thesis by (simp add: choose_owner_def)
next
  case False
  assume r: "rng_ok r" and "xs \<noteq> []"
  with False have "2 \<le> length xs" by (cases xs; cases "tl xs") auto
  with r have "choice r xs \<in> set xs" "fst (sample2 r xs) \<in> set xs" "snd (sample2 r xs) \<in> set xs"
    by (simp_all add: rng_ok_def)
  moreover have "xs ! (n mod length xs) \<in> set xs" for n using \<open>xs \<noteq> []\<close> by simp
  ultimately show ?thesis using False by (simp add: choose_owner_def Let_def case_prod_beta)
qed

lemma idle_count_grants [simp]: "idle_count (l\<lparr>grants := g\<rparr>) = idle_count l"
  by (simp add: fun_eq_iff idle_count_def)

text \<open>
  A request is answered with \<open>Retry\<close> only while the ledger is being rebuilt; otherwise it
  reuses an idle container elsewhere if there is one, grows the pool below the cap, and
  queues on an owner at the cap.
\<close>

lemma request_slot_cases:
  assumes "rng_ok r" and req: "request_slot r f v mc rid l = (d, l')"
  defines "g \<equiv> pool_grants l (f, v)"
  shows "(\<not> ready l \<and> d = Retry \<and> l' = l) \<or>
    (ready l \<and> idle_elsewhere l (f, v) rid \<noteq> {} \<and>
       (\<exists>t \<in> idle_elsewhere l (f, v) rid. d = Place t) \<and> pool_grants l' (f, v) = g) \<or>
    (ready l \<and> idle_elsewhere l (f, v) rid = {} \<and> int (length g) < max 1 mc \<and>
       d = Granted (smallest_unused_index g) \<and>
       pool_grants l' (f, v) = dput (smallest_unused_index g) rid g) \<or>
    (ready l \<and> idle_elsewhere l (f, v) rid = {} \<and> max 1 mc \<le> int (length g) \<and>
       (\<exists>t \<in> snd ` set g. d = Place t) \<and> pool_grants l' (f, v) = g)"
proof (cases "ready l")
  case False
  then show ?thesis using req by (simp add: request_slot_def)
next
  case True
  let ?k = "(f, v)"
  define l0 where "l0 = open_pool ?k l"
  have g0: "pool_grants l0 ?k = g"
    by (auto simp: l0_def g_def dget_def open_pool_def split: option.splits)
  have idle0: "idle_count l0 = idle_count l" by (simp add: l0_def open_pool_def)
  define owners where "owners = sort (remdups (dvalues g))"
  define idle where "idle = filter (\<lambda>eid. eid \<noteq> rid \<and> 0 < idle_count l ?k eid) owners"
  have owners: "set owners = snd ` set g" by (simp add: owners_def)
  have idle: "set idle = idle_elsewhere l ?k rid"
    by (auto simp: idle_def owners idle_elsewhere_def g_def)
  have "place_or_grow r ?k mc rid l0 =
      (if idle \<noteq> [] then (case choose_owner r l0 ?k idle of (t, l) \<Rightarrow> (Place t, l))
       else if int (length g) < max 1 mc then
         (Granted (smallest_unused_index g),
          l0\<lparr>grants := dput ?k (dput (smallest_unused_index g) rid g) (grants l0)\<rparr>)
       else if owners = [] then (Retry, l0)
       else (case choose_owner r l0 ?k owners of (t, l) \<Rightarrow> (Place t, l)))"
    unfolding place_or_grow_def Let_def g0 idle0 owners_def idle_def by (rule refl)
  moreover have "(d, l') = place_or_grow r ?k mc rid l0"
    using req True by (simp add: request_slot_def l0_def)
  ultimately have step: "(d, l') =
      (if idle \<noteq> [] then (case choose_owner r l0 ?k idle of (t, l) \<Rightarrow> (Place t, l))
       else if int (length g) < max 1 mc then
         (Granted (smallest_unused_index g),
          l0\<lparr>grants := dput ?k (dput (smallest_unused_index g) rid g) (grants l0)\<rparr>)
       else if owners = [] then (Retry, l0)
       else (case choose_owner r l0 ?k owners of (t, l) \<Rightarrow> (Place t, l)))"
    by simp
  consider "idle \<noteq> []" | "idle = []" "int (length g) < max 1 mc" | "idle = []" "max 1 mc \<le> int (length g)"
    by linarith
  then show ?thesis
  proof cases
    case 1
    then have "d = Place (fst (choose_owner r l0 ?k idle))" "l' = snd (choose_owner r l0 ?k idle)"
      using step by (simp_all split: prod.splits)
    moreover have "fst (choose_owner r l0 ?k idle) \<in> idle_elsewhere l ?k rid"
      using choose_owner_mem [OF assms(1) 1] idle by simp
    ultimately show ?thesis using True g0 by auto
  next
    case 2
    then show ?thesis using step idle True by simp
  next
    case 3
    have ne: "owners \<noteq> []" using 3(2) owners by (cases g) auto
    then have "d = Place (fst (choose_owner r l0 ?k owners))" "l' = snd (choose_owner r l0 ?k owners)"
      using step 3 by (simp_all split: prod.splits)
    moreover have "fst (choose_owner r l0 ?k owners) \<in> snd ` set g"
      using choose_owner_mem [OF assms(1) ne] owners by simp
    ultimately show ?thesis using True g0 3 idle by auto
  qed
qed

lemma request_slot_other_pools:
  assumes "request_slot r f v mc rid l = (d, l')" "key \<noteq> (f, v)"
  shows "map_of (grants l') key = map_of (grants l) key"
proof -
  have "map_of (grants (snd (place_or_grow r (f, v) mc rid l0))) key = map_of (grants l0) key" for l0
    using assms(2) by (simp add: place_or_grow_def Let_def case_prod_beta)
  moreover have "map_of (grants (open_pool (f, v) l)) key = map_of (grants l) key"
    using assms(2) by (simp add: open_pool_def)
  ultimately show ?thesis
    using assms(1) by (metis request_slot_def snd_conv)
qed

section \<open>The cap\<close>

text \<open>
  The operations a leader performs. A cap per function version bounds what its requests and
  the reports of a reconciliation name; the reports are the containers that really run, so
  the cap for them is what the previous leader kept.
\<close>

datatype ledger_op =
    Request pool string
  | Release pool int string
  | Reap "string set"
  | Begin
  | Reconcile "(string, count_entry list) dict"
  | Ingest string "(string, (string, int) dict) dict"

fun ledger_apply :: "rng \<Rightarrow> (pool \<Rightarrow> int) \<Rightarrow> ledger_op \<Rightarrow> ledger \<Rightarrow> ledger" where
  "ledger_apply r cap (Request key rid) l = snd (request_slot r (fst key) (snd key) (cap key) rid l)"
| "ledger_apply r cap (Release key i eid) l = release_slot (fst key) (snd key) i eid l"
| "ledger_apply r cap (Reap known) l = reap_unknown_owners known l"
| "ledger_apply r cap Begin l = begin_reconciliation l"
| "ledger_apply r cap (Reconcile reports) l = reconcile reports l"
| "ledger_apply r cap (Ingest eid pools) l = ingest_peer_metrics eid pools l"

definition reported :: "(string, count_entry list) dict \<Rightarrow> pool \<Rightarrow> count_entry list" where
  "reported reports key =
    filter (\<lambda>e. (ce_function_id e, ce_version e) = key) (concat (dvalues reports))"

definition op_within :: "(pool \<Rightarrow> int) \<Rightarrow> ledger_op \<Rightarrow> bool" where
  "op_within cap oper =
    (case oper of Reconcile reports \<Rightarrow> (\<forall>key. int (length (reported reports key)) \<le> max 1 (cap key))
     | _ \<Rightarrow> True)"

inductive ledger_reachable :: "(pool \<Rightarrow> int) \<Rightarrow> string \<Rightarrow> ledger \<Rightarrow> bool" for cap strat where
  start: "ledger_reachable cap strat (ledger_init strat)"
| step: "ledger_reachable cap strat l \<Longrightarrow> rng_ok r \<Longrightarrow> op_within cap oper \<Longrightarrow>
    ledger_reachable cap strat (ledger_apply r cap oper l)"

definition within_cap :: "(pool \<Rightarrow> int) \<Rightarrow> ledger \<Rightarrow> bool" where
  "within_cap cap l =
    (dict_ok (grants l) \<and> (\<forall>key. dict_ok (pool_grants l key) \<and> int (length (pool_grants l key)) \<le> max 1 (cap key)))"

lemma within_capD:
  assumes "within_cap cap l"
  shows "dict_ok (grants l)" "dict_ok (pool_grants l key)" "int (length (pool_grants l key)) \<le> max 1 (cap key)"
  using assms unfolding within_cap_def by blast+

lemma within_capI:
  assumes "dict_ok (grants l)"
    "\<And>key. dict_ok (pool_grants l key) \<and> int (length (pool_grants l key)) \<le> max 1 (cap key)"
  shows "within_cap cap l"
  using assms unfolding within_cap_def by blast

lemma within_cap_grants: "grants l' = grants l \<Longrightarrow> within_cap cap l' = within_cap cap l"
  by (simp add: within_cap_def)

lemma within_cap_request: "rng_ok r \<Longrightarrow> within_cap cap l \<Longrightarrow>
    within_cap cap (snd (request_slot r f v (cap (f, v)) rid l))"
proof -
  assume r: "rng_ok r" and inv: "within_cap cap l"
  obtain d l' where req: "request_slot r f v (cap (f, v)) rid l = (d, l')" by fastforce
  have "dict_ok (pool_grants l' key) \<and> int (length (pool_grants l' key)) \<le> max 1 (cap key)" for key
  proof (cases "key = (f, v)")
    case False
    with request_slot_other_pools [OF req False] have "pool_grants l' key = pool_grants l key"
      by (simp add: dget_def)
    then show ?thesis using within_capD(2,3) [OF inv, of key] by simp
  next
    case True
    note old = within_capD(2,3) [OF inv, of key]
    have new: "smallest_unused_index (pool_grants l key) \<notin> fst ` set (pool_grants l key)"
      using smallest_unused_free by (simp add: map_of_eq_None_iff)
    show ?thesis
      using request_slot_cases [OF r req] old new True by (auto simp: length_dput)
  qed
  moreover have "dict_ok (grants l')"
    using within_capD(1) [OF inv] req by (auto simp: request_slot_def place_or_grow_def open_pool_def
        Let_def case_prod_beta choose_owner_grants split: if_splits)
  ultimately show ?thesis using req by (auto intro: within_capI)
qed

lemma dpop_length: "length (dpop k d) \<le> length d"
  by (simp add: AList.delete_eq)

lemma within_cap_release: "within_cap cap l \<Longrightarrow> within_cap cap (release_slot f v i eid l)"
proof -
  assume inv: "within_cap cap l"
  show ?thesis
  proof (cases "map_of (grants l) (f, v)")
    case (Some g)
    then have g: "pool_grants l (f, v) = g" by simp
    note old = within_capD [OF inv]
    have "dict_ok (dpop i g)" "int (length (dpop i g)) \<le> max 1 (cap (f, v))"
      using old(2,3) [of "(f, v)"] g dpop_length [of i g] by auto
    moreover have "pool_grants (release_slot f v i eid l) key = pool_grants l key" if "key \<noteq> (f, v)" for key
      using that Some by (simp add: release_slot_def Let_def dget_def)
    moreover have "pool_grants (release_slot f v i eid l) (f, v) = dpop i g \<or>
        pool_grants (release_slot f v i eid l) (f, v) = g"
      using Some by (simp add: release_slot_def Let_def dget_def)
    ultimately have "dict_ok (pool_grants (release_slot f v i eid l) key) \<and>
        int (length (pool_grants (release_slot f v i eid l) key)) \<le> max 1 (cap key)" for key
      using old(2,3) [of key] g by (cases "key = (f, v)") metis+
    moreover have "dict_ok (grants (release_slot f v i eid l))"
      using old(1) Some by (auto simp: release_slot_def Let_def)
    ultimately show ?thesis by (intro within_capI)
  qed (use inv in \<open>simp add: release_slot_def\<close>)
qed

lemma map_of_reaped:
  "dict_ok gs \<Longrightarrow> dget (filter (\<lambda>(key, g). g \<noteq> []) (map (\<lambda>(key, g). (key, reap_pool known g)) gs)) key [] =
    reap_pool known (dget gs key [])"
proof (induction gs)
  case Nil
  then show ?case by (simp add: dget_def reap_pool_def)
next
  case (Cons p gs)
  obtain k g where p: "p = (k, g)" by (cases p)
  from Cons p have ok: "dict_ok gs" and new: "map_of gs k = None"
    by (auto simp: dict_ok_def map_of_eq_None_iff)
  note IH = Cons.IH [OF ok]
  show ?case
  proof (cases "key = k")
    case True
    with new have "map_of (filter (\<lambda>(key, g). g \<noteq> []) (map (\<lambda>(key, g). (key, reap_pool known g)) gs)) k = None"
      by (force simp: map_of_eq_None_iff)
    then show ?thesis using True p by (auto simp: dget_def reap_pool_def)
  next
    case False
    then show ?thesis using IH p by (auto simp: dget_def)
  qed
qed

lemma reap_pool_facts: "dict_ok g \<Longrightarrow> dict_ok (reap_pool known g)" "length (reap_pool known g) \<le> length g"
  by (auto simp: reap_pool_def dict_ok_def distinct_map_filter)

lemma within_cap_reap: "within_cap cap l \<Longrightarrow> within_cap cap (reap_unknown_owners known l)"
proof -
  assume inv: "within_cap cap l"
  have "dict_ok (map (\<lambda>(key, g). (key, reap_pool known g)) (grants l))"
    using within_capD(1) [OF inv] by (simp add: dict_ok_def comp_def case_prod_beta)
  then have "dict_ok (grants (reap_unknown_owners known l))"
    by (auto simp: reap_unknown_owners_def dict_ok_def distinct_map_filter)
  moreover have "pool_grants (reap_unknown_owners known l) key = reap_pool known (pool_grants l key)" for key
    using map_of_reaped [OF within_capD(1) [OF inv], of known key] by (simp add: reap_unknown_owners_def)
  moreover have "dict_ok (reap_pool known (pool_grants l key)) \<and>
      int (length (reap_pool known (pool_grants l key))) \<le> max 1 (cap key)" for key
    using within_capD(2,3) [OF inv, of key] reap_pool_facts(1) [of "pool_grants l key" known] reap_pool_facts(2) [of known "pool_grants l key"]
    by linarith
  ultimately show ?thesis by (intro within_capI) simp_all
qed

text \<open>What \<open>reconcile\<close> builds: an entry of a pool is an entry that some endpoint reported.\<close>

lemma pool_add_report:
  "dget (add_report eid e ng) key [] =
    (if key = (ce_function_id e, ce_version e) then dput (ce_slot_index e) eid (dget ng key [])
     else dget ng key [])"
  by (simp add: add_report_def Let_def dget_def)

lemma pool_add_reports:
  "dict_ok (dget ng key []) \<Longrightarrow>
   dict_ok (dget (fold (add_report eid) es ng) key []) \<and>
   length (dget (fold (add_report eid) es ng) key []) \<le>
     length (dget ng key []) + length (filter (\<lambda>e. (ce_function_id e, ce_version e) = key) es)"
proof (induction es arbitrary: ng)
  case (Cons e es)
  let ?ng = "add_report eid e ng"
  have ok: "dict_ok (dget ?ng key [])" using Cons.prems by (auto simp: pool_add_report)
  have "length (dget ?ng key []) \<le>
      length (dget ng key []) + (if (ce_function_id e, ce_version e) = key then 1 else 0)"
    by (auto simp: pool_add_report length_dput)
  with Cons.IH [OF ok] show ?case by auto
qed simp

lemma pool_rebuild:
  "dict_ok (dget ng key []) \<Longrightarrow>
   dict_ok (dget (fold (\<lambda>(eid, es). fold (add_report eid) es) reports ng) key []) \<and>
   length (dget (fold (\<lambda>(eid, es). fold (add_report eid) es) reports ng) key []) \<le>
     length (dget ng key []) + length (reported reports key)"
proof (induction reports arbitrary: ng)
  case (Cons p reports)
  obtain eid es where p: "p = (eid, es)" by (cases p)
  note one = pool_add_reports [OF Cons.prems, of eid es]
  with Cons.IH [of "fold (add_report eid) es ng"] show ?case by (simp add: p reported_def)
qed (simp add: reported_def)

lemma dict_ok_rebuild:
  "dict_ok ng \<Longrightarrow> dict_ok (fold (\<lambda>(eid, es). fold (add_report eid) es) reports ng)"
proof -
  have one: "dict_ok (fold (add_report eid) es ng)" if "dict_ok ng" for eid es ng
    using that by (induction es arbitrary: ng) (auto simp: add_report_def Let_def)
  show "dict_ok ng \<Longrightarrow> dict_ok (fold (\<lambda>(eid, es). fold (add_report eid) es) reports ng)"
  proof (induction reports arbitrary: ng)
    case (Cons p reports)
    obtain eid es where p: "p = (eid, es)" by (cases p)
    from Cons.IH [OF one [OF Cons.prems]] show ?case by (simp add: p)
  qed simp
qed

lemma within_cap_reconcile:
  "op_within cap (Reconcile reports) \<Longrightarrow> within_cap cap (reconcile reports l)"
proof (rule within_capI)
  assume le: "op_within cap (Reconcile reports)"
  show "dict_ok (grants (reconcile reports l))"
    using dict_ok_rebuild [of "[]" reports] by (simp add: reconcile_def rebuild_def)
  fix key
  have "int (length (reported reports key)) \<le> max 1 (cap key)"
    using le unfolding op_within_def ledger_op.case by blast
  moreover have "dget ([] :: (pool, (int, string) dict) dict) key [] = []" by (simp add: dget_def)
  ultimately show "dict_ok (pool_grants (reconcile reports l) key) \<and>
      int (length (pool_grants (reconcile reports l) key)) \<le> max 1 (cap key)"
    using pool_rebuild [of "[]" key reports] by (simp add: reconcile_def rebuild_def)
qed

lemma ingest_grants [simp]: "grants (ingest_peer_metrics eid pools l) = grants l"
  "ready (ingest_peer_metrics eid pools l) = ready l"
  by (induction pools arbitrary: l) (auto simp: ingest_peer_metrics_def split: option.splits)

lemma ledger_reachable_within_cap: "ledger_reachable cap strat l \<Longrightarrow> within_cap cap l"
proof (induction rule: ledger_reachable.induct)
  case start
  have "dget (grants (ledger_init strat)) key [] = []" for key by (simp add: ledger_init_def dget_def)
  then show ?case by (intro within_capI) (simp_all add: ledger_init_def)
next
  case (step l r oper)
  show ?case
  proof (cases oper)
    case (Request key rid)
    with within_cap_request [OF step(2) step.IH, of "fst key" "snd key" rid] show ?thesis by simp
  next
    case (Reconcile reports)
    with step(3) within_cap_reconcile show ?thesis by simp
  next
    case Begin
    with step.IH within_cap_grants [of "begin_reconciliation l" l] show ?thesis
      by (simp add: begin_reconciliation_def)
  next
    case (Ingest eid pools)
    with step.IH within_cap_grants [of "ingest_peer_metrics eid pools l" l] show ?thesis by simp
  qed (use step.IH within_cap_release within_cap_reap in simp_all)
qed

text \<open>Reaping and releasing only free slots; a slot is freed by its owner.\<close>

lemma release_other_owner:
  "map_of (pool_grants l (f, v)) i \<noteq> Some eid \<Longrightarrow> release_slot f v i eid l = l"
  by (auto simp: release_slot_def Let_def dget_def split: option.splits)

lemma release_frees:
  assumes "map_of (pool_grants l (f, v)) i = Some eid"
  shows "map_of (pool_grants (release_slot f v i eid l) (f, v)) j =
    (if j = i then None else map_of (pool_grants l (f, v)) j)"
proof -
  obtain g where g: "map_of (grants l) (f, v) = Some g" "map_of g i = Some eid"
    using assms by (cases "map_of (grants l) (f, v)") auto
  have "map_of (dpop i g) j = (if j = i then None else map_of g j)" by simp
  moreover have "map_of (dpop i g) j = None" if "dpop i g = []" using that by simp
  ultimately show ?thesis using g by (cases "dpop i g = []") (auto simp: release_slot_def Let_def dget_def)
qed

lemma reap_grants:
  assumes "within_cap cap l"
  shows "map_of (pool_grants (reap_unknown_owners known l) key) i =
    (case map_of (pool_grants l key) i of None \<Rightarrow> None | Some eid \<Rightarrow> if eid \<in> known then Some eid else None)"
proof -
  note d = within_capD(1) [OF assms] and ok = within_capD(2) [OF assms, of key]
  have "map_of (reap_pool known g) i = (case map_of g i of None \<Rightarrow> None | Some eid \<Rightarrow> if eid \<in> known then Some eid else None)"
    if "dict_ok g" for g
    using that
    by (induction g) (auto simp: reap_pool_def dict_ok_def map_of_eq_None_iff split: option.splits)
  with ok map_of_reaped [OF d] show ?thesis by (simp add: reap_unknown_owners_def)
qed

text \<open>A report of a container is kept, unless a later endpoint reports the same slot.\<close>

lemma add_report_slots:
  "map_of (dget (add_report eid e ng) key []) i =
    (if key = (ce_function_id e, ce_version e) \<and> i = ce_slot_index e then Some eid
     else map_of (dget ng key []) i)"
  by (simp add: pool_add_report)

section \<open>Properties\<close>



text \<open>
  C9: The answer to a placement request, completely: \<open>Retry\<close> exactly while the ledger is being
  rebuilt; an idle container of another owner is reused before the pool grows; below the cap
  the smallest index that no container uses is granted to the requester, which from then on
  owns it; at the cap the job goes to an owner. No other pool changes.
\<close>

theorem request_slot_decision:
  assumes "rng_ok r" "request_slot r f v mc rid l = (d, l')"
  shows "(d = Retry \<longleftrightarrow> \<not> ready l) \<and>
    (ready l \<longrightarrow> idle_elsewhere l (f, v) rid \<noteq> {} \<longrightarrow>
         (\<exists>t \<in> idle_elsewhere l (f, v) rid. d = Place t)) \<and>
    (ready l \<longrightarrow> idle_elsewhere l (f, v) rid = {} \<longrightarrow> int (length (pool_grants l (f, v))) < max 1 mc \<longrightarrow>
         (\<exists>i. d = Granted i \<and> map_of (pool_grants l (f, v)) i = None \<and> 0 \<le> i \<and>
           (\<forall>j. 0 \<le> j \<longrightarrow> j < i \<longrightarrow> map_of (pool_grants l (f, v)) j \<noteq> None) \<and>
           map_of (pool_grants l' (f, v)) = (map_of (pool_grants l (f, v)))(i \<mapsto> rid))) \<and>
    (ready l \<longrightarrow> idle_elsewhere l (f, v) rid = {} \<longrightarrow> max 1 mc \<le> int (length (pool_grants l (f, v))) \<longrightarrow>
         (\<exists>t \<in> snd ` set (pool_grants l (f, v)). d = Place t)) \<and>
    (key \<noteq> (f, v) \<longrightarrow> map_of (grants l') key = map_of (grants l) key)"
proof -
  note cs = request_slot_cases [OF assms]
  have retry: "d = Retry \<longleftrightarrow> \<not> ready l" using cs by auto
  have reuse: "\<exists>t \<in> idle_elsewhere l (f, v) rid. d = Place t"
    if "ready l" "idle_elsewhere l (f, v) rid \<noteq> {}" using cs that by auto
  have grow: "\<exists>i. d = Granted i \<and> map_of (pool_grants l (f, v)) i = None \<and> 0 \<le> i \<and>
      (\<forall>j. 0 \<le> j \<longrightarrow> j < i \<longrightarrow> map_of (pool_grants l (f, v)) j \<noteq> None) \<and>
      map_of (pool_grants l' (f, v)) = (map_of (pool_grants l (f, v)))(i \<mapsto> rid)"
    if "ready l" "idle_elsewhere l (f, v) rid = {}" "int (length (pool_grants l (f, v))) < max 1 mc"
  proof (intro exI [of _ "smallest_unused_index (pool_grants l (f, v))"] conjI)
    show "\<forall>j. 0 \<le> j \<longrightarrow> j < smallest_unused_index (pool_grants l (f, v)) \<longrightarrow>
        map_of (pool_grants l (f, v)) j \<noteq> None"
      using smallest_unused_least by blast
  qed (use cs that smallest_unused_free smallest_unused_bounds in \<open>auto simp: fun_eq_iff\<close>)
  have place: "\<exists>t \<in> snd ` set (pool_grants l (f, v)). d = Place t"
    if "ready l" "idle_elsewhere l (f, v) rid = {}" "max 1 mc \<le> int (length (pool_grants l (f, v)))"
    using cs that by auto
  have other: "map_of (grants l') key = map_of (grants l) key" if "key \<noteq> (f, v)"
    by (rule request_slot_other_pools [OF assms(2) that])
  show ?thesis by (intro retry reuse grow place other conjI impI)
qed

lemma request_slot_decision_witness:
  "fst (request_slot \<lparr>sample2 = (\<lambda>xs. (hd xs, hd xs)), choice = hd\<rparr> ''f'' 1 2 ''a'' (ledger_init ''random'')) = Retry
     \<longleftrightarrow> \<not> ready (ledger_init ''random'')"
proof -
  have "rng_ok \<lparr>sample2 = (\<lambda>xs. (hd xs, hd xs)), choice = hd\<rparr>"
    by (auto simp: rng_ok_def intro: hd_in_set)
  then show ?thesis by (rule request_slot_decision [THEN conjunct1]) (rule prod.collapse [symmetric])
qed

text \<open>
  Releasing and reaping only free slots. A release is effective exactly when the named
  endpoint owns the slot, and then frees this slot alone; reaping frees exactly the slots of
  endpoints that are not known any more.
\<close>

theorem slots_are_freed_by_owner:
  "(map_of (pool_grants l (f, v)) i \<noteq> Some eid \<longrightarrow> release_slot f v i eid l = l) \<and>
   (map_of (pool_grants l (f, v)) i = Some eid \<longrightarrow>
      map_of (pool_grants (release_slot f v i eid l) (f, v)) = (map_of (pool_grants l (f, v)))(i := None)) \<and>
   (ledger_reachable cap strat l \<longrightarrow>
      map_of (pool_grants (reap_unknown_owners known l) key) j =
        (case map_of (pool_grants l key) j of None \<Rightarrow> None
         | Some e \<Rightarrow> if e \<in> known then Some e else None))"
proof -
  have own: "map_of (pool_grants (release_slot f v i eid l) (f, v)) = (map_of (pool_grants l (f, v)))(i := None)"
    if "map_of (pool_grants l (f, v)) i = Some eid"
    using release_frees [OF that] by (intro ext) simp
  show ?thesis
    by (intro conjI impI) (erule release_other_owner own reap_grants [OF ledger_reachable_within_cap])+
qed

lemma slots_are_freed_by_owner_witness:
  "release_slot ''f'' 1 0 ''b'' (ledger_init ''random'') = ledger_init ''random''"
  by (rule slots_are_freed_by_owner [THEN conjunct1, THEN mp]) (simp add: ledger_init_def dget_def)

text \<open>
  A pool's metrics key parses back to the function id and version it was built from, for
  every function id (colons included) and every version.
\<close>

theorem pool_metrics_key_parses: "parse_pool_metrics_key (pool_metrics_key f v) = Some (f, v)"
  by (rule pool_metrics_key_roundtrip)

end
