(* ===== verification/Choreography_Graph.thy ===== *)
theory Choreography_Graph
  imports Json
begin

text \<open>
  The workflow graphs of the virtual environment manager: nodes and edges
  (\<open>axo_shared/events/models.py\<close>), the graph operations of the orchestrator
  (\<open>axo_vem/domain/choreography/graph_ops.py\<close>), the design-time concurrency check
  (\<open>concurrency_check.py\<close>) and the backoff of a node's retries (\<open>retry_policy.py\<close>).

  The lemmas show that \<open>downstream_of\<close> is forward reachability, that the waves are an
  ordering of the nodes in which every dependency comes in a strictly earlier wave, and that
  they exist exactly when the edges are acyclic and start at known nodes.

  A Python \<open>set\<close> of node ids is the list of its elements; the order is the model's and no
  result below depends on it.
\<close>

section \<open>Graphs\<close>

datatype node_kind = Function_Node | Bucket_Node
datatype edge_kind = Fn_To_Fn | Fn_To_Bucket | Bucket_To_Fn

record cnode =
  n_id :: string
  n_kind :: node_kind
  n_position :: "(string, flt) dict"
  n_function_id :: "string option"
  n_function_version :: "int option"
  n_max_retries :: int
  n_retry_policy :: string
  n_bucket_name :: "string option"
  n_selected_items :: "(string, json) dict list option"

record cedge =
  e_id :: string
  e_source :: string
  e_target :: string
  e_kind :: edge_kind
  e_target_param :: "string option"
  e_parallelism :: int

record cgraph =
  g_nodes :: "cnode list"
  g_edges :: "cedge list"

text \<open>The edges as a relation, and the keys of the dictionaries below.\<close>

definition edge_rel :: "cgraph \<Rightarrow> (string \<times> string) set" where
  "edge_rel g = (\<lambda>e. (e_source e, e_target e)) ` set (g_edges g)"

definition node_ids :: "cgraph \<Rightarrow> string set" where
  "node_ids g = n_id ` set (g_nodes g)"

section \<open>Dependencies and dependents\<close>

text \<open>\<open>d.setdefault(k, set()).add(x)\<close>.\<close>

definition link :: "string \<Rightarrow> string \<Rightarrow> (string, string list) dict \<Rightarrow> (string, string list) dict" where
  "link k x d = dput k (List.insert x (dget d k [])) d"

definition no_links :: "cgraph \<Rightarrow> (string, string list) dict" where
  "no_links g = fold (\<lambda>n. dput (n_id n) []) (g_nodes g) []"

definition dependencies_of :: "cgraph \<Rightarrow> (string, string list) dict" where
  "dependencies_of g = fold (\<lambda>e. link (e_target e) (e_source e)) (g_edges g) (no_links g)"

definition dependents_of :: "cgraph \<Rightarrow> (string, string list) dict" where
  "dependents_of g = fold (\<lambda>e. link (e_source e) (e_target e)) (g_edges g) (no_links g)"

lemma set_link [simp]:
  "set (dget (link k x d) k' []) = (if k' = k then insert x (set (dget d k [])) else set (dget d k' []))"
  by (simp add: link_def)

lemma link_keys [simp]: "fst ` set (link k x d) = insert k (fst ` set d)"
  by (simp add: link_def)

lemma link_ok [simp]: "dict_ok d \<Longrightarrow> dict_ok (link k x d)"
  by (simp add: link_def)

lemma fold_link_values:
  "set (dget (fold (\<lambda>e. link (f e) (h e)) es d) k []) = set (dget d k []) \<union> {h e | e. e \<in> set es \<and> f e = k}"
  by (induction es arbitrary: d) auto

lemma fold_link_keys:
  "fst ` set (fold (\<lambda>e. link (f e) (h e)) es d) = fst ` set d \<union> f ` set es"
  by (induction es arbitrary: d) auto

lemma fold_link_ok: "dict_ok d \<Longrightarrow> dict_ok (fold (\<lambda>e. link (f e) (h e)) es d)"
  by (induction es arbitrary: d) auto

lemmas fold_link = fold_link_values fold_link_keys fold_link_ok

lemma fold_dput_keys: "fst ` set (fold (\<lambda>n. dput (f n) v) ns d) = fst ` set d \<union> f ` set ns"
  by (induction ns arbitrary: d) auto

lemma fold_dput_ok: "dict_ok d \<Longrightarrow> dict_ok (fold (\<lambda>n. dput (f n) v) ns d)"
  by (induction ns arbitrary: d) auto

lemma fold_dput_default: "dget d k v = v \<Longrightarrow> dget (fold (\<lambda>n. dput (f n) v) ns d) k v = v"
  by (induction ns arbitrary: d) (auto simp: dget_def)

lemma no_links_facts [simp]:
  "fst ` set (no_links g) = node_ids g" "dict_ok (no_links g)" "dget (no_links g) k [] = []"
  by (auto simp: no_links_def node_ids_def fold_dput_keys fold_dput_ok fold_dput_default)

lemma dependencies_facts:
  "set (dget (dependencies_of g) k []) = {s. (s, k) \<in> edge_rel g}"
  "fst ` set (dependencies_of g) = node_ids g \<union> Range (edge_rel g)"
  "dict_ok (dependencies_of g)"
  by (auto simp: dependencies_of_def fold_link edge_rel_def)

lemma dependents_facts:
  "set (dget (dependents_of g) k []) = {t. (k, t) \<in> edge_rel g}"
  "fst ` set (dependents_of g) = node_ids g \<union> Domain (edge_rel g)"
  "dict_ok (dependents_of g)"
  by (auto simp: dependents_of_def fold_link edge_rel_def)

section \<open>Waves\<close>

text \<open>
  The loop of \<open>topological_waves\<close> on the nodes that remain and those done. The text of the
  \<open>ValueError\<close>, which lists the remaining nodes, is read by no caller.
\<close>

definition ready_nodes :: "string list \<Rightarrow> (string, string list) dict \<Rightarrow> string list" where
  "ready_nodes done_ids remaining = map fst (filter (\<lambda>(k, ds). list_all (\<lambda>s. s \<in> set done_ids) ds) remaining)"

lemma ready_in_remaining: "set (ready_nodes done_ids remaining) \<subseteq> fst ` set remaining"
  by (auto simp: ready_nodes_def)

function waves_loop :: "string list \<Rightarrow> (string, string list) dict \<Rightarrow> string list list res" where
  "waves_loop done_ids remaining =
    (if remaining = [] then Ok []
     else let ready = ready_nodes done_ids remaining in
       if ready = [] then Raise ValueError
       else case waves_loop (done_ids @ ready) (filter (\<lambda>p. fst p \<notin> set ready) remaining) of
              Ok ws \<Rightarrow> Ok (sort ready # ws)
            | Err e \<Rightarrow> Err e
            | Raise ex \<Rightarrow> Raise ex)"
  by pat_completeness auto

termination
proof (relation "measure (\<lambda>(_, remaining). length remaining)", goal_cases)
  case 1
  then show ?case by simp
next
  case (2 done_ids remaining ready)
  then obtain k where "k \<in> set ready" "k \<in> fst ` set remaining"
    using ready_in_remaining [of done_ids remaining] 2(2) hd_in_set by blast
  then have "\<exists>p \<in> set remaining. fst p \<in> set ready"
    by auto
  then have "length (filter (\<lambda>p. fst p \<notin> set ready) remaining) < length remaining"
    by (auto intro!: length_filter_less)
  then show ?case by simp
qed

declare waves_loop.simps [simp del]

definition topological_waves :: "cgraph \<Rightarrow> string list list res" where
  "topological_waves g = waves_loop [] (dependencies_of g)"

section \<open>What depends on a node\<close>

text \<open>
  \<open>frontier.pop()\<close> takes the last element. Every round either drops an element of the frontier
  or adds one to the nodes found, all of which occur in the dictionary or the frontier.
\<close>

definition reach_bound :: "(string, string list) dict \<Rightarrow> string list \<Rightarrow> string list \<Rightarrow> nat" where
  "reach_bound deps affected frontier = card ((set frontier \<union> \<Union> (set ` snd ` set deps)) - set affected)"

lemma dget_in_values: "set (dget deps k []) \<subseteq> \<Union> (set ` snd ` set deps)"
proof (cases "map_of deps k")
  case (Some ds)
  then have "(k, ds) \<in> set deps" by (rule map_of_SomeD)
  then show ?thesis using Some by force
qed simp

lemma in_set_last: "xs \<noteq> [] \<Longrightarrow> set xs = insert (last xs) (set (butlast xs))"
  by (induction xs) auto

function downstream_loop :: "(string, string list) dict \<Rightarrow> string list \<Rightarrow> string list \<Rightarrow> string list" where
  "downstream_loop deps affected frontier =
    (if frontier = [] then affected
     else if last frontier \<in> set affected then downstream_loop deps affected (butlast frontier)
     else downstream_loop deps (last frontier # affected)
            (butlast frontier @ dget deps (last frontier) []))"
  by pat_completeness auto

termination
proof (relation "measures [\<lambda>(deps, affected, frontier). reach_bound deps affected frontier,
    \<lambda>(deps, affected, frontier). length frontier]", goal_cases)
  case 1
  then show ?case by simp
next
  case (2 deps affected frontier)
  have "(set (butlast frontier) \<union> \<Union> (set ` snd ` set deps)) - set affected
      \<subseteq> (set frontier \<union> \<Union> (set ` snd ` set deps)) - set affected"
    using in_set_last [OF 2(1)] by auto
  then have "reach_bound deps affected (butlast frontier) \<le> reach_bound deps affected frontier"
    unfolding reach_bound_def by (intro card_mono) auto
  then show ?case using 2(1) by (auto simp: le_less)
next
  case (3 deps affected frontier)
  let ?new = "butlast frontier @ dget deps (last frontier) []"
  have "(set ?new \<union> \<Union> (set ` snd ` set deps)) - set (last frontier # affected)
      \<subset> (set frontier \<union> \<Union> (set ` snd ` set deps)) - set affected"
    using in_set_last [OF 3(1)] 3(2) dget_in_values [of deps "last frontier"] by auto
  then have "reach_bound deps (last frontier # affected) ?new < reach_bound deps affected frontier"
    unfolding reach_bound_def by (intro psubset_card_mono) auto
  then show ?case by simp
qed

declare downstream_loop.simps [simp del]

definition downstream_of :: "cgraph \<Rightarrow> string \<Rightarrow> string list" where
  "downstream_of g node_id =
    (let dependents = dependents_of g in downstream_loop dependents [] (dget dependents node_id []))"

section \<open>Forward reachability\<close>

definition successors :: "(string, string list) dict \<Rightarrow> (string \<times> string) set" where
  "successors deps = {(k, t). t \<in> set (dget deps k [])}"

lemma closed_reach:
  assumes "R `` A \<subseteq> A \<union> F"
  shows "R\<^sup>* `` A \<subseteq> A \<union> R\<^sup>* `` F"
proof
  fix m assume "m \<in> R\<^sup>* `` A"
  then obtain a where "a \<in> A" and "(a, m) \<in> R\<^sup>*" by auto
  from this(2, 1) show "m \<in> A \<union> R\<^sup>* `` F"
  proof (induction rule: rtrancl_induct)
    case (step y z)
    then show ?case using assms by (auto intro: rtrancl_into_rtrancl)
  qed simp
qed

lemma rtrancl_image_step: "R\<^sup>* `` {c} = insert c (R\<^sup>* `` (R `` {c}))"
  by (auto elim: converse_rtranclE intro: converse_rtrancl_into_rtrancl)

lemma downstream_loop_reach:
  "successors deps `` set affected \<subseteq> set affected \<union> set frontier \<Longrightarrow>
    set (downstream_loop deps affected frontier) = set affected \<union> (successors deps)\<^sup>* `` set frontier"
proof (induction deps affected frontier rule: downstream_loop.induct)
  case (1 deps affected frontier)
  let ?R = "successors deps" and ?c = "last frontier" and ?rest = "butlast frontier"
  show ?case
  proof (cases "frontier = []")
    case True
    then show ?thesis by (simp add: downstream_loop.simps)
  next
    case ne: False
    note fr = in_set_last [OF ne]
    show ?thesis
    proof (cases "?c \<in> set affected")
      case True
      have closed: "?R `` set affected \<subseteq> set affected \<union> set ?rest"
        using "1.prems" True fr by auto
      have "?R\<^sup>* `` {?c} \<subseteq> set affected \<union> ?R\<^sup>* `` set ?rest"
        using closed_reach [OF closed] True by auto
      then show ?thesis
        using "1.IH"(1) [OF ne True closed] ne True fr by (subst downstream_loop.simps) auto
    next
      case False
      let ?new = "?rest @ dget deps ?c []"
      have step: "?R `` {?c} = set (dget deps ?c [])" by (auto simp: successors_def)
      have closed: "?R `` set (?c # affected) \<subseteq> set (?c # affected) \<union> set ?new"
        using "1.prems" fr step by auto
      have "?R\<^sup>* `` set frontier = insert ?c (?R\<^sup>* `` set ?new)"
        using rtrancl_image_step [of ?R ?c] step fr by auto
      then show ?thesis
        using "1.IH"(2) [OF ne False closed] ne False by (subst downstream_loop.simps) auto
    qed
  qed
qed

lemma downstream_loop_distinct: "distinct affected \<Longrightarrow> distinct (downstream_loop deps affected frontier)"
proof (induction deps affected frontier rule: downstream_loop.induct)
  case (1 deps affected frontier)
  then show ?case by (subst downstream_loop.simps) (auto simp del: distinct.simps simp: distinct.simps(2))
qed

lemma successors_dependents [simp]: "successors (dependents_of g) = edge_rel g"
  by (auto simp: successors_def dependents_facts)

lemma set_downstream_of: "set (downstream_of g n) = (edge_rel g)\<^sup>+ `` {n}"
proof -
  have "set (downstream_of g n) = (edge_rel g)\<^sup>* `` {t. (n, t) \<in> edge_rel g}"
    by (simp add: downstream_of_def Let_def downstream_loop_reach dependents_facts)
  also have "\<dots> = (edge_rel g)\<^sup>+ `` {n}"
    by (auto simp: trancl_unfold_left)
  finally show ?thesis .
qed

section \<open>The waves order the graph\<close>

lemma ready_nodes_iff:
  assumes "dict_ok remaining"
  shows "k \<in> set (ready_nodes done_ids remaining) \<longleftrightarrow>
    k \<in> fst ` set remaining \<and> set (dget remaining k []) \<subseteq> set done_ids"
  using assms by (force simp: ready_nodes_def list_all_iff dict_ok_mem_iff)

lemma distinct_ready: "dict_ok remaining \<Longrightarrow> distinct (ready_nodes done_ids remaining)"
  by (auto simp: ready_nodes_def dict_ok_def distinct_map_filter)

lemma dict_ok_filter: "dict_ok d \<Longrightarrow> dict_ok (filter P d)"
  by (auto simp: dict_ok_def distinct_map_filter)

lemma dget_filter:
  "dict_ok d \<Longrightarrow> k \<notin> ks \<Longrightarrow> dget (filter (\<lambda>p. fst p \<notin> ks) d) k x = dget d k x"
  by (induction d) (auto simp: dget_def dict_ok_def)

lemma waves_loop_stuck:
  "remaining \<noteq> [] \<Longrightarrow> ready_nodes done_ids remaining = [] \<Longrightarrow> waves_loop done_ids remaining = Raise ValueError"
  by (simp add: waves_loop.simps)

lemma waves_loop_step:
  "remaining \<noteq> [] \<Longrightarrow> ready_nodes done_ids remaining \<noteq> [] \<Longrightarrow> waves_loop done_ids remaining =
    (case waves_loop (done_ids @ ready_nodes done_ids remaining)
       (filter (\<lambda>p. fst p \<notin> set (ready_nodes done_ids remaining)) remaining) of
       Ok ws \<Rightarrow> Ok (sort (ready_nodes done_ids remaining) # ws) | Err e \<Rightarrow> Err e | Raise ex \<Rightarrow> Raise ex)"
  by (subst waves_loop.simps) (simp only: if_False Let_def)

lemma dget_filtered_out: "k \<in> ks \<Longrightarrow> dget (filter (\<lambda>p. fst p \<notin> ks) d) k x = x"
  by (induction d) (auto simp: dget_def)

text \<open>What the waves found for the nodes that remain say about them.\<close>

definition waves_ordered :: "string list \<Rightarrow> (string, string list) dict \<Rightarrow> string list list \<Rightarrow> bool" where
  "waves_ordered done_ids remaining ws =
    (\<forall>i < length ws. ws ! i \<noteq> [] \<and> sorted (ws ! i) \<and>
      (\<forall>k \<in> set (ws ! i). set (dget remaining k []) \<subseteq> set done_ids \<union> set (concat (take i ws))))"

lemma waves_loop_ordered:
  "waves_loop done_ids remaining = Ok ws \<Longrightarrow> dict_ok remaining \<Longrightarrow>
    distinct (concat ws) \<and> set (concat ws) = fst ` set remaining \<and> waves_ordered done_ids remaining ws"
proof (induction done_ids remaining arbitrary: ws rule: waves_loop.induct)
  case (1 done_ids remaining)
  let ?ready = "ready_nodes done_ids remaining"
  let ?rest = "filter (\<lambda>p. fst p \<notin> set ?ready) remaining"
  show ?case
  proof (cases "remaining = []")
    case True
    then show ?thesis using 1 by (auto simp: waves_loop.simps waves_ordered_def)
  next
    case ne: False
    have ready: "?ready \<noteq> []" using "1.prems"(1) ne waves_loop_stuck by fastforce
    obtain us where us: "waves_loop (done_ids @ ?ready) ?rest = Ok us" and ws: "ws = sort ?ready # us"
      using "1.prems"(1) unfolding waves_loop_step [OF ne ready] by (auto split: res.splits)
    have ok: "dict_ok ?rest" using "1.prems"(2) by (rule dict_ok_filter)
    from "1.IH" [OF ne refl ready us ok]
    have IH: "distinct (concat us)" "set (concat us) = fst ` set ?rest"
      "waves_ordered (done_ids @ ?ready) ?rest us" by auto
    have keys: "fst ` set ?rest = fst ` set remaining - set ?ready" by auto
    have rest: "dget ?rest k [] = dget remaining k []" if "k \<in> set (concat us)" for k
      using that IH(2) "1.prems"(2) by (intro dget_filter) auto
    have "waves_ordered done_ids remaining ws"
      unfolding waves_ordered_def
    proof (intro allI impI)
      fix i assume i: "i < length ws"
      show "ws ! i \<noteq> [] \<and> sorted (ws ! i) \<and>
        (\<forall>k \<in> set (ws ! i). set (dget remaining k []) \<subseteq> set done_ids \<union> set (concat (take i ws)))"
      proof (cases i)
        case 0
        have "sort ?ready \<noteq> []" using ready by (metis set_empty set_sort)
        then show ?thesis using 0 ws ready_nodes_iff [OF "1.prems"(2)] by auto
      next
        case (Suc j)
        then have j: "j < length us" using i ws by simp
        then have "us ! j \<in> set us" by simp
        then have mem: "k \<in> set (concat us)" if "k \<in> set (us ! j)" for k using that by auto
        have "set (dget remaining k []) \<subseteq> set (done_ids @ ?ready) \<union> set (concat (take j us))"
          if "k \<in> set (us ! j)" for k
          using IH(3) j that unfolding waves_ordered_def by (metis rest [OF mem [OF that]])
        moreover have "us ! j \<noteq> []" "sorted (us ! j)"
          using IH(3) j by (auto simp: waves_ordered_def)
        ultimately show ?thesis using Suc ws by force
      qed
    qed
    moreover have "distinct (concat ws)"
      using IH ws distinct_ready [OF "1.prems"(2)] keys by auto
    moreover have "set (concat ws) = fst ` set remaining"
      using IH(2) keys ws ready_in_remaining [of done_ids remaining] by auto
    ultimately show ?thesis by blast
  qed
qed

text \<open>A wave that can start is found as long as the dependencies that remain have no cycle.\<close>

lemma ready_exists:
  assumes ok: "dict_ok remaining" and ne: "remaining \<noteq> []"
    and acyclic: "acyclic (successors remaining)"
    and known: "\<And>k. k \<in> fst ` set remaining \<Longrightarrow> set (dget remaining k []) \<subseteq> set done_ids \<union> fst ` set remaining"
  shows "ready_nodes done_ids remaining \<noteq> []"
proof -
  let ?R = "(successors remaining)\<inverse>"
  have "successors remaining \<subseteq> (fst ` set remaining) \<times> \<Union> (set ` snd ` set remaining)"
  proof
    fix p assume "p \<in> successors remaining"
    then obtain k t where p: "p = (k, t)" and t: "t \<in> set (dget remaining k [])"
      by (auto simp: successors_def)
    from t have "map_of remaining k \<noteq> None" by (cases "map_of remaining k") auto
    then have "k \<in> fst ` set remaining" by (simp add: map_of_eq_None_iff)
    then show "p \<in> (fst ` set remaining) \<times> \<Union> (set ` snd ` set remaining)"
      using p t dget_in_values [of remaining k] by auto
  qed
  then have "finite (successors remaining)" by (rule finite_subset) auto
  then have "wf ?R" using acyclic by (simp add: finite_acyclic_wf_converse)
  moreover have "fst (hd remaining) \<in> fst ` set remaining" using ne by auto
  ultimately obtain k where k: "k \<in> fst ` set remaining" and
    min: "\<And>s. (s, k) \<in> ?R \<Longrightarrow> s \<notin> fst ` set remaining"
    by (metis wf_eq_minimal)
  have "set (dget remaining k []) \<subseteq> set done_ids"
    using known [OF k] min by (auto simp: successors_def)
  then have "k \<in> set (ready_nodes done_ids remaining)" using k by (simp add: ready_nodes_iff [OF ok])
  then show ?thesis by auto
qed

lemma waves_loop_exists:
  "dict_ok remaining \<Longrightarrow> acyclic (successors remaining) \<Longrightarrow>
    (\<And>k. k \<in> fst ` set remaining \<Longrightarrow> set (dget remaining k []) \<subseteq> set done_ids \<union> fst ` set remaining) \<Longrightarrow>
    \<exists>ws. waves_loop done_ids remaining = Ok ws"
proof (induction done_ids remaining rule: waves_loop.induct)
  case (1 done_ids remaining)
  let ?ready = "ready_nodes done_ids remaining"
  let ?rest = "filter (\<lambda>p. fst p \<notin> set ?ready) remaining"
  show ?case
  proof (cases "remaining = []")
    case True
    then show ?thesis by (simp add: waves_loop.simps)
  next
    case ne: False
    have ready: "?ready \<noteq> []" using 1 ne by (intro ready_exists) auto
    have dget: "dget ?rest k [] = (if k \<in> set ?ready then [] else dget remaining k [])" for k
      using dget_filter [OF "1.prems"(1), of k "set ?ready"] dget_filtered_out [of k "set ?ready"] by auto
    have "successors ?rest \<subseteq> successors remaining"
      by (auto simp: successors_def dget split: if_splits)
    then have "acyclic (successors ?rest)" using "1.prems"(2) by (rule acyclic_subset [rotated])
    moreover have "set (dget ?rest k []) \<subseteq> set (done_ids @ ?ready) \<union> fst ` set ?rest"
      if "k \<in> fst ` set ?rest" for k
      using "1.prems"(3) [of k] that dget [of k] by auto
    ultimately obtain us where "waves_loop (done_ids @ ?ready) ?rest = Ok us"
      using "1.IH" [OF ne refl ready dict_ok_filter [OF "1.prems"(1)]] by blast
    then show ?thesis unfolding waves_loop_step [OF ne ready] by simp
  qed
qed

lemma successors_dependencies [simp]: "successors (dependencies_of g) = (edge_rel g)\<inverse>"
  by (auto simp: successors_def dependencies_facts)

lemma topological_waves_ordered:
  assumes "topological_waves g = Ok ws"
  shows "distinct (concat ws)" "set (concat ws) = node_ids g \<union> Range (edge_rel g)"
    and "i < length ws \<Longrightarrow> t \<in> set (ws ! i) \<Longrightarrow> (s, t) \<in> edge_rel g \<Longrightarrow> s \<in> set (concat (take i ws))"
    and "i < length ws \<Longrightarrow> ws ! i \<noteq> []" "i < length ws \<Longrightarrow> sorted (ws ! i)"
  using waves_loop_ordered [OF assms [unfolded topological_waves_def] dependencies_facts(3)]
  unfolding waves_ordered_def dependencies_facts by (auto simp del: set_concat)

text \<open>
  C25: \<open>topological_waves\<close> lists every node (and every edge target) exactly once, in waves that
  are sorted and not empty, and each dependency of a node is in a strictly earlier wave.
\<close>

theorem waves_respect_edges:
  assumes "topological_waves g = Ok ws"
  shows "distinct (concat ws) \<and> set (concat ws) = node_ids g \<union> Range (edge_rel g) \<and>
    (\<forall>i < length ws. ws ! i \<noteq> [] \<and> sorted (ws ! i) \<and>
      (\<forall>t \<in> set (ws ! i). \<forall>s. (s, t) \<in> edge_rel g \<longrightarrow> s \<in> set (concat (take i ws))))"
  using topological_waves_ordered [OF assms] by blast

definition diamond :: cgraph where
  "diamond = (let n = \<lambda>i. \<lparr>n_id = i, n_kind = Bucket_Node, n_position = [], n_function_id = None,
       n_function_version = None, n_max_retries = 3, n_retry_policy = ''constant'',
       n_bucket_name = None, n_selected_items = None\<rparr>;
     e = \<lambda>s t. \<lparr>e_id = s @ t, e_source = s, e_target = t, e_kind = Fn_To_Fn,
       e_target_param = None, e_parallelism = 1\<rparr>
   in \<lparr>g_nodes = map n [''d'', ''c'', ''b'', ''a''],
       g_edges = [e ''a'' ''b'', e ''a'' ''c'', e ''b'' ''d'', e ''c'' ''d'']\<rparr>)"

lemma diamond_waves: "topological_waves diamond = Ok [[''a''], [''b'', ''c''], [''d'']]"
  by code_simp

lemma waves_respect_edges_witness:
  "set (concat [[''a''], [''b'', ''c''], [''d'']]) = node_ids diamond \<union> Range (edge_rel diamond)"
  using waves_respect_edges [OF diamond_waves] by blast

lemma wave_order_acyclic:
  assumes "topological_waves g = Ok ws"
  shows "acyclic (edge_rel g)" "Domain (edge_rel g) \<subseteq> node_ids g \<union> Range (edge_rel g)"
proof -
  define rank where "rank k = (LEAST i. i < length ws \<and> k \<in> set (ws ! i))" for k
  note ord = topological_waves_ordered [OF assms]
  have rank: "rank k < length ws \<and> k \<in> set (ws ! rank k)" if "k \<in> set (concat ws)" for k
  proof -
    from that have "\<exists>i. i < length ws \<and> k \<in> set (ws ! i)" by (auto simp: set_conv_nth [of ws])
    then show ?thesis unfolding rank_def by (rule LeastI_ex)
  qed
  have edge: "rank s < rank t \<and> s \<in> set (concat ws)" if "(s, t) \<in> edge_rel g" for s t
  proof -
    from that have "t \<in> set (concat ws)" using ord(2) by auto
    then have t: "rank t < length ws" "t \<in> set (ws ! rank t)" using rank by auto
    then have "s \<in> set (concat (take (rank t) ws))" using ord(3) that by blast
    then obtain j where j: "j < rank t" "j < length ws" "s \<in> set (ws ! j)"
      by (auto simp: set_conv_nth [of "take (rank t) ws"])
    then have "rank s \<le> j" unfolding rank_def by (intro Least_le) simp
    moreover have "s \<in> set (concat ws)" using j by auto
    ultimately show ?thesis using j(1) by simp
  qed
  then have "edge_rel g \<subseteq> measure rank" by auto
  then show "acyclic (edge_rel g)" by (metis acyclic_subset wf_acyclic wf_measure)
  show "Domain (edge_rel g) \<subseteq> node_ids g \<union> Range (edge_rel g)" using edge ord(2) by auto
qed


text \<open>C27: \<open>downstream_of\<close> is exactly what can be reached from a node along one edge or more.\<close>

theorem downstream_is_reachability:
  "set (downstream_of g n) = {m. (n, m) \<in> (edge_rel g)\<^sup>+} \<and> distinct (downstream_of g n)"
  by (auto simp: set_downstream_of) (simp add: downstream_of_def Let_def downstream_loop_distinct)

section \<open>The concurrency check\<close>

record violation =
  v_node_id :: string
  v_function_id :: string
  v_required :: int
  v_max :: json

text \<open>\<open>n > x\<close> for an integer and a value of the function's metadata.\<close>

fun exceeds :: "int \<Rightarrow> json \<Rightarrow> bool res" where
  "exceeds n (JInt m) = Ok (m < n)"
| "exceeds n (JFloat x) = Ok (x < n * 1000000)"
| "exceeds n (JBool b) = Ok (of_bool b < n)"
| "exceeds n _ = Raise TypeError"

text \<open>The inner loop over the edges, and the floor of one run for a node with no inbound edge.\<close>

definition required_concurrency :: "cgraph \<Rightarrow> string \<Rightarrow> int" where
  "required_concurrency g node_id =
    max (fold (\<lambda>e c.
           if e_target e \<noteq> node_id then c
           else case e_kind e of
             Fn_To_Fn \<Rightarrow> c + 1
           | Bucket_To_Fn \<Rightarrow> c + max 1 (e_parallelism e)
           | Fn_To_Bucket \<Rightarrow> c) (g_edges g) 0) 1"

definition runs_function :: "cnode \<Rightarrow> bool" where
  "runs_function n = (n_kind n = Function_Node \<and> n_function_id n \<noteq> None \<and> n_function_id n \<noteq> Some [])"

fun check_nodes :: "cgraph \<Rightarrow> (string, json) dict \<Rightarrow> cnode list \<Rightarrow> violation list res" where
  "check_nodes g limits [] = Ok []"
| "check_nodes g limits (n # ns) =
    (if \<not> runs_function n then check_nodes g limits ns
     else let c = required_concurrency g (n_id n);
              fid = the (n_function_id n);
              limit = dget limits fid (JInt 1)
       in case exceeds c limit of
            Ok b \<Rightarrow>
              (case check_nodes g limits ns of
                 Ok vs \<Rightarrow> Ok ((if b then [\<lparr>v_node_id = n_id n, v_function_id = fid, v_required = c, v_max = limit\<rparr>] else []) @ vs)
               | Err e \<Rightarrow> Err e
               | Raise ex \<Rightarrow> Raise ex)
          | Err e \<Rightarrow> Err e
          | Raise ex \<Rightarrow> Raise ex)"

definition check_concurrency :: "cgraph \<Rightarrow> (string, json) dict \<Rightarrow> violation list res" where
  "check_concurrency g max_concurrency_by_function = check_nodes g max_concurrency_by_function (g_nodes g)"

section \<open>Backoff\<close>

text \<open>
  \<open>2 ** (attempt - 1)\<close> is an integer for \<open>attempt >= 1\<close> and 0.5 for 0; converting it to a float
  fails from 2 to the 1024th power on. \<open>uniform\<close> is \<open>random.uniform(0, hi)\<close>.
\<close>

definition backoff :: "flt \<Rightarrow> nat \<Rightarrow> flt res" where
  "backoff base attempt =
    (if attempt = 0 then Ok (base div 2)
     else if 1024 \<le> attempt - 1 then Raise OverflowError
     else Ok (base * 2 ^ (attempt - 1)))"

definition next_delay_seconds :: "(flt \<Rightarrow> flt) \<Rightarrow> string \<Rightarrow> nat \<Rightarrow> flt \<Rightarrow> flt \<Rightarrow> flt res" where
  "next_delay_seconds uniform policy attempt base_seconds max_seconds =
    (case (if policy = ''constant'' then Ok base_seconds
           else if policy = ''exponential_backoff'' then backoff base_seconds attempt
           else if policy = ''jitter'' then
             (case backoff base_seconds attempt of Ok hi \<Rightarrow> Ok (uniform hi) | Err e \<Rightarrow> Err e | Raise ex \<Rightarrow> Raise ex)
           else Raise ValueError) of
       Ok delay \<Rightarrow> Ok (min delay max_seconds)
     | Err e \<Rightarrow> Err e
     | Raise ex \<Rightarrow> Raise ex)"

section \<open>What the check computes\<close>

text \<open>
  The reference: the invocations that land on a node in its wave are its \<open>fn_to_fn\<close> edges and
  the parallelism of its \<open>bucket_to_fn\<close> edges, at least one each.
\<close>

definition edges_into :: "cgraph \<Rightarrow> string \<Rightarrow> edge_kind \<Rightarrow> cedge list" where
  "edges_into g node_id k = filter (\<lambda>e. e_target e = node_id \<and> e_kind e = k) (g_edges g)"

definition concurrent_invocations :: "cgraph \<Rightarrow> string \<Rightarrow> int" where
  "concurrent_invocations g node_id =
    max 1 (int (length (edges_into g node_id Fn_To_Fn)) +
      (\<Sum>e\<leftarrow>edges_into g node_id Bucket_To_Fn. max 1 (e_parallelism e)))"

lemma required_fold:
  "fold (\<lambda>e c. if e_target e \<noteq> i then c else case e_kind e of Fn_To_Fn \<Rightarrow> c + 1
       | Bucket_To_Fn \<Rightarrow> c + max 1 (e_parallelism e) | Fn_To_Bucket \<Rightarrow> c) es c =
    c + int (length (filter (\<lambda>e. e_target e = i \<and> e_kind e = Fn_To_Fn) es)) +
      (\<Sum>e\<leftarrow>filter (\<lambda>e. e_target e = i \<and> e_kind e = Bucket_To_Fn) es. max 1 (e_parallelism e))"
  by (induction es arbitrary: c) (auto split: edge_kind.splits)

lemma required_concurrency_eq: "required_concurrency g i = concurrent_invocations g i"
  by (simp add: required_concurrency_def concurrent_invocations_def edges_into_def required_fold max.commute)

definition int_limits :: "(string, json) dict \<Rightarrow> (string \<Rightarrow> int) \<Rightarrow> bool" where
  "int_limits limits m = (\<forall>f. dget limits f (JInt 1) = JInt (m f))"

lemma check_nodes_eq:
  "int_limits limits m \<Longrightarrow> check_nodes g limits ns =
    Ok (map (\<lambda>n. \<lparr>v_node_id = n_id n, v_function_id = the (n_function_id n),
           v_required = required_concurrency g (n_id n), v_max = JInt (m (the (n_function_id n)))\<rparr>)
      (filter (\<lambda>n. runs_function n \<and> m (the (n_function_id n)) < required_concurrency g (n_id n)) ns))"
  by (induction ns) (auto simp: int_limits_def Let_def)

text \<open>
  C28: the check reports exactly the function nodes whose invocations in one wave, counted as
  the number of their \<open>fn_to_fn\<close> edges plus the parallelism of their \<open>bucket_to_fn\<close> edges,
  exceed the limit of their function, in the order of the nodes and with both numbers.
\<close>

theorem check_concurrency_reference:
  assumes "int_limits limits m"
  shows "check_concurrency g limits =
    Ok (map (\<lambda>n. \<lparr>v_node_id = n_id n, v_function_id = the (n_function_id n),
           v_required = concurrent_invocations g (n_id n), v_max = JInt (m (the (n_function_id n)))\<rparr>)
      (filter (\<lambda>n. runs_function n \<and> m (the (n_function_id n)) < concurrent_invocations g (n_id n))
        (g_nodes g)))"
  by (simp add: check_concurrency_def check_nodes_eq [OF assms] required_concurrency_eq)

definition fan_in :: cgraph where
  "fan_in = (let n = \<lambda>i k. \<lparr>n_id = i, n_kind = k, n_position = [], n_function_id = Some ''f'',
       n_function_version = Some 1, n_max_retries = 3, n_retry_policy = ''constant'',
       n_bucket_name = Some ''b'', n_selected_items = None\<rparr>;
     e = \<lambda>s k p. \<lparr>e_id = s, e_source = s, e_target = ''t'', e_kind = k,
       e_target_param = None, e_parallelism = p\<rparr>
   in \<lparr>g_nodes = [n ''a'' Function_Node, n ''b'' Bucket_Node, n ''t'' Function_Node],
       g_edges = [e ''a'' Fn_To_Fn 1, e ''b'' Bucket_To_Fn 4]\<rparr>)"

lemma check_concurrency_reference_witness:
  "check_concurrency fan_in [(''f'', JInt 3)] =
    Ok [\<lparr>v_node_id = ''t'', v_function_id = ''f'', v_required = 5, v_max = JInt 3\<rparr>]"
proof -
  have "int_limits [(''f'', JInt 3)] (\<lambda>f. if f = ''f'' then 3 else 1)"
    by (simp add: int_limits_def dget_def)
  from check_concurrency_reference [OF this, of fan_in] show ?thesis
    by (simp add: fan_in_def Let_def runs_function_def concurrent_invocations_def edges_into_def)
qed

text \<open>
  With a known policy, and at most 1024 attempts, the backoff is defined and lies between 0
  and the cap; the constant policy gives its base and the exponential one doubles up to the cap.
\<close>

theorem backoff_within_cap:
  assumes "policy \<in> {''constant'', ''exponential_backoff'', ''jitter''}"
    and "1 \<le> attempt" "attempt \<le> 1024" "0 \<le> base" "0 \<le> cap"
    and "\<forall>hi. 0 \<le> hi \<longrightarrow> 0 \<le> uniform hi \<and> uniform hi \<le> hi"
  shows "\<exists>d. next_delay_seconds uniform policy attempt base cap = Ok d \<and> 0 \<le> d \<and> d \<le> cap \<and>
    (policy = ''constant'' \<longrightarrow> d = min base cap) \<and>
    (policy = ''exponential_backoff'' \<longrightarrow> d = min (base * 2 ^ (attempt - 1)) cap) \<and>
    d \<le> base * 2 ^ (attempt - 1)"
proof -
  let ?b = "base * 2 ^ (attempt - 1)"
  have b: "0 \<le> ?b" "base \<le> ?b" using assms(4) by (simp_all add: mult_le_cancel_left1)
  have bo: "backoff base attempt = Ok ?b" using assms(2,3) by (simp add: backoff_def)
  have u: "0 \<le> uniform ?b" "uniform ?b \<le> ?b" using assms(6) b(1) by blast+
  from assms(1) consider "policy = ''constant''" | "policy = ''exponential_backoff''" | "policy = ''jitter''"
    by blast
  then show ?thesis
  proof cases
    case 1
    then show ?thesis using b assms(4,5) by (simp add: next_delay_seconds_def)
  next
    case 2
    then show ?thesis using b assms(5) by (simp add: next_delay_seconds_def bo)
  next
    case 3
    then show ?thesis using u assms(5) by (simp add: next_delay_seconds_def bo min.coboundedI1)
  qed
qed

lemma backoff_within_cap_witness:
  "\<exists>d. next_delay_seconds (\<lambda>hi. hi div 2) ''jitter'' 7 1000000 30000000 = Ok d \<and> 0 \<le> d \<and> d \<le> 30000000 \<and>
    (''jitter'' = ''constant'' \<longrightarrow> d = min 1000000 30000000) \<and>
    (''jitter'' = ''exponential_backoff'' \<longrightarrow> d = min (1000000 * 2 ^ (7 - 1)) 30000000) \<and>
    d \<le> 1000000 * 2 ^ (7 - 1)"
  by (rule backoff_within_cap) auto

end
