(* ===== verification/Mongo.thy ===== *)
theory Mongo
  imports Protocol
begin

text \<open>
  The database of the virtual environment manager. MongoDB and its driver are not part of the
  repository: a collection is a value of a type \<open>'c\<close>, the calls that
  \<open>axo_vem/infrastructure/database/mongo\<close> makes are the fields of a record \<open>'c mongo\<close>, and
  \<open>mongo_ok\<close> states what the code relies on: the documented effect of each call on what
  \<open>find_one({"_id": k})\<close> returns afterwards, for every \<open>k\<close>.

  A document is a map from its fields to their values; \<open>_id\<close> is the key it is stored under.
\<close>

section \<open>Documents and queries\<close>

type_synonym doc = "string \<rightharpoonup> json"

definition doc_get :: "doc \<Rightarrow> string \<Rightarrow> json" where
  "doc_get d f = (case d f of None \<Rightarrow> JNull | Some v \<Rightarrow> v)"

text \<open>A path \<open>a.b\<close> into embedded documents.\<close>

fun json_at :: "string list \<Rightarrow> json \<Rightarrow> json option" where
  "json_at [] v = Some v"
| "json_at (f # fs) (JObj d) = (case map_of d f of None \<Rightarrow> None | Some v \<Rightarrow> json_at fs v)"
| "json_at (f # fs) _ = None"

fun doc_at :: "string list \<Rightarrow> doc \<Rightarrow> json option" where
  "doc_at [] d = None"
| "doc_at (f # fs) d = (case d f of None \<Rightarrow> None | Some v \<Rightarrow> json_at fs v)"

text \<open>
  A filter \<open>{path: value}\<close>: the field has the value or is an array that contains it; \<open>None\<close>
  also matches a missing field.
\<close>

definition matches :: "string list \<times> json \<Rightarrow> doc \<Rightarrow> bool" where
  "matches q d = (case doc_at (fst q) d of
     None \<Rightarrow> snd q = JNull
   | Some v \<Rightarrow> v = snd q \<or> (case v of JList xs \<Rightarrow> snd q \<in> set xs | _ \<Rightarrow> False))"

definition matches_all :: "(string list \<times> json) list \<Rightarrow> doc \<Rightarrow> bool" where
  "matches_all qs d = list_all (\<lambda>q. matches q d) qs"

section \<open>The calls\<close>

record 'c mongo =
  find_one :: "json \<Rightarrow> 'c \<Rightarrow> doc option"
  find_where :: "(string list \<times> json) list \<Rightarrow> (string \<times> int) list \<Rightarrow> 'c \<Rightarrow> (json \<times> doc) list"
  set_fields :: "json \<Rightarrow> doc \<Rightarrow> 'c \<Rightarrow> 'c"
  set_and_add :: "json \<Rightarrow> doc \<Rightarrow> string \<Rightarrow> json \<Rightarrow> 'c \<Rightarrow> 'c option"
  set_existing :: "json \<Rightarrow> (string list \<times> json) list \<Rightarrow> doc \<Rightarrow> 'c \<Rightarrow> 'c"
  pull_value :: "json \<Rightarrow> string \<Rightarrow> json \<Rightarrow> 'c \<Rightarrow> 'c option"
  unset_all :: "string \<Rightarrow> 'c \<Rightarrow> 'c"
  delete_one :: "json \<Rightarrow> 'c \<Rightarrow> 'c"
  delete_where :: "(string list \<times> json) list \<Rightarrow> 'c \<Rightarrow> 'c \<times> nat"

text \<open>
  In the order of the fields: \<open>find_one({"_id": k})\<close>; \<open>find(query).sort(keys)\<close>;
  \<open>update_one({"_id": k}, {"$set": d}, upsert=True)\<close>; the same with
  \<open>"$addToSet": {f: v}\<close>, which fails on a field that is not an array or that the
  \<open>$set\<close> writes too;
  \<open>update_one({"_id": k, **query}, {"$set": d})\<close>;
  \<open>update_one({"_id": k}, {"$pull": {f: v}})\<close>;
  \<open>update_many({f: {"$exists": True}}, {"$unset": {f: ""}})\<close>;
  \<open>delete_one({"_id": k})\<close>; \<open>delete_many(query).deleted_count\<close>.
\<close>

section \<open>Their documented effect\<close>

type_synonym coll = "json \<rightharpoonup> doc"

definition view :: "'c mongo \<Rightarrow> 'c \<Rightarrow> coll" where
  "view m c = (\<lambda>k. find_one m k c)"

definition doc_or_new :: "coll \<Rightarrow> json \<Rightarrow> doc" where
  "doc_or_new v k = (case v k of None \<Rightarrow> Map.empty | Some d \<Rightarrow> d)"

definition coll_set :: "json \<Rightarrow> doc \<Rightarrow> coll \<Rightarrow> coll" where
  "coll_set k d v = v(k \<mapsto> doc_or_new v k ++ d)"

definition add_to_array :: "json option \<Rightarrow> json \<Rightarrow> json option" where
  "add_to_array a x = (case a of
     None \<Rightarrow> Some (JList [x])
   | Some (JList xs) \<Rightarrow> Some (JList (if x \<in> set xs then xs else xs @ [x]))
   | Some _ \<Rightarrow> None)"

definition coll_set_add :: "json \<Rightarrow> doc \<Rightarrow> string \<Rightarrow> json \<Rightarrow> coll \<Rightarrow> coll option" where
  "coll_set_add k d f x v =
    (let e = doc_or_new v k ++ d in
     if d f \<noteq> None then None
     else case add_to_array (e f) x of None \<Rightarrow> None | Some a \<Rightarrow> Some (v(k \<mapsto> e(f \<mapsto> a))))"

definition coll_set_existing :: "json \<Rightarrow> (string list \<times> json) list \<Rightarrow> doc \<Rightarrow> coll \<Rightarrow> coll" where
  "coll_set_existing k q d v = (case v k of
     None \<Rightarrow> v
   | Some e \<Rightarrow> if matches_all q e then v(k \<mapsto> e ++ d) else v)"

definition coll_pull :: "json \<Rightarrow> string \<Rightarrow> json \<Rightarrow> coll \<Rightarrow> coll option" where
  "coll_pull k f x v = (case v k of
     None \<Rightarrow> Some v
   | Some e \<Rightarrow> (case e f of
       None \<Rightarrow> Some v
     | Some (JList xs) \<Rightarrow> Some (v(k \<mapsto> e(f \<mapsto> JList (filter (\<lambda>y. y \<noteq> x) xs))))
     | Some _ \<Rightarrow> None))"

definition coll_unset :: "string \<Rightarrow> coll \<Rightarrow> coll" where
  "coll_unset f v = (\<lambda>k. map_option (\<lambda>d. d(f := None)) (v k))"

definition coll_delete :: "json \<Rightarrow> coll \<Rightarrow> coll" where
  "coll_delete k v = v(k := None)"

definition coll_delete_where :: "(string list \<times> json) list \<Rightarrow> coll \<Rightarrow> coll" where
  "coll_delete_where q v = (\<lambda>k. case v k of None \<Rightarrow> None | Some d \<Rightarrow> if matches_all q d then None else Some d)"

definition mongo_ok :: "'c mongo \<Rightarrow> bool" where
  "mongo_ok m =
    ((\<forall>k d c. view m (set_fields m k d c) = coll_set k d (view m c)) \<and>
     (\<forall>k d f x c. map_option (view m) (set_and_add m k d f x c) = coll_set_add k d f x (view m c)) \<and>
     (\<forall>k q d c. view m (set_existing m k q d c) = coll_set_existing k q d (view m c)) \<and>
     (\<forall>k f x c. map_option (view m) (pull_value m k f x c) = coll_pull k f x (view m c)) \<and>
     (\<forall>f c. view m (unset_all m f c) = coll_unset f (view m c)) \<and>
     (\<forall>k c. view m (delete_one m k c) = coll_delete k (view m c)) \<and>
     (\<forall>q c. view m (fst (delete_where m q c)) = coll_delete_where q (view m c)) \<and>
     (\<forall>q s c. distinct (map fst (find_where m q s c)) \<and>
        set (find_where m q s c) = {(k, d). view m c k = Some d \<and> matches_all q d}) \<and>
     (\<forall>q c. snd (delete_where m q c) = length (find_where m q [] c)))"

text \<open>Writing the same fields, or the same element of an array, twice is writing it once.\<close>

lemma map_add_twice [simp]: "(a ++ d) ++ d = a ++ (d :: 'k \<rightharpoonup> 'v)"
  by (rule ext) (simp add: map_add_def split: option.split)

lemma coll_set_twice [simp]: "coll_set k d (coll_set k d v) = coll_set k d v"
  by (simp add: coll_set_def doc_or_new_def)

lemma coll_set_same: "coll_set k d v k = Some (doc_or_new v k ++ d)"
  by (simp add: coll_set_def)

lemma coll_set_other [simp]: "k' \<noteq> k \<Longrightarrow> coll_set k d v k' = v k'"
  by (simp add: coll_set_def)

lemma coll_set_existing_twice [simp]:
  "coll_set_existing k q d (coll_set_existing k q d v) = coll_set_existing k q d v"
  by (cases "v k") (simp_all add: coll_set_existing_def)

lemma coll_unset_twice [simp]: "coll_unset f (coll_unset f v) = coll_unset f v"
  by (auto simp: coll_unset_def option.map_comp comp_def)

lemma coll_delete_twice [simp]: "coll_delete k (coll_delete k v) = coll_delete k v"
  by (simp add: coll_delete_def)

lemma add_to_array_twice: "add_to_array a x = Some b \<Longrightarrow> add_to_array (Some b) x = Some b"
  by (cases a) (auto simp: add_to_array_def split: json.splits if_splits)

lemma upd_map_add: "f \<notin> dom d \<Longrightarrow> e(f \<mapsto> a) ++ d = (e ++ d)(f \<mapsto> a)"
  by (auto simp: map_add_def fun_eq_iff split: option.splits)

lemma coll_set_add_twice:
  assumes "coll_set_add k d f x v = Some v'"
  shows "coll_set_add k d f x v' = Some v'"
proof -
  define e where "e = doc_or_new v k ++ d"
  obtain a where a: "add_to_array (e f) x = Some a" and v': "v' = v(k \<mapsto> e(f \<mapsto> a))"
    and f: "d f = None"
    using assms by (auto simp: coll_set_add_def e_def Let_def split: option.splits if_splits)
  then have "f \<notin> dom d" by auto
  then have "doc_or_new v' k ++ d = e(f \<mapsto> a)"
    by (simp add: v' doc_or_new_def upd_map_add) (simp add: e_def)
  then show ?thesis using add_to_array_twice [OF a] v' f by (simp add: coll_set_add_def)
qed

lemma coll_pull_twice:
  assumes "coll_pull k f x v = Some v'"
  shows "coll_pull k f x v' = Some v'"
proof (cases "v k")
  case None
  then show ?thesis using assms by (simp add: coll_pull_def)
next
  case (Some e)
  show ?thesis
  proof (cases "e f")
    case None
    then show ?thesis using assms Some by (simp add: coll_pull_def)
  next
    case (Some a)
    then show ?thesis using assms \<open>v k = Some e\<close> by (cases a) (auto simp: coll_pull_def)
  qed
qed

section \<open>The documented effect as an interface\<close>

text \<open>What the components rely on: the laws, one by one, as rewrite rules over views.\<close>

locale collections =
  fixes m :: "'c mongo"
  assumes ok: "mongo_ok m"
begin

lemma view_set: "view m (set_fields m k d c) = coll_set k d (view m c)"
  using ok by (simp add: mongo_ok_def)

lemma view_set_add: "map_option (view m) (set_and_add m k d f x c) = coll_set_add k d f x (view m c)"
  using ok by (simp add: mongo_ok_def)

lemma view_set_existing: "view m (set_existing m k q d c) = coll_set_existing k q d (view m c)"
  using ok by (simp add: mongo_ok_def)

lemma view_pull: "map_option (view m) (pull_value m k f x c) = coll_pull k f x (view m c)"
  using ok by (simp add: mongo_ok_def)

lemma view_unset: "view m (unset_all m f c) = coll_unset f (view m c)"
  using ok by (simp add: mongo_ok_def)

lemma view_delete: "view m (delete_one m k c) = coll_delete k (view m c)"
  using ok by (simp add: mongo_ok_def)

lemma view_delete_where: "view m (fst (delete_where m q c)) = coll_delete_where q (view m c)"
  using ok by (simp add: mongo_ok_def)

lemma found: "(k, d) \<in> set (find_where m q s c) \<longleftrightarrow> view m c k = Some d \<and> matches_all q d"
  using ok by (auto simp: mongo_ok_def)

lemma found_distinct: "distinct (map fst (find_where m q s c))"
  using ok by (simp add: mongo_ok_def)

lemma deleted_count: "snd (delete_where m q c) = length (find_where m q [] c)"
  using ok by (simp add: mongo_ok_def)

lemmas views = view_set view_set_existing view_unset view_delete view_delete_where

end

section \<open>A collection in memory\<close>

text \<open>
  The laws can be met: a collection as the list of its documents by key. The witnesses of the
  properties run on it.
\<close>

type_synonym mem_coll = "(json, doc) dict"

definition with_array :: "mem_coll \<Rightarrow> coll option \<Rightarrow> json \<Rightarrow> mem_coll option" where
  "with_array c r k = (case r of
     None \<Rightarrow> None
   | Some v \<Rightarrow> Some (case v k of None \<Rightarrow> c | Some d \<Rightarrow> dput k d c))"

definition mem_found :: "(string list \<times> json) list \<Rightarrow> mem_coll \<Rightarrow> (json \<times> doc) list" where
  "mem_found q c = filter (\<lambda>(k, d). matches_all q d) (AList.clearjunk c)"

definition mem_mongo :: "mem_coll mongo" where
  "mem_mongo =
    \<lparr>find_one = (\<lambda>k c. map_of c k),
     find_where = (\<lambda>q s c. mem_found q c),
     set_fields = (\<lambda>k d c. dput k (doc_or_new (map_of c) k ++ d) c),
     set_and_add = (\<lambda>k d f x c. with_array c (coll_set_add k d f x (map_of c)) k),
     set_existing = (\<lambda>k q d c. case map_of c k of
         None \<Rightarrow> c | Some e \<Rightarrow> if matches_all q e then dput k (e ++ d) c else c),
     pull_value = (\<lambda>k f x c. with_array c (coll_pull k f x (map_of c)) k),
     unset_all = (\<lambda>f c. map (\<lambda>(k, d). (k, d(f := None))) c),
     delete_one = (\<lambda>k c. dpop k c),
     delete_where = (\<lambda>q c. (filter (\<lambda>(k, d). \<not> matches_all q d) (AList.clearjunk c), length (mem_found q c)))\<rparr>"

lemma map_of_map_snd: "map_of (map (\<lambda>(k, d). (k, g d)) c) = (\<lambda>k. map_option g (map_of c k))"
  by (induction c) auto

lemma map_of_filter_snd:
  "distinct (map fst c) \<Longrightarrow>
    map_of (filter (\<lambda>(k, d). P d) c) k = (case map_of c k of None \<Rightarrow> None | Some d \<Rightarrow> if P d then Some d else None)"
proof (induction c)
  case (Cons p c)
  obtain k0 d0 where p: "p = (k0, d0)" by (cases p)
  have IH: "map_of (filter (\<lambda>(k, d). P d) c) k = (case map_of c k of None \<Rightarrow> None | Some d \<Rightarrow> if P d then Some d else None)"
    using Cons by simp
  show ?case
  proof (cases "k = k0")
    case True
    then have "map_of c k = None" using Cons.prems p by (simp add: map_of_eq_None_iff)
    then show ?thesis using IH True p by simp
  next
    case False
    then show ?thesis using IH p by simp
  qed
qed simp

lemma with_array_set_add:
  "map_option map_of (with_array c (coll_set_add k d f x (map_of c)) k) = coll_set_add k d f x (map_of c)"
  by (simp add: with_array_def coll_set_add_def Let_def fun_eq_iff split: option.splits)

lemma with_array_pull:
  "map_option map_of (with_array c (coll_pull k f x (map_of c)) k) = coll_pull k f x (map_of c)"
proof (cases "map_of c k")
  case (Some e)
  show ?thesis
  proof (cases "e f")
    case (Some a)
    then show ?thesis using \<open>map_of c k = Some e\<close>
      by (cases a) (simp_all add: with_array_def coll_pull_def fun_eq_iff)
  qed (use Some in \<open>simp add: with_array_def coll_pull_def fun_eq_iff\<close>)
qed (simp add: with_array_def coll_pull_def)

lemma mem_found_iff: "(k, d) \<in> set (mem_found q c) \<longleftrightarrow> map_of c k = Some d \<and> matches_all q d"
proof -
  have "(k, d) \<in> set (AList.clearjunk c) \<longleftrightarrow> map_of c k = Some d"
    using map_of_eq_Some_iff [OF AList.distinct_clearjunk, of c k d] by (simp add: AList.map_of_clearjunk)
  then show ?thesis by (auto simp: mem_found_def)
qed

lemma view_mem [simp]: "view mem_mongo = map_of"
  by (simp add: view_def mem_mongo_def fun_eq_iff)

lemma mem_mongo_ok: "mongo_ok mem_mongo"
  unfolding mongo_ok_def view_mem
proof (intro conjI allI)
  fix k k' :: json and d :: doc and c :: mem_coll and f :: string and x :: json
    and q :: "(string list \<times> json) list" and s :: "(string \<times> int) list"
  show "map_of (set_fields mem_mongo k d c) = coll_set k d (map_of c)"
    by (simp add: mem_mongo_def coll_set_def update_conv')
  show "map_option map_of (set_and_add mem_mongo k d f x c) = coll_set_add k d f x (map_of c)"
    by (simp add: mem_mongo_def with_array_set_add)
  show "map_of (set_existing mem_mongo k q d c) = coll_set_existing k q d (map_of c)"
    by (simp add: mem_mongo_def coll_set_existing_def update_conv' split: option.splits)
  show "map_option map_of (pull_value mem_mongo k f x c) = coll_pull k f x (map_of c)"
    by (simp add: mem_mongo_def with_array_pull)
  show "map_of (unset_all mem_mongo f c) = coll_unset f (map_of c)"
    by (simp add: mem_mongo_def coll_unset_def map_of_map_snd)
  show "map_of (delete_one mem_mongo k c) = coll_delete k (map_of c)"
    by (simp add: mem_mongo_def coll_delete_def delete_conv')
  show "map_of (fst (delete_where mem_mongo q c)) = coll_delete_where q (map_of c)"
    by (simp add: mem_mongo_def coll_delete_where_def fun_eq_iff map_of_filter_snd AList.map_of_clearjunk
        AList.distinct_clearjunk split: option.split)
  show "distinct (map fst (find_where mem_mongo q s c))"
    by (simp add: mem_mongo_def mem_found_def distinct_map_filter AList.distinct_clearjunk)
  show "set (find_where mem_mongo q s c) = {(k, d). map_of c k = Some d \<and> matches_all q d}"
    by (auto simp: mem_mongo_def mem_found_iff)
  show "snd (delete_where mem_mongo q c) = length (find_where mem_mongo q [] c)"
    by (simp add: mem_mongo_def)
qed

interpretation mem: collections mem_mongo
  by unfold_locales (rule mem_mongo_ok)

end
