(* ===== verification/Read_Model.thy ===== *)
theory Read_Model
  imports Choreography_Graph Mongo
begin

text \<open>
  The read model of the virtual environment manager: its aggregates
  (\<open>axo_vem/domain\<close>) and the repositories that keep them in MongoDB
  (\<open>axo_vem/infrastructure/database/mongo\<close>), over the collections of theory \<open>Mongo\<close>.

  An aggregate's fields are read from documents without checks, so they are JSON values.
  Fields that the code reads but never uses afterwards are left out of the aggregates.
\<close>

section \<open>Text of values\<close>

text \<open>\<open>str(x)\<close> and \<open>repr(x)\<close> of a JSON value.\<close>

fun py_text :: "json \<Rightarrow> string" and py_texts :: "json list \<Rightarrow> string list"
  and py_items :: "(string \<times> json) list \<Rightarrow> string list" where
  "py_text JNull = ''None''"
| "py_text (JBool b) = (if b then ''True'' else ''False'')"
| "py_text (JInt i) = str_int i"
| "py_text (JFloat x) = str_float x"
| "py_text (JStr s) = py_repr s"
| "py_text (JList xs) = ''['' @ py_join '', '' (py_texts xs) @ '']''"
| "py_text (JObj d) = ''{'' @ py_join '', '' (py_items d) @ ''}''"
| "py_texts [] = []"
| "py_texts (x # xs) = py_text x # py_texts xs"
| "py_items [] = []"
| "py_items ((k, v) # d) = (py_repr k @ '': '' @ py_text v) # py_items d"

definition py_str :: "json \<Rightarrow> string" where
  "py_str j = (case j of JStr s \<Rightarrow> s | _ \<Rightarrow> py_text j)"

lemma py_str_JStr [simp]: "py_str (JStr s) = s"
  by (simp add: py_str_def)

lemma py_str_JInt [simp]: "py_str (JInt i) = str_int i"
  by (simp add: py_str_def)

section \<open>Errors of the domain\<close>

text \<open>\<open>axo_vem/domain/errors.py\<close>: what a use case raises besides the interpreter's exceptions.\<close>

datatype domain_error =
    NotFoundError string
  | NotOwnerError string
  | ConflictError string
  | UpstreamTimeoutError string

fun domain_text :: "domain_error \<Rightarrow> string" where
  "domain_text (NotFoundError s) = s"
| "domain_text (NotOwnerError s) = s"
| "domain_text (ConflictError s) = s"
| "domain_text (UpstreamTimeoutError s) = s"

datatype 'a outcome = Done 'a | Refused domain_error | Crashed py_exc

definition then_do :: "'a res \<Rightarrow> ('a \<Rightarrow> 'b outcome) \<Rightarrow> 'b outcome" where
  "then_do r f = (case r of Ok x \<Rightarrow> f x | Err e \<Rightarrow> Crashed (PyRaised e) | Raise ex \<Rightarrow> Crashed ex)"

lemma then_do_simps [simp]:
  "then_do (Ok x) f = f x" "then_do (Raise ex) f = Crashed ex"
  by (simp_all add: then_do_def)

section \<open>The collections\<close>

text \<open>
  The parameters of the manager that are not code of the repository: MongoDB, pydantic's
  validation and dump of a graph, \<open>datetime.fromisoformat\<close>. The read model holds one
  collection per repository, the events appended to the event store (stream, type, data) and
  the messages handed to the WebSocket broadcaster (topic, message).
\<close>

record 'c vem =
  db :: "'c mongo"
  parse_graph :: "json \<Rightarrow> cgraph option"
  dump_graph :: "cgraph \<Rightarrow> json"
  parse_time :: "string \<Rightarrow> json option"

record 'c read_model =
  endpoints :: 'c
  function_docs :: 'c
  consensus :: 'c
  profiles :: 'c
  workspaces :: 'c
  jobs :: 'c
  buckets :: 'c
  items :: 'c
  choreographies :: 'c
  activity :: 'c
  published :: "(string \<times> string \<times> (string, json) dict) list"
  broadcasts :: "(string \<times> (string, json) dict) list"

definition publish :: "string \<Rightarrow> string \<Rightarrow> (string, json) dict \<Rightarrow> 'c read_model \<Rightarrow> 'c read_model" where
  "publish stream ty data s = s\<lparr>published := published s @ [(stream, ty, data)]\<rparr>"

definition broadcast :: "string \<Rightarrow> (string, json) dict \<Rightarrow> 'c read_model \<Rightarrow> 'c read_model" where
  "broadcast topic msg s = s\<lparr>broadcasts := broadcasts s @ [(topic, msg)]\<rparr>"

text \<open>\<open>d["k"]\<close> on a document and on a value inside one; \<open>d.get("k")\<close> is \<open>doc_get\<close>.\<close>

definition field :: "doc \<Rightarrow> string \<Rightarrow> json res" where
  "field d k = (case d k of None \<Rightarrow> Raise KeyError | Some v \<Rightarrow> Ok v)"

definition item :: "json \<Rightarrow> string \<Rightarrow> json res" where
  "item j k = (case j of
     JObj d \<Rightarrow> (case map_of d k of None \<Rightarrow> Raise KeyError | Some v \<Rightarrow> Ok v)
   | _ \<Rightarrow> Raise TypeError)"

section \<open>Steps that can fail\<close>

type_synonym event_data = "(string, json) dict"

text \<open>
  A step returns the exception it raised, if any, and the state it leaves: reading a field of
  the event, going on with the value of a call, and a write that the database may reject.
\<close>

definition with_field ::
  "event_data \<Rightarrow> string \<Rightarrow> 's \<Rightarrow> (json \<Rightarrow> unit res \<times> 's) \<Rightarrow> unit res \<times> 's" where
  "with_field data k s f = (case map_of data k of None \<Rightarrow> (Raise KeyError, s) | Some v \<Rightarrow> f v)"

definition with_res :: "'a res \<Rightarrow> 's \<Rightarrow> ('a \<Rightarrow> unit res \<times> 's) \<Rightarrow> unit res \<times> 's" where
  "with_res r s f = (case r of Ok x \<Rightarrow> f x | Err e \<Rightarrow> (Err e, s) | Raise ex \<Rightarrow> (Raise ex, s))"

text \<open>What comes after a step that can fail: nothing, when it fails.\<close>

definition and_then :: "unit res \<times> 's \<Rightarrow> ('s \<Rightarrow> unit res \<times> 's) \<Rightarrow> unit res \<times> 's" where
  "and_then r f = (case r of (Ok _, s) \<Rightarrow> f s | (Err e, s) \<Rightarrow> (Err e, s) | (Raise ex, s) \<Rightarrow> (Raise ex, s))"

definition store :: "'c option \<Rightarrow> ('c \<Rightarrow> 's) \<Rightarrow> 's \<Rightarrow> unit res \<times> 's" where
  "store r put s = (case r of None \<Rightarrow> (Raise DatabaseError, s) | Some c \<Rightarrow> (Ok (), put c))"

section \<open>Endpoints\<close>

record endpoint =
  ep_id :: json
  ep_router_bind :: json
  ep_pub_bind :: json
  ep_status :: json
  ep_ve :: json
  ep_last_seen :: json

definition doc_to_endpoint :: "json \<Rightarrow> doc \<Rightarrow> endpoint" where
  "doc_to_endpoint k d = \<lparr>ep_id = k, ep_router_bind = doc_get d ''router_bind'',
     ep_pub_bind = doc_get d ''pub_bind'', ep_status = doc_get d ''status'',
     ep_ve = doc_get d ''virtual_environment_id'', ep_last_seen = doc_get d ''created_at''\<rparr>"

definition endpoint_get :: "'c vem \<Rightarrow> 'c read_model \<Rightarrow> json \<Rightarrow> endpoint option" where
  "endpoint_get E s k = map_option (doc_to_endpoint k) (find_one (db E) k (endpoints s))"

definition endpoint_apply :: "'c vem \<Rightarrow> json \<Rightarrow> (string, json) dict \<Rightarrow> 'c read_model \<Rightarrow> 'c read_model" where
  "endpoint_apply E k data s = s\<lparr>endpoints := set_fields (db E) k (map_of data) (endpoints s)\<rparr>"

definition endpoints_of_ve :: "'c vem \<Rightarrow> 'c read_model \<Rightarrow> json \<Rightarrow> endpoint list" where
  "endpoints_of_ve E s ve = map (\<lambda>(k, d). doc_to_endpoint k d)
     (find_where (db E) [([''virtual_environment_id''], ve)] [(''created_at'', -1), (''_id'', 1)] (endpoints s))"

section \<open>Functions\<close>

record function_version =
  fv_function_id :: json
  fv_version :: json
  fv_runtime_spec :: json
  fv_deleted_at :: json
  fv_endpoints :: json
  fv_ve :: json
  fv_container_status :: json

definition function_key :: "json \<Rightarrow> json \<Rightarrow> json" where
  "function_key i v = JStr (py_str i @ '':'' @ py_str v)"

definition doc_to_function :: "doc \<Rightarrow> function_version res" where
  "doc_to_function d =
    bind_res (field d ''function_id'') (\<lambda>i.
    bind_res (field d ''version'') (\<lambda>v.
    Ok \<lparr>fv_function_id = i, fv_version = v, fv_runtime_spec = doc_get d ''runtime_spec'',
        fv_deleted_at = doc_get d ''deleted_at'',
        fv_endpoints = (let e = doc_get d ''endpoint_id'' in if py_truthy e then e else JList []),
        fv_ve = doc_get d ''virtual_environment_id'',
        fv_container_status = doc_get d ''container_status''\<rparr>))"

definition function_get :: "'c vem \<Rightarrow> 'c read_model \<Rightarrow> json \<Rightarrow> json \<Rightarrow> function_version option res" where
  "function_get E s i v = (case find_one (db E) (function_key i v) (function_docs s) of
     None \<Rightarrow> Ok None
   | Some d \<Rightarrow> bind_res (doc_to_function d) (\<lambda>f. Ok (Some f)))"

text \<open>\<open>apply_event_data\<close>: the endpoint of the event is added to the ones known.\<close>

definition function_apply ::
  "'c vem \<Rightarrow> event_data \<Rightarrow> 'c read_model \<Rightarrow> unit res \<times> 'c read_model" where
  "function_apply E data s =
    with_field data ''function_id'' s (\<lambda>i.
    with_field data ''version'' s (\<lambda>v.
      let k = function_key i v; rest = map_of (dpop ''endpoint_id'' data); e = jget data ''endpoint_id''
      in if e = JNull then (Ok (), s\<lparr>function_docs := set_fields (db E) k rest (function_docs s)\<rparr>)
         else store (set_and_add (db E) k rest ''endpoint_id'' e (function_docs s))
                (\<lambda>c. s\<lparr>function_docs := c\<rparr>) s))"

definition function_mark_deleted ::
  "'c vem \<Rightarrow> event_data \<Rightarrow> 'c read_model \<Rightarrow> unit res \<times> 'c read_model" where
  "function_mark_deleted E data s =
    with_field data ''function_id'' s (\<lambda>i.
    with_field data ''version'' s (\<lambda>v.
    with_field data ''created_at'' s (\<lambda>t.
      (Ok (), s\<lparr>function_docs := set_fields (db E) (function_key i v) [''deleted_at'' \<mapsto> t] (function_docs s)\<rparr>))))"

definition function_detach ::
  "'c vem \<Rightarrow> event_data \<Rightarrow> 'c read_model \<Rightarrow> unit res \<times> 'c read_model" where
  "function_detach E data s =
    with_field data ''function_id'' s (\<lambda>i.
    with_field data ''version'' s (\<lambda>v.
    with_field data ''endpoint_id'' s (\<lambda>e.
      store (pull_value (db E) (function_key i v) ''endpoint_id'' e (function_docs s))
        (\<lambda>c. s\<lparr>function_docs := c\<rparr>) s)))"

definition functions_of_endpoint :: "'c vem \<Rightarrow> 'c read_model \<Rightarrow> json \<Rightarrow> function_version list res" where
  "functions_of_endpoint E s e =
    foldr (\<lambda>(k, d) acc. bind_res (doc_to_function d) (\<lambda>f. bind_res acc (\<lambda>fs. Ok (f # fs))))
      (find_where (db E) [([''endpoint_id''], e), ([''deleted_at''], JNull)] [] (function_docs s)) (Ok [])"

section \<open>Virtual environments\<close>

record workspace =
  ws_id :: json
  ws_name :: json
  ws_owner :: json
  ws_cpu :: json
  ws_ram :: json
  ws_disk :: json
  ws_leader :: json

definition doc_to_workspace :: "doc \<Rightarrow> workspace res" where
  "doc_to_workspace d =
    (let quota = (let q = doc_get d ''resource_quota'' in if py_truthy q then q else JObj []) in
     bind_res (field d ''virtual_environment_id'') (\<lambda>i.
     bind_res (field d ''name'') (\<lambda>n.
     bind_res (field d ''owner_user_id'') (\<lambda>own.
     bind_res (item quota ''cpu'') (\<lambda>cpu.
     bind_res (item quota ''ram'') (\<lambda>ram.
     bind_res (item quota ''disk'') (\<lambda>disk.
     Ok \<lparr>ws_id = i, ws_name = n, ws_owner = own, ws_cpu = cpu, ws_ram = ram, ws_disk = disk,
         ws_leader = doc_get d ''leader_endpoint_id''\<rparr>)))))))"

definition workspace_get :: "'c vem \<Rightarrow> 'c read_model \<Rightarrow> json \<Rightarrow> workspace option res" where
  "workspace_get E s k = (case find_one (db E) k (workspaces s) of
     None \<Rightarrow> Ok None
   | Some d \<Rightarrow>
       if doc_get d ''deleted_at'' \<noteq> JNull then Ok None
       else bind_res (doc_to_workspace d) (\<lambda>w. Ok (Some w)))"

definition workspace_doc :: "workspace \<Rightarrow> doc" where
  "workspace_doc w = [''virtual_environment_id'' \<mapsto> ws_id w, ''name'' \<mapsto> ws_name w,
     ''owner_user_id'' \<mapsto> ws_owner w,
     ''resource_quota'' \<mapsto> JObj [(''cpu'', ws_cpu w), (''ram'', ws_ram w), (''disk'', ws_disk w)]]"

definition workspace_save :: "'c vem \<Rightarrow> workspace \<Rightarrow> 'c read_model \<Rightarrow> 'c read_model" where
  "workspace_save E w s = s\<lparr>workspaces := set_fields (db E) (ws_id w) (workspace_doc w) (workspaces s)\<rparr>"

text \<open>\<open>soft_delete\<close>, shared by virtual environments and choreographies: no upsert.\<close>

definition workspace_soft_delete :: "'c vem \<Rightarrow> json \<Rightarrow> json \<Rightarrow> 'c read_model \<Rightarrow> 'c read_model" where
  "workspace_soft_delete E k t s =
    s\<lparr>workspaces := set_existing (db E) k [] [''deleted_at'' \<mapsto> t] (workspaces s)\<rparr>"

definition set_leader_endpoint_id :: "'c vem \<Rightarrow> json \<Rightarrow> json \<Rightarrow> 'c read_model \<Rightarrow> 'c read_model" where
  "set_leader_endpoint_id E ve leader s =
    s\<lparr>workspaces := set_existing (db E) ve [([''deleted_at''], JNull)]
        [''leader_endpoint_id'' \<mapsto> leader] (workspaces s)\<rparr>"

definition clear_leader_endpoint_id :: "'c vem \<Rightarrow> 'c read_model \<Rightarrow> 'c read_model" where
  "clear_leader_endpoint_id E s = s\<lparr>workspaces := unset_all (db E) ''leader_endpoint_id'' (workspaces s)\<rparr>"

section \<open>Jobs\<close>

datatype job_status = QUEUED | STARTED | COMPLETED | FAILED

fun status_value :: "job_status \<Rightarrow> string" where
  "status_value QUEUED = ''QUEUED''"
| "status_value STARTED = ''STARTED''"
| "status_value COMPLETED = ''COMPLETED''"
| "status_value FAILED = ''FAILED''"

definition status_of_value :: "json \<Rightarrow> job_status res" where
  "status_of_value j =
    (if j = JStr ''QUEUED'' then Ok QUEUED else if j = JStr ''STARTED'' then Ok STARTED
     else if j = JStr ''COMPLETED'' then Ok COMPLETED else if j = JStr ''FAILED'' then Ok FAILED
     else Raise ValueError)"

record job =
  job_id :: json
  job_function_id :: json
  job_state :: job_status
  job_function_version :: json
  job_duration_ms :: json
  job_params :: json
  job_endpoint_id :: json
  job_created_at :: json

definition doc_to_job :: "doc \<Rightarrow> job res" where
  "doc_to_job d =
    bind_res (field d ''job_id'') (\<lambda>j.
    bind_res (field d ''function_id'') (\<lambda>f.
    bind_res (bind_res (field d ''status'') status_of_value) (\<lambda>st.
    Ok \<lparr>job_id = j, job_function_id = f, job_state = st,
        job_function_version = doc_get d ''function_version'', job_duration_ms = doc_get d ''duration_ms'',
        job_params = doc_get d ''params'', job_endpoint_id = doc_get d ''endpoint_id'',
        job_created_at = doc_get d ''created_at''\<rparr>)))"

definition job_doc :: "job \<Rightarrow> doc" where
  "job_doc j = [''job_id'' \<mapsto> job_id j, ''function_id'' \<mapsto> job_function_id j,
     ''status'' \<mapsto> JStr (status_value (job_state j)), ''function_version'' \<mapsto> job_function_version j,
     ''duration_ms'' \<mapsto> job_duration_ms j, ''params'' \<mapsto> job_params j,
     ''endpoint_id'' \<mapsto> job_endpoint_id j, ''created_at'' \<mapsto> job_created_at j]"

definition job_get :: "'c vem \<Rightarrow> 'c read_model \<Rightarrow> json \<Rightarrow> job option res" where
  "job_get E s k = (case find_one (db E) k (jobs s) of
     None \<Rightarrow> Ok None
   | Some d \<Rightarrow> bind_res (doc_to_job d) (\<lambda>j. Ok (Some j)))"

definition job_save :: "'c vem \<Rightarrow> job \<Rightarrow> 'c read_model \<Rightarrow> 'c read_model" where
  "job_save E j s = s\<lparr>jobs := set_fields (db E) (job_id j) (job_doc j) (jobs s)\<rparr>"

definition jobs_of_function :: "'c vem \<Rightarrow> 'c read_model \<Rightarrow> json \<Rightarrow> json \<Rightarrow> job list res" where
  "jobs_of_function E s i v =
    foldr (\<lambda>(k, d) acc. bind_res (doc_to_job d) (\<lambda>j. bind_res acc (\<lambda>js. Ok (j # js))))
      (find_where (db E) (([''function_id''], i) # (if v = JNull then [] else [([''function_version''], v)]))
        [(''created_at'', -1)] (jobs s)) (Ok [])"

section \<open>Buckets and data items\<close>

definition bucket_save :: "'c vem \<Rightarrow> json \<Rightarrow> json \<Rightarrow> json \<Rightarrow> 'c read_model \<Rightarrow> 'c read_model" where
  "bucket_save E name quota created s =
    s\<lparr>buckets := set_fields (db E) name
        [''name'' \<mapsto> name, ''quota_bytes'' \<mapsto> quota, ''created_at'' \<mapsto> created] (buckets s)\<rparr>"

record data_item =
  di_name :: json
  di_version :: json
  di_format :: json
  di_kind :: json
  di_total_size :: json
  di_total_chunks :: json
  di_status :: json

definition data_item_doc :: "data_item \<Rightarrow> doc" where
  "data_item_doc i = [''name'' \<mapsto> di_name i, ''version'' \<mapsto> di_version i, ''format'' \<mapsto> di_format i,
     ''kind'' \<mapsto> di_kind i, ''total_size'' \<mapsto> di_total_size i, ''total_chunks'' \<mapsto> di_total_chunks i,
     ''status'' \<mapsto> di_status i]"

definition item_key :: "json \<Rightarrow> json \<Rightarrow> json" where
  "item_key n v = JStr (py_str n @ '':'' @ py_str v)"

definition item_save :: "'c vem \<Rightarrow> data_item \<Rightarrow> 'c read_model \<Rightarrow> 'c read_model" where
  "item_save E i s =
    s\<lparr>items := set_fields (db E) (item_key (di_name i) (di_version i)) (data_item_doc i) (items s)\<rparr>"

definition item_set_status :: "'c vem \<Rightarrow> json \<Rightarrow> json \<Rightarrow> string \<Rightarrow> 'c read_model \<Rightarrow> 'c read_model" where
  "item_set_status E n v st s =
    s\<lparr>items := set_existing (db E) (item_key n v) [] [''status'' \<mapsto> JStr st] (items s)\<rparr>"

definition item_delete :: "'c vem \<Rightarrow> json \<Rightarrow> json \<Rightarrow> 'c read_model \<Rightarrow> 'c read_model" where
  "item_delete E n v s = s\<lparr>items := delete_one (db E) (item_key n v) (items s)\<rparr>"

section \<open>Choreographies\<close>

record choreography =
  ch_id :: json
  ch_name :: json
  ch_owner :: json
  ch_graph :: cgraph
  ch_created_at :: json
  ch_updated_at :: json

definition validate_graph :: "'c vem \<Rightarrow> json \<Rightarrow> cgraph res" where
  "validate_graph E j = (case parse_graph E j of None \<Rightarrow> Raise ValueError | Some g \<Rightarrow> Ok g)"

definition doc_to_choreography :: "'c vem \<Rightarrow> doc \<Rightarrow> choreography res" where
  "doc_to_choreography E d =
    bind_res (field d ''choreography_id'') (\<lambda>i.
    bind_res (field d ''name'') (\<lambda>n.
    bind_res (field d ''owner_user_id'') (\<lambda>own.
    bind_res (bind_res (field d ''graph'') (validate_graph E)) (\<lambda>g.
    bind_res (field d ''created_at'') (\<lambda>c.
    bind_res (field d ''updated_at'') (\<lambda>u.
    Ok \<lparr>ch_id = i, ch_name = n, ch_owner = own, ch_graph = g, ch_created_at = c, ch_updated_at = u\<rparr>))))))"

definition choreography_get :: "'c vem \<Rightarrow> 'c read_model \<Rightarrow> json \<Rightarrow> choreography option res" where
  "choreography_get E s k = (case find_one (db E) k (choreographies s) of
     None \<Rightarrow> Ok None
   | Some d \<Rightarrow>
       if doc_get d ''deleted_at'' \<noteq> JNull then Ok None
       else bind_res (doc_to_choreography E d) (\<lambda>c. Ok (Some c)))"

definition choreography_doc :: "'c vem \<Rightarrow> choreography \<Rightarrow> doc" where
  "choreography_doc E c = [''choreography_id'' \<mapsto> ch_id c, ''name'' \<mapsto> ch_name c,
     ''owner_user_id'' \<mapsto> ch_owner c, ''graph'' \<mapsto> dump_graph E (ch_graph c),
     ''created_at'' \<mapsto> ch_created_at c, ''updated_at'' \<mapsto> ch_updated_at c]"

definition choreography_save :: "'c vem \<Rightarrow> choreography \<Rightarrow> 'c read_model \<Rightarrow> 'c read_model" where
  "choreography_save E c s =
    s\<lparr>choreographies := set_fields (db E) (ch_id c) (choreography_doc E c) (choreographies s)\<rparr>"

definition choreography_soft_delete :: "'c vem \<Rightarrow> json \<Rightarrow> json \<Rightarrow> 'c read_model \<Rightarrow> 'c read_model" where
  "choreography_soft_delete E k t s =
    s\<lparr>choreographies := set_existing (db E) k [] [''deleted_at'' \<mapsto> t] (choreographies s)\<rparr>"

section \<open>Activity and consensus\<close>

text \<open>
  \<open>MongoActivityRepository.record\<close>: the fields of the envelope at the top level and the rest
  under \<open>meta\<close>; \<open>purge\<close> deletes by the filters it is given.
\<close>

definition envelope_top :: "string list" where
  "envelope_top = [''user_id'', ''virtual_environment_id'', ''endpoint_id'', ''runtime_type'']"

definition activity_meta :: "(string, json) dict \<Rightarrow> (string, json) dict" where
  "activity_meta data = filter (\<lambda>(k, _). k \<notin> set envelope_top \<and> k \<noteq> ''event_id'' \<and> k \<noteq> ''created_at'') data"

definition parse_created_at :: "'c vem \<Rightarrow> json \<Rightarrow> json res" where
  "parse_created_at E raw = (case raw of
     JStr r \<Rightarrow> (case parse_time E r of None \<Rightarrow> Raise ValueError | Some t \<Rightarrow> Ok t)
   | _ \<Rightarrow> Raise AttributeError)"

definition activity_doc :: "string \<Rightarrow> json \<Rightarrow> (string, json) dict \<Rightarrow> doc" where
  "activity_doc ty t data =
    [''event_type'' \<mapsto> JStr ty, ''created_at'' \<mapsto> t, ''user_id'' \<mapsto> jget data ''user_id'',
     ''virtual_environment_id'' \<mapsto> jget data ''virtual_environment_id'',
     ''endpoint_id'' \<mapsto> jget data ''endpoint_id'', ''runtime_type'' \<mapsto> jget data ''runtime_type'',
     ''meta'' \<mapsto> JObj (activity_meta data)]"

definition activity_record ::
  "'c vem \<Rightarrow> string \<Rightarrow> event_data \<Rightarrow> 'c read_model \<Rightarrow> unit res \<times> 'c read_model" where
  "activity_record E ty data s =
    with_field data ''created_at'' s (\<lambda>raw.
    with_res (parse_created_at E raw) s (\<lambda>t.
    with_field data ''event_id'' s (\<lambda>i.
      (Ok (), s\<lparr>activity := set_fields (db E) i (activity_doc ty t data) (activity s)\<rparr>))))"

definition activity_purge ::
  "'c vem \<Rightarrow> (string list \<times> json) list \<Rightarrow> 'c read_model \<Rightarrow> nat \<times> 'c read_model" where
  "activity_purge E q s =
    (let (c, n) = delete_where (db E) q (activity s) in (n, s\<lparr>activity := c\<rparr>))"

definition consensus_record ::
  "'c vem \<Rightarrow> json \<Rightarrow> event_data \<Rightarrow> 'c read_model \<Rightarrow> unit res \<times> 'c read_model" where
  "consensus_record E e data s =
    with_field data ''term'' s (\<lambda>t.
      store (set_and_add (db E) t (map_of data) ''reported_by'' e (consensus s))
        (\<lambda>c. s\<lparr>consensus := c\<rparr>) s)"

end
