(* ===== verification/Projector.thy ===== *)
theory Projector
  imports Read_Model
begin

text \<open>
  The projector (\<open>axo_vem/application/projector\<close>): one handler per aggregate, and the dispatch
  of a decoded event to the activity log and to its handler. The server wires a broadcaster, a
  repository of virtual environments and an event publisher into it, so the branches for their
  absence are left out; what is logged is not modelled.

  The lemmas show that the whole projection only depends on what the collections return, and
  that applying an event twice leaves the read model as applying it once, which is what the
  checkpoint of the subscriber relies on after a crash.
\<close>

section \<open>Event types\<close>

definition endpoint_event_types :: "string list" where
  "endpoint_event_types =
    [''EndpointStarted'', ''EndpointMetricsReported'', ''EndpointStopped'', ''EndpointUnreachable'',
     ''EndpointRecovered'', ''EndpointVirtualEnvironmentAssigned'', ''EndpointVirtualEnvironmentDetached'']"

definition function_event_types :: "string list" where
  "function_event_types =
    [''FunctionRegistered'', ''FunctionRegisterFailed'', ''FunctionDeployed'', ''FunctionDeployFailed'',
     ''FunctionActivated'', ''FunctionDeactivated'', ''FunctionUpdated'', ''FunctionStopped'', ''FunctionCrashed'']"

definition leader_bearing_event_types :: "string list" where
  "leader_bearing_event_types = [''LeaderElected'', ''ConsensusViewChanged'']"

definition consensus_event_types :: "string list" where
  "consensus_event_types =
    leader_bearing_event_types @ [''ClusterQuorumLost'', ''ClusterQuorumRestored'', ''ClusterDegraded'']"

definition activity_only_event_types :: "string list" where
  "activity_only_event_types =
    [''FunctionDeleteFailed'', ''FunctionBuildStarted'', ''FunctionBuildCompleted'', ''FunctionBuildFailed'']"

definition user_profile_event_types :: "string list" where
  "user_profile_event_types = [''UserProfileCreated'', ''UserProfileUpdated'', ''UserProfileDeleted'']"

definition virtual_env_event_types :: "string list" where
  "virtual_env_event_types =
    [''VirtualEnvironmentCreated'', ''VirtualEnvironmentUpdated'', ''VirtualEnvironmentDeleted'',
     ''VirtualEnvironmentLeaderChanged'']"

definition job_event_types :: "string list" where
  "job_event_types = [''JobQueued'', ''JobStarted'', ''JobCompleted'', ''JobFailed'']"

definition bucket_event_types :: "string list" where
  "bucket_event_types = [''DataBucketCreated'', ''DataRegistered'', ''DataUploadCompleted'', ''DataDeleted'']"

definition choreography_event_types :: "string list" where
  "choreography_event_types = [''ChoreographyCreated'', ''ChoreographyUpdated'', ''ChoreographyDeleted'']"

definition all_known_event_types :: "string list" where
  "all_known_event_types =
    endpoint_event_types @ function_event_types @ [''FunctionDeleted'', ''FunctionEndpointDetached'']
    @ activity_only_event_types @ consensus_event_types @ user_profile_event_types
    @ virtual_env_event_types @ job_event_types @ bucket_event_types @ choreography_event_types"

definition endpoint_status :: "string \<Rightarrow> string option" where
  "endpoint_status ty = map_of
    [(''EndpointStarted'', ''running''), (''EndpointStopped'', ''stopped''),
     (''EndpointUnreachable'', ''unreachable''), (''EndpointRecovered'', ''running'')] ty"

definition function_container_status :: "string \<Rightarrow> string option" where
  "function_container_status ty = map_of
    [(''FunctionDeployed'', ''running''), (''FunctionActivated'', ''running''),
     (''FunctionDeployFailed'', ''stopped''), (''FunctionDeactivated'', ''stopped''),
     (''FunctionStopped'', ''stopped''), (''FunctionCrashed'', ''stopped'')] ty"

section \<open>The handlers\<close>

text \<open>The envelope of an event made here: \<open>fresh\<close> is its \<open>event_id\<close> and \<open>created_at\<close>.\<close>

definition envelope_fields :: "string \<times> string \<Rightarrow> event_data" where
  "envelope_fields fresh =
    [(''event_id'', JStr (fst fresh)), (''created_at'', JStr (snd fresh)), (''user_id'', JNull),
     (''virtual_environment_id'', JNull), (''endpoint_id'', JNull), (''runtime_type'', JNull)]"

definition apply_leader_change ::
  "'c vem \<Rightarrow> string \<times> string \<Rightarrow> event_data \<Rightarrow> 'c read_model \<Rightarrow> unit res \<times> 'c read_model" where
  "apply_leader_change E fresh data s =
    (let ids = jget data ''leader_ids'' in
     if \<not> py_truthy ids then (Ok (), s)
     else case ids of
       JList [leader] \<Rightarrow>
         (let s1 = clear_leader_endpoint_id E s
          in case endpoint_get E s1 leader of
               None \<Rightarrow> (Ok (), s1)
             | Some ep \<Rightarrow>
                 if ep_ve ep = JNull then (Ok (), s1)
                 else let s2 = set_leader_endpoint_id E (ep_ve ep) leader s1
                      in case (ep_ve ep, leader) of
                           (JStr ve, JStr l) \<Rightarrow>
                             (Ok (), publish (''virtual-environments-'' @ ve) ''VirtualEnvironmentLeaderChanged''
                               (dmerge (envelope_fields fresh)
                                 [(''virtual_environment_id'', JStr ve), (''leader_endpoint_id'', JStr l)]) s2)
                         | _ \<Rightarrow> (Raise ValueError, s2))
     | JList _ \<Rightarrow> (Ok (), s)
     | _ \<Rightarrow> (Raise TypeError, s))"

definition compute_apply ::
  "'c vem \<Rightarrow> string \<times> string \<Rightarrow> string \<Rightarrow> event_data \<Rightarrow> 'c read_model \<Rightarrow> unit res \<times> 'c read_model" where
  "compute_apply E fresh ty data s =
    (if ty \<in> set endpoint_event_types then
       with_field data ''endpoint_id'' s (\<lambda>e.
         case endpoint_status ty of
           None \<Rightarrow> (Ok (), endpoint_apply E e data s)
         | Some st \<Rightarrow>
             let payload = dput ''status'' (JStr st) data
             in (Ok (), broadcast ''endpoints'' payload (endpoint_apply E e payload s)))
     else if ty \<in> set function_event_types then
       (let payload = (case function_container_status ty of
              None \<Rightarrow> data | Some st \<Rightarrow> dput ''container_status'' (JStr st) data)
        in and_then (function_apply E payload s) (\<lambda>s1. (Ok (), broadcast ''functions'' payload s1)))
     else if ty = ''FunctionDeleted'' then
       and_then (function_mark_deleted E data s) (\<lambda>s1.
         with_field data ''created_at'' s1 (\<lambda>t.
           (Ok (), broadcast ''functions'' (dput ''deleted_at'' t data) s1)))
     else if ty = ''FunctionEndpointDetached'' then function_detach E data s
     else if ty \<in> set consensus_event_types then
       with_field data ''endpoint_id'' s (\<lambda>e.
         and_then (consensus_record E e data s) (\<lambda>s1.
           if ty \<in> set leader_bearing_event_types then apply_leader_change E fresh data s1
           else (Ok (), s1)))
     else (Ok (), s))"

definition profile_doc :: "json \<Rightarrow> json \<Rightarrow> (string, json) dict \<Rightarrow> doc" where
  "profile_doc u photo prefs =
    [''user_id'' \<mapsto> u, ''profile_photo'' \<mapsto> photo,
     ''preferences'' \<mapsto> JObj
       [(''color'', dget prefs ''color'' JNull), (''view_mode'', dget prefs ''view_mode'' (JStr ''list'')),
        (''language'', dget prefs ''language'' (JStr ''en'')),
        (''activity_window_minutes'', dget prefs ''activity_window_minutes'' (JInt 60)),
        (''endpoint_purge_eligible_after_minutes'',
          dget prefs ''endpoint_purge_eligible_after_minutes'' (JInt 60))]]"

definition profile_save :: "'c vem \<Rightarrow> json \<Rightarrow> doc \<Rightarrow> 'c read_model \<Rightarrow> 'c read_model" where
  "profile_save E u d s = s\<lparr>profiles := set_fields (db E) u d (profiles s)\<rparr>"

definition profile_delete :: "'c vem \<Rightarrow> json \<Rightarrow> 'c read_model \<Rightarrow> 'c read_model" where
  "profile_delete E u s = s\<lparr>profiles := delete_one (db E) u (profiles s)\<rparr>"

definition object_of :: "json \<Rightarrow> (string, json) dict res" where
  "object_of j = (case j of JObj d \<Rightarrow> Ok d | _ \<Rightarrow> Raise AttributeError)"

definition identity_apply ::
  "'c vem \<Rightarrow> string \<Rightarrow> event_data \<Rightarrow> 'c read_model \<Rightarrow> unit res \<times> 'c read_model" where
  "identity_apply E ty data s =
    (if ty \<in> set [''UserProfileCreated'', ''UserProfileUpdated''] then
       with_field data ''preferences'' s (\<lambda>p.
       with_field data ''user_id'' s (\<lambda>u.
       with_field data ''profile_photo'' s (\<lambda>photo.
       with_res (object_of p) s (\<lambda>prefs. (Ok (), profile_save E u (profile_doc u photo prefs) s)))))
     else if ty = ''UserProfileDeleted'' then
       with_field data ''user_id'' s (\<lambda>u. (Ok (), profile_delete E u s))
     else (Ok (), s))"

definition capacity_of_quota :: "json \<Rightarrow> (json \<times> json \<times> json) res" where
  "capacity_of_quota q =
    bind_res (item q ''cpu'') (\<lambda>cpu. bind_res (item q ''ram'') (\<lambda>ram.
    bind_res (item q ''disk'') (\<lambda>disk. Ok (cpu, ram, disk))))"

definition save_workspace_of ::
  "'c vem \<Rightarrow> event_data \<Rightarrow> json \<Rightarrow> 'c read_model \<Rightarrow> unit res \<times> 'c read_model" where
  "save_workspace_of E data owner s =
    with_field data ''virtual_environment_id'' s (\<lambda>i.
    with_field data ''name'' s (\<lambda>n.
    with_field data ''resource_quota'' s (\<lambda>q.
    with_res (capacity_of_quota q) s (\<lambda>(cpu, ram, disk).
      (Ok (), workspace_save E \<lparr>ws_id = i, ws_name = n, ws_owner = owner, ws_cpu = cpu,
         ws_ram = ram, ws_disk = disk, ws_leader = JNull\<rparr> s)))))"

definition workspace_apply ::
  "'c vem \<Rightarrow> string \<Rightarrow> event_data \<Rightarrow> 'c read_model \<Rightarrow> unit res \<times> 'c read_model" where
  "workspace_apply E ty data s =
    (if ty = ''VirtualEnvironmentCreated'' then
       with_field data ''owner_user_id'' s (\<lambda>own. save_workspace_of E data own s)
     else if ty = ''VirtualEnvironmentUpdated'' then
       with_field data ''virtual_environment_id'' s (\<lambda>i.
       with_res (workspace_get E s i) s (\<lambda>existing.
         save_workspace_of E data
           (case existing of Some w \<Rightarrow> ws_owner w | None \<Rightarrow> jget data ''owner_user_id'') s))
     else if ty = ''VirtualEnvironmentDeleted'' then
       with_field data ''virtual_environment_id'' s (\<lambda>i.
       with_field data ''created_at'' s (\<lambda>t. (Ok (), workspace_soft_delete E i t s)))
     else (Ok (), s))"

definition job_started :: "event_data \<Rightarrow> job \<Rightarrow> job" where
  "job_started data j =
    (let j1 = (if jget data ''version'' \<noteq> JNull then j\<lparr>job_function_version := jget data ''version''\<rparr> else j)
     in j1\<lparr>job_state := STARTED\<rparr>)"

definition job_completed :: "event_data \<Rightarrow> job \<Rightarrow> job" where
  "job_completed data j = j\<lparr>job_state := COMPLETED, job_duration_ms := jget data ''duration_ms''\<rparr>"

definition job_failed :: "event_data \<Rightarrow> job \<Rightarrow> job" where
  "job_failed data j =
    (let j1 = (if jget data ''duration_ms'' \<noteq> JNull then j\<lparr>job_duration_ms := jget data ''duration_ms''\<rparr> else j)
     in j1\<lparr>job_state := FAILED\<rparr>)"

definition job_update :: "string \<Rightarrow> event_data \<Rightarrow> job \<Rightarrow> job" where
  "job_update ty data j =
    (if ty = ''JobStarted'' then job_started data j
     else if ty = ''JobCompleted'' then job_completed data j
     else if ty = ''JobFailed'' then job_failed data j
     else j)"

definition job_apply ::
  "'c vem \<Rightarrow> string \<Rightarrow> event_data \<Rightarrow> 'c read_model \<Rightarrow> unit res \<times> 'c read_model" where
  "job_apply E ty data s =
    with_field data ''job_id'' s (\<lambda>i.
      if ty = ''JobQueued'' then
        with_field data ''function_id'' s (\<lambda>f.
          (Ok (), job_save E \<lparr>job_id = i, job_function_id = f, job_state = QUEUED,
             job_function_version = jget data ''version'', job_duration_ms = JNull,
             job_params = jget data ''params'', job_endpoint_id = jget data ''endpoint_id'',
             job_created_at = jget data ''created_at''\<rparr> s))
      else with_res (job_get E s i) s (\<lambda>found.
        with_res (case found of
              Some j \<Rightarrow> Ok j
            | None \<Rightarrow> bind_res (field (map_of data) ''function_id'') (\<lambda>f.
                Ok \<lparr>job_id = i, job_function_id = f, job_state = QUEUED,
                   job_function_version = jget data ''version'', job_duration_ms = JNull,
                   job_params = JNull, job_endpoint_id = JNull, job_created_at = JNull\<rparr>)) s (\<lambda>j.
          (Ok (), job_save E (job_update ty data j) s))))"

text \<open>\<open>_bucket_of\<close>: the part of a name before its first slash.\<close>

definition bucket_part :: "string \<Rightarrow> string" where
  "bucket_part name = hd (py_split (CHR ''/'') name)"

definition name_of :: "json \<Rightarrow> string res" where
  "name_of j = (case j of JStr s \<Rightarrow> Ok s | _ \<Rightarrow> Raise TypeError)"

definition item_message :: "string \<Rightarrow> (string, json) dict \<Rightarrow> (string, json) dict" where
  "item_message n rest = (''bucket'', JStr (bucket_part n)) # (''name'', JStr n) # rest"

definition bucket_apply ::
  "'c vem \<Rightarrow> string \<Rightarrow> event_data \<Rightarrow> 'c read_model \<Rightarrow> unit res \<times> 'c read_model" where
  "bucket_apply E ty data s =
    (if ty = ''DataBucketCreated'' then
       with_field data ''name'' s (\<lambda>n.
       with_field data ''quota_bytes'' s (\<lambda>q.
       with_field data ''created_at'' s (\<lambda>c. (Ok (), bucket_save E n q c s))))
     else if ty = ''DataRegistered'' then
       with_field data ''name'' s (\<lambda>n.
       with_field data ''version'' s (\<lambda>v.
       with_field data ''format'' s (\<lambda>f.
       with_field data ''kind'' s (\<lambda>k.
       with_field data ''total_size'' s (\<lambda>sz.
       with_field data ''total_chunks'' s (\<lambda>ch.
         let s1 = item_save E \<lparr>di_name = n, di_version = v, di_format = f, di_kind = k,
               di_total_size = sz, di_total_chunks = ch, di_status = JStr ''pending''\<rparr> s
         in with_res (name_of n) s1 (\<lambda>nm.
              (Ok (), broadcast ''buckets'' (item_message nm
                [(''version'', v), (''format'', f), (''kind'', k), (''total_size'', sz),
                 (''total_chunks'', ch), (''status'', JStr ''pending'')]) s1))))))))
     else if ty = ''DataUploadCompleted'' then
       with_field data ''name'' s (\<lambda>n.
       with_field data ''version'' s (\<lambda>v.
         let s1 = item_set_status E n v ''ready'' s
         in with_res (name_of n) s1 (\<lambda>nm.
              (Ok (), broadcast ''buckets'' (item_message nm
                [(''version'', v), (''status'', JStr ''ready'')]) s1))))
     else if ty = ''DataDeleted'' then
       with_field data ''name'' s (\<lambda>n.
       with_field data ''version'' s (\<lambda>v.
         let s1 = item_delete E n v s
         in with_res (name_of n) s1 (\<lambda>nm.
              (Ok (), broadcast ''buckets'' (item_message nm
                [(''version'', v), (''status'', JStr ''deleted'')]) s1))))
     else (Ok (), s))"

definition save_choreography_of ::
  "'c vem \<Rightarrow> event_data \<Rightarrow> json \<Rightarrow> json \<Rightarrow> json option \<Rightarrow> 'c read_model \<Rightarrow> unit res \<times> 'c read_model" where
  "save_choreography_of E data i owner created s =
    with_field data ''name'' s (\<lambda>n.
    with_field data ''graph'' s (\<lambda>gj.
    with_res (validate_graph E gj) s (\<lambda>g.
    with_field data ''created_at'' s (\<lambda>t.
      (Ok (), choreography_save E \<lparr>ch_id = i, ch_name = n, ch_owner = owner, ch_graph = g,
         ch_created_at = (case created of Some c \<Rightarrow> c | None \<Rightarrow> t), ch_updated_at = t\<rparr> s)))))"

definition choreography_apply ::
  "'c vem \<Rightarrow> string \<Rightarrow> event_data \<Rightarrow> 'c read_model \<Rightarrow> unit res \<times> 'c read_model" where
  "choreography_apply E ty data s =
    (if ty = ''ChoreographyCreated'' then
       with_field data ''choreography_id'' s (\<lambda>i.
       with_field data ''owner_user_id'' s (\<lambda>own. save_choreography_of E data i own None s))
     else if ty = ''ChoreographyUpdated'' then
       with_field data ''choreography_id'' s (\<lambda>i.
       with_res (choreography_get E s i) s (\<lambda>existing.
       with_res (case existing of Some c \<Rightarrow> Ok (ch_created_at c)
                 | None \<Rightarrow> field (map_of data) ''created_at'') s (\<lambda>created.
         save_choreography_of E data i
           (case existing of Some c \<Rightarrow> ch_owner c | None \<Rightarrow> JNull) (Some created) s)))
     else if ty = ''ChoreographyDeleted'' then
       with_field data ''choreography_id'' s (\<lambda>i.
       with_field data ''created_at'' s (\<lambda>t. (Ok (), choreography_soft_delete E i t s)))
     else (Ok (), s))"

section \<open>Dispatch\<close>

definition route ::
  "'c vem \<Rightarrow> string \<times> string \<Rightarrow> string \<Rightarrow> event_data \<Rightarrow> 'c read_model \<Rightarrow> unit res \<times> 'c read_model" where
  "route E fresh ty data s =
    (if ty \<in> set endpoint_event_types \<or> ty \<in> set function_event_types
        \<or> ty \<in> set [''FunctionDeleted'', ''FunctionEndpointDetached'']
        \<or> ty \<in> set consensus_event_types then compute_apply E fresh ty data s
     else if ty \<in> set activity_only_event_types then (Ok (), s)
     else if ty \<in> set user_profile_event_types then identity_apply E ty data s
     else if ty \<in> set virtual_env_event_types then workspace_apply E ty data s
     else if ty \<in> set job_event_types then job_apply E ty data s
     else if ty \<in> set bucket_event_types then bucket_apply E ty data s
     else if ty \<in> set choreography_event_types then choreography_apply E ty data s
     else (Ok (), s))"

definition apply_event ::
  "'c vem \<Rightarrow> string \<times> string \<Rightarrow> string \<Rightarrow> event_data \<Rightarrow> 'c read_model \<Rightarrow> unit res \<times> 'c read_model" where
  "apply_event E fresh ty data s =
    (if ty \<notin> set all_known_event_types then (Raise ValueError, s)
     else and_then (activity_record E ty data s) (route E fresh ty data))"
section \<open>The projection over views\<close>

text \<open>
  The collections as maps, and the projector run on them. \<open>lift\<close> replaces every collection of
  an outcome by its view.
\<close>

definition map_mongo :: "coll mongo" where
  "map_mongo =
    \<lparr>find_one = (\<lambda>k v. v k), find_where = (\<lambda>q s v. []), set_fields = coll_set, set_and_add = coll_set_add,
     set_existing = coll_set_existing, pull_value = coll_pull, unset_all = coll_unset,
     delete_one = coll_delete, delete_where = (\<lambda>q v. (coll_delete_where q v, 0))\<rparr>"

lemma map_mongo_simps [simp]:
  "find_one map_mongo k v = v k" "set_fields map_mongo = coll_set" "set_and_add map_mongo = coll_set_add"
  "set_existing map_mongo = coll_set_existing" "pull_value map_mongo = coll_pull"
  "unset_all map_mongo = coll_unset" "delete_one map_mongo = coll_delete"
  by (simp_all add: map_mongo_def)

definition map_env :: "'c vem \<Rightarrow> coll vem" where
  "map_env E = \<lparr>db = map_mongo, parse_graph = parse_graph E, dump_graph = dump_graph E, parse_time = parse_time E\<rparr>"

lemma map_env_simps [simp]:
  "db (map_env E) = map_mongo" "parse_graph (map_env E) = parse_graph E"
  "dump_graph (map_env E) = dump_graph E" "parse_time (map_env E) = parse_time E"
  by (simp_all add: map_env_def)

lemma map_env_parsers [simp]:
  "parse_created_at (map_env E) = parse_created_at E" "validate_graph (map_env E) = validate_graph E"
  by (simp_all add: fun_eq_iff parse_created_at_def validate_graph_def split: json.split)

lemma map_env_doc_to_choreography [simp]: "doc_to_choreography (map_env E) = doc_to_choreography E"
  by (simp add: fun_eq_iff doc_to_choreography_def)

definition rm_view :: "'c vem \<Rightarrow> 'c read_model \<Rightarrow> coll read_model" where
  "rm_view E s =
    \<lparr>endpoints = view (db E) (endpoints s), function_docs = view (db E) (function_docs s),
     consensus = view (db E) (consensus s), profiles = view (db E) (profiles s),
     workspaces = view (db E) (workspaces s), jobs = view (db E) (jobs s),
     buckets = view (db E) (buckets s), items = view (db E) (items s),
     choreographies = view (db E) (choreographies s), activity = view (db E) (activity s),
     published = published s, broadcasts = broadcasts s\<rparr>"

definition lift :: "'c vem \<Rightarrow> unit res \<times> 'c read_model \<Rightarrow> unit res \<times> coll read_model" where
  "lift E r = (fst r, rm_view E (snd r))"

named_theorems lifts \<open>how the view passes through the steps of the projector\<close>

lemma lift_pair [lifts]: "lift E (r, s) = (r, rm_view E s)"
  by (simp add: lift_def)

lemma lift_with_field [lifts]:
  "lift E (with_field data k s f) = with_field data k (rm_view E s) (\<lambda>v. lift E (f v))"
  by (simp add: with_field_def lift_def split: option.split)

lemma lift_with_res [lifts]: "lift E (with_res r s f) = with_res r (rm_view E s) (\<lambda>v. lift E (f v))"
  by (simp add: with_res_def lift_def split: res.split)

lemma lift_store:
  "(\<And>c. rm_view E (put c) = put' (view (db E) c)) \<Longrightarrow>
    lift E (store r put s) = store (map_option (view (db E)) r) put' (rm_view E s)"
  by (cases r) (simp_all add: store_def lift_def)

lemma lift_and_then:
  "lift E r = r' \<Longrightarrow> (\<And>s. lift E (f s) = g (rm_view E s)) \<Longrightarrow> lift E (and_then r f) = and_then r' g"
  by (auto simp: and_then_def lift_def split: prod.splits res.splits)

lemma with_field_eqI: "(\<And>v. f v = g v) \<Longrightarrow> with_field d k s f = with_field d k s g"
  by (simp add: with_field_def split: option.split)

lemma lift_if: "lift E (if b then x else y) = (if b then lift E x else lift E y)"
  by simp

lemma rm_view_notes [lifts]:
  "rm_view E (broadcast t m s) = broadcast t m (rm_view E s)"
  "rm_view E (publish st ty d s) = publish st ty d (rm_view E s)"
  by (simp_all add: rm_view_def broadcast_def publish_def)

context collections
begin

lemma endpoint_apply_view: "db E = m \<Longrightarrow> rm_view E (endpoint_apply E k d s) = endpoint_apply (map_env E) k d (rm_view E s)"
  by (simp add: rm_view_def endpoint_apply_def views)

lemma endpoint_get_view: "db E = m \<Longrightarrow> endpoint_get (map_env E) (rm_view E s) k = endpoint_get E s k"
  by (simp add: rm_view_def endpoint_get_def view_def)

lemma function_apply_view: "db E = m \<Longrightarrow> lift E (function_apply E d s) = function_apply (map_env E) d (rm_view E s)"
  by (auto simp: function_apply_def lifts Let_def rm_view_def views view_set_add lift_if
      lift_store [where put' = "\<lambda>c. rm_view E s\<lparr>function_docs := c\<rparr>"] cong: if_cong)

lemma function_mark_deleted_view:
  "db E = m \<Longrightarrow> lift E (function_mark_deleted E d s) = function_mark_deleted (map_env E) d (rm_view E s)"
  by (simp add: function_mark_deleted_def lifts rm_view_def views)

lemma function_detach_view:
  "db E = m \<Longrightarrow> lift E (function_detach E d s) = function_detach (map_env E) d (rm_view E s)"
  by (auto simp: function_detach_def lifts rm_view_def view_pull
      lift_store [where put' = "\<lambda>c. rm_view E s\<lparr>function_docs := c\<rparr>"])

lemma activity_record_view:
  "db E = m \<Longrightarrow> lift E (activity_record E ty d s) = activity_record (map_env E) ty d (rm_view E s)"
  by (simp add: activity_record_def lifts rm_view_def views)

lemma consensus_record_view:
  "db E = m \<Longrightarrow> lift E (consensus_record E e d s) = consensus_record (map_env E) e d (rm_view E s)"
  by (auto simp: consensus_record_def lifts rm_view_def view_set_add
      lift_store [where put' = "\<lambda>c. rm_view E s\<lparr>consensus := c\<rparr>"])

lemma gets_view:
  "db E = m \<Longrightarrow> workspace_get (map_env E) (rm_view E s) k = workspace_get E s k"
  "db E = m \<Longrightarrow> job_get (map_env E) (rm_view E s) k = job_get E s k"
  "db E = m \<Longrightarrow> choreography_get (map_env E) (rm_view E s) k = choreography_get E s k"
  by (simp_all add: rm_view_def workspace_get_def job_get_def choreography_get_def view_def
      split: option.split)

lemma saves_view:
  "db E = m \<Longrightarrow> rm_view E (workspace_save E w s) = workspace_save (map_env E) w (rm_view E s)"
  "db E = m \<Longrightarrow> rm_view E (workspace_soft_delete E k t s) = workspace_soft_delete (map_env E) k t (rm_view E s)"
  "db E = m \<Longrightarrow> rm_view E (set_leader_endpoint_id E k l s) = set_leader_endpoint_id (map_env E) k l (rm_view E s)"
  "db E = m \<Longrightarrow> rm_view E (clear_leader_endpoint_id E s) = clear_leader_endpoint_id (map_env E) (rm_view E s)"
  "db E = m \<Longrightarrow> rm_view E (job_save E j s) = job_save (map_env E) j (rm_view E s)"
  "db E = m \<Longrightarrow> rm_view E (bucket_save E k q t s) = bucket_save (map_env E) k q t (rm_view E s)"
  "db E = m \<Longrightarrow> rm_view E (item_save E i s) = item_save (map_env E) i (rm_view E s)"
  "db E = m \<Longrightarrow> rm_view E (item_set_status E n v st s) = item_set_status (map_env E) n v st (rm_view E s)"
  "db E = m \<Longrightarrow> rm_view E (item_delete E n v s) = item_delete (map_env E) n v (rm_view E s)"
  "db E = m \<Longrightarrow> rm_view E (choreography_save E c s) = choreography_save (map_env E) c (rm_view E s)"
  "db E = m \<Longrightarrow> rm_view E (choreography_soft_delete E k t s) = choreography_soft_delete (map_env E) k t (rm_view E s)"
  "db E = m \<Longrightarrow> rm_view E (profile_save E k d s) = profile_save (map_env E) k d (rm_view E s)"
  "db E = m \<Longrightarrow> rm_view E (profile_delete E k s) = profile_delete (map_env E) k (rm_view E s)"
  by (simp_all add: rm_view_def profile_save_def profile_delete_def workspace_save_def workspace_soft_delete_def set_leader_endpoint_id_def
      clear_leader_endpoint_id_def job_save_def bucket_save_def item_save_def item_set_status_def
      item_delete_def choreography_save_def choreography_doc_def choreography_soft_delete_def views)

lemma apply_leader_change_view:
  assumes "db E = m"
  shows "lift E (apply_leader_change E fresh d s) = apply_leader_change (map_env E) fresh d (rm_view E s)"
  by (simp add: apply_leader_change_def Let_def lifts saves_view [OF assms] lift_if
      endpoint_get_view [OF assms, symmetric] split: json.split list.split option.split)

lemma compute_apply_view:
  assumes E: "db E = m"
  shows "lift E (compute_apply E fresh ty d s) = compute_apply (map_env E) fresh ty d (rm_view E s)"
  unfolding compute_apply_def Let_def lift_if lifts
  by (intro if_cong refl with_field_eqI lift_and_then function_apply_view function_mark_deleted_view
      function_detach_view consensus_record_view E)
    (simp_all add: lifts endpoint_apply_view [OF E] apply_leader_change_view [OF E] split: option.split)

lemma identity_apply_view:
  assumes E: "db E = m"
  shows "lift E (identity_apply E ty d s) = identity_apply (map_env E) ty d (rm_view E s)"
  by (simp add: identity_apply_def lifts lift_if saves_view [OF E])

lemma save_workspace_of_view:
  assumes E: "db E = m"
  shows "lift E (save_workspace_of E d own s) = save_workspace_of (map_env E) d own (rm_view E s)"
  by (simp add: save_workspace_of_def lifts saves_view [OF E] split_def)

lemma workspace_apply_view:
  assumes E: "db E = m"
  shows "lift E (workspace_apply E ty d s) = workspace_apply (map_env E) ty d (rm_view E s)"
  by (simp add: workspace_apply_def lifts lift_if save_workspace_of_view [OF E]
      gets_view [OF E] saves_view [OF E])

lemma job_apply_view:
  assumes E: "db E = m"
  shows "lift E (job_apply E ty d s) = job_apply (map_env E) ty d (rm_view E s)"
  by (simp add: job_apply_def lifts lift_if gets_view [OF E] saves_view [OF E] cong: if_cong)

lemma bucket_apply_view:
  assumes E: "db E = m"
  shows "lift E (bucket_apply E ty d s) = bucket_apply (map_env E) ty d (rm_view E s)"
  by (simp add: bucket_apply_def Let_def lifts lift_if saves_view [OF E])

lemma save_choreography_of_view:
  assumes E: "db E = m"
  shows "lift E (save_choreography_of E d i own c s) = save_choreography_of (map_env E) d i own c (rm_view E s)"
  by (simp add: save_choreography_of_def lifts saves_view [OF E])

lemma choreography_apply_view:
  assumes E: "db E = m"
  shows "lift E (choreography_apply E ty d s) = choreography_apply (map_env E) ty d (rm_view E s)"
  by (simp add: choreography_apply_def lifts lift_if gets_view [OF E] saves_view [OF E]
      save_choreography_of_view [OF E])

lemma route_view:
  assumes E: "db E = m"
  shows "lift E (route E fresh ty d s) = route (map_env E) fresh ty d (rm_view E s)"
  by (simp add: route_def lifts lift_if compute_apply_view [OF E] identity_apply_view [OF E]
      workspace_apply_view [OF E] job_apply_view [OF E] bucket_apply_view [OF E] choreography_apply_view [OF E])

lemma apply_event_view:
  assumes E: "db E = m"
  shows "lift E (apply_event E fresh ty d s) = apply_event (map_env E) fresh ty d (rm_view E s)"
  unfolding apply_event_def lift_if lifts
  by (intro if_cong refl lift_and_then activity_record_view route_view E)

end

section \<open>Applying an event twice\<close>

text \<open>The collections alone: what was appended and broadcast is left out.\<close>

definition docs :: "'c read_model \<Rightarrow> 'c read_model" where
  "docs s = s\<lparr>published := [], broadcasts := []\<rparr>"

definition seen :: "unit res \<times> 'c read_model \<Rightarrow> unit res \<times> 'c read_model" where
  "seen r = (fst r, docs (snd r))"

lemma seen_pair [simp]: "seen (r, s) = (r, docs s)"
  by (simp add: seen_def)

definition settles :: "('c read_model \<Rightarrow> unit res \<times> 'c read_model) \<Rightarrow> bool" where
  "settles h = (\<forall>s. seen (h (snd (h s))) = seen (h s))"

lemma docs_notes [simp]:
  "docs (broadcast t m s) = docs s" "docs (publish st ty d s) = docs s" "docs (docs s) = docs s"
  by (simp_all add: docs_def broadcast_def publish_def)

lemma settles_nothing: "settles (\<lambda>s. (r, s))"
  by (simp add: settles_def)

lemma settles_if: "(b \<Longrightarrow> settles h) \<Longrightarrow> (\<not> b \<Longrightarrow> settles h') \<Longrightarrow> settles (\<lambda>s. if b then h s else h' s)"
  by (cases b) simp_all

lemma settles_with_field:
  "(\<And>v. map_of data k = Some v \<Longrightarrow> settles (h v)) \<Longrightarrow> settles (\<lambda>s. with_field data k s (\<lambda>v. h v s))"
  by (cases "map_of data k") (simp_all add: with_field_def settles_nothing)

lemma settles_with_res:
  "(\<And>v. r = Ok v \<Longrightarrow> settles (h v)) \<Longrightarrow> settles (\<lambda>s. with_res r s (\<lambda>v. h v s))"
  by (cases r) (simp_all add: with_res_def settles_nothing)

lemma settles_write: "(\<And>s. docs (f (f s)) = docs (f s)) \<Longrightarrow> settles (\<lambda>s. (r, f s))"
  by (simp add: settles_def)

lemma settles_store:
  "(\<And>s c. r s = Some c \<Longrightarrow> r (put c s) = Some c) \<Longrightarrow> (\<And>s c. docs (put c (put c s)) = docs (put c s)) \<Longrightarrow>
    settles (\<lambda>s. store (r s) (\<lambda>c. put c s) s)"
  by (auto simp: settles_def store_def split: option.split)

lemmas settles_intros = settles_nothing settles_if settles_with_field settles_with_res

text \<open>
  A step followed by another one: the first, when it succeeds, writes a part of the state that
  the second leaves alone, and does nothing once that part is as it left it.
\<close>

lemma settles_and_then:
  assumes h: "\<And>s s1 t. h s = (Ok (), s1) \<Longrightarrow> part t = part s1 \<Longrightarrow> h t = (Ok (), t)"
    and fails: "\<And>s. fst (h s) \<noteq> Ok () \<Longrightarrow> snd (h s) = s"
    and f: "\<And>s. part (snd (f s)) = part s" "settles f"
  shows "settles (\<lambda>s. and_then (h s) f)"
  unfolding settles_def
proof
  fix s
  show "seen (and_then (h (snd (and_then (h s) f))) f) = seen (and_then (h s) f)"
  proof (cases "fst (h s) = Ok ()")
    case True
    then obtain s1 where s1: "h s = (Ok (), s1)" by (cases "h s") auto
    have "h (snd (f s1)) = (Ok (), snd (f s1))" using h [OF s1 f(1)] .
    then show ?thesis using s1 f(2) by (simp add: and_then_def settles_def)
  next
    case False
    then have "snd (h s) = s" by (rule fails)
    then have "snd (and_then (h s) f) = s" using False
      by (cases "h s"; cases "fst (h s)") (auto simp: and_then_def)
    then show ?thesis by simp
  qed
qed

text \<open>
  Pydantic reads back what it dumped: validating the JSON dump of a graph that was validated
  gives the graph.
\<close>

definition graph_roundtrip :: "'c vem \<Rightarrow> bool" where
  "graph_roundtrip E = (\<forall>j g. parse_graph E j = Some g \<longrightarrow> parse_graph E (dump_graph E g) = Some g)"

text \<open>An environment whose database is the views, and one that reads graphs back.\<close>

locale view_env =
  fixes E :: "coll vem"
  assumes E: "db E = map_mongo"
begin

lemma settles_endpoint:
  "settles (\<lambda>s. (Ok (), endpoint_apply E k d s))"
  "settles (\<lambda>s. (Ok (), broadcast t p (endpoint_apply E k d s)))"
  by (simp_all add: settles_def endpoint_apply_def docs_def broadcast_def E)

lemma settles_function_apply: "settles (\<lambda>s. function_apply E d s)"
  unfolding function_apply_def Let_def
  by (intro settles_intros settles_store settles_write) (auto simp: docs_def E coll_set_add_twice)

lemma function_apply_again:
  assumes "function_apply E d s = (Ok (), s1)" and "function_docs t = function_docs s1"
  shows "function_apply E d t = (Ok (), t)"
  using assms
  by (auto simp: function_apply_def with_field_def store_def Let_def E coll_set_add_twice
      split: option.splits if_splits)

lemma function_apply_fails: "fst (function_apply E d s) \<noteq> Ok () \<Longrightarrow> snd (function_apply E d s) = s"
  by (auto simp: function_apply_def with_field_def store_def Let_def split: option.splits)

lemma function_mark_deleted_again:
  assumes "function_mark_deleted E d s = (Ok (), s1)" and "function_docs t = function_docs s1"
  shows "function_mark_deleted E d t = (Ok (), t)"
  using assms by (auto simp: function_mark_deleted_def with_field_def E split: option.splits)

lemma function_mark_deleted_fails:
  "fst (function_mark_deleted E d s) \<noteq> Ok () \<Longrightarrow> snd (function_mark_deleted E d s) = s"
  by (auto simp: function_mark_deleted_def with_field_def split: option.splits)

lemma consensus_record_again:
  assumes "consensus_record E e d s = (Ok (), s1)" and "consensus t = consensus s1"
  shows "consensus_record E e d t = (Ok (), t)"
  using assms
  by (auto simp: consensus_record_def with_field_def store_def E coll_set_add_twice split: option.splits)

lemma consensus_record_fails: "fst (consensus_record E e d s) \<noteq> Ok () \<Longrightarrow> snd (consensus_record E e d s) = s"
  by (auto simp: consensus_record_def with_field_def store_def split: option.splits)

lemma activity_record_again:
  assumes "activity_record E ty d s = (Ok (), s1)" and "activity t = activity s1"
  shows "activity_record E ty d t = (Ok (), t)"
  using assms
  by (auto simp: activity_record_def with_field_def with_res_def E split: option.splits res.splits)

lemma activity_record_fails: "fst (activity_record E ty d s) \<noteq> Ok () \<Longrightarrow> snd (activity_record E ty d s) = s"
  by (auto simp: activity_record_def with_field_def with_res_def split: option.splits res.splits)

lemma settles_function_detach: "settles (\<lambda>s. function_detach E d s)"
  unfolding function_detach_def
  by (intro settles_intros settles_store) (auto simp: docs_def E coll_pull_twice)

lemma leader_twice:
  "coll_unset f (coll_set_existing ve [([''deleted_at''], JNull)] [f \<mapsto> l] (coll_unset f v)) = coll_unset f v"
  by (auto simp: coll_unset_def coll_set_existing_def fun_eq_iff map_add_def option.map_comp comp_def
      split: option.splits)

lemma settles_leader_change: "settles (apply_leader_change E fresh d)"
  unfolding settles_def
proof
  fix s
  show "seen (apply_leader_change E fresh d (snd (apply_leader_change E fresh d s))) =
    seen (apply_leader_change E fresh d s)"
    by (auto simp: apply_leader_change_def Let_def docs_def publish_def clear_leader_endpoint_id_def
        set_leader_endpoint_id_def endpoint_get_def E leader_twice split: json.splits list.splits option.splits)
qed

lemma leader_change_consensus: "consensus (snd (apply_leader_change E fresh d s)) = consensus s"
  by (simp add: apply_leader_change_def Let_def publish_def clear_leader_endpoint_id_def
      set_leader_endpoint_id_def split: json.split list.split option.split)

lemma broadcast_docs [simp]: "function_docs (broadcast t p s) = function_docs s"
  by (simp add: broadcast_def)

lemma settles_compute: "settles (compute_apply E fresh ty d)"
proof -
  have b: "settles (\<lambda>s. (Ok (), broadcast t p s))" for t p by (simp add: settles_def docs_def broadcast_def)
  have "settles (\<lambda>s. compute_apply E fresh ty d s)"
    unfolding compute_apply_def Let_def
    apply (intro settles_intros settles_function_detach)
    subgoal by (cases "endpoint_status ty") (simp_all add: settles_endpoint)
    subgoal by (rule settles_and_then [where part = function_docs])
        (auto intro: function_apply_again function_apply_fails b)
    subgoal by (rule settles_and_then [where part = function_docs], erule (1) function_mark_deleted_again,
          erule function_mark_deleted_fails, simp add: with_field_def split: option.split,
          intro settles_with_field b)
    subgoal by (rule settles_and_then [where part = consensus])
        (auto intro: consensus_record_again consensus_record_fails settles_if settles_leader_change settles_nothing
          simp: leader_change_consensus)
    done
  then show ?thesis by simp
qed

lemma settles_identity: "settles (\<lambda>s. identity_apply E ty d s)"
  unfolding identity_apply_def
  by (intro settles_intros settles_write) (simp_all add: docs_def profile_save_def profile_delete_def E)

lemma settles_bucket: "settles (\<lambda>s. bucket_apply E ty d s)"
  unfolding bucket_apply_def Let_def
  by (intro settles_intros settles_write)
    (auto simp: settles_def docs_def broadcast_def bucket_save_def item_save_def item_set_status_def
      item_delete_def with_res_def E split: res.split)

text \<open>What is saved is read back.\<close>

lemma doc_get_add: "f \<in> dom d \<Longrightarrow> doc_get (a ++ d) f = doc_get d f"
  by (auto simp: doc_get_def map_add_def)

lemma doc_to_job_saved: "doc_to_job (a ++ job_doc j) = Ok j"
  by (cases j; cases "job_state j")
    (simp_all add: doc_to_job_def job_doc_def field_def doc_get_def status_of_value_def)

lemma job_update_twice [simp]: "job_update ty d (job_update ty d j) = job_update ty d j"
  by (simp add: job_update_def job_started_def job_completed_def job_failed_def Let_def)

lemma job_update_id [simp]: "job_id (job_update ty d j) = job_id j"
  by (simp add: job_update_def job_started_def job_completed_def job_failed_def Let_def)

lemma job_get_saved: "job_get E (job_save E j s) (job_id j) = Ok (Some j)"
  by (simp add: job_get_def job_save_def E coll_set_same doc_to_job_saved)

lemma job_get_other: "k \<noteq> job_id j \<Longrightarrow> job_get E (job_save E j s) k = job_get E s k"
  by (simp add: job_get_def job_save_def E)

lemma job_save_twice: "job_save E j (job_save E j s) = job_save E j s"
  by (simp add: job_save_def E)

lemma settles_job: "settles (\<lambda>s. job_apply E ty d s)"
  unfolding job_apply_def
proof (intro settles_with_field settles_if)
  fix i f
  show "settles (\<lambda>s. (Ok (), job_save E \<lparr>job_id = i, job_function_id = f, job_state = QUEUED,
             job_function_version = jget d ''version'', job_duration_ms = JNull,
             job_params = jget d ''params'', job_endpoint_id = jget d ''endpoint_id'',
             job_created_at = jget d ''created_at''\<rparr> s))"
    by (rule settles_write) (simp add: job_save_twice)
next
  fix i
  let ?new = "\<lambda>f. \<lparr>job_id = i, job_function_id = f, job_state = QUEUED,
        job_function_version = jget d ''version'', job_duration_ms = JNull,
        job_params = JNull, job_endpoint_id = JNull, job_created_at = JNull\<rparr>"
  let ?h = "\<lambda>s. with_res (job_get E s i) s (\<lambda>found.
      with_res (case found of
            Some j \<Rightarrow> Ok j
          | None \<Rightarrow> bind_res (field (map_of d) ''function_id'') (\<lambda>f. Ok (?new f))) s (\<lambda>j.
        (Ok (), job_save E (job_update ty d j) s)))"
  have once: "?h (job_save E (job_update ty d j) s) = (Ok (), job_save E (job_update ty d j) s)"
    if "job_id j = i \<or> job_get E s i = Ok (Some j)" for s j
  proof (cases "job_id j = i")
    case True
    then have "job_get E (job_save E (job_update ty d j) s) i = Ok (Some (job_update ty d j))"
      using job_get_saved [of "job_update ty d j" s] by simp
    then show ?thesis by (simp add: with_res_def job_save_twice)
  next
    case False
    then have "job_get E (job_save E (job_update ty d j) s) i = Ok (Some j)"
      using that job_get_other [of i "job_update ty d j" s] by simp
    then show ?thesis by (simp add: with_res_def job_save_twice)
  qed
  show "settles ?h"
    unfolding settles_def
  proof
    fix s
    show "seen (?h (snd (?h s))) = seen (?h s)"
    proof (cases "job_get E s i")
      case (Ok found)
      show ?thesis
      proof (cases found)
        case None
        show ?thesis
        proof (cases "map_of d ''function_id''")
          case (Some f)
          then have "?h s = (Ok (), job_save E (job_update ty d (?new f)) s)"
            using Ok None by (simp add: with_res_def field_def)
          then show ?thesis using once [of "?new f" s] by simp
        qed (use Ok None in \<open>simp add: with_res_def field_def\<close>)
      next
        case (Some j)
        then have "?h s = (Ok (), job_save E (job_update ty d j) s)" using Ok by (simp add: with_res_def)
        then show ?thesis using once [of j s] Ok Some by simp
      qed
    qed (simp_all add: with_res_def)
  qed
qed

lemma workspace_save_twice: "workspace_save E w (workspace_save E w s) = workspace_save E w s"
  by (simp add: workspace_save_def E)

lemma doc_get_workspace [simp]:
  "doc_get (a ++ workspace_doc w) ''deleted_at'' = doc_get a ''deleted_at''"
  by (simp add: doc_get_def workspace_doc_def)

lemma workspace_get_saved:
  assumes "workspace_get E s (ws_id w) = Ok found"
  shows "\<exists>found'. workspace_get E (workspace_save E w s) (ws_id w) = Ok found' \<and>
    (case found' of Some w' \<Rightarrow> ws_owner w' = ws_owner w | None \<Rightarrow> found = None)"
proof -
  let ?a = "doc_or_new (workspaces s) (ws_id w)"
  have "doc_to_workspace (?a ++ workspace_doc w) =
      Ok (w\<lparr>ws_leader := doc_get ?a ''leader_endpoint_id''\<rparr>)"
    by (cases w) (simp add: doc_to_workspace_def workspace_doc_def field_def doc_get_def item_def)
  moreover have "found = None" if "doc_get ?a ''deleted_at'' \<noteq> JNull"
    using assms that by (auto simp: workspace_get_def E doc_or_new_def doc_get_def split: option.splits)
  ultimately show ?thesis
    by (auto simp: workspace_get_def workspace_save_def E coll_set_same)
qed

lemma save_workspace_of_cases:
  "snd (save_workspace_of E d own s) = s \<or>
    (\<exists>w. ws_owner w = own \<and> map_of d ''virtual_environment_id'' = Some (ws_id w) \<and>
       (\<forall>t. save_workspace_of E d own t = (Ok (), workspace_save E w t)))"
proof (cases "map_of d ''virtual_environment_id''")
  case id: (Some i)
  show ?thesis
  proof (cases "map_of d ''name''")
    case name: (Some n)
    show ?thesis
    proof (cases "map_of d ''resource_quota''")
      case quota: (Some q)
      show ?thesis
      proof (cases "capacity_of_quota q")
        case (Ok c)
        obtain cpu ram disk where c: "c = (cpu, ram, disk)" by (cases c)
        let ?w = "\<lparr>ws_id = i, ws_name = n, ws_owner = own, ws_cpu = cpu, ws_ram = ram, ws_disk = disk, ws_leader = JNull\<rparr>"
        have "\<forall>t. save_workspace_of E d own t = (Ok (), workspace_save E ?w t)"
          by (simp add: save_workspace_of_def with_field_def with_res_def id name quota Ok c)
        then show ?thesis using id by (intro disjI2 exI [of _ ?w]) simp
      qed (simp_all add: save_workspace_of_def with_field_def with_res_def id name quota)
    qed (simp add: save_workspace_of_def with_field_def id name)
  qed (simp add: save_workspace_of_def with_field_def id)
qed (simp add: save_workspace_of_def with_field_def)

lemma settles_save_workspace: "settles (\<lambda>s. save_workspace_of E d own s)"
  unfolding settles_def
proof
  fix s
  show "seen (save_workspace_of E d own (snd (save_workspace_of E d own s))) =
    seen (save_workspace_of E d own s)"
    using save_workspace_of_cases [of d own s] by (auto simp: workspace_save_twice)
qed

lemma settles_workspace: "settles (\<lambda>s. workspace_apply E ty d s)"
  unfolding workspace_apply_def
proof (intro settles_if settles_with_field settles_save_workspace settles_nothing)
  fix i assume i: "map_of d ''virtual_environment_id'' = Some i"
  let ?own = "\<lambda>ex. case ex of Some w \<Rightarrow> ws_owner w | None \<Rightarrow> jget d ''owner_user_id''"
  let ?h = "\<lambda>s. with_res (workspace_get E s i) s (\<lambda>ex. save_workspace_of E d (?own ex) s)"
  show "settles ?h"
    unfolding settles_def
  proof
    fix s
    show "seen (?h (snd (?h s))) = seen (?h s)"
    proof (cases "workspace_get E s i")
      case (Ok found)
      then have h: "?h s = save_workspace_of E d (?own found) s" by (simp add: with_res_def)
      show ?thesis
        using save_workspace_of_cases [of d "?own found" s]
      proof
        assume "snd (save_workspace_of E d (?own found) s) = s"
        then show ?thesis by (simp add: h)
      next
        assume "\<exists>w. ws_owner w = ?own found \<and> map_of d ''virtual_environment_id'' = Some (ws_id w) \<and>
          (\<forall>t. save_workspace_of E d (?own found) t = (Ok (), workspace_save E w t))"
        then obtain w where w: "ws_owner w = ?own found" "ws_id w = i"
          and save: "\<And>t. save_workspace_of E d (?own found) t = (Ok (), workspace_save E w t)"
          using i by auto
        obtain found' where found': "workspace_get E (workspace_save E w s) i = Ok found'"
          and own: "case found' of Some w' \<Rightarrow> ws_owner w' = ws_owner w | None \<Rightarrow> found = None"
          using workspace_get_saved [of s w found] Ok w(2) by auto
        have "?own found' = ?own found" using own w(1) by (cases found') auto
        then show ?thesis using h save found' by (simp add: with_res_def workspace_save_twice)
      qed
    qed (simp_all add: with_res_def)
  qed
next
  fix i t
  show "settles (\<lambda>s. (Ok (), workspace_soft_delete E i t s))"
    by (rule settles_write) (simp add: workspace_soft_delete_def E)
qed

lemma choreography_save_twice: "choreography_save E c (choreography_save E c s) = choreography_save E c s"
  by (simp add: choreography_save_def E)

lemma choreography_get_saved:
  assumes "choreography_get E s (ch_id c) = Ok found"
    and graph: "parse_graph E (dump_graph E (ch_graph c)) = Some (ch_graph c)"
  shows "\<exists>found'. choreography_get E (choreography_save E c s) (ch_id c) = Ok found' \<and>
    (case found' of Some c' \<Rightarrow> c' = c | None \<Rightarrow> found = None)"
proof -
  let ?a = "doc_or_new (choreographies s) (ch_id c)"
  have "doc_to_choreography E (?a ++ choreography_doc E c) = Ok c"
    using graph by (cases c) (simp add: doc_to_choreography_def choreography_doc_def field_def
        validate_graph_def)
  moreover have "doc_get (?a ++ choreography_doc E c) ''deleted_at'' = doc_get ?a ''deleted_at''"
    by (simp add: doc_get_def choreography_doc_def)
  moreover have "found = None" if "doc_get ?a ''deleted_at'' \<noteq> JNull"
    using assms(1) that by (auto simp: choreography_get_def E doc_or_new_def doc_get_def split: option.splits)
  ultimately show ?thesis
    by (auto simp: choreography_get_def choreography_save_def E coll_set_same)
qed

end

interpretation views: view_env "map_env E" for E
  by unfold_locales simp

locale roundtrip_env = view_env +
  assumes graphs: "graph_roundtrip E"
begin

lemma save_choreography_of_cases:
  "snd (save_choreography_of E d i own created s) = s \<or>
    (\<exists>c. ch_id c = i \<and> ch_owner c = own \<and> (\<forall>t. created = Some t \<longrightarrow> ch_created_at c = t) \<and>
       parse_graph E (dump_graph E (ch_graph c)) = Some (ch_graph c) \<and>
       (\<forall>t. save_choreography_of E d i own created t = (Ok (), choreography_save E c t)))"
proof (cases "map_of d ''name''")
  case name: (Some n)
  show ?thesis
  proof (cases "map_of d ''graph''")
    case graph: (Some gj)
    show ?thesis
    proof (cases "validate_graph E gj")
      case (Ok g)
      show ?thesis
      proof (cases "map_of d ''created_at''")
        case t: (Some u)
        let ?c = "\<lparr>ch_id = i, ch_name = n, ch_owner = own, ch_graph = g,
          ch_created_at = (case created of Some c \<Rightarrow> c | None \<Rightarrow> u), ch_updated_at = u\<rparr>"
        have "\<forall>t. save_choreography_of E d i own created t = (Ok (), choreography_save E ?c t)"
          by (simp add: save_choreography_of_def with_field_def with_res_def name graph Ok t)
        moreover have "parse_graph E (dump_graph E g) = Some g"
          using Ok graphs by (auto simp: validate_graph_def graph_roundtrip_def split: option.splits)
        ultimately show ?thesis by (intro disjI2 exI [of _ ?c]) simp
      qed (simp add: save_choreography_of_def with_field_def with_res_def name graph Ok)
    qed (simp_all add: save_choreography_of_def with_field_def with_res_def name graph)
  qed (simp add: save_choreography_of_def with_field_def name)
qed (simp add: save_choreography_of_def with_field_def)

lemma settles_save_choreography: "settles (\<lambda>s. save_choreography_of E d i own created s)"
  unfolding settles_def
proof
  fix s
  show "seen (save_choreography_of E d i own created (snd (save_choreography_of E d i own created s))) =
    seen (save_choreography_of E d i own created s)"
    using save_choreography_of_cases [of d i own created s] by (auto simp: choreography_save_twice)
qed

lemma settles_choreography: "settles (\<lambda>s. choreography_apply E ty d s)"
  unfolding choreography_apply_def
proof (intro settles_if settles_with_field settles_save_choreography settles_nothing)
  fix i
  let ?own = "\<lambda>ex. case ex of Some c \<Rightarrow> ch_owner c | None \<Rightarrow> JNull"
  let ?at = "\<lambda>ex. case ex of Some c \<Rightarrow> Ok (ch_created_at c) | None \<Rightarrow> field (map_of d) ''created_at''"
  let ?h = "\<lambda>s. with_res (choreography_get E s i) s (\<lambda>ex. with_res (?at ex) s (\<lambda>at.
      save_choreography_of E d i (?own ex) (Some at) s))"
  show "settles ?h"
    unfolding settles_def
  proof
    fix s
    show "seen (?h (snd (?h s))) = seen (?h s)"
    proof (cases "choreography_get E s i")
      case got: (Ok found)
      show ?thesis
      proof (cases "?at found")
        case (Ok at)
        then have h: "?h s = save_choreography_of E d i (?own found) (Some at) s"
          using got by (simp add: with_res_def)
        show ?thesis
          using save_choreography_of_cases [of d i "?own found" "Some at" s]
        proof
          assume "snd (save_choreography_of E d i (?own found) (Some at) s) = s"
          then show ?thesis by (simp add: h)
        next
          assume "\<exists>c. ch_id c = i \<and> ch_owner c = ?own found \<and> (\<forall>t. Some at = Some t \<longrightarrow> ch_created_at c = t) \<and>
            parse_graph E (dump_graph E (ch_graph c)) = Some (ch_graph c) \<and>
            (\<forall>t. save_choreography_of E d i (?own found) (Some at) t = (Ok (), choreography_save E c t))"
          then obtain c where c: "ch_id c = i" "ch_owner c = ?own found" "ch_created_at c = at"
            and graph: "parse_graph E (dump_graph E (ch_graph c)) = Some (ch_graph c)"
            and save: "\<And>t. save_choreography_of E d i (?own found) (Some at) t = (Ok (), choreography_save E c t)"
            by auto
          obtain found' where found': "choreography_get E (choreography_save E c s) i = Ok found'"
            and same: "case found' of Some c' \<Rightarrow> c' = c | None \<Rightarrow> found = None"
            using choreography_get_saved [OF _ graph, of s found] got c(1) by auto
          have "?own found' = ?own found" "?at found' = Ok at"
            using same c(2,3) Ok by (cases found'; auto)+
          then show ?thesis using h save found' by (simp add: with_res_def choreography_save_twice)
        qed
      qed (use got in \<open>simp_all add: with_res_def\<close>)
    qed (simp_all add: with_res_def)
  qed
next
  fix i t
  show "settles (\<lambda>s. (Ok (), choreography_soft_delete E i t s))"
    by (rule settles_write) (simp add: choreography_soft_delete_def E)
qed

lemma settles_route: "settles (route E fresh ty d)"
proof -
  have "settles (\<lambda>s. route E fresh ty d s)"
    unfolding route_def
    by (intro settles_if settles_compute settles_identity settles_workspace settles_job settles_bucket
        settles_choreography settles_nothing)
  then show ?thesis by simp
qed

lemma activity_kept [simp]:
  "activity (broadcast tp p s) = activity s" "activity (publish st ty d s) = activity s"
  "activity (endpoint_apply E k d s) = activity s" "activity (workspace_save E w s) = activity s"
  "activity (workspace_soft_delete E k t s) = activity s" "activity (set_leader_endpoint_id E k l s) = activity s"
  "activity (clear_leader_endpoint_id E s) = activity s" "activity (job_save E j s) = activity s"
  "activity (bucket_save E k q t s) = activity s" "activity (item_save E it s) = activity s"
  "activity (item_set_status E n v sts s) = activity s" "activity (item_delete E n v s) = activity s"
  "activity (choreography_save E c s) = activity s" "activity (choreography_soft_delete E k t s) = activity s"
  "activity (profile_save E k pd s) = activity s" "activity (profile_delete E k s) = activity s"
  by (simp_all add: broadcast_def publish_def endpoint_apply_def workspace_save_def workspace_soft_delete_def
      set_leader_endpoint_id_def clear_leader_endpoint_id_def job_save_def bucket_save_def item_save_def
      item_set_status_def item_delete_def choreography_save_def choreography_soft_delete_def
      profile_save_def profile_delete_def)

lemma snd_steps:
  "P s \<Longrightarrow> (\<And>v. P (snd (f v))) \<Longrightarrow> P (snd (with_field d k s f))"
  "P s \<Longrightarrow> (\<And>v. P (snd (g v))) \<Longrightarrow> P (snd (with_res r s g))"
  "P s \<Longrightarrow> (\<And>c. P (put c)) \<Longrightarrow> P (snd (store q put s))"
  "P (snd x) \<Longrightarrow> P (snd y) \<Longrightarrow> P (snd (if b then x else y))"
  by (simp_all add: with_field_def with_res_def store_def split: option.split res.split)

lemma snd_and_then: "P (snd r) \<Longrightarrow> (\<And>s. P s \<Longrightarrow> P (snd (f s))) \<Longrightarrow> P (snd (and_then r f))"
  by (cases r) (auto simp: and_then_def split: res.split)

lemma route_activity: "activity (snd (route E fresh ty d s)) = activity s"
proof -
  let ?P = "\<lambda>t. activity t = activity s"
  have leader: "?P (snd (apply_leader_change E fresh d t))" if "?P t" for t
    using that by (simp add: apply_leader_change_def Let_def split: json.split list.split option.split)
  note steps = snd_steps [where P = ?P] snd_and_then [where P = ?P]
  have compute: "?P (snd (compute_apply E fresh ty d s))"
    unfolding compute_apply_def Let_def function_apply_def function_mark_deleted_def function_detach_def
      consensus_record_def
    by (intro steps leader) (simp_all split: option.split)
  have identity: "?P (snd (identity_apply E ty d s))"
    unfolding identity_apply_def by (intro steps) simp_all
  have workspace: "?P (snd (workspace_apply E ty d s))"
    unfolding workspace_apply_def save_workspace_of_def by (intro steps) (simp_all split: prod.split)
  have job: "?P (snd (job_apply E ty d s))"
    unfolding job_apply_def by (intro steps) simp_all
  have bucket: "?P (snd (bucket_apply E ty d s))"
    unfolding bucket_apply_def Let_def by (intro steps) simp_all
  have choreography: "?P (snd (choreography_apply E ty d s))"
    unfolding choreography_apply_def save_choreography_of_def by (intro steps) simp_all
  show ?thesis using compute identity workspace job bucket choreography by (simp add: route_def)
qed

lemma settles_apply_event: "settles (apply_event E fresh ty d)"
proof -
  have "settles (\<lambda>s. apply_event E fresh ty d s)"
    unfolding apply_event_def
    by (intro settles_if settles_nothing settles_and_then [where part = activity] activity_record_again
        activity_record_fails route_activity settles_route)
  then show ?thesis by simp
qed

end

section \<open>What an event does depends on the collections only\<close>

definition agree ::
  "('c read_model \<Rightarrow> unit res \<times> 'c read_model) \<Rightarrow> ('c read_model \<Rightarrow> unit res \<times> 'c read_model) \<Rightarrow> bool" where
  "agree h h' = (\<forall>s t. docs s = docs t \<longrightarrow> fst (h s) = fst (h' t) \<and> docs (snd (h s)) = docs (snd (h' t)))"

lemma docs_eqD:
  assumes "docs s = docs t"
  shows "endpoints s = endpoints t" "function_docs s = function_docs t" "consensus s = consensus t"
    "profiles s = profiles t" "workspaces s = workspaces t" "jobs s = jobs t" "buckets s = buckets t"
    "items s = items t" "choreographies s = choreographies t" "activity s = activity t"
  using assms by (cases s; cases t; simp add: docs_def)+

lemma docs_eqI:
  "endpoints s = endpoints t \<Longrightarrow> function_docs s = function_docs t \<Longrightarrow> consensus s = consensus t \<Longrightarrow>
   profiles s = profiles t \<Longrightarrow> workspaces s = workspaces t \<Longrightarrow> jobs s = jobs t \<Longrightarrow> buckets s = buckets t \<Longrightarrow>
   items s = items t \<Longrightarrow> choreographies s = choreographies t \<Longrightarrow> activity s = activity t \<Longrightarrow> docs s = docs t"
  by (cases s; cases t) (simp add: docs_def)

lemma agree_return: "agree (\<lambda>s. (r, s)) (\<lambda>s. (r, s))"
  by (simp add: agree_def)

lemma agree_if: "agree f f' \<Longrightarrow> agree g g' \<Longrightarrow> agree (\<lambda>s. if b then f s else g s) (\<lambda>s. if b then f' s else g' s)"
  by (cases b) simp_all

lemma agree_write: "(\<And>s t. docs s = docs t \<Longrightarrow> docs (f s) = docs (g t)) \<Longrightarrow> agree (\<lambda>s. (r, f s)) (\<lambda>s. (r, g s))"
  by (simp add: agree_def)

lemma agree_with_field:
  "(\<And>v. agree (f v) (g v)) \<Longrightarrow> agree (\<lambda>s. with_field d k s (\<lambda>v. f v s)) (\<lambda>s. with_field d k s (\<lambda>v. g v s))"
  by (auto simp: agree_def with_field_def split: option.split)

lemma agree_with_res:
  fixes r :: "'c read_model \<Rightarrow> 'a res"
  assumes r: "\<And>s t. docs s = docs t \<Longrightarrow> r s = r t" and f: "\<And>v. agree (f v) (g v)"
  shows "agree (\<lambda>s. with_res (r s) s (\<lambda>v. f v s)) (\<lambda>s. with_res (r s) s (\<lambda>v. g v s))"
  unfolding agree_def
proof (intro allI impI)
  fix s t :: "'c read_model" assume d: "docs s = docs t"
  show "fst (with_res (r s) s (\<lambda>v. f v s)) = fst (with_res (r t) t (\<lambda>v. g v t)) \<and>
      docs (snd (with_res (r s) s (\<lambda>v. f v s))) = docs (snd (with_res (r t) t (\<lambda>v. g v t)))"
    unfolding r [OF d] using d f by (cases "r t") (auto simp: with_res_def agree_def)
qed

lemma agree_store:
  fixes r :: "'c read_model \<Rightarrow> 'a option"
  assumes r: "\<And>s t. docs s = docs t \<Longrightarrow> r s = r t"
    and put: "\<And>c s t. docs s = docs t \<Longrightarrow> docs (put c s) = docs (put c t)"
  shows "agree (\<lambda>s. store (r s) (\<lambda>c. put c s) s) (\<lambda>s. store (r s) (\<lambda>c. put c s) s)"
  unfolding agree_def
proof (intro allI impI)
  fix s t :: "'c read_model" assume d: "docs s = docs t"
  show "fst (store (r s) (\<lambda>c. put c s) s) = fst (store (r t) (\<lambda>c. put c t) t) \<and>
      docs (snd (store (r s) (\<lambda>c. put c s) s)) = docs (snd (store (r t) (\<lambda>c. put c t) t))"
    unfolding r [OF d] using d put [OF d] by (cases "r t") (auto simp: store_def)
qed

lemma agree_and_then:
  assumes "agree h h'" "agree f f'"
  shows "agree (\<lambda>s. and_then (h s) f) (\<lambda>s. and_then (h' s) f')"
  unfolding agree_def
proof (intro allI impI)
  fix s t :: "'a read_model" assume "docs s = docs t"
  then have h: "fst (h s) = fst (h' t)" "docs (snd (h s)) = docs (snd (h' t))"
    using assms(1) by (auto simp: agree_def)
  then show "fst (and_then (h s) f) = fst (and_then (h' t) f') \<and>
      docs (snd (and_then (h s) f)) = docs (snd (and_then (h' t) f'))"
    using assms(2) by (cases "h s"; cases "h' t") (auto simp: and_then_def agree_def split: res.split)
qed

lemma agree_writes:
  assumes "docs s = docs t"
  shows "docs (broadcast tp p s) = docs (broadcast tp p t)"
    "docs (publish st ty d s) = docs (publish st' ty' d' t)"
    "docs (endpoint_apply E k d s) = docs (endpoint_apply E k d t)"
    "docs (workspace_save E w s) = docs (workspace_save E w t)"
    "docs (workspace_soft_delete E k j s) = docs (workspace_soft_delete E k j t)"
    "docs (set_leader_endpoint_id E k j s) = docs (set_leader_endpoint_id E k j t)"
    "docs (clear_leader_endpoint_id E s) = docs (clear_leader_endpoint_id E t)"
    "docs (job_save E jb s) = docs (job_save E jb t)"
    "docs (bucket_save E k j l s) = docs (bucket_save E k j l t)"
    "docs (item_save E i s) = docs (item_save E i t)"
    "docs (item_set_status E k j sts s) = docs (item_set_status E k j sts t)"
    "docs (item_delete E k j s) = docs (item_delete E k j t)"
    "docs (choreography_save E c s) = docs (choreography_save E c t)"
    "docs (choreography_soft_delete E k j s) = docs (choreography_soft_delete E k j t)"
    "docs (profile_save E k pd s) = docs (profile_save E k pd t)"
    "docs (profile_delete E k s) = docs (profile_delete E k t)"
    "endpoint_get E s k = endpoint_get E t k" "workspace_get E s k = workspace_get E t k"
    "job_get E s k = job_get E t k" "choreography_get E s k = choreography_get E t k"
  using docs_eqD [OF assms]
  by (auto intro!: docs_eqI simp: broadcast_def publish_def endpoint_apply_def workspace_save_def
      workspace_soft_delete_def set_leader_endpoint_id_def clear_leader_endpoint_id_def job_save_def
      bucket_save_def item_save_def item_set_status_def item_delete_def choreography_save_def
      choreography_soft_delete_def profile_save_def profile_delete_def endpoint_get_def workspace_get_def
      job_get_def choreography_get_def)

lemmas agree_intros = agree_return agree_if agree_with_field agree_with_res agree_write agree_and_then

lemma agree_leader_change: "agree (apply_leader_change E fresh d) (apply_leader_change E fresh' d)"
  unfolding agree_def
proof (intro allI impI)
  fix s t :: "'a read_model" assume st: "docs s = docs t"
  note c = agree_writes(7) [OF st]
  note l = agree_writes(6) [OF c]
  show "fst (apply_leader_change E fresh d s) = fst (apply_leader_change E fresh' d t) \<and>
      docs (snd (apply_leader_change E fresh d s)) = docs (snd (apply_leader_change E fresh' d t))"
    using st c l agree_writes(17) [OF c]
    by (auto simp: apply_leader_change_def Let_def split: json.split list.split option.split)
qed

lemma docs_updates:
  assumes "docs s = docs t"
  shows "docs (s\<lparr>function_docs := c\<rparr>) = docs (t\<lparr>function_docs := c\<rparr>)"
    "docs (s\<lparr>consensus := c\<rparr>) = docs (t\<lparr>consensus := c\<rparr>)"
    "docs (s\<lparr>activity := c\<rparr>) = docs (t\<lparr>activity := c\<rparr>)"
  using docs_eqD [OF assms] by (intro docs_eqI; simp)+

lemma agree_update:
  assumes "\<And>s t. docs s = docs t \<Longrightarrow> x s = x t" and "\<And>s t c. docs s = docs t \<Longrightarrow> docs (put c s) = docs (put c t)"
  shows "agree (\<lambda>s. (r, put (x s) s)) (\<lambda>s. (r, put (x s) s))"
  using assms by (intro agree_write) metis

lemma agree_function_apply: "agree (\<lambda>s. function_apply E d s) (\<lambda>s. function_apply E d s)"
  unfolding function_apply_def Let_def
  by (intro agree_with_field agree_if agree_store agree_update [where put = "\<lambda>c s. s\<lparr>function_docs := c\<rparr>"]
      docs_updates)
    (assumption | (drule docs_eqD(2), simp))+

lemma agree_mark_deleted: "agree (\<lambda>s. function_mark_deleted E d s) (\<lambda>s. function_mark_deleted E d s)"
  unfolding function_mark_deleted_def
  by (intro agree_with_field agree_update [where put = "\<lambda>c s. s\<lparr>function_docs := c\<rparr>"] docs_updates)
    (assumption | (drule docs_eqD(2), simp))+

lemma agree_detach: "agree (\<lambda>s. function_detach E d s) (\<lambda>s. function_detach E d s)"
  unfolding function_detach_def by (intro agree_with_field agree_store docs_updates)
    (assumption | (drule docs_eqD(2), simp))+

lemma agree_consensus_record: "agree (\<lambda>s. consensus_record E e d s) (\<lambda>s. consensus_record E e d s)"
  unfolding consensus_record_def by (intro agree_with_field agree_store docs_updates)
    (assumption | (drule docs_eqD(3), simp))+

lemma agree_activity_record: "agree (\<lambda>s. activity_record E ty d s) (\<lambda>s. activity_record E ty d s)"
  unfolding activity_record_def
  by (intro agree_with_field agree_with_res refl agree_update [where put = "\<lambda>c s. s\<lparr>activity := c\<rparr>"] docs_updates)
    (assumption | (drule docs_eqD(10), simp))+

lemma agree_endpoint_event:
  "agree (\<lambda>s. case st of None \<Rightarrow> (Ok (), endpoint_apply E e d s)
      | Some x \<Rightarrow> (Ok (), broadcast tp (p x) (endpoint_apply E e (p x) s)))
    (\<lambda>s. case st of None \<Rightarrow> (Ok (), endpoint_apply E e d s)
      | Some x \<Rightarrow> (Ok (), broadcast tp (p x) (endpoint_apply E e (p x) s)))"
proof (cases st)
  case None
  have "agree (\<lambda>s. (Ok (), endpoint_apply E e d s)) (\<lambda>s. (Ok (), endpoint_apply E e d s))"
    by (intro agree_write agree_writes(3))
  then show ?thesis using None by simp
next
  case (Some x)
  have "docs (broadcast tp (p x) (endpoint_apply E e (p x) s)) = docs (broadcast tp (p x) (endpoint_apply E e (p x) t))"
    if "docs s = docs t" for s t
    using that by (intro agree_writes(1) agree_writes(3))
  then have "agree (\<lambda>s. (Ok (), broadcast tp (p x) (endpoint_apply E e (p x) s)))
      (\<lambda>s. (Ok (), broadcast tp (p x) (endpoint_apply E e (p x) s)))" by (rule agree_write)
  then show ?thesis using Some by simp
qed

lemma agree_compute: "agree (\<lambda>s. compute_apply E fresh ty d s) (\<lambda>s. compute_apply E fresh' ty d s)"
  unfolding compute_apply_def Let_def
  by (intro agree_if agree_with_field agree_and_then agree_return agree_endpoint_event agree_function_apply
      agree_mark_deleted agree_detach agree_consensus_record agree_leader_change agree_write agree_writes(1))

lemma agree_identity: "agree (\<lambda>s. identity_apply E ty d s) (\<lambda>s. identity_apply E ty d s)"
  unfolding identity_apply_def by (intro agree_intros refl agree_writes; assumption?)

lemma agree_workspace: "agree (\<lambda>s. workspace_apply E ty d s) (\<lambda>s. workspace_apply E ty d s)"
  unfolding workspace_apply_def save_workspace_of_def split_def
  by (intro agree_intros refl agree_writes; assumption?)

lemma agree_job: "agree (\<lambda>s. job_apply E ty d s) (\<lambda>s. job_apply E ty d s)"
  unfolding job_apply_def by (intro agree_intros refl agree_writes; assumption?)

lemma agree_after_write:
  fixes f :: "'c read_model \<Rightarrow> 'c read_model"
  assumes f: "\<And>s t. docs s = docs t \<Longrightarrow> docs (f s) = docs (f t)"
  shows "agree (\<lambda>s. with_res r (f s) (\<lambda>x. (Ok (), broadcast tp (m x) (f s))))
    (\<lambda>s. with_res r (f s) (\<lambda>x. (Ok (), broadcast tp (m x) (f s))))"
  unfolding agree_def
proof (intro allI impI)
  fix s t :: "'c read_model" assume d: "docs s = docs t"
  show "fst (with_res r (f s) (\<lambda>x. (Ok (), broadcast tp (m x) (f s)))) =
      fst (with_res r (f t) (\<lambda>x. (Ok (), broadcast tp (m x) (f t)))) \<and>
    docs (snd (with_res r (f s) (\<lambda>x. (Ok (), broadcast tp (m x) (f s))))) =
      docs (snd (with_res r (f t) (\<lambda>x. (Ok (), broadcast tp (m x) (f t)))))"
    using f [OF d] by (cases r) (simp_all add: with_res_def)
qed

lemma agree_bucket: "agree (\<lambda>s. bucket_apply E ty d s) (\<lambda>s. bucket_apply E ty d s)"
  unfolding bucket_apply_def Let_def
  by (intro agree_if agree_with_field agree_return agree_after_write agree_write agree_writes)

lemma agree_choreography: "agree (\<lambda>s. choreography_apply E ty d s) (\<lambda>s. choreography_apply E ty d s)"
  unfolding choreography_apply_def save_choreography_of_def
  by (intro agree_intros refl agree_writes; assumption?)

lemma agree_apply_event: "agree (\<lambda>s. apply_event E fresh ty d s) (\<lambda>s. apply_event E fresh' ty d s)"
  unfolding apply_event_def route_def
  by (intro agree_if agree_return agree_and_then agree_activity_record agree_compute agree_identity agree_workspace
      agree_job agree_bucket agree_choreography)

end
