(* ===== verification/Subscriber.thy ===== *)
theory Subscriber
  imports Projector
begin

text \<open>
  How events reach the projector: the ingestion socket that appends a node's events to the
  event store (\<open>axo_vem/infrastructure/transport/zmq_ingestion/router_server.py\<close>,
  \<open>axo_vem/domain/events/stream_naming.py\<close>, \<open>infrastructure/resilience/retry.py\<close>) and the
  catch-up subscription that applies them and moves its checkpoint
  (\<open>infrastructure/database/kurrent/subscriber.py\<close>,
  \<open>infrastructure/database/mongo/checkpoint_store.py\<close>).

  The event store is not part of the repository: what an append returns is a parameter, and a
  subscription from a position delivers the log's later records in order.
\<close>

section \<open>Retries\<close>

text \<open>
  \<open>retry_with_backoff\<close>: \<open>op n\<close> is what the n-th call of the operation does. The result is its
  value, or the exception that ended the loop, with the delays slept.
\<close>

function retry_with_backoff ::
  "(nat \<Rightarrow> 'a res) \<Rightarrow> nat \<Rightarrow> flt \<Rightarrow> flt \<Rightarrow> nat \<Rightarrow> 'a res \<times> flt list" where
  "retry_with_backoff op max_attempts base_delay max_delay attempt =
    (case op attempt of
       Ok x \<Rightarrow> (Ok x, [])
     | failed \<Rightarrow>
         if max_attempts \<le> attempt then (failed, [])
         else (case backoff base_delay attempt of
                 Ok d \<Rightarrow>
                   (let (r, ds) = retry_with_backoff op max_attempts base_delay max_delay (attempt + 1)
                    in (r, min d max_delay # ds))
               | Err e \<Rightarrow> (Err e, [])
               | Raise ex \<Rightarrow> (Raise ex, [])))"
  by pat_completeness auto

termination
  by (relation "measure (\<lambda>(_, m, _, _, a). m - a)") auto

declare retry_with_backoff.simps [simp del]

section \<open>Ingestion\<close>

definition stream_name_for :: "json \<Rightarrow> json \<Rightarrow> json \<Rightarrow> string res" where
  "stream_name_for event_type endpoint_id data =
    (case event_type of
       JStr ty \<Rightarrow>
         if ty \<in> set endpoint_event_types then Ok (''endpoints-'' @ py_str endpoint_id)
         else if ty \<in> set (function_event_types @ [''FunctionDeleted'', ''FunctionDeleteFailed'', ''FunctionEndpointDetached'']) then
           bind_res (item data ''function_id'') (\<lambda>f.
           bind_res (item data ''version'') (\<lambda>v. Ok (''functions-'' @ py_str f @ ''-'' @ py_str v)))
         else if ty \<in> set [''FunctionBuildStarted'', ''FunctionBuildCompleted'', ''FunctionBuildFailed''] then
           bind_res (object_of data) (\<lambda>d.
             if py_truthy (jget d ''function_id'') then Ok (''functions-'' @ py_str (jget d ''function_id''))
             else bind_res (item data ''python_version'') (\<lambda>v. Ok (''functions-base-image-py'' @ py_str v)))
         else if ty \<in> set consensus_event_types then Ok (''consensus-'' @ py_str endpoint_id)
         else if ty \<in> set job_event_types then
           bind_res (item data ''function_id'') (\<lambda>f. Ok (''activity-'' @ py_str f))
         else if ty = ''DataBucketCreated'' then
           bind_res (item data ''name'') (\<lambda>n. Ok (''buckets-'' @ py_str n))
         else if ty \<in> set [''DataRegistered'', ''DataUploadCompleted'', ''DataDeleted''] then
           bind_res (bind_res (item data ''name'') name_of) (\<lambda>n. Ok (''buckets-'' @ bucket_part n))
         else Raise ValueError
     | _ \<Rightarrow> Raise ValueError)"

text \<open>
  \<open>_handle_frames\<close>: a frame is dropped, or appended and acknowledged, or its exception leaves
  the receive loop and ends the thread. \<open>put_event s ty d n\<close> is the n-th try of an append.
\<close>

datatype ingestion =
    Dropped
  | Appended string json json
  | Thread_Dead py_exc

definition append_with_retry ::
  "(string \<Rightarrow> json \<Rightarrow> json \<Rightarrow> nat \<Rightarrow> unit res) \<Rightarrow> nat \<Rightarrow> flt \<Rightarrow> flt \<Rightarrow> string \<Rightarrow> json \<Rightarrow> json \<Rightarrow> bool" where
  "append_with_retry put_event max_attempts base_delay max_delay stream ty data =
    is_ok (fst (retry_with_backoff (put_event stream ty data) max_attempts base_delay max_delay 1))"

definition handle_frames ::
  "(string \<Rightarrow> json \<Rightarrow> json \<Rightarrow> nat \<Rightarrow> unit res) \<Rightarrow> nat \<Rightarrow> flt \<Rightarrow> flt \<Rightarrow> bytes list \<Rightarrow> ingestion" where
  "handle_frames put_event max_attempts base_delay max_delay frames =
    (case frames of
       [] \<Rightarrow> Dropped
     | [_] \<Rightarrow> Dropped
     | _ # body \<Rightarrow>
         (case decode_command body of
            Err _ \<Rightarrow> Dropped
          | Raise ex \<Rightarrow> Thread_Dead ex
          | Ok c \<Rightarrow>
              (case decode_event c of
                 Err _ \<Rightarrow> Dropped
               | Raise ex \<Rightarrow> Thread_Dead ex
               | Ok (ty, ep, data) \<Rightarrow>
                   (case stream_name_for ty ep data of
                      Ok stream \<Rightarrow>
                        if append_with_retry put_event max_attempts base_delay max_delay stream ty data
                        then Appended stream ty data else Dropped
                    | Err e \<Rightarrow> Thread_Dead (PyRaised e)
                    | Raise ex \<Rightarrow> Thread_Dead ex))))"

section \<open>The subscription\<close>

record recorded =
  rec_type :: string
  rec_data :: bytes
  rec_position :: int

text \<open>
  The checkpoint is the document \<open>main\<close> of its own collection; its position is all that is read
  of it. \<open>fresh\<close> gives the identity of an event that the projection of a record publishes.
\<close>

record 'c projection =
  model :: "'c read_model"
  position :: "int option"

definition apply_record ::
  "'c vem \<Rightarrow> (recorded \<Rightarrow> string \<times> string) \<Rightarrow> recorded \<Rightarrow> 'c projection \<Rightarrow> unit res \<times> 'c projection" where
  "apply_record E fresh r p =
    (case loads_bytes (rec_data r) of
       Ok (JObj d) \<Rightarrow>
         (case apply_event E (fresh r) (rec_type r) d (model p) of
            (Ok _, s) \<Rightarrow> (Ok (), \<lparr>model = s, position = Some (rec_position r)\<rparr>)
          | (Err e, s) \<Rightarrow> (Err e, p\<lparr>model := s\<rparr>)
          | (Raise ex, s) \<Rightarrow> (Raise ex, p\<lparr>model := s\<rparr>))
     | Ok _ \<Rightarrow> (Raise (if rec_type r \<in> set all_known_event_types then TypeError else ValueError), p)
     | Err e \<Rightarrow> (Err e, p)
     | Raise ex \<Rightarrow> (Raise ex, p))"

text \<open>The loop over a subscription: an exception of one record is logged and the next is taken.\<close>

definition consume ::
  "'c vem \<Rightarrow> (recorded \<Rightarrow> string \<times> string) \<Rightarrow> recorded list \<Rightarrow> 'c projection \<Rightarrow> 'c projection" where
  "consume E fresh rs p = fold (\<lambda>r p. snd (apply_record E fresh r p)) rs p"

text \<open>What a subscription that starts from the checkpoint delivers of the log.\<close>

definition pending :: "recorded list \<Rightarrow> 'c projection \<Rightarrow> recorded list" where
  "pending log p = filter (\<lambda>r. case position p of None \<Rightarrow> True | Some i \<Rightarrow> i < rec_position r) log"

text \<open>A crash after the record was applied and before the checkpoint was written.\<close>

definition crash_in :: "'c vem \<Rightarrow> (recorded \<Rightarrow> string \<times> string) \<Rightarrow> recorded \<Rightarrow> 'c projection \<Rightarrow> 'c projection" where
  "crash_in E fresh r p = p\<lparr>model := model (snd (apply_record E fresh r p))\<rparr>"

section \<open>Redelivery\<close>

lemma agree_apply_record:
  assumes "docs (model p) = docs (model q)" and "position p = position q"
  shows "docs (model (snd (apply_record E f r p))) = docs (model (snd (apply_record E f' r q))) \<and>
    position (snd (apply_record E f r p)) = position (snd (apply_record E f' r q)) \<and>
    fst (apply_record E f r p) = fst (apply_record E f' r q)"
proof -
  have a: "fst (apply_event E (f r) ty d (model p)) = fst (apply_event E (f' r) ty d (model q)) \<and>
      docs (snd (apply_event E (f r) ty d (model p))) = docs (snd (apply_event E (f' r) ty d (model q)))" for ty d
    using agree_apply_event [of E "f r" ty d "f' r"] assms(1) by (auto simp: agree_def)
  show ?thesis
  proof (cases "loads_bytes (rec_data r)")
    case (Ok v)
    show ?thesis
    proof (cases v)
      case (JObj d)
      show ?thesis using a [of "rec_type r" d] assms Ok JObj
        by (cases "apply_event E (f r) (rec_type r) d (model p)";
            cases "apply_event E (f' r) (rec_type r) d (model q)")
          (auto simp: apply_record_def split: res.split)
    qed (use assms Ok in \<open>simp_all add: apply_record_def\<close>)
  qed (use assms in \<open>simp_all add: apply_record_def\<close>)
qed

lemma agree_consume:
  "docs (model p) = docs (model q) \<Longrightarrow> position p = position q \<Longrightarrow>
    docs (model (consume E f rs p)) = docs (model (consume E f' rs q)) \<and>
    position (consume E f rs p) = position (consume E f' rs q)"
proof (induction rs arbitrary: p q)
  case (Cons r rs)
  then show ?case using agree_apply_record [OF Cons.prems, of E f r f'] by (simp add: consume_def)
qed (simp add: consume_def)

text \<open>The projection of a record over views.\<close>

definition projection_view :: "'c vem \<Rightarrow> 'c projection \<Rightarrow> coll projection" where
  "projection_view E p = \<lparr>model = rm_view E (model p), position = position p\<rparr>"

lemma apply_event_view_of:
  assumes "mongo_ok (db E)"
  shows "apply_event (map_env E) fresh ty d (rm_view E s) = lift E (apply_event E fresh ty d s)"
  using collections.apply_event_view [OF collections.intro [OF assms] refl] by metis

lemma apply_record_view:
  assumes "mongo_ok (db E)"
  shows "snd (apply_record (map_env E) f r (projection_view E p)) = projection_view E (snd (apply_record E f r p))"
proof (cases "loads_bytes (rec_data r)")
  case (Ok v)
  show ?thesis
  proof (cases v)
    case (JObj d)
    show ?thesis using apply_event_view_of [OF assms, of "f r" "rec_type r" d "model p"] Ok JObj
      by (cases "apply_event E (f r) (rec_type r) d (model p)")
        (simp add: apply_record_def projection_view_def lift_def split: res.split)
  qed (use Ok in \<open>simp_all add: apply_record_def\<close>)
qed (simp_all add: apply_record_def)

lemma consume_view:
  assumes "mongo_ok (db E)"
  shows "projection_view E (consume E f rs p) = consume (map_env E) f rs (projection_view E p)"
  by (induction rs arbitrary: p) (simp_all add: consume_def apply_record_view [OF assms])

lemma crash_view:
  assumes "mongo_ok (db E)"
  shows "projection_view E (crash_in E f r p) = crash_in (map_env E) f r (projection_view E p)"
  by (simp add: crash_in_def apply_record_view [OF assms]) (simp add: projection_view_def)

text \<open>Applying a record again, from where the crash left the model.\<close>

lemma apply_record_after_crash:
  fixes E :: "coll vem"
  assumes E: "db E = map_mongo" "graph_roundtrip E"
  shows "docs (model (snd (apply_record E f' r (crash_in E f r p)))) = docs (model (snd (apply_record E f r p))) \<and>
    position (snd (apply_record E f' r (crash_in E f r p))) = position (snd (apply_record E f r p))"
proof -
  let ?q = "crash_in E f r p"
  have new: "docs (model (snd (apply_record E f' r ?q))) = docs (model (snd (apply_record E f r ?q))) \<and>
      position (snd (apply_record E f' r ?q)) = position (snd (apply_record E f r ?q))"
    using agree_apply_record [OF refl refl] by blast
  show ?thesis
  proof (cases "loads_bytes (rec_data r)")
    case (Ok v)
    show ?thesis
    proof (cases v)
      case (JObj d)
      let ?h = "apply_event E (f r) (rec_type r) d"
      have "seen (?h (snd (?h (model p)))) = seen (?h (model p))"
        using roundtrip_env.settles_apply_event [OF roundtrip_env.intro [OF view_env.intro [OF E(1)] roundtrip_env_axioms.intro [OF E(2)]], of "f r" "rec_type r" d] by (simp add: settles_def)
      then have "docs (model (snd (apply_record E f r ?q))) = docs (model (snd (apply_record E f r p))) \<and>
          position (snd (apply_record E f r ?q)) = position (snd (apply_record E f r p))"
        using Ok JObj
        by (cases "?h (model p)"; cases "?h (snd (?h (model p)))")
          (auto simp: apply_record_def crash_in_def seen_def split: res.split)
      then show ?thesis using new by simp
    qed (use Ok in \<open>simp_all add: apply_record_def crash_in_def\<close>)
  qed (simp_all add: apply_record_def crash_in_def)
qed

lemma redelivered:
  assumes "mongo_ok (db E)" and "graph_roundtrip E"
  shows "docs (rm_view E (model (consume E fresh' (r # rs) (crash_in E fresh r p)))) =
      docs (rm_view E (model (consume E fresh (r # rs) p))) \<and>
    position (consume E fresh' (r # rs) (crash_in E fresh r p)) = position (consume E fresh (r # rs) p)"
proof -
  let ?M = "map_env E" and ?p = "projection_view E p"
  have g: "graph_roundtrip ?M" using assms(2) by (simp add: graph_roundtrip_def)
  let ?a = "snd (apply_record ?M fresh' r (crash_in ?M fresh r ?p))" and ?b = "snd (apply_record ?M fresh r ?p)"
  have "docs (model (consume ?M fresh' rs ?a)) = docs (model (consume ?M fresh rs ?b)) \<and>
      position (consume ?M fresh' rs ?a) = position (consume ?M fresh rs ?b)"
    using apply_record_after_crash [of ?M fresh' r fresh ?p] g by (intro agree_consume) simp_all
  then have "docs (model (consume ?M fresh' (r # rs) (crash_in ?M fresh r ?p))) =
        docs (model (consume ?M fresh (r # rs) ?p)) \<and>
      position (consume ?M fresh' (r # rs) (crash_in ?M fresh r ?p)) = position (consume ?M fresh (r # rs) ?p)"
    by (simp add: consume_def)
  then show ?thesis
    by (simp flip: consume_view [OF assms(1)] crash_view [OF assms(1)]) (simp add: projection_view_def)
qed


text \<open>An empty read model in memory, and a log of three events of one function.\<close>

definition mem_env :: "mem_coll vem" where
  "mem_env = \<lparr>db = mem_mongo, parse_graph = (\<lambda>j. if j = JStr ''diamond'' then Some diamond else None),
     dump_graph = (\<lambda>g. JStr ''diamond''), parse_time = (\<lambda>t. Some (JStr t))\<rparr>"

lemma mem_env_ok: "mongo_ok (db mem_env)" "graph_roundtrip mem_env"
  by (auto simp: mem_env_def mem_mongo_ok graph_roundtrip_def split: if_splits)

interpretation mem_graphs: roundtrip_env "map_env mem_env"
  using mem_env_ok(2) by unfold_locales (simp_all add: graph_roundtrip_def)

definition empty_model :: "mem_coll read_model" where
  "empty_model = \<lparr>endpoints = [], function_docs = [], consensus = [], profiles = [], workspaces = [], jobs = [],
     buckets = [], items = [], choreographies = [], activity = [], published = [], broadcasts = []\<rparr>"

definition function_event :: "string \<Rightarrow> int \<Rightarrow> recorded" where
  "function_event ty i = \<lparr>rec_type = ty,
     rec_data = dumps_bytes (JObj [(''event_id'', JStr (str_int i)), (''created_at'', JStr ''t''),
       (''function_id'', JStr ''f''), (''version'', JInt 1), (''endpoint_id'', JStr ''node-1'')]),
     rec_position = i\<rparr>"


end
