(* ===== verification/Use_Cases.thy ===== *)
theory Use_Cases
  imports Subscriber
begin

text \<open>
  The use cases of the virtual environment manager (\<open>axo_vem/application\<close>): functions and jobs
  are commands sent to a node (\<open>infrastructure/transport/zmq_command/endpoint_client.py\<close>),
  virtual environments, profiles and purged endpoints are events appended to the event store,
  and the liveness worker (\<open>endpoint_liveness_worker.py\<close>) turns pings into events. A command's
  reply is a parameter \<open>send uri command w\<close> that also moves the world outside, \<open>w\<close>.

  A use case returns what it returns, the domain error it raises, or an exception of the
  interpreter. The identity and time of the n-th event published are \<open>fresh n\<close>.
\<close>

section \<open>Sending a command\<close>

type_synonym 'w net = "string \<Rightarrow> command \<Rightarrow> 'w \<Rightarrow> command_result res \<times> 'w"

definition resolve_rpc_uri :: "string \<Rightarrow> string \<Rightarrow> string" where
  "resolve_rpc_uri bind_address endpoint_id =
    ''tcp://'' @ endpoint_id @ '':'' @ last (py_split (CHR '':'') bind_address)"

text \<open>\<open>resolve_rpc_uri(endpoint.router_bind, endpoint.endpoint_id)\<close>.\<close>

definition rpc_uri :: "json \<Rightarrow> json \<Rightarrow> string res" where
  "rpc_uri bind i = (case bind of JStr b \<Rightarrow> Ok (resolve_rpc_uri b (py_str i)) | _ \<Rightarrow> Raise AttributeError)"

definition json_command :: "string \<Rightarrow> (string, json) dict \<Rightarrow> command" where
  "json_command op env = \<lparr>operation = op, content_type = ''application/json'', envelope = JObj env, payload = []\<rparr>"

text \<open>\<open>**(command_result.metadata or {})\<close>.\<close>

definition metadata_of :: "command_result \<Rightarrow> (string, json) dict res" where
  "metadata_of r = (if \<not> py_truthy (cr_metadata r) then Ok []
     else case cr_metadata r of JObj d \<Rightarrow> Ok d | _ \<Rightarrow> Raise TypeError)"

text \<open>The tail shared by the use cases that relay one command.\<close>

definition relay ::
  "'w net \<Rightarrow> string \<Rightarrow> command \<Rightarrow> (string, json) dict \<Rightarrow> 'w \<Rightarrow> (string, json) dict outcome \<times> 'w" where
  "relay send uri c base w =
    (case send uri c w of
       (Err e, w') \<Rightarrow> (Refused (UpstreamTimeoutError (err_msg e)), w')
     | (Raise ex, w') \<Rightarrow> (Crashed ex, w')
     | (Ok r, w') \<Rightarrow>
         if \<not> cr_ok r then (Refused (ConflictError (cr_error r)), w')
         else (then_do (metadata_of r) (\<lambda>m. Done (dmerge base m)), w'))"

section \<open>Functions\<close>

definition compute_function_id :: "(string \<Rightarrow> string) \<Rightarrow> string \<Rightarrow> string \<Rightarrow> string \<Rightarrow> string" where
  "compute_function_id sha256 user_id virtual_environment_id name =
    sha256 (utf8_encode (user_id @ '':'' @ virtual_environment_id @ '':'' @ name))"

definition register_function_use_case ::
  "'c vem \<Rightarrow> 'w net \<Rightarrow> (string \<Rightarrow> string) \<Rightarrow> 'c read_model \<Rightarrow> string \<Rightarrow> string \<Rightarrow> string \<Rightarrow> bytes \<Rightarrow>
   (string, json) dict option \<Rightarrow> json list \<Rightarrow> 'w \<Rightarrow> (string, json) dict outcome \<times> 'w" where
  "register_function_use_case E send sha256 s ve user name code runtime_spec params_schema w =
    (case workspace_get E s (JStr ve) of
       Err e \<Rightarrow> (Crashed (PyRaised e), w)
     | Raise ex \<Rightarrow> (Crashed ex, w)
     | Ok None \<Rightarrow> (Refused (NotFoundError ''virtual environment not found''), w)
     | Ok (Some v) \<Rightarrow>
         if ws_owner v \<noteq> JStr user then
           (Refused (NotOwnerError (user @ '' is not the owner of virtual environment '' @ py_str (ws_id v))), w)
         else
           (case endpoints_of_ve E s (JStr ve) of
              [] \<Rightarrow> (Refused (ConflictError ''no endpoint assigned to this virtual environment''), w)
            | ep # _ \<Rightarrow>
                if \<not> py_truthy (ep_router_bind ep) then
                  (Refused (ConflictError (''endpoint '' @ py_str (ep_id ep) @ '' has no known router_bind'')), w)
                else
                  (case rpc_uri (ep_router_bind ep) (ep_id ep) of
                     Ok uri \<Rightarrow>
                       relay send uri
                         \<lparr>operation = ''FUNCTION_REGISTER'', content_type = ''application/octet-stream'',
                          envelope = JObj (
                            [(''function_id'', JStr (compute_function_id sha256 user ve name)),
                             (''name'', JStr name), (''code_format'', JStr ''source'')]
                            @ (case runtime_spec of None \<Rightarrow> [] | Some sp \<Rightarrow> [(''runtime_spec'', JObj sp)])
                            @ (if params_schema = [] then [] else [(''params_schema'', JList params_schema)])),
                          payload = code\<rparr>
                         [(''endpoint_id'', ep_id ep), (''name'', JStr name)] w
                   | Err e \<Rightarrow> (Crashed (PyRaised e), w)
                   | Raise ex \<Rightarrow> (Crashed ex, w))))"

text \<open>
  The loop over the endpoints that hold a function: an endpoint that is not known or not
  reachable is skipped, the first reply decides.
\<close>

fun try_endpoints ::
  "'c vem \<Rightarrow> 'w net \<Rightarrow> 'c read_model \<Rightarrow> command \<Rightarrow> (string, json) dict \<Rightarrow> json list \<Rightarrow> string option \<Rightarrow> 'w \<Rightarrow>
   (string, json) dict outcome \<times> 'w" where
  "try_endpoints E send s c reply [] last_error w =
    (Refused (UpstreamTimeoutError (case last_error of
       None \<Rightarrow> ''no recorded endpoint was reachable''
     | Some e \<Rightarrow> if e = [] then ''no recorded endpoint was reachable'' else e)), w)"
| "try_endpoints E send s c reply (i # is') last_error w =
    (case endpoint_get E s i of
       None \<Rightarrow> try_endpoints E send s c reply is' (Some (''endpoint '' @ py_str i @ '' is unreachable'')) w
     | Some ep \<Rightarrow>
         if \<not> py_truthy (ep_router_bind ep) then
           try_endpoints E send s c reply is' (Some (''endpoint '' @ py_str i @ '' is unreachable'')) w
         else
           (case rpc_uri (ep_router_bind ep) (ep_id ep) of
              Ok uri \<Rightarrow>
                (case send uri c w of
                   (Err e, w') \<Rightarrow> try_endpoints E send s c reply is' (Some (err_msg e)) w'
                 | (Raise ex, w') \<Rightarrow> (Crashed ex, w')
                 | (Ok r, w') \<Rightarrow>
                     if cr_ok r then (Done reply, w') else (Refused (ConflictError (cr_error r)), w'))
            | Err e \<Rightarrow> (Crashed (PyRaised e), w)
            | Raise ex \<Rightarrow> (Crashed ex, w)))"

definition try_holders ::
  "'c vem \<Rightarrow> 'w net \<Rightarrow> 'c read_model \<Rightarrow> command \<Rightarrow> (string, json) dict \<Rightarrow> json \<Rightarrow> 'w \<Rightarrow>
   (string, json) dict outcome \<times> 'w" where
  "try_holders E send s c reply holders w =
    (if \<not> py_truthy holders then
       (Refused (ConflictError ''function has no recorded endpoint to route this request to''), w)
     else case holders of
       JList is' \<Rightarrow> try_endpoints E send s c reply is' None w
     | _ \<Rightarrow> (Crashed TypeError, w))"

definition version_reply :: "string \<Rightarrow> int \<Rightarrow> (string, json) dict" where
  "version_reply function_id version = [(''function_id'', JStr function_id), (''version'', JInt version)]"

definition update_function_use_case ::
  "'c vem \<Rightarrow> 'w net \<Rightarrow> 'c read_model \<Rightarrow> string \<Rightarrow> int \<Rightarrow> json list \<Rightarrow> (string, json) dict \<Rightarrow> 'w \<Rightarrow>
   (string, json) dict outcome \<times> 'w" where
  "update_function_use_case E send s function_id version params_schema env_vars w =
    (case function_get E s (JStr function_id) (JInt version) of
       Err e \<Rightarrow> (Crashed (PyRaised e), w)
     | Raise ex \<Rightarrow> (Crashed ex, w)
     | Ok None \<Rightarrow> (Refused (NotFoundError ''function version not found''), w)
     | Ok (Some f) \<Rightarrow>
         try_holders E send s
           (json_command ''FUNCTION_UPDATE'' (version_reply function_id version
              @ (if params_schema = [] then [] else [(''params_schema'', JList params_schema)])
              @ (if env_vars = [] then [] else [(''env_vars'', JObj env_vars)])))
           (version_reply function_id version) (fv_endpoints f) w)"

definition delete_function_use_case ::
  "'c vem \<Rightarrow> 'w net \<Rightarrow> 'c read_model \<Rightarrow> string \<Rightarrow> int \<Rightarrow> 'w \<Rightarrow> (string, json) dict outcome \<times> 'w" where
  "delete_function_use_case E send s function_id version w =
    (case function_get E s (JStr function_id) (JInt version) of
       Err e \<Rightarrow> (Crashed (PyRaised e), w)
     | Raise ex \<Rightarrow> (Crashed ex, w)
     | Ok None \<Rightarrow> (Refused (NotFoundError ''function version not found''), w)
     | Ok (Some f) \<Rightarrow>
         if fv_container_status f = JStr ''running'' then
           (Refused (ConflictError ''function has a live deployed container -- stop it before deleting''), w)
         else
           (case jobs_of_function E s (JStr function_id) (JInt version) of
              Err e \<Rightarrow> (Crashed (PyRaised e), w)
            | Raise ex \<Rightarrow> (Crashed ex, w)
            | Ok js \<Rightarrow>
                if list_ex (\<lambda>j. job_state j = QUEUED \<or> job_state j = STARTED) js then
                  (Refused (ConflictError
                     ''function has jobs still queued or running -- wait for them to finish before deleting''), w)
                else try_holders E send s
                       (json_command ''FUNCTION_DELETE'' (version_reply function_id version))
                       (version_reply function_id version) (fv_endpoints f) w))"

definition purge_function_version ::
  "'c vem \<Rightarrow> string \<Rightarrow> int \<Rightarrow> 'c read_model \<Rightarrow> (string, json) dict outcome \<times> 'c read_model" where
  "purge_function_version E function_id version s =
    (let key = function_key (JStr function_id) (JInt version) in
     case find_one (db E) key (function_docs s) of
       None \<Rightarrow> (Refused (NotFoundError ''function version not found''), s)
     | Some d \<Rightarrow>
         if doc_get d ''deleted_at'' = JNull then
           (Refused (ConflictError ''function version is not deleted yet''), s)
         else
           let s1 = s\<lparr>function_docs := delete_one (db E) key (function_docs s)\<rparr>;
               (n, s2) = activity_purge E [([''meta'', ''function_id''], JStr function_id),
                                           ([''meta'', ''function_version''], JInt version)] s1
           in (Done (version_reply function_id version @ [(''purged_activity_count'', JInt (int n))]), s2))"

section \<open>Jobs\<close>

definition resolve_endpoint_id :: "'c vem \<Rightarrow> 'c read_model \<Rightarrow> json \<Rightarrow> json outcome" where
  "resolve_endpoint_id E s ve =
    then_do (workspace_get E s ve) (\<lambda>v.
      let leader = (case v of None \<Rightarrow> JNull | Some w \<Rightarrow> ws_leader w);
          member = (leader \<noteq> JNull \<and>
            (case endpoint_get E s leader of None \<Rightarrow> False | Some ep \<Rightarrow> ep_ve ep = ve))
      in if member then Done leader
         else case endpoints_of_ve E s ve of
                [] \<Rightarrow> Refused (ConflictError ''no endpoint assigned to this virtual environment'')
              | ep # _ \<Rightarrow> Done (ep_id ep))"

definition submit_function_job ::
  "'c vem \<Rightarrow> 'w net \<Rightarrow> 'c read_model \<Rightarrow> json \<Rightarrow> json \<Rightarrow> (string, json) dict \<Rightarrow> 'w \<Rightarrow>
   (string, json) dict outcome \<times> 'w" where
  "submit_function_job E send s function_id version params w =
    (case function_get E s function_id version of
       Err e \<Rightarrow> (Crashed (PyRaised e), w)
     | Raise ex \<Rightarrow> (Crashed ex, w)
     | Ok None \<Rightarrow> (Refused (NotFoundError ''function not found''), w)
     | Ok (Some f) \<Rightarrow>
         if fv_deleted_at f \<noteq> JNull then (Refused (NotFoundError ''function not found''), w)
         else if fv_ve f = JNull then
           (Refused (ConflictError ''function is not assigned to a virtual environment''), w)
         else
           (case resolve_endpoint_id E s (fv_ve f) of
              Refused e \<Rightarrow> (Refused e, w)
            | Crashed ex \<Rightarrow> (Crashed ex, w)
            | Done i \<Rightarrow>
                let bind = (case endpoint_get E s i of None \<Rightarrow> JNull | Some ep \<Rightarrow> ep_router_bind ep) in
                if \<not> py_truthy bind then
                  (Refused (ConflictError (''endpoint '' @ py_str i @ '' has no known router_bind'')), w)
                else
                  (case rpc_uri bind i of
                     Ok uri \<Rightarrow>
                       relay send uri
                         (json_command ''JOB_SUBMIT''
                            [(''function_id'', function_id), (''function_name'', JNull),
                             (''function_version'', version), (''params'', JObj params)])
                         [(''endpoint_id'', i)] w
                   | Err e \<Rightarrow> (Crashed (PyRaised e), w)
                   | Raise ex \<Rightarrow> (Crashed ex, w))))"

section \<open>Virtual environments\<close>

text \<open>\<open>event.model_dump(mode="json")\<close>: the envelope with the event's own fields.\<close>

definition event_dump :: "string \<times> string \<Rightarrow> (string, json) dict \<Rightarrow> event_data" where
  "event_dump fresh own = dmerge (envelope_fields fresh) own"

definition next_fresh :: "(nat \<Rightarrow> string \<times> string) \<Rightarrow> 'c read_model \<Rightarrow> string \<times> string" where
  "next_fresh fresh s = fresh (length (published s))"

definition quota_json :: "flt \<Rightarrow> int \<Rightarrow> int \<Rightarrow> json" where
  "quota_json cpu ram disk = JObj [(''cpu'', JFloat cpu), (''ram'', JInt ram), (''disk'', JInt disk)]"

definition ve_stream :: "string \<Rightarrow> string" where
  "ve_stream i = ''virtual-environments-'' @ i"

definition create_virtual_environment ::
  "(nat \<Rightarrow> string \<times> string) \<Rightarrow> string \<Rightarrow> string \<Rightarrow> string \<Rightarrow> flt \<Rightarrow> int \<Rightarrow> int \<Rightarrow> 'c read_model \<Rightarrow>
   event_data outcome \<times> 'c read_model" where
  "create_virtual_environment fresh new_id name owner cpu ram disk s =
    (let data = event_dump (next_fresh fresh s)
           [(''virtual_environment_id'', JStr new_id), (''name'', JStr name), (''owner_user_id'', JStr owner),
            (''resource_quota'', quota_json cpu ram disk)]
     in (Done data, publish (ve_stream new_id) ''VirtualEnvironmentCreated'' data s))"

definition not_ve_owner :: "string \<Rightarrow> workspace \<Rightarrow> domain_error" where
  "not_ve_owner user w = NotOwnerError (user @ '' is not the owner of virtual environment '' @ py_str (ws_id w))"

definition update_virtual_environment ::
  "'c vem \<Rightarrow> (nat \<Rightarrow> string \<times> string) \<Rightarrow> string \<Rightarrow> string \<Rightarrow> string \<Rightarrow> flt \<Rightarrow> int \<Rightarrow> int \<Rightarrow> 'c read_model \<Rightarrow>
   event_data outcome \<times> 'c read_model" where
  "update_virtual_environment E fresh ve user name cpu ram disk s =
    (case workspace_get E s (JStr ve) of
       Err e \<Rightarrow> (Crashed (PyRaised e), s)
     | Raise ex \<Rightarrow> (Crashed ex, s)
     | Ok None \<Rightarrow> (Refused (NotFoundError ''virtual environment not found''), s)
     | Ok (Some w) \<Rightarrow>
         if ws_owner w \<noteq> JStr user then (Refused (not_ve_owner user w), s)
         else let data = event_dump (next_fresh fresh s)
                    [(''virtual_environment_id'', JStr ve), (''name'', JStr name),
                     (''resource_quota'', quota_json cpu ram disk)]
              in (Done data, publish (ve_stream ve) ''VirtualEnvironmentUpdated'' data s))"

definition delete_virtual_environment ::
  "'c vem \<Rightarrow> (nat \<Rightarrow> string \<times> string) \<Rightarrow> string \<Rightarrow> string \<Rightarrow> 'c read_model \<Rightarrow> unit outcome \<times> 'c read_model" where
  "delete_virtual_environment E fresh ve user s =
    (case workspace_get E s (JStr ve) of
       Err e \<Rightarrow> (Crashed (PyRaised e), s)
     | Raise ex \<Rightarrow> (Crashed ex, s)
     | Ok None \<Rightarrow> (Refused (NotFoundError ''virtual environment not found''), s)
     | Ok (Some w) \<Rightarrow>
         if ws_owner w \<noteq> JStr user then (Refused (not_ve_owner user w), s)
         else if find_where (db E) [([''virtual_environment_id''], JStr ve)] [] (endpoints s) \<noteq> [] then
           (Refused (ConflictError ''virtual environment has endpoints assigned''), s)
         else (Done (), publish (ve_stream ve) ''VirtualEnvironmentDeleted''
                 (event_dump (next_fresh fresh s) [(''virtual_environment_id'', JStr ve)]) s))"

definition purge_virtual_environment ::
  "'c vem \<Rightarrow> string \<Rightarrow> string \<Rightarrow> 'c read_model \<Rightarrow> unit outcome \<times> 'c read_model" where
  "purge_virtual_environment E ve user s =
    (case find_one (db E) (JStr ve) (workspaces s) of
       None \<Rightarrow> (Refused (NotFoundError ''virtual environment not found''), s)
     | Some d \<Rightarrow>
         if doc_get d ''owner_user_id'' \<noteq> JStr user then
           (Refused (NotOwnerError ''caller does not own this virtual environment''), s)
         else if doc_get d ''deleted_at'' = JNull then
           (Refused (ConflictError ''virtual environment must be deleted first''), s)
         else (Done (), snd (activity_purge E [([''virtual_environment_id''], JStr ve)]
                (s\<lparr>workspaces := delete_one (db E) (JStr ve) (workspaces s)\<rparr>))))"

section \<open>Profiles\<close>

definition preferences_json :: "string option \<Rightarrow> string \<Rightarrow> string \<Rightarrow> int \<Rightarrow> int \<Rightarrow> json" where
  "preferences_json color view_mode language window eligible =
    JObj [(''color'', case color of None \<Rightarrow> JNull | Some c \<Rightarrow> JStr c), (''view_mode'', JStr view_mode),
          (''language'', JStr language), (''activity_window_minutes'', JInt window),
          (''endpoint_purge_eligible_after_minutes'', JInt eligible)]"

definition profile_event :: "string \<times> string \<Rightarrow> string \<Rightarrow> string \<Rightarrow> json \<Rightarrow> event_data" where
  "profile_event fresh user photo preferences =
    event_dump fresh [(''user_id'', JStr user), (''profile_photo'', JStr photo), (''preferences'', preferences)]"

definition profile_exists :: "'c vem \<Rightarrow> 'c read_model \<Rightarrow> string \<Rightarrow> bool" where
  "profile_exists E s user = (find_one (db E) (JStr user) (profiles s) \<noteq> None)"

definition create_profile ::
  "'c vem \<Rightarrow> (nat \<Rightarrow> string \<times> string) \<Rightarrow> string \<Rightarrow> string \<Rightarrow> json \<Rightarrow> 'c read_model \<Rightarrow> event_data outcome \<times> 'c read_model" where
  "create_profile E fresh user photo preferences s =
    (if profile_exists E s user then (Refused (ConflictError ''profile already exists''), s)
     else let data = profile_event (next_fresh fresh s) user photo preferences
          in (Done data, publish (''user-profiles-'' @ user) ''UserProfileCreated'' data s))"

definition update_profile ::
  "'c vem \<Rightarrow> (nat \<Rightarrow> string \<times> string) \<Rightarrow> string \<Rightarrow> string \<Rightarrow> json \<Rightarrow> 'c read_model \<Rightarrow> event_data outcome \<times> 'c read_model" where
  "update_profile E fresh user photo preferences s =
    (if \<not> profile_exists E s user then (Refused (NotFoundError ''profile not found''), s)
     else let data = profile_event (next_fresh fresh s) user photo preferences
          in (Done data, publish (''user-profiles-'' @ user) ''UserProfileUpdated'' data s))"

definition delete_profile ::
  "'c vem \<Rightarrow> (nat \<Rightarrow> string \<times> string) \<Rightarrow> string \<Rightarrow> 'c read_model \<Rightarrow> unit outcome \<times> 'c read_model" where
  "delete_profile E fresh user s =
    (if \<not> profile_exists E s user then (Refused (NotFoundError ''profile not found''), s)
     else (Done (), publish (''user-profiles-'' @ user) ''UserProfileDeleted''
             (event_dump (next_fresh fresh s) [(''user_id'', JStr user)]) s))"

section \<open>Endpoints\<close>

definition purge_message :: "string \<Rightarrow> job_status \<Rightarrow> string" where
  "purge_message endpoint_id st = ''endpoint '' @ endpoint_id @ '' was purged while this job was still ''
     @ (case st of QUEUED \<Rightarrow> ''queued'' | STARTED \<Rightarrow> ''started'' | COMPLETED \<Rightarrow> ''completed'' | FAILED \<Rightarrow> ''failed'')"

text \<open>\<open>_append\<close>: every event here has the fields its stream name reads.\<close>

definition append_event ::
  "(nat \<Rightarrow> string \<times> string) \<Rightarrow> string \<Rightarrow> string \<Rightarrow> (string, json) dict \<Rightarrow> 'c read_model \<Rightarrow> unit res \<times> 'c read_model" where
  "append_event fresh endpoint_id ty own s =
    (let data = event_dump (next_fresh fresh s) own
     in with_res (stream_name_for (JStr ty) (JStr endpoint_id) (JObj data)) s
          (\<lambda>stream. (Ok (), publish stream ty data s)))"

fun fail_jobs ::
  "(nat \<Rightarrow> string \<times> string) \<Rightarrow> string \<Rightarrow> function_version \<Rightarrow> job list \<Rightarrow> nat \<Rightarrow> 'c read_model \<Rightarrow> nat res \<times> 'c read_model" where
  "fail_jobs fresh endpoint_id f [] n s = (Ok n, s)"
| "fail_jobs fresh endpoint_id f (j # js) n s =
    (if \<not> (job_state j = QUEUED \<or> job_state j = STARTED) \<or> job_endpoint_id j \<noteq> JStr endpoint_id
     then fail_jobs fresh endpoint_id f js n s
     else
       (case append_event fresh endpoint_id ''JobFailed''
               [(''endpoint_id'', JStr endpoint_id), (''job_id'', job_id j), (''function_id'', fv_function_id f),
                (''failure'', JObj
                   [(''error_class'', JStr ''EndpointPurged''), (''error_code'', JInt 0),
                    (''component'', JStr ''axo_vem.purge_endpoint''),
                    (''message'', JStr (purge_message endpoint_id (job_state j))),
                    (''traceback'', JNull), (''is_transient'', JBool False)]),
                (''duration_ms'', job_duration_ms j)] s of
          (Ok _, s') \<Rightarrow> fail_jobs fresh endpoint_id f js (Suc n) s'
        | (Err e, s') \<Rightarrow> (Err e, s')
        | (Raise ex, s') \<Rightarrow> (Raise ex, s')))"

definition remaining_holders :: "function_version \<Rightarrow> string \<Rightarrow> json list res" where
  "remaining_holders f endpoint_id = (case fv_endpoints f of
     JList is' \<Rightarrow> Ok (filter (\<lambda>e. e \<noteq> JStr endpoint_id) is')
   | _ \<Rightarrow> Raise TypeError)"

fun release_functions ::
  "'c vem \<Rightarrow> (nat \<Rightarrow> string \<times> string) \<Rightarrow> string \<Rightarrow> function_version list \<Rightarrow> nat \<times> nat \<times> nat \<Rightarrow> 'c read_model \<Rightarrow>
   (nat \<times> nat \<times> nat) res \<times> 'c read_model" where
  "release_functions E fresh endpoint_id [] counts s = (Ok counts, s)"
| "release_functions E fresh endpoint_id (f # fs) (deleted, detached, failed) s =
    (case jobs_of_function E s (fv_function_id f) (fv_version f) of
       Err e \<Rightarrow> (Err e, s)
     | Raise ex \<Rightarrow> (Raise ex, s)
     | Ok js \<Rightarrow>
         (case fail_jobs fresh endpoint_id f js failed s of
            (Err e, s1) \<Rightarrow> (Err e, s1)
          | (Raise ex, s1) \<Rightarrow> (Raise ex, s1)
          | (Ok failed', s1) \<Rightarrow>
              (case remaining_holders f endpoint_id of
                 Err e \<Rightarrow> (Err e, s1)
               | Raise ex \<Rightarrow> (Raise ex, s1)
               | Ok rest \<Rightarrow>
                   let ty = (if rest \<noteq> [] then ''FunctionEndpointDetached'' else ''FunctionDeleted'') in
                   (case append_event fresh endpoint_id ty
                          [(''endpoint_id'', JStr endpoint_id), (''function_id'', fv_function_id f),
                           (''version'', fv_version f)] s1 of
                      (Err e, s2) \<Rightarrow> (Err e, s2)
                    | (Raise ex, s2) \<Rightarrow> (Raise ex, s2)
                    | (Ok _, s2) \<Rightarrow>
                        release_functions E fresh endpoint_id fs
                          (if rest \<noteq> [] then (deleted, Suc detached, failed')
                           else (Suc deleted, detached, failed')) s2))))"

definition purge_endpoint ::
  "'c vem \<Rightarrow> (nat \<Rightarrow> string \<times> string) \<Rightarrow> string \<Rightarrow> 'c read_model \<Rightarrow> (string, json) dict outcome \<times> 'c read_model" where
  "purge_endpoint E fresh endpoint_id s =
    (case find_one (db E) (JStr endpoint_id) (endpoints s) of
       None \<Rightarrow> (Refused (NotFoundError ''endpoint not found''), s)
     | Some d \<Rightarrow>
         if doc_get d ''status'' \<noteq> JStr ''stopped'' \<and> doc_get d ''status'' \<noteq> JStr ''unreachable'' then
           (Refused (ConflictError ''endpoint must be stopped or unreachable before it can be purged''), s)
         else
           (case functions_of_endpoint E s (JStr endpoint_id) of
              Err e \<Rightarrow> (Crashed (PyRaised e), s)
            | Raise ex \<Rightarrow> (Crashed ex, s)
            | Ok fs \<Rightarrow>
                (case release_functions E fresh endpoint_id fs (0, 0, 0) s of
                   (Err e, s1) \<Rightarrow> (Crashed (PyRaised e), s1)
                 | (Raise ex, s1) \<Rightarrow> (Crashed ex, s1)
                 | (Ok (deleted, detached, failed), s1) \<Rightarrow>
                     let s2 = s1\<lparr>endpoints := delete_one (db E) (JStr endpoint_id) (endpoints s1)\<rparr>;
                         (n, s3) = activity_purge E [([''endpoint_id''], JStr endpoint_id)] s2
                     in (Done [(''endpoint_id'', JStr endpoint_id), (''purged_activity_count'', JInt (int n)),
                           (''functions_marked_deleted'', JInt (int deleted)),
                           (''functions_detached'', JInt (int detached)),
                           (''jobs_force_failed'', JInt (int failed))], s3))))"

section \<open>Liveness\<close>

text \<open>
  One check of the liveness worker: \<open>None\<close> when there is no address to ping. The event it makes
  carries the endpoint and, when it was found dead, the time it was last seen.
\<close>

definition ping_endpoint :: "'w net \<Rightarrow> json \<Rightarrow> doc \<Rightarrow> 'w \<Rightarrow> bool option res \<times> 'w" where
  "ping_endpoint send k d w =
    (let bind = doc_get d ''router_bind'' in
     if \<not> py_truthy bind then (Ok None, w)
     else case rpc_uri bind k of
       Err e \<Rightarrow> (Err e, w)
     | Raise ex \<Rightarrow> (Raise ex, w)
     | Ok uri \<Rightarrow>
         (case send uri (json_command ''PING'' []) w of
            (Ok r, w') \<Rightarrow> (Ok (Some (cr_ok r)), w')
          | (Err _, w') \<Rightarrow> (Ok (Some False), w')
          | (Raise ex, w') \<Rightarrow> (Raise ex, w')))"

definition check_endpoint ::
  "'w net \<Rightarrow> (nat \<Rightarrow> string \<times> string) \<Rightarrow> bool \<Rightarrow> json \<Rightarrow> doc \<Rightarrow> 'c read_model \<times> 'w \<Rightarrow> unit res \<times> 'c read_model \<times> 'w" where
  "check_endpoint send fresh currently_unreachable k d sw =
    (let (s, w) = sw in
     case ping_endpoint send k d w of
       (Err e, w') \<Rightarrow> (Err e, s, w')
     | (Raise ex, w') \<Rightarrow> (Raise ex, s, w')
     | (Ok None, w') \<Rightarrow> (Ok (), s, w')
     | (Ok (Some reachable), w') \<Rightarrow>
         if currently_unreachable \<and> reachable then
           (Ok (), publish (''endpoints-'' @ py_str k) ''EndpointRecovered''
              (event_dump (next_fresh fresh s) [(''endpoint_id'', k)]) s, w')
         else if \<not> currently_unreachable \<and> \<not> reachable then
           (Ok (), publish (''endpoints-'' @ py_str k) ''EndpointUnreachable''
              (event_dump (next_fresh fresh s)
                 [(''endpoint_id'', k), (''last_seen_at'', doc_get d ''created_at'')]) s, w')
         else (Ok (), s, w'))"

section \<open>What the events of the manager do to the read model\<close>

text \<open>An event made here is known to the projector, is recorded and then routed.\<close>

lemma event_dump_fields:
  assumes "dict_ok own"
  shows "map_of (event_dump fresh own) k =
    (case map_of own k of None \<Rightarrow> map_of (envelope_fields fresh) k | Some v \<Rightarrow> Some v)"
  using assms by (simp add: event_dump_def map_of_dmerge)

lemma jget_map_of: "jget d k = (case map_of d k of None \<Rightarrow> JNull | Some v \<Rightarrow> v)"
  by (simp add: jget_def dget_def)

lemma apply_own_event:
  assumes "ty \<in> set all_known_event_types" and "parse_time E (snd fresh) = Some t"
    and "dict_ok own" and "map_of own ''event_id'' = None" and "map_of own ''created_at'' = None"
  shows "apply_event E fr ty (event_dump fresh own) s =
    route E fr ty (event_dump fresh own)
      (s\<lparr>activity := set_fields (db E) (JStr (fst fresh)) (activity_doc ty t (event_dump fresh own)) (activity s)\<rparr>)"
  using assms by (simp add: apply_event_def activity_record_def with_field_def event_dump_fields
    envelope_fields_def parse_created_at_def with_res_def and_then_def)

lemma view_after_set:
  assumes "mongo_ok (db E)"
  shows "find_one (db E) k (set_fields (db E) k' d c) =
    (if k = k' then Some ((case find_one (db E) k c of None \<Rightarrow> Map.empty | Some e \<Rightarrow> e) ++ d) else find_one (db E) k c)"
proof -
  have "find_one (db E) k (set_fields (db E) k' d c) = coll_set k' d (view (db E) c) k"
    using collections.view_set [OF collections.intro [OF assms]] by (metis view_def)
  then show ?thesis by (simp add: coll_set_def doc_or_new_def view_def)
qed

lemma status_event_projected:
  assumes ok: "mongo_ok (db E)" and ty: "endpoint_status ty = Some st" "ty \<in> set endpoint_event_types"
    and time: "parse_time E (snd fresh) = Some t"
    and own: "dict_ok own" "map_of own ''event_id'' = None" "map_of own ''created_at'' = None"
      "map_of own ''virtual_environment_id'' = None" "map_of own ''endpoint_id'' = Some k"
  shows "fst (apply_event E fr ty (event_dump fresh own) s) = Ok ()"
    and "\<exists>ep. endpoint_get E (snd (apply_event E fr ty (event_dump fresh own) s)) k = Some ep
      \<and> ep_status ep = JStr st \<and> ep_ve ep = JNull"
proof -
  have known: "ty \<in> set all_known_event_types" using ty(2) by (simp add: all_known_event_types_def)
  let ?d = "dput ''status'' (JStr st) (event_dump fresh own)"
  have d: "map_of ?d ''status'' = Some (JStr st)" "map_of ?d ''virtual_environment_id'' = Some JNull"
    using own by (simp_all add: event_dump_fields envelope_fields_def)
  note e = apply_own_event [OF known time own(1-3), of fr s]
  show "fst (apply_event E fr ty (event_dump fresh own) s) = Ok ()"
    and "\<exists>ep. endpoint_get E (snd (apply_event E fr ty (event_dump fresh own) s)) k = Some ep
      \<and> ep_status ep = JStr st \<and> ep_ve ep = JNull"
    unfolding e using ty own d
    by (auto simp: route_def compute_apply_def with_field_def event_dump_fields endpoint_get_def
      endpoint_apply_def broadcast_def view_after_set [OF ok] doc_to_endpoint_def doc_get_def
      Let_def simp del: map_of_dput)
qed

text \<open>
  C30. Every change that the liveness worker sees is one event, and projecting it gives the
  endpoint the new status. It also takes the endpoint out of its virtual environment: the event
  is dumped with \<open>virtual_environment_id\<close> null, and the projector writes every field of the dump.
\<close>

lemma liveness_change_detaches:
  assumes ok: "mongo_ok (db E)" and bind: "ping_endpoint send (JStr i) d w = (Ok (Some cur), w')"
    and time: "parse_time E (snd (next_fresh fresh s)) = Some t"
  shows "let (r, s1, w1) = check_endpoint send fresh cur (JStr i) d (s, w);
             (stream, ty, data) = last (published s1);
             (r', s2) = apply_event E fr ty data s1
         in r = Ok () \<and> stream = ''endpoints-'' @ i \<and> r' = Ok () \<and>
            (\<exists>ep. endpoint_get E s2 (JStr i) = Some ep \<and> ep_ve ep = JNull \<and>
              ep_status ep = JStr (if cur then ''running'' else ''unreachable''))"
proof -
  have types: "endpoint_status ''EndpointRecovered'' = Some ''running''"
    "endpoint_status ''EndpointUnreachable'' = Some ''unreachable''"
    "''EndpointRecovered'' \<in> set endpoint_event_types" "''EndpointUnreachable'' \<in> set endpoint_event_types"
    by (simp_all add: endpoint_status_def endpoint_event_types_def)
  show ?thesis
  proof (cases cur)
    case True
    let ?own = "[(''endpoint_id'', JStr i)]"
    let ?s = "publish (''endpoints-'' @ i) ''EndpointRecovered'' (event_dump (next_fresh fresh s) ?own) s"
    have "fst (apply_event E fr ''EndpointRecovered'' (event_dump (next_fresh fresh s) ?own) ?s) = Ok ()"
      "\<exists>ep. endpoint_get E (snd (apply_event E fr ''EndpointRecovered'' (event_dump (next_fresh fresh s) ?own) ?s)) (JStr i)
        = Some ep \<and> ep_status ep = JStr ''running'' \<and> ep_ve ep = JNull"
      by (rule status_event_projected [OF ok types(1,3) time]; simp add: dict_ok_def)+
    then show ?thesis using True bind
      by (auto simp: check_endpoint_def publish_def py_str_def split: prod.splits)
  next
    case False
    let ?own = "[(''endpoint_id'', JStr i), (''last_seen_at'', doc_get d ''created_at'')]"
    let ?s = "publish (''endpoints-'' @ i) ''EndpointUnreachable'' (event_dump (next_fresh fresh s) ?own) s"
    have "fst (apply_event E fr ''EndpointUnreachable'' (event_dump (next_fresh fresh s) ?own) ?s) = Ok ()"
      "\<exists>ep. endpoint_get E (snd (apply_event E fr ''EndpointUnreachable'' (event_dump (next_fresh fresh s) ?own) ?s)) (JStr i)
        = Some ep \<and> ep_status ep = JStr ''unreachable'' \<and> ep_ve ep = JNull"
      by (rule status_event_projected [OF ok types(2,4) time]; simp add: dict_ok_def)+
    then show ?thesis using False bind
      by (auto simp: check_endpoint_def publish_def py_str_def split: prod.splits)
  qed
qed

definition no_reply :: "nat net" where
  "no_reply uri c w = (Err (AxoErr WireError ''timed out''), Suc w)"

lemma liveness_change_detaches_witness:
  "let (r, s1, w1) = check_endpoint no_reply (\<lambda>n. (''e'', ''t'')) False (JStr ''node-1'')
             [''router_bind'' \<mapsto> JStr ''tcp://0.0.0.0:5555''] (empty_model, 0);
       (stream, ty, data) = last (published s1);
       (r', s2) = apply_event mem_env (''e2'', ''t'') ty data s1
   in r = Ok () \<and> stream = ''endpoints-node-1'' \<and> r' = Ok () \<and>
      (\<exists>ep. endpoint_get mem_env s2 (JStr ''node-1'') = Some ep \<and> ep_ve ep = JNull \<and>
        ep_status ep = JStr ''unreachable'')"
proof -
  have "ping_endpoint no_reply (JStr ''node-1'') [''router_bind'' \<mapsto> JStr ''tcp://0.0.0.0:5555''] 0 = (Ok (Some False), 1)"
    by (simp add: ping_endpoint_def doc_get_def rpc_uri_def no_reply_def)
  moreover have "parse_time mem_env (snd (next_fresh (\<lambda>n. (''e'', ''t'')) empty_model)) = Some (JStr ''t'')"
    by (simp add: mem_env_def next_fresh_def)
  ultimately show ?thesis
    using liveness_change_detaches [OF mem_env_ok(1), of no_reply "''node-1''" _ 0 False 1 "\<lambda>n. (''e'', ''t'')"]
    by simp
qed

section \<open>Virtual environments are changed by their owner only\<close>

lemma workspace_get_docs:
  "workspaces s' = workspaces s \<Longrightarrow> workspace_get E s' k = workspace_get E s k"
  by (simp add: workspace_get_def)

lemma workspace_get_updated:
  assumes ok: "mongo_ok (db E)" and "workspace_get E s (ws_id w) = Ok (Some v)"
  shows "workspace_get E (workspace_save E w s) (ws_id w) = Ok (Some (w\<lparr>ws_leader := ws_leader v\<rparr>))"
proof -
  obtain d where d: "find_one (db E) (ws_id w) (workspaces s) = Some d" "doc_get d ''deleted_at'' = JNull"
    "doc_to_workspace d = Ok v"
    using assms(2) by (auto simp: workspace_get_def bind_res_def split: option.splits if_splits res.splits)
  then have "ws_leader v = doc_get d ''leader_endpoint_id''"
    by (auto simp: doc_to_workspace_def bind_res_def Let_def split: res.splits)
  then show ?thesis using d
    by (simp add: workspace_get_def workspace_save_def view_after_set [OF ok] workspace_doc_def doc_get_def
      doc_to_workspace_def field_def item_def bind_res_def)
qed

text \<open>
  An update by anyone but the owner is refused and publishes nothing. An update by the
  owner publishes one event; once the projector has applied it, the virtual environment has the
  new name and capacity, and the owner and leader it had.
\<close>

lemma owner_updates_environment:
  assumes ok: "mongo_ok (db E)" and get: "workspace_get E s (JStr ve) = Ok (Some w)"
    and time: "parse_time E (snd (next_fresh fresh s)) = Some t"
  shows "let (out, s1) = update_virtual_environment E fresh ve user name cpu ram disk s in
    if ws_owner w \<noteq> JStr user then out = Refused (not_ve_owner user w) \<and> s1 = s
    else \<exists>data. out = Done data \<and> s1 = publish (ve_stream ve) ''VirtualEnvironmentUpdated'' data s \<and>
      (let (r, s2) = apply_event E fr ''VirtualEnvironmentUpdated'' data s1 in
       r = Ok () \<and> workspace_get E s2 (JStr ve) =
         Ok (Some (w\<lparr>ws_id := JStr ve, ws_name := JStr name, ws_cpu := JFloat cpu,
                     ws_ram := JInt ram, ws_disk := JInt disk\<rparr>)))"
proof (cases "ws_owner w = JStr user")
  case False
  then show ?thesis using get by (simp add: update_virtual_environment_def)
next
  case True
  let ?own = "[(''virtual_environment_id'', JStr ve), (''name'', JStr name), (''resource_quota'', quota_json cpu ram disk)]"
  let ?data = "event_dump (next_fresh fresh s) ?own"
  let ?new = "\<lparr>ws_id = JStr ve, ws_name = JStr name, ws_owner = ws_owner w, ws_cpu = JFloat cpu,
    ws_ram = JInt ram, ws_disk = JInt disk, ws_leader = JNull\<rparr>"
  have own: "dict_ok ?own" by (simp add: dict_ok_def)
  let ?s1 = "publish (ve_stream ve) ''VirtualEnvironmentUpdated'' ?data s"
  let ?s2 = "?s1\<lparr>activity := set_fields (db E) (JStr (fst (next_fresh fresh s)))
    (activity_doc ''VirtualEnvironmentUpdated'' t ?data) (activity ?s1)\<rparr>"
  have known: "''VirtualEnvironmentUpdated'' \<in> set all_known_event_types"
    by (simp add: all_known_event_types_def virtual_env_event_types_def)
  have routed: "route E fr ''VirtualEnvironmentUpdated'' ?data ?s2 = workspace_apply E ''VirtualEnvironmentUpdated'' ?data ?s2"
    by (simp add: route_def endpoint_event_types_def function_event_types_def consensus_event_types_def
      leader_bearing_event_types_def activity_only_event_types_def user_profile_event_types_def virtual_env_event_types_def)
  have get2: "workspace_get E ?s2 (JStr ve) = Ok (Some w)"
    using get by (simp add: workspace_get_def publish_def)
  have new: "w\<lparr>ws_id := JStr ve, ws_name := JStr name, ws_cpu := JFloat cpu, ws_ram := JInt ram,
      ws_disk := JInt disk\<rparr> = ?new\<lparr>ws_leader := ws_leader w\<rparr>" by (cases w) simp
  have "workspace_apply E ''VirtualEnvironmentUpdated'' ?data ?s2 = (Ok (), workspace_save E ?new ?s2)"
    using get2 own by (simp add: workspace_apply_def with_field_def event_dump_fields with_res_def
      save_workspace_of_def quota_json_def capacity_of_quota_def item_def)
  moreover have "workspace_get E (workspace_save E ?new ?s2) (JStr ve) = Ok (Some (?new\<lparr>ws_leader := ws_leader w\<rparr>))"
    using workspace_get_updated [OF ok, of ?s2 ?new w] get2 by simp
  ultimately have "apply_event E fr ''VirtualEnvironmentUpdated'' ?data ?s1 = (Ok (), workspace_save E ?new ?s2)"
    "workspace_get E (workspace_save E ?new ?s2) (JStr ve) = Ok (Some (?new\<lparr>ws_leader := ws_leader w\<rparr>))"
    using apply_own_event [OF known time own, of fr ?s1] routed by simp_all
  then show ?thesis using True get new by (simp add: update_virtual_environment_def Let_def)
qed

lemma owner_updates_environment_witness:
  "let s = empty_model\<lparr>workspaces := [(JStr ''ve'', workspace_doc
         \<lparr>ws_id = JStr ''ve'', ws_name = JStr ''old'', ws_owner = JStr ''ana'', ws_cpu = JInt 1, ws_ram = JInt 1,
          ws_disk = JInt 1, ws_leader = JNull\<rparr>)]\<rparr>;
       (out, s1) = update_virtual_environment mem_env (\<lambda>n. (''e'', ''t'')) ''ve'' ''ana'' ''new'' 2 2 2 s
   in \<exists>data. out = Done data \<and>
        (let (r, s2) = apply_event mem_env (''e2'', ''t'') ''VirtualEnvironmentUpdated'' data s1 in
         r = Ok () \<and> (\<exists>w. workspace_get mem_env s2 (JStr ''ve'') = Ok (Some w) \<and>
           ws_name w = JStr ''new'' \<and> ws_owner w = JStr ''ana''))"
proof -
  let ?w = "\<lparr>ws_id = JStr ''ve'', ws_name = JStr ''old'', ws_owner = JStr ''ana'', ws_cpu = JInt 1, ws_ram = JInt 1,
          ws_disk = JInt 1, ws_leader = JNull\<rparr>"
  let ?s = "empty_model\<lparr>workspaces := [(JStr ''ve'', workspace_doc ?w)]\<rparr>"
  have "workspace_get mem_env ?s (JStr ''ve'') = Ok (Some ?w)"
    by (simp add: workspace_get_def mem_env_def mem_mongo_def workspace_doc_def doc_get_def doc_to_workspace_def
      field_def item_def)
  moreover have "parse_time mem_env (snd (next_fresh (\<lambda>n. (''e'', ''t'')) ?s)) = Some (JStr ''t'')"
    by (simp add: mem_env_def next_fresh_def)
  ultimately show ?thesis
    using owner_updates_environment [OF mem_env_ok(1), of ?s "''ve''" ?w "\<lambda>n. (''e'', ''t'')" _ "''ana''" "''new''" 2 2 2 "(''e2'', ''t'')"]
    by (auto simp: Let_def case_prod_beta)
qed

section \<open>Purging a function version\<close>

text \<open>
  Purging a deleted version removes its document and reports how many rows of its history
  it deleted, but no row recorded from an event that carries its version as \<open>version\<close>, as every
  function event does, is deleted: the purge looks for \<open>function_version\<close>.
\<close>

lemma purge_keeps_version_activity:
  assumes ok: "mongo_ok (db E)"
    and row: "find_one (db E) k (activity s) = Some (activity_doc ty t data)"
    and data: "map_of data ''function_version'' = None"
    and purge: "purge_function_version E function_id version s = (Done reply, s')"
  shows "find_one (db E) (function_key (JStr function_id) (JInt version)) (function_docs s') = None \<and>
    find_one (db E) k (activity s') = Some (activity_doc ty t data)"
proof -
  let ?q = "[([''meta'', ''function_id''], JStr function_id), ([''meta'', ''function_version''], JInt version)]"
  let ?key = "function_key (JStr function_id) (JInt version)"
  have s': "function_docs s' = delete_one (db E) ?key (function_docs s)"
      "activity s' = fst (delete_where (db E) ?q (activity s))"
    using purge by (auto simp: purge_function_version_def activity_purge_def Let_def
      split: option.splits if_splits prod.splits)
  have "map_of (activity_meta data) ''function_version'' = None"
    using data by (auto simp: activity_meta_def map_of_eq_None_iff)
  then have "\<not> matches_all ?q (activity_doc ty t data)"
    by (simp add: matches_all_def matches_def activity_doc_def)
  moreover have "view (db E) (activity s') k = coll_delete_where ?q (view (db E) (activity s)) k"
    using collections.view_delete_where [OF collections.intro [OF ok]] s'(2) by simp
  moreover have "view (db E) (function_docs s') ?key = None"
    using collections.view_delete [OF collections.intro [OF ok], of ?key "function_docs s"] s'(1)
    by (simp add: coll_delete_def)
  ultimately show ?thesis using row by (simp add: view_def coll_delete_where_def)
qed

lemma purge_keeps_version_activity_witness:
  "let data = [(''function_id'', JStr ''f''), (''version'', JInt 1)];
       s = empty_model\<lparr>function_docs := [(JStr ''f:1'', [''deleted_at'' \<mapsto> JStr ''t''])],
             activity := [(JStr ''e'', activity_doc ''FunctionDeleted'' (JStr ''t'') data)]\<rparr>;
       s' = snd (purge_function_version mem_env ''f'' 1 s)
   in find_one (db mem_env) (JStr ''e'') (activity s') = Some (activity_doc ''FunctionDeleted'' (JStr ''t'') data)"
proof -
  let ?data = "[(''function_id'', JStr ''f''), (''version'', JInt 1)]"
  let ?s = "empty_model\<lparr>function_docs := [(JStr ''f:1'', [''deleted_at'' \<mapsto> JStr ''t''])],
             activity := [(JStr ''e'', activity_doc ''FunctionDeleted'' (JStr ''t'') ?data)]\<rparr>"
  have key: "function_key (JStr ''f'') (JInt 1) = JStr ''f:1''"
    by code_simp
  have "find_one (db mem_env) (JStr ''e'') (activity ?s) = Some (activity_doc ''FunctionDeleted'' (JStr ''t'') ?data)"
    by (simp add: mem_env_def mem_mongo_def)
  moreover have "find_one (db mem_env) (JStr ''f:1'') (function_docs ?s) = Some [''deleted_at'' \<mapsto> JStr ''t'']"
    by (simp add: mem_env_def mem_mongo_def)
  then have "\<exists>reply s'. purge_function_version mem_env ''f'' 1 ?s = (Done reply, s')"
    using key by (auto simp: purge_function_version_def Let_def doc_get_def split: prod.splits)
  then obtain reply s' where "purge_function_version mem_env ''f'' 1 ?s = (Done reply, s')" by blast
  ultimately show ?thesis
    using purge_keeps_version_activity [OF mem_env_ok(1), of "JStr ''e''" ?s] by (auto simp: Let_def)
qed

end
