(* ===== verification/Choreography_Run.thy ===== *)
theory Choreography_Run
  imports Use_Cases
begin

text \<open>
  The orchestrator of the virtual environment manager: one execution of a saved choreography
  (\<open>axo_vem/application/choreography/run_choreography.py\<close>), its run documents
  (\<open>domain/choreography/run.py\<close>, \<open>infrastructure/database/mongo/choreography_run_repository.py\<close>)
  and the use cases that create, update, delete, purge and cancel.

  A run object belongs to the thread that executes it and is passed along. The rest is a shared
  world: the read model, the run documents, the stop flags, the jobs in flight and the clock.
  What other threads and the nodes do happens while a command is sent or the thread sleeps, so
  both are parameters that change the world; the clock never goes back, and a sleep takes its
  time and at least a microsecond. The nodes of one wave, and the items of one bucket, share no
  state but the world, and are run one after the other.
\<close>

section \<open>Runs\<close>

datatype run_status = Pending | Queued | Running | Completed | Failed | Cancelled

fun run_status_value :: "run_status \<Rightarrow> string" where
  "run_status_value Pending = ''pending''"
| "run_status_value Queued = ''queued''"
| "run_status_value Running = ''running''"
| "run_status_value Completed = ''completed''"
| "run_status_value Failed = ''failed''"
| "run_status_value Cancelled = ''cancelled''"

definition active_run_statuses :: "run_status list" where
  "active_run_statuses = [Pending, Running]"

record node_run =
  nr_node_id :: string
  nr_status :: run_status
  nr_job_id :: json
  nr_endpoint_id :: json
  nr_attempt :: nat
  nr_error :: json
  nr_warnings :: json
  nr_duration_ms :: json

definition new_node_run :: "string \<Rightarrow> node_run" where
  "new_node_run i = \<lparr>nr_node_id = i, nr_status = Pending, nr_job_id = JNull, nr_endpoint_id = JNull,
     nr_attempt = 0, nr_error = JNull, nr_warnings = JList [], nr_duration_ms = JNull\<rparr>"

definition node_run_dict :: "node_run \<Rightarrow> (string, json) dict" where
  "node_run_dict n =
    [(''node_id'', JStr (nr_node_id n)), (''status'', JStr (run_status_value (nr_status n))),
     (''job_id'', nr_job_id n), (''endpoint_id'', nr_endpoint_id n), (''attempt'', JInt (int (nr_attempt n))),
     (''error'', nr_error n), (''warnings'', nr_warnings n), (''duration_ms'', nr_duration_ms n)]"

record choreography_run =
  r_id :: string
  r_choreography_id :: string
  r_status :: run_status
  r_nodes :: "(string, node_run) dict"
  r_started_at :: json
  r_finished_at :: json

definition run_dict :: "choreography_run \<Rightarrow> (string, json) dict" where
  "run_dict r =
    [(''run_id'', JStr (r_id r)), (''choreography_id'', JStr (r_choreography_id r)),
     (''status'', JStr (run_status_value (r_status r))),
     (''node_states'', JObj (map (\<lambda>(k, n). (k, JObj (node_run_dict n))) (r_nodes r))),
     (''started_at'', r_started_at r), (''finished_at'', r_finished_at r)]"

definition node_status :: "choreography_run \<Rightarrow> string \<Rightarrow> run_status option" where
  "node_status r i = map_option nr_status (map_of (r_nodes r) i)"

section \<open>The world and the parameters\<close>

record 'c world =
  rm :: "'c read_model"
  run_docs :: 'c
  stop_flags :: "(string, bool) dict"
  live_jobs :: "(string, (json, string) dict) dict"
  clock :: flt

text \<open>
  The constants of the class, \<open>datetime.now\<close>, \<open>random.uniform(0, hi)\<close>, a command sent and what
  happens during a sleep.
\<close>

record 'c orchestrator =
  vem_env :: "'c vem"
  send_rpc :: "string \<Rightarrow> command \<Rightarrow> 'c world \<Rightarrow> command_result res \<times> 'c world"
  others :: "flt \<Rightarrow> 'c world \<Rightarrow> 'c world"
  uniform :: "'c world \<Rightarrow> flt \<Rightarrow> flt"
  now_iso :: "'c world \<Rightarrow> string"
  poll_interval :: flt
  job_timeout :: flt

definition send_command :: "'c orchestrator \<Rightarrow> 'c world net" where
  "send_command Q uri c w =
    (let (r, w') = send_rpc Q uri c w in (r, w'\<lparr>clock := max (clock w) (clock w')\<rparr>))"

definition sleep :: "'c orchestrator \<Rightarrow> flt \<Rightarrow> 'c world \<Rightarrow> 'c world" where
  "sleep Q d w = (let w' = others Q d w in w'\<lparr>clock := max (clock w + max d 1) (clock w')\<rparr>)"

definition is_stopped :: "choreography_run \<Rightarrow> 'c world \<Rightarrow> bool" where
  "is_stopped r w = dget (stop_flags w) (r_id r) False"

text \<open>The run repository.\<close>

definition run_save :: "'c vem \<Rightarrow> choreography_run \<Rightarrow> 'c world \<Rightarrow> 'c world" where
  "run_save E r w = w\<lparr>run_docs := set_fields (db E) (JStr (r_id r)) (map_of (run_dict r)) (run_docs w)\<rparr>"

definition doc_active :: "doc \<Rightarrow> bool" where
  "doc_active d = list_ex (\<lambda>st. doc_get d ''status'' = JStr (run_status_value st)) active_run_statuses"

definition has_active_run :: "'c vem \<Rightarrow> string \<Rightarrow> 'c world \<Rightarrow> bool" where
  "has_active_run E c w =
    list_ex (\<lambda>(k, d). doc_active d)
      (find_where (db E) [([''choreography_id''], JStr c)] [] (run_docs w))"

definition broadcast_run :: "choreography_run \<Rightarrow> (string, json) dict \<Rightarrow> 'c world \<Rightarrow> 'c world" where
  "broadcast_run r m w = w\<lparr>rm := broadcast (''choreographies:'' @ r_id r) m (rm w)\<rparr>"

definition broadcast_status :: "choreography_run \<Rightarrow> 'c world \<Rightarrow> 'c world" where
  "broadcast_status r w = broadcast_run r
    [(''type'', JStr ''run_status''), (''run_id'', JStr (r_id r)),
     (''status'', JStr (run_status_value (r_status r)))] w"

text \<open>\<open>_save_and_broadcast_node\<close> with the state that is set just before it.\<close>

definition put_node :: "node_run \<Rightarrow> choreography_run \<Rightarrow> choreography_run" where
  "put_node n r = r\<lparr>r_nodes := dput (nr_node_id n) n (r_nodes r)\<rparr>"

definition save_and_broadcast_node :: "'c vem \<Rightarrow> choreography_run \<Rightarrow> node_run \<Rightarrow> 'c world \<Rightarrow> 'c world" where
  "save_and_broadcast_node E r n w =
    broadcast_run r ((''type'', JStr ''node_status'') # node_run_dict n) (run_save E r w)"

section \<open>One job\<close>

text \<open>\<open>command_result.metadata or {}\<close>, of which the code reads fields with \<open>get\<close>.\<close>

definition meta_dict :: "command_result \<Rightarrow> (string, json) dict res" where
  "meta_dict r = (if \<not> py_truthy (cr_metadata r) then Ok []
     else case cr_metadata r of JObj d \<Rightarrow> Ok d | _ \<Rightarrow> Raise AttributeError)"

definition pending_reply :: "command_result \<Rightarrow> bool" where
  "pending_reply r = (case meta_dict r of Ok d \<Rightarrow> jget d ''status'' = JStr ''PENDING'' | _ \<Rightarrow> False)"

definition send_cancel :: "'c orchestrator \<Rightarrow> string \<Rightarrow> json \<Rightarrow> 'c world \<Rightarrow> unit res \<times> 'c world" where
  "send_cancel Q uri jid w =
    (if \<not> py_truthy jid then (Ok (), w)
     else case send_command Q uri (json_command ''JOB_CANCEL'' [(''job_id'', jid)]) w of
            (Raise ex, w') \<Rightarrow> (Raise ex, w')
          | (_, w') \<Rightarrow> (Ok (), w'))"

text \<open>What a dispatch returns: whether it succeeded, the value and the error.\<close>

type_synonym dispatched = "bool \<times> json \<times> json"

definition after_cancel :: "unit res \<times> 'c world \<Rightarrow> string \<Rightarrow> node_run \<Rightarrow> dispatched res \<times> node_run \<times> 'c world" where
  "after_cancel rw err n = (case rw of
     (Ok _, w) \<Rightarrow> (Ok (False, JNull, JStr err), n, w)
   | (Err e, w) \<Rightarrow> (Err e, n, w)
   | (Raise ex, w) \<Rightarrow> (Raise ex, n, w))"

text \<open>A reply that is not pending, as the rest of the loop's body reads it.\<close>

definition final_reply :: "command_result \<Rightarrow> node_run \<Rightarrow> dispatched res \<times> node_run" where
  "final_reply r n =
    (case meta_dict r of
       Ok d \<Rightarrow>
         if jget d ''status'' = JStr ''COMPLETED'' then
           (bind_res (object_of (dget d ''output'' (JObj []))) (\<lambda>out. Ok (True, jget out ''value'', JStr [])),
            n\<lparr>nr_warnings := dget d ''warnings'' (JList []), nr_duration_ms := jget d ''duration_ms''\<rparr>)
         else (Ok (False, JNull, dget d ''error'' (JStr ''job failed'')), n)
     | Err e \<Rightarrow> (Err e, n)
     | Raise ex \<Rightarrow> (Raise ex, n))"

lemma clock_send_command: "clock w \<le> clock (snd (send_command Q uri c w))"
  by (simp add: send_command_def split: prod.split)

lemma clock_sleep: "clock w < clock (sleep Q d w)"
  by (simp add: sleep_def Let_def)

function poll_until_terminal ::
  "'c orchestrator \<Rightarrow> choreography_run \<Rightarrow> flt \<Rightarrow> string \<Rightarrow> json \<Rightarrow> node_run \<Rightarrow> 'c world \<Rightarrow>
   dispatched res \<times> node_run \<times> 'c world" where
  "poll_until_terminal Q r deadline uri jid n w =
    (if deadline \<le> clock w then
       after_cancel (send_cancel Q uri jid w)
         (''job exceeded job_timeout_seconds='' @ str_float (job_timeout Q)) n
     else if is_stopped r w then after_cancel (send_cancel Q uri jid w) ''cancelled'' n
     else
       (case send_command Q uri (json_command ''JOB_RESULT'' [(''job_id'', jid)]) w of
          (Err e, w1) \<Rightarrow> (Ok (False, JNull, JStr (err_msg e)), n, w1)
        | (Raise ex, w1) \<Rightarrow> (Raise ex, n, w1)
        | (Ok reply, w1) \<Rightarrow>
            if pending_reply reply then
              poll_until_terminal Q r deadline uri jid n (sleep Q (poll_interval Q) w1)
            else (let (d, n') = final_reply reply n in (d, n', w1))))"
  by pat_completeness auto

termination
proof (relation "measure (\<lambda>(_, _, deadline, _, _, _, w). nat (deadline - clock w))", goal_cases)
  case (2 Q r deadline uri jid n w res w1 reply)
  have "clock w \<le> clock w1" using clock_send_command [of w Q uri] 2(3) by (metis snd_conv)
  also have "\<dots> < clock (sleep Q (poll_interval Q) w1)" by (rule clock_sleep)
  finally show ?case using 2(1) by simp
qed simp

declare poll_until_terminal.simps [simp del]

definition live_put :: "string \<Rightarrow> json \<Rightarrow> string \<Rightarrow> 'c world \<Rightarrow> 'c world" where
  "live_put rid jid uri w =
    (let mine = dget (live_jobs w) rid [] in
     w\<lparr>live_jobs := dput rid (if py_truthy jid then dput jid uri mine else mine) (live_jobs w)\<rparr>)"

definition live_drop :: "string \<Rightarrow> json \<Rightarrow> 'c world \<Rightarrow> 'c world" where
  "live_drop rid jid w =
    (if \<not> py_truthy jid then w
     else case map_of (live_jobs w) rid of
       None \<Rightarrow> w
     | Some mine \<Rightarrow> w\<lparr>live_jobs := dput rid (dpop jid mine) (live_jobs w)\<rparr>)"

definition json_str :: "string option \<Rightarrow> json" where
  "json_str x = (case x of None \<Rightarrow> JNull | Some v \<Rightarrow> JStr v)"

definition json_int :: "int option \<Rightarrow> json" where
  "json_int x = (case x of None \<Rightarrow> JNull | Some v \<Rightarrow> JInt v)"

text \<open>A list or dictionary is no key of \<open>live_jobs\<close>.\<close>

fun hashable :: "json \<Rightarrow> bool" where
  "hashable (JList xs) = False"
| "hashable (JObj d) = False"
| "hashable j = True"

definition dispatch_once ::
  "'c orchestrator \<Rightarrow> choreography_run \<Rightarrow> cnode \<Rightarrow> (string, json) dict \<Rightarrow> node_run \<Rightarrow> 'c world \<Rightarrow>
   dispatched res \<times> node_run \<times> 'c world" where
  "dispatch_once Q r node params n w =
    (case submit_function_job (vem_env Q) (send_command Q) (rm w)
            (json_str (n_function_id node)) (json_int (n_function_version node)) params w of
       (Refused e, w1) \<Rightarrow> (Ok (False, JNull, JStr (domain_text e)), n, w1)
     | (Crashed ex, w1) \<Rightarrow> (Ok (False, JNull, JStr (exc_text ex)), n, w1)
     | (Done submitted, w1) \<Rightarrow>
         let jid = jget submitted ''job_id''; ep_id' = jget submitted ''endpoint_id'';
             n1 = n\<lparr>nr_job_id := jid, nr_endpoint_id := ep_id'\<rparr>;
             bind = (case endpoint_get (vem_env Q) (rm w1) ep_id' of None \<Rightarrow> JNull | Some ep \<Rightarrow> ep_router_bind ep)
         in if \<not> py_truthy bind then
              (Ok (False, JNull, JStr (''endpoint '' @ py_str ep_id' @ '' has no known router_bind'')), n1, w1)
            else
              (case rpc_uri bind ep_id' of
                 Ok uri \<Rightarrow>
                   if py_truthy jid \<and> \<not> hashable jid then (Raise TypeError, n1, w1)
                   else
                     (let w2 = live_put (r_id r) jid uri w1;
                          (d, n2, w3) = poll_until_terminal Q r (clock w2 + job_timeout Q) uri jid n1 w2
                      in (d, n2, live_drop (r_id r) jid w3))
               | Err e \<Rightarrow> (Err e, n1, w1)
               | Raise ex \<Rightarrow> (Raise ex, n1, w1)))"

text \<open>
  The retries of a node: \<open>tries\<close> is the attempt the loop is at. The last error is the one
  returned, and the state counts the retries.
\<close>

function dispatch_with_retries ::
  "'c orchestrator \<Rightarrow> choreography_run \<Rightarrow> cnode \<Rightarrow> (string, json) dict \<Rightarrow> nat \<Rightarrow> node_run \<Rightarrow> 'c world \<Rightarrow>
   dispatched res \<times> node_run \<times> 'c world" where
  "dispatch_with_retries Q r node params tries n w =
    (if is_stopped r w then (Ok (False, JNull, JStr ''cancelled''), n, w)
     else
       (case dispatch_once Q r node params n w of
          (Ok (True, v, _), n1, w1) \<Rightarrow> (Ok (True, v, JStr []), n1, w1)
        | (Ok (False, _, err), n1, w1) \<Rightarrow>
            if n_max_retries node \<le> int tries then (Ok (False, JNull, err), n1, w1)
            else
              (case next_delay_seconds (uniform Q w1) (n_retry_policy node) (tries + 1) 1000000 30000000 of
                 Ok delay \<Rightarrow>
                   if delay < 0 then (Raise ValueError, n1, w1)
                   else dispatch_with_retries Q r node params (tries + 1)
                          (n1\<lparr>nr_attempt := tries + 1\<rparr>) (sleep Q delay w1)
               | Err e \<Rightarrow> (Err e, n1, w1)
               | Raise ex \<Rightarrow> (Raise ex, n1, w1))
        | (Err e, n1, w1) \<Rightarrow> (Err e, n1, w1)
        | (Raise ex, n1, w1) \<Rightarrow> (Raise ex, n1, w1)))"
  by pat_completeness auto

termination
  by (relation "measure (\<lambda>(_, _, node, _, tries, _, _). nat (n_max_retries node - int tries))") auto

declare dispatch_with_retries.simps [simp del]

section \<open>Buckets\<close>

fun read_all :: "('a \<Rightarrow> 'b res) \<Rightarrow> 'a list \<Rightarrow> 'b list res" where
  "read_all f [] = Ok []"
| "read_all f (x # xs) = bind_res (f x) (\<lambda>y. bind_res (read_all f xs) (\<lambda>ys. Ok (y # ys)))"

definition doc_to_item :: "doc \<Rightarrow> data_item res" where
  "doc_to_item d =
    bind_res (field d ''name'') (\<lambda>n. bind_res (field d ''version'') (\<lambda>v.
    bind_res (field d ''format'') (\<lambda>f. bind_res (field d ''kind'') (\<lambda>k.
    bind_res (field d ''total_size'') (\<lambda>sz. bind_res (field d ''total_chunks'') (\<lambda>c.
    bind_res (field d ''status'') (\<lambda>st.
      Ok \<lparr>di_name = n, di_version = v, di_format = f, di_kind = k, di_total_size = sz,
          di_total_chunks = c, di_status = st\<rparr>)))))))"

text \<open>\<open>find({"name": {"$regex": "^" + re.escape(b) + "/"}})\<close>.\<close>

definition items_of_bucket :: "'c vem \<Rightarrow> 'c read_model \<Rightarrow> string \<Rightarrow> data_item list res" where
  "items_of_bucket E s b =
    read_all doc_to_item (filter (\<lambda>d. case doc_get d ''name'' of JStr n \<Rightarrow> take (Suc (length b)) n = b @ ''/'' | _ \<Rightarrow> False)
      (map snd (find_where (db E) [] [] (items s))))"

definition wanted_item :: "(string, json) dict \<Rightarrow> (json \<times> json) res" where
  "wanted_item d =
    bind_res (item (JObj d) ''name'') (\<lambda>n. bind_res (item (JObj d) ''version'') (\<lambda>v.
      if hashable n \<and> hashable v then Ok (n, v) else Raise TypeError))"

definition resolve_bucket_items :: "'c vem \<Rightarrow> 'c read_model \<Rightarrow> cnode option \<Rightarrow> data_item list res" where
  "resolve_bucket_items E s source =
    (case Option.bind source n_bucket_name of
       None \<Rightarrow> Ok []
     | Some b \<Rightarrow>
         if b = [] then Ok []
         else bind_res (items_of_bucket E s b) (\<lambda>found.
           bind_res
             (case Option.bind source n_selected_items of
                None \<Rightarrow> Ok found
              | Some sel \<Rightarrow>
                  if sel = [] then Ok found
                  else bind_res (read_all wanted_item sel) (\<lambda>ws.
                    Ok (filter (\<lambda>i. (di_name i, di_version i) \<in> set ws) found)))
             (\<lambda>chosen. Ok (filter (\<lambda>i. di_status i = JStr ''ready'') chosen))))"

definition node_named :: "cgraph \<Rightarrow> string \<Rightarrow> cnode option" where
  "node_named g i = find (\<lambda>n. n_id n = i) (g_nodes g)"

text \<open>The next version of an item; versions are integers.\<close>

definition next_item_version :: "json list \<Rightarrow> int res" where
  "next_item_version vs =
    (if vs = [] then Ok 1
     else bind_res (read_all (\<lambda>v. case v of JInt i \<Rightarrow> Ok i | _ \<Rightarrow> Raise TypeError) vs) (\<lambda>is'.
       Ok (Max (set is') + 1)))"

fun write_edges ::
  "'c orchestrator \<Rightarrow> choreography \<Rightarrow> string \<Rightarrow> string \<Rightarrow> json \<Rightarrow> cedge list \<Rightarrow> 'c world \<Rightarrow> unit res \<times> 'c world" where
  "write_edges Q ch uri nid v [] w = (Ok (), w)"
| "write_edges Q ch uri nid v (e # es) w =
    (case Option.bind (node_named (ch_graph ch) (e_target e)) n_bucket_name of
       None \<Rightarrow> write_edges Q ch uri nid v es w
     | Some b \<Rightarrow>
         if b = [] then write_edges Q ch uri nid v es w
         else
           let name = b @ ''/'' @ py_str (ch_name ch) @ ''-'' @ nid; payload = dumps_bytes v in
           (case bind_res (items_of_bucket (vem_env Q) (rm w) b) (\<lambda>found.
                   next_item_version (map di_version (filter (\<lambda>i. di_name i = JStr name) found))) of
              Err e \<Rightarrow> (Err e, w)
            | Raise ex \<Rightarrow> (Raise ex, w)
            | Ok version \<Rightarrow>
                (case send_command Q uri (json_command ''DATA_REGISTER''
                        [(''name'', JStr name), (''version'', JInt version), (''format'', JStr ''raw''),
                         (''kind'', JStr ''fs''), (''total_size'', JInt (int (length payload))),
                         (''chunk_bytes'', JInt (if payload = [] then 1 else int (length payload)))]) w of
                   (Raise ex, w1) \<Rightarrow> (Raise ex, w1)
                 | (Err _, w1) \<Rightarrow> write_edges Q ch uri nid v es w1
                 | (Ok reply, w1) \<Rightarrow>
                     if \<not> cr_ok reply then write_edges Q ch uri nid v es w1
                     else
                       (case send_command Q uri
                               \<lparr>operation = ''DATA_CHUNK_PUT'', content_type = ''application/octet-stream'',
                                envelope = JObj [(''name'', JStr name), (''version'', JInt version),
                                  (''chunk_index'', JInt 0)], payload = payload\<rparr> w1 of
                          (Raise ex, w2) \<Rightarrow> (Raise ex, w2)
                        | (_, w2) \<Rightarrow> write_edges Q ch uri nid v es w2))))"

text \<open>\<open>function.endpoint_id[0]\<close>.\<close>

fun first_endpoint :: "json \<Rightarrow> json res" where
  "first_endpoint (JList (x # _)) = Ok x"
| "first_endpoint (JStr (c # _)) = Ok (JStr [c])"
| "first_endpoint (JObj _) = Raise KeyError"
| "first_endpoint _ = Raise TypeError"

definition write_fn_to_bucket_edges ::
  "'c orchestrator \<Rightarrow> choreography \<Rightarrow> cnode \<Rightarrow> json \<Rightarrow> 'c world \<Rightarrow> unit res \<times> 'c world" where
  "write_fn_to_bucket_edges Q ch node v w =
    (let outbound = filter (\<lambda>e. e_source e = n_id node \<and> e_kind e = Fn_To_Bucket) (g_edges (ch_graph ch)) in
     if outbound = [] then (Ok (), w)
     else
       (case function_get (vem_env Q) (rm w) (json_str (n_function_id node)) (json_int (n_function_version node)) of
          Err e \<Rightarrow> (Err e, w)
        | Raise ex \<Rightarrow> (Raise ex, w)
        | Ok None \<Rightarrow> (Ok (), w)
        | Ok (Some f) \<Rightarrow>
            if \<not> py_truthy (fv_endpoints f) then (Ok (), w)
            else
              (case first_endpoint (fv_endpoints f) of
                 Err e \<Rightarrow> (Err e, w)
               | Raise ex \<Rightarrow> (Raise ex, w)
               | Ok i \<Rightarrow>
                   let bind = (case endpoint_get (vem_env Q) (rm w) i of None \<Rightarrow> JNull | Some ep \<Rightarrow> ep_router_bind ep)
                   in if \<not> py_truthy bind then (Ok (), w)
                      else (case rpc_uri bind i of
                              Ok uri \<Rightarrow> write_edges Q ch uri (n_id node) v outbound w
                            | Err e \<Rightarrow> (Err e, w)
                            | Raise ex \<Rightarrow> (Raise ex, w)))))"

section \<open>One node\<close>

definition finish_node ::
  "'c orchestrator \<Rightarrow> choreography_run \<Rightarrow> node_run \<Rightarrow> run_status \<Rightarrow> 'c world \<Rightarrow> choreography_run \<times> 'c world" where
  "finish_node Q r n st w =
    (let n' = n\<lparr>nr_status := st\<rparr>; r' = put_node n' r
     in (r', save_and_broadcast_node (vem_env Q) r' n' w))"

definition has_param :: "cedge \<Rightarrow> bool" where
  "has_param e = (e_target_param e \<noteq> None \<and> e_target_param e \<noteq> Some [])"

definition base_params :: "(string, json) dict \<Rightarrow> cedge list \<Rightarrow> (string, json) dict" where
  "base_params results es =
    fold (\<lambda>e ps. if has_param e then dput (the (e_target_param e)) (dget results (e_source e) JNull) ps else ps) es []"

definition item_ref :: "data_item \<Rightarrow> json" where
  "item_ref i = JObj [(''kind'', di_kind i), (''location'', di_name i), (''format'', di_format i)]"

text \<open>\<open>pool.map\<close>: every item is dispatched, then the results are taken in order.\<close>

fun process_items ::
  "'c orchestrator \<Rightarrow> choreography_run \<Rightarrow> cnode \<Rightarrow> (string, json) dict \<Rightarrow> string \<Rightarrow> data_item list \<Rightarrow>
   node_run \<Rightarrow> 'c world \<Rightarrow> dispatched res list \<times> node_run \<times> 'c world" where
  "process_items Q r node base p [] n w = ([], n, w)"
| "process_items Q r node base p (i # is') n w =
    (let (d, n1, w1) = dispatch_with_retries Q r node (dput p (item_ref i) base) 0 n w;
         (ds, n2, w2) = process_items Q r node base p is' n1 w1
     in (d # ds, n2, w2))"

fun take_results ::
  "dispatched res list \<Rightarrow> bool \<times> json list \<Rightarrow> node_run \<Rightarrow> (bool \<times> json list) res \<times> node_run" where
  "take_results [] acc n = (Ok acc, n)"
| "take_results (Ok (True, v, _) # ds) (all_ok, vs) n = take_results ds (all_ok, vs @ [v]) n"
| "take_results (Ok (False, _, err) # ds) (all_ok, vs) n = take_results ds (False, vs) (n\<lparr>nr_error := err\<rparr>)"
| "take_results (Err e # ds) acc n = (Err e, n)"
| "take_results (Raise ex # ds) acc n = (Raise ex, n)"

fun fan_out ::
  "'c orchestrator \<Rightarrow> choreography \<Rightarrow> choreography_run \<Rightarrow> cnode \<Rightarrow> (string, json) dict \<Rightarrow> cedge list \<Rightarrow>
   bool \<times> json list \<Rightarrow> node_run \<Rightarrow> 'c world \<Rightarrow> (bool \<times> json list) res \<times> node_run \<times> 'c world" where
  "fan_out Q ch r node base [] acc n w = (Ok acc, n, w)"
| "fan_out Q ch r node base (e # es) acc n w =
    (case resolve_bucket_items (vem_env Q) (rm w) (node_named (ch_graph ch) (e_source e)) of
       Err x \<Rightarrow> (Err x, n, w)
     | Raise ex \<Rightarrow> (Raise ex, n, w)
     | Ok found \<Rightarrow>
         if \<not> has_param e \<or> found = [] then fan_out Q ch r node base es acc n w
         else
           (let (ds, n1, w1) = process_items Q r node base (the (e_target_param e)) found n w in
            case take_results ds acc n1 of
              (Ok acc', n2) \<Rightarrow> fan_out Q ch r node base es acc' n2 w1
            | (Err x, n2) \<Rightarrow> (Err x, n2, w1)
            | (Raise ex, n2) \<Rightarrow> (Raise ex, n2, w1)))"

text \<open>What follows a success: the result for later nodes, and the buckets the node writes to.\<close>

definition keep_result ::
  "'c orchestrator \<Rightarrow> choreography \<Rightarrow> cnode \<Rightarrow> bool \<Rightarrow> json \<Rightarrow> (string, json) dict \<Rightarrow> 'c world \<Rightarrow>
   unit res \<times> (string, json) dict \<times> 'c world" where
  "keep_result Q ch node ok v results w =
    (if \<not> ok then (Ok (), results, w)
     else (let (x, w') = write_fn_to_bucket_edges Q ch node v w in (x, dput (n_id node) v results, w')))"

type_synonym 'c node_outcome = "bool res \<times> choreography_run \<times> (string, json) dict \<times> 'c world"

definition close_node ::
  "'c orchestrator \<Rightarrow> choreography \<Rightarrow> cnode \<Rightarrow> bool \<Rightarrow> json \<Rightarrow> json option \<Rightarrow> choreography_run \<Rightarrow>
   node_run \<Rightarrow> (string, json) dict \<Rightarrow> 'c world \<Rightarrow> 'c node_outcome" where
  "close_node Q ch node ok v err r n results w =
    (case keep_result Q ch node ok v results w of
       (Err e, results', w') \<Rightarrow> (Err e, put_node n r, results', w')
     | (Raise ex, results', w') \<Rightarrow> (Raise ex, put_node n r, results', w')
     | (Ok _, results', w') \<Rightarrow>
         (let (r', w'') = finish_node Q r (case err of None \<Rightarrow> n | Some e \<Rightarrow> n\<lparr>nr_error := e\<rparr>)
                            (if ok then Completed else Failed) w'
          in (Ok ok, r', results', w'')))"

definition run_node ::
  "'c orchestrator \<Rightarrow> choreography \<Rightarrow> cnode \<Rightarrow> choreography_run \<Rightarrow> (string, json) dict \<Rightarrow> 'c world \<Rightarrow> 'c node_outcome" where
  "run_node Q ch node r results w =
    (case map_of (r_nodes r) (n_id node) of
       None \<Rightarrow> (Raise KeyError, r, results, w)
     | Some n0 \<Rightarrow>
         let (r1, w1) = finish_node Q r n0 Running w; n1 = n0\<lparr>nr_status := Running\<rparr> in
         if n_kind node = Bucket_Node then
           (let (r2, w2) = finish_node Q r1 n1 Completed w1 in (Ok True, r2, results, w2))
         else
           let inbound = filter (\<lambda>e. e_target e = n_id node) (g_edges (ch_graph ch));
               bucket_edges = filter (\<lambda>e. e_kind e = Bucket_To_Fn) inbound;
               base = base_params results (filter (\<lambda>e. e_kind e = Fn_To_Fn) inbound)
           in if bucket_edges = [] then
                (case dispatch_with_retries Q r1 node base 0 n1 w1 of
                   (Err e, n2, w2) \<Rightarrow> (Err e, put_node n2 r1, results, w2)
                 | (Raise ex, n2, w2) \<Rightarrow> (Raise ex, put_node n2 r1, results, w2)
                 | (Ok (ok, v, err), n2, w2) \<Rightarrow>
                     close_node Q ch node ok v (Some err) r1 n2 results w2)
              else
                (case fan_out Q ch r1 node base bucket_edges (True, []) n1 w1 of
                   (Err e, n2, w2) \<Rightarrow> (Err e, put_node n2 r1, results, w2)
                 | (Raise ex, n2, w2) \<Rightarrow> (Raise ex, put_node n2 r1, results, w2)
                 | (Ok (ok, vs), n2, w2) \<Rightarrow> close_node Q ch node ok (JList vs) None r1 n2 results w2))"

section \<open>The waves\<close>

definition nodes_by_id :: "cgraph \<Rightarrow> string \<Rightarrow> cnode option" where
  "nodes_by_id g i = map_of (rev (map (\<lambda>n. (n_id n, n)) (g_nodes g))) i"

text \<open>
  The pool of one wave: every node is submitted and runs; an unknown node ends the submission,
  and the pool still waits for the others.
\<close>

fun run_wave ::
  "'c orchestrator \<Rightarrow> choreography \<Rightarrow> string list \<Rightarrow> choreography_run \<Rightarrow> (string, json) dict \<Rightarrow> 'c world \<Rightarrow>
   (string \<times> bool res) list res \<times> choreography_run \<times> (string, json) dict \<times> 'c world" where
  "run_wave Q ch [] r results w = (Ok [], r, results, w)"
| "run_wave Q ch (i # is') r results w =
    (case nodes_by_id (ch_graph ch) i of
       None \<Rightarrow> (Raise KeyError, r, results, w)
     | Some node \<Rightarrow>
         let (b, r1, results1, w1) = run_node Q ch node r results w;
             (rest, r2, results2, w2) = run_wave Q ch is' r1 results1 w1
         in (bind_res rest (\<lambda>bs. Ok ((i, b) # bs)), r2, results2, w2))"

fun cancel_nodes ::
  "'c orchestrator \<Rightarrow> string list \<Rightarrow> choreography_run \<Rightarrow> 'c world \<Rightarrow> choreography_run \<times> 'c world" where
  "cancel_nodes Q [] r w = (r, w)"
| "cancel_nodes Q (i # is') r w =
    (case map_of (r_nodes r) i of
       None \<Rightarrow> cancel_nodes Q is' r w
     | Some n \<Rightarrow>
         if nr_status n = Pending then
           (let (r', w') = finish_node Q r n Cancelled w in cancel_nodes Q is' r' w')
         else cancel_nodes Q is' r w)"

text \<open>
  The results of a wave in order. The accumulator is \<open>any_failed\<close> and \<open>cancelled_or_failed\<close>.
\<close>

fun settle_wave ::
  "'c orchestrator \<Rightarrow> cgraph \<Rightarrow> (string \<times> bool res) list \<Rightarrow> bool \<times> string list \<Rightarrow> choreography_run \<Rightarrow>
   'c world \<Rightarrow> (bool \<times> string list) res \<times> choreography_run \<times> 'c world" where
  "settle_wave Q g [] acc r w = (Ok acc, r, w)"
| "settle_wave Q g ((i, Ok True) # bs) acc r w = settle_wave Q g bs acc r w"
| "settle_wave Q g ((i, Ok False) # bs) (any_failed, dead) r w =
    (let new = filter (\<lambda>c. c \<notin> set dead) (downstream_of g i);
         (r', w') = cancel_nodes Q new r w
     in settle_wave Q g bs (True, dead @ new) r' w')"
| "settle_wave Q g ((i, Err e) # bs) acc r w = (Err e, r, w)"
| "settle_wave Q g ((i, Raise ex) # bs) acc r w = (Raise ex, r, w)"

fun run_waves ::
  "'c orchestrator \<Rightarrow> choreography \<Rightarrow> string list list \<Rightarrow> bool \<times> string list \<Rightarrow> choreography_run \<Rightarrow>
   (string, json) dict \<Rightarrow> 'c world \<Rightarrow> bool res \<times> choreography_run \<times> 'c world" where
  "run_waves Q ch [] acc r results w = (Ok (fst acc), r, w)"
| "run_waves Q ch (wave # waves) acc r results w =
    (if is_stopped r w then (Ok (fst acc), r, w)
     else
       let runnable = filter (\<lambda>i. i \<notin> set (snd acc)) wave in
       if runnable = [] then run_waves Q ch waves acc r results w
       else
         (let (bs, r1, results1, w1) = run_wave Q ch runnable r results w in
          case bs of
            Err e \<Rightarrow> (Err e, r1, w1)
          | Raise ex \<Rightarrow> (Raise ex, r1, w1)
          | Ok bs' \<Rightarrow>
              (case settle_wave Q (ch_graph ch) bs' acc r1 w1 of
                 (Ok acc', r2, w2) \<Rightarrow> run_waves Q ch waves acc' r2 results1 w2
               | (Err e, r2, w2) \<Rightarrow> (Err e, r2, w2)
               | (Raise ex, r2, w2) \<Rightarrow> (Raise ex, r2, w2))))"

definition execute_run ::
  "'c orchestrator \<Rightarrow> choreography \<Rightarrow> choreography_run \<Rightarrow> 'c world \<Rightarrow> unit res \<times> choreography_run \<times> 'c world" where
  "execute_run Q ch r w =
    (let E = vem_env Q; r1 = r\<lparr>r_status := Running\<rparr>; w1 = broadcast_status r1 (run_save E r1 w);
         (waves, failed) = (case topological_waves (ch_graph ch) of Ok ws \<Rightarrow> (ws, False) | _ \<Rightarrow> ([], True))
     in case run_waves Q ch waves (failed, []) r1 [] w1 of
          (Err e, r2, w2) \<Rightarrow> (Err e, r2, w2)
        | (Raise ex, r2, w2) \<Rightarrow> (Raise ex, r2, w2)
        | (Ok any_failed, r2, w2) \<Rightarrow>
            let r3 = r2\<lparr>r_status := (if is_stopped r2 w2 then Cancelled else if any_failed then Failed else Completed),
                       r_finished_at := JStr (now_iso Q w2)\<rparr>;
                w3 = broadcast_status r3 (run_save E r3 w2)
            in (Ok (), r3, w3\<lparr>live_jobs := dpop (r_id r) (live_jobs w3), stop_flags := dpop (r_id r) (stop_flags w3)\<rparr>))"

section \<open>Starting and stopping a run\<close>

definition assert_owner :: "choreography \<Rightarrow> string \<Rightarrow> domain_error option" where
  "assert_owner c user = (if ch_owner c = JStr user then None
     else Some (NotOwnerError (user @ '' is not the owner of choreography '' @ py_str (ch_id c))))"

text \<open>The lookup and the owner check that the use cases on one choreography begin with.\<close>

definition owned_choreography :: "'c vem \<Rightarrow> string \<Rightarrow> string \<Rightarrow> 'c world \<Rightarrow> choreography outcome" where
  "owned_choreography E cid user w =
    then_do (choreography_get E (rm w) (JStr cid)) (\<lambda>found. case found of
      None \<Rightarrow> Refused (NotFoundError ''choreography not found'')
    | Some c \<Rightarrow> (case assert_owner c user of Some e \<Rightarrow> Refused e | None \<Rightarrow> Done c))"

definition max_concurrency_of :: "function_version option \<Rightarrow> json res" where
  "max_concurrency_of f =
    (let spec = (case f of None \<Rightarrow> JNull | Some v \<Rightarrow> fv_runtime_spec v) in
     if \<not> py_truthy spec then Ok (JInt 1)
     else case spec of JObj d \<Rightarrow> Ok (dget d ''max_concurrency'' (JInt 1)) | _ \<Rightarrow> Raise AttributeError)"

fun concurrency_limits ::
  "'c vem \<Rightarrow> 'c read_model \<Rightarrow> cnode list \<Rightarrow> (string, json) dict \<Rightarrow> (string, json) dict res" where
  "concurrency_limits E s [] limits = Ok limits"
| "concurrency_limits E s (n # ns) limits =
    (if \<not> runs_function n then concurrency_limits E s ns limits
     else bind_res (function_get E s (json_str (n_function_id n)) (json_int (n_function_version n))) (\<lambda>f.
          bind_res (max_concurrency_of f) (\<lambda>m.
            concurrency_limits E s ns (dput (the (n_function_id n)) m limits))))"

definition validate_choreography :: "'c vem \<Rightarrow> 'c read_model \<Rightarrow> cgraph \<Rightarrow> violation list res" where
  "validate_choreography E s g =
    bind_res (concurrency_limits E s (g_nodes g) []) (\<lambda>limits. check_concurrency g limits)"

definition violation_text :: "violation \<Rightarrow> string" where
  "violation_text v = ''node '' @ v_node_id v @ '' needs '' @ str_int (v_required v)
     @ '' concurrent slots, max_concurrency is '' @ py_str (v_max v)"

definition new_run :: "string \<Rightarrow> string \<Rightarrow> cgraph \<Rightarrow> json \<Rightarrow> choreography_run" where
  "new_run rid cid g t = \<lparr>r_id = rid, r_choreography_id = cid, r_status = Pending,
     r_nodes = dmerge [] (map (\<lambda>n. (n_id n, new_node_run (n_id n))) (g_nodes g)),
     r_started_at = t, r_finished_at = JNull\<rparr>"

definition start_run ::
  "'c orchestrator \<Rightarrow> string \<Rightarrow> string \<Rightarrow> string \<Rightarrow> 'c world \<Rightarrow> (choreography \<times> choreography_run) outcome \<times> 'c world" where
  "start_run Q rid cid user w =
    (let E = vem_env Q in
     case owned_choreography E cid user w of
       Refused e \<Rightarrow> (Refused e, w)
     | Crashed ex \<Rightarrow> (Crashed ex, w)
     | Done c \<Rightarrow>
         if has_active_run E cid w then (Refused (ConflictError ''choreography already has an active run''), w)
         else
           (case validate_choreography E (rm w) (ch_graph c) of
              Err e \<Rightarrow> (Crashed (PyRaised e), w)
            | Raise ex \<Rightarrow> (Crashed ex, w)
            | Ok vs \<Rightarrow>
                if vs \<noteq> [] then
                  (Refused (ConflictError (''concurrency validation failed: '' @ py_join ''; '' (map violation_text vs))), w)
                else
                  let r = new_run rid cid (ch_graph c) (JStr (now_iso Q w)) in
                  (Done (c, r),
                   (run_save E r w)\<lparr>live_jobs := dput rid [] (live_jobs w), stop_flags := dput rid False (stop_flags w)\<rparr>)))"

fun cancel_jobs :: "'c orchestrator \<Rightarrow> (json \<times> string) list \<Rightarrow> 'c world \<Rightarrow> unit res \<times> 'c world" where
  "cancel_jobs Q [] w = (Ok (), w)"
| "cancel_jobs Q ((jid, uri) # js) w =
    (case send_command Q uri (json_command ''JOB_CANCEL'' [(''job_id'', jid)]) w of
       (Raise ex, w') \<Rightarrow> (Raise ex, w')
     | (_, w') \<Rightarrow> cancel_jobs Q js w')"

text \<open>
  The run read for a cancellation is a copy: the document, of which the status and the end are
  written back. The flag exists while the run's thread has it registered.
\<close>

definition cancel_run :: "'c orchestrator \<Rightarrow> string \<Rightarrow> string \<Rightarrow> 'c world \<Rightarrow> unit outcome \<times> 'c world" where
  "cancel_run Q rid user w =
    (let E = vem_env Q in
     case find_one (db E) (JStr rid) (run_docs w) of
       None \<Rightarrow> (Refused (NotFoundError ''run not found''), w)
     | Some d \<Rightarrow>
         (case choreography_get E (rm w) (doc_get d ''choreography_id'') of
            Err e \<Rightarrow> (Crashed (PyRaised e), w)
          | Raise ex \<Rightarrow> (Crashed ex, w)
          | Ok found \<Rightarrow>
              (case Option.bind found (\<lambda>c. assert_owner c user) of
                 Some e \<Rightarrow> (Refused e, w)
               | None \<Rightarrow>
                   if \<not> doc_active d then (Refused (ConflictError ''run is not active''), w)
                   else
                     (let w1 = (if map_of (stop_flags w) rid = None then w
                                else w\<lparr>stop_flags := dput rid True (stop_flags w)\<rparr>) in
                      case cancel_jobs Q (dget (live_jobs w1) rid []) w1 of
                        (Ok _, w2) \<Rightarrow>
                          (Done (), w2\<lparr>run_docs := set_fields (db E) (JStr rid)
                             (d(''status'' \<mapsto> JStr (run_status_value Cancelled),
                                ''finished_at'' \<mapsto> JStr (now_iso Q w2))) (run_docs w2)\<rparr>)
                      | (Err e, w2) \<Rightarrow> (Crashed (PyRaised e), w2)
                      | (Raise ex, w2) \<Rightarrow> (Crashed ex, w2)))))"

section \<open>Creating, changing and deleting\<close>

definition choreography_stream :: "string \<Rightarrow> string" where
  "choreography_stream i = ''choreographies-'' @ i"

definition publish_world :: "string \<Rightarrow> string \<Rightarrow> event_data \<Rightarrow> 'c world \<Rightarrow> 'c world" where
  "publish_world cid ty data w = w\<lparr>rm := publish (choreography_stream cid) ty data (rm w)\<rparr>"

definition create_choreography ::
  "'c vem \<Rightarrow> (nat \<Rightarrow> string \<times> string) \<Rightarrow> string \<Rightarrow> string \<Rightarrow> string \<Rightarrow> cgraph \<Rightarrow> 'c world \<Rightarrow> event_data outcome \<times> 'c world" where
  "create_choreography E fresh new_id name owner g w =
    (let data = event_dump (next_fresh fresh (rm w))
           [(''choreography_id'', JStr new_id), (''name'', JStr name), (''owner_user_id'', JStr owner),
            (''graph'', dump_graph E g)]
     in (Done data, publish_world new_id ''ChoreographyCreated'' data w))"

definition update_choreography ::
  "'c vem \<Rightarrow> (nat \<Rightarrow> string \<times> string) \<Rightarrow> string \<Rightarrow> string \<Rightarrow> string \<Rightarrow> cgraph \<Rightarrow> 'c world \<Rightarrow> event_data outcome \<times> 'c world" where
  "update_choreography E fresh cid user name g w =
    (case owned_choreography E cid user w of
       Refused e \<Rightarrow> (Refused e, w)
     | Crashed ex \<Rightarrow> (Crashed ex, w)
     | Done c \<Rightarrow>
         if has_active_run E cid w then
           (Refused (ConflictError ''choreography has an active run -- stop it before updating''), w)
         else
           let data = event_dump (next_fresh fresh (rm w))
                 [(''choreography_id'', JStr cid), (''name'', JStr name), (''graph'', dump_graph E g)]
           in (Done data, publish_world cid ''ChoreographyUpdated'' data w))"

definition delete_choreography ::
  "'c vem \<Rightarrow> (nat \<Rightarrow> string \<times> string) \<Rightarrow> string \<Rightarrow> string \<Rightarrow> 'c world \<Rightarrow> unit outcome \<times> 'c world" where
  "delete_choreography E fresh cid user w =
    (case owned_choreography E cid user w of
       Refused e \<Rightarrow> (Refused e, w)
     | Crashed ex \<Rightarrow> (Crashed ex, w)
     | Done c \<Rightarrow>
         if has_active_run E cid w then
           (Refused (ConflictError ''choreography has an active run -- stop it before deleting''), w)
         else (Done (), publish_world cid ''ChoreographyDeleted''
                 (event_dump (next_fresh fresh (rm w)) [(''choreography_id'', JStr cid)]) w))"

definition purge_choreography :: "'c vem \<Rightarrow> string \<Rightarrow> string \<Rightarrow> 'c world \<Rightarrow> unit outcome \<times> 'c world" where
  "purge_choreography E cid user w =
    (case find_one (db E) (JStr cid) (choreographies (rm w)) of
       None \<Rightarrow> (Refused (NotFoundError ''choreography not found''), w)
     | Some d \<Rightarrow>
         if doc_get d ''owner_user_id'' \<noteq> JStr user then
           (Refused (NotOwnerError ''caller does not own this choreography''), w)
         else if doc_get d ''deleted_at'' = JNull then
           (Refused (ConflictError ''choreography must be deleted first''), w)
         else
           let s1 = (rm w)\<lparr>choreographies := delete_one (db E) (JStr cid) (choreographies (rm w))\<rparr>
           in (Done (), w\<lparr>rm := snd (activity_purge E [([''meta'', ''choreography_id''], JStr cid)] s1),
                 run_docs := fst (delete_where (db E) [([''choreography_id''], JStr cid)] (run_docs w))\<rparr>))"

section \<open>What a dispatch leaves of a node's state\<close>

lemma after_cancel_node [simp]: "fst (snd (after_cancel rw err n)) = n"
  by (simp add: after_cancel_def split: prod.split res.split)

lemma final_reply_node [simp]:
  "nr_node_id (snd (final_reply r n)) = nr_node_id n" "nr_attempt (snd (final_reply r n)) = nr_attempt n"
  by (simp_all add: final_reply_def split: res.split)

lemma poll_node [simp]:
  "nr_node_id (fst (snd (poll_until_terminal Q r dl uri jid n w))) = nr_node_id n \<and>
   nr_attempt (fst (snd (poll_until_terminal Q r dl uri jid n w))) = nr_attempt n"
proof (induction Q r dl uri jid n w rule: poll_until_terminal.induct)
  case (1 Q r dl uri jid n w)
  obtain x w1 where send: "send_command Q uri (json_command ''JOB_RESULT'' [(''job_id'', jid)]) w = (x, w1)"
    by (cases "send_command Q uri (json_command ''JOB_RESULT'' [(''job_id'', jid)]) w")
  show ?case
    using "1.IH" [OF _ _ send [symmetric]]
    by (subst (1 2) poll_until_terminal.simps) (simp add: send case_prod_beta split: res.split)
qed

lemma dispatch_once_node:
  "nr_node_id (fst (snd (dispatch_once Q r node ps n w))) = nr_node_id n \<and>
   nr_attempt (fst (snd (dispatch_once Q r node ps n w))) = nr_attempt n"
  by (auto simp: dispatch_once_def Let_def case_prod_beta split: outcome.split res.split)

lemma retries_node:
  "nr_node_id (fst (snd (dispatch_with_retries Q r node ps tries n w))) = nr_node_id n"
proof (induction Q r node ps tries n w rule: dispatch_with_retries.induct)
  case (1 Q r node ps tries n w)
  obtain x n1 w1 where once: "dispatch_once Q r node ps n w = (x, n1, w1)"
    by (cases "dispatch_once Q r node ps n w") auto
  have n1: "nr_node_id n1 = nr_node_id n" using dispatch_once_node [of Q r node ps n w] once by simp
  show ?case
  proof (cases "x")
    case (Ok d)
    obtain good v err where d: "d = (good, v, err)" by (cases d)
    then show ?thesis
      using n1 "1.IH" [OF _ once [symmetric] Ok d [symmetric] _ refl refl]
      by (subst dispatch_with_retries.simps) (simp add: once Ok split: res.split bool.split)
  qed (use n1 in \<open>subst dispatch_with_retries.simps; simp add: once\<close>)+
qed

lemma process_items_node: "nr_node_id (fst (snd (process_items Q r node base p is n w))) = nr_node_id n"
proof (induction "is" arbitrary: n w)
  case (Cons i "is")
  then show ?case using retries_node by (simp add: case_prod_beta)
qed simp

lemma take_results_node: "nr_node_id (snd (take_results ds acc n)) = nr_node_id n"
  by (induction ds acc n rule: take_results.induct) simp_all

lemma fan_out_node: "nr_node_id (fst (snd (fan_out Q ch r node base es acc n w))) = nr_node_id n"
proof (induction es arbitrary: acc n w)
  case (Cons e es)
  have step: "nr_node_id (snd (take_results ds acc (fst (snd (process_items Q r node base p is n w))))) = nr_node_id n"
    for ds p "is"
    by (simp add: take_results_node process_items_node)
  show ?case
    using Cons.IH step by (auto simp: case_prod_beta Let_def split: res.split)
qed simp

section \<open>What a node leaves of the run\<close>

definition run_ok :: "choreography_run \<Rightarrow> bool" where
  "run_ok r = (\<forall>i n. map_of (r_nodes r) i = Some n \<longrightarrow> nr_node_id n = i)"

text \<open>The statuses change at \<open>i\<close> only.\<close>

definition touches :: "string \<Rightarrow> choreography_run \<Rightarrow> choreography_run \<Rightarrow> bool" where
  "touches i r r' = (run_ok r' \<and> r_id r' = r_id r \<and> (\<forall>j. j \<noteq> i \<longrightarrow> node_status r' j = node_status r j) \<and>
     (node_status r i \<noteq> None \<longrightarrow> node_status r' i \<noteq> None))"

lemma touches_trans: "touches i r r' \<Longrightarrow> touches i r' r'' \<Longrightarrow> touches i r r''"
  by (auto simp: touches_def)

lemma node_status_put: "node_status (put_node n r) j = (if j = nr_node_id n then Some (nr_status n) else node_status r j)"
  by (simp add: node_status_def put_node_def)

lemma touches_put: "run_ok r \<Longrightarrow> nr_node_id n = i \<Longrightarrow> touches i r (put_node n r)"
  by (auto simp: touches_def node_status_put) (auto simp: run_ok_def put_node_def split: if_splits)

lemma finish_node_run [simp]: "fst (finish_node Q r n st w) = put_node (n\<lparr>nr_status := st\<rparr>) r"
  by (simp add: finish_node_def Let_def)

lemma run_ok_touched: "touches i r r' \<Longrightarrow> run_ok r'"
  by (simp add: touches_def)

lemma close_node_facts:
  assumes "close_node Q ch node good v err r n results w = (b, r', results', w')"
    and "run_ok r" and n: "nr_node_id n = i"
  shows "touches i r r'" and "b = Ok good' \<Longrightarrow> node_status r' i = Some (if good' then Completed else Failed)"
  using assms touches_put [OF assms(2), of _ i]
  by (auto simp: close_node_def Let_def node_status_put split: res.splits prod.splits option.splits
      dest!: arg_cong [where f = fst])

lemma run_node_facts:
  assumes run: "run_node Q ch node r results w = (b, r', results', w')" and ok: "run_ok r"
  shows "touches (n_id node) r r'"
    and "b = Ok good \<Longrightarrow> node_status r' (n_id node) = Some (if good then Completed else Failed)"
proof -
  let ?i = "n_id node"
  have "touches ?i r r' \<and> (b = Ok good \<longrightarrow> node_status r' ?i = Some (if good then Completed else Failed))"
  proof (cases "map_of (r_nodes r) ?i")
    case None
    then show ?thesis using run ok by (auto simp: run_node_def touches_def)
  next
    case (Some n0)
    let ?n1 = "n0\<lparr>nr_status := Running\<rparr>" and ?r1 = "put_node (n0\<lparr>nr_status := Running\<rparr>) r"
    obtain w1 where w1: "finish_node Q r n0 Running w = (?r1, w1)"
      using finish_node_run [of Q r n0 Running w] by (metis prod.collapse)
    have id: "nr_node_id n0 = ?i" using Some ok by (simp add: run_ok_def)
    have r1: "touches ?i r ?r1" using touches_put [OF ok, of ?n1 ?i] id by simp
    note ok1 = run_ok_touched [OF r1]
    have put: "touches ?i r (put_node n2 ?r1)" if "nr_node_id n2 = nr_node_id ?n1" for n2
      using touches_trans [OF r1 touches_put [OF ok1]] that id by simp
    have close: "touches ?i r r' \<and> (b = Ok good \<longrightarrow> node_status r' ?i = Some (if good then Completed else Failed))"
      if "close_node Q ch node g v err ?r1 n2 results w2 = (b, r', results', w')" "nr_node_id n2 = nr_node_id ?n1"
      for g v err n2 w2
      using touches_trans [OF r1] close_node_facts [OF that(1) ok1, of ?i] that(2) id by auto
    show ?thesis
    proof (cases "n_kind node = Bucket_Node")
      case True
      then show ?thesis using run put [of "?n1\<lparr>nr_status := Completed\<rparr>"] id
        by (auto simp: run_node_def Some w1 Let_def node_status_put case_prod_beta)
    next
      case False
      let ?es = "filter (\<lambda>e. e_target e = ?i) (g_edges (ch_graph ch))"
      let ?bs = "filter (\<lambda>e. e_kind e = Bucket_To_Fn) ?es"
      let ?base = "base_params results (filter (\<lambda>e. e_kind e = Fn_To_Fn) ?es)"
      show ?thesis
      proof (cases "?bs = []")
        case True
        obtain x n2 w2 where d: "dispatch_with_retries Q ?r1 node ?base 0 ?n1 w1 = (x, n2, w2)"
          by (cases "dispatch_with_retries Q ?r1 node ?base 0 ?n1 w1") auto
        have n2: "nr_node_id n2 = nr_node_id ?n1" using retries_node d by (metis fst_conv snd_conv)
        show ?thesis using run False True d put [OF n2] close [OF _ n2]
          by (cases x) (auto simp: run_node_def Some w1 Let_def split: prod.splits)
      next
        case bs: False
        obtain x n2 w2 where d: "fan_out Q ch ?r1 node ?base ?bs (True, []) ?n1 w1 = (x, n2, w2)"
          by (cases "fan_out Q ch ?r1 node ?base ?bs (True, []) ?n1 w1") auto
        have n2: "nr_node_id n2 = nr_node_id ?n1" using fan_out_node d by (metis fst_conv snd_conv)
        show ?thesis using run False bs d put [OF n2] close [OF _ n2]
          by (cases x) (auto simp: run_node_def Some w1 Let_def split: prod.splits)
      qed
    qed
  qed
  then show "touches ?i r r'"
    and "b = Ok good \<Longrightarrow> node_status r' ?i = Some (if good then Completed else Failed)" by auto
qed

section \<open>What a wave leaves of the run\<close>

lemma nodes_by_id_id: "nodes_by_id g i = Some node \<Longrightarrow> n_id node = i \<and> i \<in> node_ids g"
  unfolding nodes_by_id_def node_ids_def by (drule map_of_SomeD) auto

lemma run_wave_facts:
  assumes "run_wave Q ch is r results w = (Ok bs, r', results', w')" and "run_ok r" and "distinct is"
  shows "map fst bs = is \<and> run_ok r' \<and> r_id r' = r_id r \<and> set is \<subseteq> node_ids (ch_graph ch) \<and>
    (\<forall>j. j \<notin> set is \<longrightarrow> node_status r' j = node_status r j) \<and>
    (\<forall>j good. (j, Ok good) \<in> set bs \<longrightarrow> node_status r' j = Some (if good then Completed else Failed))"
  using assms
proof (induction "is" arbitrary: r results w bs)
  case (Cons i "is")
  obtain node where node: "nodes_by_id (ch_graph ch) i = Some node"
    using Cons.prems(1) by (auto split: option.splits)
  obtain b r1 results1 w1 where run: "run_node Q ch node r results w = (b, r1, results1, w1)"
    by (cases "run_node Q ch node r results w") auto
  note id = nodes_by_id_id [OF node]
  note facts = run_node_facts [OF run Cons.prems(2)]
  obtain bs' where rest: "run_wave Q ch is r1 results1 w1 = (Ok bs', r', results', w')" "bs = (i, b) # bs'"
    using Cons.prems(1) node run by (auto simp: bind_res_def split: prod.splits res.splits)
  have "run_ok r1" using facts(1) by (rule run_ok_touched)
  moreover have "distinct is" "i \<notin> set is" using Cons.prems(3) by auto
  ultimately show ?case using Cons.IH [OF rest(1)] rest(2) facts id
    by (auto simp: touches_def)
qed simp

lemma cancel_nodes_facts:
  assumes "run_ok r"
  shows "run_ok (fst (cancel_nodes Q is r w)) \<and> r_id (fst (cancel_nodes Q is r w)) = r_id r \<and>
    (\<forall>j. node_status (fst (cancel_nodes Q is r w)) j =
      (if j \<in> set is \<and> node_status r j = Some Pending then Some Cancelled else node_status r j))"
  using assms
proof (induction "is" arbitrary: r w)
  case (Cons i "is")
  show ?case
  proof (cases "\<exists>n. map_of (r_nodes r) i = Some n \<and> nr_status n = Pending")
    case True
    then obtain n where n: "map_of (r_nodes r) i = Some n" "nr_status n = Pending" by blast
    then have id: "nr_node_id n = i" using Cons.prems by (simp add: run_ok_def)
    let ?r1 = "put_node (n\<lparr>nr_status := Cancelled\<rparr>) r"
    have "touches i r ?r1" using touches_put [OF Cons.prems, of "n\<lparr>nr_status := Cancelled\<rparr>" i] id by simp
    moreover have "fst (cancel_nodes Q (i # is) r w) = fst (cancel_nodes Q is ?r1 (snd (finish_node Q r n Cancelled w)))"
      using n by (simp add: case_prod_beta)
    moreover have "node_status r i = Some Pending"
      "\<And>j. node_status ?r1 j = (if j = i then Some Cancelled else node_status r j)"
      using n id by (simp_all add: node_status_def put_node_def)
    ultimately show ?thesis using Cons.IH [of ?r1] by (simp add: touches_def del: cancel_nodes.simps)
  next
    case False
    then have "node_status r i \<noteq> Some Pending" by (auto simp: node_status_def)
    then show ?thesis using Cons.IH [OF Cons.prems] False by (auto split: option.split)
  qed
qed simp

lemma settle_wave_facts:
  assumes "settle_wave Q g bs (f, dead) r w = (Ok (f', dead'), r', w')" and "run_ok r"
  shows "run_ok r' \<and> r_id r' = r_id r \<and> (\<forall>(i, b) \<in> set bs. \<exists>good. b = Ok good) \<and>
    f' = (f \<or> (\<exists>i. (i, Ok False) \<in> set bs)) \<and>
    set dead' = set dead \<union> (\<Union>i \<in> {i. (i, Ok False) \<in> set bs}. set (downstream_of g i)) \<and>
    (\<forall>j. node_status r' j =
      (if j \<in> set dead' - set dead \<and> node_status r j = Some Pending then Some Cancelled else node_status r j))"
  using assms
proof (induction Q g bs "(f, dead)" r w arbitrary: f dead rule: settle_wave.induct)
  case (3 Q g i bs f dead r w)
  let ?new = "filter (\<lambda>c. c \<notin> set dead) (downstream_of g i)"
  obtain r1 w1 where c: "cancel_nodes Q ?new r w = (r1, w1)" by (cases "cancel_nodes Q ?new r w")
  note facts = cancel_nodes_facts [OF 3(3), of Q ?new w, unfolded c fst_conv]
  have rest: "settle_wave Q g bs (True, dead @ ?new) r1 w1 = (Ok (f', dead'), r', w')"
    using 3(2) c by simp
  have "run_ok r1" using facts by blast
  from 3(1) [OF refl c [symmetric] refl rest this]
  have IH: "run_ok r' \<and> r_id r' = r_id r1 \<and> (\<forall>(i, b) \<in> set bs. \<exists>good. b = Ok good) \<and> f' \<and>
    set dead' = set (dead @ ?new) \<union> (\<Union>i \<in> {i. (i, Ok False) \<in> set bs}. set (downstream_of g i)) \<and>
    (\<forall>j. node_status r' j = (if j \<in> set dead' - set (dead @ ?new) \<and> node_status r1 j = Some Pending
       then Some Cancelled else node_status r1 j))" by simp
  have "set dead' = set dead \<union> (\<Union>i \<in> {k. (k, Ok False) \<in> set ((i, Ok False) # bs)}. set (downstream_of g i))"
    using IH by auto
  moreover have "node_status r' j =
      (if j \<in> set dead' - set dead \<and> node_status r j = Some Pending then Some Cancelled else node_status r j)" for j
    using IH facts by (auto split: if_splits)
  ultimately show ?case using IH facts by auto
qed auto

section \<open>The invariant of the waves\<close>

text \<open>
  After the waves whose nodes are \<open>seen_ids\<close>: these completed or failed unless they are dead,
  the dead are what can be reached from a failure, and nothing else has been started.
\<close>

definition wave_inv :: "cgraph \<Rightarrow> string set \<Rightarrow> bool \<Rightarrow> string set \<Rightarrow> choreography_run \<Rightarrow> bool" where
  "wave_inv g seen_ids failed dead r =
    (run_ok r \<and>
     (\<forall>j. node_status r j \<in> {None, Some Pending, Some Completed, Some Failed, Some Cancelled}) \<and>
     (\<forall>j. node_status r j \<in> {Some Completed, Some Failed} \<longleftrightarrow> j \<in> seen_ids \<and> j \<notin> dead) \<and>
     (\<forall>j. node_status r j = Some Cancelled \<longrightarrow> j \<in> dead) \<and>
     (\<forall>j \<in> node_ids g. node_status r j \<noteq> None) \<and>
     (\<forall>j \<in> dead. node_status r j \<noteq> Some Pending) \<and>
     dead = {m. \<exists>i. node_status r i = Some Failed \<and> (i, m) \<in> (edge_rel g)\<^sup>+} \<and>
     failed = (\<exists>i. node_status r i = Some Failed) \<and>
     (\<forall>u v. (u, v) \<in> edge_rel g \<longrightarrow> node_status r v \<in> {Some Completed, Some Failed} \<longrightarrow>
       node_status r u = Some Completed))"

text \<open>The waves that are left, each of which depends on earlier ones only.\<close>

fun waves_left :: "cgraph \<Rightarrow> string set \<Rightarrow> string list list \<Rightarrow> bool" where
  "waves_left g seen_ids [] = True"
| "waves_left g seen_ids (wave # waves) =
    (distinct wave \<and> set wave \<inter> seen_ids = {} \<and> (edge_rel g)\<inverse> `` (seen_ids \<union> set wave) \<subseteq> seen_ids \<and>
     waves_left g (seen_ids \<union> set wave) waves)"

lemma pred_closed_trancl:
  assumes "E\<inverse> `` (S \<union> W) \<subseteq> S" and "(i, m) \<in> E\<^sup>+" and "m \<in> S \<union> W"
  shows "i \<in> S"
  using assms(2,3)
proof (induction rule: converse_trancl_induct)
  case (base y) then show ?case using assms(1) by blast
next
  case (step y z) then show ?case using assms(1) by blast
qed

text \<open>What one wave does to the statuses, \<open>bs\<close> being the results of its nodes.\<close>

lemma wave_statuses:
  assumes ok: "run_ok r" and fresh: "\<forall>i \<in> set wave - set dead. node_status r i \<noteq> Some Failed"
    and closed: "set wave \<inter> S = {}" "(edge_rel g)\<inverse> `` (S \<union> set wave) \<subseteq> S" "distinct wave"
    and run: "run_wave Q ch (filter (\<lambda>i. i \<notin> set dead) wave) r results w = (Ok bs, r1, results1, w1)"
    and settle: "settle_wave Q g bs (f, dead) r1 w1 = (Ok (f', dead'), r2, w2)"
  defines "bad \<equiv> {i. (i, Ok False) \<in> set bs}"
  shows "run_ok r2" and "r_id r2 = r_id r" and "f' = (f \<or> bad \<noteq> {})"
    and "set dead' = set dead \<union> {m. \<exists>i \<in> bad. (i, m) \<in> (edge_rel g)\<^sup>+}"
    and "\<And>m. m \<in> set dead' - set dead \<Longrightarrow> m \<notin> S \<union> set wave"
    and "\<And>j. node_status r2 j =
      (if j \<in> set wave - set dead then Some (if (j, Ok True) \<in> set bs then Completed else Failed)
       else if j \<in> set dead' - set dead \<and> node_status r j = Some Pending then Some Cancelled else node_status r j)"
    and "\<And>i. node_status r2 i = Some Failed \<longleftrightarrow> node_status r i = Some Failed \<or> i \<in> bad"
proof -
  let ?R = "set wave - set dead" and ?E = "edge_rel g"
  let ?st = "node_status r" and ?st2 = "node_status r2"
  note a = run_wave_facts [OF run ok distinct_filter [OF closed(3)]]
  then have ok1: "run_ok r1" by blast
  note b = settle_wave_facts [OF settle ok1]
  have res: "\<exists>good. (i, Ok good) \<in> set bs" if "i \<in> ?R" for i
  proof -
    have "i \<in> set (map fst bs)" using a that by simp
    then show ?thesis using b by fastforce
  qed
  have bs: "i \<in> ?R" if "(i, x) \<in> set bs" for i x
  proof -
    have "i \<in> set (map fst bs)" using that by force
    then show ?thesis using a by simp
  qed
  have uniq: "good' = good" if "(i, Ok good') \<in> set bs" "(i, Ok good) \<in> set bs" for i good good'
  proof -
    have "node_status r1 i = Some (if good' then Completed else Failed)"
      "node_status r1 i = Some (if good then Completed else Failed)" using a that by blast+
    then show ?thesis by (cases good; cases good') simp_all
  qed
  have bad: "bad \<subseteq> ?R" using bs by (auto simp: bad_def)
  have dead': "set dead' = set dead \<union> {m. \<exists>i \<in> bad. (i, m) \<in> ?E\<^sup>+}"
    using b by (auto simp: set_downstream_of bad_def)
  have sub: "set dead \<subseteq> set dead'" using dead' by blast
  have new: "m \<notin> S \<union> set wave" if m: "m \<in> set dead' - set dead" for m
  proof
    assume "m \<in> S \<union> set wave"
    moreover obtain i where "i \<in> bad" "(i, m) \<in> ?E\<^sup>+" using m dead' by blast
    ultimately have "i \<in> S" using pred_closed_trancl closed(2) by metis
    then show False using \<open>i \<in> bad\<close> bad closed(1) by blast
  qed
  have st2: "?st2 j = (if j \<in> ?R then Some (if (j, Ok True) \<in> set bs then Completed else Failed)
      else if j \<in> set dead' - set dead \<and> ?st j = Some Pending then Some Cancelled else ?st j)" for j
  proof (cases "j \<in> ?R")
    case True
    then obtain good where good: "(j, Ok good) \<in> set bs" using res by blast
    then have "node_status r1 j = Some (if good then Completed else Failed)" using a by blast
    moreover have "good = ((j, Ok True) \<in> set bs)" using uniq [of j True good] good by (cases good) auto
    ultimately have "node_status r1 j = Some (if (j, Ok True) \<in> set bs then Completed else Failed)" by simp
    then show ?thesis using b new True by auto
  next
    case False
    then have "node_status r1 j = ?st j" using a by auto
    then show ?thesis using b False by auto
  qed
  have fail2: "?st2 i = Some Failed \<longleftrightarrow> ?st i = Some Failed \<or> i \<in> bad" for i
  proof (cases "i \<in> ?R")
    case True
    have "?st i \<noteq> Some Failed" using fresh True by blast
    moreover obtain good where "(i, Ok good) \<in> set bs" using res [OF True] by blast
    then have "(i, Ok True) \<notin> set bs \<longleftrightarrow> (i, Ok False) \<in> set bs"
      using uniq [of i True False] by (cases good) auto
    ultimately show ?thesis using st2 True by (auto simp: bad_def)
  next
    case False
    then show ?thesis using st2 bad by auto
  qed
  have f': "f' = (f \<or> bad \<noteq> {})" using b by (auto simp: bad_def)
  show "run_ok r2" "r_id r2 = r_id r" using a b by simp_all
  show "f' = (f \<or> bad \<noteq> {})" by (rule f')
  show "set dead' = set dead \<union> {m. \<exists>i \<in> bad. (i, m) \<in> ?E\<^sup>+}" by (rule dead')
  show "m \<notin> S \<union> set wave" if "m \<in> set dead' - set dead" for m using new that by blast
  show "?st2 j = (if j \<in> ?R then Some (if (j, Ok True) \<in> set bs then Completed else Failed)
      else if j \<in> set dead' - set dead \<and> ?st j = Some Pending then Some Cancelled else ?st j)" for j by (rule st2)
  show "?st2 i = Some Failed \<longleftrightarrow> ?st i = Some Failed \<or> i \<in> bad" for i by (rule fail2)
qed

lemma wave_inv_step:
  assumes inv: "wave_inv g S f (set dead) r"
    and closed: "set wave \<inter> S = {}" "(edge_rel g)\<inverse> `` (S \<union> set wave) \<subseteq> S" "distinct wave"
    and run: "run_wave Q ch (filter (\<lambda>i. i \<notin> set dead) wave) r results w = (Ok bs, r1, results1, w1)"
    and g: "g = ch_graph ch"
    and settle: "settle_wave Q g bs (f, dead) r1 w1 = (Ok (f', dead'), r2, w2)"
  shows "wave_inv g (S \<union> set wave) f' (set dead') r2" and "r_id r2 = r_id r"
proof -
  let ?R = "set wave - set dead" and ?E = "edge_rel g"
  let ?st = "node_status r" and ?st2 = "node_status r2"
  have ok: "run_ok r"
    and i_range: "\<And>j. ?st j \<in> {None, Some Pending, Some Completed, Some Failed, Some Cancelled}"
    and i_started: "\<And>j. ?st j \<in> {Some Completed, Some Failed} \<longleftrightarrow> j \<in> S \<and> j \<notin> set dead"
    and i_cancelled: "\<And>j. ?st j = Some Cancelled \<Longrightarrow> j \<in> set dead"
    and i_pending: "\<And>j. j \<in> set dead \<Longrightarrow> ?st j \<noteq> Some Pending"
    and i_known: "\<And>j. j \<in> node_ids g \<Longrightarrow> ?st j \<noteq> None"
    and i_dead: "set dead = {m. \<exists>i. ?st i = Some Failed \<and> (i, m) \<in> ?E\<^sup>+}"
    and i_failed: "f = (\<exists>i. ?st i = Some Failed)"
    using inv unfolding wave_inv_def by (auto simp only:)
  have fresh: "\<forall>i \<in> ?R. ?st i \<noteq> Some Failed"
  proof
    fix i assume "i \<in> ?R"
    then show "?st i \<noteq> Some Failed" using i_started [of i] closed(1) by auto
  qed
  note facts = wave_statuses [OF ok fresh closed run settle]
  note new = facts(5) and st2 = facts(6) and fail2 = facts(7)
  show "r_id r2 = r_id r" by (rule facts(2))
  have dead': "set dead' = set dead \<union> {m. \<exists>i \<in> {i. (i, Ok False) \<in> set bs}. (i, m) \<in> ?E\<^sup>+}" by (rule facts(4))
  then have sub: "set dead \<subseteq> set dead'" by blast
  have started: "?st2 j \<in> {Some Completed, Some Failed} \<longleftrightarrow> j \<in> S \<union> set wave \<and> j \<notin> set dead'" for j
    using i_started [of j] new [of j] st2 [of j] sub by (cases "j \<in> ?R") (auto split: if_splits)
  have reach: "set dead' = {m. \<exists>i. ?st2 i = Some Failed \<and> (i, m) \<in> ?E\<^sup>+}"
    unfolding dead' fail2 i_dead by blast
  have deps: "?st2 u = Some Completed" if e: "(u, v) \<in> ?E" and v: "?st2 v \<in> {Some Completed, Some Failed}" for u v
  proof -
    have "v \<in> S \<union> set wave" "v \<notin> set dead'" using started v by blast+
    then have "u \<in> S" using closed(2) e by blast
    moreover have "u \<notin> set dead'"
    proof
      assume "u \<in> set dead'"
      then obtain i where "?st2 i = Some Failed" "(i, u) \<in> ?E\<^sup>+" using reach by blast
      then have "v \<in> set dead'" using reach e by (auto intro: trancl_into_trancl)
      then show False using \<open>v \<notin> set dead'\<close> by blast
    qed
    ultimately have "?st2 u \<in> {Some Completed, Some Failed}" using started by blast
    moreover have "?st2 u \<noteq> Some Failed"
      using e reach \<open>v \<notin> set dead'\<close> by blast
    ultimately show ?thesis by blast
  qed
  have range: "?st2 j \<in> {None, Some Pending, Some Completed, Some Failed, Some Cancelled}" for j
    using i_range [of j] st2 [of j] by (auto split: if_splits)
  have cancelled: "?st2 j = Some Cancelled \<Longrightarrow> j \<in> set dead'" for j
    using i_cancelled [of j] st2 [of j] sub by (auto split: if_splits)
  have not_pending: "?st2 j \<noteq> Some Pending" if "j \<in> set dead'" for j
    using i_pending [of j] st2 [of j] that by (auto split: if_splits)
  have failed: "f' = (\<exists>i. ?st2 i = Some Failed)"
    using facts(3) fail2 i_failed by blast
  show "wave_inv g (S \<union> set wave) f' (set dead') r2"
    unfolding wave_inv_def
  proof (intro conjI)
    show "run_ok r2" by (rule facts(1))
    show "\<forall>j \<in> set dead'. ?st2 j \<noteq> Some Pending" using not_pending by blast
    show "\<forall>j \<in> node_ids g. ?st2 j \<noteq> None" using i_known st2 by simp
    show "\<forall>j. ?st2 j = Some Cancelled \<longrightarrow> j \<in> set dead'" using cancelled by blast
    show "\<forall>u v. (u, v) \<in> ?E \<longrightarrow> ?st2 v \<in> {Some Completed, Some Failed} \<longrightarrow> ?st2 u = Some Completed"
      using deps by blast
  qed (intro allI range started reach failed)+
qed

lemma run_waves_inv:
  assumes "run_waves Q ch waves (f, dead) r results w = (Ok f', r', w')"
    and "wave_inv (ch_graph ch) S f (set dead) r" and "waves_left (ch_graph ch) S waves"
  shows "\<exists>S' dead'. wave_inv (ch_graph ch) S' f' (set dead') r' \<and> r_id r' = r_id r \<and>
    (is_stopped r' w' \<or> S' = S \<union> set (concat waves))"
  using assms
proof (induction waves arbitrary: f dead r results w S)
  case Nil
  then show ?case by auto
next
  case (Cons wave waves)
  let ?R = "filter (\<lambda>i. i \<notin> set dead) wave"
  note left = Cons.prems(3)
  show ?case
  proof (cases "is_stopped r w")
    case True
    then show ?thesis using Cons.prems(1,2) by auto
  next
    case running: False
    obtain bs f1 dead1 r1 results1 w1 r2 w2 where run: "run_wave Q ch ?R r results w = (Ok bs, r1, results1, w1)"
      and settle: "settle_wave Q (ch_graph ch) bs (f, dead) r1 w1 = (Ok (f1, dead1), r2, w2)"
      and rest: "run_waves Q ch waves (f1, dead1) r2 results1 w2 = (Ok f', r', w')"
    proof (cases "?R = []")
      case True
      then have "run_waves Q ch waves (f, dead) r results w = (Ok f', r', w')" using Cons.prems(1) running by simp
      moreover have "run_wave Q ch ?R r results w = (Ok [], r, results, w)" unfolding True by simp
      moreover have "settle_wave Q (ch_graph ch) [] (f, dead) r w = (Ok (f, dead), r, w)" by simp
      ultimately show ?thesis using that by blast
    next
      case False
      then show ?thesis using Cons.prems(1) running that
        by (auto simp: Let_def split: prod.splits res.splits)
    qed
    have "wave_inv (ch_graph ch) (S \<union> set wave) f1 (set dead1) r2" and id: "r_id r2 = r_id r"
      using wave_inv_step [OF Cons.prems(2) _ _ _ run refl settle] left by auto
    moreover have "waves_left (ch_graph ch) (S \<union> set wave) waves" using left by simp
    moreover have "set (concat (wave # waves)) = set wave \<union> set (concat waves)" by simp
    ultimately show ?thesis using Cons.IH [OF rest] by (metis sup_assoc)
  qed
qed

lemma waves_left_ordered:
  assumes "distinct (concat ws)" and "set (concat ws) \<inter> S = {}" and "(edge_rel g)\<inverse> `` S \<subseteq> S"
    and "\<And>i s t. i < length ws \<Longrightarrow> t \<in> set (ws ! i) \<Longrightarrow> (s, t) \<in> edge_rel g \<Longrightarrow> s \<in> S \<union> set (concat (take i ws))"
  shows "waves_left g S ws"
  using assms
proof (induction ws arbitrary: S)
  case (Cons wave ws)
  have pred: "(edge_rel g)\<inverse> `` (S \<union> set wave) \<subseteq> S"
    using Cons.prems(3) Cons.prems(4) [of 0] by auto
  moreover have "waves_left g (S \<union> set wave) ws"
  proof (rule Cons.IH)
    show "s \<in> S \<union> set wave \<union> set (concat (take i ws))"
      if "i < length ws" "t \<in> set (ws ! i)" "(s, t) \<in> edge_rel g" for i s t
      using Cons.prems(4) [of "Suc i" t s] that by auto
  qed (use Cons.prems(1,2) pred in auto)
  ultimately show ?case using Cons.prems(1,2) by auto
qed simp

section \<open>What an execution leaves\<close>

lemma new_run_ok: "run_ok (new_run rid cid g t)"
proof -
  have "\<forall>i n. map_of (dmerge d (map (\<lambda>x. (n_id x, new_node_run (n_id x))) xs)) i = Some n \<longrightarrow> nr_node_id n = i"
    if "\<forall>i n. map_of d i = Some n \<longrightarrow> nr_node_id n = i" for d xs
    using that
  proof (induction xs arbitrary: d)
    case (Cons x xs)
    have "\<forall>i n. map_of (dput (n_id x) (new_node_run (n_id x)) d) i = Some n \<longrightarrow> nr_node_id n = i"
      using Cons.prems by (simp add: new_node_run_def)
    from Cons.IH [OF this] show ?case by simp
  qed simp
  from this [of "[]"] show ?thesis by (simp add: run_ok_def new_run_def)
qed

lemma new_run_status: "node_status (new_run rid cid g t) i = (if i \<in> node_ids g then Some Pending else None)"
proof -
  have "map_option nr_status (map_of (dmerge d (map (\<lambda>x. (n_id x, new_node_run (n_id x))) xs)) i) =
      (if i \<in> n_id ` set xs then Some Pending else map_option nr_status (map_of d i))" for d xs
  proof (induction xs arbitrary: d)
    case (Cons x xs)
    then show ?case by (simp add: new_node_run_def)
  qed simp
  from this [of "[]" "g_nodes g"] show ?thesis
    unfolding node_status_def new_run_def node_ids_def by simp
qed


text \<open>An orchestrator whose nodes never answer, a world with nothing in it, and the diamond.\<close>

definition silent :: "mem_coll orchestrator" where
  "silent = \<lparr>vem_env = mem_env, send_rpc = (\<lambda>uri c w. (Err (AxoErr WireError ''timed out''), w)),
     others = (\<lambda>d w. w), uniform = (\<lambda>w hi. hi), now_iso = (\<lambda>w. ''now''), poll_interval = 500000,
     job_timeout = 60000000\<rparr>"

definition empty_world :: "mem_coll world" where
  "empty_world = \<lparr>rm = empty_model, run_docs = [], stop_flags = [], live_jobs = [], clock = 0\<rparr>"

definition choreography_of :: "cgraph \<Rightarrow> choreography" where
  "choreography_of g = \<lparr>ch_id = JStr ''c'', ch_name = JStr ''c'', ch_owner = JStr ''ana'', ch_graph = g,
     ch_created_at = JStr ''t'', ch_updated_at = JStr ''t''\<rparr>"


section \<open>How often a node is submitted\<close>

text \<open>\<open>c\<close> counts the jobs submitted: only sending a \<open>JOB_SUBMIT\<close> makes it grow, by one at most.\<close>

definition counts_submissions :: "('c world \<Rightarrow> nat) \<Rightarrow> 'c orchestrator \<Rightarrow> bool" where
  "counts_submissions c Q =
    ((\<forall>uri m w. c (snd (send_rpc Q uri m w)) \<le> c w + (if operation m = ''JOB_SUBMIT'' then 1 else 0)) \<and>
     (\<forall>d w. c (others Q d w) \<le> c w) \<and>
     (\<forall>w t. c (w\<lparr>clock := t\<rparr>) = c w) \<and> (\<forall>w l. c (w\<lparr>live_jobs := l\<rparr>) = c w))"

lemma count_send:
  assumes "counts_submissions c Q"
  shows "c (snd (send_command Q uri m w)) \<le> c w + (if operation m = ''JOB_SUBMIT'' then 1 else 0)"
  using assms unfolding counts_submissions_def send_command_def by (simp add: case_prod_beta)

lemma count_quiet:
  assumes "counts_submissions c Q"
  shows "c (snd (send_command Q uri (json_command ''JOB_RESULT'' e) w)) \<le> c w"
    and "c (sleep Q d w) \<le> c w" and "c (live_put rid jid u w) = c w" and "c (live_drop rid jid w) = c w"
  using assms count_send [OF assms, of uri "json_command ''JOB_RESULT'' e" w]
  by (auto simp: counts_submissions_def json_command_def sleep_def Let_def live_put_def live_drop_def
      split: option.split)

lemma count_cancel:
  assumes "counts_submissions c Q"
  shows "c (snd (snd (after_cancel (send_cancel Q uri jid w) err n))) \<le> c w"
  using count_send [OF assms, of uri "json_command ''JOB_CANCEL'' [(''job_id'', jid)]" w]
  by (auto simp: send_cancel_def after_cancel_def json_command_def split: prod.split res.split)

lemma count_poll:
  assumes "counts_submissions c Q"
  shows "c (snd (snd (poll_until_terminal Q r dl uri jid n w))) \<le> c w"
  using assms
proof (induction Q r dl uri jid n w rule: poll_until_terminal.induct)
  case (1 Q r dl uri jid n w)
  obtain x w1 where send: "send_command Q uri (json_command ''JOB_RESULT'' [(''job_id'', jid)]) w = (x, w1)"
    by (cases "send_command Q uri (json_command ''JOB_RESULT'' [(''job_id'', jid)]) w")
  have w1: "c w1 \<le> c w" using count_quiet(1) [OF 1(2), of uri "[(''job_id'', jid)]" w] send by simp
  then have "c (sleep Q (poll_interval Q) w1) \<le> c w" using count_quiet(2) [OF 1(2)] le_trans by blast
  then show ?case
    using "1.IH" [OF _ _ send [symmetric] _ _ 1(2)] w1 count_cancel [OF 1(2)]
    by (subst poll_until_terminal.simps) (auto simp: send case_prod_beta split: res.split intro: le_trans)
qed

lemma count_submit:
  assumes "counts_submissions c Q"
  shows "c (snd (submit_function_job E (send_command Q) s fid ver ps w)) \<le> c w + 1"
proof -
  have send: "c (snd (send_command Q uri m w)) \<le> c w + 1" for uri m
    using count_send [OF assms, of uri m w] by (simp split: if_splits)
  have "c (snd (relay (send_command Q) uri m base w)) \<le> c w + 1" for uri m base
    using send [of uri m] by (auto simp: relay_def split: prod.split res.split)
  then show ?thesis
    by (simp add: submit_function_job_def Let_def split: option.split res.split outcome.split)
qed

lemma count_once:
  assumes "counts_submissions c Q"
  shows "c (snd (snd (dispatch_once Q r node ps n w))) \<le> c w + 1"
proof -
  obtain x w1 where sub: "submit_function_job (vem_env Q) (send_command Q) (rm w)
      (json_str (n_function_id node)) (json_int (n_function_version node)) ps w = (x, w1)"
    by (cases "submit_function_job (vem_env Q) (send_command Q) (rm w)
      (json_str (n_function_id node)) (json_int (n_function_version node)) ps w")
  have w1: "c w1 \<le> c w + 1" using count_submit [OF assms] sub by (metis snd_conv)
  have "c (snd (snd (poll_until_terminal Q r dl uri jid n' (live_put rid jid u w1)))) \<le> c w + 1" for dl uri jid n' rid u
    using count_poll [OF assms, of r dl uri jid n' "live_put rid jid u w1"] count_quiet(3) [OF assms] w1 by simp
  then show ?thesis
    using w1 count_quiet(4) [OF assms]
    by (simp add: dispatch_once_def sub Let_def case_prod_beta split: outcome.split res.split)
qed


definition counting :: "mem_coll orchestrator" where
  "counting = silent\<lparr>send_rpc := (\<lambda>uri m w. (Err (AxoErr WireError ''timed out''),
     if operation m = ''JOB_SUBMIT'' then publish_world ''c'' ''submitted'' [] w else w))\<rparr>"


section \<open>An edge to an unknown node\<close>

lemma saved_run_active:
  assumes "mongo_ok (db E)" and "r_status r \<in> set active_run_statuses"
  shows "has_active_run E (r_choreography_id r) (run_save E r w)"
proof -
  let ?c = "set_fields (db E) (JStr (r_id r)) (map_of (run_dict r)) (run_docs w)"
  obtain d where d: "find_one (db E) (JStr (r_id r)) ?c = Some d"
    "d ''choreography_id'' = Some (JStr (r_choreography_id r))"
    "d ''status'' = Some (JStr (run_status_value (r_status r)))"
    by (auto simp: view_after_set [OF assms(1)] run_dict_def)
  have "(JStr (r_id r), d) \<in> set (find_where (db E) [([''choreography_id''], JStr (r_choreography_id r))] [] ?c)"
    using d by (simp add: collections.found [OF collections.intro [OF assms(1)]] view_def matches_all_def matches_def)
  moreover have "doc_active d"
    using d(3) assms(2) by (auto simp: doc_active_def doc_get_def active_run_statuses_def)
  ultimately show ?thesis by (force simp: has_active_run_def run_save_def list_ex_iff)
qed

definition stray :: cgraph where
  "stray = \<lparr>g_nodes = filter (\<lambda>n. n_id n = ''a'') (g_nodes diamond), g_edges = filter (\<lambda>e. e_id e = ''ab'') (g_edges diamond)\<rparr>"

lemma stray_waves: "topological_waves stray = Ok [[''a''], [''b'']]"
  by code_simp

text \<open>
  An edge to a node that is not in the graph puts an unknown id into the waves. The run then
  ends with \<open>KeyError\<close> in its thread, its document stays running, and the choreography has an
  active run from then on.
\<close>

theorem unknown_target_blocks_choreography:
  assumes ok: "mongo_ok (db (vem_env Q))" and idle: "map_of (stop_flags w) rid \<noteq> Some True"
  shows "let (x, r, w') = execute_run Q (choreography_of stray) (new_run rid cid stray t) w
    in x = Raise KeyError \<and> has_active_run (vem_env Q) cid w'"
proof -
  let ?E = "vem_env Q" and ?a = "new_node_run ''a''"
  let ?r1 = "(new_run rid cid stray t)\<lparr>r_status := Running\<rparr>"
  let ?r2 = "put_node (?a\<lparr>nr_status := Running\<rparr>) ?r1" and ?r3 = "put_node (?a\<lparr>nr_status := Completed\<rparr>) (put_node (?a\<lparr>nr_status := Running\<rparr>) ?r1)"
  define w1 where "w1 = broadcast_status ?r1 (run_save ?E ?r1 w)"
  define w3 where "w3 = save_and_broadcast_node ?E ?r3 (?a\<lparr>nr_status := Completed\<rparr>)
    (save_and_broadcast_node ?E ?r2 (?a\<lparr>nr_status := Running\<rparr>) w1)"
  obtain node where node: "nodes_by_id stray ''a'' = Some node" "n_kind node = Bucket_Node" "n_id node = ''a''"
    "nodes_by_id stray ''b'' = None" "r_nodes ?r1 = [(''a'', ?a)]"
    by (simp add: nodes_by_id_def stray_def diamond_def new_run_def)
  have run: "run_node Q (choreography_of stray) node ?r1 [] w1 = (Ok True, ?r3, [], w3)"
    using node by (simp add: run_node_def finish_node_def Let_def new_node_run_def w3_def)
  have id: "r_id ?r1 = rid" "r_id ?r3 = rid" by (simp_all add: new_run_def put_node_def)
  have go: "\<not> is_stopped ?r1 w1" "\<not> is_stopped ?r3 w3"
    using idle unfolding is_stopped_def id
    by (auto simp: w3_def w1_def save_and_broadcast_node_def broadcast_status_def broadcast_run_def run_save_def dget_def
      split: option.splits)
  have "execute_run Q (choreography_of stray) (new_run rid cid stray t) w = (Raise KeyError, ?r3, w3)"
    using go run node by (simp add: execute_run_def choreography_of_def stray_waves Let_def w1_def [symmetric])
  moreover have "r_choreography_id ?r3 = cid" "r_status ?r3 \<in> set active_run_statuses"
    by (simp_all add: put_node_def new_run_def active_run_statuses_def)
  then have "has_active_run ?E cid (run_save ?E ?r3 v)" for v
    using saved_run_active [OF ok, of ?r3 v] by simp
  then have "has_active_run ?E cid w3"
    unfolding w3_def save_and_broadcast_node_def [of _ ?r3] has_active_run_def broadcast_run_def by simp
  ultimately show ?thesis by simp
qed

lemma unknown_target_blocks_choreography_witness:
  "let (x, r, w') = execute_run silent (choreography_of stray) (new_run ''r'' ''c'' stray JNull) empty_world
   in x = Raise KeyError \<and> has_active_run mem_env ''c'' w'"
proof -
  have "mongo_ok (db (vem_env silent))" "vem_env silent = mem_env" "map_of (stop_flags empty_world) ''r'' \<noteq> Some True"
    using mem_env_ok(1) by (simp_all add: silent_def empty_world_def)
  then show ?thesis using unknown_target_blocks_choreography [of silent empty_world "''r''" "''c''" JNull] by simp
qed

end
