(* ===== verification/Replication.thy ===== *)
theory Replication
  imports Election
begin

text \<open>
  Replication of the registries' metadata from the leader: the tracker of unflushed changes
  (\<open>core/consensus/dirty_tracker.py\<close>), the replicated state and its encodings
  (\<open>core/consensus/state_machine.py\<close>), and the tick that recomputes the leader, reports
  quorum changes and flushes (\<open>service/consensus_loop.py\<close>). A serialized record is a blob of
  octets; the encoders parse it to embed it in the outer JSON text.
\<close>

section \<open>Events\<close>

record event =
  ev_type :: string
  ev_payload :: "(string, json) dict"
  ev_time :: flt

section \<open>The dirty tracker\<close>

record state_mutation =
  function_changes :: "(string, bytes) dict"
  data_changes :: "(string, bytes) dict"
  bucket_changes :: "(string, bytes) dict"
  mut_leader_view :: "leader_view option"

record dirty_tracker =
  pending_functions :: "(string, bytes) dict"
  pending_data :: "(string, bytes) dict"
  pending_buckets :: "(string, bytes) dict"
  pending_leader_view :: "leader_view option"
  last_change_at :: flt
  max_dirty_count :: int

definition tracker_init :: "int \<Rightarrow> dirty_tracker" where
  "tracker_init n = \<lparr>pending_functions = [], pending_data = [], pending_buckets = [],
     pending_leader_view = None, last_change_at = 0, max_dirty_count = n\<rparr>"

definition mark_function_dirty :: "string \<Rightarrow> bytes \<Rightarrow> flt \<Rightarrow> dirty_tracker \<Rightarrow> dirty_tracker" where
  "mark_function_dirty key serialized now t =
    t\<lparr>pending_functions := dput key serialized (pending_functions t), last_change_at := now\<rparr>"

definition mark_data_dirty :: "string \<Rightarrow> bytes \<Rightarrow> flt \<Rightarrow> dirty_tracker \<Rightarrow> dirty_tracker" where
  "mark_data_dirty key serialized now t =
    t\<lparr>pending_data := dput key serialized (pending_data t), last_change_at := now\<rparr>"

definition mark_bucket_dirty :: "string \<Rightarrow> bytes \<Rightarrow> flt \<Rightarrow> dirty_tracker \<Rightarrow> dirty_tracker" where
  "mark_bucket_dirty key serialized now t =
    t\<lparr>pending_buckets := dput key serialized (pending_buckets t), last_change_at := now\<rparr>"

definition mark_leader_view_dirty :: "leader_view \<Rightarrow> flt \<Rightarrow> dirty_tracker \<Rightarrow> dirty_tracker" where
  "mark_leader_view_dirty v now t = t\<lparr>pending_leader_view := Some v, last_change_at := now\<rparr>"

definition pending_count :: "dirty_tracker \<Rightarrow> nat" where
  "pending_count t =
    length (pending_functions t) + length (pending_data t) + length (pending_buckets t) +
    (if pending_leader_view t \<noteq> None then 1 else 0)"

definition should_flush :: "flt \<Rightarrow> flt \<Rightarrow> dirty_tracker \<Rightarrow> bool" where
  "should_flush now idle_seconds t =
    (if pending_count t = 0 then False
     else if max_dirty_count t \<le> int (pending_count t) then True
     else idle_seconds \<le> now - last_change_at t)"

definition drain :: "dirty_tracker \<Rightarrow> state_mutation \<times> dirty_tracker" where
  "drain t =
    (\<lparr>function_changes = pending_functions t, data_changes = pending_data t,
      bucket_changes = pending_buckets t, mut_leader_view = pending_leader_view t\<rparr>,
     t\<lparr>pending_functions := [], pending_data := [], pending_buckets := [],
       pending_leader_view := None\<rparr>)"

lemma pending_count_drained [simp]: "pending_count (snd (drain t)) = 0"
  by (simp add: drain_def pending_count_def)

definition tracker_ok :: "dirty_tracker \<Rightarrow> bool" where
  "tracker_ok t = (dict_ok (pending_functions t) \<and> dict_ok (pending_data t) \<and> dict_ok (pending_buckets t))"

lemma tracker_ok_marks [simp]:
  "tracker_ok t \<Longrightarrow> tracker_ok (mark_function_dirty k b now t)"
  "tracker_ok t \<Longrightarrow> tracker_ok (mark_data_dirty k b now t)"
  "tracker_ok t \<Longrightarrow> tracker_ok (mark_bucket_dirty k b now t)"
  "tracker_ok t \<Longrightarrow> tracker_ok (mark_leader_view_dirty v now t)"
  "tracker_ok (snd (drain t))" "tracker_ok (tracker_init n)"
  by (auto simp: tracker_ok_def mark_function_dirty_def mark_data_dirty_def mark_bucket_dirty_def
      mark_leader_view_dirty_def drain_def tracker_init_def)

section \<open>The replicated state\<close>

record cluster_state =
  cs_term :: int
  cs_leader_ids :: "string set"
  cs_members :: "string set"
  cs_functions :: "(string, bytes) dict"
  cs_data :: "(string, bytes) dict"
  cs_buckets :: "(string, bytes) dict"
  cs_version :: int

definition cluster_state_init :: cluster_state where
  "cluster_state_init = \<lparr>cs_term = 0, cs_leader_ids = {}, cs_members = {}, cs_functions = [],
     cs_data = [], cs_buckets = [], cs_version = 0\<rparr>"

definition apply_local :: "state_mutation \<Rightarrow> cluster_state \<Rightarrow> cluster_state" where
  "apply_local mutation s =
    (let functions = dmerge (cs_functions s) (function_changes mutation);
         data = dmerge (cs_data s) (data_changes mutation);
         buckets = dmerge (cs_buckets s) (bucket_changes mutation);
         (leader_ids, trm) =
           (case mut_leader_view mutation of
              None \<Rightarrow> (cs_leader_ids s, cs_term s)
            | Some v \<Rightarrow> (leader_ids v, view_term v))
     in \<lparr>cs_term = trm, cs_leader_ids = leader_ids, cs_members = cs_members s,
         cs_functions = functions, cs_data = data, cs_buckets = buckets,
         cs_version = cs_version s + 1\<rparr>)"

definition apply_remote :: "cluster_state \<Rightarrow> cluster_state \<Rightarrow> bool \<times> cluster_state" where
  "apply_remote incoming s =
    (if cs_version incoming \<le> cs_version s then (False, s) else (True, incoming))"

section \<open>Encodings\<close>

text \<open>\<open>{key: json.loads(blob.decode("utf-8")) for key, blob in changes.items()}\<close>\<close>

fun parse_blobs :: "(string, bytes) dict \<Rightarrow> (string, json) dict res" where
  "parse_blobs [] = Ok []"
| "parse_blobs ((k, b) # d) =
    (case loads_bytes b of
       Ok v \<Rightarrow> (case parse_blobs d of Ok ps \<Rightarrow> Ok ((k, v) # ps) | Err e \<Rightarrow> Err e | Raise ex \<Rightarrow> Raise ex)
     | Err e \<Rightarrow> Err e
     | Raise ex \<Rightarrow> Raise ex)"

text \<open>\<open>{key: json.dumps(v).encode("utf-8") for key, v in d.items()}\<close>\<close>

definition write_blobs :: "json \<Rightarrow> (string, bytes) dict res" where
  "write_blobs j =
    (case j of JObj d \<Rightarrow> Ok (map (\<lambda>(k, v). (k, dumps_bytes v)) d) | _ \<Rightarrow> Raise AttributeError)"

definition encode_changes :: "(string, bytes) dict \<Rightarrow> bytes res" where
  "encode_changes d =
    (case parse_blobs d of Ok ps \<Rightarrow> Ok (dumps_bytes (JObj ps)) | Err e \<Rightarrow> Err e | Raise ex \<Rightarrow> Raise ex)"

definition decode_changes :: "bytes \<Rightarrow> (string, bytes) dict res" where
  "decode_changes p =
    (if p = [] then Ok []
     else (case loads_bytes p of Ok j \<Rightarrow> write_blobs j | Err e \<Rightarrow> Err e | Raise ex \<Rightarrow> Raise ex))"

text \<open>The code writes these two functions out once per domain.\<close>

definition encode_function_changes :: "(string, bytes) dict \<Rightarrow> bytes res" where
  "encode_function_changes d = encode_changes d"

definition decode_function_changes :: "bytes \<Rightarrow> (string, bytes) dict res" where
  "decode_function_changes p = decode_changes p"

definition encode_data_changes :: "(string, bytes) dict \<Rightarrow> bytes res" where
  "encode_data_changes d = encode_changes d"

definition decode_data_changes :: "bytes \<Rightarrow> (string, bytes) dict res" where
  "decode_data_changes p = decode_changes p"

definition encode_bucket_changes :: "(string, bytes) dict \<Rightarrow> bytes res" where
  "encode_bucket_changes d = encode_changes d"

definition decode_bucket_changes :: "bytes \<Rightarrow> (string, bytes) dict res" where
  "decode_bucket_changes p = decode_changes p"

definition encode_state_changes ::
  "(string, bytes) dict \<Rightarrow> (string, bytes) dict \<Rightarrow> (string, bytes) dict \<Rightarrow> bytes res" where
  "encode_state_changes fc dc bc =
    (case (parse_blobs fc, parse_blobs dc, parse_blobs bc) of
       (Ok f, Ok d, Ok b) \<Rightarrow>
         Ok (dumps_bytes (JObj [(''functions'', JObj f), (''data'', JObj d), (''buckets'', JObj b)]))
     | (Raise ex, _, _) \<Rightarrow> Raise ex
     | (_, Raise ex, _) \<Rightarrow> Raise ex
     | (_, _, Raise ex) \<Rightarrow> Raise ex
     | _ \<Rightarrow> Raise TypeError)"

text \<open>\<open>d.get(k, {})\<close>\<close>

definition get_obj :: "(string, json) dict \<Rightarrow> string \<Rightarrow> json" where
  "get_obj d k = dget d k (JObj [])"

definition decode_state_changes ::
  "bytes \<Rightarrow> ((string, bytes) dict \<times> (string, bytes) dict \<times> (string, bytes) dict) res" where
  "decode_state_changes p =
    (if p = [] then Ok ([], [], [])
     else
       (case loads_bytes p of
          Raise ex \<Rightarrow> Raise ex
        | Err e \<Rightarrow> Err e
        | Ok (JObj d) \<Rightarrow>
            (case (write_blobs (get_obj d ''functions''), write_blobs (get_obj d ''data''),
                   write_blobs (get_obj d ''buckets'')) of
               (Ok f, Ok da, Ok b) \<Rightarrow> Ok (f, da, b)
             | _ \<Rightarrow> Raise AttributeError)
        | Ok _ \<Rightarrow> Raise AttributeError))"

text \<open>A frozenset of strings as a JSON list, and back.\<close>

definition id_list :: "string set \<Rightarrow> json" where
  "id_list ids = JList (map JStr (sorted_list_of_set ids))"

fun json_strings :: "json list \<Rightarrow> string list option" where
  "json_strings [] = Some []"
| "json_strings (JStr s # xs) = map_option ((#) s) (json_strings xs)"
| "json_strings _ = None"

definition id_set :: "json \<Rightarrow> string set res" where
  "id_set j =
    (case j of
       JList xs \<Rightarrow> (case json_strings xs of Some ss \<Rightarrow> Ok (set ss) | None \<Rightarrow> Raise TypeError)
     | _ \<Rightarrow> Raise TypeError)"

definition encode_cluster_state :: "cluster_state \<Rightarrow> bytes res" where
  "encode_cluster_state s =
    (case (parse_blobs (cs_functions s), parse_blobs (cs_data s), parse_blobs (cs_buckets s)) of
       (Ok f, Ok d, Ok b) \<Rightarrow>
         Ok (dumps_bytes (JObj
           [(''term'', JInt (cs_term s)), (''leader_ids'', id_list (cs_leader_ids s)),
            (''members'', id_list (cs_members s)), (''functions'', JObj f), (''data'', JObj d),
            (''buckets'', JObj b), (''version'', JInt (cs_version s))]))
     | (Raise ex, _, _) \<Rightarrow> Raise ex
     | (_, Raise ex, _) \<Rightarrow> Raise ex
     | (_, _, Raise ex) \<Rightarrow> Raise ex
     | _ \<Rightarrow> Raise TypeError)"

text \<open>
  A missing key raises \<open>KeyError\<close>. The fields are taken at their declared types: a term or a
  version that is no integer counts as a \<open>TypeError\<close>.
\<close>

definition decode_cluster_state :: "bytes \<Rightarrow> cluster_state res" where
  "decode_cluster_state p =
    (case loads_bytes p of
       Ok (JObj d) \<Rightarrow>
         (if \<exists>k \<in> {''term'', ''leader_ids'', ''members'', ''functions'', ''version''}. map_of d k = None
          then Raise KeyError
          else
            (case (jget d ''term'', id_set (jget d ''leader_ids''), id_set (jget d ''members''),
                   write_blobs (jget d ''functions''), write_blobs (get_obj d ''data''),
                   write_blobs (get_obj d ''buckets''), jget d ''version'') of
               (JInt t, Ok ls, Ok ms, Ok f, Ok da, Ok b, JInt v) \<Rightarrow>
                 Ok \<lparr>cs_term = t, cs_leader_ids = ls, cs_members = ms, cs_functions = f,
                     cs_data = da, cs_buckets = b, cs_version = v\<rparr>
             | _ \<Rightarrow> Raise TypeError))
     | Ok _ \<Rightarrow> Raise TypeError
     | Err e \<Rightarrow> Err e
     | Raise ex \<Rightarrow> Raise ex)"

subsection \<open>Round trips\<close>

text \<open>What the bridges put in: the text of a value that \<open>json.dumps\<close> wrote, under distinct keys.\<close>

definition blobs_ok :: "(string, bytes) dict \<Rightarrow> bool" where
  "blobs_ok d = (dict_ok d \<and> (\<forall>b \<in> set (dvalues d). \<exists>v. json_ok v \<and> b = dumps_bytes v))"

lemma blobs_ok_parse:
  assumes "blobs_ok d"
  obtains ps where "parse_blobs d = Ok ps" "json_ok (JObj ps)" "dkeys ps = dkeys d"
    "map (\<lambda>(k, v). (k, dumps_bytes v)) ps = d"
  using assms
proof (induction d arbitrary: thesis)
  case Nil
  then show ?case by (auto intro: Nil(1) [of "[]"])
next
  case (Cons p d)
  obtain k b where p: "p = (k, b)" by (cases p)
  from Cons.prems(2) p obtain v where v: "json_ok v" "b = dumps_bytes v" and ok: "blobs_ok d"
    and new: "k \<notin> set (dkeys d)"
    by (auto simp: blobs_ok_def dict_ok_def)
  obtain ps where ps: "parse_blobs d = Ok ps" "json_ok (JObj ps)" "dkeys ps = dkeys d"
    "map (\<lambda>(k, v). (k, dumps_bytes v)) ps = d"
    using Cons.IH [OF _ ok] by blast
  show ?case
    by (rule Cons.prems(1) [of "(k, v) # ps"]) (use ps v new p in auto)
qed

lemma decode_encode_changes:
  assumes "blobs_ok d"
  obtains p where "encode_changes d = Ok p" "decode_changes p = Ok d"
proof -
  obtain ps where ps: "parse_blobs d = Ok ps" "json_ok (JObj ps)"
    "map (\<lambda>(k, v). (k, dumps_bytes v)) ps = d"
    using blobs_ok_parse [OF assms] by metis
  have "dumps_bytes (JObj ps) \<noteq> []"
    by (simp add: dumps_bytes_def utf8_encode_def utf8_char_def Let_def)
  then show thesis
    using ps by (intro that) (auto simp: encode_changes_def decode_changes_def write_blobs_def)
qed

lemma dumps_obj_ne: "dumps_bytes (JObj d) \<noteq> []"
  by (simp add: dumps_bytes_def utf8_encode_def utf8_char_def Let_def)

lemma decode_encode_state_changes:
  assumes "blobs_ok fc" "blobs_ok dc" "blobs_ok bc"
  obtains p where "encode_state_changes fc dc bc = Ok p" "decode_state_changes p = Ok (fc, dc, bc)"
proof -
  obtain f where f: "parse_blobs fc = Ok f" "json_ok (JObj f)" "map (\<lambda>(k, v). (k, dumps_bytes v)) f = fc"
    using blobs_ok_parse [OF assms(1)] by metis
  obtain d where d: "parse_blobs dc = Ok d" "json_ok (JObj d)" "map (\<lambda>(k, v). (k, dumps_bytes v)) d = dc"
    using blobs_ok_parse [OF assms(2)] by metis
  obtain b where b: "parse_blobs bc = Ok b" "json_ok (JObj b)" "map (\<lambda>(k, v). (k, dumps_bytes v)) b = bc"
    using blobs_ok_parse [OF assms(3)] by metis
  let ?j = "JObj [(''functions'', JObj f), (''data'', JObj d), (''buckets'', JObj b)]"
  have "json_ok ?j" using f(2) d(2) b(2) by simp
  then have "loads_bytes (dumps_bytes ?j) = Ok ?j" by (rule loads_dumps)
  then show thesis
    using f d b dumps_obj_ne
    by (intro that [of "dumps_bytes ?j"])
       (simp_all add: encode_state_changes_def decode_state_changes_def get_obj_def write_blobs_def)
qed

lemma json_strings_map [simp]: "json_strings (map JStr xs) = Some xs"
  by (induction xs) simp_all

lemma id_set_list [simp]: "finite ids \<Longrightarrow> id_set (id_list ids) = Ok ids"
  by (simp add: id_set_def id_list_def)

lemma json_ok_id_list [simp]: "json_ok (id_list ids)"
  by (simp add: id_list_def list_all_iff)

lemma decode_encode_cluster_state:
  assumes "blobs_ok (cs_functions s)" "blobs_ok (cs_data s)" "blobs_ok (cs_buckets s)"
    "finite (cs_leader_ids s)" "finite (cs_members s)"
  obtains p where "encode_cluster_state s = Ok p" "decode_cluster_state p = Ok s"
proof -
  obtain f where f: "parse_blobs (cs_functions s) = Ok f" "json_ok (JObj f)"
    "map (\<lambda>(k, v). (k, dumps_bytes v)) f = cs_functions s"
    using blobs_ok_parse [OF assms(1)] by metis
  obtain d where d: "parse_blobs (cs_data s) = Ok d" "json_ok (JObj d)"
    "map (\<lambda>(k, v). (k, dumps_bytes v)) d = cs_data s"
    using blobs_ok_parse [OF assms(2)] by metis
  obtain b where b: "parse_blobs (cs_buckets s) = Ok b" "json_ok (JObj b)"
    "map (\<lambda>(k, v). (k, dumps_bytes v)) b = cs_buckets s"
    using blobs_ok_parse [OF assms(3)] by metis
  let ?j = "JObj [(''term'', JInt (cs_term s)), (''leader_ids'', id_list (cs_leader_ids s)),
            (''members'', id_list (cs_members s)), (''functions'', JObj f), (''data'', JObj d),
            (''buckets'', JObj b), (''version'', JInt (cs_version s))]"
  have "json_ok ?j" using f(2) d(2) b(2) by simp
  then have "loads_bytes (dumps_bytes ?j) = Ok ?j" by (rule loads_dumps)
  then show thesis
    using f d b assms(4,5)
    by (intro that [of "dumps_bytes ?j"])
       (simp_all add: encode_cluster_state_def decode_cluster_state_def get_obj_def write_blobs_def)
qed

section \<open>The consensus tick\<close>

text \<open>
  \<open>resolve_peer_address\<close> (\<open>service/transport/address.py\<close>): the port of the address a peer
  binds, on a host that can be reached. \<open>rsplit(":", 1)[-1]\<close> is the text after the last colon.
\<close>

definition after_last :: "char \<Rightarrow> string \<Rightarrow> string" where
  "after_last c s = rev (takeWhile (\<lambda>x. x \<noteq> c) (rev s))"

definition resolve_peer_address :: "string \<Rightarrow> string \<Rightarrow> bool \<Rightarrow> string" where
  "resolve_peer_address bind_address peer local_mode =
    (let port = after_last (CHR '':'') bind_address;
         host = (if local_mode then ''localhost'' else peer)
     in ''tcp://'' @ host @ '':'' @ port)"

text \<open>What the previous tick left, and what a push carries to one peer.\<close>

record tick_state =
  ts_elector :: bully
  ts_tracker :: dirty_tracker
  ts_machine :: cluster_state

record push =
  push_uri :: string
  push_view :: leader_view
  push_members :: "string set"
  push_mutation :: state_mutation

definition quorum_payload :: "leader_view \<Rightarrow> nat \<Rightarrow> nat \<Rightarrow> (string, json) dict" where
  "quorum_payload v member_count quorum_size =
    [(''term'', JInt (view_term v)), (''member_count'', JInt (int member_count)),
     (''quorum_size'', JInt (int quorum_size))]"

definition quorum_events ::
  "leader_view \<Rightarrow> nat \<Rightarrow> string set \<Rightarrow> nat \<Rightarrow> string set \<Rightarrow> flt \<Rightarrow> event list" where
  "quorum_events v high_water previous_ids new_high_water member_ids now =
    (let quorum_size_before = high_water div 2 + 1;
         quorum_size_after = new_high_water div 2 + 1;
         had_quorum = (quorum_size_before \<le> card previous_ids);
         has_quorum = (quorum_size_after \<le> card member_ids);
         pl = quorum_payload v (card member_ids) quorum_size_after
     in if had_quorum \<and> \<not> has_quorum then
          [\<lparr>ev_type = ''CLUSTER_QUORUM_LOST'', ev_payload = pl, ev_time = now\<rparr>]
        else if \<not> had_quorum \<and> has_quorum then
          [\<lparr>ev_type = ''CLUSTER_QUORUM_RESTORED'', ev_payload = pl, ev_time = now\<rparr>]
        else if has_quorum then
          map (\<lambda>i. \<lparr>ev_type = ''CLUSTER_DEGRADED'',
                     ev_payload = pl @ [(''evicted_peer_id'', JStr i)], ev_time = now\<rparr>)
            (sorted_list_of_set (previous_ids - member_ids))
        else [])"

text \<open>
  The arguments follow the code: the peers that heartbeats have shown (id and bind address),
  whether there is an event bus, and the high-water mark and the members of the last tick.
  The result holds the events, the pushes in their order, and the pair for the next tick.
\<close>

definition tick_members :: "(string \<times> string) list \<Rightarrow> bool \<Rightarrow> cluster_member list" where
  "tick_members peers local_mode =
    map (\<lambda>(pid, uri). \<lparr>peer_id = pid, rpc_uri = resolve_peer_address uri pid local_mode\<rparr>) peers"

definition flush_pushes ::
  "cluster_member list \<Rightarrow> leader_view \<Rightarrow> string set \<Rightarrow> state_mutation \<Rightarrow> push list" where
  "flush_pushes members v member_ids mutation =
    (if function_changes mutation = [] \<and> data_changes mutation = [] \<and> bucket_changes mutation = []
     then []
     else map (\<lambda>m. \<lparr>push_uri = rpc_uri m, push_view = v, push_members = member_ids,
                     push_mutation = mutation\<rparr>) members)"

definition run_consensus_tick ::
  "tick_state \<Rightarrow> (string \<times> string) list \<Rightarrow> string \<Rightarrow> flt \<Rightarrow> flt \<Rightarrow> bool \<Rightarrow> bool \<Rightarrow> nat \<Rightarrow>
   string set option \<Rightarrow> tick_state \<times> event list \<times> push list \<times> nat \<times> string set" where
  "run_consensus_tick ts peers self_id idle_seconds now local_mode has_bus high_water_mark previous_member_ids =
    (let members = tick_members peers local_mode;
         previous_view = bully_current_view (ts_elector ts);
         was_leader = (self_id \<in> leader_ids previous_view);
         elector = bully_recompute (ts_elector ts) members now;
         v = bully_current_view elector;
         is_leader = (self_id \<in> leader_ids v);
         member_ids = insert self_id (set (map peer_id members));
         new_high_water = max high_water_mark (card member_ids);
         quorum = (case previous_member_ids of
                     Some prev \<Rightarrow> if has_bus then quorum_events v high_water_mark prev new_high_water member_ids now else []
                   | None \<Rightarrow> []);
         elected = (if view_term v \<noteq> view_term previous_view \<and> has_bus
                    then [\<lparr>ev_type = ''LEADER_ELECTED'',
                           ev_payload = [(''leader_ids'', id_list (leader_ids v)), (''term'', JInt (view_term v))],
                           ev_time = now\<rparr>] else []);
         changed = (if has_bus \<and> was_leader \<noteq> is_leader
                    then [\<lparr>ev_type = ''CONSENSUS_VIEW_CHANGED'',
                           ev_payload = [(''term'', JInt (view_term v)), (''was_leader'', JBool was_leader),
                             (''is_leader'', JBool is_leader), (''leader_ids'', id_list (leader_ids v))],
                           ev_time = now\<rparr>] else []);
         events = quorum @ elected @ changed;
         ts = ts\<lparr>ts_elector := elector\<rparr>
     in if \<not> is_leader \<or> \<not> should_flush now idle_seconds (ts_tracker ts)
        then (ts, events, [], new_high_water, member_ids)
        else
          (case drain (ts_tracker ts) of
             (mutation, tracker) \<Rightarrow>
               (ts\<lparr>ts_tracker := tracker, ts_machine := apply_local mutation (ts_machine ts)\<rparr>,
                events, flush_pushes members v member_ids mutation, new_high_water, member_ids)))"

subsection \<open>What a tick does\<close>

text \<open>The view after the tick and whether this node leads.\<close>

definition tick_view :: "tick_state \<Rightarrow> (string \<times> string) list \<Rightarrow> bool \<Rightarrow> flt \<Rightarrow> leader_view" where
  "tick_view ts peers local_mode now =
    bully_current_view (bully_recompute (ts_elector ts) (tick_members peers local_mode) now)"

lemma tick_elector:
  "ts_elector (fst (run_consensus_tick ts peers self_id idle now lm bus hw prev)) =
     bully_recompute (ts_elector ts) (tick_members peers lm) now"
  by (simp add: run_consensus_tick_def Let_def split: prod.splits)

lemma tick_no_flush:
  assumes "self_id \<notin> leader_ids (tick_view ts peers lm now) \<or> \<not> should_flush now idle (ts_tracker ts)"
    "run_consensus_tick ts peers self_id idle now lm bus hw prev = (ts', evs, pushes, hw', ids)"
  shows "ts_tracker ts' = ts_tracker ts" "ts_machine ts' = ts_machine ts" "pushes = []"
  using assms by (auto simp: run_consensus_tick_def Let_def tick_view_def split: if_splits prod.splits)

lemma tick_flush:
  assumes "self_id \<in> leader_ids (tick_view ts peers lm now)" "should_flush now idle (ts_tracker ts)"
    "run_consensus_tick ts peers self_id idle now lm bus hw prev = (ts', evs, pushes, hw', ids)"
  shows "ts_tracker ts' = snd (drain (ts_tracker ts))"
    "ts_machine ts' = apply_local (fst (drain (ts_tracker ts))) (ts_machine ts)"
    "pushes = flush_pushes (tick_members peers lm) (tick_view ts peers lm now) ids (fst (drain (ts_tracker ts)))"
    "ids = insert self_id (fst ` set peers)"
  using assms
  by (auto simp: run_consensus_tick_def Let_def tick_view_def tick_members_def image_image case_prod_beta
      split: if_splits prod.splits)

lemma tick_high_water:
  "run_consensus_tick ts peers self_id idle now lm bus hw prev = (ts', evs, pushes, hw', ids) \<Longrightarrow>
   ids = insert self_id (fst ` set peers) \<and> hw' = max hw (card ids)"
  by (auto simp: run_consensus_tick_def Let_def tick_members_def image_image case_prod_beta
      split: if_splits prod.splits)

section \<open>The follower's side of a push\<close>

text \<open>
  The part of \<open>StateSyncPushHandler.handle\<close> that concerns the replicated state: a push of an
  older term is rejected, otherwise the diffs are merged and the version advances.
\<close>

definition merge_push ::
  "int \<Rightarrow> string set \<Rightarrow> string set \<Rightarrow> (string, bytes) dict \<Rightarrow> (string, bytes) dict \<Rightarrow> (string, bytes) dict \<Rightarrow>
   cluster_state \<Rightarrow> cluster_state" where
  "merge_push trm leaders members fc dc bc s =
    snd (apply_remote
      \<lparr>cs_term = trm, cs_leader_ids = leaders, cs_members = members,
       cs_functions = dmerge (cs_functions s) fc, cs_data = dmerge (cs_data s) dc,
       cs_buckets = dmerge (cs_buckets s) bc, cs_version = cs_version s + 1\<rparr> s)"

lemma merge_push_simps [simp]:
  "cs_functions (merge_push t l m fc dc bc s) = dmerge (cs_functions s) fc"
  "cs_data (merge_push t l m fc dc bc s) = dmerge (cs_data s) dc"
  "cs_buckets (merge_push t l m fc dc bc s) = dmerge (cs_buckets s) bc"
  "cs_term (merge_push t l m fc dc bc s) = t"
  "cs_version (merge_push t l m fc dc bc s) = cs_version s + 1"
  by (simp_all add: merge_push_def apply_remote_def)

lemma apply_local_dicts [simp]:
  "cs_functions (apply_local mu s) = dmerge (cs_functions s) (function_changes mu)"
  "cs_data (apply_local mu s) = dmerge (cs_data s) (data_changes mu)"
  "cs_buckets (apply_local mu s) = dmerge (cs_buckets s) (bucket_changes mu)"
  "cs_version (apply_local mu s) = cs_version s + 1"
  by (simp_all add: apply_local_def Let_def split: option.splits)

text \<open>Two replicas hold the same records when the dictionaries map the same keys to the same blobs.\<close>

definition same_records :: "cluster_state \<Rightarrow> cluster_state \<Rightarrow> bool" where
  "same_records s t \<longleftrightarrow> map_of (cs_functions s) = map_of (cs_functions t) \<and>
     map_of (cs_data s) = map_of (cs_data t) \<and> map_of (cs_buckets s) = map_of (cs_buckets t)"

lemma map_of_dmerge_cong: "map_of d = map_of d' \<Longrightarrow> map_of (dmerge d e) = map_of (dmerge d' e)"
proof (induction e arbitrary: d d')
  case (Cons p e)
  obtain k v where p: "p = (k, v)" by (cases p)
  have "map_of (dput k v d) = map_of (dput k v d')" using Cons.prems by (simp add: fun_eq_iff)
  with Cons.IH show ?case by (simp add: p)
qed simp

lemma same_records_step:
  assumes "same_records l f"
  shows "same_records (apply_local mu l)
    (merge_push t ls ms (function_changes mu) (data_changes mu) (bucket_changes mu) f)"
  using assms by (auto simp: same_records_def intro: map_of_dmerge_cong)

section \<open>Properties\<close>

text \<open>
  C16: A state push survives its encoding, and so does a whole snapshot: decoding what was
  encoded gives back the three diffs, and the cluster state field by field.
\<close>

theorem state_changes_roundtrip:
  assumes "blobs_ok (cs_functions s)" "blobs_ok (cs_data s)" "blobs_ok (cs_buckets s)"
    "finite (cs_leader_ids s)" "finite (cs_members s)"
  shows "(\<exists>p. encode_state_changes (cs_functions s) (cs_data s) (cs_buckets s) = Ok p \<and>
            decode_state_changes p = Ok (cs_functions s, cs_data s, cs_buckets s)) \<and>
    (\<exists>p. encode_cluster_state s = Ok p \<and> decode_cluster_state p = Ok s)"
  using decode_encode_state_changes [OF assms(1-3)] decode_encode_cluster_state [OF assms] by metis

lemma state_changes_roundtrip_witness:
  "\<exists>p. encode_cluster_state
     (merge_push 2 {''a''} {''a'', ''b''} [(''f:1'', dumps_bytes (JObj [(''x'', JInt 1)]))] [] [] cluster_state_init) = Ok p \<and>
   decode_cluster_state p = Ok
     (merge_push 2 {''a''} {''a'', ''b''} [(''f:1'', dumps_bytes (JObj [(''x'', JInt 1)]))] [] [] cluster_state_init)"
  by (rule state_changes_roundtrip [THEN conjunct2])
     (auto simp: blobs_ok_def cluster_state_init_def dict_ok_def merge_push_def apply_remote_def
       intro!: exI [of _ "JObj [(''x'', JInt 1)]"])


definition tick_example :: tick_state where
  "tick_example = \<lparr>ts_elector = bully_init ''c'',
     ts_tracker = mark_function_dirty ''f:1'' ''{}'' 3 (tracker_init 1), ts_machine = cluster_state_init\<rparr>"


text \<open>
  C15: Replicas converge: a follower that held the leader's records and has applied every push
  since, whatever terms, leaders and members the pushes named, holds the leader's records
  again, and its version has advanced by one per push.
\<close>

theorem replicas_converge:
  assumes "same_records l f" "length pushes = length mus"
  shows "same_records (fold apply_local mus l)
      (fold (\<lambda>((t, ls, ms), mu). merge_push t ls ms (function_changes mu) (data_changes mu) (bucket_changes mu))
         (zip pushes mus) f) \<and>
    cs_version (fold (\<lambda>((t, ls, ms), mu). merge_push t ls ms (function_changes mu) (data_changes mu) (bucket_changes mu))
         (zip pushes mus) f) = cs_version f + int (length mus)"
proof
  show "same_records (fold apply_local mus l)
      (fold (\<lambda>((t, ls, ms), mu). merge_push t ls ms (function_changes mu) (data_changes mu) (bucket_changes mu))
         (zip pushes mus) f)"
    using assms(2,1)
  proof (induction pushes mus arbitrary: l f rule: list_induct2)
    case (Cons p pushes mu mus)
    obtain t ls ms where p: "p = (t, ls, ms)" by (cases p)
    from Cons.IH [OF same_records_step [OF Cons.prems]] show ?case by (simp add: p)
  qed simp
  show "cs_version (fold (\<lambda>((t, ls, ms), mu). merge_push t ls ms (function_changes mu) (data_changes mu) (bucket_changes mu))
         (zip pushes mus) f) = cs_version f + int (length mus)"
    using assms(2) by (induction pushes mus arbitrary: f rule: list_induct2) (auto split: prod.splits)
qed

lemma replicas_converge_witness:
  "same_records (fold apply_local [fst (drain (ts_tracker tick_example))] cluster_state_init)
     (fold (\<lambda>((t, ls, ms), mu). merge_push t ls ms (function_changes mu) (data_changes mu) (bucket_changes mu))
       (zip [(1, {''c''}, {''c''})] [fst (drain (ts_tracker tick_example))]) cluster_state_init)"
  by (rule replicas_converge [THEN conjunct1]) (simp_all add: same_records_def)

end
