(* ===== verification/Event_Bus.thy ===== *)
theory Event_Bus
  imports Replication
begin

text \<open>
  The event bus (\<open>core/events/in_memory_bus.py\<close>): handlers subscribed per event type, called
  synchronously in the order of their subscription. A handler changes the state \<open>'s\<close> of its
  node and may raise; what it changed before stays, the exception is reported and the next
  handler is called.
\<close>

type_synonym 's handler = "event \<Rightarrow> 's \<Rightarrow> 's \<times> py_exc option"
type_synonym 's bus = "(string, 's handler list) dict"

definition bus_init :: "'s bus" where
  "bus_init = []"

definition subscribe :: "string \<Rightarrow> 's handler \<Rightarrow> 's bus \<Rightarrow> 's bus" where
  "subscribe event_type h bus = dput event_type (dget bus event_type [] @ [h]) bus"

fun call_handlers :: "event \<Rightarrow> 's handler list \<Rightarrow> 's \<Rightarrow> 's \<times> (string \<times> py_exc) list" where
  "call_handlers e [] s = (s, [])"
| "call_handlers e (h # hs) s =
    (case h e s of (s, exc) \<Rightarrow>
     case call_handlers e hs s of (s, errs) \<Rightarrow>
       (s, (case exc of None \<Rightarrow> [] | Some ex \<Rightarrow> [(ev_type e, ex)]) @ errs))"

definition emit :: "'s bus \<Rightarrow> event \<Rightarrow> 's \<Rightarrow> 's \<times> (string \<times> py_exc) list" where
  "emit bus e s = call_handlers e (dget bus (ev_type e) []) s"

text \<open>The events that an operation emitted, in order.\<close>

definition emit_all :: "'s bus \<Rightarrow> event list \<Rightarrow> 's \<Rightarrow> 's" where
  "emit_all bus evs s = fold (\<lambda>e s. fst (emit bus e s)) evs s"

lemma emit_all_simps [simp]:
  "emit_all bus [] s = s" "emit_all bus (e # evs) s = emit_all bus evs (fst (emit bus e s))"
  by (simp_all add: emit_all_def)

lemma emit_all_append: "emit_all bus (evs @ evs') s = emit_all bus evs' (emit_all bus evs s)"
  by (simp add: emit_all_def)

lemma dget_subscribe [simp]:
  "dget (subscribe ty h bus) ty' [] = (if ty' = ty then dget bus ty [] @ [h] else dget bus ty' [])"
  by (simp add: subscribe_def dget_def)

lemma dget_bus_init [simp]: "dget bus_init ty [] = []"
  by (simp add: bus_init_def dget_def)

lemma call_handlers_state: "fst (call_handlers e hs s) = fold (\<lambda>h s. fst (h e s)) hs s"
proof (induction hs arbitrary: s)
  case (Cons h hs)
  from Cons [of "fst (h e s)"] show ?case by (auto split: prod.splits)
qed simp

lemma call_handlers_append:
  "call_handlers e (hs @ hs') s =
    (case call_handlers e hs s of (s, errs) \<Rightarrow>
     case call_handlers e hs' s of (s, errs') \<Rightarrow> (s, errs @ errs'))"
  by (induction hs arbitrary: s) (auto split: prod.splits)

text \<open>An event without subscribers changes nothing.\<close>

lemma emit_unsubscribed: "map_of bus (ev_type e) = None \<Longrightarrow> emit bus e s = (s, [])"
  by (simp add: emit_def)

text \<open>
  One bad subscriber cannot break the emission for the others. After an emission every
  handler subscribed to the event's type has been called once, in the order of subscription,
  on the state that the handlers before it left, whatever any of them raised; handlers of
  other types are not called, and exactly the exceptions raised are reported.
\<close>

theorem emission_reaches_all:
  "emit (subscribe ty h bus) e s =
    (if ev_type e = ty
     then (case emit bus e s of (s1, errs) \<Rightarrow>
           case h e s1 of (s2, exc) \<Rightarrow>
             (s2, errs @ (case exc of None \<Rightarrow> [] | Some ex \<Rightarrow> [(ty, ex)])))
     else emit bus e s)"
  by (auto simp: emit_def call_handlers_append split: prod.splits)

end
