(* ===== verification/In_Memory.thy ===== *)
theory In_Memory
  imports Storage
begin

text \<open>
  \<open>InMemoryStorageBackend\<close> (\<open>axo_endpoint/core/storage/in_memory.py\<close>): the values and the two
  reverse indexes, each operation, the invariant that no index entry dangles (so a lookup
  never raises \<open>KeyError\<close>), and the laws of the interface for catalog keys and for bare ids.
\<close>

record 'v mem =
  storage :: "(storage_key, 'v) dict"
  by_id_version :: "(string \<times> int, storage_key) dict"
  by_alias_version :: "(string \<times> int, storage_key) dict"

definition mem_init :: "'v mem" where
  "mem_init = \<lparr>storage = [], by_id_version = [], by_alias_version = []\<rparr>"

definition mem_put :: "'v mem \<Rightarrow> storage_key \<Rightarrow> 'v \<Rightarrow> string res \<times> 'v mem" where
  "mem_put m key value =
    (let m = m\<lparr>storage := dput key value (storage m)\<rparr>
     in case sk_version key of
          None \<Rightarrow> (Ok (sk_id key), m)
        | Some v \<Rightarrow>
            (let m = m\<lparr>by_id_version := dput (sk_id key, v) key (by_id_version m)\<rparr>
             in case sk_alias key of
                  None \<Rightarrow> (Ok (sk_id key), m)
                | Some a \<Rightarrow>
                    (Ok (sk_id key), m\<lparr>by_alias_version := dput (a, v) key (by_alias_version m)\<rparr>)))"

text \<open>\<open>self._storage[key]\<close>, which raises when the key is missing.\<close>

definition stored :: "'v mem \<Rightarrow> storage_key \<Rightarrow> 'v option res" where
  "stored m key = (case map_of (storage m) key of None \<Rightarrow> Raise KeyError | Some x \<Rightarrow> Ok (Some x))"

text \<open>\<open>k.version or 0\<close>, and \<open>max(keys, key=...)\<close>: the first of the largest.\<close>

definition version_or_0 :: "storage_key \<Rightarrow> int" where
  "version_or_0 k = (case sk_version k of None \<Rightarrow> 0 | Some v \<Rightarrow> v)"

fun py_max_by :: "('a \<Rightarrow> int) \<Rightarrow> 'a \<Rightarrow> 'a list \<Rightarrow> 'a" where
  "py_max_by f b [] = b"
| "py_max_by f b (x # xs) = py_max_by f (if f b < f x then x else b) xs"

definition get_by_id :: "'v mem \<Rightarrow> string \<Rightarrow> 'v option res" where
  "get_by_id m i =
    (case filter (\<lambda>k. sk_id k = i) (dkeys (storage m)) of
       [] \<Rightarrow> Ok None
     | k # ks \<Rightarrow> stored m (py_max_by version_or_0 k ks))"

definition get_by_id_version :: "'v mem \<Rightarrow> string \<Rightarrow> int \<Rightarrow> 'v option res" where
  "get_by_id_version m i v =
    (case map_of (by_id_version m) (i, v) of None \<Rightarrow> Ok None | Some key \<Rightarrow> stored m key)"

definition get_by_alias :: "'v mem \<Rightarrow> string \<Rightarrow> 'v option res" where
  "get_by_alias m a =
    (case filter (\<lambda>k. sk_alias k = Some a) (dkeys (storage m)) of
       [] \<Rightarrow> Ok None
     | k # ks \<Rightarrow> stored m (py_max_by version_or_0 k ks))"

definition get_by_alias_version :: "'v mem \<Rightarrow> string \<Rightarrow> int \<Rightarrow> 'v option res" where
  "get_by_alias_version m a v =
    (case map_of (by_alias_version m) (a, v) of None \<Rightarrow> Ok None | Some key \<Rightarrow> stored m key)"

definition mem_get :: "'v mem \<Rightarrow> storage_key \<Rightarrow> 'v option res" where
  "mem_get m key =
    (case (sk_alias key, sk_version key) of
       (Some a, Some v) \<Rightarrow> get_by_alias_version m a v
     | (None, Some v) \<Rightarrow> get_by_id_version m (sk_id key) v
     | (Some a, None) \<Rightarrow> get_by_alias m a
     | (None, None) \<Rightarrow> get_by_id m (sk_id key))"

definition mem_exists :: "'v mem \<Rightarrow> storage_key \<Rightarrow> bool res" where
  "mem_exists m key =
    (case mem_get m key of Ok x \<Rightarrow> Ok (x \<noteq> None) | Err e \<Rightarrow> Err e | Raise ex \<Rightarrow> Raise ex)"

definition mem_delete :: "'v mem \<Rightarrow> storage_key \<Rightarrow> unit res \<times> 'v mem" where
  "mem_delete m key =
    (let m = m\<lparr>storage := dpop key (storage m)\<rparr>
     in case sk_version key of
          None \<Rightarrow> (Ok (), m)
        | Some v \<Rightarrow>
            (let m = m\<lparr>by_id_version := dpop (sk_id key, v) (by_id_version m)\<rparr>
             in case sk_alias key of
                  None \<Rightarrow> (Ok (), m)
                | Some a \<Rightarrow> (Ok (), m\<lparr>by_alias_version := dpop (a, v) (by_alias_version m)\<rparr>)))"

definition mem_list_versions :: "'v mem \<Rightarrow> string \<Rightarrow> storage_key list res" where
  "mem_list_versions m i = Ok (filter (\<lambda>k. sk_id k = i) (dkeys (storage m)))"

definition mem_values :: "'v mem \<Rightarrow> 'v list" where
  "mem_values m = dvalues (storage m)"

definition mem_backend :: "('v mem, storage_key, 'v) backend" where
  "mem_backend = \<lparr>b_put = mem_put, b_get = mem_get, b_exists = mem_exists, b_delete = mem_delete,
     b_list_versions = mem_list_versions, b_values = mem_values\<rparr>"

lemma mem_backend_simps [simp]:
  "b_put mem_backend = mem_put" "b_get mem_backend = mem_get" "b_exists mem_backend = mem_exists"
  "b_delete mem_backend = mem_delete" "b_list_versions mem_backend = mem_list_versions"
  "b_values mem_backend = mem_values"
  by (simp_all add: mem_backend_def)

section \<open>No index entry dangles\<close>

text \<open>Every index entry names a stored key with this id (or alias) and this version.\<close>

definition mem_ok :: "'v mem \<Rightarrow> bool" where
  "mem_ok m =
    (dict_ok (storage m) \<and>
     (\<forall>i v k. map_of (by_id_version m) (i, v) = Some k \<longrightarrow>
        k \<in> set (dkeys (storage m)) \<and> sk_id k = i \<and> sk_version k = Some v) \<and>
     (\<forall>a v k. map_of (by_alias_version m) (a, v) = Some k \<longrightarrow>
        k \<in> set (dkeys (storage m)) \<and> sk_alias k = Some a \<and> sk_version k = Some v))"

lemma mem_ok_init [simp]: "mem_ok mem_init"
  by (simp add: mem_ok_def mem_init_def)

lemma mem_ok_put: "mem_ok m \<Longrightarrow> mem_ok (snd (mem_put m k x))"
  by (auto simp: mem_ok_def mem_put_def Let_def 
      split: option.splits if_splits)

lemma mem_ok_delete: "mem_ok m \<Longrightarrow> mem_ok (snd (mem_delete m k))"
  by (auto simp: mem_ok_def mem_delete_def Let_def 
      split: option.splits if_splits)

lemma stored_key: "k \<in> set (dkeys (storage m)) \<Longrightarrow> \<exists>x. stored m k = Ok (Some x)"
  by (cases "map_of (storage m) k") (auto simp: stored_def map_of_eq_None_iff)

lemma py_max_by_mem: "py_max_by f b xs \<in> set (b # xs)"
  by (induction xs arbitrary: b) (simp_all, metis)

lemma py_max_by_ge: "y \<in> set (b # xs) \<Longrightarrow> f y \<le> f (py_max_by f b xs)"
proof (induction xs arbitrary: b y)
  case (Cons x xs)
  let ?b = "if f b < f x then x else b"
  have top: "f ?b \<le> f (py_max_by f ?b xs)" by (rule Cons.IH) simp
  show ?case
  proof (cases "y \<in> set xs")
    case True
    then have "f y \<le> f (py_max_by f ?b xs)" by (intro Cons.IH) simp
    then show ?thesis by simp
  next
    case False
    then have "f y \<le> f ?b" using Cons.prems by auto
    then have "f y \<le> f (py_max_by f ?b xs)" using top by (rule order_trans)
    then show ?thesis by simp
  qed
qed simp

lemma stored_max:
  "filter P (dkeys (storage m)) = k # ks \<Longrightarrow> \<exists>x. stored m (py_max_by f k ks) = Ok (Some x)"
proof -
  assume f: "filter P (dkeys (storage m)) = k # ks"
  have "py_max_by f k ks \<in> set (filter P (dkeys (storage m)))" unfolding f by (rule py_max_by_mem)
  then show ?thesis by (intro stored_key) simp
qed

text \<open>A lookup returns a value or nothing: it does not raise.\<close>

lemma mem_get_total: "mem_ok m \<Longrightarrow> \<exists>r. mem_get m k = Ok r"
proof -
  assume ok: "mem_ok m"
  have "\<exists>r. get_by_alias_version m a v = Ok r" for a v
    using ok stored_key by (fastforce simp: get_by_alias_version_def mem_ok_def split: option.splits)
  moreover have "\<exists>r. get_by_id_version m i v = Ok r" for i v
    using ok stored_key by (fastforce simp: get_by_id_version_def mem_ok_def split: option.splits)
  moreover have "\<exists>r. get_by_alias m a = Ok r" for a
    using stored_max by (fastforce simp: get_by_alias_def split: list.splits)
  moreover have "\<exists>r. get_by_id m i = Ok r" for i
    using stored_max by (fastforce simp: get_by_id_def split: list.splits)
  ultimately show ?thesis by (auto simp: mem_get_def split: option.splits)
qed

text \<open>A lookup by id alone finds the newest version.\<close>

lemma get_by_id_newest:
  assumes "get_by_id m i = Ok (Some x)"
  obtains k where "map_of (storage m) k = Some x" "sk_id k = i"
    "\<And>k'. k' \<in> set (dkeys (storage m)) \<Longrightarrow> sk_id k' = i \<Longrightarrow> version_or_0 k' \<le> version_or_0 k"
proof -
  obtain k ks where f: "filter (\<lambda>k. sk_id k = i) (dkeys (storage m)) = k # ks"
    and s: "stored m (py_max_by version_or_0 k ks) = Ok (Some x)"
    using assms by (auto simp: get_by_id_def split: list.splits)
  let ?b = "py_max_by version_or_0 k ks"
  have "?b \<in> set (filter (\<lambda>k. sk_id k = i) (dkeys (storage m)))" unfolding f by (rule py_max_by_mem)
  moreover have "map_of (storage m) ?b = Some x" using s by (auto simp: stored_def split: option.splits)
  moreover have "version_or_0 k' \<le> version_or_0 ?b" if "k' \<in> set (dkeys (storage m))" "sk_id k' = i" for k'
    using that py_max_by_ge [of k' k ks version_or_0] unfolding f [symmetric] by auto
  ultimately show thesis using that by auto
qed

section \<open>Catalog keys\<close>

definition cat_inv :: "'v mem \<Rightarrow> bool" where
  "cat_inv m =
    (dict_ok (storage m) \<and> (\<forall>k x. map_of (storage m) k = Some x \<longrightarrow> (\<exists>i v. k = ckey (i, v))) \<and>
     (\<forall>p. map_of (by_alias_version m) p = map_option (\<lambda>_. ckey p) (map_of (storage m) (ckey p))) \<and>
     (\<forall>p. map_of (by_id_version m) p = map_option (\<lambda>_. ckey p) (map_of (storage m) (ckey p))))"

definition cat_view :: "'v mem \<Rightarrow> string \<times> int \<Rightarrow> 'v option" where
  "cat_view m p = map_of (storage m) (ckey p)"

lemma cat_inv_init [simp]: "cat_inv mem_init" "cat_view mem_init p = None"
  by (simp_all add: cat_inv_def mem_init_def cat_view_def)

lemma ckey_fields [simp]: "sk_id (ckey p) = fst p" "sk_version (ckey p) = Some (snd p)"
  "sk_alias (ckey p) = Some (fst p)"
  by (simp_all add: ckey_def)

lemma mem_put_ckey:
  "mem_put m (ckey p) x =
    (Ok (fst p), m\<lparr>storage := dput (ckey p) x (storage m),
       by_id_version := dput p (ckey p) (by_id_version m),
       by_alias_version := dput p (ckey p) (by_alias_version m)\<rparr>)"
  by (simp add: mem_put_def Let_def)

lemma mem_delete_ckey:
  "mem_delete m (ckey p) =
    (Ok (), m\<lparr>storage := dpop (ckey p) (storage m),
       by_id_version := dpop p (by_id_version m),
       by_alias_version := dpop p (by_alias_version m)\<rparr>)"
  by (simp add: mem_delete_def Let_def)

lemma mem_get_ckey: "cat_inv m \<Longrightarrow> mem_get m (ckey p) = Ok (cat_view m p)"
proof -
  assume "cat_inv m"
  then have "map_of (by_alias_version m) p = map_option (\<lambda>_. ckey p) (map_of (storage m) (ckey p))"
    unfolding cat_inv_def by blast
  then show ?thesis
    by (simp add: mem_get_def get_by_alias_version_def cat_view_def stored_def split: option.splits)
qed

lemma cat_inv_put: "cat_inv m \<Longrightarrow> cat_inv (snd (mem_put m (ckey p) x))"
  by (cases p) (auto simp: mem_put_ckey cat_inv_def)

lemma cat_inv_delete: "cat_inv m \<Longrightarrow> cat_inv (snd (mem_delete m (ckey p)))"
  by (cases p) (auto simp: mem_delete_ckey cat_inv_def)

interpretation mem_cat: catalog_store mem_backend cat_inv cat_view
proof
  fix m :: "'v mem" and p x i
  assume inv: "cat_inv m"
  show "\<exists>r s'. b_put mem_backend m (ckey p) x = (Ok r, s') \<and> cat_inv s' \<and>
      (\<forall>j. True \<longrightarrow> cat_view s' j = ((cat_view m)(p \<mapsto> x)) j)"
    using cat_inv_put [OF inv, of p x] by (simp add: mem_put_ckey cat_view_def)
  show "b_get mem_backend m (ckey p) = Ok (cat_view m p)"
    using inv by (simp add: mem_get_ckey)
  show "b_exists mem_backend m (ckey p) = Ok (cat_view m p \<noteq> None)"
    using inv by (simp add: mem_exists_def mem_get_ckey)
  show "\<exists>s'. b_delete mem_backend m (ckey p) = (Ok (), s') \<and> cat_inv s' \<and>
      (\<forall>j. True \<longrightarrow> cat_view s' j = ((cat_view m)(p := None)) j)"
    using cat_inv_delete [OF inv, of p] by (simp add: mem_delete_ckey cat_view_def)
  have mem: "(k, x) \<in> set (storage m) \<longleftrightarrow> map_of (storage m) k = Some x" for k x
    using inv by (simp add: cat_inv_def dict_ok_mem_iff)
  have ck: "\<exists>i v. k = ckey (i, v)" if "map_of (storage m) k = Some x" for k x
    using inv that by (simp add: cat_inv_def)
  have "set (filter (\<lambda>k. sk_id k = i) (dkeys (storage m))) = {ckey (i, v) |v. cat_view m (i, v) \<noteq> None}"
  proof (intro set_eqI iffI)
    fix k
    assume "k \<in> set (filter (\<lambda>k. sk_id k = i) (dkeys (storage m)))"
    then obtain x where x: "map_of (storage m) k = Some x" "sk_id k = i" using mem by auto
    with ck [OF x(1)] show "k \<in> {ckey (i, v) |v. cat_view m (i, v) \<noteq> None}"
      by (auto simp: cat_view_def)
  next
    fix k
    assume "k \<in> {ckey (i, v) |v. cat_view m (i, v) \<noteq> None}"
    then obtain v x where "k = ckey (i, v)" "map_of (storage m) k = Some x" by (auto simp: cat_view_def)
    then show "k \<in> set (filter (\<lambda>k. sk_id k = i) (dkeys (storage m)))" using mem [of k x] by force
  qed
  then show "\<exists>ks. b_list_versions mem_backend m i = Ok ks \<and>
      set ks = {ckey (i, v) |v. cat_view m (i, v) \<noteq> None}"
    by (simp add: mem_list_versions_def)
  have "y \<in> set (dvalues (storage m)) \<longleftrightarrow> (\<exists>p. cat_view m p = Some y)" for y
  proof
    assume "y \<in> set (dvalues (storage m))"
    then obtain k where k: "map_of (storage m) k = Some y" using mem by auto
    with ck [OF k] show "\<exists>p. cat_view m p = Some y" by (auto simp: cat_view_def)
  next
    assume "\<exists>p. cat_view m p = Some y"
    then show "y \<in> set (dvalues (storage m))" using mem by (force simp: cat_view_def)
  qed
  then show "set (b_values mem_backend m) = {x. \<exists>p. cat_view m p = Some x}"
    unfolding mem_backend_simps mem_values_def by blast
qed

section \<open>Bare ids\<close>

definition plain_inv :: "'v mem \<Rightarrow> bool" where
  "plain_inv m = (dict_ok (storage m) \<and> (\<forall>k x. map_of (storage m) k = Some x \<longrightarrow> (\<exists>i. k = pkey i)))"

definition plain_view :: "'v mem \<Rightarrow> string \<Rightarrow> 'v option" where
  "plain_view m i = map_of (storage m) (pkey i)"

lemma plain_inv_init [simp]: "plain_inv mem_init" "plain_view mem_init i = None"
  by (simp_all add: plain_inv_def mem_init_def plain_view_def)

lemma pkey_fields [simp]: "sk_id (pkey i) = i" "sk_version (pkey i) = None" "sk_alias (pkey i) = None"
  by (simp_all add: pkey_def)

lemma mem_put_pkey: "mem_put m (pkey i) x = (Ok i, m\<lparr>storage := dput (pkey i) x (storage m)\<rparr>)"
  by (simp add: mem_put_def Let_def)

lemma mem_delete_pkey: "mem_delete m (pkey i) = (Ok (), m\<lparr>storage := dpop (pkey i) (storage m)\<rparr>)"
  by (simp add: mem_delete_def Let_def)

lemma plain_keys:
  assumes "plain_inv m"
  shows "filter (\<lambda>k. sk_id k = i) (dkeys (storage m)) =
    (if map_of (storage m) (pkey i) = None then [] else [pkey i])"
proof -
  have d: "distinct (dkeys (storage m))" using assms by (simp add: plain_inv_def dict_ok_def)
  have k: "\<forall>k \<in> set (dkeys (storage m)). \<exists>i. k = pkey i"
  proof
    fix k
    assume "k \<in> set (dkeys (storage m))"
    then obtain x where "map_of (storage m) k = Some x" using map_of_eq_None_iff [of "storage m" k] by auto
    then show "\<exists>i. k = pkey i" using assms by (simp add: plain_inv_def)
  qed
  have "filter (\<lambda>k. sk_id k = i) ks = (if pkey i \<in> set ks then [pkey i] else [])"
    if "distinct ks" "\<forall>k \<in> set ks. \<exists>i. k = pkey i" for ks
    using that by (induction ks) auto
  from this [OF d k] show ?thesis by (simp add: map_of_eq_None_iff)
qed

lemma mem_get_pkey: "plain_inv m \<Longrightarrow> mem_get m (pkey i) = Ok (plain_view m i)"
  using plain_keys [of m i]
  by (auto simp: mem_get_def get_by_id_def plain_view_def stored_def split: option.splits)

interpretation mem_plain: kv_store mem_backend plain_inv "\<lambda>_. True" pkey plain_view
proof
  fix m :: "'v mem" and i x
  assume inv: "plain_inv m"
  show "\<exists>r s'. b_put mem_backend m (pkey i) x = (Ok r, s') \<and> plain_inv s' \<and>
      (\<forall>j. True \<longrightarrow> plain_view s' j = ((plain_view m)(i \<mapsto> x)) j)"
    using inv by (auto simp: mem_put_pkey plain_view_def plain_inv_def)
  show "b_get mem_backend m (pkey i) = Ok (plain_view m i)"
    using inv by (simp add: mem_get_pkey)
  show "b_exists mem_backend m (pkey i) = Ok (plain_view m i \<noteq> None)"
    using inv by (simp add: mem_exists_def mem_get_pkey)
  show "\<exists>s'. b_delete mem_backend m (pkey i) = (Ok (), s') \<and> plain_inv s' \<and>
      (\<forall>j. True \<longrightarrow> plain_view s' j = ((plain_view m)(i := None)) j)"
    using inv by (auto simp: mem_delete_pkey plain_view_def plain_inv_def)
qed

end
