(* ===== verification/Functions.thy ===== *)
theory Functions
  imports Replication In_Memory
begin

text \<open>
  Registered functions: the lifecycle (\<open>axo_shared/functions/lifecycle.py\<close>), the declared
  parameters and their validation (\<open>params_schema.py\<close>, \<open>core/functions/params_validation.py\<close>),
  the runtime specification (\<open>axo_shared/runtime/spec.py\<close>), the records and the registry over
  a storage backend (\<open>core/functions/registry.py\<close>), and the three handlers that register,
  update and delete. An operation returns its result, the backend's new state and the events
  it emits, in order.

  A field of an envelope is taken at its declared type; a value of another JSON type, which
  Python would carry along unchecked, counts as a \<open>TypeError\<close> here.
\<close>

section \<open>Lifecycle\<close>

datatype function_state = REGISTERED | COLD_START | RUNNING | COMPLETED | FAILED | IDLE | EVICTED

fun state_value :: "function_state \<Rightarrow> string" where
  "state_value REGISTERED = ''REGISTERED''"
| "state_value COLD_START = ''COLD_START''"
| "state_value RUNNING = ''RUNNING''"
| "state_value COMPLETED = ''COMPLETED''"
| "state_value FAILED = ''FAILED''"
| "state_value IDLE = ''IDLE''"
| "state_value EVICTED = ''EVICTED''"

definition all_states :: "function_state list" where
  "all_states = [REGISTERED, COLD_START, RUNNING, COMPLETED, FAILED, IDLE, EVICTED]"

text \<open>\<open>FunctionState(s)\<close>, which raises \<open>ValueError\<close> for another text.\<close>

definition state_of :: "string \<Rightarrow> function_state option" where
  "state_of s = find (\<lambda>st. state_value st = s) all_states"

lemma state_of_value [simp]: "state_of (state_value st) = Some st"
  by (cases st) (simp_all add: state_of_def all_states_def)

definition valid_transitions :: "(function_state \<times> function_state) list" where
  "valid_transitions =
    [(REGISTERED, COLD_START), (COLD_START, RUNNING), (RUNNING, COMPLETED), (RUNNING, FAILED),
     (COMPLETED, IDLE), (COMPLETED, EVICTED), (FAILED, IDLE), (FAILED, EVICTED),
     (IDLE, RUNNING), (IDLE, EVICTED), (EVICTED, COLD_START)]"

definition is_valid_transition :: "function_state \<Rightarrow> function_state \<Rightarrow> bool" where
  "is_valid_transition frm to = ((frm, to) \<in> set valid_transitions)"

section \<open>Declared parameters\<close>

record param_spec =
  ps_name :: string
  ps_type :: string
  ps_required :: bool
  ps_default :: json

definition param_from_dict :: "json \<Rightarrow> param_spec res" where
  "param_from_dict j =
    (case j of
       JObj d \<Rightarrow>
         (case map_of d ''name'' of
            None \<Rightarrow> Raise KeyError
          | Some (JStr n) \<Rightarrow>
              (case dget d ''type'' (JStr ''string'') of
                 JStr t \<Rightarrow> Ok \<lparr>ps_name = n, ps_type = t,
                              ps_required = py_truthy (dget d ''required'' (JBool True)),
                              ps_default = jget d ''default''\<rparr>
               | _ \<Rightarrow> Raise TypeError)
          | Some _ \<Rightarrow> Raise TypeError)
     | _ \<Rightarrow> Raise TypeError)"

definition param_to_dict :: "param_spec \<Rightarrow> json" where
  "param_to_dict p = JObj [(''name'', JStr (ps_name p)), (''type'', JStr (ps_type p)),
     (''required'', JBool (ps_required p)), (''default'', ps_default p)]"

fun param_list :: "json list \<Rightarrow> param_spec list res" where
  "param_list [] = Ok []"
| "param_list (j # js) =
    (case param_from_dict j of
       Ok p \<Rightarrow> (case param_list js of Ok ps \<Rightarrow> Ok (p # ps) | Err e \<Rightarrow> Err e | Raise ex \<Rightarrow> Raise ex)
     | Err e \<Rightarrow> Err e
     | Raise ex \<Rightarrow> Raise ex)"

text \<open>The argument is \<open>None\<close> or a list of dictionaries; anything falsy is no schema.\<close>

definition parse_params_schema :: "json \<Rightarrow> param_spec list res" where
  "parse_params_schema raw =
    (if \<not> py_truthy raw then Ok []
     else (case raw of JList js \<Rightarrow> param_list js | _ \<Rightarrow> Raise TypeError))"

definition params_schema_to_list :: "param_spec list option \<Rightarrow> json" where
  "params_schema_to_list schema =
    (case schema of None \<Rightarrow> JList [] | Some ps \<Rightarrow> JList (map param_to_dict ps))"

lemma param_dict_roundtrip [simp]: "param_from_dict (param_to_dict p) = Ok p"
  by (simp add: param_from_dict_def param_to_dict_def dget_def jget_def)

lemma params_schema_roundtrip [simp]:
  "parse_params_schema (params_schema_to_list s) = Ok (case s of None \<Rightarrow> [] | Some ps \<Rightarrow> ps)"
proof -
  have "param_list (map param_to_dict ps) = Ok ps" for ps by (induction ps) simp_all
  then show ?thesis by (cases s) (auto simp: parse_params_schema_def params_schema_to_list_def)
qed

section \<open>The runtime specification\<close>

record runtime_spec =
  rs_type :: string
  rs_python_version :: string
  rs_requirements :: "string list"
  rs_image :: "string option"
  rs_env_vars :: "(string, string) dict"
  rs_idle_ttl_seconds :: flt
  rs_max_invocations :: int
  rs_memory_limit_bytes :: "int option"
  rs_cpu_limit :: "flt option"
  rs_max_concurrency :: int
  rs_max_duration_seconds :: flt
  rs_max_retries :: int

definition default_spec :: runtime_spec where
  "default_spec = \<lparr>rs_type = ''process'', rs_python_version = ''3.11'', rs_requirements = [],
     rs_image = None, rs_env_vars = [], rs_idle_ttl_seconds = 300000000, rs_max_invocations = 0,
     rs_memory_limit_bytes = None, rs_cpu_limit = None, rs_max_concurrency = 1,
     rs_max_duration_seconds = 0, rs_max_retries = 3\<rparr>"

text \<open>\<open>int(x)\<close> and \<open>float(x)\<close> of a decoded number; \<open>int\<close> also reads decimal text.\<close>

definition json_int :: "json \<Rightarrow> int res" where
  "json_int j =
    (case j of
       JInt i \<Rightarrow> Ok i
     | JBool b \<Rightarrow> Ok (if b then 1 else 0)
     | JFloat x \<Rightarrow> Ok (sgn x * (\<bar>x\<bar> div 1000000))
     | JStr s \<Rightarrow> (case py_int s of Some i \<Rightarrow> Ok i | None \<Rightarrow> Raise ValueError)
     | _ \<Rightarrow> Raise TypeError)"

definition json_float :: "json \<Rightarrow> flt res" where
  "json_float j =
    (case j of
       JInt i \<Rightarrow> Ok (i * 1000000)
     | JBool b \<Rightarrow> Ok (if b then 1000000 else 0)
     | JFloat x \<Rightarrow> Ok x
     | _ \<Rightarrow> Raise TypeError)"

definition json_str :: "json \<Rightarrow> string res" where
  "json_str j = (case j of JStr s \<Rightarrow> Ok s | _ \<Rightarrow> Raise TypeError)"

text \<open>A decoded value where the code computes with an integer, \<open>None\<close> checked before.\<close>

definition exact_int :: "json \<Rightarrow> int res" where
  "exact_int j = (case j of JInt i \<Rightarrow> Ok i | _ \<Rightarrow> Raise TypeError)"

definition opt_res :: "(json \<Rightarrow> 'a res) \<Rightarrow> json \<Rightarrow> 'a option res" where
  "opt_res f j =
    (if j = JNull then Ok None
     else (case f j of Ok x \<Rightarrow> Ok (Some x) | Err e \<Rightarrow> Err e | Raise ex \<Rightarrow> Raise ex))"

definition json_str_list :: "json \<Rightarrow> string list res" where
  "json_str_list j =
    (case j of
       JList xs \<Rightarrow> (case json_strings xs of Some ss \<Rightarrow> Ok ss | None \<Rightarrow> Raise TypeError)
     | _ \<Rightarrow> Raise TypeError)"

fun str_pairs :: "(string \<times> json) list \<Rightarrow> (string, string) dict option" where
  "str_pairs [] = Some []"
| "str_pairs ((k, JStr s) # d) = map_option ((#) (k, s)) (str_pairs d)"
| "str_pairs _ = None"

definition json_str_dict :: "json \<Rightarrow> (string, string) dict res" where
  "json_str_dict j =
    (case j of
       JObj d \<Rightarrow> (case str_pairs d of Some e \<Rightarrow> Ok e | None \<Rightarrow> Raise TypeError)
     | _ \<Rightarrow> Raise TypeError)"

definition spec_from_dict :: "json \<Rightarrow> runtime_spec res" where
  "spec_from_dict j =
    (case j of
       JObj d \<Rightarrow>
         bind_res (json_str (dget d ''type'' (JStr ''process''))) (\<lambda>ty.
         bind_res (json_str (dget d ''python_version'' (JStr ''3.11''))) (\<lambda>pv.
         bind_res (json_str_list (dget d ''requirements'' (JList []))) (\<lambda>req.
         bind_res (opt_res json_str (jget d ''image'')) (\<lambda>img.
         bind_res (json_str_dict (dget d ''env_vars'' (JObj []))) (\<lambda>env.
         bind_res (json_float (dget d ''idle_ttl_seconds'' (JFloat 300000000))) (\<lambda>ttl.
         bind_res (json_int (dget d ''max_invocations'' (JInt 0))) (\<lambda>inv.
         bind_res (opt_res json_int (jget d ''memory_limit_bytes'')) (\<lambda>mem.
         bind_res (opt_res json_float (jget d ''cpu_limit'')) (\<lambda>cpu.
         bind_res (json_int (dget d ''max_concurrency'' (JInt 1))) (\<lambda>con.
         bind_res (json_float (dget d ''max_duration_seconds'' (JInt 0))) (\<lambda>dur.
         bind_res (json_int (dget d ''max_retries'' (JInt 3))) (\<lambda>ret.
           Ok \<lparr>rs_type = ty, rs_python_version = pv, rs_requirements = req, rs_image = img,
               rs_env_vars = env, rs_idle_ttl_seconds = ttl, rs_max_invocations = inv,
               rs_memory_limit_bytes = mem, rs_cpu_limit = cpu, rs_max_concurrency = con,
               rs_max_duration_seconds = dur, rs_max_retries = ret\<rparr>))))))))))))
     | _ \<Rightarrow> Raise AttributeError)"

definition json_opt :: "('a \<Rightarrow> json) \<Rightarrow> 'a option \<Rightarrow> json" where
  "json_opt f x = (case x of None \<Rightarrow> JNull | Some y \<Rightarrow> f y)"

definition spec_to_dict :: "runtime_spec \<Rightarrow> json" where
  "spec_to_dict s = JObj
    [(''type'', JStr (rs_type s)), (''python_version'', JStr (rs_python_version s)),
     (''requirements'', JList (map JStr (rs_requirements s))), (''image'', json_opt JStr (rs_image s)),
     (''env_vars'', JObj (map (\<lambda>(k, v). (k, JStr v)) (rs_env_vars s))),
     (''idle_ttl_seconds'', JFloat (rs_idle_ttl_seconds s)),
     (''max_invocations'', JInt (rs_max_invocations s)),
     (''memory_limit_bytes'', json_opt JInt (rs_memory_limit_bytes s)),
     (''cpu_limit'', json_opt JFloat (rs_cpu_limit s)),
     (''max_concurrency'', JInt (rs_max_concurrency s)),
     (''max_duration_seconds'', JFloat (rs_max_duration_seconds s)),
     (''max_retries'', JInt (rs_max_retries s))]"

lemma str_pairs_map [simp]: "str_pairs (map (\<lambda>(k, v). (k, JStr v)) d) = Some d"
  by (induction d) auto

lemma opt_res_json_opt [simp]:
  "opt_res json_str (json_opt JStr x) = Ok x" "opt_res json_int (json_opt JInt i) = Ok i"
  "opt_res json_float (json_opt JFloat y) = Ok y"
  by (cases x; cases i; cases y; simp add: opt_res_def json_opt_def json_str_def json_int_def json_float_def)+

lemma spec_roundtrip [simp]: "spec_from_dict (spec_to_dict s) = Ok s"
  by (simp add: spec_from_dict_def spec_to_dict_def dget_def jget_def json_str_def json_int_def
      json_float_def json_str_list_def json_str_dict_def)

section \<open>Records and the registry\<close>

record function_record =
  fr_code :: bytes
  fr_function_id :: string
  fr_name :: string
  fr_version :: int
  fr_created_at :: flt
  fr_state :: function_state
  fr_runtime_spec :: "runtime_spec option"
  fr_code_format :: string
  fr_params_schema :: "param_spec list option"

definition fn_event :: "string \<Rightarrow> string \<Rightarrow> json \<Rightarrow> flt \<Rightarrow> event" where
  "fn_event ty function_id version now =
    \<lparr>ev_type = ty, ev_payload = [(''function_id'', JStr function_id), (''version'', version)],
     ev_time = now\<rparr>"

definition key_version :: "storage_key \<Rightarrow> json" where
  "key_version k = json_opt JInt (sk_version k)"

text \<open>\<open>max((k.version or 0 for k in keys), default=0) + 1\<close>\<close>

definition next_version :: "storage_key list \<Rightarrow> int" where
  "next_version ks = (case map version_or_0 ks of [] \<Rightarrow> 0 | v # vs \<Rightarrow> fold max vs v) + 1"

type_synonym ('s, 'a) reg = "'a res \<times> 's \<times> event list"

definition register_function ::
  "('s, storage_key, function_record) backend \<Rightarrow> string \<Rightarrow> string \<Rightarrow> bytes \<Rightarrow> flt \<Rightarrow>
   runtime_spec option \<Rightarrow> string \<Rightarrow> param_spec list option \<Rightarrow> 's \<Rightarrow> ('s, storage_key) reg" where
  "register_function B function_id name code now spec code_format schema s =
    (case b_list_versions B s function_id of
       Err e \<Rightarrow> (Err e, s, [])
     | Raise ex \<Rightarrow> (Raise ex, s, [])
     | Ok ks \<Rightarrow>
         (let v = next_version ks;
              key = StorageKey function_id (Some v) (Some function_id);
              rec = \<lparr>fr_code = code, fr_function_id = function_id, fr_name = name, fr_version = v,
                     fr_created_at = now, fr_state = REGISTERED, fr_runtime_spec = spec,
                     fr_code_format = code_format, fr_params_schema = schema\<rparr>
          in case b_put B s key rec of
               (Ok _, s') \<Rightarrow> (Ok key, s', [fn_event (state_value REGISTERED) (sk_id key) (key_version key) now])
             | (Err e, s') \<Rightarrow> (Err e, s', [])
             | (Raise ex, s') \<Rightarrow> (Raise ex, s', [])))"

text \<open>The text of a key, as an f-string prints the dataclass.\<close>

definition key_repr :: "storage_key \<Rightarrow> string" where
  "key_repr k =
    ''StorageKey(id='' @ py_repr (sk_id k) @ '', version='' @
    (case sk_version k of None \<Rightarrow> ''None'' | Some v \<Rightarrow> str_int v) @ '', alias='' @
    (case sk_alias k of None \<Rightarrow> ''None'' | Some a \<Rightarrow> py_repr a) @ '')''"

definition no_record :: "storage_key \<Rightarrow> axo_error" where
  "no_record k = AxoErr RegistryError (''no FunctionRecord found for key '' @ key_repr k)"

text \<open>
  Reading the current record, changing it and writing it back: what \<open>transition\<close> and \<open>update\<close>
  have in common. A failure of the backend becomes a \<open>RegistryError\<close> with its message.
\<close>

definition replace_record ::
  "('s, storage_key, function_record) backend \<Rightarrow> storage_key \<Rightarrow> (function_record \<Rightarrow> function_record res) \<Rightarrow>
   string \<Rightarrow> flt \<Rightarrow> 's \<Rightarrow> ('s, function_record) reg" where
  "replace_record B key change ev now s =
    (case b_get B s key of
       Err e \<Rightarrow> (Err (AxoErr RegistryError (err_msg e)), s, [])
     | Raise ex \<Rightarrow> (Raise ex, s, [])
     | Ok None \<Rightarrow> (Err (no_record key), s, [])
     | Ok (Some cur) \<Rightarrow>
         (case change cur of
            Err e \<Rightarrow> (Err e, s, [])
          | Raise ex \<Rightarrow> (Raise ex, s, [])
          | Ok upd \<Rightarrow>
              (case b_put B s key upd of
                 (Ok _, s') \<Rightarrow> (Ok upd, s', [fn_event ev (sk_id key) (key_version key) now])
               | (Err e, s') \<Rightarrow> (Err (AxoErr RegistryError (err_msg e)), s', [])
               | (Raise ex, s') \<Rightarrow> (Raise ex, s', []))))"

definition transition ::
  "('s, storage_key, function_record) backend \<Rightarrow> storage_key \<Rightarrow> function_state \<Rightarrow> flt \<Rightarrow> 's \<Rightarrow>
   ('s, function_record) reg" where
  "transition B key to now s =
    replace_record B key
      (\<lambda>cur. if is_valid_transition (fr_state cur) to then Ok (cur\<lparr>fr_state := to\<rparr>)
             else Err (AxoErr RegistryError
               (''invalid transition FunctionState.'' @ state_value (fr_state cur) @
                '' -> FunctionState.'' @ state_value to)))
      (state_value to) now s"

definition merge_schema :: "param_spec list option \<Rightarrow> param_spec list option \<Rightarrow> param_spec list option" where
  "merge_schema cur new =
    (case new of
       None \<Rightarrow> cur
     | Some [] \<Rightarrow> cur
     | Some ps \<Rightarrow>
         (let base = (case cur of None \<Rightarrow> [] | Some c \<Rightarrow> c)
          in Some (base @ filter (\<lambda>p. ps_name p \<notin> ps_name ` set base) ps)))"

definition merge_env :: "runtime_spec option \<Rightarrow> (string, string) dict option \<Rightarrow> runtime_spec option" where
  "merge_env cur new =
    (case new of
       None \<Rightarrow> cur
     | Some [] \<Rightarrow> cur
     | Some env \<Rightarrow>
         (let base = (case cur of None \<Rightarrow> default_spec | Some c \<Rightarrow> c)
          in Some (base\<lparr>rs_env_vars := dmerge (rs_env_vars base) env\<rparr>)))"

definition update_function ::
  "('s, storage_key, function_record) backend \<Rightarrow> storage_key \<Rightarrow> flt \<Rightarrow> param_spec list option \<Rightarrow>
   (string, string) dict option \<Rightarrow> 's \<Rightarrow> ('s, function_record) reg" where
  "update_function B key now schema env s =
    replace_record B key
      (\<lambda>cur. Ok (cur\<lparr>fr_params_schema := merge_schema (fr_params_schema cur) schema,
                     fr_runtime_spec := merge_env (fr_runtime_spec cur) env\<rparr>))
      ''FUNCTION_UPDATED'' now s"

definition delete_function ::
  "('s, storage_key, function_record) backend \<Rightarrow> storage_key \<Rightarrow> flt \<Rightarrow> 's \<Rightarrow> ('s, storage_key) reg" where
  "delete_function B key now s =
    (case b_get B s key of
       Err e \<Rightarrow> (Err (AxoErr RegistryError (err_msg e)), s, [])
     | Raise ex \<Rightarrow> (Raise ex, s, [])
     | Ok None \<Rightarrow> (Err (no_record key), s, [])
     | Ok (Some _) \<Rightarrow>
         (case b_delete B s key of
            (Ok _, s') \<Rightarrow> (Ok key, s', [fn_event ''FUNCTION_DELETED'' (sk_id key) (key_version key) now])
          | (Err e, s') \<Rightarrow> (Err (AxoErr RegistryError (err_msg e)), s', [])
          | (Raise ex, s') \<Rightarrow> (Raise ex, s', [])))"

section \<open>Validation of parameters\<close>

fun is_jstr :: "json \<Rightarrow> bool" where
  "is_jstr (JStr _) = True"
| "is_jstr _ = False"

definition type_matches :: "json \<Rightarrow> string \<Rightarrow> bool" where
  "type_matches v ty =
    (if ty = ''string'' then is_jstr v
     else if ty = ''number'' then (case v of JInt _ \<Rightarrow> True | JFloat _ \<Rightarrow> True | _ \<Rightarrow> False)
     else if ty = ''boolean'' then (case v of JBool _ \<Rightarrow> True | _ \<Rightarrow> False)
     else if ty = ''json'' then True
     else if ty = ''data_ref'' then
       (case v of JObj d \<Rightarrow> is_jstr (jget d ''kind'') \<and> is_jstr (jget d ''location'') | _ \<Rightarrow> False)
     else False)"

fun fill_params :: "param_spec list \<Rightarrow> (string, json) dict \<Rightarrow> (string, json) dict \<Rightarrow> (string, json) dict res" where
  "fill_params [] params filled = Ok filled"
| "fill_params (p # ps) params filled =
    (case map_of params (ps_name p) of
       None \<Rightarrow>
         if ps_required p \<and> ps_default p = JNull then
           Err (AxoErr InvalidFieldError (''missing required param '' @ quoted (ps_name p)))
         else fill_params ps params (dput (ps_name p) (ps_default p) filled)
     | Some v \<Rightarrow>
         if \<not> type_matches v (ps_type p) then
           Err (AxoErr InvalidFieldError (''param '' @ quoted (ps_name p) @
             '' does not match declared type '' @ quoted (ps_type p)))
         else fill_params ps params (dput (ps_name p) v filled))"

definition validate_and_fill_params ::
  "param_spec list \<Rightarrow> (string, json) dict \<Rightarrow> (string, json) dict res" where
  "validate_and_fill_params schema params =
    (let unknown = filter (\<lambda>k. k \<notin> ps_name ` set schema) (dkeys params)
     in if unknown \<noteq> [] then
          Err (AxoErr InvalidFieldError
            (''unknown params not declared in params_schema: '' @ str_list (sort (remdups unknown))))
        else fill_params schema params [])"

text \<open>What one declared parameter ends up with.\<close>

definition param_value :: "(string, json) dict \<Rightarrow> param_spec \<Rightarrow> json" where
  "param_value params p = dget params (ps_name p) (ps_default p)"

definition param_accepts :: "(string, json) dict \<Rightarrow> param_spec \<Rightarrow> bool" where
  "param_accepts params p =
    (case map_of params (ps_name p) of
       None \<Rightarrow> \<not> (ps_required p \<and> ps_default p = JNull)
     | Some v \<Rightarrow> type_matches v (ps_type p))"

lemma fill_params_ok_iff:
  "(\<exists>r. fill_params ps params filled = Ok r) \<longleftrightarrow> list_all (param_accepts params) ps"
  by (induction ps arbitrary: filled) (auto simp: param_accepts_def split: option.splits)

lemma fill_params_never_raises: "fill_params ps params filled \<noteq> Raise ex"
  by (induction ps arbitrary: filled) (auto split: option.splits)

lemma fill_params_err: "fill_params ps params filled = Err e \<Longrightarrow> err_cls e = InvalidFieldError"
  by (induction ps arbitrary: filled) (auto split: option.splits if_splits)

lemma fill_params_value:
  "fill_params ps params filled = Ok r \<Longrightarrow> distinct (map ps_name ps) \<Longrightarrow>
   map_of r k = (case find (\<lambda>p. ps_name p = k) ps of
     Some p \<Rightarrow> Some (param_value params p) | None \<Rightarrow> map_of filled k)"
proof (induction ps arbitrary: filled)
  case (Cons p ps)
  have rest: "find (\<lambda>q. ps_name q = ps_name p) ps = None"
    using Cons.prems(2) by (simp add: find_None_iff image_iff) metis
  obtain filled' where f: "fill_params ps params filled' = Ok r"
    and filled': "filled' = dput (ps_name p) (param_value params p) filled"
    using Cons.prems(1) by (auto simp: param_value_def dget_def split: option.splits if_splits)
  from Cons.IH [OF f] Cons.prems(2) filled' rest show ?case by (auto split: option.splits)
qed simp

section \<open>Handlers\<close>

text \<open>
  \<open>command.envelope.get(k)\<close> raises when the envelope is no object; the handlers below read
  several fields, so they take the object apart first. \<open>now_fn\<close> is a clock reading.
\<close>

definition with_env :: "command \<Rightarrow> ((string, json) dict \<Rightarrow> 'a res) \<Rightarrow> 'a res" where
  "with_env c f = (case envelope c of JObj d \<Rightarrow> f d | _ \<Rightarrow> Raise AttributeError)"

definition failure_payload :: "string \<Rightarrow> json \<Rightarrow> axo_error \<Rightarrow> (string, json) dict" where
  "failure_payload function_id version e =
    [(''function_id'', JStr function_id), (''version'', version),
     (''failure'', JObj [(''error_class'', JStr (err_name (err_cls e))),
        (''error_code'', JInt (int (err_code (err_cls e)))),
        (''component'', JStr ''function_registry''), (''message'', JStr (err_msg e)),
        (''traceback'', JNull), (''is_transient'', JBool False)])]"

definition missing_error :: "string \<Rightarrow> axo_error" where
  "missing_error what = AxoErr MissingFieldError what"

definition parse_register :: "(string, json) dict \<Rightarrow>
    (string \<times> string \<times> runtime_spec option \<times> string \<times> param_spec list option) res" where
  "parse_register d =
    bind_res (json_str (jget d ''function_id'')) (\<lambda>fid.
    bind_res (json_str (jget d ''name'')) (\<lambda>name.
    bind_res (opt_res spec_from_dict (jget d ''runtime_spec'')) (\<lambda>spec.
    bind_res (json_str (dget d ''code_format'' (JStr ''cloudpickle''))) (\<lambda>fmt.
    bind_res (parse_params_schema (jget d ''params_schema'')) (\<lambda>ps.
      Ok (fid, name, spec, fmt, if ps = [] then None else Some ps))))))"

definition handle_function_register ::
  "('s, storage_key, function_record) backend \<Rightarrow> bool \<Rightarrow> flt \<Rightarrow> command \<Rightarrow> 's \<Rightarrow> ('s, command_result) reg" where
  "handle_function_register B has_bus now c s =
    (case envelope c of
       JObj d \<Rightarrow>
         (if \<not> py_truthy (jget d ''function_id'') \<or> \<not> py_truthy (jget d ''name'') then
            (Ok (from_error (missing_error ''function_id and name are required'')), s, [])
          else
            (case parse_register d of
               Err e \<Rightarrow> (Err e, s, [])
             | Raise ex \<Rightarrow> (Raise ex, s, [])
             | Ok (fid, name, spec, fmt, schema) \<Rightarrow>
                 (case register_function B fid name (payload c) now spec fmt schema s of
                    (Ok key, s', evs) \<Rightarrow>
                      (Ok (result_ok [(''function_id'', JStr (sk_id key)), (''version'', key_version key)]), s', evs)
                  | (Err raw, s', evs) \<Rightarrow>
                      (let e = AxoErr StorageFailureError (err_msg raw)
                       in (Ok (from_error e), s',
                           evs @ (if has_bus
                                  then [\<lparr>ev_type = ''FUNCTION_REGISTER_FAILED'',
                                         ev_payload = failure_payload fid JNull e, ev_time = now\<rparr>]
                                  else [])))
                  | (Raise ex, s', evs) \<Rightarrow> (Raise ex, s', evs))))
     | _ \<Rightarrow> (Raise AttributeError, s, []))"

definition missing_ref :: "(string, json) dict \<Rightarrow> bool" where
  "missing_ref d = (\<not> py_truthy (jget d ''function_id'') \<or> jget d ''version'' = JNull)"

definition parse_ref :: "(string, json) dict \<Rightarrow> (string \<times> int) res" where
  "parse_ref d =
    bind_res (json_str (jget d ''function_id'')) (\<lambda>fid.
      case jget d ''version'' of JInt v \<Rightarrow> Ok (fid, v) | _ \<Rightarrow> Raise TypeError)"

definition parse_update :: "(string, json) dict \<Rightarrow>
    (string \<times> int \<times> param_spec list option \<times> (string, string) dict option) res" where
  "parse_update d =
    bind_res (parse_params_schema (jget d ''params_schema'')) (\<lambda>ps.
    bind_res (if py_truthy (jget d ''env_vars'')
              then bind_res (json_str_dict (jget d ''env_vars'')) (\<lambda>e. Ok (Some e)) else Ok None) (\<lambda>env.
    bind_res (parse_ref d) (\<lambda>(fid, v).
      Ok (fid, v, if ps = [] then None else Some ps, env))))"

definition handle_function_update ::
  "('s, storage_key, function_record) backend \<Rightarrow> flt \<Rightarrow> command \<Rightarrow> 's \<Rightarrow> ('s, command_result) reg" where
  "handle_function_update B now c s =
    (case envelope c of
       JObj d \<Rightarrow>
         (if missing_ref d then
            (Ok (from_error (missing_error ''function_id and version are required'')), s, [])
          else
            (case parse_update d of
               Err e \<Rightarrow> (Err e, s, [])
             | Raise ex \<Rightarrow> (Raise ex, s, [])
             | Ok (fid, v, schema, env) \<Rightarrow>
                 (case update_function B (ckey (fid, v)) now schema env s of
                    (Ok _, s', evs) \<Rightarrow>
                      (Ok (result_ok [(''function_id'', JStr fid), (''version'', JInt v)]), s', evs)
                  | (Err raw, s', evs) \<Rightarrow>
                      (Ok (from_error (AxoErr StorageFailureError (err_msg raw))), s', evs)
                  | (Raise ex, s', evs) \<Rightarrow> (Raise ex, s', evs))))
     | _ \<Rightarrow> (Raise AttributeError, s, []))"

definition handle_function_delete ::
  "('s, storage_key, function_record) backend \<Rightarrow> bool \<Rightarrow> flt \<Rightarrow> command \<Rightarrow> 's \<Rightarrow> ('s, command_result) reg" where
  "handle_function_delete B has_bus now c s =
    (case envelope c of
       JObj d \<Rightarrow>
         (if missing_ref d then
            (Ok (from_error (missing_error ''function_id and version are required'')), s, [])
          else
            (case parse_ref d of
               Err e \<Rightarrow> (Err e, s, [])
             | Raise ex \<Rightarrow> (Raise ex, s, [])
             | Ok (fid, v) \<Rightarrow>
                 (case delete_function B (ckey (fid, v)) now s of
                    (Ok key, s', evs) \<Rightarrow>
                      (Ok (result_ok [(''function_id'', JStr (sk_id key)), (''version'', key_version key)]), s', evs)
                  | (Err raw, s', evs) \<Rightarrow>
                      (let e = AxoErr StorageFailureError (err_msg raw)
                       in (Ok (from_error e), s',
                           evs @ (if has_bus
                                  then [\<lparr>ev_type = ''FUNCTION_DELETE_FAILED'',
                                         ev_payload = failure_payload fid (JInt v) e, ev_time = now\<rparr>]
                                  else [])))
                  | (Raise ex, s', evs) \<Rightarrow> (Raise ex, s', evs))))
     | _ \<Rightarrow> (Raise AttributeError, s, []))"

section \<open>The registry over a lawful catalog\<close>

lemma fold_max_start: "(x :: int) \<le> fold max xs x"
proof (induction xs arbitrary: x)
  case (Cons y xs)
  from Cons [of "max y x"] show ?case by simp
qed simp

lemma fold_max_ge: "v \<in> set (x # xs) \<Longrightarrow> (v :: int) \<le> fold max xs x"
proof (induction xs arbitrary: x)
  case (Cons y xs)
  show ?case
  proof (cases "v \<in> set xs")
    case True
    then show ?thesis using Cons.IH [of "max y x"] by simp
  next
    case False
    then have "v \<le> max y x" using Cons.prems by auto
    also have "max y x \<le> fold max xs (max y x)" by (rule fold_max_start)
    finally show ?thesis by simp
  qed
qed simp

lemma next_version_above:
  assumes "\<exists>k \<in> set ks. sk_version k = Some v"
  shows "v < next_version ks"
proof -
  obtain k where "k \<in> set ks" "version_or_0 k = v" using assms by (auto simp: version_or_0_def)
  then have v: "v \<in> set (map version_or_0 ks)" by force
  then show ?thesis
    using fold_max_ge [of v] by (fastforce simp: next_version_def split: list.splits)
qed

lemma fold_max_mem: "fold max xs x \<in> set (x # xs :: int list)"
proof (induction xs arbitrary: x)
  case (Cons y xs)
  from Cons [of "max y x"] show ?case by (auto simp: max_def split: if_splits)
qed simp

lemma next_version_Max: "next_version ks = (if ks = [] then 1 else Max (version_or_0 ` set ks) + 1)"
proof (cases ks)
  case (Cons k ks')
  have "fold max (map version_or_0 ks') (version_or_0 k) = Max (version_or_0 ` set ks)"
  proof (rule Max_eqI [symmetric])
    show "finite (version_or_0 ` set ks)" by simp
    show "y \<le> fold max (map version_or_0 ks') (version_or_0 k)" if "y \<in> version_or_0 ` set ks" for y
      using that fold_max_ge [of y "version_or_0 k" "map version_or_0 ks'"] Cons by auto
    show "fold max (map version_or_0 ks') (version_or_0 k) \<in> version_or_0 ` set ks"
      using fold_max_mem [of "map version_or_0 ks'" "version_or_0 k"] Cons by auto
  qed
  then show ?thesis using Cons by (simp add: next_version_def)
qed (simp add: next_version_def)

text \<open>The version that comes after the versions \<open>V\<close> of a function.\<close>

definition version_after :: "int set \<Rightarrow> int" where
  "version_after V = (if V = {} then 1 else Max V + 1)"

context catalog_store
begin

lemma versions_list:
  assumes "inv s"
  obtains ks where "b_list_versions B s i = Ok ks"
    "\<And>v x. view s (i, v) = Some x \<Longrightarrow> v < next_version ks" "view s (i, next_version ks) = None"
    "next_version ks = version_after {v. view s (i, v) \<noteq> None}"
proof -
  obtain ks where ks: "b_list_versions B s i = Ok ks" "set ks = {ckey (i, v) |v. view s (i, v) \<noteq> None}"
    using versions [OF assms] by blast
  have below: "v < next_version ks" if "view s (i, v) = Some x" for v x
    using that ks(2) by (intro next_version_above) force
  then have "view s (i, next_version ks) = None" by (cases "view s (i, next_version ks)") auto
  moreover have "version_or_0 ` set ks = {v. view s (i, v) \<noteq> None}"
    using ks(2) by (force simp: version_or_0_def ckey_def)
  then have "next_version ks = version_after {v. view s (i, v) \<noteq> None}"
    by (auto simp: next_version_Max version_after_def)
  ultimately show thesis using that ks(1) below by blast
qed

lemma catalog_put_ok: "inv s \<Longrightarrow> \<exists>r s'. b_put B s (ckey p) x = (Ok r, s') \<and> inv s' \<and> view s' = (view s)(p \<mapsto> x)"
  using put [of s p x] by (auto simp: fun_eq_iff)

lemma catalog_delete_ok: "inv s \<Longrightarrow> \<exists>s'. b_delete B s (ckey p) = (Ok (), s') \<and> inv s' \<and> view s' = (view s)(p := None)"
  using delete [of s p] by (auto simp: fun_eq_iff)

end

locale function_catalog = catalog_store B inv view
  for B :: "('s, storage_key, function_record) backend" and inv :: "'s \<Rightarrow> bool"
    and view :: "'s \<Rightarrow> string \<times> int \<Rightarrow> function_record option"
begin

lemma replace_record_cases:
  assumes "inv s" "replace_record B (ckey p) f ev now s = (r, s', evs)"
  shows "(view s p = None \<and> r = Err (no_record (ckey p)) \<and> s' = s \<and> evs = []) \<or>
    (\<exists>x. view s p = Some x \<and> (\<forall>y. f x \<noteq> Ok y) \<and> r = f x \<and> s' = s \<and> evs = []) \<or>
    (\<exists>x y. view s p = Some x \<and> f x = Ok y \<and> r = Ok y \<and> inv s' \<and> view s' = (view s)(p \<mapsto> y) \<and>
       evs = [fn_event ev (fst p) (JInt (snd p)) now])"
proof -
  have get: "b_get B s (ckey p) = Ok (view s p)" using get [OF assms(1)] by simp
  show ?thesis
  proof (cases "view s p")
    case None
    then show ?thesis using assms(2) get by (simp add: replace_record_def)
  next
    case (Some x)
    show ?thesis
    proof (cases "f x")
      case (Ok y)
      obtain q t where "b_put B s (ckey p) y = (Ok q, t)" "inv t" "view t = (view s)(p \<mapsto> y)"
        using catalog_put_ok [OF assms(1)] by blast
      moreover from this have "(r, s', evs) = (Ok y, t, [fn_event ev (fst p) (JInt (snd p)) now])"
        using assms(2) get Some Ok by (simp add: replace_record_def key_version_def json_opt_def)
      ultimately show ?thesis using Some Ok by simp
    qed (use assms(2) get Some in \<open>auto simp: replace_record_def\<close>)
  qed
qed

lemma register_cases:
  assumes "inv s" "register_function B i name code now spec fmt schema s = (r, s', evs)"
  obtains v where "r = Ok (ckey (i, v))" "view s (i, v) = None"
    "v = version_after {w. view s (i, w) \<noteq> None}"
    "\<And>w x. view s (i, w) = Some x \<Longrightarrow> w < v" "inv s'"
    "view s' = (view s)((i, v) \<mapsto> \<lparr>fr_code = code, fr_function_id = i, fr_name = name, fr_version = v,
       fr_created_at = now, fr_state = REGISTERED, fr_runtime_spec = spec, fr_code_format = fmt,
       fr_params_schema = schema\<rparr>)"
    "evs = [fn_event ''REGISTERED'' i (JInt v) now]"
proof -
  obtain ks where ks: "b_list_versions B s i = Ok ks"
    "\<And>w x. view s (i, w) = Some x \<Longrightarrow> w < next_version ks" "view s (i, next_version ks) = None"
    "next_version ks = version_after {v. view s (i, v) \<noteq> None}"
    using versions_list [OF assms(1)] by blast
  let ?v = "next_version ks"
  let ?rec = "\<lparr>fr_code = code, fr_function_id = i, fr_name = name, fr_version = ?v,
       fr_created_at = now, fr_state = REGISTERED, fr_runtime_spec = spec, fr_code_format = fmt,
       fr_params_schema = schema\<rparr>"
  obtain q t where t: "b_put B s (ckey (i, ?v)) ?rec = (Ok q, t)" "inv t"
    "view t = (view s)((i, ?v) \<mapsto> ?rec)"
    using catalog_put_ok [OF assms(1)] by blast
  have "StorageKey i (Some ?v) (Some i) = ckey (i, ?v)" by (simp add: ckey_def)
  then have "(r, s', evs) = (Ok (ckey (i, ?v)), t, [fn_event ''REGISTERED'' i (JInt ?v) now])"
    using assms(2) ks(1) t(1)
    by (simp add: register_function_def Let_def key_version_def json_opt_def)
  then show thesis using that [of ?v] ks t by simp
qed

lemma delete_cases:
  assumes "inv s" "delete_function B (ckey p) now s = (r, s', evs)"
  shows "(view s p = None \<and> r = Err (no_record (ckey p)) \<and> s' = s \<and> evs = []) \<or>
    (view s p \<noteq> None \<and> r = Ok (ckey p) \<and> inv s' \<and> view s' = (view s)(p := None) \<and>
       evs = [fn_event ''FUNCTION_DELETED'' (fst p) (JInt (snd p)) now])"
proof -
  have get: "b_get B s (ckey p) = Ok (view s p)" using get [OF assms(1)] by simp
  obtain t where "b_delete B s (ckey p) = (Ok (), t)" "inv t" "view t = (view s)(p := None)"
    using catalog_delete_ok [OF assms(1)] by blast
  then show ?thesis
    using assms(2) get
    by (auto simp: delete_function_def key_version_def json_opt_def split: option.splits)
qed

end

interpretation mem_functions: function_catalog mem_backend cat_inv cat_view
  by unfold_locales

section \<open>The lifecycle as a transition system\<close>

text \<open>The states that a record can be driven to from its registration on.\<close>

inductive lifecycle :: "function_state \<Rightarrow> function_state \<Rightarrow> bool" where
  here: "lifecycle st st"
| onward: "lifecycle st st' \<Longrightarrow> is_valid_transition st' st'' \<Longrightarrow> lifecycle st st''"

inductive_cases lifecycle_cases: "lifecycle st st'"

lemma valid_transition_iff:
  "is_valid_transition frm to \<longleftrightarrow>
    (case frm of
       REGISTERED \<Rightarrow> to = COLD_START | COLD_START \<Rightarrow> to = RUNNING
     | RUNNING \<Rightarrow> to \<in> {COMPLETED, FAILED} | COMPLETED \<Rightarrow> to \<in> {IDLE, EVICTED}
     | FAILED \<Rightarrow> to \<in> {IDLE, EVICTED} | IDLE \<Rightarrow> to \<in> {RUNNING, EVICTED} | EVICTED \<Rightarrow> to = COLD_START)"
  by (cases frm; cases to) (simp_all add: is_valid_transition_def valid_transitions_def)

lemma lifecycle_trans: "lifecycle b c \<Longrightarrow> lifecycle a b \<Longrightarrow> lifecycle a c"
  by (induction rule: lifecycle.induct) (auto intro: lifecycle.intros)

lemma lifecycle_step: "is_valid_transition a b \<Longrightarrow> lifecycle a b"
  by (blast intro: lifecycle.intros)

lemma lifecycle_running: "lifecycle st RUNNING"
proof -
  have c: "lifecycle COLD_START RUNNING" by (simp add: lifecycle_step valid_transition_iff)
  have e: "lifecycle EVICTED RUNNING"
    by (rule lifecycle_trans [OF c]) (simp add: lifecycle_step valid_transition_iff)
  show ?thesis
    using c e lifecycle_trans [OF c, of REGISTERED] lifecycle_trans [OF e, of COMPLETED]
      lifecycle_trans [OF e, of FAILED] lifecycle_step [of IDLE RUNNING] lifecycle.here [of RUNNING]
    by (cases st) (simp_all add: lifecycle_step valid_transition_iff)
qed

lemma lifecycle_not_registered: "lifecycle a b \<Longrightarrow> a \<noteq> REGISTERED \<Longrightarrow> b \<noteq> REGISTERED"
  by (induction rule: lifecycle.induct) (auto simp: valid_transition_iff split: function_state.splits)

section \<open>Properties\<close>

text \<open>
  C22: Registering a function always succeeds on the in-memory catalog and stores it under a
  version above every version of that function that is stored, so no record is overwritten;
  exactly one event announces it and every other record is unchanged.
\<close>

theorem register_new_version:
  assumes "cat_inv m" "register_function mem_backend i name code now spec fmt schema m = (r, m', evs)"
  shows "\<exists>v. r = Ok (ckey (i, v)) \<and> cat_view m (i, v) = None \<and>
      (\<forall>w. cat_view m (i, w) \<noteq> None \<longrightarrow> w < v) \<and> cat_inv m' \<and>
      cat_view m' = (cat_view m)((i, v) \<mapsto> \<lparr>fr_code = code, fr_function_id = i, fr_name = name,
         fr_version = v, fr_created_at = now, fr_state = REGISTERED, fr_runtime_spec = spec,
         fr_code_format = fmt, fr_params_schema = schema\<rparr>) \<and>
      evs = [fn_event ''REGISTERED'' i (JInt v) now]"
proof -
  obtain v where v: "r = Ok (ckey (i, v))" "cat_view m (i, v) = None"
    "\<And>w x. cat_view m (i, w) = Some x \<Longrightarrow> w < v" "cat_inv m'"
    "cat_view m' = (cat_view m)((i, v) \<mapsto> \<lparr>fr_code = code, fr_function_id = i, fr_name = name,
       fr_version = v, fr_created_at = now, fr_state = REGISTERED, fr_runtime_spec = spec,
       fr_code_format = fmt, fr_params_schema = schema\<rparr>)"
    "evs = [fn_event ''REGISTERED'' i (JInt v) now]"
    using mem_functions.register_cases [OF assms] by blast
  then show ?thesis by blast
qed

lemma register_new_version_witness:
  "\<exists>v. fst (register_function mem_backend ''f'' ''n'' [] 0 None ''cloudpickle'' None mem_init) = Ok (ckey (''f'', v))"
proof -
  obtain r m' evs where g: "register_function mem_backend ''f'' ''n'' [] 0 None ''cloudpickle'' None mem_init = (r, m', evs)"
    by (metis prod_cases3)
  from register_new_version [OF cat_inv_init(1) g] show ?thesis using g by auto
qed

text \<open>
  Updating a function adds parameters and environment variables and takes none away: the
  declared parameters of the old record stay a prefix of the new ones, only names that were
  not declared are added, every new variable has its new value and every other keeps its own;
  state, code and version stay. A missing record is an error, without an event or a change.
\<close>

theorem update_is_additive:
  assumes "cat_inv m" "update_function mem_backend (ckey p) now schema env m = (r, m', evs)"
  shows "(cat_view m p = None \<longrightarrow> r = Err (no_record (ckey p)) \<and> m' = m \<and> evs = []) \<and>
    (cat_view m p = Some x \<longrightarrow>
      (\<exists>y. r = Ok y \<and> cat_view m' = (cat_view m)(p \<mapsto> y) \<and>
        evs = [fn_event ''FUNCTION_UPDATED'' (fst p) (JInt (snd p)) now] \<and>
        fr_code y = fr_code x \<and> fr_state y = fr_state x \<and> fr_version y = fr_version x \<and>
        fr_params_schema y = merge_schema (fr_params_schema x) schema \<and>
        fr_runtime_spec y = merge_env (fr_runtime_spec x) env)) \<and>
    prefix (case cur of None \<Rightarrow> [] | Some c \<Rightarrow> c)
           (case merge_schema cur schema of None \<Rightarrow> [] | Some c \<Rightarrow> c) \<and>
    (merge_schema cur (Some ps) = Some qs \<longrightarrow>
         ps_name ` set qs = ps_name ` set (case cur of None \<Rightarrow> [] | Some c \<Rightarrow> c) \<union> ps_name ` set ps) \<and>
    (dict_ok vars \<longrightarrow> vars \<noteq> [] \<longrightarrow>
         (\<exists>sp. merge_env (Some old) (Some vars) = Some sp \<and>
           map_of (rs_env_vars sp) k = (case map_of vars k of None \<Rightarrow> map_of (rs_env_vars old) k | Some v \<Rightarrow> Some v)))"
proof -
  note cs = mem_functions.replace_record_cases [OF assms(1) assms(2) [unfolded update_function_def]]
  have missing: "r = Err (no_record (ckey p)) \<and> m' = m \<and> evs = []" if "cat_view m p = None"
    using cs that by auto
  have found: "\<exists>y. r = Ok y \<and> cat_view m' = (cat_view m)(p \<mapsto> y) \<and>
        evs = [fn_event ''FUNCTION_UPDATED'' (fst p) (JInt (snd p)) now] \<and>
        fr_code y = fr_code x \<and> fr_state y = fr_state x \<and> fr_version y = fr_version x \<and>
        fr_params_schema y = merge_schema (fr_params_schema x) schema \<and>
        fr_runtime_spec y = merge_env (fr_runtime_spec x) env" if "cat_view m p = Some x"
    using cs that by auto
  have kept: "prefix (case cur of None \<Rightarrow> [] | Some c \<Rightarrow> c)
           (case merge_schema cur schema of None \<Rightarrow> [] | Some c \<Rightarrow> c)"
    by (auto simp: merge_schema_def Let_def split: option.splits list.splits)
  have names: "ps_name ` set qs = ps_name ` set (case cur of None \<Rightarrow> [] | Some c \<Rightarrow> c) \<union> ps_name ` set ps"
    if "merge_schema cur (Some ps) = Some qs"
  proof (cases "ps = []")
    case False
    define base where "base = (case cur of None \<Rightarrow> [] | Some c \<Rightarrow> c)"
    have "merge_schema cur (Some ps) = Some (base @ filter (\<lambda>p. ps_name p \<notin> ps_name ` set base) ps)"
      using False by (cases ps) (simp_all only: merge_schema_def Let_def base_def option.case list.case)
    then have "qs = base @ filter (\<lambda>p. ps_name p \<notin> ps_name ` set base) ps" using that by simp
    then show ?thesis unfolding base_def [symmetric] by auto
  qed (use that in \<open>auto simp: merge_schema_def\<close>)
  have env: "\<exists>sp. merge_env (Some old) (Some vars) = Some sp \<and>
           map_of (rs_env_vars sp) k = (case map_of vars k of None \<Rightarrow> map_of (rs_env_vars old) k | Some v \<Rightarrow> Some v)"
    if "dict_ok vars" "vars \<noteq> []"
    using that by (cases vars) (auto simp: merge_env_def Let_def map_of_dmerge simp del: dmerge_Cons)
  show ?thesis by (rule conjI, rule impI, erule missing, rule conjI, rule impI, erule found, rule conjI, rule kept,
        rule conjI, rule impI, erule names, rule impI, rule impI, erule env)
qed

lemma update_is_additive_witness:
  "\<exists>sp. merge_env (Some default_spec) (Some [(''A'', ''1'')]) = Some sp \<and>
     map_of (rs_env_vars sp) ''A'' = (case map_of [(''A'', ''1'')] ''A'' of
       None \<Rightarrow> map_of (rs_env_vars default_spec) ''A'' | Some v \<Rightarrow> Some v)"
proof -
  obtain r m' evs where u: "update_function mem_backend (ckey (''f'', 1)) 0 None None mem_init = (r, m', evs)"
    by (metis prod_cases3)
  show ?thesis by (rule update_is_additive [OF cat_inv_init(1) u, THEN conjunct2, THEN conjunct2, THEN conjunct2,
        THEN conjunct2, THEN mp, THEN mp]) (simp_all add: dict_ok_def)
qed

text \<open>
  A state change goes through exactly when the lifecycle allows it from the stored state;
  then only the state differs. From any state a function can run (again), and none leads back
  to \<open>REGISTERED\<close>.
\<close>

theorem transition_lifecycle:
  assumes "cat_inv m" "cat_view m p = Some x" "transition mem_backend (ckey p) to now m = (r, m', evs)"
  shows "(r = Ok y \<longleftrightarrow> is_valid_transition (fr_state x) to \<and> y = x\<lparr>fr_state := to\<rparr>) \<and>
    (is_valid_transition (fr_state x) to \<longrightarrow>
         cat_view m' = (cat_view m)(p \<mapsto> x\<lparr>fr_state := to\<rparr>) \<and>
         evs = [fn_event (state_value to) (fst p) (JInt (snd p)) now]) \<and>
    (\<not> is_valid_transition (fr_state x) to \<longrightarrow> m' = m \<and> evs = []) \<and>
    lifecycle st RUNNING \<and>
    (lifecycle st st' \<longrightarrow> st \<noteq> REGISTERED \<longrightarrow> st' \<noteq> REGISTERED)"
proof -
  note cs = mem_functions.replace_record_cases [OF assms(1) assms(3) [unfolded transition_def]]
  have iff: "r = Ok y \<longleftrightarrow> is_valid_transition (fr_state x) to \<and> y = x\<lparr>fr_state := to\<rparr>"
    using cs assms(2) by (auto split: if_splits)
  have changed: "cat_view m' = (cat_view m)(p \<mapsto> x\<lparr>fr_state := to\<rparr>) \<and>
         evs = [fn_event (state_value to) (fst p) (JInt (snd p)) now]"
    if "is_valid_transition (fr_state x) to"
    using cs assms(2) that by auto
  have refused: "m' = m \<and> evs = []" if "\<not> is_valid_transition (fr_state x) to"
    using cs assms(2) that by auto
  show ?thesis
    by (rule conjI, rule iff, rule conjI, rule impI, erule changed, rule conjI, rule impI, erule refused,
        rule conjI, rule lifecycle_running, rule impI, rule impI, erule lifecycle_not_registered)
qed

definition record_example :: function_record where
  "record_example = \<lparr>fr_code = [], fr_function_id = ''f'', fr_name = ''n'', fr_version = 1,
     fr_created_at = 0, fr_state = REGISTERED, fr_runtime_spec = None, fr_code_format = ''cloudpickle'',
     fr_params_schema = None\<rparr>"

lemma transition_lifecycle_witness:
  "let m = snd (mem_put mem_init (ckey (''f'', 1)) record_example)
   in snd (snd (transition mem_backend (ckey (''f'', 1)) COLD_START 5 m)) =
        [fn_event ''COLD_START'' ''f'' (JInt 1) 5]"
proof -
  let ?m = "snd (mem_put mem_init (ckey (''f'', 1)) record_example)"
  have inv: "cat_inv ?m" by (rule cat_inv_put) simp
  have v: "cat_view ?m (''f'', 1) = Some record_example" by (simp add: mem_put_ckey cat_view_def)
  have "is_valid_transition (fr_state record_example) COLD_START"
    by (simp add: record_example_def valid_transition_iff)
  from transition_lifecycle [OF inv v, THEN conjunct2, THEN conjunct1, THEN mp, OF _ this] show ?thesis
    by (simp add: Let_def) (metis prod.collapse)
qed

text \<open>
  Deleting the newest version of a function gives its number back: the next registration
  stores other code under the version that was deleted, although \<open>register\<close> is documented to
  guarantee that versions increment.
\<close>

theorem deleted_version_is_reused:
  assumes "cat_inv m" "register_function mem_backend i name code now spec fmt schema m = (Ok k, m1, e1)"
    "delete_function mem_backend k t m1 = (r, m2, e2)"
    "register_function mem_backend i name2 code2 now2 spec2 fmt2 schema2 m2 = (Ok k2, m3, e3)"
  shows "r = Ok k \<and> k2 = k \<and> (\<exists>x. cat_view m3 (i, the (sk_version k)) = Some x \<and> fr_code x = code2)"
proof -
  obtain v where v0: "Ok k = Ok (ckey (i, v))" and v: "cat_view m (i, v) = None" "cat_inv m1"
    "v = version_after {w. cat_view m (i, w) \<noteq> None}"
    "cat_view m1 = (cat_view m)((i, v) \<mapsto> \<lparr>fr_code = code, fr_function_id = i, fr_name = name,
       fr_version = v, fr_created_at = now, fr_state = REGISTERED, fr_runtime_spec = spec,
       fr_code_format = fmt, fr_params_schema = schema\<rparr>)"
    using mem_functions.register_cases [OF assms(1,2)] by blast
  from v0 have k: "k = ckey (i, v)" by simp
  have d: "r = Ok k" "cat_inv m2" "cat_view m2 = (cat_view m1)((i, v) := None)"
    using mem_functions.delete_cases [OF v(2) assms(3) [unfolded k]] v k by auto
  then have same: "cat_view m2 = cat_view m" using v by (auto simp: fun_eq_iff)
  obtain w where w: "Ok k2 = Ok (ckey (i, w))" "w = version_after {w. cat_view m2 (i, w) \<noteq> None}"
    "cat_view m3 = (cat_view m2)((i, w) \<mapsto> \<lparr>fr_code = code2, fr_function_id = i, fr_name = name2,
       fr_version = w, fr_created_at = now2, fr_state = REGISTERED, fr_runtime_spec = spec2,
       fr_code_format = fmt2, fr_params_schema = schema2\<rparr>)"
    using mem_functions.register_cases [OF d(2) assms(4)] by blast
  show ?thesis using d(1) k v w same by simp
qed

lemma deleted_version_is_reused_witness:
  "\<exists>k m1 e1 r m2 e2 k2 m3 e3.
     register_function mem_backend ''f'' ''n'' ''old'' 0 None ''cloudpickle'' None mem_init = (Ok k, m1, e1) \<and>
     delete_function mem_backend k 1 m1 = (r, m2, e2) \<and>
     register_function mem_backend ''f'' ''n'' ''new'' 2 None ''cloudpickle'' None m2 = (Ok k2, m3, e3) \<and> k2 = k"
proof -
  obtain r1 m1 e1 where g: "register_function mem_backend ''f'' ''n'' ''old'' 0 None ''cloudpickle'' None mem_init = (r1, m1, e1)"
    by (metis prod_cases3)
  obtain v where r1: "r1 = Ok (ckey (''f'', v))" and i1: "cat_inv m1"
    using mem_functions.register_cases [OF cat_inv_init(1) g] by blast
  define k where "k = ckey (''f'', v)"
  have 1: "register_function mem_backend ''f'' ''n'' ''old'' 0 None ''cloudpickle'' None mem_init = (Ok k, m1, e1)"
    using g r1 by (simp add: k_def)
  obtain r m2 e2 where 2: "delete_function mem_backend k 1 m1 = (r, m2, e2)" by (metis prod_cases3)
  have i2: "cat_inv m2" using mem_functions.delete_cases [OF i1 2 [unfolded k_def]] i1 by auto
  obtain r3 m3 e3 where g3: "register_function mem_backend ''f'' ''n'' ''new'' 2 None ''cloudpickle'' None m2 = (r3, m3, e3)"
    by (metis prod_cases3)
  obtain w where "r3 = Ok (ckey (''f'', w))" using mem_functions.register_cases [OF i2 g3] by blast
  then have 3: "register_function mem_backend ''f'' ''n'' ''new'' 2 None ''cloudpickle'' None m2 = (Ok (ckey (''f'', w)), m3, e3)"
    using g3 by simp
  from deleted_version_is_reused [OF cat_inv_init(1) 1 2 3] 1 2 3 show ?thesis by blast
qed

text \<open>
  With a declared schema (distinct names), a job's parameters are accepted exactly when
  every parameter is declared and every declared one is present with its type or has a
  default or is optional; the result then gives every declared name its value, nothing else
  is let through, and every refusal is an \<open>InvalidFieldError\<close>.
\<close>

theorem params_whitelist:
  "((\<exists>r. validate_and_fill_params schema params = Ok r) \<longleftrightarrow>
      (\<forall>k \<in> set (dkeys params). \<exists>p \<in> set schema. ps_name p = k) \<and> list_all (param_accepts params) schema) \<and>
   (validate_and_fill_params schema params = Ok r \<longrightarrow> distinct (map ps_name schema) \<longrightarrow>
      map_of r k = map_option (param_value params) (find (\<lambda>p. ps_name p = k) schema)) \<and>
   (validate_and_fill_params schema params = Err e \<longrightarrow> err_cls e = InvalidFieldError) \<and>
   validate_and_fill_params schema params \<noteq> Raise ex"
proof -
  let ?unknown = "filter (\<lambda>k. k \<notin> ps_name ` set schema) (dkeys params)"
  have unknown: "?unknown = [] \<longleftrightarrow> (\<forall>k \<in> set (dkeys params). \<exists>p \<in> set schema. ps_name p = k)"
    unfolding filter_empty_conv by (metis imageE image_eqI)
  have accepted: "(\<exists>r. validate_and_fill_params schema params = Ok r) \<longleftrightarrow>
      (\<forall>k \<in> set (dkeys params). \<exists>p \<in> set schema. ps_name p = k) \<and> list_all (param_accepts params) schema"
    unfolding validate_and_fill_params_def Let_def unknown [symmetric]
    using fill_params_ok_iff [of schema params "[]"] by auto
  have filled: "map_of r k = map_option (param_value params) (find (\<lambda>p. ps_name p = k) schema)"
    if "validate_and_fill_params schema params = Ok r" "distinct (map ps_name schema)"
    using that fill_params_value [of schema params "[]" r k]
    by (auto simp: validate_and_fill_params_def Let_def split: if_splits option.splits)
  have error: "err_cls e = InvalidFieldError" if "validate_and_fill_params schema params = Err e"
    using that fill_params_err [of schema params "[]" e]
    by (auto simp: validate_and_fill_params_def Let_def split: if_splits)
  have total: "validate_and_fill_params schema params \<noteq> Raise ex"
    using fill_params_never_raises by (auto simp: validate_and_fill_params_def Let_def)
  show ?thesis
    by (rule conjI, rule accepted, rule conjI, rule impI, rule impI, erule filled, assumption,
        rule conjI, rule impI, erule error, rule total)
qed

lemma params_whitelist_witness:
  "map_of [(''n'', JInt 4)] ''n'' = map_option (param_value [(''n'', JInt 4)])
     (find (\<lambda>p. ps_name p = ''n'') [\<lparr>ps_name = ''n'', ps_type = ''number'', ps_required = True, ps_default = JNull\<rparr>])"
  by (rule params_whitelist [THEN conjunct2, THEN conjunct1, THEN mp, THEN mp]) (simp_all add: validate_and_fill_params_def type_matches_def)

end
