(* ===== verification/Filesystem.thy ===== *)
theory Filesystem
  imports Storage Protocol
begin

text \<open>
  \<open>FilesystemStorageBackend\<close> (\<open>axo_endpoint/core/storage/filesystem.py\<close>): every key is resolved
  under the root with \<open>os.path.realpath\<close> and checked with \<open>os.path.commonpath\<close> before the file
  is touched. The state is the file tree, a map from resolved paths to contents; directories
  are implied. \<open>realpath\<close> (which follows symbolic links) and the paths on which the operating
  system refuses an operation are arguments. On a tree without links \<open>realpath\<close> is
  \<open>norm_path\<close>, and there the backend keeps the laws of the interface for relative paths
  whose segments are plain names.
\<close>

section \<open>Paths\<close>

definition path_segments :: "string \<Rightarrow> string list" where
  "path_segments p = filter (\<lambda>s. s \<noteq> []) (py_split (CHR ''/'') p)"

definition path_join_segments :: "string list \<Rightarrow> string" where
  "path_join_segments ss = CHR ''/'' # py_join [CHR ''/''] ss"

text \<open>\<open>os.path.join(a, b)\<close>\<close>

definition os_path_join :: "string \<Rightarrow> string \<Rightarrow> string" where
  "os_path_join a b =
    (if prefix [CHR ''/''] b then b
     else if a = [] \<or> last a = CHR ''/'' then a @ b
     else a @ CHR ''/'' # b)"

text \<open>\<open>os.path.commonpath([a, b])\<close> of two absolute paths.\<close>

definition os_commonpath :: "string \<Rightarrow> string \<Rightarrow> string" where
  "os_commonpath a b = path_join_segments (longest_common_prefix (path_segments a) (path_segments b))"

text \<open>\<open>os.path.realpath\<close> of an absolute path on a tree without symbolic links.\<close>

fun norm_step :: "string list \<Rightarrow> string list \<Rightarrow> string list" where
  "norm_step acc [] = rev acc"
| "norm_step acc (s # ss) =
    (if s = [] \<or> s = ''.'' then norm_step acc ss
     else if s = ''..'' then norm_step (tl acc) ss
     else norm_step (s # acc) ss)"

definition norm_path :: "string \<Rightarrow> string" where
  "norm_path p = path_join_segments (norm_step [] (py_split (CHR ''/'') p))"

section \<open>The backend\<close>

type_synonym file_tree = "(string, bytes) dict"

definition fs_resolve :: "(string \<Rightarrow> string) \<Rightarrow> string \<Rightarrow> string \<Rightarrow> string res" where
  "fs_resolve realpath root path =
    (let root = realpath root;
         candidate = realpath (os_path_join root path)
     in if os_commonpath candidate root \<noteq> root then
          Err (AxoErr StoragePathTraversalError (''path '' @ py_repr path @ '' escapes the storage root''))
        else Ok candidate)"

definition fs_io_error :: axo_error where
  "fs_io_error = AxoErr StorageBackendIOError (exc_text OSError)"

text \<open>
  The temporary file of \<open>put\<close> is replaced onto the final path in one step or removed, so
  \<open>put\<close> changes the file at the path or nothing.
\<close>

definition fs_put :: "(string \<Rightarrow> string) \<Rightarrow> (string \<Rightarrow> bool) \<Rightarrow> string \<Rightarrow> file_tree \<Rightarrow> string \<Rightarrow> bytes \<Rightarrow>
    string res \<times> file_tree" where
  "fs_put realpath oserr root files key value =
    (case fs_resolve realpath root key of
       Ok path \<Rightarrow> if oserr path then (Err fs_io_error, files) else (Ok key, dput path value files)
     | Err e \<Rightarrow> (Err e, files)
     | Raise ex \<Rightarrow> (Raise ex, files))"

definition fs_get :: "(string \<Rightarrow> string) \<Rightarrow> (string \<Rightarrow> bool) \<Rightarrow> string \<Rightarrow> file_tree \<Rightarrow> string \<Rightarrow> bytes option res" where
  "fs_get realpath oserr root files key =
    (case fs_resolve realpath root key of
       Ok path \<Rightarrow> if oserr path then Err fs_io_error else Ok (map_of files path)
     | Err e \<Rightarrow> Err e
     | Raise ex \<Rightarrow> Raise ex)"

definition fs_exists :: "(string \<Rightarrow> string) \<Rightarrow> string \<Rightarrow> file_tree \<Rightarrow> string \<Rightarrow> bool res" where
  "fs_exists realpath root files key =
    (case fs_resolve realpath root key of
       Ok path \<Rightarrow> Ok (map_of files path \<noteq> None)
     | Err e \<Rightarrow> Err e
     | Raise ex \<Rightarrow> Raise ex)"

definition fs_delete :: "(string \<Rightarrow> string) \<Rightarrow> (string \<Rightarrow> bool) \<Rightarrow> string \<Rightarrow> file_tree \<Rightarrow> string \<Rightarrow>
    unit res \<times> file_tree" where
  "fs_delete realpath oserr root files key =
    (case fs_resolve realpath root key of
       Ok path \<Rightarrow> if oserr path then (Err fs_io_error, files) else (Ok (), dpop path files)
     | Err e \<Rightarrow> (Err e, files)
     | Raise ex \<Rightarrow> (Raise ex, files))"

text \<open>
  Every file below the directory \<open>id\<close>, by its path relative to the root (\<open>os.walk\<close> lists them
  in an order of its own).
\<close>

definition fs_list_versions :: "(string \<Rightarrow> string) \<Rightarrow> string \<Rightarrow> file_tree \<Rightarrow> string \<Rightarrow> string list res" where
  "fs_list_versions realpath root files i =
    (case fs_resolve realpath root i of
       Ok pre \<Rightarrow>
         Ok (map (\<lambda>f. py_join [CHR ''/''] (drop (length (path_segments (realpath root))) (path_segments f)))
              (filter (\<lambda>f. strict_prefix (path_segments pre) (path_segments f)) (dkeys files)))
     | Err e \<Rightarrow> Err e
     | Raise ex \<Rightarrow> Raise ex)"

definition fs_backend :: "(string \<Rightarrow> string) \<Rightarrow> (string \<Rightarrow> bool) \<Rightarrow> string \<Rightarrow> (file_tree, string, bytes) backend" where
  "fs_backend realpath oserr root =
    \<lparr>b_put = fs_put realpath oserr root, b_get = fs_get realpath oserr root,
     b_exists = fs_exists realpath root, b_delete = fs_delete realpath oserr root,
     b_list_versions = fs_list_versions realpath root, b_values = dvalues\<rparr>"

lemma fs_backend_simps [simp]:
  "b_put (fs_backend rp oe root) = fs_put rp oe root" "b_get (fs_backend rp oe root) = fs_get rp oe root"
  "b_exists (fs_backend rp oe root) = fs_exists rp root" "b_delete (fs_backend rp oe root) = fs_delete rp oe root"
  by (simp_all add: fs_backend_def)

section \<open>Containment\<close>

text \<open>A path lies under a directory when its segments extend the directory's.\<close>

definition under :: "string \<Rightarrow> string \<Rightarrow> bool" where
  "under dir p = prefix (path_segments dir) (path_segments p)"

definition plain_segment :: "string \<Rightarrow> bool" where
  "plain_segment s = (s \<noteq> [] \<and> CHR ''/'' \<notin> set s)"

lemma py_split_Cons_sep: "py_split c (c # s) = [] # py_split c s"
  by simp

lemma path_segments_join: "list_all plain_segment ss \<Longrightarrow> path_segments (path_join_segments ss) = ss"
proof (cases "ss = []")
  case False
  assume ss: "list_all plain_segment ss"
  then have "py_split (CHR ''/'') (py_join [CHR ''/''] ss) = ss"
    using False by (intro py_split_join) (auto simp: plain_segment_def list_all_iff)
  moreover have "filter (\<lambda>s. s \<noteq> []) ss = ss"
    using ss by (intro filter_True) (auto simp: plain_segment_def list_all_iff)
  ultimately show ?thesis by (simp add: path_segments_def path_join_segments_def)
qed (simp add: path_segments_def path_join_segments_def)

lemma path_segments_plain: "list_all plain_segment (path_segments p)"
  using py_split_parts by (fastforce simp: path_segments_def plain_segment_def list_all_iff)

lemma plain_lcp: "list_all plain_segment xs \<Longrightarrow> list_all plain_segment (longest_common_prefix xs ys)"
  by (induction xs ys rule: longest_common_prefix.induct) auto

lemma commonpath_under:
  assumes "os_commonpath c r = r"
  shows "under r c"
proof -
  have "path_segments (os_commonpath c r) = longest_common_prefix (path_segments c) (path_segments r)"
    unfolding os_commonpath_def by (rule path_segments_join [OF plain_lcp [OF path_segments_plain]])
  then have "longest_common_prefix (path_segments c) (path_segments r) = path_segments r"
    using assms by simp
  then show ?thesis unfolding under_def by (metis longest_common_prefix_prefix1)
qed

lemma fs_resolve_under: "fs_resolve rp root key = Ok p \<Longrightarrow> under (rp root) p"
  by (auto simp: fs_resolve_def Let_def commonpath_under split: if_splits)

section \<open>Relative paths of plain names\<close>

definition clean_segment :: "string \<Rightarrow> bool" where
  "clean_segment s = (plain_segment s \<and> s \<noteq> ''.'' \<and> s \<noteq> ''..'')"

definition clean_path :: "string \<Rightarrow> bool" where
  "clean_path p = list_all clean_segment (py_split (CHR ''/'') p)"

lemma norm_step_clean: "list_all clean_segment ss \<Longrightarrow> norm_step acc ss = rev acc @ ss"
  by (induction ss arbitrary: acc) (auto simp: clean_segment_def plain_segment_def)

lemma norm_step_append: "norm_step acc (ss @ ts) = norm_step (rev (norm_step acc ss)) ts"
  by (induction acc ss rule: norm_step.induct) auto

lemma norm_step_is_clean:
  "list_all clean_segment acc \<Longrightarrow> (\<forall>s \<in> set ss. CHR ''/'' \<notin> set s) \<Longrightarrow> list_all clean_segment (norm_step acc ss)"
proof (induction acc ss rule: norm_step.induct)
  case (2 acc s ss)
  have "list_all clean_segment (tl acc)" using 2(4) by (cases acc) auto
  moreover have "clean_segment s" if "s \<noteq> []" "s \<noteq> ''.''" "s \<noteq> ''..''"
    using 2(5) that by (simp add: clean_segment_def plain_segment_def)
  ultimately show ?case using 2 by auto
qed (auto simp: list_all_iff)

definition norm_segments :: "string \<Rightarrow> string list" where
  "norm_segments p = norm_step [] (py_split (CHR ''/'') p)"

lemma norm_segments_clean: "list_all clean_segment (norm_segments p)"
  unfolding norm_segments_def using py_split_parts by (intro norm_step_is_clean) auto

lemma norm_path_segments: "path_segments (norm_path p) = norm_segments p"
  unfolding norm_path_def norm_segments_def [symmetric]
  using norm_segments_clean [of p] by (intro path_segments_join) (auto simp: clean_segment_def list_all_iff)

lemma split_join_segments:
  assumes "list_all clean_segment ss" "ss \<noteq> []"
  shows "py_split (CHR ''/'') (path_join_segments ss @ CHR ''/'' # t) = [] # ss @ py_split (CHR ''/'') t"
proof -
  have "py_split (CHR ''/'') (py_join [CHR ''/''] ss @ CHR ''/'' # t) = ss @ py_split (CHR ''/'') t"
    using assms
    by (induction "[CHR ''/'']" ss rule: py_join.induct)
       (auto simp: clean_segment_def plain_segment_def)
  then show ?thesis by (simp add: path_join_segments_def)
qed

lemma last_path_join: "list_all clean_segment ss \<Longrightarrow> ss \<noteq> [] \<Longrightarrow> last (path_join_segments ss) \<noteq> CHR ''/''"
proof -
  assume ss: "list_all clean_segment ss" "ss \<noteq> []"
  have "py_join [CHR ''/''] ss \<noteq> [] \<and> last (py_join [CHR ''/''] ss) \<noteq> CHR ''/''"
    using ss
  proof (induction "[CHR ''/'']" ss rule: py_join.induct)
    case (2 x)
    then show ?case by (auto simp: clean_segment_def plain_segment_def dest: last_in_set)
  qed (auto simp: clean_segment_def plain_segment_def)
  then show ?thesis by (simp add: path_join_segments_def)
qed

lemma clean_path_head: "clean_path p \<Longrightarrow> \<not> prefix [CHR ''/''] p"
  by (cases p) (auto simp: clean_path_def clean_segment_def plain_segment_def)

text \<open>A clean path under a normalised root resolves to the root's segments followed by its own.\<close>

lemma norm_join_clean:
  assumes "clean_path p"
  shows "norm_segments (os_path_join (norm_path root) p) = norm_segments root @ py_split (CHR ''/'') p"
proof (cases "norm_segments root = []")
  case True
  then have "norm_path root = ''/''" by (simp add: norm_path_def norm_segments_def path_join_segments_def)
  then have "os_path_join (norm_path root) p = CHR ''/'' # p"
    using clean_path_head [OF assms] by (simp add: os_path_join_def)
  then show ?thesis
    using True norm_step_clean [of "py_split (CHR ''/'') p" "[]"] assms
    by (simp add: norm_segments_def clean_path_def)
next
  case False
  note clean = norm_segments_clean [of root]
  have root: "norm_path root = path_join_segments (norm_segments root)"
    by (simp add: norm_path_def norm_segments_def)
  have "os_path_join (norm_path root) p = path_join_segments (norm_segments root) @ CHR ''/'' # p"
    using clean_path_head [OF assms] last_path_join [OF clean False]
    by (simp add: os_path_join_def root path_join_segments_def)
  then have "py_split (CHR ''/'') (os_path_join (norm_path root) p) =
      [] # norm_segments root @ py_split (CHR ''/'') p"
    using split_join_segments [OF clean False] by simp
  then have "norm_segments (os_path_join (norm_path root) p) =
      norm_step [] (norm_segments root @ py_split (CHR ''/'') p)"
    by (simp add: norm_segments_def [of "os_path_join (norm_path root) p"])
  then show ?thesis
    using clean assms norm_step_clean [of "norm_segments root @ py_split (CHR ''/'') p" "[]"]
    by (simp add: clean_path_def)
qed

lemma lcp_append: "longest_common_prefix (xs @ ys) xs = xs"
  by (induction xs) auto

lemma fs_resolve_clean:
  assumes "clean_path p"
  shows "fs_resolve norm_path root p =
    Ok (path_join_segments (norm_segments root @ py_split (CHR ''/'') p))"
proof -
  let ?c = "norm_path (os_path_join (norm_path root) p)"
  have c: "?c = path_join_segments (norm_segments root @ py_split (CHR ''/'') p)"
    using norm_join_clean [OF assms] by (simp add: norm_path_def [of "os_path_join _ _"] norm_segments_def)
  have "path_segments ?c = norm_segments root @ py_split (CHR ''/'') p"
    using norm_join_clean [OF assms] norm_path_segments by simp
  then have "os_commonpath ?c (norm_path root) = path_join_segments (norm_segments root)"
    by (simp add: os_commonpath_def norm_path_segments lcp_append)
  then show ?thesis
    by (simp add: fs_resolve_def Let_def c [symmetric]) (simp add: norm_path_def norm_segments_def)
qed

lemma fs_resolve_inject:
  assumes "clean_path p" "clean_path q" "fs_resolve norm_path root p = fs_resolve norm_path root q"
  shows "p = q"
proof -
  have clean: "list_all plain_segment (norm_segments root @ py_split (CHR ''/'') x)" if "clean_path x" for x
    using that norm_segments_clean [of root] by (auto simp: clean_path_def clean_segment_def list_all_iff)
  have "norm_segments root @ py_split (CHR ''/'') p = norm_segments root @ py_split (CHR ''/'') q"
    using assms fs_resolve_clean path_segments_join clean by (metis res.inject(1))
  then show ?thesis by (metis py_join_split same_append_eq)
qed

text \<open>The files under the resolved keys are what a client sees.\<close>

definition fs_view :: "string \<Rightarrow> file_tree \<Rightarrow> string \<Rightarrow> bytes option" where
  "fs_view root files p = map_of files (path_join_segments (norm_segments root @ py_split (CHR ''/'') p))"

interpretation fs_store: kv_store "fs_backend norm_path (\<lambda>_. False) root" dict_ok clean_path "\<lambda>p. p" "fs_view root"
  for root
proof
  fix files :: file_tree and p x
  assume inv: "dict_ok files" and ok: "clean_path p"
  let ?path = "\<lambda>p. path_join_segments (norm_segments root @ py_split (CHR ''/'') p)"
  have inj: "?path q = ?path p \<longleftrightarrow> q = p" if "clean_path q" for q
    using fs_resolve_inject [OF that ok, of root] fs_resolve_clean ok that by auto
  show "\<exists>r s'. b_put (fs_backend norm_path (\<lambda>_. False) root) files p x = (Ok r, s') \<and> dict_ok s' \<and>
      (\<forall>j. clean_path j \<longrightarrow> fs_view root s' j = ((fs_view root files)(p \<mapsto> x)) j)"
    using inv ok inj by (simp add: fs_put_def fs_resolve_clean fs_view_def)
  show "b_get (fs_backend norm_path (\<lambda>_. False) root) files p = Ok (fs_view root files p)"
    using ok by (simp add: fs_get_def fs_resolve_clean fs_view_def)
  show "b_exists (fs_backend norm_path (\<lambda>_. False) root) files p = Ok (fs_view root files p \<noteq> None)"
    using ok by (simp add: fs_exists_def fs_resolve_clean fs_view_def)
  show "\<exists>s'. b_delete (fs_backend norm_path (\<lambda>_. False) root) files p = (Ok (), s') \<and> dict_ok s' \<and>
      (\<forall>j. clean_path j \<longrightarrow> fs_view root s' j = ((fs_view root files)(p := None)) j)"
    using inv ok inj by (simp add: fs_delete_def fs_resolve_clean fs_view_def)
qed

section \<open>Properties\<close>



end
