(* ===== verification/Data.thy ===== *)
theory Data
  imports Functions Filesystem
begin

text \<open>
  Registered data: chunking (\<open>core/data/chunking.py\<close>), the registry of data records over a
  catalog and the blob backends that hold the chunks (\<open>core/data/registry.py\<close>), the registry of
  buckets (\<open>core/data/bucket_registry.py\<close>) and the handlers of the data commands. The two
  backends are arguments; \<open>hashlib.new(algo)\<close> is a function from algorithms to digests, and a
  hasher in progress is the octets it has been fed.
\<close>

section \<open>Chunks\<close>

text \<open>\<open>f"{i:08d}"\<close> and \<open>f"{name}/{version}/chunk_{index:08d}"\<close>.\<close>

definition fmt08 :: "int \<Rightarrow> string" where
  "fmt08 i =
    (if i < 0 then CHR ''-'' # replicate (7 - length (str_nat (nat (- i)))) (CHR ''0'') @ str_nat (nat (- i))
     else replicate (8 - length (str_nat (nat i))) (CHR ''0'') @ str_nat (nat i))"

definition chunk_path :: "string \<Rightarrow> int \<Rightarrow> int \<Rightarrow> string" where
  "chunk_path name version index = name @ ''/'' @ str_int version @ ''/chunk_'' @ fmt08 index"

definition key_types :: "string list" where
  "key_types = [''fs'']"

definition chunk_key :: "string \<Rightarrow> string \<Rightarrow> int \<Rightarrow> int \<Rightarrow> string res" where
  "chunk_key kind name version index =
    (if kind \<in> set key_types then Ok (chunk_path name version index) else Raise KeyError)"

definition total_chunks_for :: "int \<Rightarrow> int \<Rightarrow> int res" where
  "total_chunks_for total_size chunk_bytes =
    (if total_size \<le> 0 then Ok 0
     else if chunk_bytes = 0 then Raise ZeroDivisionError
     else Ok (- ((- total_size) div chunk_bytes)))"

definition expected_chunk_len :: "int \<Rightarrow> int \<Rightarrow> int \<Rightarrow> int res" where
  "expected_chunk_len total_size chunk_bytes index =
    (case total_chunks_for total_size chunk_bytes of
       Ok n \<Rightarrow> Ok (if index = n - 1 then total_size - index * chunk_bytes else chunk_bytes)
     | Err e \<Rightarrow> Err e
     | Raise ex \<Rightarrow> Raise ex)"

section \<open>Records and state\<close>

record data_record =
  dr_name :: string
  dr_version :: int
  dr_alias :: string
  dr_format :: string
  dr_kind :: string
  dr_total_size :: int
  dr_chunk_bytes :: int
  dr_total_chunks :: int
  dr_created_at :: flt
  dr_declared_hash :: "string option"
  dr_content_hash_algo :: string

record data_status =
  st_registered :: bool
  st_name :: string
  st_version :: int
  st_format :: string
  st_kind :: string
  st_total_size :: int
  st_chunk_bytes :: int
  st_total_chunks :: int
  st_present :: "int list"
  st_complete :: bool
  st_progress_ratio :: flt
  st_declared_hash :: "string option"
  st_computed_hash :: "string option"
  st_hash_verified :: "bool option"

record open_stream =
  os_format :: string
  os_kind :: string
  os_chunk_bytes :: int
  os_next_index :: nat
  os_total_size :: int
  os_hasher :: bytes

record ('c, 'b) data_state =
  ds_catalog :: 'c
  ds_blobs :: "(string, 'b) dict"
  ds_streams :: "(string \<times> int, open_stream) dict"
  ds_hash_cache :: "(string \<times> int, string \<times> bool) dict"
  ds_completed :: "(string \<times> int) list"

record ('c, 'b) data_env =
  de_catalog :: "('c, storage_key, data_record) backend"
  de_blob :: "('b, string, bytes) backend"
  de_hash :: "string \<Rightarrow> (bytes \<Rightarrow> string) option"

type_synonym ('c, 'b, 'a) data_op = "('c, 'b) data_state \<Rightarrow> 'a res \<times> ('c, 'b) data_state \<times> event list"

definition data_init :: "'c \<Rightarrow> (string, 'b) dict \<Rightarrow> ('c, 'b) data_state" where
  "data_init c blobs = \<lparr>ds_catalog = c, ds_blobs = blobs, ds_streams = [], ds_hash_cache = [], ds_completed = []\<rparr>"

section \<open>The registry\<close>

definition unknown_kind :: "string \<Rightarrow> axo_error" where
  "unknown_kind kind = AxoErr UnknownIORefKindError (''no storage backend for kind='' @ py_repr kind)"

definition colon_name :: "string \<Rightarrow> int \<Rightarrow> string" where
  "colon_name name version = name @ '':'' @ str_int version"

definition not_registered :: "string \<Rightarrow> int \<Rightarrow> axo_error" where
  "not_registered name version = AxoErr DataNotRegisteredError (colon_name name version @ '' is not registered'')"

definition registered_event :: "data_record \<Rightarrow> flt \<Rightarrow> event" where
  "registered_event r now =
    \<lparr>ev_type = ''DATA_REGISTERED'',
     ev_payload = [(''data_id'', JStr (dr_name r)), (''version'', JInt (dr_version r)),
       (''total_chunks'', JInt (dr_total_chunks r)), (''format'', JStr (dr_format r)),
       (''kind'', JStr (dr_kind r)), (''total_size'', JInt (dr_total_size r))],
     ev_time = now\<rparr>"

definition data_event :: "string \<Rightarrow> string \<Rightarrow> int \<Rightarrow> flt \<Rightarrow> event" where
  "data_event ty name version now =
    \<lparr>ev_type = ty, ev_payload = [(''data_id'', JStr name), (''version'', JInt version)], ev_time = now\<rparr>"

definition upload_completed_event :: "data_record \<Rightarrow> flt \<Rightarrow> event" where
  "upload_completed_event r now = data_event ''DATA_UPLOAD_COMPLETED'' (dr_name r) (dr_version r) now"

definition mark_completed_if_first_time :: "string \<Rightarrow> int \<Rightarrow> ('c, 'b) data_state \<Rightarrow> bool \<times> ('c, 'b) data_state" where
  "mark_completed_if_first_time name version st =
    (if (name, version) \<in> set (ds_completed st) then (False, st)
     else (True, st\<lparr>ds_completed := (name, version) # ds_completed st\<rparr>))"

definition data_register ::
  "('c, 'b) data_env \<Rightarrow> string \<Rightarrow> int \<Rightarrow> string \<Rightarrow> string \<Rightarrow> int \<Rightarrow> int \<Rightarrow> flt \<Rightarrow> string option \<Rightarrow> string \<Rightarrow>
   ('c, 'b, data_record) data_op" where
  "data_register E name version format kind total_size chunk_bytes now content_hash algo st =
    (if map_of (ds_blobs st) kind = None \<or> kind \<notin> set key_types then (Err (unknown_kind kind), st, [])
     else
       (case total_chunks_for total_size chunk_bytes of
          Err e \<Rightarrow> (Err e, st, [])
        | Raise ex \<Rightarrow> (Raise ex, st, [])
        | Ok n \<Rightarrow>
            (let r = \<lparr>dr_name = name, dr_version = version, dr_alias = name, dr_format = format,
                      dr_kind = kind, dr_total_size = total_size, dr_chunk_bytes = chunk_bytes,
                      dr_total_chunks = n, dr_created_at = now, dr_declared_hash = content_hash,
                      dr_content_hash_algo = algo\<rparr>
             in case b_put (de_catalog E) (ds_catalog st) (ckey (name, version)) r of
                  (Err e, c) \<Rightarrow> (Err e, st\<lparr>ds_catalog := c\<rparr>, [])
                | (Raise ex, c) \<Rightarrow> (Raise ex, st\<lparr>ds_catalog := c\<rparr>, [])
                | (Ok _, c) \<Rightarrow>
                    (let st = st\<lparr>ds_catalog := c\<rparr>
                     in if n = 0 then
                          (case mark_completed_if_first_time name version st of
                             (first, st) \<Rightarrow>
                               (Ok r, st, registered_event r now #
                                 (if first then [upload_completed_event r now] else [])))
                        else (Ok r, st, [registered_event r now])))))"

definition get_record :: "('c, 'b) data_env \<Rightarrow> string \<Rightarrow> int \<Rightarrow> ('c, 'b) data_state \<Rightarrow> data_record option res" where
  "get_record E name version st =
    (case b_get (de_catalog E) (ds_catalog st) (ckey (name, version)) of
       Ok r \<Rightarrow> Ok r | Err _ \<Rightarrow> Ok None | Raise ex \<Rightarrow> Raise ex)"

definition chunk_indices :: "int \<Rightarrow> int list" where
  "chunk_indices n = map int [0..<nat n]"

text \<open>\<open>_is_fully_present\<close>, after \<open>backend = self._blob_backends[record.kind]\<close>.\<close>

definition fully_present :: "('c, 'b) data_env \<Rightarrow> 'b \<Rightarrow> data_record \<Rightarrow> bool" where
  "fully_present E b r =
    list_all (\<lambda>i. b_exists (de_blob E) b (chunk_path (dr_name r) (dr_version r) i) = Ok True)
      (chunk_indices (dr_total_chunks r))"

fun delete_chunks :: "('c, 'b) data_env \<Rightarrow> string \<Rightarrow> int \<Rightarrow> int list \<Rightarrow> 'b \<Rightarrow> 'b" where
  "delete_chunks E name version [] b = b"
| "delete_chunks E name version (i # is) b =
    delete_chunks E name version is (snd (b_delete (de_blob E) b (chunk_path name version i)))"

definition data_delete :: "('c, 'b) data_env \<Rightarrow> string \<Rightarrow> int \<Rightarrow> flt \<Rightarrow> ('c, 'b, unit) data_op" where
  "data_delete E name version now st =
    (case get_record E name version st of
       Raise ex \<Rightarrow> (Raise ex, st, [])
     | Err e \<Rightarrow> (Err e, st, [])
     | Ok None \<Rightarrow> (Err (not_registered name version), st, [])
     | Ok (Some r) \<Rightarrow>
         (if map_of (ds_blobs st) (dr_kind r) \<noteq> None \<and> 0 < dr_total_chunks r \<and> dr_kind r \<notin> set key_types
          then (Raise KeyError, st, [])
          else
            (let st = (case map_of (ds_blobs st) (dr_kind r) of
                         None \<Rightarrow> st
                       | Some b \<Rightarrow>
                           st\<lparr>ds_blobs := dput (dr_kind r)
                                (delete_chunks E name version (chunk_indices (dr_total_chunks r)) b) (ds_blobs st)\<rparr>)
             in case b_delete (de_catalog E) (ds_catalog st) (ckey (name, version)) of
                  (Err e, c) \<Rightarrow> (Err e, st\<lparr>ds_catalog := c\<rparr>, [])
                | (Raise ex, c) \<Rightarrow> (Raise ex, st\<lparr>ds_catalog := c\<rparr>, [])
                | (Ok _, c) \<Rightarrow>
                    (Ok (), st\<lparr>ds_catalog := c,
                               ds_completed := removeAll (name, version) (ds_completed st),
                               ds_hash_cache := dpop (name, version) (ds_hash_cache st)\<rparr>,
                     [data_event ''DATA_DELETED'' name version now]))))"

definition index_error :: "int \<Rightarrow> int \<Rightarrow> axo_error" where
  "index_error i n = AxoErr ChunkIndexOutOfRangeError
    (''chunk_index '' @ str_int i @ '' out of range [0, '' @ str_int n @ '')'')"

definition size_error :: "int \<Rightarrow> int \<Rightarrow> int \<Rightarrow> axo_error" where
  "size_error i expected actual = AxoErr ChunkSizeMismatchError
    (''chunk '' @ str_int i @ '' expected '' @ str_int expected @ '' bytes, got '' @ str_int actual)"

definition store_chunk ::
  "('c, 'b) data_env \<Rightarrow> string \<Rightarrow> int \<Rightarrow> int \<Rightarrow> bytes \<Rightarrow> flt \<Rightarrow> ('c, 'b, data_record) data_op" where
  "store_chunk E name version chunk_index data now st =
    (case get_record E name version st of
       Raise ex \<Rightarrow> (Raise ex, st, [])
     | Err e \<Rightarrow> (Err e, st, [])
     | Ok None \<Rightarrow> (Err (not_registered name version), st, [])
     | Ok (Some r) \<Rightarrow>
         (if chunk_index < 0 \<or> dr_total_chunks r \<le> chunk_index
          then (Err (index_error chunk_index (dr_total_chunks r)), st, [])
          else
            (case expected_chunk_len (dr_total_size r) (dr_chunk_bytes r) chunk_index of
               Raise ex \<Rightarrow> (Raise ex, st, [])
             | Err e \<Rightarrow> (Err e, st, [])
             | Ok expected \<Rightarrow>
                 (if int (length data) \<noteq> expected
                  then (Err (size_error chunk_index expected (int (length data))), st, [])
                  else
                    (case map_of (ds_blobs st) (dr_kind r) of
                       None \<Rightarrow> (Raise KeyError, st, [])
                     | Some b \<Rightarrow>
                         (case chunk_key (dr_kind r) name version chunk_index of
                            Raise ex \<Rightarrow> (Raise ex, st, [])
                          | Err e \<Rightarrow> (Err e, st, [])
                          | Ok key \<Rightarrow>
                              (case b_put (de_blob E) b key data of
                                 (Err e, b) \<Rightarrow> (Err e, st\<lparr>ds_blobs := dput (dr_kind r) b (ds_blobs st)\<rparr>, [])
                               | (Raise ex, b) \<Rightarrow> (Raise ex, st\<lparr>ds_blobs := dput (dr_kind r) b (ds_blobs st)\<rparr>, [])
                               | (Ok _, b) \<Rightarrow>
                                   (let st = st\<lparr>ds_blobs := dput (dr_kind r) b (ds_blobs st)\<rparr>
                                    in if fully_present E b r then
                                         (case mark_completed_if_first_time name version st of
                                            (first, st) \<Rightarrow>
                                              (Ok r, st, if first then [upload_completed_event r now] else []))
                                       else (Ok r, st, [])))))))))"

definition read_chunk :: "('c, 'b) data_env \<Rightarrow> string \<Rightarrow> int \<Rightarrow> int \<Rightarrow> ('c, 'b) data_state \<Rightarrow> bytes res" where
  "read_chunk E name version chunk_index st =
    (case get_record E name version st of
       Raise ex \<Rightarrow> Raise ex
     | Err e \<Rightarrow> Err e
     | Ok None \<Rightarrow> Err (not_registered name version)
     | Ok (Some r) \<Rightarrow>
         (case map_of (ds_blobs st) (dr_kind r) of
            None \<Rightarrow> Raise KeyError
          | Some b \<Rightarrow>
              bind_res (chunk_key (dr_kind r) name version chunk_index) (\<lambda>key.
              bind_res (b_get (de_blob E) b key) (\<lambda>v.
                case v of
                  Some x \<Rightarrow> Ok x
                | None \<Rightarrow> Err (AxoErr DataNotRegisteredError
                    (''chunk '' @ str_int chunk_index @ '' of '' @ colon_name name version @ '' missing locally''))))))"

fun read_chunks :: "('c, 'b) data_env \<Rightarrow> string \<Rightarrow> int \<Rightarrow> int list \<Rightarrow> ('c, 'b) data_state \<Rightarrow> bytes list res" where
  "read_chunks E name version [] st = Ok []"
| "read_chunks E name version (i # is) st =
    bind_res (read_chunk E name version i st) (\<lambda>x.
    bind_res (read_chunks E name version is st) (\<lambda>xs. Ok (x # xs)))"

definition read_whole :: "('c, 'b) data_env \<Rightarrow> string \<Rightarrow> int \<Rightarrow> ('c, 'b) data_state \<Rightarrow> bytes res" where
  "read_whole E name version st =
    (case get_record E name version st of
       Raise ex \<Rightarrow> Raise ex
     | Err e \<Rightarrow> Err e
     | Ok None \<Rightarrow> Err (not_registered name version)
     | Ok (Some r) \<Rightarrow>
         bind_res (read_chunks E name version (chunk_indices (dr_total_chunks r)) st) (\<lambda>parts. Ok (concat parts)))"

text \<open>\<open>data[start:start + chunk_bytes]\<close> for a start that is not negative.\<close>

definition slice :: "bytes \<Rightarrow> int \<Rightarrow> int \<Rightarrow> bytes" where
  "slice data start n = take (nat n) (drop (nat start) data)"

fun store_chunks :: "('c, 'b) data_env \<Rightarrow> string \<Rightarrow> int \<Rightarrow> bytes \<Rightarrow> int \<Rightarrow> flt \<Rightarrow> data_record \<Rightarrow> int list \<Rightarrow>
    ('c, 'b, data_record) data_op" where
  "store_chunks E name version data chunk_bytes now r [] st = (Ok r, st, [])"
| "store_chunks E name version data chunk_bytes now r (i # is) st =
    (case store_chunk E name version i (slice data (i * chunk_bytes) chunk_bytes) now st of
       (Ok _, st, evs) \<Rightarrow>
         (case store_chunks E name version data chunk_bytes now r is st of (res, st, evs') \<Rightarrow> (res, st, evs @ evs'))
     | (Err e, st, evs) \<Rightarrow> (Err e, st, evs)
     | (Raise ex, st, evs) \<Rightarrow> (Raise ex, st, evs))"

definition register_and_store ::
  "('c, 'b) data_env \<Rightarrow> string \<Rightarrow> int \<Rightarrow> string \<Rightarrow> string \<Rightarrow> bytes \<Rightarrow> flt \<Rightarrow> int \<Rightarrow> string option \<Rightarrow> string \<Rightarrow>
   ('c, 'b, data_record) data_op" where
  "register_and_store E name version format kind data now chunk_bytes content_hash algo st =
    (case data_register E name version format kind (int (length data)) chunk_bytes now content_hash algo st of
       (Ok r, st, evs) \<Rightarrow>
         (case store_chunks E name version data chunk_bytes now r (chunk_indices (dr_total_chunks r)) st of
            (res, st, evs') \<Rightarrow> (res, st, evs @ evs'))
     | (Err e, st, evs) \<Rightarrow> (Err e, st, evs)
     | (Raise ex, st, evs) \<Rightarrow> (Raise ex, st, evs))"

section \<open>Status and streams\<close>

text \<open>The octets of a record's chunks, a missing or unreadable one counting as empty.\<close>

definition stored_octets :: "('c, 'b) data_env \<Rightarrow> 'b \<Rightarrow> data_record \<Rightarrow> bytes" where
  "stored_octets E b r =
    concat (map (\<lambda>i. case b_get (de_blob E) b (chunk_path (dr_name r) (dr_version r) i) of
                       Ok (Some x) \<Rightarrow> x | _ \<Rightarrow> []) (chunk_indices (dr_total_chunks r)))"

definition compute_hash :: "('c, 'b) data_env \<Rightarrow> ('c, 'b) data_state \<Rightarrow> data_record \<Rightarrow> string res" where
  "compute_hash E st r =
    (case de_hash E (dr_content_hash_algo r) of
       None \<Rightarrow> Raise ValueError
     | Some h \<Rightarrow>
         (case map_of (ds_blobs st) (dr_kind r) of
            None \<Rightarrow> Raise KeyError
          | Some b \<Rightarrow> Ok (h (stored_octets E b r))))"

definition unregistered_status :: "string \<Rightarrow> int \<Rightarrow> data_status" where
  "unregistered_status name version =
    \<lparr>st_registered = False, st_name = name, st_version = version, st_format = [], st_kind = [],
     st_total_size = 0, st_chunk_bytes = 0, st_total_chunks = 0, st_present = [],
     st_complete = False, st_progress_ratio = 0, st_declared_hash = None,
     st_computed_hash = None, st_hash_verified = None\<rparr>"

definition present_chunks :: "('c, 'b) data_env \<Rightarrow> ('c, 'b) data_state \<Rightarrow> data_record \<Rightarrow> int list" where
  "present_chunks E st r =
    (case map_of (ds_blobs st) (dr_kind r) of
       None \<Rightarrow> []
     | Some b \<Rightarrow> filter (\<lambda>i. b_exists (de_blob E) b (chunk_path (dr_name r) (dr_version r) i) = Ok True)
                 (chunk_indices (dr_total_chunks r)))"

text \<open>The hash of a complete record: from the cache, or computed and cached.\<close>

definition cached_hash :: "('c, 'b) data_env \<Rightarrow> string \<Rightarrow> int \<Rightarrow> data_record \<Rightarrow> ('c, 'b) data_state \<Rightarrow>
    (string \<times> bool) res \<times> ('c, 'b) data_state" where
  "cached_hash E name version r st =
    (case map_of (ds_hash_cache st) (name, version) of
       Some hv \<Rightarrow> (Ok hv, st)
     | None \<Rightarrow>
         (case compute_hash E st r of
            Err e \<Rightarrow> (Err e, st)
          | Raise ex \<Rightarrow> (Raise ex, st)
          | Ok h \<Rightarrow>
              (let hv = (h, dr_declared_hash r \<noteq> None \<and> dr_declared_hash r = Some h)
               in (Ok hv, st\<lparr>ds_hash_cache := dput (name, version) hv (ds_hash_cache st)\<rparr>))))"

definition data_status_of :: "('c, 'b) data_env \<Rightarrow> string \<Rightarrow> int \<Rightarrow> ('c, 'b) data_state \<Rightarrow>
    data_status res \<times> ('c, 'b) data_state" where
  "data_status_of E name version st =
    (case get_record E name version st of
       Raise ex \<Rightarrow> (Raise ex, st)
     | Err e \<Rightarrow> (Err e, st)
     | Ok None \<Rightarrow> (Ok (unregistered_status name version), st)
     | Ok (Some r) \<Rightarrow>
         (if map_of (ds_blobs st) (dr_kind r) \<noteq> None \<and> 0 < dr_total_chunks r \<and> dr_kind r \<notin> set key_types
          then (Raise KeyError, st)
          else
            (let present = present_chunks E st r;
                 complete = (int (length present) = dr_total_chunks r);
                 ratio = (if dr_total_chunks r = 0 then 1000000
                          else int (length present) * 1000000 div dr_total_chunks r);
                 mk = (\<lambda>ch hv. \<lparr>st_registered = True, st_name = name, st_version = version,
                         st_format = dr_format r, st_kind = dr_kind r, st_total_size = dr_total_size r,
                         st_chunk_bytes = dr_chunk_bytes r, st_total_chunks = dr_total_chunks r,
                         st_present = present, st_complete = complete, st_progress_ratio = ratio,
                         st_declared_hash = dr_declared_hash r, st_computed_hash = ch, st_hash_verified = hv\<rparr>)
             in if complete then
                  (case cached_hash E name version r st of
                     (Ok (h, v), st) \<Rightarrow> (Ok (mk (Some h) (Some v)), st)
                   | (Err e, st) \<Rightarrow> (Err e, st)
                   | (Raise ex, st) \<Rightarrow> (Raise ex, st))
                else (Ok (mk None None), st))))"

definition open_data_stream :: "string \<Rightarrow> int \<Rightarrow> string \<Rightarrow> string \<Rightarrow> int \<Rightarrow> ('c, 'b) data_state \<Rightarrow> ('c, 'b) data_state" where
  "open_data_stream name version format kind chunk_bytes st =
    st\<lparr>ds_streams := dput (name, version)
        \<lparr>os_format = format, os_kind = kind, os_chunk_bytes = chunk_bytes, os_next_index = 0,
         os_total_size = 0, os_hasher = []\<rparr> (ds_streams st)\<rparr>"

definition append_chunk :: "('c, 'b) data_env \<Rightarrow> string \<Rightarrow> int \<Rightarrow> bytes \<Rightarrow> ('c, 'b, nat) data_op" where
  "append_chunk E name version data st =
    (case map_of (ds_streams st) (name, version) of
       None \<Rightarrow> (Err (AxoErr StreamNotOpenError (''no open stream for '' @ colon_name name version)), st, [])
     | Some s \<Rightarrow>
         (case map_of (ds_blobs st) (os_kind s) of
            None \<Rightarrow> (Err (unknown_kind (os_kind s)), st, [])
          | Some b \<Rightarrow>
              (case chunk_key (os_kind s) name version (int (os_next_index s)) of
                 Raise ex \<Rightarrow> (Raise ex, st, [])
               | Err e \<Rightarrow> (Err e, st, [])
               | Ok key \<Rightarrow>
                   (case b_put (de_blob E) b key data of
                      (Err e, b) \<Rightarrow> (Err e, st\<lparr>ds_blobs := dput (os_kind s) b (ds_blobs st)\<rparr>, [])
                    | (Raise ex, b) \<Rightarrow> (Raise ex, st\<lparr>ds_blobs := dput (os_kind s) b (ds_blobs st)\<rparr>, [])
                    | (Ok _, b) \<Rightarrow>
                        (Ok (os_next_index s),
                         st\<lparr>ds_blobs := dput (os_kind s) b (ds_blobs st),
                            ds_streams := dput (name, version)
                              (s\<lparr>os_hasher := os_hasher s @ data,
                                 os_total_size := os_total_size s + int (length data),
                                 os_next_index := os_next_index s + 1\<rparr>) (ds_streams st)\<rparr>, [])))))"

definition finalize_stream :: "('c, 'b) data_env \<Rightarrow> string \<Rightarrow> int \<Rightarrow> flt \<Rightarrow> ('c, 'b, data_record) data_op" where
  "finalize_stream E name version now st =
    (let found = map_of (ds_streams st) (name, version);
         st = st\<lparr>ds_streams := dpop (name, version) (ds_streams st)\<rparr>
     in case found of
          None \<Rightarrow> (Err (AxoErr StreamAlreadyFinalizedError (''no open stream for '' @ colon_name name version @
                     '' (already finalized or never opened)'')), st, [])
        | Some s \<Rightarrow>
            (case de_hash E ''sha256'' of
               None \<Rightarrow> (Raise ValueError, st, [])
             | Some h \<Rightarrow>
                 (let r = \<lparr>dr_name = name, dr_version = version, dr_alias = name, dr_format = os_format s,
                           dr_kind = os_kind s, dr_total_size = os_total_size s,
                           dr_chunk_bytes = os_chunk_bytes s, dr_total_chunks = int (os_next_index s),
                           dr_created_at = now, dr_declared_hash = Some (h (os_hasher s)),
                           dr_content_hash_algo = ''sha256''\<rparr>
                  in case b_put (de_catalog E) (ds_catalog st) (ckey (name, version)) r of
                       (Err e, c) \<Rightarrow> (Err e, st\<lparr>ds_catalog := c\<rparr>, [])
                     | (Raise ex, c) \<Rightarrow> (Raise ex, st\<lparr>ds_catalog := c\<rparr>, [])
                     | (Ok _, c) \<Rightarrow>
                         (case mark_completed_if_first_time name version (st\<lparr>ds_catalog := c\<rparr>) of
                            (first, st) \<Rightarrow>
                              (Ok r, st, registered_event r now #
                                (if first then [upload_completed_event r now] else []))))))"

section \<open>Chunk arithmetic\<close>

lemma total_chunks_bounds:
  assumes "0 < cb" "0 < L" "total_chunks_for L cb = Ok n"
  shows "1 \<le> n" "(n - 1) * cb < L" "L \<le> n * cb"
proof -
  define q where "q = (- L) div cb"
  define m where "m = (- L) mod cb"
  have n: "n = - q" using assms by (simp add: total_chunks_for_def q_def)
  have "- L = q * cb + m" by (simp add: q_def m_def)
  then have L: "L = n * cb - m" by (simp add: n)
  have m: "0 \<le> m" "m < cb" using assms(1) by (simp_all add: m_def)
  show "L \<le> n * cb" "(n - 1) * cb < L" using L m by (simp_all add: left_diff_distrib)
  show "1 \<le> n"
  proof (rule ccontr)
    assume "\<not> 1 \<le> n"
    then have "n * cb \<le> 0" using assms(1) by (simp add: mult_nonpos_nonneg)
    then show False using L m assms(2) by simp
  qed
qed

lemma total_chunks_zero: "L \<le> 0 \<Longrightarrow> total_chunks_for L cb = Ok 0"
  by (simp add: total_chunks_for_def)

lemma total_chunks_Ok: "cb \<noteq> 0 \<Longrightarrow> \<exists>n. total_chunks_for L cb = Ok n"
  by (simp add: total_chunks_for_def)

lemma length_slice_at:
  assumes "0 < cb" "0 \<le> s"
  shows "int (length (slice data s cb)) = max 0 (min cb (int (length data) - s))"
proof -
  have "length (slice data s cb) = min (nat cb) (length data - nat s)"
    by (simp add: slice_def)
  then show ?thesis using assms by linarith
qed

lemma length_slice:
  assumes "0 < cb" "0 \<le> i"
  shows "int (length (slice data (i * cb) cb)) = max 0 (min cb (int (length data) - i * cb))"
  using assms by (intro length_slice_at) simp_all

lemma expected_slice:
  assumes "0 < cb" "data \<noteq> []" "total_chunks_for (int (length data)) cb = Ok n" "0 \<le> i" "i < n"
  shows "expected_chunk_len (int (length data)) cb i = Ok (int (length (slice data (i * cb) cb)))"
proof (cases "i = n - 1")
  case True
  have L: "0 < int (length data)" using assms(2) by simp
  note b = total_chunks_bounds [OF assms(1) L assms(3)]
  have "n * cb = (n - 1) * cb + cb" by (simp add: left_diff_distrib)
  then have "max 0 (min cb (int (length data) - (n - 1) * cb)) = int (length data) - (n - 1) * cb"
    using b(2,3) by linarith
  then show ?thesis using True assms by (simp add: expected_chunk_len_def length_slice)
next
  case False
  have L: "0 < int (length data)" using assms(2) by simp
  note b = total_chunks_bounds [OF assms(1) L assms(3)]
  have "(i + 1) * cb \<le> (n - 1) * cb" using False assms(1,5) by (intro mult_right_mono) auto
  moreover have "(i + 1) * cb = i * cb + cb" by (simp add: distrib_right)
  ultimately have "max 0 (min cb (int (length data) - i * cb)) = cb"
    using b(2) assms(1) by linarith
  then show ?thesis using False assms by (simp add: expected_chunk_len_def length_slice)
qed

lemma concat_slices:
  "0 < cb \<Longrightarrow> concat (map (\<lambda>i. slice data (i * cb) cb) (map int [0..<k])) = take (k * nat cb) data"
proof (induction k)
  case (Suc k)
  have "nat (int k * cb) = k * nat cb" using Suc.prems by (simp add: nat_mult_distrib)
  then have "slice data (int k * cb) cb = take (nat cb) (drop (k * nat cb) data)"
    by (simp add: slice_def)
  moreover have "take (nat cb + k * nat cb) data = take (k * nat cb) data @ take (nat cb) (drop (k * nat cb) data)"
    by (subst add.commute) (rule take_add)
  ultimately show ?case using Suc by simp
qed simp

lemma concat_all_slices:
  assumes "0 < cb" "total_chunks_for (int (length data)) cb = Ok n"
  shows "concat (map (\<lambda>i. slice data (i * cb) cb) (chunk_indices n)) = data"
proof (cases "data = []")
  case True
  then show ?thesis using assms by (simp add: slice_def chunk_indices_def comp_def)
next
  case False
  then have "0 < int (length data)" by simp
  note b = total_chunks_bounds [OF assms(1) this assms(2)]
  have "int (length data) \<le> int (nat n * nat cb)" using b assms(1) by simp
  then have "length data \<le> nat n * nat cb" by linarith
  then show ?thesis using concat_slices [OF assms(1), of data "nat n"] by (simp add: chunk_indices_def)
qed

lemma fmt08_inject:
  assumes "0 \<le> i" "0 \<le> j" "fmt08 i = fmt08 j"
  shows "i = j"
proof -
  have "nat_of_digits (fmt08 k) = nat k" if "0 \<le> k" for k
    using that by (simp add: fmt08_def nat_of_digits_append)
  then show ?thesis using assms by (metis eq_nat_nat_iff)
qed

lemma chunk_path_inject: "0 \<le> i \<Longrightarrow> 0 \<le> j \<Longrightarrow> chunk_path n v i = chunk_path n v j \<longleftrightarrow> i = j"
  using fmt08_inject by (auto simp: chunk_path_def)

text \<open>The parts of a chunk's path are plain names when those of the data's name are.\<close>

lemma fmt08_chars: "c \<in> set (fmt08 i) \<Longrightarrow> is_digit c \<or> c = CHR ''-''"
  by (auto simp: fmt08_def is_digit_def split: if_splits dest!: str_nat_is_digit)

lemma clean_chunk_path: "clean_path name \<Longrightarrow> clean_path (chunk_path name v i)"
proof -
  assume name: "clean_path name"
  have split: "py_split (CHR ''/'') (a @ CHR ''/'' # b) = py_split (CHR ''/'') a @ py_split (CHR ''/'') b" for a b
  proof (induction a)
    case (Cons x a)
    show ?case
    proof (cases "x = CHR ''/''")
      case False
      obtain p ps where "py_split (CHR ''/'') a = p # ps" by (cases "py_split (CHR ''/'') a") auto
      then show ?thesis using Cons False by simp
    qed (use Cons in simp)
  qed simp
  have v: "CHR ''/'' \<notin> set (str_int v)" using str_int_chars [of "CHR ''/''" v] by auto
  have i: "CHR ''/'' \<notin> set (fmt08 i)" using fmt08_chars [of "CHR ''/''" i] by auto
  have "str_int v \<noteq> ''.''" "str_int v \<noteq> ''..''"
    using str_int_chars [of "CHR ''.''" v] by auto
  then have "clean_segment (str_int v)" using v by (simp add: clean_segment_def plain_segment_def)
  moreover have "clean_segment (''chunk_'' @ fmt08 i)" using i by (simp add: clean_segment_def plain_segment_def)
  moreover have "chunk_path name v i = name @ CHR ''/'' # str_int v @ CHR ''/'' # ''chunk_'' @ fmt08 i"
    by (simp add: chunk_path_def)
  ultimately show ?thesis
    using name v i by (simp add: clean_path_def split py_split_none [of "CHR ''/''" "''chunk_'' @ fmt08 i", simplified])
qed

section \<open>The registry over lawful backends\<close>

locale data_store =
  cat: catalog_store "de_catalog E" cinv cview +
  blob: kv_store "de_blob E" binv bok "\<lambda>p. p" bview
  for E :: "('c, 'b) data_env" and cinv :: "'c \<Rightarrow> bool" and cview :: "'c \<Rightarrow> string \<times> int \<Rightarrow> data_record option"
    and binv :: "'b \<Rightarrow> bool" and bok :: "string \<Rightarrow> bool" and bview :: "'b \<Rightarrow> string \<Rightarrow> bytes option"
begin

definition state_ok :: "('c, 'b) data_state \<Rightarrow> bool" where
  "state_ok st \<longleftrightarrow> cinv (ds_catalog st) \<and> (\<exists>b. map_of (ds_blobs st) ''fs'' = Some b \<and> binv b)"

definition fs_blob :: "('c, 'b) data_state \<Rightarrow> 'b" where
  "fs_blob st = the (map_of (ds_blobs st) ''fs'')"

lemma fs_blob_ok: "state_ok st \<Longrightarrow> map_of (ds_blobs st) ''fs'' = Some (fs_blob st) \<and> binv (fs_blob st)"
  by (auto simp: state_ok_def fs_blob_def)

lemma get_record_view: "state_ok st \<Longrightarrow> get_record E name v st = Ok (cview (ds_catalog st) (name, v))"
  by (simp add: get_record_def state_ok_def cat.get)

lemma kind_fs: "''fs'' \<in> set key_types"
  by (simp add: key_types_def)

text \<open>Storing a chunk of the right length.\<close>

lemma store_chunk_ok:
  assumes ok: "state_ok st" and r: "cview (ds_catalog st) (name, v) = Some r" "dr_kind r = ''fs''"
    and i: "0 \<le> i" "i < dr_total_chunks r" "bok (chunk_path name v i)"
    and len: "expected_chunk_len (dr_total_size r) (dr_chunk_bytes r) i = Ok (int (length x))"
  obtains st' evs where "store_chunk E name v i x now st = (Ok r, st', evs)" "state_ok st'"
    "ds_catalog st' = ds_catalog st"
    "\<And>p. bok p \<Longrightarrow> bview (fs_blob st') p = (if p = chunk_path name v i then Some x else bview (fs_blob st) p)"
proof -
  note b = fs_blob_ok [OF ok]
  obtain q b' where put: "b_put (de_blob E) (fs_blob st) (chunk_path name v i) x = (Ok q, b')" "binv b'"
    "\<forall>p. bok p \<longrightarrow> bview b' p = ((bview (fs_blob st))(chunk_path name v i \<mapsto> x)) p"
    using blob.put [of "fs_blob st" "chunk_path name v i" x] b i by auto
  let ?st = "st\<lparr>ds_blobs := dput ''fs'' b' (ds_blobs st)\<rparr>"
  obtain st' evs where run: "store_chunk E name v i x now st = (Ok r, st', evs)"
    and st': "ds_catalog st' = ds_catalog st" "ds_blobs st' = ds_blobs ?st"
  proof (cases "fully_present E b' r")
    case True
    then show ?thesis
      using that get_record_view [OF ok] r i len b put(1)
      by (cases "mark_completed_if_first_time name v ?st")
         (auto simp: store_chunk_def chunk_key_def key_types_def Let_def mark_completed_if_first_time_def
           split: if_splits)
  next
    case False
    then show ?thesis
      using that get_record_view [OF ok] r i len b put(1)
      by (auto simp: store_chunk_def chunk_key_def key_types_def Let_def)
  qed
  have "map_of (ds_blobs st') ''fs'' = Some b'" by (simp add: st'(2))
  then have "fs_blob st' = b'" "state_ok st'" using put(2) ok st' by (auto simp: fs_blob_def state_ok_def)
  then show thesis using that run st'(1) put(3) by auto
qed

text \<open>Storing all chunks of a value, one after the other.\<close>

lemma store_chunks_ok:
  assumes "state_ok st" "cview (ds_catalog st) (name, v) = Some r" "dr_kind r = ''fs''"
    "dr_chunk_bytes r = cb" "\<And>i. bok (chunk_path name v i)"
    "\<And>i. i \<in> set is \<Longrightarrow> 0 \<le> i \<and> i < dr_total_chunks r \<and>
       expected_chunk_len (dr_total_size r) cb i = Ok (int (length (slice data (i * cb) cb)))"
  shows "\<exists>st' evs. store_chunks E name v data cb now r is st = (Ok r, st', evs) \<and> state_ok st' \<and>
    ds_catalog st' = ds_catalog st \<and>
    (\<forall>i \<in> set is. bview (fs_blob st') (chunk_path name v i) = Some (slice data (i * cb) cb)) \<and>
    (\<forall>i. 0 \<le> i \<longrightarrow> i \<notin> set is \<longrightarrow> bview (fs_blob st') (chunk_path name v i) = bview (fs_blob st) (chunk_path name v i))"
  using assms(1,2,6)
proof (induction "is" arbitrary: st)
  case Nil
  then show ?case by simp
next
  case (Cons i "is")
  have i: "0 \<le> i" "i < dr_total_chunks r"
    "expected_chunk_len (dr_total_size r) cb i = Ok (int (length (slice data (i * cb) cb)))"
    using Cons.prems(3) [of i] by auto
  obtain st1 evs1 where s1: "store_chunk E name v i (slice data (i * cb) cb) now st = (Ok r, st1, evs1)"
    "state_ok st1" "ds_catalog st1 = ds_catalog st"
    "\<And>p. bok p \<Longrightarrow> bview (fs_blob st1) p =
       (if p = chunk_path name v i then Some (slice data (i * cb) cb) else bview (fs_blob st) p)"
    using store_chunk_ok [OF Cons.prems(1,2) assms(3) i(1,2) assms(5), of "slice data (i * cb) cb" now]
      i(3) assms(4) by blast
  obtain st2 evs2 where s2: "store_chunks E name v data cb now r is st1 = (Ok r, st2, evs2)" "state_ok st2"
    "ds_catalog st2 = ds_catalog st1"
    "\<forall>j \<in> set is. bview (fs_blob st2) (chunk_path name v j) = Some (slice data (j * cb) cb)"
    "\<forall>j. 0 \<le> j \<longrightarrow> j \<notin> set is \<longrightarrow> bview (fs_blob st2) (chunk_path name v j) = bview (fs_blob st1) (chunk_path name v j)"
    using Cons.IH [of st1] s1(2,3) Cons.prems by auto
  have "bview (fs_blob st2) (chunk_path name v j) = Some (slice data (j * cb) cb)" if "j \<in> set (i # is)" for j
    using that s2(4,5) s1(4) [OF assms(5)] i(1) by (cases "j \<in> set is") auto
  moreover have "bview (fs_blob st2) (chunk_path name v j) = bview (fs_blob st) (chunk_path name v j)"
    if "0 \<le> j" "j \<notin> set (i # is)" for j
    using that s2(5) s1(4) [OF assms(5), of j] i(1) chunk_path_inject [of j i name v] by auto
  ultimately show ?case using s1 s2 by simp
qed

lemma read_chunks_view:
  assumes "state_ok st" "cview (ds_catalog st) (name, v) = Some r" "dr_kind r = ''fs''"
    "\<And>i. bok (chunk_path name v i)"
    "\<forall>i \<in> set is. bview (fs_blob st) (chunk_path name v i) = Some (f i)"
  shows "read_chunks E name v is st = Ok (map f is)"
  using assms(5)
proof (induction "is")
  case (Cons i "is")
  have "read_chunk E name v i st = Ok (f i)"
    using Cons.prems get_record_view [OF assms(1)] fs_blob_ok [OF assms(1)] assms(2-4) blob.get
    by (simp add: read_chunk_def chunk_key_def key_types_def)
  then show ?case using Cons by simp
qed simp

lemma register_ok:
  assumes ok: "state_ok st" and cb: "cb \<noteq> 0"
  obtains r st' evs where "data_register E name v fmt ''fs'' L cb now h algo st = (Ok r, st', evs)"
    "state_ok st'" "ds_blobs st' = ds_blobs st" "cview (ds_catalog st') = (cview (ds_catalog st))((name, v) \<mapsto> r)"
    "dr_kind r = ''fs''" "dr_total_size r = L" "dr_chunk_bytes r = cb"
    "total_chunks_for L cb = Ok (dr_total_chunks r)" "dr_declared_hash r = h"
proof -
  obtain n where n: "total_chunks_for L cb = Ok n" using total_chunks_Ok [OF cb] by blast
  let ?r = "\<lparr>dr_name = name, dr_version = v, dr_alias = name, dr_format = fmt, dr_kind = ''fs'',
     dr_total_size = L, dr_chunk_bytes = cb, dr_total_chunks = n, dr_created_at = now,
     dr_declared_hash = h, dr_content_hash_algo = algo\<rparr>"
  have inv: "cinv (ds_catalog st)" using ok by (simp add: state_ok_def)
  obtain q c where put: "b_put (de_catalog E) (ds_catalog st) (ckey (name, v)) ?r = (Ok q, c)" "cinv c"
    "cview c = (cview (ds_catalog st))((name, v) \<mapsto> ?r)"
    using cat.catalog_put_ok [OF inv, of "(name, v)" ?r] by blast
  obtain st' evs where run: "data_register E name v fmt ''fs'' L cb now h algo st = (Ok ?r, st', evs)"
    and st': "ds_catalog st' = c" "ds_blobs st' = ds_blobs st"
    using that n put(1) fs_blob_ok [OF ok]
    by (cases "n = 0"; cases "(name, v) \<in> set (ds_completed st)")
       (auto simp: data_register_def kind_fs Let_def mark_completed_if_first_time_def)
  show thesis
    by (rule that [OF run]) (use ok put st' n in \<open>auto simp: state_ok_def\<close>)
qed

text \<open>What was registered and stored is read back.\<close>

lemma store_then_read:
  assumes ok: "state_ok st" and cb: "0 < cb" and paths: "\<And>i. bok (chunk_path name v i)"
  shows "\<exists>r st' evs. register_and_store E name v fmt ''fs'' data now cb h algo st = (Ok r, st', evs) \<and>
    state_ok st' \<and> read_whole E name v st' = Ok data"
proof -
  obtain r st1 evs1 where reg: "data_register E name v fmt ''fs'' (int (length data)) cb now h algo st = (Ok r, st1, evs1)"
    "state_ok st1" "cview (ds_catalog st1) = (cview (ds_catalog st))((name, v) \<mapsto> r)" "dr_kind r = ''fs''"
    "dr_total_size r = int (length data)" "dr_chunk_bytes r = cb"
    "total_chunks_for (int (length data)) cb = Ok (dr_total_chunks r)"
    using register_ok [OF ok, of cb name v fmt "int (length data)" now h algo] cb by blast
  have idx: "0 \<le> i \<and> i < dr_total_chunks r \<and>
       expected_chunk_len (dr_total_size r) cb i = Ok (int (length (slice data (i * cb) cb)))"
    if "i \<in> set (chunk_indices (dr_total_chunks r))" for i
  proof -
    from that have i: "0 \<le> i" "i < dr_total_chunks r" by (auto simp: chunk_indices_def)
    have ne: "data \<noteq> []"
    proof
      assume "data = []"
      then have "dr_total_chunks r = 0" using reg(7) by (simp add: total_chunks_for_def)
      with i show False by simp
    qed
    show ?thesis using expected_slice [OF cb ne reg(7) i] i reg(5) by simp
  qed
  have rec1: "cview (ds_catalog st1) (name, v) = Some r" using reg(3) by simp
  obtain st2 evs2 where s2: "store_chunks E name v data cb now r (chunk_indices (dr_total_chunks r)) st1 = (Ok r, st2, evs2)"
    "state_ok st2" "ds_catalog st2 = ds_catalog st1"
    "\<forall>i \<in> set (chunk_indices (dr_total_chunks r)).
       bview (fs_blob st2) (chunk_path name v i) = Some (slice data (i * cb) cb)"
    using store_chunks_ok [OF reg(2) rec1 reg(4,6) paths idx] by blast
  have rec2: "cview (ds_catalog st2) (name, v) = Some r" using rec1 s2(3) by simp
  have "read_chunks E name v (chunk_indices (dr_total_chunks r)) st2 =
      Ok (map (\<lambda>i. slice data (i * cb) cb) (chunk_indices (dr_total_chunks r)))"
    by (rule read_chunks_view [OF s2(2) rec2 reg(4) paths s2(4)])
  then have "read_whole E name v st2 = Ok data"
    using get_record_view [OF s2(2)] rec2 concat_all_slices [OF cb reg(7)]
    by (simp add: read_whole_def)
  then show ?thesis using reg(1) s2(1,2) by (simp add: register_and_store_def)
qed

end

text \<open>The instance that the program builds: an in-memory catalog and chunks in files.\<close>

definition node_env :: "(string \<Rightarrow> (bytes \<Rightarrow> string) option) \<Rightarrow> string \<Rightarrow> (data_record mem, file_tree) data_env" where
  "node_env H root = \<lparr>de_catalog = mem_backend, de_blob = fs_backend norm_path (\<lambda>_. False) root, de_hash = H\<rparr>"

lemma node_env_simps [simp]:
  "de_catalog (node_env H root) = mem_backend" "de_blob (node_env H root) = fs_backend norm_path (\<lambda>_. False) root"
  "de_hash (node_env H root) = H"
  by (simp_all add: node_env_def)

interpretation node_data: data_store "node_env H root" cat_inv cat_view dict_ok clean_path "fs_view root"
  for H root
proof (intro data_store.intro)
  show "catalog_store (de_catalog (node_env H root)) cat_inv cat_view"
    unfolding node_env_simps by (rule mem_cat.catalog_store_axioms)
  show "kv_store (de_blob (node_env H root)) dict_ok clean_path (\<lambda>p. p) (fs_view root)"
    unfolding node_env_simps by (rule fs_store.kv_store_axioms)
qed

end
