(* ===== verification/Buckets.thy ===== *)
theory Buckets
  imports Data
begin

text \<open>
  Buckets (\<open>core/data/bucket_registry.py\<close>) and the handlers of the data commands
  (\<open>service/handlers/data_*.py\<close>, \<open>bucket_register.py\<close>). A bucket is a name with a quota; the
  registration of a data record named \<open>bucket/key\<close> is refused when the sizes of the records of
  that bucket would exceed it. A handler takes the registry's state and a clock reading and
  returns the command's result, the new state and the events emitted.
\<close>

section \<open>The bucket registry\<close>

record data_bucket =
  bk_name :: string
  bk_quota_bytes :: int
  bk_created_at :: flt

definition bucket_exists_error :: "string \<Rightarrow> axo_error" where
  "bucket_exists_error name = AxoErr BucketAlreadyExistsError (''bucket '' @ quoted name @ '' already exists'')"

definition bucket_register ::
  "('k, storage_key, data_bucket) backend \<Rightarrow> string \<Rightarrow> int \<Rightarrow> flt \<Rightarrow> 'k \<Rightarrow> ('k, data_bucket) reg" where
  "bucket_register B name quota now s =
    (case b_get B s (pkey name) of
       Raise ex \<Rightarrow> (Raise ex, s, [])
     | Ok (Some _) \<Rightarrow> (Err (bucket_exists_error name), s, [])
     | _ \<Rightarrow>
         (let b = \<lparr>bk_name = name, bk_quota_bytes = quota, bk_created_at = now\<rparr>
          in case b_put B s (pkey name) b of
               (Err e, s) \<Rightarrow> (Err e, s, [])
             | (Raise ex, s) \<Rightarrow> (Raise ex, s, [])
             | (Ok _, s) \<Rightarrow>
                 (Ok b, s, [\<lparr>ev_type = ''BUCKET_REGISTERED'',
                    ev_payload = [(''name'', JStr name), (''quota_bytes'', JInt quota), (''created_at'', JFloat now)],
                    ev_time = now\<rparr>])))"

definition bucket_get :: "('k, storage_key, data_bucket) backend \<Rightarrow> string \<Rightarrow> 'k \<Rightarrow> data_bucket option res" where
  "bucket_get B name s = b_get B s (pkey name)"

definition list_buckets :: "('k, storage_key, data_bucket) backend \<Rightarrow> 'k \<Rightarrow> data_bucket list" where
  "list_buckets B s = b_values B s"

section \<open>Quotas\<close>

definition list_records :: "('c, 'b) data_env \<Rightarrow> ('c, 'b) data_state \<Rightarrow> data_record list" where
  "list_records E st = b_values (de_catalog E) (ds_catalog st)"

definition bucket_of :: "string \<Rightarrow> string" where
  "bucket_of name = hd (py_split (CHR ''/'') name)"

definition bucket_used :: "string \<Rightarrow> data_record list \<Rightarrow> int" where
  "bucket_used bucket rs =
    sum_list (map dr_total_size (filter (\<lambda>r. prefix (bucket @ ''/'') (dr_name r)) rs))"

definition quota_error :: "string \<Rightarrow> int \<Rightarrow> int \<Rightarrow> int \<Rightarrow> axo_error" where
  "quota_error bucket total_size used quota = AxoErr QuotaExceededError
    (''registering '' @ str_int total_size @ '' bytes into bucket '' @ quoted bucket @
     '' would exceed its quota ('' @ str_int used @ '' used of '' @ str_int quota @ '')'')"

definition no_bucket_error :: "string \<Rightarrow> axo_error" where
  "no_bucket_error bucket = AxoErr BucketNotFoundError (''bucket '' @ quoted bucket @ '' does not exist'')"

definition check_bucket_quota ::
  "('c, 'b) data_env \<Rightarrow> ('k, storage_key, data_bucket) backend \<Rightarrow> 'k \<Rightarrow> string \<Rightarrow> int \<Rightarrow>
   ('c, 'b) data_state \<Rightarrow> axo_error option res" where
  "check_bucket_quota E B buckets name total_size st =
    (let bucket = bucket_of name
     in case bucket_get B bucket buckets of
          Raise ex \<Rightarrow> Raise ex
        | Ok (Some b) \<Rightarrow>
            (let used = bucket_used bucket (list_records E st)
             in Ok (if bk_quota_bytes b < used + total_size
                    then Some (quota_error bucket total_size used (bk_quota_bytes b)) else None))
        | _ \<Rightarrow> Ok (Some (no_bucket_error bucket)))"

section \<open>Handlers\<close>

definition parse_data_register :: "(string, json) dict \<Rightarrow>
    (string \<times> int \<times> int \<times> int \<times> string \<times> string \<times> string option \<times> string) res" where
  "parse_data_register d =
    bind_res (json_str (jget d ''name'')) (\<lambda>name.
    bind_res (exact_int (jget d ''version'')) (\<lambda>version.
    bind_res (exact_int (jget d ''total_size'')) (\<lambda>total_size.
    bind_res (exact_int (jget d ''chunk_bytes'')) (\<lambda>chunk_bytes.
    bind_res (json_str (dget d ''format'' (JStr ''raw''))) (\<lambda>format.
    bind_res (json_str (dget d ''kind'' (JStr ''fs''))) (\<lambda>kind.
    bind_res (opt_res json_str (jget d ''content_hash'')) (\<lambda>content_hash.
    bind_res (json_str (dget d ''content_hash_algo'' (JStr ''sha256''))) (\<lambda>algo.
      Ok (name, version, total_size, chunk_bytes, format, kind, content_hash, algo)))))))))"

definition wrap_storage :: "axo_error \<Rightarrow> command_result" where
  "wrap_storage raw = from_error (AxoErr StorageFailureError (err_msg raw))"

text \<open>\<open>buckets\<close> is \<open>None\<close> when the handler was built without a bucket registry.\<close>

definition handle_data_register ::
  "('c, 'b) data_env \<Rightarrow> ('k, storage_key, data_bucket) backend \<Rightarrow> 'k option \<Rightarrow> string \<Rightarrow> flt \<Rightarrow> command \<Rightarrow>
   ('c, 'b, command_result) data_op" where
  "handle_data_register E B buckets own_rpc_uri now c st =
    (case envelope c of
       JObj d \<Rightarrow>
         (if \<not> py_truthy (jget d ''name'') \<or> jget d ''version'' = JNull \<or> jget d ''total_size'' = JNull \<or>
             \<not> py_truthy (jget d ''chunk_bytes'') then
            (Ok (from_error (missing_error ''name, version, total_size, and chunk_bytes are required'')), st, [])
          else
            (case parse_data_register d of
               Err e \<Rightarrow> (Err e, st, [])
             | Raise ex \<Rightarrow> (Raise ex, st, [])
             | Ok (name, version, total_size, chunk_bytes, format, kind, content_hash, algo) \<Rightarrow>
                 (case (if buckets \<noteq> None \<and> CHR ''/'' \<in> set name
                        then check_bucket_quota E B (the buckets) name total_size st else Ok None) of
                    Raise ex \<Rightarrow> (Raise ex, st, [])
                  | Err e \<Rightarrow> (Err e, st, [])
                  | Ok (Some e) \<Rightarrow> (Ok (from_error e), st, [])
                  | Ok None \<Rightarrow>
                      (case data_register E name version format kind total_size chunk_bytes now content_hash algo st of
                         (Raise ex, st, evs) \<Rightarrow> (Raise ex, st, evs)
                       | (Err raw, st, evs) \<Rightarrow> (Ok (wrap_storage raw), st, evs)
                       | (Ok r, st, evs) \<Rightarrow>
                           (Ok (result_ok
                              [(''data_id'', JStr name), (''version'', JInt version), (''kind'', JStr (dr_kind r)),
                               (''format'', JStr (dr_format r)), (''total_size'', JInt (dr_total_size r)),
                               (''chunk_bytes'', JInt (dr_chunk_bytes r)), (''total_chunks'', JInt (dr_total_chunks r)),
                               (''leader_rpc_uri'', JStr own_rpc_uri)]), st, evs)))))
     | _ \<Rightarrow> (Raise AttributeError, st, []))"

definition missing_chunk_ref :: "(string, json) dict \<Rightarrow> bool" where
  "missing_chunk_ref d =
    (\<not> py_truthy (jget d ''name'') \<or> jget d ''version'' = JNull \<or> jget d ''chunk_index'' = JNull)"

definition parse_data_ref :: "(string, json) dict \<Rightarrow> (string \<times> int) res" where
  "parse_data_ref d =
    bind_res (json_str (jget d ''name'')) (\<lambda>name.
    bind_res (exact_int (jget d ''version'')) (\<lambda>version. Ok (name, version)))"

definition parse_chunk_ref :: "(string, json) dict \<Rightarrow> (string \<times> int \<times> int) res" where
  "parse_chunk_ref d =
    bind_res (parse_data_ref d) (\<lambda>(name, version).
    bind_res (exact_int (jget d ''chunk_index'')) (\<lambda>i. Ok (name, version, i)))"

definition handle_data_chunk_put ::
  "('c, 'b) data_env \<Rightarrow> flt \<Rightarrow> command \<Rightarrow> ('c, 'b, command_result) data_op" where
  "handle_data_chunk_put E now c st =
    (case envelope c of
       JObj d \<Rightarrow>
         (if missing_chunk_ref d then
            (Ok (from_error (missing_error ''name, version, and chunk_index are required'')), st, [])
          else
            (case parse_chunk_ref d of
               Err e \<Rightarrow> (Err e, st, [])
             | Raise ex \<Rightarrow> (Raise ex, st, [])
             | Ok (name, version, i) \<Rightarrow>
                 (case store_chunk E name version i (payload c) now st of
                    (Raise ex, st, evs) \<Rightarrow> (Raise ex, st, evs)
                  | (Err e, st, evs) \<Rightarrow> (Ok (from_error e), st, evs)
                  | (Ok _, st, evs) \<Rightarrow>
                      (case data_status_of E name version st of
                         (Raise ex, st) \<Rightarrow> (Raise ex, st, evs)
                       | (Err e, st) \<Rightarrow> (Err e, st, evs)
                       | (Ok s, st) \<Rightarrow>
                           (Ok (result_ok
                              [(''data_id'', JStr name), (''version'', JInt version),
                               (''received_count'', JInt (int (length (st_present s)))),
                               (''total_chunks'', JInt (st_total_chunks s)),
                               (''complete'', JBool (st_complete s))]), st, evs)))))
     | _ \<Rightarrow> (Raise AttributeError, st, []))"

definition missing_data_ref :: "(string, json) dict \<Rightarrow> bool" where
  "missing_data_ref d = (\<not> py_truthy (jget d ''name'') \<or> jget d ''version'' = JNull)"

definition handle_data_delete ::
  "('c, 'b) data_env \<Rightarrow> flt \<Rightarrow> command \<Rightarrow> ('c, 'b, command_result) data_op" where
  "handle_data_delete E now c st =
    (case envelope c of
       JObj d \<Rightarrow>
         (if missing_data_ref d then
            (Ok (from_error (missing_error ''name and version are required'')), st, [])
          else
            (case parse_data_ref d of
               Err e \<Rightarrow> (Err e, st, [])
             | Raise ex \<Rightarrow> (Raise ex, st, [])
             | Ok (name, version) \<Rightarrow>
                 (case data_delete E name version now st of
                    (Raise ex, st, evs) \<Rightarrow> (Raise ex, st, evs)
                  | (Err raw, st, evs) \<Rightarrow> (Ok (wrap_storage raw), st, evs)
                  | (Ok _, st, evs) \<Rightarrow>
                      (Ok (result_ok [(''data_id'', JStr name), (''version'', JInt version)]), st, evs))))
     | _ \<Rightarrow> (Raise AttributeError, st, []))"

definition handle_data_chunk_get ::
  "('c, 'b) data_env \<Rightarrow> command \<Rightarrow> ('c, 'b) data_state \<Rightarrow> command_result res" where
  "handle_data_chunk_get E c st =
    with_env c (\<lambda>d.
      if missing_chunk_ref d then
        Ok (from_error (missing_error ''name, version, and chunk_index are required''))
      else
        bind_res (parse_chunk_ref d) (\<lambda>(name, version, i).
          case read_chunk E name version i st of
            Raise ex \<Rightarrow> Raise ex
          | Err raw \<Rightarrow> Ok (wrap_storage raw)
          | Ok x \<Rightarrow> Ok ((result_ok [(''name'', JStr name), (''version'', JInt version),
                                    (''chunk_index'', JInt i)])\<lparr>cr_payload := x\<rparr>)))"

definition handle_data_status ::
  "('c, 'b) data_env \<Rightarrow> command \<Rightarrow> ('c, 'b) data_state \<Rightarrow> command_result res \<times> ('c, 'b) data_state" where
  "handle_data_status E c st =
    (case with_env c (\<lambda>d. if missing_data_ref d then Ok None else bind_res (parse_data_ref d) (\<lambda>p. Ok (Some p))) of
       Raise ex \<Rightarrow> (Raise ex, st)
     | Err e \<Rightarrow> (Err e, st)
     | Ok None \<Rightarrow> (Ok (from_error (missing_error ''name and version are required'')), st)
     | Ok (Some (name, version)) \<Rightarrow>
         (case data_status_of E name version st of
            (Raise ex, st) \<Rightarrow> (Raise ex, st)
          | (Err e, st) \<Rightarrow> (Err e, st)
          | (Ok s, st) \<Rightarrow>
              (Ok (result_ok
                 [(''registered'', JBool (st_registered s)), (''total_chunks'', JInt (st_total_chunks s)),
                  (''chunk_bytes'', JInt (st_chunk_bytes s)), (''total_size'', JInt (st_total_size s)),
                  (''present_chunk_indices'', JList (map JInt (st_present s))),
                  (''complete'', JBool (st_complete s))]), st)))"

definition handle_bucket_register ::
  "('k, storage_key, data_bucket) backend \<Rightarrow> flt \<Rightarrow> command \<Rightarrow> 'k \<Rightarrow> ('k, command_result) reg" where
  "handle_bucket_register B now c s =
    (case with_env c (\<lambda>d.
            if \<not> py_truthy (jget d ''name'') \<or> jget d ''quota_bytes'' = JNull then Ok None
            else bind_res (json_str (jget d ''name'')) (\<lambda>name.
                 bind_res (exact_int (jget d ''quota_bytes'')) (\<lambda>q. Ok (Some (name, q))))) of
       Raise ex \<Rightarrow> (Raise ex, s, [])
     | Err e \<Rightarrow> (Err e, s, [])
     | Ok None \<Rightarrow> (Ok (from_error (missing_error ''name and quota_bytes are required'')), s, [])
     | Ok (Some (name, q)) \<Rightarrow>
         (case bucket_register B name q now s of
            (Raise ex, s, evs) \<Rightarrow> (Raise ex, s, evs)
          | (Err raw, s, evs) \<Rightarrow>
              (Ok (if err_cls raw = BucketAlreadyExistsError then from_error raw else wrap_storage raw), s, evs)
          | (Ok b, s, evs) \<Rightarrow>
              (Ok (result_ok [(''name'', JStr (bk_name b)), (''quota_bytes'', JInt (bk_quota_bytes b)),
                              (''created_at'', JFloat (bk_created_at b))]), s, evs)))"


section \<open>Lemmas\<close>

context data_store
begin

lemma fully_present_view:
  assumes "binv b" "\<And>i. bok (chunk_path (dr_name r) (dr_version r) i)"
  shows "fully_present E b r \<longleftrightarrow>
    (\<forall>i \<in> set (chunk_indices (dr_total_chunks r)). bview b (chunk_path (dr_name r) (dr_version r) i) \<noteq> None)"
  using assms by (auto simp: fully_present_def list_all_iff blob.exists)

lemma store_chunk_event:
  assumes "state_ok st" "cview (ds_catalog st) (name, v) = Some r" "dr_kind r = ''fs''"
    "store_chunk E name v i x now st = (Ok r', st', evs)"
  shows "evs = (if fully_present E (fs_blob st') r \<and> (name, v) \<notin> set (ds_completed st)
                then [upload_completed_event r now] else [])"
    "ds_hash_cache st' = ds_hash_cache st"
proof -
  obtain b where b: "map_of (ds_blobs st) ''fs'' = Some b" using assms(1) by (auto simp: state_ok_def)
  note run = assms(4) [unfolded store_chunk_def get_record_view [OF assms(1)] assms(2) res.case option.case assms(3) b]
  show "evs = (if fully_present E (fs_blob st') r \<and> (name, v) \<notin> set (ds_completed st)
                then [upload_completed_event r now] else [])"
    "ds_hash_cache st' = ds_hash_cache st"
    using run
    by (auto simp: Let_def mark_completed_if_first_time_def fs_blob_def split: res.splits prod.splits if_splits)
qed

text \<open>Every refusal of a chunk leaves the registry as it was.\<close>

lemma store_chunk_refused:
  assumes "state_ok st"
  shows "cview (ds_catalog st) (name, v) = None \<Longrightarrow>
      store_chunk E name v i x now st = (Err (not_registered name v), st, [])"
    "cview (ds_catalog st) (name, v) = Some r \<Longrightarrow> i < 0 \<or> dr_total_chunks r \<le> i \<Longrightarrow>
      store_chunk E name v i x now st = (Err (index_error i (dr_total_chunks r)), st, [])"
    "cview (ds_catalog st) (name, v) = Some r \<Longrightarrow> 0 \<le> i \<Longrightarrow> i < dr_total_chunks r \<Longrightarrow>
      expected_chunk_len (dr_total_size r) (dr_chunk_bytes r) i = Ok n \<Longrightarrow> n \<noteq> int (length x) \<Longrightarrow>
      store_chunk E name v i x now st = (Err (size_error i n (int (length x))), st, [])"
  using get_record_view [OF assms] by (auto simp: store_chunk_def)

end

lemma mem_chunk_indices: "i \<in> set (chunk_indices n) \<longleftrightarrow> 0 \<le> i \<and> i < n"
proof -
  have "0 \<le> i \<Longrightarrow> i < n \<Longrightarrow> \<exists>x \<in> {0..<nat n}. i = int x" by (intro bexI [of _ "nat i"]) auto
  then show ?thesis by (auto simp: chunk_indices_def)
qed

lemma int_length_concat: "int (length (concat xss)) = (\<Sum>xs \<leftarrow> xss. int (length xs))"
  by (induction xss) simp_all

text \<open>The calls of a registry, and the events that a sequence of them emits.\<close>

datatype data_call =
    Register string int string string int int "string option" string
  | Store string int int bytes
  | Remove string int
  | Open string int string string int
  | Append string int bytes
  | Finalize string int

fun data_step :: "('c, 'b) data_env \<Rightarrow> flt \<Rightarrow> data_call \<Rightarrow> ('c, 'b) data_state \<Rightarrow> ('c, 'b) data_state \<times> event list" where
  "data_step E now (Register n v f k L cb h a) st = snd (data_register E n v f k L cb now h a st)"
| "data_step E now (Store n v i x) st = snd (store_chunk E n v i x now st)"
| "data_step E now (Remove n v) st = snd (data_delete E n v now st)"
| "data_step E now (Open n v f k cb) st = (open_data_stream n v f k cb st, [])"
| "data_step E now (Append n v x) st = snd (append_chunk E n v x st)"
| "data_step E now (Finalize n v) st = snd (finalize_stream E n v now st)"

fun data_run :: "('c, 'b) data_env \<Rightarrow> (flt \<times> data_call) list \<Rightarrow> ('c, 'b) data_state \<Rightarrow>
    ('c, 'b) data_state \<times> event list" where
  "data_run E [] st = (st, [])"
| "data_run E ((now, c) # cs) st =
    (case data_step E now c st of (st, evs) \<Rightarrow>
     case data_run E cs st of (st, evs') \<Rightarrow> (st, evs @ evs'))"

definition event_count :: "string \<Rightarrow> string \<times> int \<Rightarrow> event list \<Rightarrow> nat" where
  "event_count ty p evs = length (filter (\<lambda>e. ev_type e = ty \<and>
     ev_payload e = [(''data_id'', JStr (fst p)), (''version'', JInt (snd p))]) evs)"

lemma event_count_simps [simp]:
  "event_count ty p [] = 0"
  "event_count ty p (evs @ evs') = event_count ty p evs + event_count ty p evs'"
  "event_count ''DATA_UPLOAD_COMPLETED'' p (registered_event r now # evs) = event_count ''DATA_UPLOAD_COMPLETED'' p evs"
  "event_count ''DATA_DELETED'' p (registered_event r now # evs) = event_count ''DATA_DELETED'' p evs"
  "event_count ty p (data_event ty' n v now # evs) = (if ty = ty' \<and> p = (n, v) then 1 else 0) + event_count ty p evs"
  by (auto simp: event_count_def registered_event_def data_event_def prod_eq_iff)

lemma event_count_completed [simp]:
  "event_count ty p (upload_completed_event r now # evs) =
    (if ty = ''DATA_UPLOAD_COMPLETED'' \<and> p = (dr_name r, dr_version r) then 1 else 0) + event_count ty p evs"
  by (simp add: upload_completed_event_def)


context data_store
begin

text \<open>Every record is stored under its own name and version.\<close>

definition named :: "('c, 'b) data_state \<Rightarrow> bool" where
  "named st \<longleftrightarrow> cinv (ds_catalog st) \<and>
    (\<forall>p r. cview (ds_catalog st) p = Some r \<longrightarrow> p = (dr_name r, dr_version r))"

definition completed_bit :: "string \<times> int \<Rightarrow> ('c, 'b) data_state \<Rightarrow> nat" where
  "completed_bit p st = (if p \<in> set (ds_completed st) then 1 else 0)"

definition step_ok :: "('c, 'b) data_state \<Rightarrow> ('c, 'b) data_state \<Rightarrow> event list \<Rightarrow> bool" where
  "step_ok st st' evs \<longleftrightarrow> named st' \<and>
    (\<forall>p. event_count ''DATA_UPLOAD_COMPLETED'' p evs + completed_bit p st
       \<le> completed_bit p st' + event_count ''DATA_DELETED'' p evs)"

lemma get_record_named:
  "named st \<Longrightarrow> get_record E n v st = Ok (cview (ds_catalog st) (n, v))"
  by (simp add: named_def get_record_def cat.get)

lemma put_named:
  assumes "named st" "b_put (de_catalog E) (ds_catalog st) (ckey (n, v)) r = (q, c)" "dr_name r = n" "dr_version r = v"
  shows "\<exists>u. q = Ok u" "\<And>st'. ds_catalog st' = c \<Longrightarrow> named st'"
  using assms cat.cat_put [of "ds_catalog st" "(n, v)" r q c]
  by (auto simp: named_def)

lemma step_ok_same: "named st \<Longrightarrow> ds_catalog st' = ds_catalog st \<Longrightarrow> ds_completed st' = ds_completed st \<Longrightarrow> step_ok st st' []"
  by (simp add: step_ok_def named_def completed_bit_def)

lemma step_ok_register: "named st \<Longrightarrow> data_register E n v f k L cb now h a st = (r, st', evs) \<Longrightarrow> step_ok st st' evs"
proof -
  assume st: "named st" and run: "data_register E n v f k L cb now h a st = (r, st', evs)"
  show ?thesis
  proof (cases "(map_of (ds_blobs st) k = None \<or> k \<notin> set key_types) \<or> \<not> is_ok (total_chunks_for L cb)")
    case True
    then have "st' = st" "evs = []" using run by (auto simp: data_register_def is_ok_def split: res.splits if_splits)
    then show ?thesis using st by (simp add: step_ok_same)
  next
    case False
    then obtain m where m: "total_chunks_for L cb = Ok m" by (auto simp: is_ok_def split: res.splits)
    let ?r = "\<lparr>dr_name = n, dr_version = v, dr_alias = n, dr_format = f, dr_kind = k,
      dr_total_size = L, dr_chunk_bytes = cb, dr_total_chunks = m, dr_created_at = now,
      dr_declared_hash = h, dr_content_hash_algo = a\<rparr>"
    obtain q c where put: "b_put (de_catalog E) (ds_catalog st) (ckey (n, v)) ?r = (q, c)" by fastforce
    obtain u where u: "q = Ok u" and named: "\<And>st'. ds_catalog st' = c \<Longrightarrow> named st'"
      using put_named [OF st put] by auto
    from run False m put u have "ds_catalog st' = c"
      and "(ds_completed st' = ds_completed st \<and> evs = [registered_event ?r now]) \<or>
        (ds_completed st' = (n, v) # ds_completed st \<and> (n, v) \<notin> set (ds_completed st) \<and>
         evs = [registered_event ?r now, upload_completed_event ?r now])"
      by (auto simp: data_register_def Let_def mark_completed_if_first_time_def split: if_splits)
    then show ?thesis using named by (auto simp: step_ok_def completed_bit_def)
  qed
qed

lemma step_ok_store: "named st \<Longrightarrow> store_chunk E n v i x now st = (r, st', evs) \<Longrightarrow> step_ok st st' evs"
proof -
  assume st: "named st" and run: "store_chunk E n v i x now st = (r, st', evs)"
  have cat: "ds_catalog st' = ds_catalog st"
    using run by (auto simp: store_chunk_def Let_def mark_completed_if_first_time_def
        split: res.splits option.splits prod.splits if_splits)
  have "(ds_completed st' = ds_completed st \<and> evs = []) \<or>
      (\<exists>r. cview (ds_catalog st) (n, v) = Some r \<and> ds_completed st' = (n, v) # ds_completed st \<and>
         (n, v) \<notin> set (ds_completed st) \<and> evs = [upload_completed_event r now])"
    using run get_record_named [OF st, of n v]
    by (auto simp: store_chunk_def Let_def mark_completed_if_first_time_def
        split: res.splits option.splits prod.splits if_splits)
  then show ?thesis using st cat by (fastforce simp: step_ok_def completed_bit_def named_def)
qed

lemma step_ok_delete: "named st \<Longrightarrow> data_delete E n v now st = (r, st', evs) \<Longrightarrow> step_ok st st' evs"
proof -
  assume st: "named st" and run: "data_delete E n v now st = (r, st', evs)"
  obtain c where del: "b_delete (de_catalog E) (ds_catalog st) (ckey (n, v)) = (Ok (), c)" "cinv c"
    "cview c = (cview (ds_catalog st))((n, v) := None)"
    using cat.catalog_delete_ok [of "ds_catalog st" "(n, v)"] st by (auto simp: named_def)
  have "(ds_catalog st' = ds_catalog st \<and> ds_completed st' = ds_completed st \<and> evs = []) \<or>
      (ds_catalog st' = c \<and> ds_completed st' = removeAll (n, v) (ds_completed st) \<and>
       evs = [data_event ''DATA_DELETED'' n v now])"
    using run del(1) by (auto simp: data_delete_def Let_def split: res.splits option.splits if_splits)
  then show ?thesis using st del(2,3) by (auto simp: step_ok_def completed_bit_def named_def split: if_splits)
qed

end


context data_store
begin

lemma step_ok_finalize: "named st \<Longrightarrow> finalize_stream E n v now st = (r, st', evs) \<Longrightarrow> step_ok st st' evs"
proof -
  assume st: "named st" and run: "finalize_stream E n v now st = (r, st', evs)"
  show ?thesis
  proof (cases "map_of (ds_streams st) (n, v) = None \<or> de_hash E ''sha256'' = None")
    case True
    then have "ds_catalog st' = ds_catalog st" "ds_completed st' = ds_completed st" "evs = []"
      using run by (auto simp: finalize_stream_def Let_def split: option.splits)
    then show ?thesis using st by (simp add: step_ok_same)
  next
    case False
    then obtain s h where s: "map_of (ds_streams st) (n, v) = Some s" "de_hash E ''sha256'' = Some h" by auto
    let ?r = "\<lparr>dr_name = n, dr_version = v, dr_alias = n, dr_format = os_format s, dr_kind = os_kind s,
      dr_total_size = os_total_size s, dr_chunk_bytes = os_chunk_bytes s,
      dr_total_chunks = int (os_next_index s), dr_created_at = now,
      dr_declared_hash = Some (h (os_hasher s)), dr_content_hash_algo = ''sha256''\<rparr>"
    obtain q c where put: "b_put (de_catalog E) (ds_catalog st) (ckey (n, v)) ?r = (q, c)" by fastforce
    obtain u where u: "q = Ok u" and named: "\<And>st'. ds_catalog st' = c \<Longrightarrow> named st'"
      using put_named [OF st put] by auto
    from run s put u have "ds_catalog st' = c"
      and "(ds_completed st' = ds_completed st \<and> evs = [registered_event ?r now]) \<or>
        (ds_completed st' = (n, v) # ds_completed st \<and> (n, v) \<notin> set (ds_completed st) \<and>
         evs = [registered_event ?r now, upload_completed_event ?r now])"
      by (auto simp: finalize_stream_def Let_def mark_completed_if_first_time_def split: if_splits)
    then show ?thesis using named by (auto simp: step_ok_def completed_bit_def)
  qed
qed

lemma append_chunk_frame:
  "append_chunk E n v x st = (r, st', evs) \<Longrightarrow>
   ds_catalog st' = ds_catalog st \<and> ds_completed st' = ds_completed st \<and> evs = []"
  by (auto simp: append_chunk_def split: res.splits option.splits prod.splits)

lemma step_ok_call: "named st \<Longrightarrow> data_step E now c st = (st', evs) \<Longrightarrow> step_ok st st' evs"
proof (cases c)
  case (Register n v f k L cb h a)
  assume "named st" "data_step E now c st = (st', evs)"
  then show ?thesis using Register
    by (cases "data_register E n v f k L cb now h a st") (auto intro: step_ok_register)
next
  case (Store n v i x)
  assume "named st" "data_step E now c st = (st', evs)"
  then show ?thesis using Store by (cases "store_chunk E n v i x now st") (auto intro: step_ok_store)
next
  case (Remove n v)
  assume "named st" "data_step E now c st = (st', evs)"
  then show ?thesis using Remove by (cases "data_delete E n v now st") (auto intro: step_ok_delete)
next
  case (Open n v f k cb)
  assume "named st" "data_step E now c st = (st', evs)"
  then show ?thesis using Open by (auto simp: open_data_stream_def intro: step_ok_same)
next
  case (Append n v x)
  assume "named st" "data_step E now c st = (st', evs)"
  moreover from this obtain r where "append_chunk E n v x st = (r, st', evs)"
    using Append by (cases "append_chunk E n v x st") simp
  ultimately show ?thesis using append_chunk_frame [of n v x st r st' evs] step_ok_same [of st st'] by simp
next
  case (Finalize n v)
  assume "named st" "data_step E now c st = (st', evs)"
  then show ?thesis using Finalize by (cases "finalize_stream E n v now st") (auto intro: step_ok_finalize)
qed

lemma step_okD: "step_ok st st' evs \<Longrightarrow>
    event_count ''DATA_UPLOAD_COMPLETED'' p evs + completed_bit p st
      \<le> completed_bit p st' + event_count ''DATA_DELETED'' p evs"
  unfolding step_ok_def by blast

lemma step_ok_trans: "step_ok a b evs \<Longrightarrow> step_ok b c evs' \<Longrightarrow> step_ok a c (evs @ evs')"
  unfolding step_ok_def [of a c]
proof (intro conjI allI)
  fix p assume ab: "step_ok a b evs" and bc: "step_ok b c evs'"
  show "event_count ''DATA_UPLOAD_COMPLETED'' p (evs @ evs') + completed_bit p a
      \<le> completed_bit p c + event_count ''DATA_DELETED'' p (evs @ evs')"
    using step_okD [OF ab, of p] step_okD [OF bc, of p] by simp
qed (simp add: step_ok_def)

lemma completed_count:
  "named st \<Longrightarrow> data_run E cs st = (st', evs) \<Longrightarrow> step_ok st st' evs"
proof (induction cs arbitrary: st st' evs)
  case Nil
  then show ?case by (simp add: step_ok_same)
next
  case (Cons p cs)
  obtain now c where p: "p = (now, c)" by (cases p)
  obtain st1 evs1 where s1: "data_step E now c st = (st1, evs1)" by fastforce
  obtain st2 evs2 where s2: "data_run E cs st1 = (st2, evs2)" by fastforce
  have "step_ok st st1 evs1" by (rule step_ok_call [OF Cons.prems(1) s1])
  moreover from this have "step_ok st1 st2 evs2" by (intro Cons.IH [OF _ s2]) (simp add: step_ok_def)
  moreover have "st' = st2" "evs = evs1 @ evs2" using Cons.prems(2) s1 s2 p by auto
  ultimately show ?case using step_ok_trans by blast
qed

end

section \<open>Properties\<close>

text \<open>
  C11: What a client stores is what it reads back. On a node (an in-memory catalog and chunks in
  files), registering a value under a plain name and storing it in chunks of any positive size
  succeeds, and reading the whole record returns the value.
\<close>

theorem data_store_then_read:
  assumes "cat_inv (ds_catalog st)" "map_of (ds_blobs st) ''fs'' = Some tree" "dict_ok tree"
    "clean_path name" "0 < chunk_bytes"
  shows "\<exists>r st' evs. register_and_store (node_env H root) name version format ''fs'' data now chunk_bytes h algo st
      = (Ok r, st', evs) \<and> read_whole (node_env H root) name version st' = Ok data"
proof -
  have "node_data.state_ok st" using assms(1-3) by (simp add: node_data.state_ok_def)
  then show ?thesis
    using node_data.store_then_read [OF _ assms(5) clean_chunk_path [OF assms(4)], where H = H and root = root]
    by blast
qed

definition example_state :: "(data_record mem, file_tree) data_state" where
  "example_state = data_init mem_init [(''fs'', [])]"

lemma example_state_simps [simp]:
  "ds_catalog example_state = mem_init" "ds_blobs example_state = [(''fs'', [])]" "ds_completed example_state = []"
  "ds_hash_cache example_state = []" "ds_streams example_state = []"
  by (simp_all add: example_state_def data_init_def)

lemma data_store_then_read_witness:
  "\<exists>r st' evs. register_and_store (node_env (\<lambda>_. None) ''/srv'') ''b/x'' 1 ''raw'' ''fs'' ''hello'' 0 2 None ''sha256''
      example_state = (Ok r, st', evs) \<and>
    read_whole (node_env (\<lambda>_. None) ''/srv'') ''b/x'' 1 st' = Ok ''hello''"
  by (rule data_store_then_read [of _ "[]"]) (simp_all add: clean_path_def clean_segment_def plain_segment_def)

text \<open>
  The sizes that the registry demands of the chunks add up: for a positive chunk size every
  chunk has between one and \<open>chunk_bytes\<close> octets, and together they have \<open>total_size\<close>.
\<close>

theorem chunk_sizes_add_up:
  assumes "0 < chunk_bytes" "0 \<le> total_size" "total_chunks_for total_size chunk_bytes = Ok n"
  shows "(\<Sum>i \<leftarrow> chunk_indices n. the_ok (expected_chunk_len total_size chunk_bytes i)) = total_size \<and>
    list_all (\<lambda>i. \<exists>l. expected_chunk_len total_size chunk_bytes i = Ok l \<and> 0 < l \<and> l \<le> chunk_bytes)
      (chunk_indices n)"
proof -
  define data :: bytes where "data = replicate (nat total_size) CHR 0x00"
  have len: "int (length data) = total_size" using assms(2) by (simp add: data_def)
  have n: "total_chunks_for (int (length data)) chunk_bytes = Ok n" using assms(3) len by simp
  have ex: "expected_chunk_len total_size chunk_bytes i = Ok (int (length (slice data (i * chunk_bytes) chunk_bytes)))"
    if "i \<in> set (chunk_indices n)" for i
  proof -
    have i: "0 \<le> i" "i < n" using that by (auto simp: chunk_indices_def)
    moreover have "data \<noteq> []" using n i by (auto simp: total_chunks_for_def)
    ultimately show ?thesis using expected_slice [OF assms(1) _ n] len by simp
  qed
  have "(\<Sum>i \<leftarrow> chunk_indices n. the_ok (expected_chunk_len total_size chunk_bytes i)) =
      (\<Sum>i \<leftarrow> chunk_indices n. int (length (slice data (i * chunk_bytes) chunk_bytes)))"
    using ex by (intro arg_cong [where f = sum_list] map_cong) simp_all
  also have "\<dots> = int (length (concat (map (\<lambda>i. slice data (i * chunk_bytes) chunk_bytes) (chunk_indices n))))"
    by (simp add: int_length_concat comp_def)
  finally have sum: "(\<Sum>i \<leftarrow> chunk_indices n. the_ok (expected_chunk_len total_size chunk_bytes i)) = total_size"
    using concat_all_slices [OF assms(1) n] len by simp
  have "list_all (\<lambda>i. \<exists>l. expected_chunk_len total_size chunk_bytes i = Ok l \<and> 0 < l \<and> l \<le> chunk_bytes)
      (chunk_indices n)"
    unfolding list_all_iff
  proof
    fix i assume i: "i \<in> set (chunk_indices n)"
    then have ix: "0 \<le> i" "i < n" by (auto simp: chunk_indices_def)
    have "0 < total_size" using assms(3) ix by (auto simp: total_chunks_for_def split: if_splits)
    note b = total_chunks_bounds [OF assms(1) this assms(3)]
    have "i * chunk_bytes \<le> (n - 1) * chunk_bytes" using assms(1) ix by (intro mult_right_mono) auto
    then have "i * chunk_bytes < total_size" using b(2) by simp
    then show "\<exists>l. expected_chunk_len total_size chunk_bytes i = Ok l \<and> 0 < l \<and> l \<le> chunk_bytes"
      using ex [OF i] length_slice [OF assms(1) ix(1), of data] len assms(1) by simp
  qed
  with sum show ?thesis by simp
qed

lemma chunk_sizes_add_up_witness:
  "(\<Sum>i \<leftarrow> chunk_indices 3. the_ok (expected_chunk_len 10 4 i)) = 10"
  using chunk_sizes_add_up [of 4 10 3] by (simp add: total_chunks_for_def)



definition example_calls :: "(flt \<times> data_call) list" where
  "example_calls =
    [(1, Register ''d'' 1 ''raw'' ''fs'' 3 2 None ''sha256''), (2, Store ''d'' 1 0 ''ab''),
     (3, Store ''d'' 1 1 ''c''), (4, Store ''d'' 1 1 ''x''), (5, Remove ''d'' 1)]"


text \<open>
  What happens to a chunk. A chunk for an unregistered name, with an index outside the
  record or of the wrong size, is refused and nothing changes. Any other chunk is stored, no
  other chunk of any record changes, and the completion is announced exactly when it was not
  announced before and every chunk of the record is now present.
\<close>

theorem chunk_put_effects:
  fixes st :: "(data_record mem, file_tree) data_state"
  assumes "cat_inv (ds_catalog st)" "map_of (ds_blobs st) ''fs'' = Some tree" "dict_ok tree" "clean_path name"
    and run: "store_chunk (node_env H root) name v i x now st = (res, st', evs)"
  shows "(case cat_view (ds_catalog st) (name, v) of
      None \<Rightarrow> res = Err (not_registered name v) \<and> st' = st \<and> evs = []
    | Some r \<Rightarrow>
        (i < 0 \<or> dr_total_chunks r \<le> i \<longrightarrow>
           res = Err (index_error i (dr_total_chunks r)) \<and> st' = st \<and> evs = []) \<and>
        (0 \<le> i \<and> i < dr_total_chunks r \<longrightarrow> (\<forall>n. expected_chunk_len (dr_total_size r) (dr_chunk_bytes r) i = Ok n \<longrightarrow>
           n \<noteq> int (length x) \<longrightarrow> res = Err (size_error i n (int (length x))) \<and> st' = st \<and> evs = [])) \<and>
        (0 \<le> i \<and> i < dr_total_chunks r \<and> dr_kind r = ''fs'' \<and> dr_name r = name \<and> dr_version r = v \<and>
           expected_chunk_len (dr_total_size r) (dr_chunk_bytes r) i = Ok (int (length x)) \<longrightarrow>
           res = Ok r \<and> ds_catalog st' = ds_catalog st \<and>
           (\<forall>p. clean_path p \<longrightarrow> fs_view root (the (map_of (ds_blobs st') ''fs'')) p =
              (if p = chunk_path name v i then Some x else fs_view root tree p)) \<and>
           evs = (if (\<forall>j. 0 \<le> j \<and> j < dr_total_chunks r \<longrightarrow>
                        fs_view root (the (map_of (ds_blobs st') ''fs'')) (chunk_path name v j) \<noteq> None) \<and>
                     (name, v) \<notin> set (ds_completed st)
                  then [upload_completed_event r now] else [])))"
proof -
  have ok: "node_data.state_ok st" using assms(1-3) by (simp add: node_data.state_ok_def)
  note refused = node_data.store_chunk_refused [OF ok, where H = H and root = root]
  show ?thesis
  proof (cases "cat_view (ds_catalog st) (name, v)")
    case None
    then show ?thesis using refused(1) [OF None] run by simp
  next
    case (Some r)
    have idx: "i < 0 \<or> dr_total_chunks r \<le> i \<longrightarrow>
        res = Err (index_error i (dr_total_chunks r)) \<and> st' = st \<and> evs = []"
    proof
      assume "i < 0 \<or> dr_total_chunks r \<le> i"
      from refused(2) [OF Some this, of x now] run
      show "res = Err (index_error i (dr_total_chunks r)) \<and> st' = st \<and> evs = []" by simp
    qed
    have size: "0 \<le> i \<and> i < dr_total_chunks r \<longrightarrow>
        (\<forall>n. expected_chunk_len (dr_total_size r) (dr_chunk_bytes r) i = Ok n \<longrightarrow>
           n \<noteq> int (length x) \<longrightarrow> res = Err (size_error i n (int (length x))) \<and> st' = st \<and> evs = [])"
      using refused(3) [OF Some, of i _ x now] run by simp
    have stored: "res = Ok r \<and> ds_catalog st' = ds_catalog st \<and>
           (\<forall>p. clean_path p \<longrightarrow> fs_view root (the (map_of (ds_blobs st') ''fs'')) p =
              (if p = chunk_path name v i then Some x else fs_view root tree p)) \<and>
           evs = (if (\<forall>j. 0 \<le> j \<and> j < dr_total_chunks r \<longrightarrow>
                        fs_view root (the (map_of (ds_blobs st') ''fs'')) (chunk_path name v j) \<noteq> None) \<and>
                     (name, v) \<notin> set (ds_completed st)
                  then [upload_completed_event r now] else [])"
      if a: "0 \<le> i" "i < dr_total_chunks r" "dr_kind r = ''fs''" "dr_name r = name" "dr_version r = v"
        "expected_chunk_len (dr_total_size r) (dr_chunk_bytes r) i = Ok (int (length x))"
    proof -
      note cp = clean_chunk_path [OF assms(4)]
      obtain st1 evs1 where s: "store_chunk (node_env H root) name v i x now st = (Ok r, st1, evs1)"
        "node_data.state_ok st1" "ds_catalog st1 = ds_catalog st"
        "\<And>p. clean_path p \<Longrightarrow> fs_view root (node_data.fs_blob st1) p =
           (if p = chunk_path name v i then Some x else fs_view root (node_data.fs_blob st) p)"
        using node_data.store_chunk_ok [OF ok Some a(3,1,2) cp a(6)] by blast
      have b: "dict_ok (node_data.fs_blob st1)" using node_data.fs_blob_ok [OF s(2)] by simp
      have evs1: "evs1 = (if fully_present (node_env H root) (node_data.fs_blob st1) r \<and> (name, v) \<notin> set (ds_completed st)
                then [upload_completed_event r now] else [])"
        by (rule node_data.store_chunk_event [OF ok Some a(3) s(1)])
      have "fully_present (node_env H root) (node_data.fs_blob st1) r \<longleftrightarrow>
          (\<forall>j. 0 \<le> j \<and> j < dr_total_chunks r \<longrightarrow> fs_view root (node_data.fs_blob st1) (chunk_path name v j) \<noteq> None)"
        using node_data.fully_present_view [OF b, of r H root] cp a(4,5) by (auto simp: mem_chunk_indices)
      moreover have "node_data.fs_blob st = tree" by (simp add: node_data.fs_blob_def assms(2))
      moreover have "node_data.fs_blob st1 = the (map_of (ds_blobs st1) ''fs'')" by (simp add: node_data.fs_blob_def)
      moreover have "res = Ok r" "st' = st1" "evs = evs1" using run s(1) by simp_all
      ultimately show ?thesis using s(3,4) evs1 by simp
    qed
    show ?thesis unfolding Some option.case by (rule conjI, rule idx, rule conjI, rule size, rule impI, elim conjE, rule stored)
  qed
qed


lemma chunk_put_effects_witness:
  "\<exists>st :: (data_record mem, file_tree) data_state. \<exists>res st' evs.
     store_chunk (node_env (\<lambda>_. None) ''/srv'') ''d'' 1 0 ''ab'' 5 st = (res, st', evs) \<and>
     res = Err (not_registered ''d'' 1) \<and> st' = st \<and> evs = []"
proof -
  obtain res st' evs where run: "store_chunk (node_env (\<lambda>_. None) ''/srv'') ''d'' 1 0 ''ab'' 5 example_state = (res, st', evs)"
    by (cases "store_chunk (node_env (\<lambda>_. None) ''/srv'') ''d'' 1 0 ''ab'' 5 example_state")
  have "cat_inv (ds_catalog example_state)" "map_of (ds_blobs example_state) ''fs'' = Some []" "dict_ok ([] :: file_tree)"
    "clean_path ''d''" "cat_view (ds_catalog example_state) (''d'', 1) = None"
    by (simp_all add: clean_path_def clean_segment_def plain_segment_def)
  with chunk_put_effects [OF this(1-4) run] run show ?thesis by auto
qed

text \<open>Replacing one record in the catalog changes the sum of the sizes by the difference.\<close>

lemma sum_filter_dput:
  fixes f :: "'v \<Rightarrow> int"
  assumes "distinct (map fst d)"
  shows "sum_list (map f (filter P (map snd (dput k y d)))) =
    sum_list (map f (filter P (map snd d))) + (if P y then f y else 0) -
    (case map_of d k of Some x \<Rightarrow> (if P x then f x else 0) | None \<Rightarrow> 0)"
  using assms
proof (induction d)
  case (Cons p d)
  then show ?case by (cases p) (auto simp: map_of_eq_None_iff split: option.splits)
qed simp

lemma used_after_register:
  assumes "cat_inv m" "b_put mem_backend m (ckey (n, v)) r = (q, m')" "dr_name r = n"
    "\<And>p r. cat_view m p = Some r \<Longrightarrow> fst p = dr_name r"
  shows "bucket_used b (b_values mem_backend m') = bucket_used b (b_values mem_backend m) +
    (if prefix (b @ ''/'') n then dr_total_size r - (case cat_view m (n, v) of Some x \<Rightarrow> dr_total_size x | None \<Rightarrow> 0) else 0)"
proof -
  have m': "storage m' = dput (ckey (n, v)) r (storage m)"
    using assms(2) by (auto simp: mem_put_ckey)
  have d: "distinct (map fst (storage m))" using assms(1) by (simp add: cat_inv_def dict_ok_def)
  have name: "dr_name x = n" if "map_of (storage m) (ckey (n, v)) = Some x" for x
    using assms(4) [of "(n, v)" x] that by (simp add: cat_view_def)
  show ?thesis
    using sum_filter_dput [OF d, where P = "\<lambda>r. prefix (b @ ''/'') (dr_name r)" and f = dr_total_size
        and k = "ckey (n, v)" and y = r] assms(3) name
    by (auto simp: bucket_used_def mem_values_def m' cat_view_def split: option.splits)
qed

lemma bucket_of_slash: "CHR ''/'' \<in> set n \<Longrightarrow> prefix (bucket_of n @ ''/'') n"
proof (induction n)
  case (Cons c n)
  then show ?case
    by (cases "c = CHR ''/''"; cases "py_split (CHR ''/'') n") (auto simp: bucket_of_def)
qed simp

lemma bucket_of_no_slash: "CHR ''/'' \<notin> set (bucket_of n)"
proof (induction n)
  case (Cons c n)
  then show ?case
    by (cases "c = CHR ''/''"; cases "py_split (CHR ''/'') n") (auto simp: bucket_of_def)
qed (simp add: bucket_of_def)

lemma prefix_slash_unique:
  "prefix (a @ ''/'') n \<Longrightarrow> prefix (b @ ''/'') n \<Longrightarrow> CHR ''/'' \<notin> set a \<Longrightarrow> CHR ''/'' \<notin> set b \<Longrightarrow> a = b"
proof (induction a arbitrary: b n)
  case Nil
  then show ?case by (cases b; cases n) auto
next
  case (Cons x a)
  then show ?case by (cases b; cases n) auto
qed


text \<open>A successful reply of the handler was preceded by a registration within the quota.\<close>

lemma handle_data_register_ok:
  assumes "handle_data_register E B buckets uri now c st = (Ok reply, st', evs)" "cr_ok reply"
  obtains d name v L cb f k h a r where "envelope c = JObj d"
    "parse_data_register d = Ok (name, v, L, cb, f, k, h, a)"
    "buckets = None \<or> CHR ''/'' \<notin> set name \<or> check_bucket_quota E B (the buckets) name L st = Ok None"
    "data_register E name v f k L cb now h a st = (Ok r, st', evs)"
  using assms
  by (auto simp: handle_data_register_def from_error_meta_def wrap_storage_def
      split: json.splits if_splits res.splits option.splits prod.splits)

lemma data_register_catalog:
  assumes "data_register E name v f k L cb now h a st = (Ok r, st', evs)"
  shows "dr_name r = name" "dr_version r = v" "dr_total_size r = L"
    "\<exists>u. b_put (de_catalog E) (ds_catalog st) (ckey (name, v)) r = (Ok u, ds_catalog st')"
  using assms
  by (auto simp: data_register_def Let_def mark_completed_if_first_time_def
      split: res.splits prod.splits if_splits)

definition no_negative_sizes :: "(data_record mem, file_tree) data_state \<Rightarrow> bool" where
  "no_negative_sizes st = list_all (\<lambda>r. 0 \<le> dr_total_size r) (b_values mem_backend (ds_catalog st))"



definition example_request :: "int \<Rightarrow> command" where
  "example_request L = \<lparr>operation = ''DATA_REGISTER'', content_type = ''application/octet-stream'',
     envelope = JObj [(''name'', JStr ''b/x''), (''version'', JInt 1), (''total_size'', JInt L),
       (''chunk_bytes'', JInt 4)], payload = []\<rparr>"

definition example_buckets :: "data_bucket mem" where
  "example_buckets = snd (mem_put mem_init (pkey ''b'') \<lparr>bk_name = ''b'', bk_quota_bytes = 10, bk_created_at = 0\<rparr>)"


lemma example_buckets_simps [simp]:
  "plain_inv example_buckets"
  "plain_view example_buckets ''b'' = Some \<lparr>bk_name = ''b'', bk_quota_bytes = 10, bk_created_at = 0\<rparr>"
  by (simp_all add: example_buckets_def mem_put_pkey plain_inv_def plain_view_def mem_init_def dict_ok_def)


text \<open>
  A negative size buys room. The handler does not refuse a negative \<open>total_size\<close>: it is
  charged to the bucket as it is, so that afterwards a record larger than the whole quota is
  accepted. (Bucket \<open>b\<close> has a quota of 10: 100 octets are refused, -90 are accepted, and then
  100 are accepted under another name.)
\<close>

definition other_request :: command where
  "other_request = (example_request 100)\<lparr>envelope := JObj [(''name'', JStr ''b/y''), (''version'', JInt 1),
     (''total_size'', JInt 100), (''chunk_bytes'', JInt 4)]\<rparr>"

theorem negative_size_defeats_quota:
  "let reg = handle_data_register (node_env (\<lambda>_. None) ''/srv'') mem_backend (Some example_buckets) ''tcp://x'' 0;
       st1 = fst (snd (reg (example_request (- 90)) example_state));
       st2 = fst (snd (reg other_request st1))
   in \<not> cr_ok (the_ok (fst (reg other_request example_state))) \<and>
      cr_ok (the_ok (fst (reg (example_request (- 90)) example_state))) \<and>
      cr_ok (the_ok (fst (reg other_request st1)))"
proof -
  have get: "mem_get example_buckets (pkey ''b'') = Ok (Some \<lparr>bk_name = ''b'', bk_quota_bytes = 10, bk_created_at = 0\<rparr>)"
    using mem_get_pkey [of example_buckets "''b''"] by simp
  show ?thesis
    by (simp add: handle_data_register_def example_request_def other_request_def parse_data_register_def json_str_def
        exact_int_def opt_res_def check_bucket_quota_def bucket_get_def bucket_of_def get list_records_def bucket_used_def
        mem_values_def mem_init_def data_register_def total_chunks_for_def key_types_def mem_put_ckey Let_def result_ok_def
        mark_completed_if_first_time_def from_error_meta_def)
qed


context data_store
begin

lemma store_chunks_cache:
  assumes "state_ok st" "cview (ds_catalog st) (name, v) = Some r" "dr_kind r = ''fs''"
    "store_chunks E name v data cb now r is st = (Ok r', st', evs)"
    "\<And>i. bok (chunk_path name v i)"
    "\<And>i. i \<in> set is \<Longrightarrow> 0 \<le> i \<and> i < dr_total_chunks r \<and>
       expected_chunk_len (dr_total_size r) (dr_chunk_bytes r) i = Ok (int (length (slice data (i * cb) cb)))"
  shows "ds_hash_cache st' = ds_hash_cache st"
  using assms(1,2,4,6)
proof (induction "is" arbitrary: st evs)
  case (Cons i "is")
  obtain st1 evs1 where s1: "store_chunk E name v i (slice data (i * cb) cb) now st = (Ok r, st1, evs1)"
    "state_ok st1" "ds_catalog st1 = ds_catalog st"
    using store_chunk_ok [OF Cons.prems(1,2) assms(3) _ _ assms(5)] Cons.prems(4) [of i] by (metis list.set_intros(1))
  have "ds_hash_cache st1 = ds_hash_cache st"
    by (rule store_chunk_event(2) [OF Cons.prems(1,2) assms(3) s1(1)])
  moreover obtain evs2 where "store_chunks E name v data cb now r is st1 = (Ok r', st', evs2)"
    using Cons.prems(3) s1(1) by (auto split: prod.splits)
  ultimately show ?case using Cons.IH [of st1] s1 Cons.prems by auto
qed simp

end


context data_store
begin

text \<open>A status of a completely stored record takes the hash from the cache when it is there.\<close>

lemma status_from_cache:
  assumes "state_ok st" "cview (ds_catalog st) (name, v) = Some r" "dr_kind r = ''fs''"
    "0 \<le> dr_total_chunks r" "dr_name r = name" "dr_version r = v" "\<And>i. bok (chunk_path name v i)"
    "\<forall>i \<in> set (chunk_indices (dr_total_chunks r)). bview (fs_blob st) (chunk_path name v i) \<noteq> None"
    "map_of (ds_hash_cache st) (name, v) = Some (h, ok)"
  shows "\<exists>s. data_status_of E name v st = (Ok s, st) \<and> st_computed_hash s = Some h \<and> st_hash_verified s = Some ok"
proof -
  note b = fs_blob_ok [OF assms(1)]
  have "filter (\<lambda>i. b_exists (de_blob E) (fs_blob st) (chunk_path (dr_name r) (dr_version r) i) = Ok True)
      (chunk_indices (dr_total_chunks r)) = chunk_indices (dr_total_chunks r)"
    using b assms(5-8) by (intro filter_True) (simp add: blob.exists)
  then have "present_chunks E st r = chunk_indices (dr_total_chunks r)"
    using b assms(3) by (simp add: present_chunks_def)
  moreover have "int (length (chunk_indices (dr_total_chunks r))) = dr_total_chunks r"
    using assms(4) by (simp add: chunk_indices_def)
  ultimately show ?thesis
    using get_record_view [OF assms(1)] assms(2,3,9) kind_fs by (simp add: data_status_of_def Let_def cached_hash_def)
qed

lemma stale_hash:
  assumes ok: "state_ok st" and cb: "0 < cb" and paths: "\<And>i. bok (chunk_path name v i)"
    and cache: "map_of (ds_hash_cache st) (name, v) = Some (old, verified)"
  shows "\<exists>r st' evs s. register_and_store E name v fmt ''fs'' data now cb h algo st = (Ok r, st', evs) \<and>
    data_status_of E name v st' = (Ok s, st') \<and> st_computed_hash s = Some old \<and> st_hash_verified s = Some verified"
proof -
  obtain r st1 evs1 where reg: "data_register E name v fmt ''fs'' (int (length data)) cb now h algo st = (Ok r, st1, evs1)"
    "state_ok st1" "cview (ds_catalog st1) = (cview (ds_catalog st))((name, v) \<mapsto> r)" "dr_kind r = ''fs''"
    "dr_total_size r = int (length data)" "dr_chunk_bytes r = cb"
    "total_chunks_for (int (length data)) cb = Ok (dr_total_chunks r)"
    using register_ok [OF ok, of cb name v fmt "int (length data)" now h algo] cb by blast
  have r: "dr_name r = name" "dr_version r = v" by (rule data_register_catalog [OF reg(1)])+
  have cache1: "ds_hash_cache st1 = ds_hash_cache st"
    using reg(1) by (auto simp: data_register_def Let_def mark_completed_if_first_time_def split: res.splits prod.splits if_splits)
  have n0: "0 \<le> dr_total_chunks r"
    using total_chunks_bounds(1) [OF cb _ reg(7)] total_chunks_zero [of "int (length data)" cb] reg(7)
    by (cases "0 < int (length data)") auto
  have idx: "0 \<le> i \<and> i < dr_total_chunks r \<and>
       expected_chunk_len (dr_total_size r) cb i = Ok (int (length (slice data (i * cb) cb)))"
    if "i \<in> set (chunk_indices (dr_total_chunks r))" for i
  proof -
    from that have i: "0 \<le> i" "i < dr_total_chunks r" by (simp_all add: mem_chunk_indices)
    moreover have "data \<noteq> []" using i reg(7) by (auto simp: total_chunks_for_def)
    ultimately show ?thesis using expected_slice [OF cb _ reg(7)] reg(5) by simp
  qed
  have rec1: "cview (ds_catalog st1) (name, v) = Some r" using reg(3) by simp
  obtain st2 evs2 where s2: "store_chunks E name v data cb now r (chunk_indices (dr_total_chunks r)) st1 = (Ok r, st2, evs2)"
    "state_ok st2" "ds_catalog st2 = ds_catalog st1"
    "\<forall>i \<in> set (chunk_indices (dr_total_chunks r)).
       bview (fs_blob st2) (chunk_path name v i) = Some (slice data (i * cb) cb)"
    using store_chunks_ok [OF reg(2) rec1 reg(4,6) paths idx] by blast
  have cache2: "map_of (ds_hash_cache st2) (name, v) = Some (old, verified)"
    using store_chunks_cache [OF reg(2) rec1 reg(4) s2(1) paths] idx cache1 cache by (simp add: reg(6))
  have rec2: "cview (ds_catalog st2) (name, v) = Some r" using rec1 s2(3) by simp
  obtain s where "data_status_of E name v st2 = (Ok s, st2)" "st_computed_hash s = Some old" "st_hash_verified s = Some verified"
    using status_from_cache [OF s2(2) rec2 reg(4) n0 r paths _ cache2] s2(4) by auto
  then show ?thesis using reg(1) s2(1) by (auto simp: register_and_store_def)
qed

end

text \<open>
  A stale hash survives re-registration. When the hash of a name and version is in the cache
  and the name and version are registered again with other content, the status of the new,
  complete record reports the old content's hash and verdict, whatever the new content is.
\<close>

theorem reregistered_hash_is_stale:
  assumes "cat_inv (ds_catalog st)" "map_of (ds_blobs st) ''fs'' = Some tree" "dict_ok tree"
    "clean_path name" "0 < chunk_bytes" "map_of (ds_hash_cache st) (name, version) = Some (old, verified)"
  shows "\<exists>r st' evs s. register_and_store (node_env H root) name version format ''fs'' data now chunk_bytes h algo st
      = (Ok r, st', evs) \<and> data_status_of (node_env H root) name version st' = (Ok s, st') \<and>
      st_computed_hash s = Some old \<and> st_hash_verified s = Some verified"
proof -
  have "node_data.state_ok st" using assms(1-3) by (simp add: node_data.state_ok_def)
  then show ?thesis
    by (rule node_data.stale_hash [OF _ assms(5) clean_chunk_path [OF assms(4)] assms(6)])
qed

lemma reregistered_hash_is_stale_witness:
  "\<exists>r st' evs s. register_and_store (node_env (\<lambda>_. None) ''/srv'') ''d'' 1 ''raw'' ''fs'' ''new'' 0 2 None ''sha256''
      (example_state\<lparr>ds_hash_cache := [((''d'', 1), (''h-of-old'', True))]\<rparr>) = (Ok r, st', evs) \<and>
    data_status_of (node_env (\<lambda>_. None) ''/srv'') ''d'' 1 st' = (Ok s, st') \<and>
    st_computed_hash s = Some ''h-of-old'' \<and> st_hash_verified s = Some True"
  by (rule reregistered_hash_is_stale [of _ "[]"]) (simp_all add: clean_path_def clean_segment_def plain_segment_def)

end
