(* ===== verification/Base64.thy ===== *)
theory Base64
  imports Json
begin

text \<open>
  \<open>base64.b64encode\<close> and \<open>base64.b64decode\<close>, which carry octets inside the JSON texts of the
  program. The decoder follows the interpreter's scanner: characters outside the alphabet are
  skipped, enough padding ends the text, and a text that stops inside a group of four
  characters is an error (\<open>binascii.Error\<close>, a \<open>ValueError\<close>).
\<close>

definition b64_char :: "nat \<Rightarrow> char" where
  "b64_char n =
    (if n < 26 then char_of (65 + n) else if n < 52 then char_of (71 + n)
     else if n < 62 then char_of (n - 4) else if n = 62 then CHR ''+'' else CHR ''/'')"

definition b64_val :: "char \<Rightarrow> nat option" where
  "b64_val c =
    (let n = of_char c :: nat
     in if 65 \<le> n \<and> n \<le> 90 then Some (n - 65)
        else if 97 \<le> n \<and> n \<le> 122 then Some (n - 71)
        else if 48 \<le> n \<and> n \<le> 57 then Some (n + 4)
        else if n = 43 then Some 62 else if n = 47 then Some 63 else None)"

abbreviation ord :: "char \<Rightarrow> nat" where
  "ord \<equiv> of_char"

fun b64encode :: "bytes \<Rightarrow> string" where
  "b64encode [] = []"
| "b64encode [a] = [b64_char (ord a div 4), b64_char (ord a mod 4 * 16), CHR ''='', CHR ''='']"
| "b64encode [a, b] =
    [b64_char (ord a div 4), b64_char (ord a mod 4 * 16 + ord b div 16), b64_char (ord b mod 16 * 4), CHR ''='']"
| "b64encode (a # b # c # s) =
    b64_char (ord a div 4) # b64_char (ord a mod 4 * 16 + ord b div 16) #
    b64_char (ord b mod 16 * 4 + ord c div 64) # b64_char (ord c mod 64) # b64encode s"

text \<open>The scanner: position in the group of four, the bits left over, the padding seen.\<close>

fun b64_scan :: "nat \<Rightarrow> nat \<Rightarrow> nat \<Rightarrow> string \<Rightarrow> bytes option" where
  "b64_scan q left pads [] = (if q = 0 then Some [] else None)"
| "b64_scan q left pads (c # s) =
    (if c = CHR ''='' then
       (if 2 \<le> q \<and> 4 \<le> q + pads + 1 then Some []
        else b64_scan q left (if 2 \<le> q then pads + 1 else pads) s)
     else
       (case b64_val c of
          None \<Rightarrow> b64_scan q left pads s
        | Some v \<Rightarrow>
            (if q = 0 then b64_scan 1 v 0 s
             else if q = 1 then map_option ((#) (char_of (left * 4 + v div 16))) (b64_scan 2 (v mod 16) 0 s)
             else if q = 2 then map_option ((#) (char_of (left * 16 + v div 4))) (b64_scan 3 (v mod 4) 0 s)
             else map_option ((#) (char_of (left * 64 + v))) (b64_scan 0 0 0 s))))"

definition b64decode :: "string \<Rightarrow> bytes res" where
  "b64decode s =
    (if \<exists>c \<in> set s. 128 \<le> ord c then Raise ValueError
     else (case b64_scan 0 0 0 s of Some b \<Rightarrow> Ok b | None \<Rightarrow> Raise ValueError))"

lemma b64_alphabet:
  "list_all (\<lambda>n. b64_val (b64_char n) = Some n \<and> ord (b64_char n) < 128 \<and> ord (b64_char n) \<noteq> 61) [0..<64]"
  by (simp add: b64_char_def b64_val_def Let_def upt_rec)

lemma b64_char_simps [simp]:
  assumes "n < 64"
  shows "b64_val (b64_char n) = Some n" "b64_char n \<noteq> CHR ''=''" "ord (b64_char n) < 128"
proof -
  have n: "b64_val (b64_char n) = Some n \<and> ord (b64_char n) < 128 \<and> ord (b64_char n) \<noteq> 61"
    using b64_alphabet assms by (simp add: list_all_iff)
  then show "b64_val (b64_char n) = Some n" "ord (b64_char n) < 128" by simp_all
  show "b64_char n \<noteq> CHR ''=''"
  proof
    assume "b64_char n = CHR ''=''"
    then have "ord (b64_char n) = 61" by simp
    with n show False by simp
  qed
qed

lemma ord_small [simp]: "ord c div 4 < 64" "ord c div 16 < 16" "ord c div 64 < 4"
  using of_char_less [of c] by (simp_all add: div_less_iff_less_mult)

lemma b64_parts [simp]:
  "ord a mod 4 * 16 < 64" "ord a mod 4 * 16 + ord b div 16 < 64"
  "ord b mod 16 * 4 < 64" "ord b mod 16 * 4 + ord c div 64 < 64"
proof -
  have "ord a mod 4 \<le> 3" "ord b mod 16 \<le> 15" by simp_all
  then show "ord a mod 4 * 16 < 64" "ord a mod 4 * 16 + ord b div 16 < 64"
    "ord b mod 16 * 4 < 64" "ord b mod 16 * 4 + ord c div 64 < 64"
    using ord_small(2) [of b] ord_small(3) [of c] by linarith+
qed

lemma b64_join [simp]:
  "char_of (ord a div 4 * 4 + (ord a mod 4 * 16 + ord b div 16) div 16) = a"
  "char_of ((ord a mod 4 * 16 + ord b div 16) mod 16 * 16 + (ord b mod 16 * 4 + ord c div 64) div 4) = b"
  "char_of ((ord b mod 16 * 4 + ord c div 64) mod 4 * 64 + ord c mod 64) = c"
  "char_of (ord a div 4 * 4 + ord a mod 4 * 16 div 16) = a"
  "char_of ((ord a mod 4 * 16 + ord b div 16) mod 16 * 16 + ord b mod 16 * 4 div 4) = b"
proof -
  note small = ord_small(2) [of b] ord_small(3) [of c]
  have a1: "(ord a mod 4 * 16 + ord b div 16) div 16 = ord a mod 4" using small(1) by simp
  have a2: "(ord a mod 4 * 16 + ord b div 16) mod 16 = ord b div 16" using small(1) by simp
  have b1: "(ord b mod 16 * 4 + ord c div 64) div 4 = ord b mod 16" using small(2) by simp
  have b2: "(ord b mod 16 * 4 + ord c div 64) mod 4 = ord c div 64" using small(2) by simp
  show "char_of (ord a div 4 * 4 + (ord a mod 4 * 16 + ord b div 16) div 16) = a"
    "char_of ((ord a mod 4 * 16 + ord b div 16) mod 16 * 16 + (ord b mod 16 * 4 + ord c div 64) div 4) = b"
    "char_of ((ord b mod 16 * 4 + ord c div 64) mod 4 * 64 + ord c mod 64) = c"
    "char_of (ord a div 4 * 4 + ord a mod 4 * 16 div 16) = a"
    "char_of ((ord a mod 4 * 16 + ord b div 16) mod 16 * 16 + ord b mod 16 * 4 div 4) = b"
    by (simp_all add: a1 a2 b1 b2)
qed

lemma b64_scan_encode: "b64_scan 0 0 0 (b64encode b) = Some b"
  by (induction b rule: b64encode.induct) simp_all

lemma b64encode_ascii: "c \<in> set (b64encode b) \<Longrightarrow> ord c < 128"
  by (induction b rule: b64encode.induct) auto

lemma b64decode_encode [simp]: "b64decode (b64encode b) = Ok b"
  using b64encode_ascii [of _ b] b64_scan_encode [of b] by (force simp: b64decode_def)

end
