(* ===== verification/Sync.thy ===== *)
theory Sync
  imports Event_Bus Buckets Base64
begin

text \<open>
  The bridges between the registries and the replication (\<open>core/consensus/registry_sync.py\<close>,
  \<open>data_sync.py\<close>, \<open>bucket_sync.py\<close>) and the handlers of the state pushes and pulls
  (\<open>service/handlers/state_sync_*.py\<close>, \<open>service/app.py\<close>). On the leader a bridge is subscribed
  to the events of its registry and marks the record's key dirty with the serialized record,
  or with a tombstone when the record was deleted; on a follower it writes the records of a
  push into the catalog.
\<close>

section \<open>Serialized records\<close>

definition serialize_function_record :: "function_record \<Rightarrow> json" where
  "serialize_function_record r = JObj
    [(''code_b64'', JStr (b64encode (fr_code r))), (''function_id'', JStr (fr_function_id r)),
     (''name'', JStr (fr_name r)), (''version'', JInt (fr_version r)),
     (''created_at'', JFloat (fr_created_at r)), (''state'', JStr (state_value (fr_state r))),
     (''runtime_spec'', json_opt spec_to_dict (fr_runtime_spec r)),
     (''code_format'', JStr (fr_code_format r)),
     (''params_schema'', params_schema_to_list (fr_params_schema r))]"

text \<open>\<open>d[k]\<close> of a decoded object.\<close>

definition jitem :: "(string, json) dict \<Rightarrow> string \<Rightarrow> json res" where
  "jitem d k = (case map_of d k of None \<Rightarrow> Raise KeyError | Some v \<Rightarrow> Ok v)"

definition json_state :: "json \<Rightarrow> function_state res" where
  "json_state j =
    (case j of JStr s \<Rightarrow> (case state_of s of Some st \<Rightarrow> Ok st | None \<Rightarrow> Raise ValueError) | _ \<Rightarrow> Raise ValueError)"

definition deserialize_function_record :: "bytes \<Rightarrow> function_record res" where
  "deserialize_function_record blob =
    bind_res (loads_bytes blob) (\<lambda>j.
      case j of
        JObj d \<Rightarrow>
          bind_res (bind_res (bind_res (jitem d ''code_b64'') json_str) b64decode) (\<lambda>code.
          bind_res (bind_res (jitem d ''function_id'') json_str) (\<lambda>fid.
          bind_res (bind_res (jitem d ''name'') json_str) (\<lambda>name.
          bind_res (bind_res (jitem d ''version'') exact_int) (\<lambda>version.
          bind_res (bind_res (jitem d ''created_at'') json_float) (\<lambda>created_at.
          bind_res (bind_res (jitem d ''state'') json_state) (\<lambda>state.
          bind_res (if py_truthy (jget d ''runtime_spec'')
                    then bind_res (spec_from_dict (jget d ''runtime_spec'')) (\<lambda>s. Ok (Some s)) else Ok None) (\<lambda>spec.
          bind_res (json_str (dget d ''code_format'' (JStr ''cloudpickle''))) (\<lambda>fmt.
          bind_res (parse_params_schema (jget d ''params_schema'')) (\<lambda>ps.
            Ok \<lparr>fr_code = code, fr_function_id = fid, fr_name = name, fr_version = version,
                fr_created_at = created_at, fr_state = state, fr_runtime_spec = spec,
                fr_code_format = fmt, fr_params_schema = (if ps = [] then None else Some ps)\<rparr>)))))))))
      | _ \<Rightarrow> Raise TypeError)"

text \<open>\<open>dataclasses.asdict\<close> and the constructor applied to the decoded object.\<close>

definition serialize_data_record :: "data_record \<Rightarrow> json" where
  "serialize_data_record r = JObj
    [(''name'', JStr (dr_name r)), (''version'', JInt (dr_version r)), (''alias'', JStr (dr_alias r)),
     (''format'', JStr (dr_format r)), (''kind'', JStr (dr_kind r)), (''total_size'', JInt (dr_total_size r)),
     (''chunk_bytes'', JInt (dr_chunk_bytes r)), (''total_chunks'', JInt (dr_total_chunks r)),
     (''created_at'', JFloat (dr_created_at r)), (''declared_hash'', json_opt JStr (dr_declared_hash r)),
     (''content_hash_algo'', JStr (dr_content_hash_algo r))]"

definition data_fields :: "string list" where
  "data_fields = [''name'', ''version'', ''alias'', ''format'', ''kind'', ''total_size'', ''chunk_bytes'',
     ''total_chunks'', ''created_at'']"

definition deserialize_data_record :: "bytes \<Rightarrow> data_record res" where
  "deserialize_data_record blob =
    bind_res (loads_bytes blob) (\<lambda>j.
      case j of
        JObj d \<Rightarrow>
          (if (\<exists>k \<in> set data_fields. map_of d k = None) \<or>
              \<not> set (dkeys d) \<subseteq> set data_fields \<union> {''declared_hash'', ''content_hash_algo''}
           then Raise TypeError
           else
             bind_res (json_str (jget d ''name'')) (\<lambda>name.
             bind_res (exact_int (jget d ''version'')) (\<lambda>version.
             bind_res (json_str (jget d ''alias'')) (\<lambda>alias.
             bind_res (json_str (jget d ''format'')) (\<lambda>format.
             bind_res (json_str (jget d ''kind'')) (\<lambda>kind.
             bind_res (exact_int (jget d ''total_size'')) (\<lambda>total_size.
             bind_res (exact_int (jget d ''chunk_bytes'')) (\<lambda>chunk_bytes.
             bind_res (exact_int (jget d ''total_chunks'')) (\<lambda>total_chunks.
             bind_res (json_float (jget d ''created_at'')) (\<lambda>created_at.
             bind_res (opt_res json_str (jget d ''declared_hash'')) (\<lambda>declared_hash.
             bind_res (json_str (dget d ''content_hash_algo'' (JStr ''sha256''))) (\<lambda>algo.
               Ok \<lparr>dr_name = name, dr_version = version, dr_alias = alias, dr_format = format, dr_kind = kind,
                   dr_total_size = total_size, dr_chunk_bytes = chunk_bytes, dr_total_chunks = total_chunks,
                   dr_created_at = created_at, dr_declared_hash = declared_hash,
                   dr_content_hash_algo = algo\<rparr>))))))))))))
      | _ \<Rightarrow> Raise TypeError)"

definition serialize_data_bucket :: "data_bucket \<Rightarrow> json" where
  "serialize_data_bucket b = JObj
    [(''name'', JStr (bk_name b)), (''quota_bytes'', JInt (bk_quota_bytes b)),
     (''created_at'', JFloat (bk_created_at b))]"

definition deserialize_data_bucket :: "bytes \<Rightarrow> data_bucket res" where
  "deserialize_data_bucket blob =
    bind_res (loads_bytes blob) (\<lambda>j.
      case j of
        JObj d \<Rightarrow>
          (if set (dkeys d) \<noteq> {''name'', ''quota_bytes'', ''created_at''} then Raise TypeError
           else
             bind_res (json_str (jget d ''name'')) (\<lambda>name.
             bind_res (exact_int (jget d ''quota_bytes'')) (\<lambda>quota.
             bind_res (json_float (jget d ''created_at'')) (\<lambda>created_at.
               Ok \<lparr>bk_name = name, bk_quota_bytes = quota, bk_created_at = created_at\<rparr>))))
      | _ \<Rightarrow> Raise TypeError)"

text \<open>The two domains write out the same tombstone and the same test for it.\<close>

definition tombstone :: json where
  "tombstone = JObj [(''__tombstone__'', JBool True)]"

definition is_tombstone :: "bytes \<Rightarrow> bool res" where
  "is_tombstone blob =
    (case loads_bytes blob of
       Ok (JObj d) \<Rightarrow> Ok (dget d ''__tombstone__'' (JBool False) = JBool True)
     | Ok _ \<Rightarrow> Raise AttributeError
     | _ \<Rightarrow> Ok False)"

section \<open>A node\<close>

record ('f, 'c, 'b, 'k) node =
  nd_functions :: 'f
  nd_data :: "('c, 'b) data_state"
  nd_buckets :: 'k
  nd_tracker :: dirty_tracker
  nd_machine :: cluster_state

record ('f, 'c, 'b, 'k) node_backends =
  be_functions :: "('f, storage_key, function_record) backend"
  be_data :: "('c, 'b) data_env"
  be_buckets :: "('k, storage_key, data_bucket) backend"

section \<open>Leader side: events mark keys dirty\<close>

text \<open>\<open>event.payload["..."]\<close>; a payload that the registries did not write raises.\<close>

definition payload_key :: "string \<Rightarrow> event \<Rightarrow> (string \<times> int) res" where
  "payload_key id_field e =
    bind_res (bind_res (jitem (ev_payload e) id_field) json_str) (\<lambda>i.
    bind_res (bind_res (jitem (ev_payload e) ''version'') exact_int) (\<lambda>v. Ok (i, v)))"

definition exc_of :: "'a res \<Rightarrow> py_exc option" where
  "exc_of r = (case r of Ok _ \<Rightarrow> None | Err e \<Rightarrow> Some (PyRaised e) | Raise ex \<Rightarrow> Some ex)"

definition on_function_event :: "('f, 'c, 'b, 'k) node_backends \<Rightarrow> flt \<Rightarrow> ('f, 'c, 'b, 'k) node handler" where
  "on_function_event B now e n =
    (case payload_key ''function_id'' e of
       Ok p \<Rightarrow>
         (case b_get (be_functions B) (nd_functions n) (ckey p) of
            Ok (Some r) \<Rightarrow>
              (n\<lparr>nd_tracker := mark_function_dirty (colon_name (fst p) (snd p))
                    (dumps_bytes (serialize_function_record r)) now (nd_tracker n)\<rparr>, None)
          | Raise ex \<Rightarrow> (n, Some ex)
          | _ \<Rightarrow> (n, None))
     | r \<Rightarrow> (n, exc_of r))"

definition on_function_updated :: "('f, 'c, 'b, 'k) node_backends \<Rightarrow> flt \<Rightarrow> ('f, 'c, 'b, 'k) node handler" where
  "on_function_updated B now e n = on_function_event B now e n"

definition on_function_deleted :: "flt \<Rightarrow> ('f, 'c, 'b, 'k) node handler" where
  "on_function_deleted now e n =
    (case payload_key ''function_id'' e of
       Ok p \<Rightarrow> (n\<lparr>nd_tracker := mark_function_dirty (colon_name (fst p) (snd p)) (dumps_bytes tombstone) now
                    (nd_tracker n)\<rparr>, None)
     | r \<Rightarrow> (n, exc_of r))"

definition on_data_event :: "('f, 'c, 'b, 'k) node_backends \<Rightarrow> flt \<Rightarrow> ('f, 'c, 'b, 'k) node handler" where
  "on_data_event B now e n =
    (case payload_key ''data_id'' e of
       Ok p \<Rightarrow>
         (case b_get (de_catalog (be_data B)) (ds_catalog (nd_data n)) (ckey p) of
            Ok (Some r) \<Rightarrow>
              (n\<lparr>nd_tracker := mark_data_dirty (colon_name (fst p) (snd p))
                    (dumps_bytes (serialize_data_record r)) now (nd_tracker n)\<rparr>, None)
          | Raise ex \<Rightarrow> (n, Some ex)
          | _ \<Rightarrow> (n, None))
     | r \<Rightarrow> (n, exc_of r))"

definition on_data_deleted :: "flt \<Rightarrow> ('f, 'c, 'b, 'k) node handler" where
  "on_data_deleted now e n =
    (case payload_key ''data_id'' e of
       Ok p \<Rightarrow> (n\<lparr>nd_tracker := mark_data_dirty (colon_name (fst p) (snd p)) (dumps_bytes tombstone) now
                    (nd_tracker n)\<rparr>, None)
     | r \<Rightarrow> (n, exc_of r))"

definition on_bucket_event :: "('f, 'c, 'b, 'k) node_backends \<Rightarrow> flt \<Rightarrow> ('f, 'c, 'b, 'k) node handler" where
  "on_bucket_event B now e n =
    (case bind_res (jitem (ev_payload e) ''name'') json_str of
       Ok name \<Rightarrow>
         (case bucket_get (be_buckets B) name (nd_buckets n) of
            Ok (Some b) \<Rightarrow>
              (n\<lparr>nd_tracker := mark_bucket_dirty name (dumps_bytes (serialize_data_bucket b)) now (nd_tracker n)\<rparr>, None)
          | Raise ex \<Rightarrow> (n, Some ex)
          | _ \<Rightarrow> (n, None))
     | r \<Rightarrow> (n, exc_of r))"

text \<open>The subscriptions of the application; \<open>now\<close> is the clock the bridges read.\<close>

definition sync_bus :: "('f, 'c, 'b, 'k) node_backends \<Rightarrow> flt \<Rightarrow> ('f, 'c, 'b, 'k) node bus" where
  "sync_bus B now =
    subscribe ''BUCKET_REGISTERED'' (on_bucket_event B now)
   (subscribe ''DATA_DELETED'' (on_data_deleted now)
   (subscribe ''DATA_REGISTERED'' (on_data_event B now)
   (subscribe ''FUNCTION_DELETED'' (on_function_deleted now)
   (subscribe ''FUNCTION_UPDATED'' (on_function_updated B now)
   (subscribe (state_value REGISTERED) (on_function_event B now) bus_init)))))"

section \<open>Follower side: pushes are applied\<close>

text \<open>\<open>id, _, version_str = combined_key.rpartition(":")\<close> and \<open>int(version_str)\<close>.\<close>

definition split_key :: "string \<Rightarrow> string \<times> int res" where
  "split_key key =
    (case (case py_rpartition '':'' key of None \<Rightarrow> ([], key) | Some p \<Rightarrow> p) of
       (i, v) \<Rightarrow> (i, case py_int v of Some n \<Rightarrow> Ok n | None \<Rightarrow> Raise ValueError))"

fun apply_functions ::
  "('f, storage_key, function_record) backend \<Rightarrow> flt \<Rightarrow> (string, bytes) dict \<Rightarrow> 'f \<Rightarrow> ('f, unit) reg" where
  "apply_functions B now [] s = (Ok (), s, [])"
| "apply_functions B now ((key, blob) # changes) s =
    (case split_key key of (i, vr) \<Rightarrow>
     case bind_res vr (\<lambda>v. bind_res (is_tombstone blob) (\<lambda>dead. Ok (v, dead))) of
       Err e \<Rightarrow> (Err e, s, [])
     | Raise ex \<Rightarrow> (Raise ex, s, [])
     | Ok (v, True) \<Rightarrow>
         (case b_delete B s (ckey (i, v)) of
            (Raise ex, s) \<Rightarrow> (Raise ex, s, [])
          | (_, s) \<Rightarrow> apply_functions B now changes s)
     | Ok (v, False) \<Rightarrow>
         (case deserialize_function_record blob of
            Err e \<Rightarrow> (Err e, s, [])
          | Raise ex \<Rightarrow> (Raise ex, s, [])
          | Ok r \<Rightarrow>
              (case b_put B s (ckey (i, v)) r of
                 (Raise ex, s) \<Rightarrow> (Raise ex, s, [])
               | (_, s) \<Rightarrow>
                   (case apply_functions B now changes s of
                      (res, s, evs) \<Rightarrow> (res, s, fn_event ''FUNCTION_REPLICATED'' i (JInt v) now # evs)))))"

fun apply_data :: "('c, 'b) data_env \<Rightarrow> flt \<Rightarrow> (string, bytes) dict \<Rightarrow> ('c, 'b, unit) data_op" where
  "apply_data E now [] st = (Ok (), st, [])"
| "apply_data E now ((key, blob) # changes) st =
    (case split_key key of (i, vr) \<Rightarrow>
     case is_tombstone blob of
       Err e \<Rightarrow> (Err e, st, [])
     | Raise ex \<Rightarrow> (Raise ex, st, [])
     | Ok True \<Rightarrow>
         (case vr of
            Err e \<Rightarrow> (Err e, st, [])
          | Raise ex \<Rightarrow> (Raise ex, st, [])
          | Ok v \<Rightarrow>
              (case data_delete E i v now st of
                 (Raise ex, st, evs) \<Rightarrow> (Raise ex, st, evs)
               | (_, st, evs) \<Rightarrow> (case apply_data E now changes st of (res, st, evs') \<Rightarrow> (res, st, evs @ evs'))))
     | Ok False \<Rightarrow>
         (case bind_res (deserialize_data_record blob) (\<lambda>r. bind_res vr (\<lambda>v. Ok (r, v))) of
            Err e \<Rightarrow> (Err e, st, [])
          | Raise ex \<Rightarrow> (Raise ex, st, [])
          | Ok (r, v) \<Rightarrow>
              (case b_put (de_catalog E) (ds_catalog st) (ckey (i, v)) r of
                 (Raise ex, c) \<Rightarrow> (Raise ex, st\<lparr>ds_catalog := c\<rparr>, [])
               | (_, c) \<Rightarrow> apply_data E now changes (st\<lparr>ds_catalog := c\<rparr>))))"

fun apply_buckets :: "('k, storage_key, data_bucket) backend \<Rightarrow> (string, bytes) dict \<Rightarrow> 'k \<Rightarrow> unit res \<times> 'k" where
  "apply_buckets B [] s = (Ok (), s)"
| "apply_buckets B ((name, blob) # changes) s =
    (case deserialize_data_bucket blob of
       Err e \<Rightarrow> (Err e, s)
     | Raise ex \<Rightarrow> (Raise ex, s)
     | Ok b \<Rightarrow>
         (case b_put B s (pkey name) b of
            (Raise ex, s) \<Rightarrow> (Raise ex, s)
          | (_, s) \<Rightarrow> apply_buckets B changes s))"

text \<open>The three bridges one after the other; an exception in one ends the handler.\<close>

definition apply_incoming ::
  "('f, 'c, 'b, 'k) node_backends \<Rightarrow> flt \<Rightarrow> (string, bytes) dict \<Rightarrow> (string, bytes) dict \<Rightarrow> (string, bytes) dict \<Rightarrow>
   ('f, 'c, 'b, 'k) node \<Rightarrow> unit res \<times> ('f, 'c, 'b, 'k) node \<times> event list" where
  "apply_incoming B now fc dc bc n =
    (case apply_functions (be_functions B) now fc (nd_functions n) of
       (Ok _, f, evs) \<Rightarrow>
         (let n = n\<lparr>nd_functions := f\<rparr> in
          case apply_data (be_data B) now dc (nd_data n) of
            (Ok _, st, evs') \<Rightarrow>
              (let n = n\<lparr>nd_data := st\<rparr> in
               case apply_buckets (be_buckets B) bc (nd_buckets n) of
                 (r, k) \<Rightarrow> (r, n\<lparr>nd_buckets := k\<rparr>, evs @ evs'))
          | (r, st, evs') \<Rightarrow> (r, n\<lparr>nd_data := st\<rparr>, evs @ evs'))
     | (r, f, evs) \<Rightarrow> (r, n\<lparr>nd_functions := f\<rparr>, evs))"

definition stale_term :: "int \<Rightarrow> int \<Rightarrow> axo_error" where
  "stale_term t local_term = AxoErr StaleTermError
    (''push term '' @ str_int t @ '' is older than local term '' @ str_int local_term)"

definition parse_push :: "(string, json) dict \<Rightarrow> (int \<times> string set \<times> string set) res" where
  "parse_push d =
    bind_res (exact_int (dget d ''term'' (JInt 0))) (\<lambda>t.
    bind_res (id_set (dget d ''leader_ids'' (JList []))) (\<lambda>ls.
    bind_res (id_set (dget d ''members'' (JList []))) (\<lambda>ms. Ok (t, ls, ms))))"

definition handle_state_sync_push ::
  "('f, 'c, 'b, 'k) node_backends \<Rightarrow> flt \<Rightarrow> command \<Rightarrow> ('f, 'c, 'b, 'k) node \<Rightarrow>
   command_result res \<times> ('f, 'c, 'b, 'k) node \<times> event list" where
  "handle_state_sync_push B now c n =
    (case with_env c parse_push of
       Err e \<Rightarrow> (Err e, n, [])
     | Raise ex \<Rightarrow> (Raise ex, n, [])
     | Ok (t, ls, ms) \<Rightarrow>
         (let local_state = nd_machine n in
          if t < cs_term local_state then (Ok (from_error (stale_term t (cs_term local_state))), n, [])
          else
            (case decode_state_changes (payload c) of
               Err e \<Rightarrow> (Err e, n, [])
             | Raise ex \<Rightarrow> (Raise ex, n, [])
             | Ok (fc, dc, bc) \<Rightarrow>
                 (case apply_incoming B now fc dc bc (n\<lparr>nd_machine := merge_push t ls ms fc dc bc local_state\<rparr>) of
                    (Ok _, n, evs) \<Rightarrow> (Ok (result_ok []), n, evs)
                  | (Err e, n, evs) \<Rightarrow> (Err e, n, evs)
                  | (Raise ex, n, evs) \<Rightarrow> (Raise ex, n, evs)))))"

definition handle_state_sync_pull :: "('f, 'c, 'b, 'k) node \<Rightarrow> command_result res" where
  "handle_state_sync_pull n =
    bind_res (encode_cluster_state (nd_machine n)) (\<lambda>p. Ok ((result_ok [])\<lparr>cr_payload := p\<rparr>))"

text \<open>The catch-up of a node that discovers a peer; the reply is what forwarding the command gave.\<close>

definition pull_state_sync ::
  "('f, 'c, 'b, 'k) node_backends \<Rightarrow> flt \<Rightarrow> command_result res \<Rightarrow> ('f, 'c, 'b, 'k) node \<Rightarrow>
   unit res \<times> ('f, 'c, 'b, 'k) node \<times> event list" where
  "pull_state_sync B now reply n =
    (case reply of
       Raise ex \<Rightarrow> (Raise ex, n, [])
     | Err _ \<Rightarrow> (Ok (), n, [])
     | Ok r \<Rightarrow>
         (if \<not> cr_ok r \<or> cr_payload r = [] then (Ok (), n, [])
          else
            (case decode_cluster_state (cr_payload r) of
               Err e \<Rightarrow> (Err e, n, [])
             | Raise ex \<Rightarrow> (Raise ex, n, [])
             | Ok incoming \<Rightarrow>
                 (case apply_remote incoming (nd_machine n) of
                    (changed, m) \<Rightarrow>
                      (let n = n\<lparr>nd_machine := m\<rparr> in
                       if changed
                       then apply_incoming B now (cs_functions incoming) (cs_data incoming) (cs_buckets incoming) n
                       else (Ok (), n, []))))))"

text \<open>What an operation emitted is delivered to the bus of the node.\<close>

definition deliver :: "('f, 'c, 'b, 'k) node_backends \<Rightarrow> flt \<Rightarrow>
    'a \<times> ('f, 'c, 'b, 'k) node \<times> event list \<Rightarrow> 'a \<times> ('f, 'c, 'b, 'k) node" where
  "deliver B now res = (case res of (r, n, evs) \<Rightarrow> (r, emit_all (sync_bus B now) evs n))"


section \<open>Round trips\<close>

lemma py_rpartition_char: "c \<notin> set b \<Longrightarrow> py_rpartition [c] (a @ c # b) = Some (a, b)"
proof (induction a)
  case Nil
  have "py_rpartition [c] b = None" if "c \<notin> set b" for b
    using that by (induction b) auto
  with Nil show ?case by simp
qed simp

lemma split_colon_name [simp]: "split_key (colon_name i v) = (i, Ok v)"
proof -
  have "CHR '':'' \<notin> set (str_int v)" using str_int_chars [of "CHR '':''" v] by auto
  then have "py_rpartition '':'' (colon_name i v) = Some (i, str_int v)"
    using py_rpartition_char [of "CHR '':''" "str_int v" i] by (simp add: colon_name_def)
  then show ?thesis by (simp add: split_key_def)
qed

lemma colon_name_inject [simp]: "colon_name i v = colon_name j w \<longleftrightarrow> i = j \<and> v = w"
  by (metis prod.inject res.inject(1) split_colon_name)

text \<open>The records that JSON carries faithfully: defaults and variables are well-formed dictionaries.\<close>

definition sendable :: "function_record \<Rightarrow> bool" where
  "sendable r = (json_ok (serialize_function_record r) \<and> fr_params_schema r \<noteq> Some [])"

lemma spec_truthy [simp]: "py_truthy (spec_to_dict s)"
  by (simp add: spec_to_dict_def)

lemma json_state_value [simp]: "json_state (JStr (state_value st)) = Ok st"
  by (simp add: json_state_def)

lemma deserialize_function:
  assumes "sendable r"
  shows "deserialize_function_record (dumps_bytes (serialize_function_record r)) = Ok r"
proof -
  have "loads_bytes (dumps_bytes (serialize_function_record r)) = Ok (serialize_function_record r)"
    using assms by (intro loads_dumps) (simp add: sendable_def)
  moreover have "fr_params_schema r = None \<or> (\<exists>p ps. fr_params_schema r = Some (p # ps))"
    using assms by (cases "fr_params_schema r"; cases "the (fr_params_schema r)") (auto simp: sendable_def)
  ultimately show ?thesis
    by (cases "fr_runtime_spec r")
       (auto simp: deserialize_function_record_def serialize_function_record_def jitem_def jget_def dget_def
         json_str_def exact_int_def json_float_def json_opt_def)
qed

lemma json_ok_data [simp]: "json_ok (serialize_data_record r)"
  by (cases "dr_declared_hash r") (simp_all add: serialize_data_record_def json_opt_def)

lemma deserialize_data: "deserialize_data_record (dumps_bytes (serialize_data_record r)) = Ok r"
proof -
  have "loads_bytes (dumps_bytes (serialize_data_record r)) = Ok (serialize_data_record r)" by simp
  then show ?thesis
    by (cases "dr_declared_hash r")
       (simp_all add: deserialize_data_record_def serialize_data_record_def jget_def dget_def json_str_def
         exact_int_def json_float_def json_opt_def opt_res_def data_fields_def)
qed

lemma json_ok_bucket [simp]: "json_ok (serialize_data_bucket b)"
  by (simp add: serialize_data_bucket_def)

lemma deserialize_bucket: "deserialize_data_bucket (dumps_bytes (serialize_data_bucket b)) = Ok b"
proof -
  have "loads_bytes (dumps_bytes (serialize_data_bucket b)) = Ok (serialize_data_bucket b)" by simp
  then show ?thesis
    by (simp add: deserialize_data_bucket_def serialize_data_bucket_def jget_def dget_def json_str_def
        exact_int_def json_float_def)
qed

lemma json_ok_tombstone [simp]: "json_ok tombstone"
  by (simp add: tombstone_def)

lemma is_tombstone_simps [simp]:
  "is_tombstone (dumps_bytes tombstone) = Ok True"
  "sendable r \<Longrightarrow> is_tombstone (dumps_bytes (serialize_function_record r)) = Ok False"
  "is_tombstone (dumps_bytes (serialize_data_record d)) = Ok False"
proof -
  have 1: "loads_bytes (dumps_bytes tombstone) = Ok tombstone" by simp
  then show "is_tombstone (dumps_bytes tombstone) = Ok True"
    by (simp add: is_tombstone_def tombstone_def)
  have 2: "loads_bytes (dumps_bytes (serialize_data_record d)) = Ok (serialize_data_record d)" by simp
  then show "is_tombstone (dumps_bytes (serialize_data_record d)) = Ok False"
    by (simp add: is_tombstone_def serialize_data_record_def)
  assume "sendable r"
  then have "loads_bytes (dumps_bytes (serialize_function_record r)) = Ok (serialize_function_record r)"
    by (intro loads_dumps) (simp add: sendable_def)
  then show "is_tombstone (dumps_bytes (serialize_function_record r)) = Ok False"
    by (simp add: is_tombstone_def serialize_function_record_def)
qed

section \<open>What a push delivers\<close>

text \<open>The entry of a key in a push, given what the sender's catalog holds there.\<close>

definition function_blob :: "function_record option \<Rightarrow> bytes" where
  "function_blob x = dumps_bytes (case x of None \<Rightarrow> tombstone | Some r \<Rightarrow> serialize_function_record r)"

definition data_blob :: "data_record option \<Rightarrow> bytes" where
  "data_blob x = dumps_bytes (case x of None \<Rightarrow> tombstone | Some r \<Rightarrow> serialize_data_record r)"

definition keyed :: "('v option \<Rightarrow> bytes) \<Rightarrow> (string \<times> int \<Rightarrow> 'v option) \<Rightarrow> (string \<times> int) list \<Rightarrow> (string, bytes) dict" where
  "keyed blob src ps = map (\<lambda>p. (colon_name (fst p) (snd p), blob (src p))) ps"

definition overlay :: "'k list \<Rightarrow> ('k \<Rightarrow> 'v option) \<Rightarrow> ('k \<Rightarrow> 'v option) \<Rightarrow> 'k \<Rightarrow> 'v option" where
  "overlay ps src view p = (if p \<in> set ps then src p else view p)"

lemma overlay_Nil [simp]: "overlay [] src view = view"
  by (simp add: overlay_def fun_eq_iff)

lemma overlay_Cons: "overlay (p # ps) src view = overlay ps src (view(p := src p))"
  by (auto simp: overlay_def fun_eq_iff)

context function_catalog
begin

lemma apply_functions_delivers:
  assumes "inv s" "\<forall>p \<in> set ps. src p = None \<or> sendable (the (src p))"
  shows "\<exists>s' evs. apply_functions B now (keyed function_blob src ps) s = (Ok (), s', evs) \<and>
    inv s' \<and> view s' = overlay ps src (view s)"
  using assms
proof (induction ps arbitrary: s)
  case Nil
  then show ?case by (simp add: keyed_def)
next
  case (Cons p ps)
  show ?case
  proof (cases "src p")
    case None
    obtain t where t: "b_delete B s (ckey p) = (Ok (), t)" "inv t" "view t = (view s)(p := None)"
      using catalog_delete_ok [OF Cons.prems(1)] by blast
    from Cons.IH [OF t(2)] Cons.prems(2) obtain s' evs where
      "apply_functions B now (keyed function_blob src ps) t = (Ok (), s', evs)" "inv s'"
      "view s' = overlay ps src (view t)" by auto
    then show ?thesis using None t by (simp add: keyed_def function_blob_def overlay_Cons)
  next
    case (Some r)
    then have r: "sendable r" using Cons.prems(2) by simp
    obtain q t where t: "b_put B s (ckey p) r = (Ok q, t)" "inv t" "view t = (view s)(p \<mapsto> r)"
      using catalog_put_ok [OF Cons.prems(1)] by blast
    from Cons.IH [OF t(2)] Cons.prems(2) obtain s' evs where
      "apply_functions B now (keyed function_blob src ps) t = (Ok (), s', evs)" "inv s'"
      "view s' = overlay ps src (view t)" by auto
    then show ?thesis using Some t r by (simp add: keyed_def function_blob_def overlay_Cons deserialize_function)
  qed
qed

end

context data_store
begin

lemma data_delete_view:
  assumes "cinv (ds_catalog st)" "set (dkeys (ds_blobs st)) \<subseteq> {''fs''}"
  obtains r st' evs where "data_delete E i v now st = (r, st', evs)" "\<forall>ex. r \<noteq> Raise ex"
    "cinv (ds_catalog st')" "cview (ds_catalog st') = (cview (ds_catalog st))((i, v) := None)"
    "set (dkeys (ds_blobs st')) \<subseteq> {''fs''}"
proof -
  have get: "get_record E i v st = Ok (cview (ds_catalog st) (i, v))"
    using assms(1) by (simp add: get_record_def cat.get)
  show thesis
  proof (cases "cview (ds_catalog st) (i, v)")
    case None
    then have "(cview (ds_catalog st))((i, v) := None) = cview (ds_catalog st)" by auto
    then show thesis using that [of "Err (not_registered i v)" st "[]"] get None assms by (simp add: data_delete_def)
  next
    case (Some r)
    obtain c where del: "b_delete (de_catalog E) (ds_catalog st) (ckey (i, v)) = (Ok (), c)" "cinv c"
      "cview c = (cview (ds_catalog st))((i, v) := None)"
      using cat.catalog_delete_ok [OF assms(1)] by blast
    have "dr_kind r \<in> set key_types" if "map_of (ds_blobs st) (dr_kind r) \<noteq> None"
    proof -
      from that have "dr_kind r \<in> set (dkeys (ds_blobs st))" by (simp add: map_of_eq_None_iff)
      then show ?thesis using assms(2) by (auto simp: key_types_def)
    qed
    then show thesis
      using that get Some del assms(2)
      by (cases "map_of (ds_blobs st) (dr_kind r)")
         (auto simp: data_delete_def Let_def key_types_def)
  qed
qed

lemma apply_data_delivers:
  assumes "cinv (ds_catalog st)" "set (dkeys (ds_blobs st)) \<subseteq> {''fs''}"
  shows "\<exists>st' evs. apply_data E now (keyed data_blob src ps) st = (Ok (), st', evs) \<and>
    cinv (ds_catalog st') \<and> cview (ds_catalog st') = overlay ps src (cview (ds_catalog st))"
  using assms
proof (induction ps arbitrary: st)
  case Nil
  then show ?case by (simp add: keyed_def)
next
  case (Cons p ps)
  show ?case
  proof (cases "src p")
    case None
    obtain r t evs1 where t: "data_delete E (fst p) (snd p) now st = (r, t, evs1)" "\<forall>ex. r \<noteq> Raise ex"
      "cinv (ds_catalog t)" "cview (ds_catalog t) = (cview (ds_catalog st))(p := None)"
      "set (dkeys (ds_blobs t)) \<subseteq> {''fs''}"
      using data_delete_view [OF Cons.prems, of "fst p" "snd p" now] by (auto simp only: prod.collapse)
    from Cons.IH [OF t(3,5)] obtain st' evs where
      "apply_data E now (keyed data_blob src ps) t = (Ok (), st', evs)" "cinv (ds_catalog st')"
      "cview (ds_catalog st') = overlay ps src (cview (ds_catalog t))" by blast
    then show ?thesis using None t by (cases r) (simp_all add: keyed_def data_blob_def overlay_Cons)
  next
    case (Some r)
    obtain q c where t: "b_put (de_catalog E) (ds_catalog st) (ckey p) r = (Ok q, c)" "cinv c"
      "cview c = (cview (ds_catalog st))(p \<mapsto> r)"
      using cat.catalog_put_ok [OF Cons.prems(1)] by blast
    have "cinv (ds_catalog (st\<lparr>ds_catalog := c\<rparr>))" "set (dkeys (ds_blobs (st\<lparr>ds_catalog := c\<rparr>))) \<subseteq> {''fs''}"
      using t(2) Cons.prems(2) by simp_all
    from Cons.IH [OF this] obtain st' evs where
      "apply_data E now (keyed data_blob src ps) (st\<lparr>ds_catalog := c\<rparr>) = (Ok (), st', evs)" "cinv (ds_catalog st')"
      "cview (ds_catalog st') = overlay ps src (cview (ds_catalog (st\<lparr>ds_catalog := c\<rparr>)))" by blast
    then show ?thesis using Some t by (simp add: keyed_def data_blob_def overlay_Cons deserialize_data)
  qed
qed

end


definition keyed_buckets :: "(string \<Rightarrow> data_bucket) \<Rightarrow> string list \<Rightarrow> (string, bytes) dict" where
  "keyed_buckets src ns = map (\<lambda>n. (n, dumps_bytes (serialize_data_bucket (src n)))) ns"

lemma apply_buckets_delivers:
  assumes "plain_inv s"
  shows "\<exists>s'. apply_buckets mem_backend (keyed_buckets src ns) s = (Ok (), s') \<and>
    plain_inv s' \<and> plain_view s' = overlay ns (\<lambda>n. Some (src n)) (plain_view s)"
  using assms
proof (induction ns arbitrary: s)
  case Nil
  then show ?case by (simp add: keyed_buckets_def)
next
  case (Cons n ns)
  obtain q t where t: "b_put mem_backend s (pkey n) (src n) = (Ok q, t)" "plain_inv t"
    "plain_view t = (plain_view s)(n \<mapsto> src n)"
    using mem_plain.put [OF Cons.prems, of n "src n"] by (auto simp: fun_eq_iff)
  from Cons.IH [OF t(2)] obtain s' where
    "apply_buckets mem_backend (keyed_buckets src ns) t = (Ok (), s')" "plain_inv s'"
    "plain_view s' = overlay ns (\<lambda>n. Some (src n)) (plain_view t)" by blast
  then show ?case using t by (simp add: keyed_buckets_def overlay_Cons deserialize_bucket)
qed

lemma blobs_ok_keyed:
  assumes "distinct ps" "\<forall>p \<in> set ps. \<exists>j. json_ok j \<and> blob (src p) = dumps_bytes j"
  shows "blobs_ok (keyed blob src ps)"
proof -
  have "distinct (dkeys (keyed blob src ps))"
    using assms(1) by (induction ps) (auto simp: keyed_def image_iff prod_eq_iff)
  then show ?thesis using assms(2) by (auto simp: blobs_ok_def dict_ok_def keyed_def)
qed

lemma json_blobI: "json_ok v \<Longrightarrow> \<exists>j. json_ok j \<and> dumps_bytes v = dumps_bytes j"
  by blast

lemma blobs_ok_functions:
  "distinct ps \<Longrightarrow> \<forall>p \<in> set ps. src p = None \<or> sendable (the (src p)) \<Longrightarrow> blobs_ok (keyed function_blob src ps)"
proof (rule blobs_ok_keyed, assumption, rule ballI)
  fix p assume "\<forall>p \<in> set ps. src p = None \<or> sendable (the (src p))" "p \<in> set ps"
  then show "\<exists>j. json_ok j \<and> function_blob (src p) = dumps_bytes j"
    by (cases "src p") (auto simp: function_blob_def sendable_def intro!: json_blobI)
qed

lemma blobs_ok_data: "distinct ps \<Longrightarrow> blobs_ok (keyed data_blob src ps)"
  by (rule blobs_ok_keyed) (auto simp: data_blob_def split: option.splits intro!: json_blobI)

lemma blobs_ok_buckets: "distinct ns \<Longrightarrow> blobs_ok (keyed_buckets src ns)"
  by (auto simp: blobs_ok_def dict_ok_def keyed_buckets_def comp_def intro!: json_blobI)

section \<open>Properties\<close>

definition axo_backends :: "(string \<Rightarrow> (bytes \<Rightarrow> string) option) \<Rightarrow> string \<Rightarrow>
    (function_record mem, data_record mem, file_tree, data_bucket mem) node_backends" where
  "axo_backends H root = \<lparr>be_functions = mem_backend, be_data = node_env H root, be_buckets = mem_backend\<rparr>"

definition node_ok :: "(function_record mem, data_record mem, file_tree, data_bucket mem) node \<Rightarrow> bool" where
  "node_ok n = (cat_inv (nd_functions n) \<and> cat_inv (ds_catalog (nd_data n)) \<and> plain_inv (nd_buckets n) \<and>
     set (dkeys (ds_blobs (nd_data n))) \<subseteq> {''fs''})"

lemma apply_incoming_delivers:
  assumes "node_ok n" "\<forall>p \<in> set fps. fsrc p = None \<or> sendable (the (fsrc p))"
  shows "\<exists>n' evs. apply_incoming (axo_backends H root) now (keyed function_blob fsrc fps)
      (keyed data_blob dsrc dps) (keyed_buckets bsrc bns) n = (Ok (), n', evs) \<and>
    nd_machine n' = nd_machine n \<and> nd_tracker n' = nd_tracker n \<and>
    cat_view (nd_functions n') = overlay fps fsrc (cat_view (nd_functions n)) \<and>
    cat_view (ds_catalog (nd_data n')) = overlay dps dsrc (cat_view (ds_catalog (nd_data n))) \<and>
    plain_view (nd_buckets n') = overlay bns (\<lambda>b. Some (bsrc b)) (plain_view (nd_buckets n))"
proof -
  obtain f evs where f: "apply_functions mem_backend now (keyed function_blob fsrc fps) (nd_functions n) = (Ok (), f, evs)"
    "cat_view f = overlay fps fsrc (cat_view (nd_functions n))"
    using mem_functions.apply_functions_delivers [OF _ assms(2)] assms(1) unfolding node_ok_def by blast
  obtain st evs2 where d: "apply_data (node_env H root) now (keyed data_blob dsrc dps) (nd_data n) = (Ok (), st, evs2)"
    "cat_view (ds_catalog st) = overlay dps dsrc (cat_view (ds_catalog (nd_data n)))"
    using node_data.apply_data_delivers assms(1) unfolding node_ok_def by blast
  obtain k where b: "apply_buckets mem_backend (keyed_buckets bsrc bns) (nd_buckets n) = (Ok (), k)"
    "plain_view k = overlay bns (\<lambda>b. Some (bsrc b)) (plain_view (nd_buckets n))"
    using apply_buckets_delivers assms(1) unfolding node_ok_def by blast
  show ?thesis using f d b by (simp add: apply_incoming_def axo_backends_def Let_def)
qed

text \<open>The command that the leader's tick sends for a mutation.\<close>

definition push_command :: "int \<Rightarrow> string set \<Rightarrow> string set \<Rightarrow> (string, bytes) dict \<Rightarrow> (string, bytes) dict \<Rightarrow>
    (string, bytes) dict \<Rightarrow> command res" where
  "push_command t ls ms fc dc bc =
    bind_res (encode_state_changes fc dc bc) (\<lambda>p.
      Ok \<lparr>operation = ''STATE_SYNC_PUSH'', content_type = ''application/json'',
          envelope = JObj [(''term'', JInt t), (''leader_ids'', id_list ls), (''members'', id_list ms),
            (''function_keys'', JList (map JStr (dkeys fc))), (''data_keys'', JList (map JStr (dkeys dc))),
            (''bucket_keys'', JList (map JStr (dkeys bc)))], payload = p\<rparr>)"



definition empty_node :: "(function_record mem, data_record mem, file_tree, data_bucket mem) node" where
  "empty_node = \<lparr>nd_functions = mem_init, nd_data = data_init mem_init [(''fs'', [])], nd_buckets = mem_init,
     nd_tracker = tracker_init 10, nd_machine = cluster_state_init\<rparr>"

lemma empty_node_ok [simp]: "node_ok empty_node"
  by (simp add: node_ok_def empty_node_def data_init_def)

lemma sendable_record_example [simp]: "sendable record_example"
  by (simp add: sendable_def serialize_function_record_def record_example_def json_opt_def params_schema_to_list_def)


section \<open>The leader's registries mark what they change\<close>

definition on_functions :: "('f \<Rightarrow> ('f, 'a) reg) \<Rightarrow> ('f, 'c, 'b, 'k) node \<Rightarrow> 'a res \<times> ('f, 'c, 'b, 'k) node \<times> event list" where
  "on_functions op n = (case op (nd_functions n) of (r, f, evs) \<Rightarrow> (r, n\<lparr>nd_functions := f\<rparr>, evs))"

text \<open>The effects that a function command can have on the catalog, with the events that tell.\<close>

definition catalog_effect ::
  "function_record mem \<Rightarrow> function_record mem \<Rightarrow> event list \<Rightarrow> bool" where
  "catalog_effect s s' evs \<longleftrightarrow>
    (s' = s \<and> (\<forall>e \<in> set evs. ev_type e \<in> {''FUNCTION_REGISTER_FAILED'', ''FUNCTION_DELETE_FAILED''})) \<or>
    (\<exists>p y ty t. ty \<in> {state_value REGISTERED, ''FUNCTION_UPDATED''} \<and> evs = [fn_event ty (fst p) (JInt (snd p)) t] \<and>
       cat_inv s' \<and> cat_view s' = (cat_view s)(p \<mapsto> y)) \<or>
    (\<exists>p t. evs = [fn_event ''FUNCTION_DELETED'' (fst p) (JInt (snd p)) t] \<and>
       cat_inv s' \<and> cat_view s' = (cat_view s)(p := None))"

lemma effect_quiet:
  "\<forall>e \<in> set evs. ev_type e \<in> {''FUNCTION_REGISTER_FAILED'', ''FUNCTION_DELETE_FAILED''} \<Longrightarrow> catalog_effect s s evs"
  unfolding catalog_effect_def by blast

lemma effect_put:
  "ty \<in> {state_value REGISTERED, ''FUNCTION_UPDATED''} \<Longrightarrow> cat_inv s' \<Longrightarrow> cat_view s' = (cat_view s)(p \<mapsto> y) \<Longrightarrow>
   catalog_effect s s' [fn_event ty (fst p) (JInt (snd p)) t]"
  unfolding catalog_effect_def by blast

lemma effect_delete:
  "cat_inv s' \<Longrightarrow> cat_view s' = (cat_view s)(p := None) \<Longrightarrow>
   catalog_effect s s' [fn_event ''FUNCTION_DELETED'' (fst p) (JInt (snd p)) t]"
  unfolding catalog_effect_def by blast

lemma register_effect:
  assumes inv: "cat_inv s" and run: "handle_function_register mem_backend has_bus now c s = (r, s', evs)"
  shows "catalog_effect s s' evs"
proof (cases "\<exists>d fid name spec fmt schema. envelope c = JObj d \<and> py_truthy (jget d ''function_id'') \<and>
    py_truthy (jget d ''name'') \<and> parse_register d = Ok (fid, name, spec, fmt, schema)")
  case True
  then obtain d fid name spec fmt schema where p: "envelope c = JObj d" "py_truthy (jget d ''function_id'')"
    "py_truthy (jget d ''name'')" "parse_register d = Ok (fid, name, spec, fmt, schema)" by blast
  obtain q t es where reg: "register_function mem_backend fid name (payload c) now spec fmt schema s = (q, t, es)"
    by (metis prod_cases3)
  obtain v y where v: "q = Ok (ckey (fid, v))" "cat_inv t" "cat_view t = (cat_view s)((fid, v) \<mapsto> y)"
    "es = [fn_event ''REGISTERED'' fid (JInt v) now]"
    using mem_functions.register_cases [OF inv reg] by metis
  then have "s' = t" "evs = [fn_event (state_value REGISTERED) (fst (fid, v)) (JInt (snd (fid, v))) now]"
    using run p reg by (auto simp: handle_function_register_def)
  then show ?thesis using v effect_put by blast
next
  case False
  then have "s' = s" "evs = []"
    using run by (auto simp: handle_function_register_def split: json.splits if_splits res.splits)
  then show ?thesis by (simp add: effect_quiet)
qed

lemma update_effect:
  assumes inv: "cat_inv s" and run: "handle_function_update mem_backend now c s = (r, s', evs)"
  shows "catalog_effect s s' evs"
proof (cases "\<exists>d fid v schema env. envelope c = JObj d \<and> \<not> missing_ref d \<and> parse_update d = Ok (fid, v, schema, env)")
  case True
  then obtain d fid v schema env where p: "envelope c = JObj d" "\<not> missing_ref d" "parse_update d = Ok (fid, v, schema, env)"
    by blast
  obtain q t es where upd: "update_function mem_backend (ckey (fid, v)) now schema env s = (q, t, es)"
    by (metis prod_cases3)
  note cs = mem_functions.replace_record_cases [OF inv upd [unfolded update_function_def]]
  have "s' = t" "evs = es" using run p upd by (auto simp: handle_function_update_def split: res.splits)
  moreover have "(t = s \<and> es = []) \<or> (\<exists>y. cat_inv t \<and> cat_view t = (cat_view s)((fid, v) \<mapsto> y) \<and>
      es = [fn_event ''FUNCTION_UPDATED'' (fst (fid, v)) (JInt (snd (fid, v))) now])"
    using cs by auto
  ultimately show ?thesis using effect_put [of "''FUNCTION_UPDATED''" s' s "(fid, v)"] effect_quiet [of "[]" s]
    by (metis empty_iff empty_set insertCI)
next
  case False
  then have "s' = s" "evs = []"
    using run by (auto simp: handle_function_update_def split: json.splits if_splits res.splits)
  then show ?thesis by (simp add: effect_quiet)
qed

lemma delete_effect:
  assumes inv: "cat_inv s" and run: "handle_function_delete mem_backend has_bus now c s = (r, s', evs)"
  shows "catalog_effect s s' evs"
proof (cases "\<exists>d fid v. envelope c = JObj d \<and> \<not> missing_ref d \<and> parse_ref d = Ok (fid, v)")
  case True
  then obtain d fid v where p: "envelope c = JObj d" "\<not> missing_ref d" "parse_ref d = Ok (fid, v)" by blast
  obtain q t es where del: "delete_function mem_backend (ckey (fid, v)) now s = (q, t, es)" by (metis prod_cases3)
  from mem_functions.delete_cases [OF inv del]
  consider "q = Err (no_record (ckey (fid, v)))" "t = s" "es = []"
    | "q = Ok (ckey (fid, v))" "cat_inv t" "cat_view t = (cat_view s)((fid, v) := None)"
      "es = [fn_event ''FUNCTION_DELETED'' (fst (fid, v)) (JInt (snd (fid, v))) now]"
    by blast
  then show ?thesis
  proof cases
    case 1
    then have "s' = s" "\<forall>e \<in> set evs. ev_type e \<in> {''FUNCTION_REGISTER_FAILED'', ''FUNCTION_DELETE_FAILED''}"
      using run p del by (auto simp: handle_function_delete_def Let_def split: if_splits)
    then show ?thesis by (simp add: effect_quiet)
  next
    case 2
    then have "s' = t" "evs = es" using run p del by (auto simp: handle_function_delete_def)
    then show ?thesis using 2 effect_delete by blast
  qed
next
  case False
  then have "s' = s" "evs = []"
    using run by (auto simp: handle_function_delete_def split: json.splits if_splits res.splits)
  then show ?thesis by (simp add: effect_quiet)
qed


lemma payload_key_fn [simp]: "payload_key ''function_id'' (fn_event ty i (JInt v) t) = Ok (i, v)"
  by (simp add: payload_key_def fn_event_def jitem_def json_str_def exact_int_def)

lemma ev_type_fn [simp]: "ev_type (fn_event ty i v t) = ty"
  by (simp add: fn_event_def)

lemma emit_put:
  assumes "cat_inv (nd_functions n)" "cat_view (nd_functions n) p = Some y"
    "ty \<in> {state_value REGISTERED, ''FUNCTION_UPDATED''}"
  shows "fst (emit (sync_bus (axo_backends H root) now) (fn_event ty (fst p) (JInt (snd p)) t) n) =
    n\<lparr>nd_tracker := mark_function_dirty (colon_name (fst p) (snd p)) (function_blob (Some y)) now (nd_tracker n)\<rparr>"
  using assms mem_get_ckey [of "nd_functions n" p]
  by (auto simp: emit_def sync_bus_def on_function_event_def on_function_updated_def axo_backends_def function_blob_def)

lemma emit_delete:
  "fst (emit (sync_bus (axo_backends H root) now) (fn_event ''FUNCTION_DELETED'' (fst p) (JInt (snd p)) t) n) =
    n\<lparr>nd_tracker := mark_function_dirty (colon_name (fst p) (snd p)) (function_blob None) now (nd_tracker n)\<rparr>"
  by (auto simp: emit_def sync_bus_def on_function_deleted_def function_blob_def)

lemma emit_failures:
  "\<forall>e \<in> set evs. ev_type e \<in> {''FUNCTION_REGISTER_FAILED'', ''FUNCTION_DELETE_FAILED''} \<Longrightarrow>
   emit_all (sync_bus B now) evs n = n"
proof (induction evs)
  case (Cons e evs)
  then have "ev_type e = ''FUNCTION_REGISTER_FAILED'' \<or> ev_type e = ''FUNCTION_DELETE_FAILED''" by simp
  then have "fst (emit (sync_bus B now) e n) = n" by (auto simp: emit_def sync_bus_def)
  with Cons show ?case by simp
qed simp

lemma effect_marks:
  assumes "catalog_effect f f' evs" "n' = emit_all (sync_bus (axo_backends H root) now) evs (n\<lparr>nd_functions := f'\<rparr>)"
  shows "nd_functions n' = f' \<and>
    ((cat_view f' p = cat_view f p \<and>
      map_of (pending_functions (nd_tracker n')) (colon_name (fst p) (snd p)) =
      map_of (pending_functions (nd_tracker n)) (colon_name (fst p) (snd p))) \<or>
     map_of (pending_functions (nd_tracker n')) (colon_name (fst p) (snd p)) = Some (function_blob (cat_view f' p)))"
  using assms(1) [unfolded catalog_effect_def]
proof (elim disjE exE conjE)
  assume "f' = f" "\<forall>e \<in> set evs. ev_type e \<in> {''FUNCTION_REGISTER_FAILED'', ''FUNCTION_DELETE_FAILED''}"
  then show ?thesis using assms(2) emit_failures [of evs "axo_backends H root" now "n\<lparr>nd_functions := f'\<rparr>"] by simp
next
  fix q y ty t
  assume *: "ty \<in> {state_value REGISTERED, ''FUNCTION_UPDATED''}" "evs = [fn_event ty (fst q) (JInt (snd q)) t]"
    "cat_inv f'" "cat_view f' = (cat_view f)(q \<mapsto> y)"
  have "n' = n\<lparr>nd_functions := f', nd_tracker := mark_function_dirty (colon_name (fst q) (snd q)) (function_blob (Some y)) now (nd_tracker n)\<rparr>"
    using assms(2) emit_put [of "n\<lparr>nd_functions := f'\<rparr>" q y ty H root now t] * by simp
  then show ?thesis using *(4) by (auto simp: mark_function_dirty_def prod_eq_iff)
next
  fix q t
  assume *: "evs = [fn_event ''FUNCTION_DELETED'' (fst q) (JInt (snd q)) t]" "cat_inv f'"
    "cat_view f' = (cat_view f)(q := None)"
  have "n' = n\<lparr>nd_functions := f', nd_tracker := mark_function_dirty (colon_name (fst q) (snd q)) (function_blob None) now (nd_tracker n)\<rparr>"
    using assms(2) emit_delete [of H root now q t "n\<lparr>nd_functions := f'\<rparr>"] * by simp
  then show ?thesis using *(3) by (auto simp: mark_function_dirty_def prod_eq_iff)
qed

text \<open>
  C24: Every change of the function registry is pending for replication. Whatever function
  command a leader handles, with whatever request, afterwards each name and version either is
  as before, in the catalog and in the tracker, or its pending entry is the serialized record
  that the catalog now holds, a tombstone when it holds none.
\<close>

theorem function_changes_are_pending:
  assumes "cat_inv (nd_functions n)"
    and "op \<in> {handle_function_register mem_backend True t c, handle_function_update mem_backend t c,
      handle_function_delete mem_backend True t c}"
    and "deliver (axo_backends H root) now (on_functions op n) = (r, n')"
  shows "(cat_view (nd_functions n') p = cat_view (nd_functions n) p \<and>
      map_of (pending_functions (nd_tracker n')) (colon_name (fst p) (snd p)) =
      map_of (pending_functions (nd_tracker n)) (colon_name (fst p) (snd p))) \<or>
     map_of (pending_functions (nd_tracker n')) (colon_name (fst p) (snd p)) =
      Some (function_blob (cat_view (nd_functions n') p))"
proof -
  obtain q f' evs where run: "op (nd_functions n) = (q, f', evs)" by (metis prod_cases3)
  have "catalog_effect (nd_functions n) f' evs"
    using assms(2) register_effect [OF assms(1)] update_effect [OF assms(1)] delete_effect [OF assms(1)] run
    by (metis empty_iff insert_iff)
  moreover have "n' = emit_all (sync_bus (axo_backends H root) now) evs (n\<lparr>nd_functions := f'\<rparr>)"
    using assms(3) run by (simp add: deliver_def on_functions_def)
  ultimately show ?thesis using effect_marks by metis
qed

lemma function_changes_are_pending_witness:
  "let c = \<lparr>operation = ''FUNCTION_REGISTER'', content_type = [],
         envelope = JObj [(''function_id'', JStr ''f''), (''name'', JStr ''n'')], payload = ''code''\<rparr>;
       n' = snd (deliver (axo_backends (\<lambda>_. None) ''/srv'') 7
              (on_functions (handle_function_register mem_backend True 5 c) empty_node))
   in (cat_view (nd_functions n') (''f'', 1) = cat_view (nd_functions empty_node) (''f'', 1) \<and>
       map_of (pending_functions (nd_tracker n')) (colon_name ''f'' 1) =
       map_of (pending_functions (nd_tracker empty_node)) (colon_name ''f'' 1)) \<or>
      map_of (pending_functions (nd_tracker n')) (colon_name ''f'' 1) =
      Some (function_blob (cat_view (nd_functions n') (''f'', 1)))"
  unfolding Let_def
  by (rule function_changes_are_pending [where p = "(''f'', 1)", unfolded fst_conv snd_conv, OF _ insertI1 prod.collapse [symmetric]])
     (simp add: empty_node_def)

end
