(* ===== verification/Results.thy ===== *)
theory Results
  imports Sync
begin

text \<open>
  The outcome of a job (\<open>axo_endpoint/core/results/envelope.py\<close>) and its bytes on the wire.
  The value a function returned is either JSON, which travels in the record, or bytes, which are
  registered as a dataset and named by a reference.
\<close>

section \<open>The record\<close>

record function_result =
  jr_job_id :: string
  jr_ok :: bool
  jr_output :: "(string, json) dict"
  jr_refs :: "(string, storage_key) dict"
  jr_error :: string
  jr_duration_ms :: "flt option"
  jr_warnings :: "string list"

text \<open>The constructor with its defaults.\<close>

definition bare_result :: "string \<Rightarrow> bool \<Rightarrow> string \<Rightarrow> function_result" where
  "bare_result job is_fine err = \<lparr>jr_job_id = job, jr_ok = is_fine, jr_output = [], jr_refs = [],
     jr_error = err, jr_duration_ms = None, jr_warnings = []\<rparr>"

text \<open>A returned value, as far as the code tells values apart: a decoded JSON value, bytes, another object.\<close>

datatype py_value = VJson json | VBytes bytes | VObject bytes

text \<open>
  \<open>is_json_safe_value\<close>: scalars, lists and dictionaries with text keys all the way down are the
  values of \<open>json\<close>; anything else is not safe.
\<close>

definition is_json_safe_value :: "py_value \<Rightarrow> bool" where
  "is_json_safe_value v = (case v of VJson _ \<Rightarrow> True | _ \<Rightarrow> False)"

section \<open>The bytes\<close>

definition refs_json :: "(string, storage_key) dict \<Rightarrow> json" where
  "refs_json refs = JObj (map (\<lambda>(k, v). (k, JStr (to_str v))) refs)"

definition result_json :: "function_result \<Rightarrow> json" where
  "result_json r = JObj
    [(''job_id'', JStr (jr_job_id r)), (''ok'', JBool (jr_ok r)), (''output'', JObj (jr_output r)),
     (''refs'', refs_json (jr_refs r)), (''error'', JStr (jr_error r)),
     (''duration_ms'', json_opt JFloat (jr_duration_ms r)),
     (''warnings'', JList (map JStr (jr_warnings r)))]"

definition encode_function_result :: "function_result \<Rightarrow> bytes" where
  "encode_function_result r = dumps_bytes (result_json r)"

definition json_bool :: "json \<Rightarrow> bool res" where
  "json_bool j = (case j of JBool b \<Rightarrow> Ok b | _ \<Rightarrow> Raise TypeError)"

definition json_dict :: "json \<Rightarrow> (string, json) dict res" where
  "json_dict j = (case j of JObj d \<Rightarrow> Ok d | _ \<Rightarrow> Raise TypeError)"

fun decode_refs :: "(string \<times> json) list \<Rightarrow> (string, storage_key) dict res" where
  "decode_refs [] = Ok []"
| "decode_refs ((k, v) # d) =
    bind_res (bind_res (json_str v) from_str) (\<lambda>key.
    bind_res (decode_refs d) (\<lambda>refs. Ok ((k, key) # refs)))"

definition decode_function_result :: "bytes \<Rightarrow> function_result res" where
  "decode_function_result data =
    bind_res (bind_res (loads_bytes data) json_dict) (\<lambda>d.
    bind_res (bind_res (jitem d ''job_id'') json_str) (\<lambda>job.
    bind_res (bind_res (jitem d ''ok'') json_bool) (\<lambda>is_fine.
    bind_res (json_dict (dget d ''output'' (JObj []))) (\<lambda>output.
    bind_res (bind_res (json_dict (dget d ''refs'' (JObj []))) decode_refs) (\<lambda>refs.
    bind_res (json_str (dget d ''error'' (JStr []))) (\<lambda>err.
    bind_res (opt_res json_float (jget d ''duration_ms'')) (\<lambda>duration_ms.
    bind_res (json_str_list (dget d ''warnings'' (JList []))) (\<lambda>warnings.
      Ok \<lparr>jr_job_id = job, jr_ok = is_fine, jr_output = output, jr_refs = refs, jr_error = err,
          jr_duration_ms = duration_ms, jr_warnings = warnings\<rparr>))))))))"

text \<open>The results that the bytes carry faithfully.\<close>

definition result_sendable :: "function_result \<Rightarrow> bool" where
  "result_sendable r =
    (json_ok (JObj (jr_output r)) \<and> dict_ok (jr_refs r) \<and> list_all key_ok (dvalues (jr_refs r)))"

lemma decode_refs_map:
  "list_all key_ok (dvalues refs) \<Longrightarrow> decode_refs (map (\<lambda>(k, v). (k, JStr (to_str v))) refs) = Ok refs"
  by (induction refs) (auto simp: json_str_def from_str_to_str)

lemma json_strings_JStr [simp]: "json_strings (map JStr xs) = Some xs"
  by (induction xs) simp_all

lemma json_ok_result: "result_sendable r \<Longrightarrow> json_ok (result_json r)"
proof -
  assume r: "result_sendable r"
  have "json_ok (refs_json (jr_refs r))"
    using r by (auto simp: refs_json_def result_sendable_def dict_ok_def list_all_iff comp_def case_prod_beta)
  then show ?thesis
    using r by (cases "jr_duration_ms r")
      (auto simp: result_json_def result_sendable_def json_opt_def list_all_iff)
qed

lemma result_roundtrip:
  assumes "result_sendable r"
  shows "decode_function_result (encode_function_result r) = Ok r"
proof -
  have "decode_refs (map (\<lambda>(k, v). (k, JStr (to_str v))) (jr_refs r)) = Ok (jr_refs r)"
    using assms by (intro decode_refs_map) (simp add: result_sendable_def)
  moreover have "opt_res json_float (json_opt JFloat (jr_duration_ms r)) = Ok (jr_duration_ms r)" by simp
  ultimately show ?thesis
    using json_ok_result [OF assms]
    by (simp add: decode_function_result_def encode_function_result_def result_json_def refs_json_def
        jitem_def jget_def json_dict_def json_bool_def json_str_def json_str_list_def dget_def)
qed

end
