(* ===== verification/Router.thy ===== *)
theory Router
  imports Results
begin

text \<open>
  The command dispatcher (\<open>dispatch/in_memory_dispatcher.py\<close>), the router that serves requests and
  pushes the results of finished jobs (\<open>service/transport/router_server.py\<close>), and a request sent to
  another node (\<open>App._forward_command\<close>). A handler changes the state \<open>'w\<close> of its node and may
  raise; the dispatcher turns an exception into a failed result, the router's thread dies of it.
  The other threads' items in the dispatcher's queue, the identities of the clients and the
  behaviour of the network are arguments.
\<close>

type_synonym 'w command_handler = "command \<Rightarrow> 'w \<Rightarrow> command_result res \<times> 'w"

section \<open>The dispatcher\<close>

record 'w dispatcher =
  dp_handlers :: "(string, 'w command_handler) dict"
  dp_closed :: bool
  dp_max_queue_size :: int
  dp_submitted :: nat
  dp_completed :: nat
  dp_failed :: nat

definition dispatcher_init :: "int \<Rightarrow> 'w dispatcher" where
  "dispatcher_init max_queue_size = \<lparr>dp_handlers = [], dp_closed = False,
     dp_max_queue_size = max_queue_size, dp_submitted = 0, dp_completed = 0, dp_failed = 0\<rparr>"

definition register_handler :: "string \<Rightarrow> 'w command_handler \<Rightarrow> 'w dispatcher \<Rightarrow> 'w dispatcher" where
  "register_handler op h dp = dp\<lparr>dp_handlers := dput op h (dp_handlers dp)\<rparr>"

definition close_dispatcher :: "'w dispatcher \<Rightarrow> 'w dispatcher" where
  "close_dispatcher dp = dp\<lparr>dp_closed := True\<rparr>"

text \<open>A queue without a positive bound is never full.\<close>

definition queue_full :: "'w dispatcher \<Rightarrow> nat \<Rightarrow> bool" where
  "queue_full dp waiting = (0 < dp_max_queue_size dp \<and> dp_max_queue_size dp \<le> int waiting)"

text \<open>One item on a worker thread: an exception of the handler is its text in a failed result.\<close>

definition run_worker_item :: "'w command_handler \<Rightarrow> command \<Rightarrow> 'w \<Rightarrow> command_result \<times> 'w" where
  "run_worker_item h c w =
    (case h c w of
       (Ok r, w') \<Rightarrow> (r, w')
     | (Err e, w') \<Rightarrow> (result_text (err_msg e), w')
     | (Raise ex, w') \<Rightarrow> (result_text (exc_text ex), w'))"

definition submit_command ::
  "nat \<Rightarrow> command \<Rightarrow> 'w dispatcher \<Rightarrow> 'w \<Rightarrow> command_result \<times> 'w dispatcher \<times> 'w" where
  "submit_command waiting c dp w =
    (if dp_closed dp then (from_error (AxoErr DispatcherClosedError ''dispatcher is closed''), dp, w)
     else
       (case map_of (dp_handlers dp) (operation c) of
          None \<Rightarrow> (from_error (AxoErr UnknownOperationError
                     (''no handler registered for '' @ quoted (operation c))), dp, w)
        | Some h \<Rightarrow>
            (if queue_full dp waiting
             then (from_error (AxoErr QueueFullError ''queue is at capacity''), dp, w)
             else
               (case run_worker_item h c w of
                  (r, w') \<Rightarrow>
                    (r, (if cr_ok r then dp\<lparr>dp_submitted := dp_submitted dp + 1, dp_completed := dp_completed dp + 1\<rparr>
                         else dp\<lparr>dp_submitted := dp_submitted dp + 1, dp_failed := dp_failed dp + 1\<rparr>), w')))))"

definition dispatcher_metrics :: "nat \<Rightarrow> 'w dispatcher \<Rightarrow> (string, json) dict" where
  "dispatcher_metrics waiting dp =
    [(''submitted'', JInt (int (dp_submitted dp))), (''completed'', JInt (int (dp_completed dp))),
     (''failed'', JInt (int (dp_failed dp))), (''queue_depth'', JInt (int waiting))]"

text \<open>Every submission that was queued is counted once more, as completed or as failed.\<close>

definition dispatcher_balanced :: "'w dispatcher \<Rightarrow> bool" where
  "dispatcher_balanced dp = (dp_submitted dp = dp_completed dp + dp_failed dp)"

lemma dispatcher_balanced_submit:
  assumes "dispatcher_balanced dp"
  shows "dispatcher_balanced (fst (snd (submit_command n c dp w)))"
  using assms by (auto simp: dispatcher_balanced_def submit_command_def split: prod.splits option.splits)

lemma submit_unserved:
  assumes "dp_closed dp \<or> map_of (dp_handlers dp) (operation c) = None \<or> queue_full dp n"
  shows "snd (submit_command n c dp w) = (dp, w)" "\<not> cr_ok (fst (submit_command n c dp w))"
  using assms by (auto simp: submit_command_def from_error_meta_def split: prod.splits option.splits)

section \<open>The router\<close>

record 'w router =
  ro_direct :: "(string, 'w command_handler) dict"
  ro_dispatcher :: "'w dispatcher"
  ro_identities :: "(string, bytes) dict"

text \<open>
  What one request comes to: the frames sent back, if any, or the exception that ends the thread.
\<close>

datatype served = Reply "bytes list" | No_Reply | Router_Dead py_exc

definition send_frames :: "command_result \<Rightarrow> served" where
  "send_frames r =
    (case encode_command_result r of Ok f \<Rightarrow> Reply f | Err e \<Rightarrow> Router_Dead (PyRaised e) | Raise ex \<Rightarrow> Router_Dead ex)"

definition dispatch_command ::
  "nat \<Rightarrow> command \<Rightarrow> 'w router \<Rightarrow> 'w \<Rightarrow> command_result res \<times> 'w router \<times> 'w" where
  "dispatch_command waiting c ro w =
    (case map_of (ro_direct ro) (operation c) of
       Some h \<Rightarrow> (case h c w of (r, w') \<Rightarrow> (r, ro, w'))
     | None \<Rightarrow>
         (case submit_command waiting c (ro_dispatcher ro) w of
            (r, dp, w') \<Rightarrow> (Ok r, ro\<lparr>ro_dispatcher := dp\<rparr>, w')))"

text \<open>The client of a submitted job is remembered, and forgotten once it has polled a final result.\<close>

definition track_identity ::
  "bytes \<Rightarrow> command \<Rightarrow> command_result \<Rightarrow> (string, bytes) dict \<Rightarrow> (string, bytes) dict res" where
  "track_identity identity c r ids =
    (if operation c = ''JOB_SUBMIT'' \<and> cr_ok r then
       bind_res (env_get (cr_metadata r) ''job_id'') (\<lambda>j.
         if py_truthy j then bind_res (json_str j) (\<lambda>job. Ok (dput job identity ids)) else Ok ids)
     else if operation c = ''JOB_RESULT'' \<and> cr_ok r then
       bind_res (env_get (cr_metadata r) ''status'') (\<lambda>st.
         if st \<in> {JStr ''COMPLETED'', JStr ''FAILED''} then
           bind_res (env_get (envelope c) ''job_id'') (\<lambda>j.
             if py_truthy j then bind_res (json_str j) (\<lambda>job. Ok (dpop job ids)) else Ok ids)
         else Ok ids)
     else Ok ids)"

definition handle_request ::
  "nat \<Rightarrow> bytes \<Rightarrow> bytes list \<Rightarrow> 'w router \<Rightarrow> 'w \<Rightarrow> served \<times> 'w router \<times> 'w" where
  "handle_request waiting identity body ro w =
    (case decode_command body of
       Err e \<Rightarrow> (No_Reply, ro, w)
     | Raise ex \<Rightarrow> (Router_Dead ex, ro, w)
     | Ok c \<Rightarrow>
         (case dispatch_command waiting c ro w of
            (Err e, ro, w) \<Rightarrow> (Router_Dead (PyRaised e), ro, w)
          | (Raise ex, ro, w) \<Rightarrow> (Router_Dead ex, ro, w)
          | (Ok r, ro, w) \<Rightarrow>
              (case track_identity identity c r (ro_identities ro) of
                 Err e \<Rightarrow> (Router_Dead (PyRaised e), ro, w)
               | Raise ex \<Rightarrow> (Router_Dead ex, ro, w)
               | Ok ids \<Rightarrow> (send_frames r, ro\<lparr>ro_identities := ids\<rparr>, w))))"

text \<open>
  The subscriber of \<open>JOB_COMPLETED\<close> and \<open>JOB_FAILED\<close>: one message to the client that submitted
  the job, if the router still knows it.
\<close>

definition push_result :: "json \<Rightarrow> function_result \<Rightarrow> command_result" where
  "push_result job r = (result_ok
     [(''job_id'', job), (''status'', JStr (if jr_ok r then ''COMPLETED'' else ''FAILED'')),
      (''output'', JObj (jr_output r)), (''refs'', refs_json (jr_refs r)),
      (''duration_ms'', json_opt JFloat (jr_duration_ms r)),
      (''warnings'', JList (map JStr (jr_warnings r))), (''pushed'', JBool True)])
     \<lparr>cr_ok := jr_ok r, cr_error := jr_error r\<rparr>"

definition on_job_event ::
  "('s, storage_key, function_result) backend \<Rightarrow> 's \<Rightarrow> event \<Rightarrow> (string, bytes) dict \<Rightarrow>
   (bytes \<times> command_result) option res \<times> (string, bytes) dict" where
  "on_job_event B results e ids =
    (let job = jget (ev_payload e) ''job_id'' in
     if job = JNull then (Ok None, ids)
     else
       (case json_str job of
          Err e \<Rightarrow> (Err e, ids)
        | Raise ex \<Rightarrow> (Raise ex, ids)
        | Ok j \<Rightarrow>
            (case map_of ids j of
               None \<Rightarrow> (Ok None, ids)
             | Some identity \<Rightarrow>
                 (let ids = dpop j ids in
                  (case b_get B results (pkey j) of
                     Err _ \<Rightarrow> (Ok None, ids)
                   | Raise ex \<Rightarrow> (Raise ex, ids)
                   | Ok None \<Rightarrow> (Ok None, ids)
                   | Ok (Some r) \<Rightarrow> (Ok (Some (identity, push_result job r)), ids))))))"

text \<open>A client is sent the result of a job at most once: the push forgets it.\<close>

lemma push_cases:
  assumes "on_job_event B s e ids = (Ok (Some (identity, r)), ids')"
  obtains j where "jget (ev_payload e) ''job_id'' = JStr j" "map_of ids j = Some identity" "ids' = dpop j ids"
proof -
  obtain j where j: "jget (ev_payload e) ''job_id'' = JStr j"
    using assms by (cases "jget (ev_payload e) ''job_id''") (simp_all add: on_job_event_def json_str_def)
  moreover obtain i where i: "map_of ids j = Some i"
    using assms j by (cases "map_of ids j") (simp_all add: on_job_event_def json_str_def)
  ultimately show thesis
    using assms that by (auto simp: on_job_event_def json_str_def Let_def split: res.splits option.splits)
qed

lemma push_forgets:
  assumes "on_job_event B s e ids = (Ok (Some (identity, r)), ids')"
  shows "fst (on_job_event B s' e ids') = Ok None"
proof -
  obtain j where "jget (ev_payload e) ''job_id'' = JStr j" "ids' = dpop j ids"
    using push_cases [OF assms] by blast
  then show ?thesis by (simp add: on_job_event_def json_str_def)
qed

section \<open>A request to another node\<close>

text \<open>What the network does to one exchange.\<close>

datatype link = Delivered | Reply_Lost | Dropped

definition timed_out :: "string \<Rightarrow> axo_error" where
  "timed_out uri = AxoErr WireError (''timed out waiting for reply from '' @ uri)"

text \<open>
  The request goes out as frames, the node at the other end serves it on its state \<open>'w\<close>, and the
  reply comes back as frames. Without a reply the poll times out.
\<close>

definition forward_command ::
  "link \<Rightarrow> string \<Rightarrow> nat \<Rightarrow> command \<Rightarrow> 'w router \<Rightarrow> 'w \<Rightarrow> command_result res \<times> 'w router \<times> 'w" where
  "forward_command l uri waiting c ro w =
    (if l = Dropped then (Err (timed_out uri), ro, w)
     else
       (case handle_request waiting [] (encode_command c) ro w of
          (Reply frames, ro, w) \<Rightarrow>
            (if l = Delivered then decode_command_result frames else Err (timed_out uri), ro, w)
        | (_, ro, w) \<Rightarrow> (Err (timed_out uri), ro, w)))"

text \<open>A request that is served is served through the wire, whether or not its answer comes back.\<close>

lemma forward_served:
  assumes "dispatch_command n c ro w = (Ok r, ro', w')" "json_ok (envelope c)" "l \<noteq> Dropped"
    "operation c \<notin> {''JOB_SUBMIT'', ''JOB_RESULT''}" "cr_metadata r = JObj d" "json_ok (JObj d)"
  shows "forward_command l uri n c ro w =
    (if l = Delivered
     then Ok (r\<lparr>cr_error_code := 0, cr_error_name := [], cr_metadata := JObj (wire_metadata r d)\<rparr>)
     else Err (timed_out uri), ro', w')"
proof -
  obtain f where f: "encode_command_result r = Ok f"
    "decode_command_result f =
       Ok (r\<lparr>cr_error_code := 0, cr_error_name := [], cr_metadata := JObj (wire_metadata r d)\<rparr>)"
    using decode_encode_result [OF assms(5,6)] .
  have "track_identity [] c r (ro_identities ro') = Ok (ro_identities ro')"
    using assms(4) by (simp add: track_identity_def)
  then have "handle_request n [] (encode_command c) ro w = (Reply f, ro', w')"
    using assms(1,2) f(1) by (simp add: handle_request_def decode_encode_command send_frames_def)
  then show ?thesis using assms(3) f(2) by (simp add: forward_command_def)
qed

lemma dispatch_direct:
  "map_of (ro_direct ro) (operation c) = Some h \<Longrightarrow> h c w = (r, w') \<Longrightarrow> dispatch_command n c ro w = (r, ro, w')"
  by (simp add: dispatch_command_def)

lemma dispatch_queued:
  assumes "map_of (ro_direct ro) (operation c) = None" "map_of (dp_handlers (ro_dispatcher ro)) (operation c) = Some h"
    "\<not> dp_closed (ro_dispatcher ro)" "\<not> queue_full (ro_dispatcher ro) n" "h c w = (Ok r, w')"
  shows "\<exists>ro'. dispatch_command n c ro w = (Ok r, ro', w')"
  using assms by (auto simp: dispatch_command_def submit_command_def run_worker_item_def)

end
