(* ===== verification/Result_Sync.thy ===== *)
theory Result_Sync
  imports Router
begin

text \<open>
  The replication of job results (\<open>core/consensus/result_consistency.py\<close>,
  \<open>service/handlers/job_result_sync.py\<close>, \<open>service/handlers/consistency_check_request.py\<close>): the executor
  sends a result to the leader, the leader stores it and sends it to every other node, and a
  sweeper on the leader sends what it knows again. The hash of the payload is an argument.
\<close>

section \<open>Retries\<close>

text \<open>
  \<open>push_with_retry\<close> on the attempts still to be made: an attempt changes the world and says whether
  it succeeded, or raises. The waits are returned in order.
\<close>

fun push_attempts ::
  "('w \<Rightarrow> bool res \<times> 'w) \<Rightarrow> int \<Rightarrow> flt \<Rightarrow> nat list \<Rightarrow> 'w \<Rightarrow> bool res \<times> 'w \<times> flt list" where
  "push_attempts attempt_fn max_retries base [] w = (Ok False, w, [])"
| "push_attempts attempt_fn max_retries base (i # is) w =
    (case attempt_fn w of
       (Ok True, w) \<Rightarrow> (Ok True, w, [])
     | (Ok False, w) \<Rightarrow>
         (case push_attempts attempt_fn max_retries base is w of
            (r, w, sleeps) \<Rightarrow>
              (r, w, (if int i < max_retries - 1 then [base * 2 ^ i] else []) @ sleeps))
     | (r, w) \<Rightarrow> (r, w, []))"

definition push_with_retry ::
  "('w \<Rightarrow> bool res \<times> 'w) \<Rightarrow> int \<Rightarrow> flt \<Rightarrow> 'w \<Rightarrow> bool res \<times> 'w \<times> flt list" where
  "push_with_retry attempt_fn max_retries base w =
    push_attempts attempt_fn max_retries base [0..<nat (max 1 max_retries)] w"

section \<open>What a node knows of its copies\<close>

record consistency_store =
  co_state :: "(string, string) dict"
  co_hash :: "(string, string) dict"

definition consistency_init :: consistency_store where
  "consistency_init = \<lparr>co_state = [], co_hash = []\<rparr>"

definition mark_synced :: "string \<Rightarrow> string \<Rightarrow> consistency_store \<Rightarrow> consistency_store" where
  "mark_synced job h co = co\<lparr>co_state := dput job ''synced'' (co_state co), co_hash := dput job h (co_hash co)\<rparr>"

definition mark_inconsistent :: "string \<Rightarrow> consistency_store \<Rightarrow> consistency_store" where
  "mark_inconsistent job co = co\<lparr>co_state := dput job ''inconsistent'' (co_state co)\<rparr>"

definition consistency_state :: "string \<Rightarrow> consistency_store \<Rightarrow> string option" where
  "consistency_state job co = map_of (co_state co) job"

definition consistency_hash :: "string \<Rightarrow> consistency_store \<Rightarrow> string option" where
  "consistency_hash job co = map_of (co_hash co) job"

definition all_job_ids :: "consistency_store \<Rightarrow> string list" where
  "all_job_ids co = dkeys (co_state co)"

section \<open>The handlers\<close>

record 's copies =
  cp_results :: 's
  cp_known :: consistency_store

type_synonym 's result_backend = "('s, storage_key, function_result) backend"

definition result_hash_mismatch :: axo_error where
  "result_hash_mismatch = AxoErr ResultHashMismatchError ''result payload hash mismatch''"

definition result_command :: "string \<Rightarrow> string \<Rightarrow> string \<Rightarrow> bytes \<Rightarrow> command" where
  "result_command op job h p = \<lparr>operation = op, content_type = ''application/octet-stream'',
     envelope = JObj [(''job_id'', JStr job), (''hash'', JStr h)], payload = p\<rparr>"

text \<open>
  What both receivers share: the fields, the hash, and the copy; \<open>on_mismatch\<close> is what the receiver
  does about a payload that was damaged.
\<close>

definition receive_result ::
  "'s result_backend \<Rightarrow> (bytes \<Rightarrow> string) \<Rightarrow> (string \<Rightarrow> consistency_store \<Rightarrow> consistency_store) \<Rightarrow> command \<Rightarrow>
   's copies \<Rightarrow> (command_result + string) res \<times> 's copies" where
  "receive_result B sha on_mismatch c n =
    (case with_env c (\<lambda>d. Ok (jget d ''job_id'', jget d ''hash'')) of
       Err e \<Rightarrow> (Err e, n)
     | Raise ex \<Rightarrow> (Raise ex, n)
     | Ok (j, h) \<Rightarrow>
         (if \<not> py_truthy j \<or> \<not> py_truthy h
          then (Ok (Inl (from_error (missing_error ''job_id and hash are required''))), n)
          else
            (case json_str j of
               Err e \<Rightarrow> (Err e, n)
             | Raise ex \<Rightarrow> (Raise ex, n)
             | Ok job \<Rightarrow>
                 (if JStr (sha (payload c)) \<noteq> h
                  then (Ok (Inl (from_error result_hash_mismatch)), n\<lparr>cp_known := on_mismatch job (cp_known n)\<rparr>)
                  else
                    (case decode_function_result (payload c) of
                       Err e \<Rightarrow> (Err e, n)
                     | Raise ex \<Rightarrow> (Raise ex, n)
                     | Ok r \<Rightarrow>
                         (case b_put B (cp_results n) (pkey job) r of
                            (Raise ex, s) \<Rightarrow> (Raise ex, n\<lparr>cp_results := s\<rparr>)
                          | (_, s) \<Rightarrow>
                              (Ok (Inr job),
                               n\<lparr>cp_results := s, cp_known := mark_synced job (sha (payload c)) (cp_known n)\<rparr>)))))))"

definition handle_result_replicate ::
  "'s result_backend \<Rightarrow> (bytes \<Rightarrow> string) \<Rightarrow> 's copies command_handler" where
  "handle_result_replicate B sha c n =
    (case receive_result B sha mark_inconsistent c n of
       (Ok (Inl r), n) \<Rightarrow> (Ok r, n)
     | (Ok (Inr _), n) \<Rightarrow> (Ok (result_ok []), n)
     | (Err e, n) \<Rightarrow> (Err e, n)
     | (Raise ex, n) \<Rightarrow> (Raise ex, n))"

text \<open>The other nodes are a world \<open>'w\<close> that a forwarded command changes.\<close>

type_synonym 'w forward_fn = "string \<Rightarrow> command \<Rightarrow> 'w \<Rightarrow> command_result res \<times> 'w"

definition push_to_peer ::
  "'w forward_fn \<Rightarrow> command \<Rightarrow> string \<Rightarrow> 'w \<Rightarrow> bool res \<times> 'w" where
  "push_to_peer forward_fn c uri w =
    (case forward_fn uri c w of
       (Ok r, w) \<Rightarrow> (Ok (cr_ok r), w)
     | (Err _, w) \<Rightarrow> (Ok False, w)
     | (Raise ex, w) \<Rightarrow> (Raise ex, w))"

fun fanout_result_to_peers ::
  "'w forward_fn \<Rightarrow> int \<Rightarrow> flt \<Rightarrow> string \<Rightarrow> bytes \<Rightarrow> string \<Rightarrow> string list \<Rightarrow> 'w \<Rightarrow> unit res \<times> 'w" where
  "fanout_result_to_peers fwd max_retries base job p h [] w = (Ok (), w)"
| "fanout_result_to_peers fwd max_retries base job p h (uri # uris) w =
    (case push_with_retry (push_to_peer fwd (result_command ''JOB_RESULT_REPLICATE'' job h p) uri) max_retries base w of
       (Raise ex, w, _) \<Rightarrow> (Raise ex, w)
     | (_, w, _) \<Rightarrow> fanout_result_to_peers fwd max_retries base job p h uris w)"

record 'w fanout_env =
  fo_peers :: "string list"
  fo_forward :: "'w forward_fn"
  fo_max_retries :: int
  fo_backoff_base :: flt

definition fanout :: "'w fanout_env \<Rightarrow> string \<Rightarrow> bytes \<Rightarrow> string \<Rightarrow> 'w \<Rightarrow> unit res \<times> 'w" where
  "fanout F job p h w =
    fanout_result_to_peers (fo_forward F) (fo_max_retries F) (fo_backoff_base F) job p h (fo_peers F) w"

definition handle_result_sync ::
  "'s result_backend \<Rightarrow> (bytes \<Rightarrow> string) \<Rightarrow> 'w fanout_env \<Rightarrow> ('s copies \<times> 'w) command_handler" where
  "handle_result_sync B sha F c nw =
    (case receive_result B sha (\<lambda>_. id) c (fst nw) of
       (Ok (Inl r), n) \<Rightarrow> (Ok r, n, snd nw)
     | (Err e, n) \<Rightarrow> (Err e, n, snd nw)
     | (Raise ex, n) \<Rightarrow> (Raise ex, n, snd nw)
     | (Ok (Inr job), n) \<Rightarrow>
         (case fanout F job (payload c) (sha (payload c)) (snd nw) of
            (Ok _, w) \<Rightarrow> (Ok (result_ok []), n, w)
          | (Err e, w) \<Rightarrow> (Err e, n, w)
          | (Raise ex, w) \<Rightarrow> (Raise ex, n, w)))"

text \<open>
  The executor's side: the handler is its own, wrapped in the leader proxy. Encoding cannot fail
  on a result of the model, so the guard around it has no branch here.
\<close>

definition replicate_result ::
  "(bytes \<Rightarrow> string) \<Rightarrow> 'w command_handler \<Rightarrow> int \<Rightarrow> flt \<Rightarrow> function_result \<Rightarrow> 'w \<Rightarrow> bool res \<times> 'w \<times> flt list" where
  "replicate_result sha h max_retries base r w =
    (let p = encode_function_result r;
         c = result_command ''JOB_RESULT_SYNC'' (jr_job_id r) (sha p) p
     in push_with_retry
          (\<lambda>w. case h c w of (Ok x, w) \<Rightarrow> (Ok (cr_ok x), w) | (Err e, w) \<Rightarrow> (Err e, w) | (Raise ex, w) \<Rightarrow> (Raise ex, w))
          max_retries base w)"

text \<open>The sweeper's callback: the leader's copy of one job goes to every peer again.\<close>

definition reverify ::
  "'s result_backend \<Rightarrow> (bytes \<Rightarrow> string) \<Rightarrow> 'w fanout_env \<Rightarrow> string \<Rightarrow> 's copies \<times> 'w \<Rightarrow> unit res \<times> 's copies \<times> 'w" where
  "reverify B sha F job nw =
    (case b_get B (cp_results (fst nw)) (pkey job) of
       Raise ex \<Rightarrow> (Raise ex, nw)
     | Err _ \<Rightarrow> (Ok (), nw)
     | Ok None \<Rightarrow> (Ok (), nw)
     | Ok (Some r) \<Rightarrow>
         (let p = encode_function_result r;
              h = (case consistency_hash job (cp_known (fst nw)) of
                     Some h \<Rightarrow> if h = [] then sha p else h | None \<Rightarrow> sha p)
          in case fanout F job p h (snd nw) of (res, w) \<Rightarrow> (res, fst nw, w)))"

section \<open>The sweeper\<close>

record sweeper =
  sw_chunk_size :: nat
  sw_syncing :: bool
  sw_cursor :: nat
  sw_priority :: "string list"
  sw_last_run_at :: "flt option"

text \<open>No run yet is \<open>-inf\<close>, which every interval has passed since.\<close>

definition sweeper_init :: "int \<Rightarrow> sweeper" where
  "sweeper_init chunk_size = \<lparr>sw_chunk_size = nat (max 1 chunk_size), sw_syncing = False, sw_cursor = 0,
     sw_priority = [], sw_last_run_at = None\<rparr>"

definition request_priority_check :: "string \<Rightarrow> sweeper \<Rightarrow> sweeper" where
  "request_priority_check job sw =
    (if job \<in> set (sw_priority sw) then sw else sw\<lparr>sw_priority := sw_priority sw @ [job]\<rparr>)"

text \<open>\<open>list(dict.fromkeys(xs))\<close>: the first occurrences, in order.\<close>

fun unique_first :: "'a list \<Rightarrow> 'a list" where
  "unique_first [] = []"
| "unique_first (x # xs) = x # unique_first (filter (\<lambda>y. y \<noteq> x) xs)"

definition sweep_batch :: "sweeper \<Rightarrow> string list \<Rightarrow> string list" where
  "sweep_batch sw ids =
    (let n = length ids; start = sw_cursor sw mod n
     in if ids = [] then [] else map (\<lambda>i. ids ! ((start + i) mod n)) [0..<min (sw_chunk_size sw) n])"

definition sweep_cursor :: "sweeper \<Rightarrow> string list \<Rightarrow> nat" where
  "sweep_cursor sw ids =
    (let n = length ids; start = sw_cursor sw mod n
     in if ids = [] then sw_cursor sw else (start + length (sweep_batch sw ids)) mod n)"

fun reverify_all :: "(string \<Rightarrow> 'w \<Rightarrow> unit res \<times> 'w) \<Rightarrow> string list \<Rightarrow> 'w \<Rightarrow> unit res \<times> 'w" where
  "reverify_all f [] w = (Ok (), w)"
| "reverify_all f (job # jobs) w =
    (case f job w of (Ok _, w) \<Rightarrow> reverify_all f jobs w | (r, w) \<Rightarrow> (r, w))"

definition run_step ::
  "(string \<Rightarrow> 'w \<Rightarrow> unit res \<times> 'w) \<Rightarrow> ('w \<Rightarrow> string list) \<Rightarrow> sweeper \<times> 'w \<Rightarrow> unit res \<times> sweeper \<times> 'w" where
  "run_step f ids sw_w =
    (let sw = fst sw_w; w = snd sw_w; all = ids w;
         targets = unique_first (sw_priority sw @ sweep_batch sw all)
     in case reverify_all f targets w of
          (r, w) \<Rightarrow> (r, sw\<lparr>sw_priority := [], sw_cursor := sweep_cursor sw all\<rparr>, w))"

definition maybe_run_periodic ::
  "(string \<Rightarrow> 'w \<Rightarrow> unit res \<times> 'w) \<Rightarrow> ('w \<Rightarrow> string list) \<Rightarrow> flt \<Rightarrow> flt \<Rightarrow> sweeper \<times> 'w \<Rightarrow> bool res \<times> sweeper \<times> 'w" where
  "maybe_run_periodic f ids now interval sw_w =
    (let sw = fst sw_w in
     if sw_syncing sw \<or> (case sw_last_run_at sw of None \<Rightarrow> False | Some t \<Rightarrow> now - t < interval) then (Ok False, sw_w)
     else
       (case run_step f ids (sw\<lparr>sw_last_run_at := Some now, sw_syncing := True\<rparr>, snd sw_w) of
          (r, sw, w) \<Rightarrow> (bind_res r (\<lambda>_. Ok True), sw\<lparr>sw_syncing := False\<rparr>, w)))"

text \<open>
  A manual pass is started by setting the flag; the thread that is started runs
  \<open>run_manual_pass\<close>, which clears it at the end.
\<close>

definition start_manual_sync :: "sweeper \<Rightarrow> bool \<times> sweeper" where
  "start_manual_sync sw = (if sw_syncing sw then (False, sw) else (True, sw\<lparr>sw_syncing := True\<rparr>))"

fun run_steps ::
  "nat \<Rightarrow> (string \<Rightarrow> 'w \<Rightarrow> unit res \<times> 'w) \<Rightarrow> ('w \<Rightarrow> string list) \<Rightarrow> sweeper \<times> 'w \<Rightarrow> unit res \<times> sweeper \<times> 'w" where
  "run_steps 0 f ids sw_w = (Ok (), sw_w)"
| "run_steps (Suc k) f ids sw_w =
    (case run_step f ids sw_w of (Ok _, sw_w) \<Rightarrow> run_steps k f ids sw_w | (r, sw_w) \<Rightarrow> (r, sw_w))"

definition run_manual_pass ::
  "(string \<Rightarrow> 'w \<Rightarrow> unit res \<times> 'w) \<Rightarrow> ('w \<Rightarrow> string list) \<Rightarrow> sweeper \<times> 'w \<Rightarrow> unit res \<times> sweeper \<times> 'w" where
  "run_manual_pass f ids sw_w =
    (let total = length (ids (snd sw_w)); steps = max 1 (total div sw_chunk_size (fst sw_w) + 1)
     in case run_steps steps f ids sw_w of (r, sw, w) \<Rightarrow> (r, sw\<lparr>sw_syncing := False\<rparr>, w))"

text \<open>The request of the virtual environment manager: one job with priority, or a full pass.\<close>

definition handle_consistency_check :: "sweeper command_handler" where
  "handle_consistency_check c sw =
    (case with_env c (\<lambda>d. Ok (jget d ''job_id'', py_truthy (dget d ''manual_full_sync'' (JBool False)))) of
       Err e \<Rightarrow> (Err e, sw)
     | Raise ex \<Rightarrow> (Raise ex, sw)
     | Ok (j, manual) \<Rightarrow>
         (if py_truthy j then
            (case json_str j of
               Ok job \<Rightarrow> (Ok (result_ok [(''queued'', JBool True)]), request_priority_check job sw)
             | Err e \<Rightarrow> (Err e, sw)
             | Raise ex \<Rightarrow> (Raise ex, sw))
          else if manual then
            (case start_manual_sync sw of (started, sw) \<Rightarrow> (Ok (result_ok [(''started'', JBool started)]), sw))
          else (Ok (from_error (missing_error ''either job_id or manual_full_sync is required'')), sw)))"

section \<open>The sweep reaches every job\<close>

lemma set_unique_first [simp]: "set (unique_first xs) = set xs"
  by (induction xs rule: unique_first.induct) auto

lemma set_sweep_batch:
  assumes "ids \<noteq> []"
  shows "set (sweep_batch sw ids) =
    {ids ! ((sw_cursor sw + i) mod length ids) |i. i < min (sw_chunk_size sw) (length ids)}"
  using assms by (auto simp: sweep_batch_def Let_def mod_add_left_eq)

lemma sweep_cursor_mod:
  "ids \<noteq> [] \<Longrightarrow>
   sweep_cursor sw ids mod length ids =
     (sw_cursor sw + min (sw_chunk_size sw) (length ids)) mod length ids"
  by (simp add: sweep_cursor_def sweep_batch_def Let_def mod_add_left_eq)

text \<open>
  What a pass does when the callback never fails on the states \<open>P\<close>, leaves the list of jobs alone,
  and establishes \<open>Q job\<close>, which later callbacks keep.
\<close>

definition sweepable ::
  "(string \<Rightarrow> 'w \<Rightarrow> unit res \<times> 'w) \<Rightarrow> ('w \<Rightarrow> string list) \<Rightarrow> string list \<Rightarrow> ('w \<Rightarrow> bool) \<Rightarrow> (string \<Rightarrow> 'w \<Rightarrow> bool) \<Rightarrow> bool" where
  "sweepable f ids all P Q \<longleftrightarrow>
    (\<forall>w. P w \<longrightarrow> ids w = all \<and>
       (\<forall>job. \<exists>w'. f job w = (Ok (), w') \<and> P w' \<and> Q job w' \<and> (\<forall>j. Q j w \<longrightarrow> Q j w')))"

lemma sweepable_reverify_all:
  assumes "sweepable f ids all P Q" "P w"
  shows "\<exists>w'. reverify_all f jobs w = (Ok (), w') \<and> P w' \<and> (\<forall>j. j \<in> set jobs \<or> Q j w \<longrightarrow> Q j w')"
  using assms(2)
proof (induction jobs arbitrary: w)
  case (Cons job jobs)
  obtain w1 where w1: "f job w = (Ok (), w1)" "P w1" "Q job w1" "\<forall>j. Q j w \<longrightarrow> Q j w1"
    using assms(1) Cons.prems unfolding sweepable_def by blast
  obtain w2 where "reverify_all f jobs w1 = (Ok (), w2)" "P w2" "\<forall>j. j \<in> set jobs \<or> Q j w1 \<longrightarrow> Q j w2"
    using Cons.IH [OF w1(2)] by blast
  with w1 show ?case by auto
qed simp

lemma sweepable_step:
  assumes "sweepable f ids all P Q" "P w"
  obtains sw' w' where "run_step f ids (sw, w) = (Ok (), sw', w')" "P w'"
    "\<forall>j. j \<in> set (sw_priority sw) \<union> set (sweep_batch sw all) \<or> Q j w \<longrightarrow> Q j w'"
    "sw_cursor sw' = sweep_cursor sw all" "sw_chunk_size sw' = sw_chunk_size sw"
    "sw_priority sw' = []" "sw_syncing sw' = sw_syncing sw"
proof -
  obtain w' where "reverify_all f (unique_first (sw_priority sw @ sweep_batch sw all)) w = (Ok (), w')" "P w'"
    "\<forall>j. j \<in> set (sw_priority sw) \<union> set (sweep_batch sw all) \<or> Q j w \<longrightarrow> Q j w'"
    using sweepable_reverify_all [OF assms, of "unique_first (sw_priority sw @ sweep_batch sw all)"] by auto
  moreover have "ids w = all" using assms by (simp add: sweepable_def)
  ultimately show thesis
    using that [of "sw\<lparr>sw_priority := [], sw_cursor := sweep_cursor sw all\<rparr>" w'] by (simp add: run_step_def)
qed

lemma sweepable_steps:
  assumes "sweepable f ids all P Q" "P w" "all \<noteq> []"
  shows "\<exists>sw' w'. run_steps k f ids (sw, w) = (Ok (), sw', w') \<and> P w' \<and> (\<forall>j. Q j w \<longrightarrow> Q j w') \<and>
    (0 < k \<longrightarrow> (\<forall>j \<in> set (sw_priority sw). Q j w')) \<and>
    (\<forall>i < k * min (sw_chunk_size sw) (length all). Q (all ! ((sw_cursor sw + i) mod length all)) w')"
  using assms(2)
proof (induction k arbitrary: sw w)
  case (Suc k)
  let ?n = "length all" and ?b = "min (sw_chunk_size sw) (length all)"
  obtain sw1 w1 where s1: "run_step f ids (sw, w) = (Ok (), sw1, w1)" "P w1"
    "\<forall>j. j \<in> set (sw_priority sw) \<union> set (sweep_batch sw all) \<or> Q j w \<longrightarrow> Q j w1"
    "sw_cursor sw1 = sweep_cursor sw all" "sw_chunk_size sw1 = sw_chunk_size sw"
    using sweepable_step [OF assms(1) Suc.prems] by metis
  obtain sw2 w2 where s2: "run_steps k f ids (sw1, w1) = (Ok (), sw2, w2)" "P w2" "\<forall>j. Q j w1 \<longrightarrow> Q j w2"
    "\<forall>i < k * ?b. Q (all ! ((sw_cursor sw1 + i) mod ?n)) w2"
    using Suc.IH [OF s1(2), of sw1] s1(5) by auto
  have "Q (all ! ((sw_cursor sw + i) mod ?n)) w2" if i: "i < Suc k * ?b" for i
  proof (cases "i < ?b")
    case True
    then have "all ! ((sw_cursor sw + i) mod ?n) \<in> set (sweep_batch sw all)"
      unfolding set_sweep_batch [OF assms(3)] by blast
    then show ?thesis using s1(3) s2(3) by blast
  next
    case False
    have "(sw_cursor sw1 + (i - ?b)) mod ?n = (sw_cursor sw1 mod ?n + (i - ?b)) mod ?n"
      by (simp add: mod_add_left_eq)
    also have "\<dots> = ((sw_cursor sw + ?b) mod ?n + (i - ?b)) mod ?n"
      using sweep_cursor_mod [OF assms(3), of sw] s1(4) by simp
    also have "\<dots> = (sw_cursor sw + (?b + (i - ?b))) mod ?n"
      by (simp only: mod_add_left_eq add.assoc)
    also have "?b + (i - ?b) = i" using False by (intro le_add_diff_inverse) linarith
    finally have "(sw_cursor sw1 + (i - ?b)) mod ?n = (sw_cursor sw + i) mod ?n" .
    moreover have "i - ?b < k * ?b" using i False by auto
    ultimately show ?thesis using s2(4) by metis
  qed
  moreover have "\<forall>j \<in> set (sw_priority sw). Q j w2" using s1(3) s2(3) by auto
  moreover have "\<forall>j. Q j w \<longrightarrow> Q j w2" using s1(3) s2(3) by auto
  moreover have "run_steps (Suc k) f ids (sw, w) = (Ok (), sw2, w2)" using s1(1) s2(1) by simp
  ultimately show ?case using s2(2) by blast
qed simp

lemma enough_steps:
  assumes "0 < (c :: nat)"
  shows "n \<le> (n div c + 1) * min c n"
proof (cases "c \<le> n")
  case True
  have "n \<le> n div c * c + c" using div_mult_mod_eq [of n c] mod_less_divisor [OF assms, of n] by linarith
  then show ?thesis using True by (simp add: algebra_simps)
qed simp

lemma sweepable_pass:
  assumes "sweepable f ids all P Q" "P w" "0 < sw_chunk_size sw"
  obtains sw' w' where "run_manual_pass f ids (sw, w) = (Ok (), sw', w')" "P w'" "\<not> sw_syncing sw'"
    "\<forall>j. j \<in> set all \<union> set (sw_priority sw) \<or> Q j w \<longrightarrow> Q j w'"
proof -
  let ?n = "length all" and ?c = "sw_chunk_size sw"
  let ?k = "max 1 (?n div ?c + 1)"
  have all: "ids w = all" using assms by (simp add: sweepable_def)
  have "\<exists>sw' w'. run_steps ?k f ids (sw, w) = (Ok (), sw', w') \<and> P w' \<and>
    (\<forall>j. j \<in> set all \<union> set (sw_priority sw) \<or> Q j w \<longrightarrow> Q j w')"
  proof (cases "all = []")
    case True
    obtain sw' w' where "run_step f ids (sw, w) = (Ok (), sw', w')" "P w'"
      "\<forall>j. j \<in> set (sw_priority sw) \<union> set (sweep_batch sw all) \<or> Q j w \<longrightarrow> Q j w'"
      using sweepable_step [OF assms(1,2), of sw] by metis
    then show ?thesis using True by (intro exI [of _ sw'] exI [of _ w']) simp
  next
    case False
    obtain sw' w' where s: "run_steps ?k f ids (sw, w) = (Ok (), sw', w')" "P w'" "\<forall>j. Q j w \<longrightarrow> Q j w'"
      "\<forall>j \<in> set (sw_priority sw). Q j w'"
      "\<forall>i < ?k * min ?c ?n. Q (all ! ((sw_cursor sw + i) mod ?n)) w'"
      using sweepable_steps [OF assms(1,2) False, of ?k sw] by auto
    have "Q j w'" if j: "j \<in> set all" for j
    proof -
      obtain x where x: "x < ?n" "j = all ! x" using j by (auto simp: in_set_conv_nth)
      let ?i = "(x + (?n - sw_cursor sw mod ?n)) mod ?n"
      have "(sw_cursor sw + ?i) mod ?n = (sw_cursor sw mod ?n + (x + (?n - sw_cursor sw mod ?n))) mod ?n"
        by (simp add: mod_add_left_eq mod_add_right_eq)
      also have "\<dots> = (x + ?n) mod ?n"
        using x(1) mod_less_divisor [of ?n "sw_cursor sw"] by (intro arg_cong2 [where f = "(mod)"]) linarith+
      also have "\<dots> = x" using x(1) by simp
      finally have "(sw_cursor sw + ?i) mod ?n = x" .
      moreover have "?i < ?n" using x(1) by (intro mod_less_divisor) linarith
      then have "?i < ?k * min ?c ?n" using enough_steps [OF assms(3), of ?n] by simp
      ultimately show ?thesis using s(5) x(2) by metis
    qed
    with s show ?thesis by (intro exI [of _ sw'] exI [of _ w']) auto
  qed
  then show thesis
    using that all by (auto simp: run_manual_pass_def split: prod.splits)
qed

section \<open>The cluster\<close>

text \<open>
  The peers of a leader: a copy at every address, reached by one exchange after the other over the
  router and the dispatcher, as the application registers the handler; \<open>link\<close> is what the network
  does to the exchange with a given number. The peer's queue has room: a full one answers with an
  error, which the sender treats as it treats a lost exchange.
\<close>

record 's peers =
  pe_nodes :: "string \<Rightarrow> 's copies"
  pe_calls :: nat

definition peer_router :: "'s result_backend \<Rightarrow> (bytes \<Rightarrow> string) \<Rightarrow> 's copies router" where
  "peer_router B sha = \<lparr>ro_direct = [],
     ro_dispatcher = register_handler ''JOB_RESULT_REPLICATE'' (handle_result_replicate B sha) (dispatcher_init 0),
     ro_identities = []\<rparr>"

definition peer_forward ::
  "'s result_backend \<Rightarrow> (bytes \<Rightarrow> string) \<Rightarrow> (string \<Rightarrow> nat \<Rightarrow> link) \<Rightarrow> 's peers forward_fn" where
  "peer_forward B sha link uri c w =
    (case forward_command (link uri (pe_calls w)) uri 0 c (peer_router B sha) (pe_nodes w uri) of
       (r, _, n) \<Rightarrow> (r, w\<lparr>pe_nodes := (pe_nodes w)(uri := n), pe_calls := pe_calls w + 1\<rparr>))"

definition cluster_env ::
  "'s result_backend \<Rightarrow> (bytes \<Rightarrow> string) \<Rightarrow> (string \<Rightarrow> nat \<Rightarrow> link) \<Rightarrow> string list \<Rightarrow> int \<Rightarrow> flt \<Rightarrow> 's peers fanout_env" where
  "cluster_env B sha link uris max_retries base = \<lparr>fo_peers = uris, fo_forward = peer_forward B sha link,
     fo_max_retries = max_retries, fo_backoff_base = base\<rparr>"

text \<open>A peer whose exchanges are not all lost, in any run as long as the retries.\<close>

definition reachable_within :: "(string \<Rightarrow> nat \<Rightarrow> link) \<Rightarrow> int \<Rightarrow> string \<Rightarrow> bool" where
  "reachable_within link max_retries uri \<longleftrightarrow>
    (\<forall>c. \<exists>i < nat (max 1 max_retries). link uri (c + i) \<noteq> Dropped)"

locale result_store = kv_store B inv "\<lambda>_. True" pkey view
  for B :: "('s, storage_key, function_result) backend" and inv :: "'s \<Rightarrow> bool"
    and view :: "'s \<Rightarrow> string \<Rightarrow> function_result option"
begin

text \<open>What a node has after it stored a result: the copy, its hash, and what it had of the other jobs.\<close>

definition installed :: "(bytes \<Rightarrow> string) \<Rightarrow> string \<Rightarrow> function_result \<Rightarrow> 's copies \<Rightarrow> 's copies \<Rightarrow> bool" where
  "installed sha job r n n' \<longleftrightarrow>
    inv (cp_results n') \<and> view (cp_results n') = (view (cp_results n))(job \<mapsto> r) \<and>
    map_of (co_state (cp_known n')) = (map_of (co_state (cp_known n)))(job \<mapsto> ''synced'') \<and>
    map_of (co_hash (cp_known n')) = (map_of (co_hash (cp_known n)))(job \<mapsto> sha (encode_function_result r))"

lemma installed_trans: "installed sha job r n m \<Longrightarrow> installed sha job r m k \<Longrightarrow> installed sha job r n k"
  by (simp add: installed_def)

definition carries :: "(bytes \<Rightarrow> string) \<Rightarrow> string \<Rightarrow> function_result \<Rightarrow> bool" where
  "carries sha job r \<longleftrightarrow> job \<noteq> [] \<and> sha (encode_function_result r) \<noteq> [] \<and> result_sendable r"

lemma receive_good:
  assumes "inv (cp_results n)" "carries sha job r"
    and c: "c = result_command op job (sha (encode_function_result r)) (encode_function_result r)"
  obtains n' where "receive_result B sha f c n = (Ok (Inr job), n')" "installed sha job r n n'"
proof -
  obtain q s where s: "b_put B (cp_results n) (pkey job) r = (Ok q, s)" "inv s"
    "view s = (view (cp_results n))(job \<mapsto> r)"
    using put [OF assms(1), of job r] by (auto simp: fun_eq_iff)
  let ?n = "n\<lparr>cp_results := s, cp_known := mark_synced job (sha (encode_function_result r)) (cp_known n)\<rparr>"
  have "receive_result B sha f c n = (Ok (Inr job), ?n)"
    using assms(2) s(1) result_roundtrip [of r]
    by (simp add: carries_def receive_result_def c result_command_def with_env_def jget_def dget_def json_str_def)
  moreover have "installed sha job r n ?n"
    using s by (auto simp: installed_def mark_synced_def fun_eq_iff)
  ultimately show thesis by (rule that)
qed

text \<open>A damaged payload leaves the stored copies alone, whoever receives it.\<close>

lemma receive_damaged:
  assumes "envelope c = JObj [(''job_id'', JStr job), (''hash'', JStr h)]" "job \<noteq> []" "h \<noteq> []" "sha (payload c) \<noteq> h"
  shows "receive_result B sha f c n =
    (Ok (Inl (from_error result_hash_mismatch)), n\<lparr>cp_known := f job (cp_known n)\<rparr>)"
  using assms by (simp add: receive_result_def with_env_def jget_def dget_def json_str_def)

lemma peer_forward_good:
  assumes "inv (cp_results (pe_nodes w uri))" "carries sha job r"
  obtains n' res where
    "peer_forward B sha link uri
       (result_command ''JOB_RESULT_REPLICATE'' job (sha (encode_function_result r)) (encode_function_result r)) w =
     (res, w\<lparr>pe_nodes := (pe_nodes w)(uri := n'), pe_calls := pe_calls w + 1\<rparr>)"
    "if link uri (pe_calls w) = Dropped then n' = pe_nodes w uri \<and> (\<exists>e. res = Err e)
     else installed sha job r (pe_nodes w uri) n' \<and> ((\<exists>x. res = Ok x \<and> cr_ok x) \<or> (\<exists>e. res = Err e))"
proof -
  let ?c = "result_command ''JOB_RESULT_REPLICATE'' job (sha (encode_function_result r)) (encode_function_result r)"
  let ?l = "link uri (pe_calls w)"
  show thesis
  proof (cases "?l = Dropped")
    case True
    then show thesis using that [of "Err (timed_out uri)" "pe_nodes w uri"]
      by (simp add: peer_forward_def forward_command_def)
  next
    case False
    obtain n' where "receive_result B sha mark_inconsistent ?c (pe_nodes w uri) = (Ok (Inr job), n')"
      and inst: "installed sha job r (pe_nodes w uri) n'"
      using receive_good [OF assms refl] .
    then have "handle_result_replicate B sha ?c (pe_nodes w uri) = (Ok (result_ok []), n')"
      by (simp add: handle_result_replicate_def)
    then have "\<exists>ro'. dispatch_command 0 ?c (peer_router B sha) (pe_nodes w uri) = (Ok (result_ok []), ro', n')"
      by (intro dispatch_queued [where h = "handle_result_replicate B sha"])
        (simp_all add: peer_router_def result_command_def register_handler_def dispatcher_init_def queue_full_def)
    then obtain ro' where "dispatch_command 0 ?c (peer_router B sha) (pe_nodes w uri) = (Ok (result_ok []), ro', n')"
      by blast
    then have "forward_command ?l uri 0 ?c (peer_router B sha) (pe_nodes w uri) =
        (if ?l = Delivered
         then Ok ((result_ok [])\<lparr>cr_error_code := 0, cr_error_name := [], cr_metadata := JObj (wire_metadata (result_ok []) [])\<rparr>)
         else Err (timed_out uri), ro', n')"
      using False by (intro forward_served) (auto simp: result_command_def result_ok_def)
    then show thesis
      using that [of "if ?l = Delivered then Ok ((result_ok [])\<lparr>cr_error_code := 0, cr_error_name := [],
           cr_metadata := JObj (wire_metadata (result_ok []) [])\<rparr>) else Err (timed_out uri)" n'] inst False
      by (simp add: peer_forward_def result_ok_def)
  qed
qed

text \<open>What sending a result to peers does to every node of the world.\<close>

definition spread :: "(bytes \<Rightarrow> string) \<Rightarrow> string \<Rightarrow> function_result \<Rightarrow> string set \<Rightarrow> 's peers \<Rightarrow> 's peers \<Rightarrow> bool" where
  "spread sha job r us w w' \<longleftrightarrow>
    (\<forall>u. pe_nodes w' u = pe_nodes w u \<or> u \<in> us \<and> installed sha job r (pe_nodes w u) (pe_nodes w' u))"

definition all_inv :: "'s peers \<Rightarrow> bool" where
  "all_inv w \<longleftrightarrow> (\<forall>u. inv (cp_results (pe_nodes w u)))"

lemma spread_refl [simp]: "spread sha job r us w w"
  by (simp add: spread_def)

lemma spread_trans: "spread sha job r us w v \<Longrightarrow> spread sha job r vs v x \<Longrightarrow> spread sha job r (us \<union> vs) w x"
  unfolding spread_def by (metis Un_iff installed_trans)

lemma installed_spread:
  "installed sha job r m (pe_nodes v u) \<Longrightarrow> spread sha job r us v w \<Longrightarrow> installed sha job r m (pe_nodes w u)"
  unfolding spread_def by (metis installed_trans)

lemma spread_inv: "spread sha job r us w w' \<Longrightarrow> all_inv w \<Longrightarrow> all_inv w'"
  unfolding spread_def all_inv_def installed_def by metis

lemma push_attempts_spread:
  assumes "all_inv w" "carries sha job r"
  shows "\<exists>b w' sl. push_attempts (push_to_peer (peer_forward B sha link)
        (result_command ''JOB_RESULT_REPLICATE'' job (sha (encode_function_result r)) (encode_function_result r)) uri)
        k base is w = (Ok b, w', sl) \<and>
      spread sha job r {uri} w w' \<and>
      ((\<exists>i < length is. link uri (pe_calls w + i) \<noteq> Dropped) \<longrightarrow>
         installed sha job r (pe_nodes w uri) (pe_nodes w' uri))"
  using assms(1)
proof (induction "is" arbitrary: w)
  case Nil
  then show ?case by (auto intro: exI [of _ False])
next
  case (Cons a as)
  let ?c = "result_command ''JOB_RESULT_REPLICATE'' job (sha (encode_function_result r)) (encode_function_result r)"
  let ?f = "push_to_peer (peer_forward B sha link) ?c uri"
  obtain n' res where fwd: "peer_forward B sha link uri ?c w =
      (res, w\<lparr>pe_nodes := (pe_nodes w)(uri := n'), pe_calls := pe_calls w + 1\<rparr>)"
    and n': "if link uri (pe_calls w) = Dropped then n' = pe_nodes w uri \<and> (\<exists>e. res = Err e)
     else installed sha job r (pe_nodes w uri) n' \<and> ((\<exists>x. res = Ok x \<and> cr_ok x) \<or> (\<exists>e. res = Err e))"
    using peer_forward_good [OF _ assms(2), of w uri link] Cons.prems unfolding all_inv_def by blast
  let ?w1 = "w\<lparr>pe_nodes := (pe_nodes w)(uri := n'), pe_calls := pe_calls w + 1\<rparr>"
  have sp: "spread sha job r {uri} w ?w1" using n' by (auto simp: spread_def split: if_splits)
  have inv1: "all_inv ?w1" using spread_inv [OF sp Cons.prems] .
  show ?case
  proof (cases "\<exists>x. res = Ok x \<and> cr_ok x")
    case True
    then have "installed sha job r (pe_nodes w uri) n'" using n' by (auto split: if_splits)
    then show ?thesis using True fwd sp by (auto simp: push_to_peer_def)
  next
    case False
    then obtain e where e: "res = Err e" using n' by (auto split: if_splits)
    obtain b w' sl where rest: "push_attempts ?f k base as ?w1 = (Ok b, w', sl)" "spread sha job r {uri} ?w1 w'"
      "(\<exists>i < length as. link uri (pe_calls ?w1 + i) \<noteq> Dropped) \<longrightarrow>
         installed sha job r (pe_nodes ?w1 uri) (pe_nodes w' uri)"
      using Cons.IH [OF inv1] by blast
    have "installed sha job r (pe_nodes w uri) (pe_nodes w' uri)"
      if i: "i < length (a # as)" "link uri (pe_calls w + i) \<noteq> Dropped" for i
    proof (cases i)
      case 0
      then have "installed sha job r (pe_nodes w uri) n'" using i n' by simp
      then have "installed sha job r (pe_nodes w uri) (pe_nodes ?w1 uri)" by simp
      then show ?thesis using rest(2) by (rule installed_spread)
    next
      case (Suc m)
      then have "installed sha job r n' (pe_nodes w' uri)" using rest(3) i by auto
      then show ?thesis using n' installed_trans by (auto split: if_splits)
    qed
    moreover have "spread sha job r {uri} w w'" using spread_trans [OF sp rest(2)] by simp
    moreover have "push_attempts ?f k base (a # as) w =
        (Ok b, w', (if int a < k - 1 then [base * 2 ^ a] else []) @ sl)"
      using fwd e rest(1) by (simp add: push_to_peer_def)
    ultimately show ?thesis by blast
  qed
qed

lemma fanout_spread:
  assumes "all_inv w" "carries sha job r"
  shows "\<exists>w'. fanout (cluster_env B sha link us k base) job (encode_function_result r)
        (sha (encode_function_result r)) w = (Ok (), w') \<and>
      spread sha job r (set us) w w' \<and>
      (\<forall>u \<in> set us. reachable_within link k u \<longrightarrow> installed sha job r (pe_nodes w u) (pe_nodes w' u))"
  using assms(1) unfolding fanout_def cluster_env_def fanout_env.simps
proof (induction us arbitrary: w)
  case Nil
  then show ?case by simp
next
  case (Cons u us)
  obtain b w1 sl where w1: "push_with_retry (push_to_peer (peer_forward B sha link)
        (result_command ''JOB_RESULT_REPLICATE'' job (sha (encode_function_result r)) (encode_function_result r)) u)
        k base w = (Ok b, w1, sl)" "spread sha job r {u} w w1"
      "(\<exists>i < nat (max 1 k). link u (pe_calls w + i) \<noteq> Dropped) \<longrightarrow>
         installed sha job r (pe_nodes w u) (pe_nodes w1 u)"
    using push_attempts_spread [OF Cons.prems assms(2), of link u k base "[0..<nat (max 1 k)]"]
    by (auto simp: push_with_retry_def)
  have inv1: "all_inv w1" using spread_inv [OF w1(2) Cons.prems] .
  obtain w2 where w2: "fanout_result_to_peers (peer_forward B sha link) k base job (encode_function_result r)
        (sha (encode_function_result r)) us w1 = (Ok (), w2)" "spread sha job r (set us) w1 w2"
      "\<forall>u \<in> set us. reachable_within link k u \<longrightarrow> installed sha job r (pe_nodes w1 u) (pe_nodes w2 u)"
    using Cons.IH [OF inv1] by blast
  have sp: "spread sha job r (set (u # us)) w w2" using spread_trans [OF w1(2) w2(2)] by simp
  have "installed sha job r (pe_nodes w v) (pe_nodes w2 v)"
    if v: "v \<in> set (u # us)" "reachable_within link k v" for v
  proof (cases "v \<in> set us")
    case True
    then have "installed sha job r (pe_nodes w1 v) (pe_nodes w2 v)" using w2(3) v(2) by blast
    then show ?thesis using w1(2) installed_trans unfolding spread_def by metis
  next
    case False
    then have "v = u" using v(1) by simp
    then have "installed sha job r (pe_nodes w v) (pe_nodes w1 v)"
      using w1(3) v(2) unfolding reachable_within_def by blast
    then show ?thesis using w2(2) by (rule installed_spread)
  qed
  then show ?case using w1(1) w2(1) sp by auto
qed

lemma sync_spread:
  assumes "inv (cp_results n)" "all_inv w" "carries sha (jr_job_id r) r"
  obtains n' w' where
    "handle_result_sync B sha (cluster_env B sha link us k base)
       (result_command op (jr_job_id r) (sha (encode_function_result r)) (encode_function_result r)) (n, w) =
     (Ok (result_ok []), n', w')"
    "installed sha (jr_job_id r) r n n'" "spread sha (jr_job_id r) r (set us) w w'"
    "\<forall>u \<in> set us. reachable_within link k u \<longrightarrow> installed sha (jr_job_id r) r (pe_nodes w u) (pe_nodes w' u)"
proof -
  let ?c = "result_command op (jr_job_id r) (sha (encode_function_result r)) (encode_function_result r)"
  obtain n' where n': "receive_result B sha (\<lambda>_. id) ?c n = (Ok (Inr (jr_job_id r)), n')"
    "installed sha (jr_job_id r) r n n'"
    using receive_good [OF assms(1,3) refl] .
  obtain w' where w': "fanout (cluster_env B sha link us k base) (jr_job_id r) (encode_function_result r)
        (sha (encode_function_result r)) w = (Ok (), w')" "spread sha (jr_job_id r) r (set us) w w'"
    "\<forall>u \<in> set us. reachable_within link k u \<longrightarrow> installed sha (jr_job_id r) r (pe_nodes w u) (pe_nodes w' u)"
    using fanout_spread [OF assms(2,3)] by blast
  have p: "payload ?c = encode_function_result r" by (simp add: result_command_def)
  show thesis using that [OF _ n'(2) w'(2,3)] n'(1) w'(1) p by (simp add: handle_result_sync_def)
qed

text \<open>The leader's copies, all of them fit to be sent, under their own hash where one is noted.\<close>

definition leader_copies_ok :: "(bytes \<Rightarrow> string) \<Rightarrow> 's copies \<Rightarrow> bool" where
  "leader_copies_ok sha n \<longleftrightarrow> inv (cp_results n) \<and>
    (\<forall>job r. view (cp_results n) job = Some r \<longrightarrow> carries sha job r \<and>
       consistency_hash job (cp_known n) \<in> {None, Some (sha (encode_function_result r))})"

lemma reverify_spread:
  assumes "leader_copies_ok sha n" "all_inv w"
  shows "\<exists>w'. reverify B sha (cluster_env B sha link us k base) job (n, w) = (Ok (), n, w') \<and> all_inv w' \<and>
    (case view (cp_results n) job of
       None \<Rightarrow> w' = w
     | Some r \<Rightarrow> spread sha job r (set us) w w' \<and>
         (\<forall>u \<in> set us. reachable_within link k u \<longrightarrow> installed sha job r (pe_nodes w u) (pe_nodes w' u)))"
proof (cases "view (cp_results n) job")
  case None
  then show ?thesis using assms get [of "cp_results n" job] by (simp add: reverify_def leader_copies_ok_def)
next
  case (Some r)
  then have r: "carries sha job r" "inv (cp_results n)"
    "consistency_hash job (cp_known n) \<in> {None, Some (sha (encode_function_result r))}"
    using assms(1) by (auto simp: leader_copies_ok_def)
  obtain w' where w': "fanout (cluster_env B sha link us k base) job (encode_function_result r)
        (sha (encode_function_result r)) w = (Ok (), w')" "spread sha job r (set us) w w'"
    "\<forall>u \<in> set us. reachable_within link k u \<longrightarrow> installed sha job r (pe_nodes w u) (pe_nodes w' u)"
    using fanout_spread [OF assms(2) r(1)] by blast
  have "(case consistency_hash job (cp_known n) of
      Some h \<Rightarrow> if h = [] then sha (encode_function_result r) else h | None \<Rightarrow> sha (encode_function_result r)) =
      sha (encode_function_result r)" using r(3) by auto
  then have "reverify B sha (cluster_env B sha link us k base) job (n, w) = (Ok (), n, w')"
    using get [OF r(2), of job] Some w'(1) by (simp add: reverify_def Let_def)
  then show ?thesis using Some w'(2,3) spread_inv [OF w'(2) assms(2)] by auto
qed

text \<open>A peer holds the leader's copy of a job.\<close>

definition agrees :: "(bytes \<Rightarrow> string) \<Rightarrow> string \<Rightarrow> function_result \<Rightarrow> 's copies \<Rightarrow> bool" where
  "agrees sha job r n \<longleftrightarrow> view (cp_results n) job = Some r \<and>
    consistency_state job (cp_known n) = Some ''synced'' \<and>
    consistency_hash job (cp_known n) = Some (sha (encode_function_result r))"

lemma installed_agrees: "installed sha job r n n' \<Longrightarrow> agrees sha job r n'"
  by (simp add: installed_def agrees_def consistency_state_def consistency_hash_def)

lemma installed_keeps: "installed sha job r n n' \<Longrightarrow> j \<noteq> job \<Longrightarrow> agrees sha j q n' = agrees sha j q n"
  by (simp add: installed_def agrees_def consistency_state_def consistency_hash_def)

lemma reverify_sweepable:
  assumes "leader_copies_ok sha n"
  shows "sweepable (reverify B sha (cluster_env B sha link us k base)) (\<lambda>nw. all_job_ids (cp_known (fst nw)))
     (all_job_ids (cp_known n)) (\<lambda>nw. fst nw = n \<and> all_inv (snd nw))
     (\<lambda>job nw. \<forall>r u. view (cp_results n) job = Some r \<longrightarrow> u \<in> set us \<longrightarrow> reachable_within link k u \<longrightarrow>
        agrees sha job r (pe_nodes (snd nw) u))"
  unfolding sweepable_def
proof (intro allI impI conjI)
  fix nw :: "'s copies \<times> 's peers" and job
  assume nw: "fst nw = n \<and> all_inv (snd nw)"
  then show "all_job_ids (cp_known (fst nw)) = all_job_ids (cp_known n)" by simp
  let ?Q = "\<lambda>job nw. \<forall>r u. view (cp_results n) job = Some r \<longrightarrow> u \<in> set us \<longrightarrow> reachable_within link k u \<longrightarrow>
        agrees sha job r (pe_nodes (snd nw) u)"
  obtain w' where w': "reverify B sha (cluster_env B sha link us k base) job (n, snd nw) = (Ok (), n, w')" "all_inv w'"
    "case view (cp_results n) job of
       None \<Rightarrow> w' = snd nw
     | Some r \<Rightarrow> spread sha job r (set us) (snd nw) w' \<and>
         (\<forall>u \<in> set us. reachable_within link k u \<longrightarrow> installed sha job r (pe_nodes (snd nw) u) (pe_nodes w' u))"
    using reverify_spread [OF assms, of "snd nw"] nw by blast
  have here: "?Q job (n, w')" using w'(3) installed_agrees by fastforce
  have keep: "?Q j (n, w')" if "?Q j nw" for j
  proof (cases "j = job \<or> view (cp_results n) job = None")
    case True
    then show ?thesis using here w'(3) that by auto
  next
    case False
    then obtain r where "view (cp_results n) job = Some r" "j \<noteq> job" by auto
    then have "agrees sha j q (pe_nodes w' u) = agrees sha j q (pe_nodes (snd nw) u)" for u q
      using w'(3) installed_keeps by (auto simp: spread_def) metis+
    then show ?thesis using that by simp
  qed
  have "nw = (n, snd nw)" using nw by (metis prod.collapse)
  then have "reverify B sha (cluster_env B sha link us k base) job nw = (Ok (), n, w')" using w'(1) by simp
  then show "\<exists>w'. reverify B sha (cluster_env B sha link us k base) job nw = (Ok (), w') \<and>
      (fst w' = n \<and> all_inv (snd w')) \<and> ?Q job w' \<and> (\<forall>j. ?Q j nw \<longrightarrow> ?Q j w')"
    using here keep w'(2) by (intro exI [of _ "(n, w')"]) simp
qed

end

interpretation mem_results: result_store mem_backend plain_inv plain_view
  by unfold_locales

section \<open>Properties\<close>

text \<open>
  C33: A finished job's result reaches the cluster. When the executor is the leader and sends a
  result that JSON carries, the handler accepts it at the first attempt; the leader then holds it
  under its hash, and so does every peer for which, in any run of exchanges as long as the
  retries, at least one request gets through, even if the reply to it is lost. The entries of
  other jobs stay as they were on every node, and a node that is no peer is untouched.
\<close>

theorem results_replicate:
  assumes "plain_inv (cp_results n)" "\<And>u. plain_inv (cp_results (pe_nodes w u))"
    and "jr_job_id r \<noteq> []" "sha (encode_function_result r) \<noteq> []" "result_sendable r"
  shows "case replicate_result sha
        (handle_result_sync mem_backend sha (cluster_env mem_backend sha link us k base)) k base r (n, w) of
      (res, (n', w'), waits) \<Rightarrow> res = Ok True \<and> waits = [] \<and>
        mem_results.installed sha (jr_job_id r) r n n' \<and>
        (\<forall>u. if u \<in> set us \<and> reachable_within link k u
             then mem_results.installed sha (jr_job_id r) r (pe_nodes w u) (pe_nodes w' u)
             else pe_nodes w' u = pe_nodes w u \<or>
               u \<in> set us \<and> mem_results.installed sha (jr_job_id r) r (pe_nodes w u) (pe_nodes w' u))"
proof -
  let ?c = "result_command ''JOB_RESULT_SYNC'' (jr_job_id r) (sha (encode_function_result r)) (encode_function_result r)"
  have w: "mem_results.all_inv w" and r: "mem_results.carries sha (jr_job_id r) r"
    using assms by (simp_all add: mem_results.all_inv_def mem_results.carries_def)
  obtain n' w' where h: "handle_result_sync mem_backend sha (cluster_env mem_backend sha link us k base) ?c (n, w) =
      (Ok (result_ok []), n', w')"
    and rest: "mem_results.installed sha (jr_job_id r) r n n'" "mem_results.spread sha (jr_job_id r) r (set us) w w'"
    "\<forall>u \<in> set us. reachable_within link k u \<longrightarrow>
       mem_results.installed sha (jr_job_id r) r (pe_nodes w u) (pe_nodes w' u)"
    using mem_results.sync_spread [OF assms(1) w r] .
  obtain m where m: "nat (max 1 k) = Suc m" by (cases "nat (max 1 k)") auto
  have "[0..<nat (max 1 k)] = 0 # [1..<Suc m]" unfolding m by (simp add: upt_conv_Cons)
  then have "replicate_result sha
        (handle_result_sync mem_backend sha (cluster_env mem_backend sha link us k base)) k base r (n, w) =
      (Ok True, (n', w'), [])"
    using h by (simp add: replicate_result_def Let_def push_with_retry_def result_ok_def)
  then show ?thesis using rest by (auto simp: mem_results.spread_def)
qed


text \<open>One peer behind a link that loses every other exchange, and the replies of the others.\<close>

definition lossy :: "string \<Rightarrow> nat \<Rightarrow> link" where
  "lossy uri i = (if even i then Dropped else Reply_Lost)"

lemma lossy_reachable: "reachable_within lossy 2 uri"
proof -
  have "\<exists>i < 2. lossy uri (c + i) \<noteq> Dropped" for c
    by (rule exI [of _ "if even c then 1 else 0"]) (simp add: lossy_def)
  then show ?thesis by (simp add: reachable_within_def)
qed

definition no_copies :: "function_result mem copies" where
  "no_copies = \<lparr>cp_results = mem_init, cp_known = consistency_init\<rparr>"

definition one_copy :: "function_result mem copies" where
  "one_copy = \<lparr>cp_results = snd (mem_put mem_init (pkey ''j'') (bare_result ''j'' True [])),
     cp_known = mark_synced ''j'' ''h'' consistency_init\<rparr>"

lemma bare_sendable [simp]: "result_sendable (bare_result job b e)"
  by (simp add: result_sendable_def bare_result_def)

theorem results_replicate_witness:
  "case replicate_result (\<lambda>_. ''h'')
      (handle_result_sync mem_backend (\<lambda>_. ''h'') (cluster_env mem_backend (\<lambda>_. ''h'') lossy [''tcp://b''] 2 0)) 2 0
      (bare_result ''j'' True []) (no_copies, \<lparr>pe_nodes = \<lambda>_. no_copies, pe_calls = 0\<rparr>) of
    (res, (n', w'), waits) \<Rightarrow> res = Ok True \<and>
      plain_view (cp_results n') ''j'' = Some (bare_result ''j'' True []) \<and>
      plain_view (cp_results (pe_nodes w' ''tcp://b'')) ''j'' = Some (bare_result ''j'' True [])"
    (is "case ?run of (res, (n', w'), waits) \<Rightarrow> _ res n' w'")
proof -
  obtain res n' w' waits where run: "?run = (res, (n', w'), waits)" by (metis surj_pair)
  have job: "jr_job_id (bare_result ''j'' True []) = ''j''" by (simp add: bare_result_def)
  have hyp: "plain_inv (cp_results no_copies)" by (simp add: no_copies_def)
  show ?thesis
    using results_replicate [of no_copies "\<lparr>pe_nodes = \<lambda>_. no_copies, pe_calls = 0\<rparr>" "bare_result ''j'' True []"
        "\<lambda>_. ''h''" "[''tcp://b'']" lossy 2 0] hyp
    unfolding run job by (auto simp: mem_results.installed_def lossy_reachable dest!: spec [where x = "''tcp://b''"])
qed

lemma one_copy_view: "plain_view (cp_results one_copy) j = (if j = ''j'' then Some (bare_result ''j'' True []) else None)"
  by (simp add: one_copy_def plain_view_def mem_put_pkey mem_init_def)

lemma one_copy_ok: "mem_results.leader_copies_ok (\<lambda>_. ''h'') one_copy"
  using mem_plain.put [of mem_init "''j''" "bare_result ''j'' True []"]
  by (auto simp: mem_results.leader_copies_ok_def one_copy_view mem_results.carries_def)
     (auto simp: one_copy_def consistency_hash_def mark_synced_def mem_put_pkey)


end
