(* ===== verification/Dataio.thy ===== *)
theory Dataio
  imports Sync
begin

text \<open>
  The data a running function reads and writes through its endpoint
  (\<open>axo_endpoint/core/dataio/protocol.py\<close>, \<open>ref.py\<close>, \<open>axo_endpoint/dataio.py\<close>). A reference names a blob of a
  backend, or a registered dataset when its location is a name and a version. The storage
  backends of the endpoint are the ones its data registry keeps its chunks in. The codecs of
  \<open>formats.py\<close> call pickle, numpy and pandas and are left out.
\<close>

section \<open>References\<close>

record io_ref =
  io_kind :: string
  io_location :: string
  io_format :: string
  io_chunk_index :: "int option"

definition io_ref_to_dict :: "io_ref \<Rightarrow> json" where
  "io_ref_to_dict r = JObj [(''kind'', JStr (io_kind r)), (''location'', JStr (io_location r)),
     (''format'', JStr (io_format r)), (''chunk_index'', json_opt JInt (io_chunk_index r))]"

definition io_ref_from_dict :: "(string, json) dict \<Rightarrow> io_ref res" where
  "io_ref_from_dict d =
    bind_res (bind_res (jitem d ''kind'') json_str) (\<lambda>kind.
    bind_res (bind_res (jitem d ''location'') json_str) (\<lambda>location.
    bind_res (json_str (dget d ''format'' (JStr ''raw''))) (\<lambda>format.
    bind_res (opt_res exact_int (jget d ''chunk_index'')) (\<lambda>i.
      Ok \<lparr>io_kind = kind, io_location = location, io_format = format, io_chunk_index = i\<rparr>))))"

lemma io_ref_roundtrip:
  "(case io_ref_to_dict r of JObj d \<Rightarrow> io_ref_from_dict d | _ \<Rightarrow> Raise TypeError) = Ok r"
  by (cases "io_chunk_index r")
    (simp_all add: io_ref_to_dict_def io_ref_from_dict_def jitem_def jget_def dget_def json_str_def json_opt_def
      opt_res_def exact_int_def)

text \<open>
  \<open>s.isdigit()\<close>, which also holds of the superscripts one, two and three, and \<open>int(s)\<close>, which
  rejects them.
\<close>

definition py_isdigit :: "string \<Rightarrow> bool" where
  "py_isdigit s = (s \<noteq> [] \<and> list_all (\<lambda>c. is_digit c \<or> c \<in> {CHR 0xB2, CHR 0xB3, CHR 0xB9}) s)"

definition parse_registered_ref :: "string \<Rightarrow> (string \<times> int) option res" where
  "parse_registered_ref location =
    (case py_rpartition ''/'' location of
       None \<Rightarrow> Ok None
     | Some (name, v) \<Rightarrow>
         (if name = [] \<or> \<not> py_isdigit v then Ok None
          else (case py_int v of Some n \<Rightarrow> Ok (Some (name, n)) | None \<Rightarrow> Raise ValueError)))"

section \<open>The operations\<close>

type_synonym ('c, 'b) io_op = "('c, 'b, bytes) data_op"

definition wrap_error :: "axo_error \<Rightarrow> axo_error" where
  "wrap_error e = AxoErr IOBackendError (err_msg e)"

definition unknown_io_kind :: "string \<Rightarrow> axo_error" where
  "unknown_io_kind kind = AxoErr UnknownIORefKindError (''no storage backend for kind='' @ py_repr kind)"

text \<open>A key type is known for the kind \<open>fs\<close> only; its keys are the locations themselves.\<close>

definition backend_for :: "io_ref \<Rightarrow> ('c, 'b) data_state \<Rightarrow> 'b option" where
  "backend_for ref st = (if io_kind ref \<in> set key_types then map_of (ds_blobs st) (io_kind ref) else None)"

definition io_read_blob :: "('c, 'b) data_env \<Rightarrow> io_ref \<Rightarrow> ('c, 'b) data_state \<Rightarrow> bytes res" where
  "io_read_blob E ref st =
    (case backend_for ref st of
       None \<Rightarrow> Err (unknown_io_kind (io_kind ref))
     | Some b \<Rightarrow>
         (case b_get (de_blob E) b (io_location ref) of
            Err e \<Rightarrow> Err (wrap_error e)
          | Raise ex \<Rightarrow> Raise ex
          | Ok None \<Rightarrow> Err (AxoErr IONotFoundError (''no blob at '' @ py_repr (io_location ref)))
          | Ok (Some x) \<Rightarrow> Ok x))"

definition wrap_res :: "'a res \<Rightarrow> 'a res" where
  "wrap_res r = (case r of Err e \<Rightarrow> Err (wrap_error e) | _ \<Rightarrow> r)"

definition io_read :: "('c, 'b) data_env \<Rightarrow> bool \<Rightarrow> io_ref \<Rightarrow> ('c, 'b) data_state \<Rightarrow> bytes res" where
  "io_read E has_registry ref st =
    (if \<not> has_registry then io_read_blob E ref st
     else
       (case parse_registered_ref (io_location ref) of
          Raise ex \<Rightarrow> Raise ex
        | Err e \<Rightarrow> Err e
        | Ok None \<Rightarrow> io_read_blob E ref st
        | Ok (Some (name, version)) \<Rightarrow>
            (case get_record E name version st of
               Raise ex \<Rightarrow> Raise ex
             | Ok (Some _) \<Rightarrow> wrap_res (read_whole E name version st)
             | _ \<Rightarrow> io_read_blob E ref st)))"

definition io_write :: "('c, 'b) data_env \<Rightarrow> io_ref \<Rightarrow> bytes \<Rightarrow> ('c, 'b) io_op" where
  "io_write E ref data st =
    (case backend_for ref st of
       None \<Rightarrow> (Err (unknown_io_kind (io_kind ref)), st, [])
     | Some b \<Rightarrow>
         (case b_put (de_blob E) b (io_location ref) data of
            (r, b) \<Rightarrow>
              ((case r of Ok _ \<Rightarrow> Ok [] | Err e \<Rightarrow> Err (wrap_error e) | Raise ex \<Rightarrow> Raise ex),
               st\<lparr>ds_blobs := dput (io_kind ref) b (ds_blobs st)\<rparr>, [])))"

text \<open>The operations on registered data need the registry and a location that names a dataset.\<close>

definition with_registered ::
  "bool \<Rightarrow> io_ref \<Rightarrow> (string \<Rightarrow> int \<Rightarrow> ('c, 'b) io_op) \<Rightarrow> ('c, 'b) io_op" where
  "with_registered has_registry ref f st =
    (if \<not> has_registry
     then (Err (AxoErr UnknownIORefKindError ''no data registry configured for this endpoint''), st, [])
     else
       (case parse_registered_ref (io_location ref) of
          Raise ex \<Rightarrow> (Raise ex, st, [])
        | Err e \<Rightarrow> (Err e, st, [])
        | Ok None \<Rightarrow> (Err (AxoErr UnknownIORefKindError
            (py_repr (io_location ref) @ '' is not a registered-data ref (expected '' @ [CHR 0x22] @ ''name/version'' @ [CHR 0x22] @ '')'')), st, [])
        | Ok (Some (name, version)) \<Rightarrow> f name version st))"

definition io_chunk_status :: "('c, 'b) data_env \<Rightarrow> bool \<Rightarrow> io_ref \<Rightarrow> ('c, 'b) io_op" where
  "io_chunk_status E has_registry ref =
    with_registered has_registry ref (\<lambda>name version st.
      case data_status_of E name version st of
        (Err e, st) \<Rightarrow> (Err e, st, [])
      | (Raise ex, st) \<Rightarrow> (Raise ex, st, [])
      | (Ok s, st) \<Rightarrow>
          (if \<not> st_registered s
           then (Err (AxoErr IONotFoundError (colon_name name version @ '' is not registered'')), st, [])
           else (Ok (dumps_bytes (JObj [(''total_chunks'', JInt (st_total_chunks s)),
                   (''chunk_bytes'', JInt (st_chunk_bytes s))])), st, [])))"

definition io_read_chunk :: "('c, 'b) data_env \<Rightarrow> bool \<Rightarrow> io_ref \<Rightarrow> ('c, 'b) io_op" where
  "io_read_chunk E has_registry ref st =
    (if \<not> has_registry
     then (Err (AxoErr UnknownIORefKindError ''no data registry configured for this endpoint''), st, [])
     else
       (case io_chunk_index ref of
          None \<Rightarrow> (Err (AxoErr UnknownIOOpError ''read_chunk requires ref.chunk_index''), st, [])
        | Some i \<Rightarrow>
            with_registered has_registry ref
              (\<lambda>name version st. (wrap_res (read_chunk E name version i st), st, [])) st))"

definition default_chunk_bytes :: int where
  "default_chunk_bytes = 262144"

text \<open>The chunk size of a stream: what the payload says, or the default when it says nothing usable.\<close>

definition stream_chunk_bytes :: "bytes \<Rightarrow> int res" where
  "stream_chunk_bytes data =
    (if data = [] then Ok default_chunk_bytes
     else
       (case loads_bytes data of
          Ok (JObj d) \<Rightarrow>
            (case json_int (dget d ''chunk_bytes'' (JInt default_chunk_bytes)) of
               Ok n \<Rightarrow> Ok n | _ \<Rightarrow> Ok default_chunk_bytes)
        | Ok _ \<Rightarrow> Raise AttributeError
        | _ \<Rightarrow> Ok default_chunk_bytes))"

definition io_open_stream :: "bool \<Rightarrow> io_ref \<Rightarrow> bytes \<Rightarrow> ('c, 'b) io_op" where
  "io_open_stream has_registry ref data =
    with_registered has_registry ref (\<lambda>name version st.
      case stream_chunk_bytes data of
        Raise ex \<Rightarrow> (Raise ex, st, [])
      | Err e \<Rightarrow> (Err e, st, [])
      | Ok n \<Rightarrow> (Ok [], open_data_stream name version (io_format ref) (io_kind ref) n st, []))"

definition io_append_chunk :: "('c, 'b) data_env \<Rightarrow> bool \<Rightarrow> io_ref \<Rightarrow> bytes \<Rightarrow> ('c, 'b) io_op" where
  "io_append_chunk E has_registry ref data =
    with_registered has_registry ref (\<lambda>name version st.
      case append_chunk E name version data st of
        (Ok i, st, evs) \<Rightarrow> (Ok (utf8_encode (str_nat i)), st, evs)
      | (Err e, st, evs) \<Rightarrow> (Err (wrap_error e), st, evs)
      | (Raise ex, st, evs) \<Rightarrow> (Raise ex, st, evs))"

definition io_finalize_stream :: "('c, 'b) data_env \<Rightarrow> bool \<Rightarrow> io_ref \<Rightarrow> flt \<Rightarrow> ('c, 'b) io_op" where
  "io_finalize_stream E has_registry ref now =
    with_registered has_registry ref (\<lambda>name version st.
      case finalize_stream E name version now st of
        (Ok _, st, evs) \<Rightarrow> (Ok [], st, evs)
      | (Err e, st, evs) \<Rightarrow> (Err (wrap_error e), st, evs)
      | (Raise ex, st, evs) \<Rightarrow> (Raise ex, st, evs))"

text \<open>\<open>data or b""\<close> makes no payload and an empty one the same.\<close>

definition resolve_io_request ::
  "('c, 'b) data_env \<Rightarrow> bool \<Rightarrow> string \<Rightarrow> io_ref \<Rightarrow> bytes option \<Rightarrow> flt \<Rightarrow> ('c, 'b) io_op" where
  "resolve_io_request E has_registry op ref body now st =
    (let data = (case body of None \<Rightarrow> [] | Some x \<Rightarrow> x) in
     if op = ''read'' then (io_read E has_registry ref st, st, [])
     else if op = ''write'' then io_write E ref data st
     else if op = ''chunk_status'' then io_chunk_status E has_registry ref st
     else if op = ''read_chunk'' then io_read_chunk E has_registry ref st
     else if op = ''open_stream'' then io_open_stream has_registry ref data st
     else if op = ''append_chunk'' then io_append_chunk E has_registry ref data st
     else if op = ''finalize_stream'' then io_finalize_stream E has_registry ref now st
     else (Err (AxoErr UnknownIOOpError (''unknown io op '' @ py_repr op)), st, []))"

section \<open>The client\<close>

text \<open>
  \<open>write_chunks\<close>: what a function does to register its output without knowing its size. The channel
  carries a request to the endpoint and its answer back; an error there is raised here.
\<close>

definition request :: "('c, 'b) data_env \<Rightarrow> string \<Rightarrow> io_ref \<Rightarrow> bytes option \<Rightarrow> flt \<Rightarrow> ('c, 'b) io_op" where
  "request E op ref data now st =
    (case resolve_io_request E True op ref data now st of
       (Err e, st, evs) \<Rightarrow> (Raise (PyRaised (AxoErr DataIOError (err_msg e))), st, evs)
     | r \<Rightarrow> r)"

fun append_all :: "('c, 'b) data_env \<Rightarrow> io_ref \<Rightarrow> bytes list \<Rightarrow> flt \<Rightarrow> ('c, 'b, unit) data_op" where
  "append_all E ref [] now st = (Ok (), st, [])"
| "append_all E ref (c # cs) now st =
    (case request E ''append_chunk'' ref (Some c) now st of
       (Ok _, st, evs) \<Rightarrow> (case append_all E ref cs now st of (r, st, evs') \<Rightarrow> (r, st, evs @ evs'))
     | (Err e, st, evs) \<Rightarrow> (Err e, st, evs)
     | (Raise ex, st, evs) \<Rightarrow> (Raise ex, st, evs))"

definition write_chunks ::
  "('c, 'b) data_env \<Rightarrow> string \<Rightarrow> int \<Rightarrow> bytes list \<Rightarrow> string \<Rightarrow> string \<Rightarrow> int \<Rightarrow> flt \<Rightarrow> ('c, 'b, io_ref) data_op" where
  "write_chunks E name version chunks format kind chunk_bytes now st =
    (let ref = \<lparr>io_kind = kind, io_location = name @ ''/'' @ str_int version, io_format = format, io_chunk_index = None\<rparr>
     in case request E ''open_stream'' ref (Some (dumps_bytes (JObj [(''chunk_bytes'', JInt chunk_bytes)]))) now st of
          (Err e, st, evs) \<Rightarrow> (Err e, st, evs)
        | (Raise ex, st, evs) \<Rightarrow> (Raise ex, st, evs)
        | (Ok _, st, evs) \<Rightarrow>
            (case append_all E ref chunks now st of
               (Err e, st, evs') \<Rightarrow> (Err e, st, evs @ evs')
             | (Raise ex, st, evs') \<Rightarrow> (Raise ex, st, evs @ evs')
             | (Ok _, st, evs') \<Rightarrow>
                 (case request E ''finalize_stream'' ref None now st of
                    (Err e, st, evs'') \<Rightarrow> (Err e, st, evs @ evs' @ evs'')
                  | (Raise ex, st, evs'') \<Rightarrow> (Raise ex, st, evs @ evs' @ evs'')
                  | (Ok _, st, evs'') \<Rightarrow> (Ok ref, st, evs @ evs' @ evs''))))"

section \<open>What a function streams out is read back\<close>

lemma str_nat_isdigit [simp]: "py_isdigit (str_nat n)"
proof -
  have "str_nat n \<noteq> []" by simp
  then show ?thesis using str_nat_digits [of n] by (auto simp: py_isdigit_def list_all_iff)
qed

lemma parse_registered_location:
  assumes "name \<noteq> []" "0 \<le> v"
  shows "parse_registered_ref (name @ ''/'' @ str_int v) = Ok (Some (name, v))"
proof -
  have "CHR ''/'' \<notin> set (str_int v)" using str_int_chars [of "CHR ''/''" v] by auto
  then have "py_rpartition ''/'' (name @ ''/'' @ str_int v) = Some (name, str_int v)"
    using py_rpartition_char [of "CHR ''/''" "str_int v" name] by simp
  moreover have "py_isdigit (str_int v)" using assms(2) by (simp add: str_int_def)
  ultimately show ?thesis using assms(1) by (simp add: parse_registered_ref_def)
qed

context data_store
begin

lemma append_chunk_ok:
  assumes ok: "state_ok st" and s: "map_of (ds_streams st) (name, v) = Some s" "os_kind s = ''fs''"
    and paths: "\<And>i. bok (chunk_path name v i)"
  obtains st' where "append_chunk E name v x st = (Ok (os_next_index s), st', [])" "state_ok st'"
    "ds_catalog st' = ds_catalog st"
    "map_of (ds_streams st') (name, v) = Some (s\<lparr>os_hasher := os_hasher s @ x,
       os_total_size := os_total_size s + int (length x), os_next_index := os_next_index s + 1\<rparr>)"
    "\<And>i. 0 \<le> i \<Longrightarrow> bview (fs_blob st') (chunk_path name v i) =
       (if i = int (os_next_index s) then Some x else bview (fs_blob st) (chunk_path name v i))"
proof -
  note b = fs_blob_ok [OF ok]
  let ?p = "chunk_path name v (int (os_next_index s))"
  obtain q b' where put: "b_put (de_blob E) (fs_blob st) ?p x = (Ok q, b')" "binv b'"
    "\<forall>p. bok p \<longrightarrow> bview b' p = ((bview (fs_blob st))(?p \<mapsto> x)) p"
    using blob.put [of "fs_blob st" ?p x] b paths by auto
  let ?st = "st\<lparr>ds_blobs := dput ''fs'' b' (ds_blobs st),
     ds_streams := dput (name, v) (s\<lparr>os_hasher := os_hasher s @ x,
       os_total_size := os_total_size s + int (length x), os_next_index := os_next_index s + 1\<rparr>) (ds_streams st)\<rparr>"
  have "append_chunk E name v x st = (Ok (os_next_index s), ?st, [])"
    using s b put(1) by (simp add: append_chunk_def chunk_key_def key_types_def)
  moreover have "fs_blob ?st = b'" by (simp add: fs_blob_def)
  ultimately show thesis
    using that [of ?st] put(2,3) paths ok chunk_path_inject [of _ "int (os_next_index s)" name v]
    by (auto simp: state_ok_def)
qed

lemma append_all_ok:
  assumes "io_location ref = name @ ''/'' @ str_int v" "name \<noteq> []" "0 \<le> v" "\<And>i. bok (chunk_path name v i)"
    and "state_ok st" "map_of (ds_streams st) (name, v) = Some s" "os_kind s = ''fs''"
  shows "\<exists>st' s'. append_all E ref cs now st = (Ok (), st', []) \<and> state_ok st' \<and> ds_catalog st' = ds_catalog st \<and>
    map_of (ds_streams st') (name, v) = Some s' \<and> os_kind s' = ''fs'' \<and>
    os_next_index s' = os_next_index s + length cs \<and>
    (\<forall>j < length cs. bview (fs_blob st') (chunk_path name v (int (os_next_index s + j))) = Some (cs ! j)) \<and>
    (\<forall>i < os_next_index s. bview (fs_blob st') (chunk_path name v (int i)) = bview (fs_blob st) (chunk_path name v (int i)))"
  using assms(5-7)
proof (induction cs arbitrary: st s)
  case Nil
  then show ?case by simp
next
  case (Cons c cs)
  obtain st1 where st1: "append_chunk E name v c st = (Ok (os_next_index s), st1, [])" "state_ok st1"
    "ds_catalog st1 = ds_catalog st"
    "map_of (ds_streams st1) (name, v) = Some (s\<lparr>os_hasher := os_hasher s @ c,
       os_total_size := os_total_size s + int (length c), os_next_index := os_next_index s + 1\<rparr>)"
    "\<And>i. 0 \<le> i \<Longrightarrow> bview (fs_blob st1) (chunk_path name v i) =
       (if i = int (os_next_index s) then Some c else bview (fs_blob st) (chunk_path name v i))"
    using append_chunk_ok [OF Cons.prems assms(4)] by blast
  let ?s1 = "s\<lparr>os_hasher := os_hasher s @ c, os_total_size := os_total_size s + int (length c),
     os_next_index := os_next_index s + 1\<rparr>"
  obtain st2 s2 where st2: "append_all E ref cs now st1 = (Ok (), st2, [])" "state_ok st2"
    "ds_catalog st2 = ds_catalog st1" "map_of (ds_streams st2) (name, v) = Some s2" "os_kind s2 = ''fs''"
    "os_next_index s2 = os_next_index ?s1 + length cs"
    "\<forall>j < length cs. bview (fs_blob st2) (chunk_path name v (int (os_next_index ?s1 + j))) = Some (cs ! j)"
    "\<forall>i < os_next_index ?s1. bview (fs_blob st2) (chunk_path name v (int i)) = bview (fs_blob st1) (chunk_path name v (int i))"
    using Cons.IH [OF st1(2,4)] Cons.prems(3) by auto
  have run: "append_all E ref (c # cs) now st = (Ok (), st2, [])"
    using st1(1) st2(1) parse_registered_location [OF assms(2,3)] assms(1)
    by (simp add: request_def resolve_io_request_def io_append_chunk_def with_registered_def)
  have "bview (fs_blob st2) (chunk_path name v (int (os_next_index s + j))) = Some ((c # cs) ! j)"
    if j: "j < length (c # cs)" for j
  proof (cases j)
    case 0
    then show ?thesis using st2(8) st1(5) [of "int (os_next_index s)"] by simp
  next
    case (Suc m)
    then show ?thesis using st2(7) j by simp
  qed
  moreover have "bview (fs_blob st2) (chunk_path name v (int i)) = bview (fs_blob st) (chunk_path name v (int i))"
    if "i < os_next_index s" for i
    using that st2(8) st1(5) [of "int i"] by simp
  ultimately show ?case using run st2(2-6) st1(3) by (intro exI [of _ st2] exI [of _ s2]) simp
qed

lemma write_chunks_read:
  assumes ok: "state_ok st" and name: "name \<noteq> []" "0 \<le> v" and paths: "\<And>i. bok (chunk_path name v i)"
    and hash: "de_hash E ''sha256'' \<noteq> None"
  shows "\<exists>ref st' evs. write_chunks E name v cs fmt ''fs'' cb now st = (Ok ref, st', evs) \<and> state_ok st' \<and>
    resolve_io_request E True ''read'' ref None later st' = (Ok (concat cs), st', [])"
proof -
  define ref where "ref = \<lparr>io_kind = ''fs'', io_location = name @ ''/'' @ str_int v, io_format = fmt, io_chunk_index = None\<rparr>"
  have loc: "io_location ref = name @ ''/'' @ str_int v" by (simp add: ref_def)
  note parse = parse_registered_location [OF name]
  let ?st0 = "open_data_stream name v fmt ''fs'' cb st"
  have "stream_chunk_bytes (dumps_bytes (JObj [(''chunk_bytes'', JInt cb)])) = Ok cb"
  proof -
    have "json_ok (JObj [(''chunk_bytes'', JInt cb)])" by simp
    then have l: "loads_bytes (dumps_bytes (JObj [(''chunk_bytes'', JInt cb)])) = Ok (JObj [(''chunk_bytes'', JInt cb)])"
      by (rule loads_dumps)
    moreover have "loads_bytes [] = Raise JSONDecodeError" by code_simp
    ultimately have "dumps_bytes (JObj [(''chunk_bytes'', JInt cb)]) \<noteq> []" by force
    then show ?thesis using l by (simp add: stream_chunk_bytes_def json_int_def dget_def)
  qed
  then have open_ok: "request E ''open_stream'' ref (Some (dumps_bytes (JObj [(''chunk_bytes'', JInt cb)]))) now st = (Ok [], ?st0, [])"
    using parse by (simp add: request_def resolve_io_request_def io_open_stream_def with_registered_def ref_def)
  obtain s where s: "map_of (ds_streams ?st0) (name, v) = Some s" "os_kind s = ''fs''" "os_next_index s = 0"
    by (simp add: open_data_stream_def)
  have ok0: "state_ok ?st0" using ok by (simp add: state_ok_def open_data_stream_def)
  obtain st1 s1 where st1: "append_all E ref cs now ?st0 = (Ok (), st1, [])" "state_ok st1"
    "map_of (ds_streams st1) (name, v) = Some s1" "os_kind s1 = ''fs''" "os_next_index s1 = length cs"
    "\<forall>j < length cs. bview (fs_blob st1) (chunk_path name v (int j)) = Some (cs ! j)"
    using append_all_ok [OF loc name paths ok0 s(1,2), of cs now] s(3) by auto
  obtain h where h: "de_hash E ''sha256'' = Some h" using hash by blast
  obtain r st2 evs where st2: "finalize_stream E name v now st1 = (Ok r, st2, evs)" "state_ok st2"
    "ds_blobs st2 = ds_blobs st1" "cview (ds_catalog st2) (name, v) = Some r" "dr_kind r = ''fs''"
    "dr_total_chunks r = int (length cs)"
  proof -
    let ?r = "\<lparr>dr_name = name, dr_version = v, dr_alias = name, dr_format = os_format s1, dr_kind = os_kind s1,
       dr_total_size = os_total_size s1, dr_chunk_bytes = os_chunk_bytes s1,
       dr_total_chunks = int (os_next_index s1), dr_created_at = now, dr_declared_hash = Some (h (os_hasher s1)),
       dr_content_hash_algo = ''sha256''\<rparr>"
    obtain q c where c: "b_put (de_catalog E) (ds_catalog st1) (ckey (name, v)) ?r = (Ok q, c)" "cinv c"
      "cview c = (cview (ds_catalog st1))((name, v) \<mapsto> ?r)"
      using cat.catalog_put_ok [of "ds_catalog st1" "(name, v)" ?r] st1(2) by (auto simp: state_ok_def)
    obtain first st2 where m: "mark_completed_if_first_time name v
        (st1\<lparr>ds_streams := dpop (name, v) (ds_streams st1), ds_catalog := c\<rparr>) = (first, st2)"
      by (cases "mark_completed_if_first_time name v
        (st1\<lparr>ds_streams := dpop (name, v) (ds_streams st1), ds_catalog := c\<rparr>)")
    then have "ds_blobs st2 = ds_blobs st1" "ds_catalog st2 = c"
      by (auto simp: mark_completed_if_first_time_def split: if_splits)
    moreover have "finalize_stream E name v now st1 = (Ok ?r, st2,
        registered_event ?r now # (if first then [upload_completed_event ?r now] else []))"
      using st1(3) h c(1) m by (simp add: finalize_stream_def Let_def)
    ultimately show thesis using that [of ?r st2] c st1(2,4,5) by (auto simp: state_ok_def)
  qed
  have fin: "request E ''finalize_stream'' ref None now st1 = (Ok [], st2, evs)"
    using st2(1) parse by (simp add: request_def resolve_io_request_def io_finalize_stream_def with_registered_def ref_def)
  have run: "write_chunks E name v cs fmt ''fs'' cb now st = (Ok ref, st2, evs)"
    using open_ok st1(1) fin by (simp add: write_chunks_def Let_def ref_def)
  have "fs_blob st2 = fs_blob st1" using st2(3) by (simp add: fs_blob_def)
  then have "\<forall>i \<in> set (chunk_indices (dr_total_chunks r)). bview (fs_blob st2) (chunk_path name v i) = Some (cs ! nat i)"
    using st1(6) st2(6) by (auto simp: chunk_indices_def)
  then have "read_chunks E name v (chunk_indices (dr_total_chunks r)) st2 =
      Ok (map (\<lambda>i. cs ! nat i) (chunk_indices (dr_total_chunks r)))"
    by (rule read_chunks_view [OF st2(2,4,5) paths])
  moreover have "map (\<lambda>i. cs ! nat i) (chunk_indices (dr_total_chunks r)) = cs"
    using st2(6) by (simp add: chunk_indices_def comp_def map_nth)
  ultimately have "read_whole E name v st2 = Ok (concat cs)"
    using get_record_view [OF st2(2)] st2(4) by (simp add: read_whole_def)
  then have "resolve_io_request E True ''read'' ref None later st2 = (Ok (concat cs), st2, [])"
    using parse loc get_record_view [OF st2(2)] st2(4)
    by (simp add: resolve_io_request_def io_read_def wrap_res_def)
  then show ?thesis using run st2(2) by blast
qed

end

text \<open>
  C35: A function's streamed output is what its readers get. Whatever sizes the chunks have that a
  function writes under a name and a version, an earlier dataset of that name included, the
  stream is registered without an error, and reading the reference afterwards gives the
  concatenation of the chunks.
\<close>

theorem streamed_output_reads_back:
  assumes "node_data.state_ok st" "clean_path name" "name \<noteq> []" "0 \<le> v" "H ''sha256'' \<noteq> None"
  shows "\<exists>ref st' evs. write_chunks (node_env H root) name v cs fmt ''fs'' cb now st = (Ok ref, st', evs) \<and>
    node_data.state_ok st' \<and>
    resolve_io_request (node_env H root) True ''read'' ref None later st' = (Ok (concat cs), st', [])"
  using assms clean_chunk_path [OF assms(2)] by (intro node_data.write_chunks_read) simp_all

lemma streamed_output_reads_back_witness:
  "\<exists>ref st' evs. write_chunks (node_env (\<lambda>_. Some (\<lambda>_. ''h'')) ''/d'') ''out'' 1 [''ab'', [], ''c''] ''raw'' ''fs'' 10 0
      (data_init mem_init [(''fs'', [])]) = (Ok ref, st', evs) \<and>
    resolve_io_request (node_env (\<lambda>_. Some (\<lambda>_. ''h'')) ''/d'') True ''read'' ref None 5 st' = (Ok ''abc'', st', [])"
proof -
  have "node_data.state_ok (data_init mem_init [(''fs'', [])])"
    by (simp add: node_data.state_ok_def data_init_def)
  moreover have "clean_path ''out''" by (simp add: clean_path_def clean_segment_def plain_segment_def)
  ultimately show ?thesis
    using streamed_output_reads_back [of "data_init mem_init [(''fs'', [])]" "''out''" 1 "\<lambda>_. Some (\<lambda>_. ''h'')" "''/d''"
        "[''ab'', [], ''c'']" "''raw''" 10 0 5] by auto
qed

end
