(* ===== verification/Process_Runtime.thy ===== *)
theory Process_Runtime
  imports Results Dataio
begin

text \<open>
  The runtime that gives a function its own processes (\<open>service/runtime/process_runtime.py\<close>): the
  worker handles and their pools, acceptance of a job, the pump thread of a worker, cancellation,
  the reaction to a crash and to a timeout, and the sweeps. The threads' interleaving is a list of
  actions, each of them one uninterrupted piece of one thread: an acceptance, one step of a pump, a
  cancellation, a sweep, or what a worker process does by itself. What an action reports, events
  and completed jobs, is returned in order. The scratch folders are left out.
\<close>

section \<open>Handles\<close>

record invocation_handle =
  ih_job_id :: string
  ih_function_id :: string
  ih_version :: "int option"
  ih_started_at :: "flt option"

type_synonym job_params = "(string, json) dict"

text \<open>An element of a worker's queue: a job, or the sentinel that stops the pump.\<close>

type_synonym queue_item = "(string \<times> job_params) option"

text \<open>What a worker process sends: the outcome of its job, or a data request.\<close>

datatype worker_message =
    Result_Ok py_value "string list"
  | Result_Err string "string list"
  | Io_Request string io_ref "bytes option"

text \<open>The pump thread of a worker: at the queue, polling for a job's outcome since a time, or ended.\<close>

datatype pump = Waiting | Serving string flt | Stopped

text \<open>The pipe holds what the process has sent and the pump has not received; it survives the process.\<close>

record worker =
  wk_function_id :: string
  wk_version :: "int option"
  wk_alive :: bool
  wk_pipe :: "worker_message list"
  wk_queue :: "queue_item list"
  wk_pump :: pump
  wk_last_used :: flt
  wk_invocation_count :: int
  wk_busy :: bool
  wk_current_job :: "string option"
  wk_max_duration :: flt
  wk_cancelled :: bool

definition touch_worker :: "flt \<Rightarrow> worker \<Rightarrow> worker" where
  "touch_worker now w = w\<lparr>wk_last_used := now, wk_invocation_count := wk_invocation_count w + 1\<rparr>"

definition worker_is_idle :: "flt \<Rightarrow> flt \<Rightarrow> worker \<Rightarrow> bool" where
  "worker_is_idle ttl now w = (\<not> wk_busy w \<and> ttl < now - wk_last_used w)"

definition worker_exceeded :: "int \<Rightarrow> worker \<Rightarrow> bool" where
  "worker_exceeded max_invocations w = (max_invocations \<noteq> 0 \<and> max_invocations \<le> wk_invocation_count w)"

section \<open>Pools\<close>

text \<open>Workers are objects, named by the order of their creation; a pool lists the names of its members.\<close>

record process_runtime =
  pr_workers :: "nat \<Rightarrow> worker option"
  pr_pools :: "(string \<times> int option, nat list) dict"
  pr_next :: nat

definition pr_init :: process_runtime where
  "pr_init = \<lparr>pr_workers = (\<lambda>_. None), pr_pools = [], pr_next = 0\<rparr>"

definition pool_of :: "string \<times> int option \<Rightarrow> process_runtime \<Rightarrow> nat list" where
  "pool_of k pr = dget (pr_pools pr) k []"

definition the_worker :: "process_runtime \<Rightarrow> nat \<Rightarrow> worker" where
  "the_worker pr i = the (pr_workers pr i)"

definition with_worker :: "nat \<Rightarrow> (worker \<Rightarrow> worker) \<Rightarrow> process_runtime \<Rightarrow> process_runtime" where
  "with_worker i f pr = pr\<lparr>pr_workers := (pr_workers pr)(i := map_option f (pr_workers pr i))\<rparr>"

definition get_idle_or_none :: "string \<times> int option \<Rightarrow> process_runtime \<Rightarrow> nat option" where
  "get_idle_or_none k pr =
    find (\<lambda>i. \<not> wk_busy (the_worker pr i) \<and> wk_queue (the_worker pr i) = []) (pool_of k pr)"

text \<open>\<open>min(pool, key=...)\<close>: the first of the smallest.\<close>

fun py_min_by :: "('a \<Rightarrow> nat) \<Rightarrow> 'a \<Rightarrow> 'a list \<Rightarrow> 'a" where
  "py_min_by f b [] = b"
| "py_min_by f b (x # xs) = py_min_by f (if f x < f b then x else b) xs"

definition least_loaded :: "string \<times> int option \<Rightarrow> process_runtime \<Rightarrow> nat option" where
  "least_loaded k pr =
    (case pool_of k pr of
       [] \<Rightarrow> None
     | i # is \<Rightarrow> Some (py_min_by (\<lambda>i. length (wk_queue (the_worker pr i))) i is))"

definition register_worker :: "nat \<Rightarrow> worker \<Rightarrow> process_runtime \<Rightarrow> process_runtime" where
  "register_worker i w pr =
    (let k = (wk_function_id w, wk_version w)
     in pr\<lparr>pr_workers := (pr_workers pr)(i \<mapsto> w), pr_pools := dput k (pool_of k pr @ [i]) (pr_pools pr)\<rparr>)"

definition worker_key :: "process_runtime \<Rightarrow> nat \<Rightarrow> string \<times> int option" where
  "worker_key pr i = (wk_function_id (the_worker pr i), wk_version (the_worker pr i))"

definition evict_worker :: "nat \<Rightarrow> process_runtime \<Rightarrow> process_runtime" where
  "evict_worker i pr =
    (let k = worker_key pr i in
     case map_of (pr_pools pr) k of
       None \<Rightarrow> pr
     | Some pool \<Rightarrow>
         (if i \<notin> set pool then pr
          else if remove1 i pool = [] then pr\<lparr>pr_pools := dpop k (pr_pools pr)\<rparr>
          else pr\<lparr>pr_pools := dput k (remove1 i pool) (pr_pools pr)\<rparr>))"

definition list_handles :: "process_runtime \<Rightarrow> nat list" where
  "list_handles pr = concat (dvalues (pr_pools pr))"

definition find_by_job_id :: "string \<Rightarrow> process_runtime \<Rightarrow> nat option" where
  "find_by_job_id job pr = find (\<lambda>i. wk_current_job (the_worker pr i) = Some job) (list_handles pr)"

section \<open>Effects\<close>

datatype effect =
    Emitted event
  | Completed invocation_handle "py_value res" "string list"

definition fn_json :: "string \<Rightarrow> int option \<Rightarrow> (string, json) dict" where
  "fn_json i v = [(''function_id'', JStr i), (''version'', json_opt JInt v)]"

definition emit_fn :: "string \<Rightarrow> string \<Rightarrow> int option \<Rightarrow> (string, json) dict \<Rightarrow> flt \<Rightarrow> effect" where
  "emit_fn ty i v extra now = Emitted \<lparr>ev_type = ty, ev_payload = fn_json i v @ extra, ev_time = now\<rparr>"

text \<open>A job of a worker that ends without an outcome of its own.\<close>

definition fail_job :: "worker \<Rightarrow> axo_error \<Rightarrow> string \<times> flt option \<Rightarrow> effect" where
  "fail_job w e j = Completed \<lparr>ih_job_id = fst j, ih_function_id = wk_function_id w, ih_version = wk_version w,
     ih_started_at = snd j\<rparr> (Err e) []"

definition worker_crashed :: "string \<Rightarrow> axo_error" where
  "worker_crashed text = AxoErr WorkerCrashedError text"

section \<open>Accepting a job\<close>

text \<open>The catalog is an argument: the registry's lookup of a key.\<close>

type_synonym catalog = "storage_key \<Rightarrow> function_record option res"

definition max_concurrency_for :: "catalog \<Rightarrow> storage_key \<Rightarrow> int res" where
  "max_concurrency_for get_fn key =
    (case get_fn key of
       Raise ex \<Rightarrow> Raise ex
     | Err _ \<Rightarrow> Ok 1
     | Ok None \<Rightarrow> Ok 1
     | Ok (Some r) \<Rightarrow>
         Ok (case fr_runtime_spec r of None \<Rightarrow> 1 | Some s \<Rightarrow> max 1 (rs_max_concurrency s)))"

definition deploy_failed :: "storage_key \<Rightarrow> axo_error \<Rightarrow> flt \<Rightarrow> effect" where
  "deploy_failed key e now = emit_fn ''FUNCTION_DEPLOY_FAILED'' (sk_id key) (sk_version key)
     [(''error_message'', JStr (err_msg e))] now"

definition new_worker :: "storage_key \<Rightarrow> function_record \<Rightarrow> worker" where
  "new_worker key r = \<lparr>wk_function_id = sk_id key, wk_version = sk_version key, wk_alive = True, wk_pipe = [],
     wk_queue = [], wk_pump = Waiting, wk_last_used = 0, wk_invocation_count = 0, wk_busy = False,
     wk_current_job = None,
     wk_max_duration = (case fr_runtime_spec r of None \<Rightarrow> 0 | Some s \<Rightarrow> rs_max_duration_seconds s),
     wk_cancelled = False\<rparr>"

definition spawn_worker ::
  "catalog \<Rightarrow> storage_key \<Rightarrow> flt \<Rightarrow> process_runtime \<Rightarrow> nat res \<times> process_runtime \<times> effect list" where
  "spawn_worker get_fn key now pr =
    (case get_fn key of
       Raise ex \<Rightarrow> (Raise ex, pr, [])
     | Err raw \<Rightarrow>
         (let e = AxoErr FunctionRuntimeError (err_msg raw) in (Err e, pr, [deploy_failed key e now]))
     | Ok None \<Rightarrow>
         (let e = AxoErr FunctionNotFoundError (''no registered function for '' @ key_repr key)
          in (Err e, pr, [deploy_failed key e now]))
     | Ok (Some r) \<Rightarrow>
         (let i = pr_next pr
          in (Ok i, (register_worker i (new_worker key r) pr)\<lparr>pr_next := i + 1\<rparr>,
              [emit_fn ''FUNCTION_DEPLOYED'' (sk_id key) (sk_version key) [] now])))"

definition choose_worker ::
  "catalog \<Rightarrow> storage_key \<Rightarrow> flt \<Rightarrow> process_runtime \<Rightarrow> nat res \<times> process_runtime \<times> effect list" where
  "choose_worker get_fn key now pr =
    (let k = (sk_id key, sk_version key) in
     case get_idle_or_none k pr of
       Some i \<Rightarrow> (Ok i, pr, [])
     | None \<Rightarrow>
         (case max_concurrency_for get_fn key of
            Raise ex \<Rightarrow> (Raise ex, pr, [])
          | Err e \<Rightarrow> (Err e, pr, [])
          | Ok m \<Rightarrow>
              (if int (length (pool_of k pr)) < m then spawn_worker get_fn key now pr
               else (case least_loaded k pr of
                       Some i \<Rightarrow> (Ok i, pr, [])
                     | None \<Rightarrow> spawn_worker get_fn key now pr))))"

definition prt_invoke ::
  "catalog \<Rightarrow> storage_key \<Rightarrow> string \<Rightarrow> job_params \<Rightarrow> flt \<Rightarrow> process_runtime \<Rightarrow>
   invocation_handle res \<times> process_runtime \<times> effect list" where
  "prt_invoke get_fn key job params now pr =
    (case choose_worker get_fn key now pr of
       (Ok i, pr, effs) \<Rightarrow>
         (Ok \<lparr>ih_job_id = job, ih_function_id = sk_id key, ih_version = sk_version key, ih_started_at = None\<rparr>,
          with_worker i (\<lambda>w. w\<lparr>wk_queue := wk_queue w @ [Some (job, params)]\<rparr>) pr, effs)
     | (Err e, pr, effs) \<Rightarrow> (Err e, pr, effs)
     | (Raise ex, pr, effs) \<Rightarrow> (Raise ex, pr, effs))"

section \<open>Ends of a worker\<close>

text \<open>
  Emptying a queue with \<open>get_nowait\<close>: every element is unpacked as a job, so the sentinel raises
  \<open>TypeError\<close>; what comes after it stays in the queue.
\<close>

fun drain_queue :: "queue_item list \<Rightarrow> string list res \<times> queue_item list" where
  "drain_queue [] = (Ok [], [])"
| "drain_queue (None # q) = (Raise TypeError, q)"
| "drain_queue (Some (job, _) # q) =
    (case drain_queue q of
       (Ok jobs, q) \<Rightarrow> (Ok (job # jobs), q)
     | (r, q) \<Rightarrow> (r, q))"

definition terminate_process :: "worker \<Rightarrow> worker" where
  "terminate_process w = w\<lparr>wk_alive := False\<rparr>"

text \<open>The three ends share the eviction and the emptying of the queue, in this order.\<close>

definition recycle ::
  "nat \<Rightarrow> process_runtime \<Rightarrow> string list res \<times> process_runtime" where
  "recycle i pr =
    (let pr = evict_worker i pr in
     case drain_queue (wk_queue (the_worker pr i)) of
       (r, q) \<Rightarrow> (r, with_worker i (\<lambda>w. w\<lparr>wk_queue := q\<rparr>) pr))"

definition handle_crash ::
  "nat \<Rightarrow> string \<Rightarrow> flt option \<Rightarrow> flt \<Rightarrow> process_runtime \<Rightarrow> unit res \<times> process_runtime \<times> effect list" where
  "handle_crash i job started now pr =
    (let w = the_worker pr i in
     if wk_cancelled w then (Ok (), pr, [])
     else
       (case recycle i pr of
          (Ok pending, pr) \<Rightarrow>
            (Ok (), pr,
             emit_fn ''FUNCTION_CRASHED'' (wk_function_id w) (wk_version w) [] now #
             map (fail_job w (worker_crashed ''worker crashed''))
               ((job, started) # map (\<lambda>j. (j, None)) pending))
        | (Err e, pr) \<Rightarrow> (Err e, pr, [])
        | (Raise ex, pr) \<Rightarrow> (Raise ex, pr, [])))"

definition handle_timeout ::
  "nat \<Rightarrow> string \<Rightarrow> flt option \<Rightarrow> flt \<Rightarrow> process_runtime \<Rightarrow> unit res \<times> process_runtime \<times> effect list" where
  "handle_timeout i job started now pr =
    (let w = the_worker pr i in
     if wk_cancelled w then (Ok (), pr, [])
     else
       (case recycle i pr of
          (Ok pending, pr) \<Rightarrow>
            (Ok (), with_worker i terminate_process pr,
             emit_fn ''FUNCTION_CRASHED'' (wk_function_id w) (wk_version w) [] now #
             fail_job w (AxoErr JobTimeoutError (''job exceeded max_duration_seconds='' @ str_float (wk_max_duration w)))
               (job, started) #
             map (fail_job w (worker_crashed ''worker recycled after a sibling job timed out''))
               (map (\<lambda>j. (j, None)) pending))
        | (Err e, pr) \<Rightarrow> (Err e, pr, [])
        | (Raise ex, pr) \<Rightarrow> (Raise ex, pr, [])))"

text \<open>The \<open>finally\<close> of the pump, and the end of its thread.\<close>

definition pump_released :: "pump \<Rightarrow> worker \<Rightarrow> worker" where
  "pump_released p w = w\<lparr>wk_busy := False, wk_current_job := None, wk_pump := p\<rparr>"

definition pump_ends ::
  "nat \<Rightarrow> unit res \<times> process_runtime \<times> effect list \<Rightarrow> process_runtime \<times> effect list" where
  "pump_ends i res = (case res of (_, pr, effs) \<Rightarrow> (with_worker i (pump_released Stopped) pr, effs))"

section \<open>The pump\<close>

text \<open>Taking the next element of the queue.\<close>

definition job_started :: "worker \<Rightarrow> string \<Rightarrow> job_params \<Rightarrow> flt \<Rightarrow> effect" where
  "job_started w job params now = Emitted \<lparr>ev_type = ''JOB_STARTED'',
     ev_payload = [(''job_id'', JStr job), (''function_id'', JStr (wk_function_id w)),
       (''function_version'', json_opt JInt (wk_version w)), (''params'', JObj params)], ev_time = now\<rparr>"

definition pump_take :: "nat \<Rightarrow> flt \<Rightarrow> process_runtime \<Rightarrow> process_runtime \<times> effect list" where
  "pump_take i now pr =
    (let w = the_worker pr i in
     case (wk_pump w, wk_queue w) of
       (Waiting, None # q) \<Rightarrow> (with_worker i (\<lambda>w. w\<lparr>wk_queue := q, wk_pump := Stopped\<rparr>) pr, [])
     | (Waiting, Some (job, params) # q) \<Rightarrow>
         (let pr = with_worker i (\<lambda>w. w\<lparr>wk_queue := q, wk_busy := True, wk_current_job := Some job\<rparr>) pr in
          if \<not> wk_alive w then pump_ends i (handle_crash i job None now pr)
          else (with_worker i (\<lambda>w. w\<lparr>wk_pump := Serving job now\<rparr>) pr, [job_started w job params now]))
     | _ \<Rightarrow> (pr, []))"

text \<open>A poll that finds nothing within its second: only the deadline is checked.\<close>

definition deadline_passed :: "worker \<Rightarrow> flt \<Rightarrow> flt \<Rightarrow> bool" where
  "deadline_passed w started now = (0 < wk_max_duration w \<and> started + wk_max_duration w < now)"

definition complete_job ::
  "nat \<Rightarrow> string \<Rightarrow> flt \<Rightarrow> py_value res \<Rightarrow> string list \<Rightarrow> flt \<Rightarrow> process_runtime \<Rightarrow> process_runtime \<times> effect list" where
  "complete_job i job started outcome warnings now pr =
    (let w = the_worker pr i in
     (with_worker i (pump_released Waiting \<circ> touch_worker now) pr,
      [Completed \<lparr>ih_job_id = job, ih_function_id = wk_function_id w, ih_version = wk_version w,
         ih_started_at = Some started\<rparr> outcome warnings]))"

text \<open>
  One round of the loop that waits for the outcome. A data request is served on the data
  registry's state; an exception of it ends the thread, which releases the worker without
  evicting it.
\<close>

definition pump_poll ::
  "('c, 'b) data_env \<Rightarrow> nat \<Rightarrow> flt \<Rightarrow> process_runtime \<times> ('c, 'b) data_state \<Rightarrow>
   (process_runtime \<times> ('c, 'b) data_state) \<times> effect list" where
  "pump_poll E i now pr_st =
    (let pr = fst pr_st; st = snd pr_st; w = the_worker pr i;
         keep = (\<lambda>r. ((fst r, st), snd r)) in
     case (wk_pump w, wk_pipe w) of
       (Serving job started, []) \<Rightarrow>
         (if \<not> wk_alive w then keep (pump_ends i (handle_crash i job (Some started) now pr))
          else if deadline_passed w started now then keep (pump_ends i (handle_timeout i job (Some started) now pr))
          else ((pr, st), []))
     | (Serving job started, Result_Ok v warnings # ms) \<Rightarrow>
         keep (complete_job i job started (Ok v) warnings now (with_worker i (\<lambda>w. w\<lparr>wk_pipe := ms\<rparr>) pr))
     | (Serving job started, Result_Err text warnings # ms) \<Rightarrow>
         keep (complete_job i job started (Err (AxoErr FunctionRuntimeError text)) warnings now
           (with_worker i (\<lambda>w. w\<lparr>wk_pipe := ms\<rparr>) pr))
     | (Serving job started, Io_Request op ref data # ms) \<Rightarrow>
         (let pr = with_worker i (\<lambda>w. w\<lparr>wk_pipe := ms\<rparr>) pr in
          case resolve_io_request E True op ref data now st of
            (Raise ex, st, evs) \<Rightarrow> ((with_worker i (pump_released Stopped) pr, st), map Emitted evs)
          | (_, st, evs) \<Rightarrow>
              (if wk_alive w then ((pr, st), map Emitted evs)
               else (case pump_ends i (handle_crash i job (Some started) now pr) of
                       (pr, effs) \<Rightarrow> ((pr, st), map Emitted evs @ effs))))
     | _ \<Rightarrow> ((pr, st), []))"

section \<open>Cancellation\<close>

definition job_cancelled :: "string \<Rightarrow> axo_error" where
  "job_cancelled text = AxoErr JobCancelledError text"

text \<open>The worker's queue without the job, which is put back in place when it was not there.\<close>

fun drop_queued :: "string \<Rightarrow> nat list \<Rightarrow> process_runtime \<Rightarrow> bool res \<times> process_runtime \<times> effect list" where
  "drop_queued job [] pr = (Ok False, pr, [])"
| "drop_queued job (i # is) pr =
    (let w = the_worker pr i in
     case drain_queue (wk_queue w) of
       (Ok jobs, _) \<Rightarrow>
         (let pr = with_worker i (\<lambda>w. w\<lparr>wk_queue := filter (\<lambda>x. map_option fst x \<noteq> Some job) (wk_queue w)\<rparr>) pr in
          if job \<in> set jobs then
            (Ok True, pr, [fail_job w (job_cancelled ''job was cancelled before it started'') (job, None)])
          else drop_queued job is pr)
     | (Err e, q) \<Rightarrow> (Err e, with_worker i (\<lambda>w. w\<lparr>wk_queue := q\<rparr>) pr, [])
     | (Raise ex, q) \<Rightarrow> (Raise ex, with_worker i (\<lambda>w. w\<lparr>wk_queue := q\<rparr>) pr, []))"

definition prt_cancel :: "string \<Rightarrow> flt \<Rightarrow> process_runtime \<Rightarrow> bool res \<times> process_runtime \<times> effect list" where
  "prt_cancel job now pr =
    (case find_by_job_id job pr of
       Some i \<Rightarrow>
         (let w = the_worker pr i in
          case recycle i pr of
            (Ok pending, pr) \<Rightarrow>
              (Ok True, with_worker i (terminate_process \<circ> (\<lambda>w. w\<lparr>wk_cancelled := True\<rparr>)) pr,
               emit_fn ''FUNCTION_CRASHED'' (wk_function_id w) (wk_version w) [(''reason'', JStr ''cancelled'')] now #
               fail_job w (job_cancelled ''job was cancelled'') (job, None) #
               map (fail_job w (worker_crashed ''worker recycled to cancel a sibling job''))
                 (map (\<lambda>j. (j, None)) pending))
          | (Err e, pr) \<Rightarrow> (Err e, pr, [])
          | (Raise ex, pr) \<Rightarrow> (Raise ex, pr, []))
     | None \<Rightarrow> drop_queued job (list_handles pr) pr)"

section \<open>Sweeps\<close>

definition kill_worker :: "worker \<Rightarrow> worker" where
  "kill_worker w = (terminate_process w)\<lparr>wk_queue := wk_queue w @ [None]\<rparr>"

fun sweep_handles :: "(worker \<Rightarrow> bool) \<Rightarrow> nat list \<Rightarrow> process_runtime \<Rightarrow> nat list \<times> process_runtime" where
  "sweep_handles p [] pr = ([], pr)"
| "sweep_handles p (i # is) pr =
    (if p (the_worker pr i)
     then (case sweep_handles p is (with_worker i kill_worker (evict_worker i pr)) of (js, pr) \<Rightarrow> (i # js, pr))
     else sweep_handles p is pr)"

definition prt_sweep :: "(worker \<Rightarrow> bool) \<Rightarrow> string \<Rightarrow> flt \<Rightarrow> process_runtime \<Rightarrow> process_runtime \<times> effect list" where
  "prt_sweep p reason now pr =
    (case sweep_handles p (list_handles pr) pr of
       (evicted, pr') \<Rightarrow>
         (pr', map (\<lambda>i. case worker_key pr i of (f, v) \<Rightarrow>
             emit_fn ''FUNCTION_STOPPED'' f v [(''reason'', JStr reason)] now) evicted))"

definition prt_sweep_idle :: "flt \<Rightarrow> flt \<Rightarrow> process_runtime \<Rightarrow> process_runtime \<times> effect list" where
  "prt_sweep_idle ttl now = prt_sweep (worker_is_idle ttl now) ''idle_ttl'' now"

definition prt_sweep_max_invocations :: "int \<Rightarrow> flt \<Rightarrow> process_runtime \<Rightarrow> process_runtime \<times> effect list" where
  "prt_sweep_max_invocations m now = prt_sweep (worker_exceeded m) ''max_invocations'' now"

section \<open>Runs\<close>

text \<open>
  What the threads of the endpoint and its worker processes do, in any order. A worker process
  sends data requests and then one outcome while its pump serves a job, and it may die at any time.
\<close>

datatype prt_action =
    Accept string int string job_params flt
  | Take nat flt
  | Poll nat flt
  | Sends nat worker_message
  | Dies nat
  | Cancel string flt
  | Sweep_Idle flt flt
  | Sweep_Max int flt

record ('c, 'b) prt_run =
  ru_pr :: process_runtime
  ru_data :: "('c, 'b) data_state"
  ru_accepted :: "string list"
  ru_completed :: "(string \<times> py_value res) list"

fun completions :: "effect list \<Rightarrow> (string \<times> py_value res) list" where
  "completions [] = []"
| "completions (Completed h r ws # es) = (ih_job_id h, r) # completions es"
| "completions (Emitted e # es) = completions es"

fun is_outcome :: "worker_message \<Rightarrow> bool" where
  "is_outcome (Io_Request op ref data) = False"
| "is_outcome _ = True"

definition can_send :: "worker \<Rightarrow> bool" where
  "can_send w = (wk_alive w \<and> wk_busy w \<and> list_all (Not \<circ> is_outcome) (wk_pipe w))"

definition ran :: "process_runtime \<times> effect list \<Rightarrow> ('c, 'b) prt_run \<Rightarrow> ('c, 'b) prt_run" where
  "ran res s = s\<lparr>ru_pr := fst res, ru_completed := ru_completed s @ completions (snd res)\<rparr>"

fun prt_step :: "catalog \<Rightarrow> ('c, 'b) data_env \<Rightarrow> prt_action \<Rightarrow> ('c, 'b) prt_run \<Rightarrow> ('c, 'b) prt_run" where
  "prt_step get_fn E (Accept f v job params now) s =
    (case prt_invoke get_fn (ckey (f, v)) job params now (ru_pr s) of
       (Ok _, pr, effs) \<Rightarrow> (ran (pr, effs) s)\<lparr>ru_accepted := ru_accepted s @ [job]\<rparr>
     | (_, pr, effs) \<Rightarrow> ran (pr, effs) s)"
| "prt_step get_fn E (Take i now) s = ran (pump_take i now (ru_pr s)) s"
| "prt_step get_fn E (Poll i now) s =
    (case pump_poll E i now (ru_pr s, ru_data s) of
       ((pr, st), effs) \<Rightarrow> (ran (pr, effs) s)\<lparr>ru_data := st\<rparr>)"
| "prt_step get_fn E (Sends i m) s =
    (if can_send (the_worker (ru_pr s) i)
     then s\<lparr>ru_pr := with_worker i (\<lambda>w. w\<lparr>wk_pipe := wk_pipe w @ [m]\<rparr>) (ru_pr s)\<rparr> else s)"
| "prt_step get_fn E (Dies i) s = s\<lparr>ru_pr := with_worker i terminate_process (ru_pr s)\<rparr>"
| "prt_step get_fn E (Cancel job now) s =
    (case prt_cancel job now (ru_pr s) of (_, pr, effs) \<Rightarrow> ran (pr, effs) s)"
| "prt_step get_fn E (Sweep_Idle ttl now) s = ran (prt_sweep_idle ttl now (ru_pr s)) s"
| "prt_step get_fn E (Sweep_Max m now) s = ran (prt_sweep_max_invocations m now (ru_pr s)) s"

definition run_init :: "('c, 'b) data_state \<Rightarrow> ('c, 'b) prt_run" where
  "run_init st = \<lparr>ru_pr = pr_init, ru_data = st, ru_accepted = [], ru_completed = []\<rparr>"

section \<open>Where the jobs are\<close>

lemma in_concat_dvalues: "i \<in> set (concat (dvalues d)) \<longleftrightarrow> (\<exists>k pool. (k, pool) \<in> set d \<and> i \<in> set pool)"
  by force

text \<open>Keys of pools are pairs; quantifiers over them stay whole in this theory.\<close>

declare split_paired_All [simp del] split_paired_Ex [simp del]

definition pooled :: "process_runtime \<Rightarrow> nat set" where
  "pooled pr = {i. \<exists>k. i \<in> set (pool_of k pr)}"

definition queued_jobs :: "worker \<Rightarrow> string set" where
  "queued_jobs w = {job. \<exists>ps. Some (job, ps) \<in> set (wk_queue w)}"

definition held_by :: "worker \<Rightarrow> string set" where
  "held_by w = queued_jobs w \<union> {job. \<exists>t. wk_pump w = Serving job t}"

definition held :: "process_runtime \<Rightarrow> string set" where
  "held pr = (\<Union>i \<in> pooled pr. held_by (the_worker pr i))"

text \<open>A worker that is in a pool: its pump runs, and what its fields say agrees with it.\<close>

definition serving_ok :: "worker \<Rightarrow> bool" where
  "serving_ok w \<longleftrightarrow> None \<notin> set (wk_queue w) \<and> \<not> wk_cancelled w \<and>
    (case wk_pump w of
       Waiting \<Rightarrow> \<not> wk_busy w \<and> wk_current_job w = None
     | Serving job t \<Rightarrow> wk_busy w \<and> wk_current_job w = Some job
     | Stopped \<Rightarrow> False)"

definition pr_ok :: "process_runtime \<Rightarrow> bool" where
  "pr_ok pr \<longleftrightarrow> dict_ok (pr_pools pr) \<and> (\<forall>i. pr_next pr \<le> i \<longrightarrow> pr_workers pr i = None) \<and>
    (\<forall>k. distinct (pool_of k pr)) \<and>
    (\<forall>k. \<forall>i \<in> set (pool_of k pr). pr_workers pr i \<noteq> None \<and> worker_key pr i = k \<and> serving_ok (the_worker pr i))"

lemma pr_ok_init [simp]: "pr_ok pr_init" "pooled pr_init = {}"
  by (simp_all add: pr_ok_def pr_init_def pool_of_def pooled_def)

lemma pr_okD:
  assumes "pr_ok pr"
  shows "dict_ok (pr_pools pr)" "distinct (pool_of k pr)"
    "i \<in> pooled pr \<Longrightarrow> pr_workers pr i \<noteq> None \<and> i \<in> set (pool_of (worker_key pr i) pr) \<and> serving_ok (the_worker pr i)"
    "i \<in> set (pool_of k pr) \<Longrightarrow> worker_key pr i = k"
    "i \<in> pooled pr \<Longrightarrow> i < pr_next pr"
  using assms by (auto simp: pr_ok_def pooled_def simp flip: not_le) fastforce

lemma set_list_handles: "pr_ok pr \<Longrightarrow> set (list_handles pr) = pooled pr"
proof -
  assume "pr_ok pr"
  then have d: "dict_ok (pr_pools pr)" by (simp add: pr_ok_def)
  have "i \<in> set (list_handles pr) \<longleftrightarrow> (\<exists>k pool. map_of (pr_pools pr) k = Some pool \<and> i \<in> set pool)" for i
    unfolding dict_ok_mem_iff [OF d, symmetric] list_handles_def by (rule in_concat_dvalues)
  also have "(\<exists>k pool. map_of (pr_pools pr) k = Some pool \<and> i \<in> set pool) \<longleftrightarrow> i \<in> pooled pr" for i
  proof -
    have "(\<exists>pool. map_of (pr_pools pr) k = Some pool \<and> i \<in> set pool) \<longleftrightarrow> i \<in> set (pool_of k pr)" for k
      by (cases "map_of (pr_pools pr) k") (simp_all add: pool_of_def)
    then show ?thesis by (simp add: pooled_def)
  qed
  finally show ?thesis by blast
qed

lemma pool_of_with_worker [simp]: "pool_of k (with_worker i f pr) = pool_of k pr"
  by (simp add: with_worker_def pool_of_def)

lemma pooled_with_worker [simp]: "pooled (with_worker i f pr) = pooled pr"
  by (simp add: pooled_def)

lemma with_worker_fields [simp]:
  "pr_pools (with_worker i f pr) = pr_pools pr" "pr_next (with_worker i f pr) = pr_next pr"
  "pr_workers (with_worker i f pr) j = (if j = i then map_option f (pr_workers pr i) else pr_workers pr j)"
  by (simp_all add: with_worker_def)

lemma the_with_worker [simp]:
  "j \<noteq> i \<Longrightarrow> the_worker (with_worker i f pr) j = the_worker pr j"
  "pr_workers pr i \<noteq> None \<Longrightarrow> the_worker (with_worker i f pr) i = f (the_worker pr i)"
  by (auto simp: the_worker_def with_worker_def)

lemma worker_key_with_worker:
  "(\<And>w. wk_function_id (f w) = wk_function_id w \<and> wk_version (f w) = wk_version w) \<Longrightarrow>
   pr_workers pr j \<noteq> None \<Longrightarrow> worker_key (with_worker i f pr) j = worker_key pr j"
  by (cases "j = i") (auto simp: worker_key_def)

text \<open>Changing one worker in a way that keeps it well-formed, if it is in a pool.\<close>

lemma pr_ok_with_worker:
  assumes "pr_ok pr" "\<And>w. wk_function_id (f w) = wk_function_id w \<and> wk_version (f w) = wk_version w"
    "i \<in> pooled pr \<Longrightarrow> serving_ok (f (the_worker pr i))"
  shows "pr_ok (with_worker i f pr)"
proof -
  have "pr_workers (with_worker i f pr) j \<noteq> None \<and> worker_key (with_worker i f pr) j = k \<and>
      serving_ok (the_worker (with_worker i f pr) j)"
    if "j \<in> set (pool_of k pr)" for j k
  proof -
    have j: "j \<in> pooled pr" using that by (auto simp: pooled_def)
    then have s: "pr_workers pr j \<noteq> None" "serving_ok (the_worker pr j)" using pr_okD(3) [OF assms(1)] by blast+
    have "serving_ok (the_worker (with_worker i f pr) j)"
      using s assms(3) j by (cases "j = i") simp_all
    then show ?thesis using s pr_okD(4) [OF assms(1) that] worker_key_with_worker [of f pr j i] assms(2)
      by auto
  qed
  then show ?thesis using assms(1) by (simp add: pr_ok_def)
qed

lemma held_mem: "job \<in> held pr \<longleftrightarrow> (\<exists>i \<in> pooled pr. job \<in> held_by (the_worker pr i))"
  by (auto simp: held_def)

lemma held_with_worker:
  assumes "pr_ok pr" "i \<in> pooled pr \<Longrightarrow> held_by (the_worker pr i) \<subseteq> held_by (f (the_worker pr i)) \<union> js"
  shows "held pr \<subseteq> held (with_worker i f pr) \<union> js"
proof
  fix job
  assume "job \<in> held pr"
  then obtain j where j: "j \<in> pooled pr" "job \<in> held_by (the_worker pr j)" by (auto simp: held_mem)
  then have s: "pr_workers pr j \<noteq> None" using pr_okD(3) [OF assms(1)] by blast
  show "job \<in> held (with_worker i f pr) \<union> js"
  proof (cases "j = i")
    case True
    then show ?thesis using assms(2) j s by (auto simp: held_mem intro!: bexI [of _ i])
  next
    case False
    then show ?thesis using j by (auto simp: held_mem intro!: bexI [of _ j])
  qed
qed

lemma pool_of_evict:
  "pool_of k (evict_worker i pr) = (if k = worker_key pr i then remove1 i (pool_of k pr) else pool_of k pr)"
  by (auto simp: evict_worker_def Let_def pool_of_def dget_def remove1_idem split: option.splits)

lemma evict_fields [simp]:
  "pr_workers (evict_worker i pr) = pr_workers pr" "the_worker (evict_worker i pr) = the_worker pr"
  "pr_next (evict_worker i pr) = pr_next pr" "worker_key (evict_worker i pr) = worker_key pr"
  by (auto simp: evict_worker_def Let_def the_worker_def worker_key_def fun_eq_iff split: option.splits)

lemma pooled_evict: "pr_ok pr \<Longrightarrow> pooled (evict_worker i pr) = pooled pr - {i}"
proof -
  assume ok: "pr_ok pr"
  have "set (pool_of k (evict_worker i pr)) = set (pool_of k pr) - {i}" for k
    using pr_okD(2) [OF ok, of k] pr_okD(4) [OF ok, of i k] by (auto simp: pool_of_evict)
  then show ?thesis by (auto simp: pooled_def)
qed

lemma pr_ok_evict: "pr_ok pr \<Longrightarrow> pr_ok (evict_worker i pr)"
proof -
  assume ok: "pr_ok pr"
  have "dict_ok (pr_pools (evict_worker i pr))"
    using ok by (auto simp: pr_ok_def evict_worker_def Let_def split: option.splits)
  moreover have "set (pool_of k (evict_worker i pr)) \<subseteq> set (pool_of k pr)" for k
    by (simp add: pool_of_evict set_remove1_subset)
  moreover have "distinct (pool_of k (evict_worker i pr))" for k
    using ok by (simp add: pool_of_evict pr_ok_def distinct_remove1)
  ultimately show ?thesis using ok by (auto simp: pr_ok_def) blast+
qed

section \<open>No job is lost\<close>

lemma drain_jobs: "None \<notin> set q \<Longrightarrow> drain_queue q = (Ok (map (fst \<circ> the) q), [])"
  by (induction q rule: drain_queue.induct) auto

lemma queued_jobs_map: "None \<notin> set (wk_queue w) \<Longrightarrow> queued_jobs w = set (map (fst \<circ> the) (wk_queue w))"
proof -
  have "None \<notin> set q \<Longrightarrow> {job. \<exists>ps. Some (job, ps) \<in> set q} = set (map (fst \<circ> the) q)" for q :: "queue_item list"
    by (induction q rule: drain_queue.induct) auto
  then show "None \<notin> set (wk_queue w) \<Longrightarrow> queued_jobs w = set (map (fst \<circ> the) (wk_queue w))"
    by (simp add: queued_jobs_def)
qed

lemma completions_append [simp]: "completions (es @ fs) = completions es @ completions fs"
  by (induction es rule: completions.induct) simp_all

lemma completions_simps [simp]:
  "completions (emit_fn ty i v x now # es) = completions es"
  "completions (job_started w job ps now # es) = completions es"
  "completions (fail_job w e j # es) = (fst j, Err e) # completions es"
  "completions (deploy_failed key e now # es) = completions es"
  "completions (map Emitted evs) = []"
  "completions (map (\<lambda>j. emit_fn ty (f j) (g j) x now) is) = []"
proof -
  show "completions (map Emitted evs) = []" by (induction evs) simp_all
  show "completions (map (\<lambda>j. emit_fn ty (f j) (g j) x now) is) = []"
    by (induction "is") (simp_all add: emit_fn_def)
qed (simp_all add: emit_fn_def job_started_def fail_job_def deploy_failed_def)

lemma completions_fail [simp]: "completions (map (fail_job w e) js) = map (\<lambda>j. (fst j, Err e)) js"
  by (induction js) simp_all

lemma completions_fail_comp [simp]:
  "completions (map (fail_job w e \<circ> g) xs) = map (\<lambda>x. (fst (g x), Err e)) xs"
  by (induction xs) simp_all

lemma completions_single [simp]:
  "completions [emit_fn ty i v x now] = []" "completions [job_started w job ps now] = []"
  "completions [fail_job w e j] = [(fst j, Err e)]" "completions [deploy_failed key e now] = []"
  by simp_all

lemma queued_after [simp]:
  "held_by (w\<lparr>wk_pipe := p\<rparr>) = held_by w" "held_by (w\<lparr>wk_alive := b\<rparr>) = held_by w"
  "serving_ok (w\<lparr>wk_pipe := p\<rparr>) = serving_ok w" "serving_ok (w\<lparr>wk_alive := b\<rparr>) = serving_ok w"
  by (simp_all add: held_by_def queued_jobs_def serving_ok_def split: pump.splits)

subsection \<open>Acceptance\<close>

lemma pool_of_register:
  "pool_of k (register_worker i w pr) =
    (if k = (wk_function_id w, wk_version w) then pool_of k pr @ [i] else pool_of k pr)"
  by (simp add: register_worker_def Let_def pool_of_def)

lemma the_register [simp]: "the_worker (register_worker i w pr) j = (if j = i then w else the_worker pr j)"
  by (simp add: the_worker_def register_worker_def Let_def)

lemma spawned:
  assumes ok: "pr_ok pr" and w: "serving_ok w" and pr': "pr' = (register_worker (pr_next pr) w pr)\<lparr>pr_next := pr_next pr + 1\<rparr>"
  shows "pr_ok pr'" "held pr \<subseteq> held pr'" "pr_next pr \<in> pooled pr'" "worker_key pr' (pr_next pr) = (wk_function_id w, wk_version w)"
proof -
  let ?n = "pr_next pr" and ?key = "(wk_function_id w, wk_version w)"
  have pool: "pool_of k pr' = (if k = ?key then pool_of k pr @ [?n] else pool_of k pr)" for k
    using pool_of_register [of k ?n w pr] by (simp add: pr' pool_of_def)
  have the: "the_worker pr' j = (if j = ?n then w else the_worker pr j)" for j
    using the_register [of ?n w pr j] by (simp add: pr' the_worker_def)
  have fresh: "?n \<notin> set (pool_of k pr)" for k
    using pr_okD(5) [OF ok, of ?n] by (auto simp: pooled_def)
  have "pr_workers pr' j \<noteq> None \<and> worker_key pr' j = k \<and> serving_ok (the_worker pr' j)"
    if j: "j \<in> set (pool_of k pr')" for j k
  proof (cases "j = ?n")
    case True
    then have "k = ?key" using j fresh by (auto simp: pool split: if_splits)
    then show ?thesis using True w the by (simp add: worker_key_def) (simp add: pr' register_worker_def Let_def)
  next
    case False
    then have old: "j \<in> set (pool_of k pr)" using j by (auto simp: pool split: if_splits)
    then have "pr_workers pr j \<noteq> None" "worker_key pr j = k" "serving_ok (the_worker pr j)"
      using ok by (auto simp: pr_ok_def)
    then show ?thesis using False the by (simp add: worker_key_def) (simp add: pr' register_worker_def Let_def)
  qed
  moreover have "distinct (pool_of k pr')" for k
    using pool fresh pr_okD(2) [OF ok] by simp
  moreover have "dict_ok (pr_pools pr')" using ok by (simp add: pr' pr_ok_def register_worker_def Let_def)
  moreover have "\<forall>i. pr_next pr' \<le> i \<longrightarrow> pr_workers pr' i = None"
    using ok by (simp add: pr' pr_ok_def register_worker_def Let_def)
  ultimately show "pr_ok pr'" by (simp add: pr_ok_def)
  have "set (pool_of k pr) \<subseteq> set (pool_of k pr')" for k by (simp add: pool subset_insertI)
  then have sub: "pooled pr \<subseteq> pooled pr'" unfolding pooled_def by blast
  show "?n \<in> pooled pr'" by (auto simp: pooled_def pool intro!: exI [of _ ?key])
  show "worker_key pr' ?n = ?key" by (simp add: worker_key_def the)
  have "the_worker pr' j = the_worker pr j" if "j \<in> pooled pr" for j
    using that pr_okD(5) [OF ok that] the by simp
  then show "held pr \<subseteq> held pr'" unfolding held_def by (intro UN_mono sub) simp
qed

lemma spawn_worker_ok:
  assumes "pr_ok pr" "spawn_worker get_fn key now pr = (r, pr', effs)"
  shows "pr_ok pr' \<and> held pr \<subseteq> held pr' \<and> completions effs = [] \<and>
    (\<forall>i. r = Ok i \<longrightarrow> i \<in> pooled pr' \<and> worker_key pr' i = (sk_id key, sk_version key))"
proof -
  have w: "serving_ok (new_worker key r)" for r by (simp add: serving_ok_def new_worker_def)
  have k: "(wk_function_id (new_worker key r), wk_version (new_worker key r)) = (sk_id key, sk_version key)" for r
    by (simp add: new_worker_def)
  show ?thesis
  proof (cases "\<exists>x. get_fn key = Ok (Some x)")
    case True
    then obtain x where "get_fn key = Ok (Some x)" by blast
    then show ?thesis using assms(2) spawned [OF assms(1) w [of x] refl] unfolding k
      by (auto simp: spawn_worker_def Let_def)
  next
    case False
    then have "pr' = pr \<and> (\<forall>i. r \<noteq> Ok i) \<and> (effs = [] \<or> (\<exists>e. effs = [deploy_failed key e now]))"
      using assms(2) by (cases "get_fn key"; cases "the_ok (get_fn key)") (auto simp: spawn_worker_def Let_def)
    then show ?thesis using assms(1) by auto
  qed
qed

lemma py_min_by_mem: "py_min_by f b xs \<in> set (b # xs)"
  by (induction xs arbitrary: b) (auto split: if_splits)

lemma choose_worker_ok:
  assumes "pr_ok pr" "choose_worker get_fn key now pr = (r, pr', effs)"
  shows "pr_ok pr' \<and> held pr \<subseteq> held pr' \<and> completions effs = [] \<and>
    (\<forall>i. r = Ok i \<longrightarrow> i \<in> pooled pr' \<and> worker_key pr' i = (sk_id key, sk_version key))"
proof -
  let ?k = "(sk_id key, sk_version key)"
  have pool: "i \<in> pooled pr \<and> worker_key pr i = ?k" if "i \<in> set (pool_of ?k pr)" for i
    using that pr_okD(4) [OF assms(1) that] by (auto simp: pooled_def)
  have idle: "i \<in> set (pool_of ?k pr)" if "get_idle_or_none ?k pr = Some i" for i
    using that by (auto simp: get_idle_or_none_def find_Some_iff)
  have least: "i \<in> set (pool_of ?k pr)" if "least_loaded ?k pr = Some i" for i
    using that py_min_by_mem by (fastforce simp: least_loaded_def split: list.splits)
  show ?thesis
  proof (cases "get_idle_or_none ?k pr")
    case (Some i)
    then show ?thesis using assms pool idle by (auto simp: choose_worker_def)
  next
    case None
    show ?thesis
    proof (cases "max_concurrency_for get_fn key")
      case (Ok m)
      consider "choose_worker get_fn key now pr = spawn_worker get_fn key now pr"
        | i where "least_loaded ?k pr = Some i" "choose_worker get_fn key now pr = (Ok i, pr, [])"
        using None Ok by (cases "int (length (pool_of ?k pr)) < m"; cases "least_loaded ?k pr")
          (auto simp: choose_worker_def)
      then show ?thesis
      proof cases
        case 1
        then show ?thesis using assms(2) by (intro spawn_worker_ok [OF assms(1)]) simp
      next
        case (2 i)
        then show ?thesis using assms pool [OF least] by auto
      qed
    qed (use None assms in \<open>auto simp: choose_worker_def\<close>)
  qed
qed

lemma prt_invoke_ok:
  assumes "pr_ok pr" "prt_invoke get_fn key job params now pr = (r, pr', effs)"
  shows "pr_ok pr' \<and> held pr \<subseteq> held pr' \<and> completions effs = [] \<and> ((\<exists>h. r = Ok h) \<longrightarrow> job \<in> held pr')"
proof -
  obtain q pr1 effs1 where c: "choose_worker get_fn key now pr = (q, pr1, effs1)" by (metis surj_pair)
  have ok: "pr_ok pr1" "held pr \<subseteq> held pr1" "completions effs1 = []" "\<And>i. q = Ok i \<Longrightarrow> i \<in> pooled pr1"
    using choose_worker_ok [OF assms(1) c] by auto
  show ?thesis
  proof (cases "\<exists>i. q = Ok i")
    case True
    then obtain i where q: "q = Ok i" by blast
    let ?f = "\<lambda>w. w\<lparr>wk_queue := wk_queue w @ [Some (job, params)]\<rparr>"
    have i: "i \<in> pooled pr1" "pr_workers pr1 i \<noteq> None" "serving_ok (the_worker pr1 i)"
      using ok(4) [OF q] pr_okD(3) [OF ok(1)] by auto
    have pr': "pr' = with_worker i ?f pr1" "effs = effs1" using assms(2) c q by (simp_all add: prt_invoke_def)
    have "pr_ok pr'" unfolding pr' using i(3) by (intro pr_ok_with_worker [OF ok(1)]) (simp_all add: serving_ok_def split: pump.splits)
    moreover have "held pr1 \<subseteq> held pr' \<union> {}" unfolding pr'
      by (intro held_with_worker [OF ok(1)]) (auto simp: held_by_def queued_jobs_def)
    moreover have "job \<in> held pr'" unfolding pr'
      using i by (auto simp: held_mem held_by_def queued_jobs_def intro!: bexI [of _ i])
    ultimately show ?thesis using ok(2,3) pr'(2) by auto
  next
    case False
    then have "(pr', effs) = (pr1, effs1)" "\<forall>h. r \<noteq> Ok h"
      using assms(2) c by (cases q; auto simp: prt_invoke_def)+
    then show ?thesis using ok by auto
  qed
qed

subsection \<open>What a thread does to one worker\<close>

definition keeps_key :: "(worker \<Rightarrow> worker) \<Rightarrow> bool" where
  "keeps_key f \<longleftrightarrow> (\<forall>w. wk_function_id (f w) = wk_function_id w \<and> wk_version (f w) = wk_version w)"

lemma keeps_key_comp [simp]: "keeps_key f \<Longrightarrow> keeps_key g \<Longrightarrow> keeps_key (g \<circ> f)"
  by (simp add: keeps_key_def)

lemma with_worker_twice [simp]: "with_worker i g (with_worker i f pr) = with_worker i (g \<circ> f) pr"
  by (simp add: with_worker_def option.map_comp)

lemma evict_with_worker: "keeps_key f \<Longrightarrow> evict_worker i (with_worker i f pr) = with_worker i f (evict_worker i pr)"
proof -
  assume f: "keeps_key f"
  have "worker_key (with_worker i f pr) i = worker_key pr i"
  proof (cases "pr_workers pr i")
    case None
    then have "with_worker i f pr = pr" by (simp add: with_worker_def fun_upd_idem)
    then show ?thesis by simp
  next
    case (Some w)
    then show ?thesis using f by (simp add: worker_key_def keeps_key_def)
  qed
  then show ?thesis by (auto simp: evict_worker_def Let_def with_worker_def split: option.splits)
qed

lemma evict_nonpooled: "i \<notin> pooled pr \<Longrightarrow> evict_worker i pr = pr"
proof -
  assume "i \<notin> pooled pr"
  then have "i \<notin> set (pool_of (worker_key pr i) pr)" by (auto simp: pooled_def)
  then show ?thesis by (auto simp: evict_worker_def Let_def pool_of_def split: option.splits)
qed

text \<open>A thread changes its worker in place, or evicts it and changes it.\<close>

definition touches :: "nat \<Rightarrow> process_runtime \<Rightarrow> process_runtime \<Rightarrow> bool" where
  "touches i pr pr' \<longleftrightarrow>
    (\<exists>f. keeps_key f \<and> (pr' = with_worker i f pr \<or> pr' = with_worker i f (evict_worker i pr)))"

lemma touches_refl [simp]: "touches i pr pr"
  unfolding touches_def by (rule exI [of _ id]) (simp add: keeps_key_def with_worker_def option.map_id0 fun_upd_idem)

lemma touches_with: "keeps_key f \<Longrightarrow> touches i pr (with_worker i f pr)"
  by (auto simp: touches_def)

lemma touches_then: "touches i pr pr' \<Longrightarrow> keeps_key f \<Longrightarrow> touches i pr (with_worker i f pr')"
  unfolding touches_def by (metis keeps_key_comp with_worker_twice)

lemma evict_twice [simp]: "pr_ok pr \<Longrightarrow> evict_worker i (evict_worker i pr) = evict_worker i pr"
  by (rule evict_nonpooled) (simp add: pooled_evict)

lemma touches_evict: "touches i pr pr' \<Longrightarrow> pr_ok pr \<Longrightarrow> touches i pr (evict_worker i pr')"
  unfolding touches_def by (metis evict_with_worker evict_twice)

lemma touches_nonpooled:
  assumes "touches i pr pr'" "pr_ok pr" "i \<notin> pooled pr"
  shows "pr_ok pr' \<and> held pr \<subseteq> held pr' \<and> pooled pr' = pooled pr"
proof -
  obtain f where f: "keeps_key f" "pr' = with_worker i f pr"
    using assms(1,3) by (auto simp: touches_def evict_nonpooled)
  have "pr_ok pr'" unfolding f(2) using f(1) assms(3)
    by (intro pr_ok_with_worker [OF assms(2)]) (auto simp: keeps_key_def)
  moreover have "held pr \<subseteq> held pr' \<union> {}" unfolding f(2) using assms(3)
    by (intro held_with_worker [OF assms(2)]) simp
  ultimately show ?thesis using f(2) by simp
qed

text \<open>A worker that leaves its pool: what it held is what has to be reported.\<close>

lemma evicted:
  assumes ok: "pr_ok pr" and f: "keeps_key f"
  shows "pr_ok (with_worker i f (evict_worker i pr))" "pooled (with_worker i f (evict_worker i pr)) = pooled pr - {i}"
    "held pr \<subseteq> held (with_worker i f (evict_worker i pr)) \<union> held_by (the_worker pr i)"
proof -
  let ?pr = "with_worker i f (evict_worker i pr)"
  show "pooled ?pr = pooled pr - {i}" using pooled_evict [OF ok] by simp
  show "pr_ok ?pr"
    using f pooled_evict [OF ok] by (intro pr_ok_with_worker [OF pr_ok_evict [OF ok]]) (auto simp: keeps_key_def)
  show "held pr \<subseteq> held ?pr \<union> held_by (the_worker pr i)"
  proof
    fix job
    assume "job \<in> held pr"
    then obtain j where j: "j \<in> pooled pr" "job \<in> held_by (the_worker pr j)" by (auto simp: held_mem)
    then show "job \<in> held ?pr \<union> held_by (the_worker pr i)"
      using pooled_evict [OF ok, of i] by (cases "j = i") (auto simp: held_mem intro!: bexI [of _ j])
  qed
qed

lemma keeps_key_simps [simp]:
  "keeps_key (\<lambda>w. w\<lparr>wk_queue := q w\<rparr>)" "keeps_key (\<lambda>w. w\<lparr>wk_pipe := p w\<rparr>)" "keeps_key (pump_released s)"
  "keeps_key terminate_process" "keeps_key kill_worker" "keeps_key (touch_worker now)"
  "keeps_key (\<lambda>w. w\<lparr>wk_cancelled := True\<rparr>)" "keeps_key (\<lambda>w. w\<lparr>wk_pump := s\<rparr>)"
  "keeps_key (\<lambda>w. w\<lparr>wk_queue := q w, wk_pump := s\<rparr>)"
  "keeps_key (\<lambda>w. w\<lparr>wk_queue := q w, wk_busy := b, wk_current_job := c\<rparr>)"
  by (simp_all add: keeps_key_def pump_released_def terminate_process_def kill_worker_def touch_worker_def)

lemma touches_recycle: "pr_ok pr \<Longrightarrow> touches i pr pr1 \<Longrightarrow> recycle i pr1 = (r, pr') \<Longrightarrow> touches i pr pr'"
  by (auto simp: recycle_def Let_def touches_then touches_evict split: prod.splits)

lemma touches_crash:
  "pr_ok pr \<Longrightarrow> touches i pr pr1 \<Longrightarrow> handle_crash i job t now pr1 = (r, pr', effs) \<Longrightarrow> touches i pr pr'"
  by (auto simp: handle_crash_def Let_def dest: touches_recycle split: if_splits prod.splits res.splits)

lemma touches_timeout:
  "pr_ok pr \<Longrightarrow> touches i pr pr1 \<Longrightarrow> handle_timeout i job t now pr1 = (r, pr', effs) \<Longrightarrow> touches i pr pr'"
  by (auto simp: handle_timeout_def Let_def touches_then dest: touches_recycle split: if_splits prod.splits res.splits)

lemma touches_pump_ends:
  "touches i pr pr1 \<Longrightarrow> pump_ends i (r, pr1, effs) = (pr', effs') \<Longrightarrow> touches i pr pr'"
  by (auto simp: pump_ends_def touches_then)

text \<open>The end of a worker of a pool whose queue holds jobs only: all its jobs are reported.\<close>

lemma recycle_jobs:
  assumes "keeps_key f" "None \<notin> set (wk_queue (the_worker (with_worker i f pr) i))"
  shows "recycle i (with_worker i f pr) =
    (Ok (map (fst \<circ> the) (wk_queue (the_worker (with_worker i f pr) i))),
     with_worker i ((\<lambda>w. w\<lparr>wk_queue := []\<rparr>) \<circ> f) (evict_worker i pr))"
  using assms by (simp add: recycle_def Let_def evict_with_worker drain_jobs the_worker_def)

lemma crash_ends:
  assumes ok: "pr_ok pr" and i: "i \<in> pooled pr" and f: "keeps_key f"
    and w: "\<not> wk_cancelled (f (the_worker pr i))" "None \<notin> set (wk_queue (f (the_worker pr i)))"
    and jobs: "held_by (the_worker pr i) \<subseteq> insert job (queued_jobs (f (the_worker pr i)))"
    and run: "pump_ends i (handle_crash i job t now (with_worker i f pr)) = (pr', effs)"
  shows "pr_ok pr' \<and> held pr \<subseteq> held pr' \<union> fst ` set (completions effs)"
proof -
  have the: "the_worker (with_worker i f pr) i = f (the_worker pr i)"
    using pr_okD(3) [OF ok i] by simp
  let ?g = "pump_released Stopped \<circ> ((\<lambda>w. w\<lparr>wk_queue := []\<rparr>) \<circ> f)"
  have pr': "pr' = with_worker i ?g (evict_worker i pr)"
    and effs: "fst ` set (completions effs) = insert job (queued_jobs (f (the_worker pr i)))"
    using run w recycle_jobs [OF f, of i pr] the queued_jobs_map [OF w(2)]
    by (auto simp: handle_crash_def Let_def pump_ends_def image_image comp_assoc)
  show ?thesis unfolding pr' effs using evicted [OF ok, of ?g i] f jobs by auto
qed

lemma timeout_ends:
  assumes ok: "pr_ok pr" and i: "i \<in> pooled pr"
    and jobs: "held_by (the_worker pr i) \<subseteq> insert job (queued_jobs (the_worker pr i))"
    and run: "pump_ends i (handle_timeout i job t now pr) = (pr', effs)"
  shows "pr_ok pr' \<and> held pr \<subseteq> held pr' \<union> fst ` set (completions effs)"
proof -
  have w: "\<not> wk_cancelled (the_worker pr i)" "None \<notin> set (wk_queue (the_worker pr i))"
    using pr_okD(3) [OF ok i] by (auto simp: serving_ok_def)
  let ?g = "pump_released Stopped \<circ> (terminate_process \<circ> (\<lambda>w. w\<lparr>wk_queue := []\<rparr>))"
  have id: "with_worker i id pr = pr" by (simp add: with_worker_def option.map_id0 fun_upd_idem)
  have r: "recycle i pr = (Ok (map (fst \<circ> the) (wk_queue (the_worker pr i))),
      with_worker i (\<lambda>w. w\<lparr>wk_queue := []\<rparr>) (evict_worker i pr))"
    using w(2) by (simp add: recycle_def Let_def drain_jobs)
  have pr': "pr' = with_worker i ?g (evict_worker i pr)"
    and effs: "fst ` set (completions effs) = insert job (queued_jobs (the_worker pr i))"
    using run w r queued_jobs_map [OF w(2)]
    by (auto simp: handle_timeout_def Let_def pump_ends_def image_image comp_assoc)
  show ?thesis unfolding pr' effs using evicted [OF ok, of ?g i] jobs by auto
qed

subsection \<open>Every action keeps the jobs\<close>

text \<open>What an operation has to do for the jobs that the workers of the pools hold.\<close>

definition keeps_jobs :: "process_runtime \<Rightarrow> process_runtime \<Rightarrow> effect list \<Rightarrow> bool" where
  "keeps_jobs pr pr' effs \<longleftrightarrow> pr_ok pr' \<and> held pr \<subseteq> held pr' \<union> fst ` set (completions effs)"

lemma keeps_jobs_refl [simp]: "keeps_jobs pr pr effs \<longleftrightarrow> pr_ok pr"
  by (auto simp: keeps_jobs_def)

lemma keeps_jobs_nonpooled: "pr_ok pr \<Longrightarrow> i \<notin> pooled pr \<Longrightarrow> touches i pr pr' \<Longrightarrow> keeps_jobs pr pr' effs"
  using touches_nonpooled [of i pr pr'] by (auto simp: keeps_jobs_def)

lemma keeps_jobs_in_place:
  assumes "pr_ok pr" "i \<in> pooled pr" "keeps_key f" "serving_ok (f (the_worker pr i))"
    "held_by (the_worker pr i) \<subseteq> held_by (f (the_worker pr i)) \<union> fst ` set (completions effs)"
  shows "keeps_jobs pr (with_worker i f pr) effs"
  using pr_ok_with_worker [OF assms(1), of f i] held_with_worker [OF assms(1), of i f "fst ` set (completions effs)"] assms
  by (simp add: keeps_jobs_def keeps_key_def)

lemma pump_take_keeps:
  assumes ok: "pr_ok pr" and run: "pump_take i now pr = (pr', effs)"
  shows "keeps_jobs pr pr' effs"
proof (cases "wk_pump (the_worker pr i) = Waiting \<and> wk_queue (the_worker pr i) \<noteq> []")
  case False
  then have "pr' = pr" using run by (auto simp: pump_take_def Let_def split: pump.splits list.splits)
  then show ?thesis using ok by simp
next
  case True
  then obtain x q where q: "wk_pump (the_worker pr i) = Waiting" "wk_queue (the_worker pr i) = x # q"
    by (cases "wk_queue (the_worker pr i)") auto
  show ?thesis
  proof (cases x)
    case None
    then have "pr' = with_worker i (\<lambda>w. w\<lparr>wk_queue := q, wk_pump := Stopped\<rparr>) pr" using run q by (simp add: pump_take_def)
    moreover have "i \<notin> pooled pr"
      using pr_okD(3) [OF ok, of i] q None by (auto simp: serving_ok_def)
    ultimately show ?thesis using keeps_jobs_nonpooled [OF ok _ touches_with] by simp
  next
    case (Some jp)
    then obtain job ps where x: "x = Some (job, ps)" by (cases jp) auto
    let ?f = "\<lambda>w. w\<lparr>wk_queue := q, wk_busy := True, wk_current_job := Some job\<rparr>"
    let ?pr1 = "with_worker i ?f pr"
    have t1: "touches i pr ?pr1" by (intro touches_with) simp
    show ?thesis
    proof (cases "wk_alive (the_worker pr i)")
      case True
      then have res: "pr' = with_worker i ((\<lambda>w. w\<lparr>wk_pump := Serving job now\<rparr>) \<circ> ?f) pr"
        using run q x by (simp add: pump_take_def)
      show ?thesis
      proof (cases "i \<in> pooled pr")
        case True
        have s: "serving_ok (the_worker pr i)" using pr_okD(3) [OF ok True] by blast
        then show ?thesis unfolding res using q x
          by (intro keeps_jobs_in_place [OF ok True]) (auto simp: serving_ok_def held_by_def queued_jobs_def)
      next
        case False
        then show ?thesis using ok t1 touches_then [OF t1] unfolding res
          by (intro keeps_jobs_nonpooled [OF ok False]) simp
      qed
    next
      case False
      then have run': "pump_ends i (handle_crash i job None now ?pr1) = (pr', effs)"
        using run q x by (simp add: pump_take_def)
      show ?thesis
      proof (cases "i \<in> pooled pr")
        case True
        have s: "serving_ok (the_worker pr i)" using pr_okD(3) [OF ok True] by blast
        then show ?thesis unfolding keeps_jobs_def
          using q x by (intro crash_ends [OF ok True _ _ _ _ run'])
            (auto simp: serving_ok_def held_by_def queued_jobs_def)
      next
        case False
        obtain r pr2 effs2 where h: "handle_crash i job None now ?pr1 = (r, pr2, effs2)" by (metis surj_pair)
        then have "touches i pr pr'" using touches_crash [OF ok t1 h] run' touches_pump_ends by metis
        then show ?thesis using ok False by (intro keeps_jobs_nonpooled)
      qed
    qed
  qed
qed

text \<open>A data request of the function in flight that raises ends the pump; it is left out here.\<close>

definition poll_safe :: "('c, 'b) data_env \<Rightarrow> nat \<Rightarrow> flt \<Rightarrow> process_runtime \<Rightarrow> ('c, 'b) data_state \<Rightarrow> bool" where
  "poll_safe E i now pr st =
    (case wk_pipe (the_worker pr i) of
       Io_Request op ref data # _ \<Rightarrow>
         (case fst (resolve_io_request E True op ref data now st) of Raise _ \<Rightarrow> False | _ \<Rightarrow> True)
     | _ \<Rightarrow> True)"

lemma complete_job_keeps:
  assumes ok: "pr_ok pr" and pump: "wk_pump (the_worker pr i) = Serving job t" and f: "f = (\<lambda>w. w\<lparr>wk_pipe := ms\<rparr>)"
    and run: "complete_job i job t r ws now (with_worker i f pr) = (pr', effs)"
  shows "keeps_jobs pr pr' effs"
proof -
  have pr': "pr' = with_worker i (pump_released Waiting \<circ> touch_worker now \<circ> f) pr"
    and effs: "completions effs = [(job, r)]"
    using run by (auto simp: complete_job_def Let_def comp_assoc)
  have f': "keeps_key f" by (simp add: f)
  show ?thesis
  proof (cases "i \<in> pooled pr")
    case True
    have s: "serving_ok (the_worker pr i)" using pr_okD(3) [OF ok True] by blast
    then show ?thesis unfolding pr' using pump effs f f'
      by (intro keeps_jobs_in_place [OF ok True])
        (auto simp: serving_ok_def held_by_def queued_jobs_def pump_released_def touch_worker_def)
  next
    case False
    show ?thesis unfolding pr' by (rule keeps_jobs_nonpooled [OF ok False touches_with]) (use f' in simp)
  qed
qed

lemma pump_poll_keeps:
  assumes ok: "pr_ok pr" and safe: "poll_safe E i now pr st"
    and run: "pump_poll E i now (pr, st) = ((pr', st'), effs)"
  shows "keeps_jobs pr pr' effs"
proof (cases "wk_pump (the_worker pr i)")
  case (Serving job t)
  have served: "held_by (the_worker pr i) = insert job (queued_jobs (the_worker pr i))"
    using Serving by (auto simp: held_by_def)
  have id: "with_worker i id pr = pr" by (simp add: with_worker_def option.map_id0 fun_upd_idem)
  have crash: "keeps_jobs pr pr2 effs2"
    if "pump_ends i (handle_crash i job (Some t) now (with_worker i f pr)) = (pr2, effs2)"
      "f = id \<or> f = (\<lambda>w. w\<lparr>wk_pipe := ms\<rparr>)" for f ms pr2 effs2
  proof -
    have f: "keeps_key f" using that(2) by (auto simp: keeps_key_def)
    show ?thesis
    proof (cases "i \<in> pooled pr")
      case True
      then have "serving_ok (the_worker pr i)" using pr_okD(3) [OF ok] by blast
      then show ?thesis unfolding keeps_jobs_def using that(2) served
        by (intro crash_ends [OF ok True f _ _ _ that(1)]) (auto simp: serving_ok_def queued_jobs_def)
    next
      case False
      obtain r pr3 effs3 where h: "handle_crash i job (Some t) now (with_worker i f pr) = (r, pr3, effs3)"
        by (metis surj_pair)
      have "touches i pr pr3" by (rule touches_crash [OF ok touches_with [OF f] h])
      then have "touches i pr pr2" using that(1) touches_pump_ends unfolding h by metis
      then show ?thesis using ok False by (intro keeps_jobs_nonpooled)
    qed
  qed
  show ?thesis
  proof (cases "wk_pipe (the_worker pr i)")
    case Nil
    have timeout: "keeps_jobs pr pr2 effs2" if "pump_ends i (handle_timeout i job (Some t) now pr) = (pr2, effs2)"
      for pr2 effs2
    proof (cases "i \<in> pooled pr")
      case True
      then show ?thesis unfolding keeps_jobs_def using served
        by (intro timeout_ends [OF ok True _ that]) simp
    next
      case False
      obtain r pr3 effs3 where h: "handle_timeout i job (Some t) now pr = (r, pr3, effs3)" by (metis surj_pair)
      have "touches i pr pr3" by (rule touches_timeout [OF ok touches_refl h])
      then have "touches i pr pr2" using that touches_pump_ends unfolding h by metis
      then show ?thesis using ok False by (intro keeps_jobs_nonpooled)
    qed
    show ?thesis
      using run Nil Serving crash [of id] timeout ok
      by (auto simp: pump_poll_def Let_def id prod_eq_iff split: if_splits)
  next
    case (Cons m ms)
    show ?thesis
    proof (cases m)
      case (Result_Ok v ws)
      then have "complete_job i job t (Ok v) ws now (with_worker i (\<lambda>w. w\<lparr>wk_pipe := ms\<rparr>) pr) = (pr', effs)"
        using run Cons Serving by (simp add: pump_poll_def Let_def prod_eq_iff)
      then show ?thesis by (rule complete_job_keeps [OF ok Serving refl])
    next
      case (Result_Err v ws)
      then have "complete_job i job t (Err (AxoErr FunctionRuntimeError v)) ws now (with_worker i (\<lambda>w. w\<lparr>wk_pipe := ms\<rparr>) pr) = (pr', effs)"
        using run Cons Serving by (simp add: pump_poll_def Let_def prod_eq_iff)
      then show ?thesis by (rule complete_job_keeps [OF ok Serving refl])
    next
      case (Io_Request op ref data)
      obtain q st2 evs where io: "resolve_io_request E True op ref data now st = (q, st2, evs)" by (metis surj_pair)
      have q: "\<forall>ex. q \<noteq> Raise ex" using safe Io_Request Cons io by (auto simp: poll_safe_def)
      let ?pr1 = "with_worker i (\<lambda>w. w\<lparr>wk_pipe := ms\<rparr>) pr"
      have step: "pump_poll E i now (pr, st) =
         (if wk_alive (the_worker pr i) then ((?pr1, st2), map Emitted evs)
          else (case pump_ends i (handle_crash i job (Some t) now ?pr1) of
                  (pr, effs) \<Rightarrow> ((pr, st2), map Emitted evs @ effs)))"
        using Serving Cons Io_Request io q by (cases q) (simp_all add: pump_poll_def)
      show ?thesis
      proof (cases "wk_alive (the_worker pr i)")
        case True
        then have pr': "pr' = ?pr1" using run step by simp
        show ?thesis
        proof (cases "i \<in> pooled pr")
          case True
          then show ?thesis unfolding pr' using pr_okD(3) [OF ok True]
            by (intro keeps_jobs_in_place [OF ok True]) auto
        next
          case False
          then show ?thesis unfolding pr' by (rule keeps_jobs_nonpooled [OF ok _ touches_with]) simp
        qed
      next
        case False
        then obtain effs2 where "pump_ends i (handle_crash i job (Some t) now ?pr1) = (pr', effs2)"
          "effs = map Emitted evs @ effs2" using run step by (auto split: prod.splits)
        then show ?thesis using crash [of "\<lambda>w. w\<lparr>wk_pipe := ms\<rparr>" pr' effs2 ms] by (auto simp: keeps_jobs_def)
      qed
    qed
  qed
qed (use ok run in \<open>simp_all add: pump_poll_def\<close>)

lemma drop_queued_keeps:
  assumes "pr_ok pr" "set is \<subseteq> pooled pr" "drop_queued job is pr = (r, pr', effs)"
  shows "keeps_jobs pr pr' effs"
  using assms
proof (induction "is" arbitrary: pr)
  case Nil
  then show ?case by simp
next
  case (Cons i "is")
  let ?f = "\<lambda>w. w\<lparr>wk_queue := filter (\<lambda>x. map_option fst x \<noteq> Some job) (wk_queue w)\<rparr>"
  let ?w = "the_worker pr i" and ?pr1 = "with_worker i ?f pr"
  have i: "i \<in> pooled pr" using Cons.prems(2) by simp
  have s: "serving_ok ?w" using pr_okD(3) [OF Cons.prems(1) i] by blast
  have no: "None \<notin> set (wk_queue ?w)" using s by (simp add: serving_ok_def)
  have jobs: "set (map (fst \<circ> the) (wk_queue ?w)) = queued_jobs ?w" using queued_jobs_map [OF no] by simp
  have s1: "serving_ok (?f ?w)" using s by (simp add: serving_ok_def split: pump.splits)
  have h1: "held_by ?w \<subseteq> held_by (?f ?w) \<union> {job}" by (auto simp: held_by_def queued_jobs_def)
  have h2: "held_by ?w \<subseteq> held_by (?f ?w)" if "job \<notin> queued_jobs ?w"
    using that by (auto simp: held_by_def queued_jobs_def)
  show ?case
  proof (cases "job \<in> queued_jobs ?w")
    case True
    then have "pr' = ?pr1" "completions effs = [(job, Err (job_cancelled ''job was cancelled before it started''))]"
      using Cons.prems(3) drain_jobs [OF no] jobs by (auto simp: Let_def)
    then show ?thesis using s1 h1 by (simp add: keeps_jobs_in_place [OF Cons.prems(1) i])
  next
    case False
    have one: "keeps_jobs pr ?pr1 []" using s1 h2 [OF False] by (intro keeps_jobs_in_place [OF Cons.prems(1) i]) auto
    have "drop_queued job is ?pr1 = (r, pr', effs)"
      using Cons.prems(3) drain_jobs [OF no] jobs False by (simp add: Let_def)
    then have "keeps_jobs ?pr1 pr' effs" using Cons.prems(2) one by (intro Cons.IH) (auto simp: keeps_jobs_def)
    then show ?thesis using one by (auto simp: keeps_jobs_def)
  qed
qed

lemma prt_cancel_keeps:
  assumes ok: "pr_ok pr" and run: "prt_cancel job now pr = (r, pr', effs)"
  shows "keeps_jobs pr pr' effs"
proof (cases "find_by_job_id job pr")
  case None
  then show ?thesis
    using run set_list_handles [OF ok] by (intro drop_queued_keeps [OF ok]) (auto simp: prt_cancel_def)
next
  case (Some i)
  then have i: "i \<in> pooled pr" "wk_current_job (the_worker pr i) = Some job"
    using set_list_handles [OF ok] by (auto simp: find_by_job_id_def find_Some_iff)
  have s: "serving_ok (the_worker pr i)" using pr_okD(3) [OF ok i(1)] by blast
  then have no: "None \<notin> set (wk_queue (the_worker pr i))" by (simp add: serving_ok_def)
  let ?g = "(terminate_process \<circ> (\<lambda>w. w\<lparr>wk_cancelled := True\<rparr>)) \<circ> (\<lambda>w. w\<lparr>wk_queue := []\<rparr>)"
  have "pr' = with_worker i ?g (evict_worker i pr)"
    and effs: "fst ` set (completions effs) = insert job (queued_jobs (the_worker pr i))"
    using run Some no queued_jobs_map [OF no]
    by (auto simp: prt_cancel_def recycle_def Let_def drain_jobs image_image)
  moreover have "held_by (the_worker pr i) = insert job (queued_jobs (the_worker pr i))"
    using s i(2) by (auto simp: serving_ok_def held_by_def split: pump.splits)
  ultimately show ?thesis using evicted [OF ok, of ?g i] unfolding keeps_jobs_def by auto
qed

text \<open>A sweep is harmless when the workers that it stops have nothing to do.\<close>

definition quiet :: "worker \<Rightarrow> bool" where
  "quiet w = (\<not> wk_busy w \<and> wk_queue w = [])"

definition sweep_safe :: "(worker \<Rightarrow> bool) \<Rightarrow> process_runtime \<Rightarrow> bool" where
  "sweep_safe p pr = list_all (\<lambda>i. p (the_worker pr i) \<longrightarrow> quiet (the_worker pr i)) (list_handles pr)"

lemma sweep_handles_keeps:
  assumes "pr_ok pr" "\<forall>i \<in> set is. i \<in> pooled pr \<longrightarrow> p (the_worker pr i) \<longrightarrow> quiet (the_worker pr i)"
  shows "keeps_jobs pr (snd (sweep_handles p is pr)) []"
  using assms
proof (induction "is" arbitrary: pr)
  case Nil
  then show ?case by simp
next
  case (Cons i "is")
  show ?case
  proof (cases "p (the_worker pr i)")
    case False
    then show ?thesis using Cons by simp
  next
    case True
    let ?pr1 = "with_worker i kill_worker (evict_worker i pr)"
    have k: "keeps_key kill_worker" by simp
    have one: "keeps_jobs pr ?pr1 []"
    proof (cases "i \<in> pooled pr")
      case True
      then have "held_by (the_worker pr i) = {}"
        using Cons.prems \<open>p (the_worker pr i)\<close> pr_okD(3) [OF Cons.prems(1) True]
        by (auto simp: held_by_def queued_jobs_def quiet_def serving_ok_def split: pump.splits)
      then show ?thesis using evicted [OF Cons.prems(1) k, of i] by (simp add: keeps_jobs_def)
    next
      case False
      then show ?thesis unfolding evict_nonpooled [OF False]
        by (rule keeps_jobs_nonpooled [OF Cons.prems(1) _ touches_with [OF k]])
    qed
    have "j \<in> pooled ?pr1 \<longrightarrow> p (the_worker ?pr1 j) \<longrightarrow> quiet (the_worker ?pr1 j)" if "j \<in> set is" for j
      using that Cons.prems pooled_evict [OF Cons.prems(1), of i] by (cases "j = i") simp_all
    then have "keeps_jobs ?pr1 (snd (sweep_handles p is ?pr1)) []"
      using one by (intro Cons.IH) (auto simp: keeps_jobs_def)
    then show ?thesis using one True by (auto simp: keeps_jobs_def split: prod.splits)
  qed
qed

lemma prt_sweep_keeps:
  assumes "pr_ok pr" "sweep_safe p pr" "prt_sweep p reason now pr = (pr', effs)"
  shows "keeps_jobs pr pr' effs"
proof -
  have "completions (map (\<lambda>i. case worker_key pr i of (f, v) \<Rightarrow> emit_fn ''FUNCTION_STOPPED'' f v x now) is) = []" for x "is"
    by (induction "is") (simp_all add: case_prod_beta)
  then have "completions effs = []" "pr' = snd (sweep_handles p (list_handles pr) pr)"
    using assms(3) by (auto simp: prt_sweep_def split: prod.splits)
  moreover have "\<forall>i \<in> set (list_handles pr). p (the_worker pr i) \<longrightarrow> quiet (the_worker pr i)"
    using assms(2) by (simp add: sweep_safe_def list_all_iff)
  ultimately show ?thesis
    using sweep_handles_keeps [OF assms(1), of "list_handles pr" p] by (simp add: keeps_jobs_def)
qed

subsection \<open>Runs\<close>

fun action_safe :: "('c, 'b) data_env \<Rightarrow> prt_action \<Rightarrow> ('c, 'b) prt_run \<Rightarrow> bool" where
  "action_safe E (Poll i now) s = poll_safe E i now (ru_pr s) (ru_data s)"
| "action_safe E (Sweep_Idle ttl now) s = sweep_safe (worker_is_idle ttl now) (ru_pr s)"
| "action_safe E (Sweep_Max m now) s = sweep_safe (worker_exceeded m) (ru_pr s)"
| "action_safe E _ s = True"

text \<open>The states that safe actions reach.\<close>

inductive prt_reaches ::
  "catalog \<Rightarrow> ('c, 'b) data_env \<Rightarrow> ('c, 'b) data_state \<Rightarrow> ('c, 'b) prt_run \<Rightarrow> bool"
  for get_fn E st where
  start: "prt_reaches get_fn E st (run_init st)"
| act: "prt_reaches get_fn E st s \<Longrightarrow> action_safe E a s \<Longrightarrow> prt_reaches get_fn E st (prt_step get_fn E a s)"

definition accounted :: "('c, 'b) prt_run \<Rightarrow> bool" where
  "accounted s \<longleftrightarrow> pr_ok (ru_pr s) \<and> set (ru_accepted s) \<subseteq> held (ru_pr s) \<union> fst ` set (ru_completed s)"

lemma accounted_ran:
  "accounted s \<Longrightarrow> keeps_jobs (ru_pr s) pr effs \<Longrightarrow> accounted (ran (pr, effs) s)"
  by (auto simp: accounted_def ran_def keeps_jobs_def)

lemma accounted_step:
  assumes s: "accounted s" and safe: "action_safe E a s"
  shows "accounted (prt_step get_fn E a s)"
proof -
  have ok: "pr_ok (ru_pr s)" using s by (simp add: accounted_def)
  show ?thesis
  proof (cases a)
    case (Accept f v job ps now)
    obtain r pr effs where i: "prt_invoke get_fn (ckey (f, v)) job ps now (ru_pr s) = (r, pr, effs)" by (metis surj_pair)
    have k: "keeps_jobs (ru_pr s) pr effs" "(\<exists>h. r = Ok h) \<longrightarrow> job \<in> held pr"
      using prt_invoke_ok [OF ok i] by (auto simp: keeps_jobs_def)
    then show ?thesis using accounted_ran [OF s k(1)] i Accept
      by (cases r) (auto simp: accounted_def ran_def)
  next
    case (Take i now)
    then show ?thesis using accounted_ran [OF s pump_take_keeps [OF ok]] by (metis prt_step.simps(2) surj_pair)
  next
    case (Poll i now)
    obtain pr st effs where p: "pump_poll E i now (ru_pr s, ru_data s) = ((pr, st), effs)" by (metis surj_pair)
    then have "accounted (ran (pr, effs) s)"
      using safe Poll pump_poll_keeps [OF ok] by (intro accounted_ran [OF s]) simp
    then show ?thesis using p Poll by (simp add: accounted_def)
  next
    case (Sends i m)
    have "keeps_jobs (ru_pr s) (with_worker i (\<lambda>w. w\<lparr>wk_pipe := wk_pipe w @ [m]\<rparr>) (ru_pr s)) []"
      using pr_ok_with_worker [OF ok, of "\<lambda>w. w\<lparr>wk_pipe := wk_pipe w @ [m]\<rparr>" i]
        held_with_worker [OF ok, of i "\<lambda>w. w\<lparr>wk_pipe := wk_pipe w @ [m]\<rparr>" "{}"] pr_okD(3) [OF ok]
      by (auto simp: keeps_jobs_def)
    then show ?thesis using s Sends by (auto simp: accounted_def keeps_jobs_def)
  next
    case (Dies i)
    have "keeps_jobs (ru_pr s) (with_worker i terminate_process (ru_pr s)) []"
      using pr_ok_with_worker [OF ok, of terminate_process i]
        held_with_worker [OF ok, of i terminate_process "{}"] pr_okD(3) [OF ok]
      by (auto simp: keeps_jobs_def terminate_process_def)
    then show ?thesis using s Dies by (auto simp: accounted_def keeps_jobs_def)
  next
    case (Cancel job now)
    obtain r pr effs where c: "prt_cancel job now (ru_pr s) = (r, pr, effs)" by (metis surj_pair)
    then show ?thesis using accounted_ran [OF s prt_cancel_keeps [OF ok c]] Cancel by simp
  next
    case (Sweep_Idle ttl now)
    obtain pr effs where w: "prt_sweep (worker_is_idle ttl now) ''idle_ttl'' now (ru_pr s) = (pr, effs)" by (metis surj_pair)
    then show ?thesis using accounted_ran [OF s prt_sweep_keeps [OF ok _ w]] safe Sweep_Idle
      by (simp add: prt_sweep_idle_def)
  next
    case (Sweep_Max m now)
    obtain pr effs where w: "prt_sweep (worker_exceeded m) ''max_invocations'' now (ru_pr s) = (pr, effs)" by (metis surj_pair)
    then show ?thesis using accounted_ran [OF s prt_sweep_keeps [OF ok _ w]] safe Sweep_Max
      by (simp add: prt_sweep_max_invocations_def)
  qed
qed

lemma reaches_accounted: "prt_reaches get_fn E st s \<Longrightarrow> accounted s"
proof (induction rule: prt_reaches.induct)
  case start
  then show ?case by (simp add: accounted_def run_init_def)
qed (rule accounted_step)

section \<open>Properties\<close>


text \<open>One function without a runtime specification, whatever the key.\<close>

definition one_function :: catalog where
  "one_function key = Ok (Some \<lparr>fr_code = [], fr_function_id = ''f'', fr_name = ''f'', fr_version = 1,
     fr_created_at = 0, fr_state = REGISTERED, fr_runtime_spec = None, fr_code_format = ''source'',
     fr_params_schema = None\<rparr>)"

abbreviation sample_data :: "(data_record mem, file_tree) data_state" where
  "sample_data \<equiv> data_init mem_init [(''fs'', [])]"

abbreviation sample_env :: "(data_record mem, file_tree) data_env" where
  "sample_env \<equiv> node_env (\<lambda>_. None) ''/d''"

definition run_actions :: "prt_action list \<Rightarrow> (data_record mem, file_tree) prt_run" where
  "run_actions as = fold (prt_step one_function sample_env) as (run_init sample_data)"


text \<open>
  A sweep can lose a running job. A worker that has served its maximum of invocations is
  stopped by the sweep although it is running another job; the pump then finds the worker dead,
  and clearing its queue fails on the stop sentinel before anything is reported. The job stays
  accepted, no worker holds it, no pump is left to report it, and its result is never written.
\<close>

theorem sweep_loses_running_job:
  "let s = run_actions [Accept ''f'' 1 ''a'' [] 0, Take 0 1, Sends 0 (Result_Ok (VJson JNull) []), Poll 0 2,
       Accept ''f'' 1 ''b'' [] 3, Take 0 4, Sweep_Max 1 5, Poll 0 6]
   in ru_accepted s = [''a'', ''b''] \<and> map fst (ru_completed s) = [''a''] \<and> list_handles (ru_pr s) = [] \<and>
     pr_next (ru_pr s) = 1 \<and> wk_pump (the_worker (ru_pr s) 0) = Stopped \<and> wk_queue (the_worker (ru_pr s) 0) = []"
  by code_simp

text \<open>
  A cancellation can be undone by the worker's last words. A result that the worker sent
  before it was killed stays in the pipe, and the pump still delivers it after the cancellation
  was reported: the job is completed twice, first as cancelled, then with its result.
\<close>

theorem cancelled_job_completes_again:
  "let s = run_actions [Accept ''f'' 1 ''a'' [] 0, Take 0 1, Sends 0 (Result_Ok (VJson JNull) []), Cancel ''a'' 2, Poll 0 3]
   in ru_completed s = [(''a'', Err (job_cancelled ''job was cancelled'')), (''a'', Ok (VJson JNull))]"
  by code_simp

section \<open>Pools stay within their bound\<close>

definition shrinks :: "process_runtime \<Rightarrow> process_runtime \<Rightarrow> bool" where
  "shrinks pr pr' \<longleftrightarrow> (\<forall>k. length (pool_of k pr') \<le> length (pool_of k pr))"

lemma shrinks_refl [simp]: "shrinks pr pr"
  by (simp add: shrinks_def)

lemma shrinks_with [simp]: "shrinks pr (with_worker i f pr') = shrinks pr pr'"
  by (simp add: shrinks_def)

lemma shrinks_evict: "shrinks pr pr' \<Longrightarrow> shrinks pr (evict_worker i pr')"
  by (auto simp: shrinks_def pool_of_evict length_remove1 intro: le_trans [OF diff_le_self])

lemma shrinks_recycle: "recycle i pr' = (r, pr'') \<Longrightarrow> shrinks pr pr' \<Longrightarrow> shrinks pr pr''"
  by (auto simp: recycle_def Let_def shrinks_evict split: prod.splits)

lemma shrinks_crash: "handle_crash i job t now pr' = (r, pr'', effs) \<Longrightarrow> shrinks pr pr' \<Longrightarrow> shrinks pr pr''"
  by (auto simp: handle_crash_def Let_def dest: shrinks_recycle split: if_splits prod.splits res.splits)

lemma shrinks_timeout: "handle_timeout i job t now pr' = (r, pr'', effs) \<Longrightarrow> shrinks pr pr' \<Longrightarrow> shrinks pr pr''"
  by (auto simp: handle_timeout_def Let_def dest: shrinks_recycle split: if_splits prod.splits res.splits)

lemma shrinks_ends: "shrinks pr (fst (snd x)) \<Longrightarrow> shrinks pr (fst (pump_ends i x))"
  by (simp add: pump_ends_def case_prod_beta)

lemma shrinks_ends_crash: "shrinks pr pr' \<Longrightarrow> shrinks pr (fst (pump_ends i (handle_crash i job t now pr')))"
  by (rule shrinks_ends) (metis shrinks_crash prod.collapse)

lemma shrinks_ends_timeout: "shrinks pr pr' \<Longrightarrow> shrinks pr (fst (pump_ends i (handle_timeout i job t now pr')))"
  by (rule shrinks_ends) (metis shrinks_timeout prod.collapse)

lemma shrinks_take: "shrinks pr (fst (pump_take i now pr))"
  by (auto simp: pump_take_def Let_def intro!: shrinks_ends_crash split: pump.splits list.splits option.splits)

lemma shrinks_poll: "shrinks (fst x) (fst (fst (pump_poll E i now x)))"
proof (cases "wk_pump (the_worker (fst x) i)")
  case (Serving job t)
  show ?thesis
  proof (cases "wk_pipe (the_worker (fst x) i)")
    case Nil
    then show ?thesis using Serving
      by (simp add: pump_poll_def Let_def shrinks_ends_crash shrinks_ends_timeout)
  next
    case (Cons m ms)
    show ?thesis
    proof (cases m)
      case (Io_Request op ref data)
      then show ?thesis using Serving Cons
        by (auto simp: pump_poll_def Let_def shrinks_ends_crash case_prod_beta split: res.splits prod.splits)
    qed (use Serving Cons in \<open>simp_all add: pump_poll_def Let_def complete_job_def\<close>)
  qed
qed (simp_all add: pump_poll_def Let_def)

lemma shrinks_drop: "drop_queued job is pr' = (r, pr'', effs) \<Longrightarrow> shrinks pr pr' \<Longrightarrow> shrinks pr pr''"
  by (induction "is" arbitrary: pr') (auto simp: Let_def split: prod.splits res.splits if_splits)

lemma shrinks_cancel: "prt_cancel job now pr = (r, pr', effs) \<Longrightarrow> shrinks pr pr'"
  by (auto simp: prt_cancel_def Let_def intro: shrinks_drop [OF _ shrinks_refl] shrinks_recycle [OF _ shrinks_refl]
      split: option.splits prod.splits res.splits)

lemma shrinks_sweep_handles: "shrinks pr pr' \<Longrightarrow> shrinks pr (snd (sweep_handles p is pr'))"
  by (induction "is" arbitrary: pr') (auto simp: shrinks_evict case_prod_beta)

lemma shrinks_sweep: "shrinks pr (fst (prt_sweep p reason now pr))"
  using shrinks_sweep_handles [of pr pr p "list_handles pr"] by (simp add: prt_sweep_def case_prod_beta)

definition within_bound :: "catalog \<Rightarrow> process_runtime \<Rightarrow> bool" where
  "within_bound get_fn pr \<longleftrightarrow>
    (\<forall>f v m. max_concurrency_for get_fn (ckey (f, v)) = Ok m \<longrightarrow> int (length (pool_of (f, Some v) pr)) \<le> m)"

lemma within_bound_shrinks: "within_bound get_fn pr \<Longrightarrow> shrinks pr pr' \<Longrightarrow> within_bound get_fn pr'"
  unfolding within_bound_def
proof (intro allI impI)
  fix f v m
  assume "\<forall>f v m. max_concurrency_for get_fn (ckey (f, v)) = Ok m \<longrightarrow> int (length (pool_of (f, Some v) pr)) \<le> m"
    and s: "shrinks pr pr'" and m: "max_concurrency_for get_fn (ckey (f, v)) = Ok m"
  then have "int (length (pool_of (f, Some v) pr)) \<le> m" by blast
  moreover have "length (pool_of (f, Some v) pr') \<le> length (pool_of (f, Some v) pr)"
    using s by (simp add: shrinks_def)
  ultimately show "int (length (pool_of (f, Some v) pr')) \<le> m" by linarith
qed

lemma max_concurrency_pos: "max_concurrency_for get_fn key = Ok m \<Longrightarrow> 1 \<le> m"
  by (auto simp: max_concurrency_for_def split: res.splits option.splits)

lemma spawn_worker_pools:
  assumes "spawn_worker get_fn (ckey (f, v)) now pr = (r, pr', effs)"
  shows "pool_of k pr' = pool_of k pr \<or>
    k = (f, Some v) \<and> length (pool_of k pr') = length (pool_of k pr) + 1"
proof (cases "\<exists>x. get_fn (ckey (f, v)) = Ok (Some x)")
  case True
  then obtain x where "get_fn (ckey (f, v)) = Ok (Some x)" by blast
  then have "pr' = (register_worker (pr_next pr) (new_worker (ckey (f, v)) x) pr)\<lparr>pr_next := pr_next pr + 1\<rparr>"
    using assms by (auto simp: spawn_worker_def Let_def)
  then have "pool_of k pr' = pool_of k (register_worker (pr_next pr) (new_worker (ckey (f, v)) x) pr)"
    by (simp add: pool_of_def)
  then show ?thesis by (simp add: pool_of_register new_worker_def)
next
  case False
  then have "pr' = pr"
    using assms by (cases "get_fn (ckey (f, v))"; cases "the_ok (get_fn (ckey (f, v)))") (auto simp: spawn_worker_def Let_def)
  then show ?thesis by simp
qed

lemma choose_worker_bound:
  assumes b: "within_bound get_fn pr" and run: "choose_worker get_fn (ckey (f, v)) now pr = (r, pr', effs)"
  shows "within_bound get_fn pr'"
proof (cases "get_idle_or_none (f, Some v) pr")
  case (Some i)
  then show ?thesis using run b by (simp add: choose_worker_def)
next
  case None
  show ?thesis
  proof (cases "max_concurrency_for get_fn (ckey (f, v))")
    case (Ok m)
    let ?n = "int (length (pool_of (f, Some v) pr))"
    show ?thesis
    proof (cases "?n < m \<or> least_loaded (f, Some v) pr = None")
      case True
      have "?n < m"
      proof (rule ccontr)
        assume "\<not> ?n < m"
        then have "pool_of (f, Some v) pr = []" using True by (simp add: least_loaded_def split: list.splits)
        then show False using \<open>\<not> ?n < m\<close> max_concurrency_pos [OF Ok] by simp
      qed
      then have s: "spawn_worker get_fn (ckey (f, v)) now pr = (r, pr', effs)"
        using run None Ok by (simp add: choose_worker_def)
      have "int (length (pool_of (g, Some u) pr')) \<le> l"
        if "max_concurrency_for get_fn (ckey (g, u)) = Ok l" for g u l
        using spawn_worker_pools [OF s, of "(g, Some u)"] that b \<open>?n < m\<close> Ok
        by (auto simp: within_bound_def)
      then show ?thesis by (simp add: within_bound_def)
    next
      case False
      then show ?thesis using run None Ok b by (auto simp: choose_worker_def)
    qed
  qed (use run None b in \<open>auto simp: choose_worker_def\<close>)
qed

lemma prt_step_bound:
  assumes "within_bound get_fn (ru_pr s)"
  shows "within_bound get_fn (ru_pr (prt_step get_fn E a s))"
proof (cases a)
  case (Accept f v job ps now)
  obtain r pr effs where c: "choose_worker get_fn (ckey (f, v)) now (ru_pr s) = (r, pr, effs)" by (metis surj_pair)
  have b: "within_bound get_fn pr" by (rule choose_worker_bound [OF assms c])
  then have "within_bound get_fn (with_worker i g pr)" for i g by (simp add: within_bound_def)
  then show ?thesis using c b Accept by (cases r) (simp_all add: prt_invoke_def ran_def)
next
  case (Take i now)
  then show ?thesis using within_bound_shrinks [OF assms shrinks_take] by (simp add: ran_def)
next
  case (Poll i now)
  then show ?thesis using within_bound_shrinks [OF assms, of "fst (fst (pump_poll E i now (ru_pr s, ru_data s)))"]
      shrinks_poll [of "(ru_pr s, ru_data s)" E i now] by (simp add: ran_def case_prod_beta)
next
  case (Cancel job now)
  then show ?thesis using within_bound_shrinks [OF assms] shrinks_cancel [of job now "ru_pr s"]
    by (cases "prt_cancel job now (ru_pr s)") (auto simp: ran_def)
next
  case (Sweep_Idle ttl now)
  then show ?thesis using within_bound_shrinks [OF assms shrinks_sweep] by (simp add: ran_def prt_sweep_idle_def)
next
  case (Sweep_Max m now)
  then show ?thesis using within_bound_shrinks [OF assms shrinks_sweep]
    by (simp add: ran_def prt_sweep_max_invocations_def)
qed (use assms in \<open>auto simp: within_bound_def\<close>)

text \<open>
  C37: A function never has more workers than its maximum of concurrency. For every sequence of
  acceptances, steps of the pumps, deaths, cancellations and sweeps, whatever their order, the
  pool of each version of a function in the catalog is within the bound of its specification.
\<close>

theorem pools_within_concurrency:
  assumes "max_concurrency_for get_fn (ckey (f, v)) = Ok m"
  shows "int (length (pool_of (f, Some v) (ru_pr (fold (prt_step get_fn E) as (run_init st))))) \<le> m"
proof -
  have "within_bound get_fn (ru_pr s) \<Longrightarrow> within_bound get_fn (ru_pr (fold (prt_step get_fn E) as s))" for s
    by (induction as arbitrary: s) (simp_all add: prt_step_bound)
  moreover have "within_bound get_fn (ru_pr (run_init st))"
    using max_concurrency_pos by (fastforce simp: within_bound_def run_init_def pr_init_def pool_of_def)
  ultimately show ?thesis using assms unfolding within_bound_def by blast
qed

lemma pools_within_concurrency_witness:
  "int (length (pool_of (''f'', Some 1) (ru_pr (fold (prt_step one_function sample_env)
     [Accept ''f'' 1 ''a'' [] 0, Accept ''f'' 1 ''b'' [] 0] (run_init sample_data))))) \<le> 1"
  by (rule pools_within_concurrency) (simp add: max_concurrency_for_def one_function_def)

declare split_paired_All [simp] split_paired_Ex [simp]

end
