(* ===== verification/Event_Models.thy ===== *)
theory Event_Models
  imports Use_Cases
begin

text \<open>
  The classes of the events that endpoints publish (\<open>axo_shared/events/models.py\<close>), their
  construction from keyword arguments, and the table by which the envelope finds a class
  (\<open>axo_shared/events/envelope.py\<close>).

  The classes are pydantic models. pydantic is not code of the repository: what it does to a
  value that has not the declared type (a number written as text, say) is the parameter
  \<open>lax\<close>, of which \<open>lax_ok\<close> says that what it returns has the type.
\<close>

section \<open>Fields\<close>

datatype field_type =
    FStr
  | FInt
  | FFloat
  | FBool
  | FAny
  | FOpt field_type
  | FLit "string list"
  | FList field_type
  | FDict field_type
  | FModel "(string \<times> field_type) list"

text \<open>A field: its name, its type and its default.\<close>

type_synonym model_class = "(string, field_type \<times> json option) dict"

fun has_type :: "field_type \<Rightarrow> json \<Rightarrow> bool" where
  "has_type FStr j = (case j of JStr _ \<Rightarrow> True | _ \<Rightarrow> False)"
| "has_type FInt j = (case j of JInt _ \<Rightarrow> True | _ \<Rightarrow> False)"
| "has_type FFloat j = (case j of JFloat _ \<Rightarrow> True | _ \<Rightarrow> False)"
| "has_type FBool j = (case j of JBool _ \<Rightarrow> True | _ \<Rightarrow> False)"
| "has_type FAny j = True"
| "has_type (FOpt t) j = (j = JNull \<or> has_type t j)"
| "has_type (FLit xs) j = (case j of JStr s \<Rightarrow> s \<in> set xs | _ \<Rightarrow> False)"
| "has_type (FList t) j = (case j of JList js \<Rightarrow> list_all (has_type t) js | _ \<Rightarrow> False)"
| "has_type (FDict t) j = (case j of JObj d \<Rightarrow> list_all (\<lambda>(k, v). has_type t v) d | _ \<Rightarrow> False)"
| "has_type (FModel fs) j =
    (case j of JObj d \<Rightarrow> dkeys d = map fst fs \<and> list_all (\<lambda>(f, t). has_type t (dget d f JNull)) fs | _ \<Rightarrow> False)"

type_synonym lax_parse = "field_type \<Rightarrow> json \<Rightarrow> json option"

definition lax_ok :: "lax_parse \<Rightarrow> bool" where
  "lax_ok lax \<longleftrightarrow> (\<forall>t j v. lax t j = Some v \<longrightarrow> has_type t v)"

definition strict :: lax_parse where
  "strict t j = None"

lemma lax_ok_strict [simp]: "lax_ok strict"
  by (simp add: lax_ok_def strict_def)

definition validate_field :: "lax_parse \<Rightarrow> field_type \<Rightarrow> json \<Rightarrow> json option" where
  "validate_field lax t j = (if has_type t j then Some j else lax t j)"

text \<open>\<open>ValidationError\<close> is a \<open>ValueError\<close>; keyword arguments that are no fields are ignored.\<close>

fun construct :: "lax_parse \<Rightarrow> model_class \<Rightarrow> (string, json) dict \<Rightarrow> (string, json) dict res" where
  "construct lax [] kw = Ok []"
| "construct lax ((f, t, dflt) # fs) kw =
    (case (case map_of kw f of Some j \<Rightarrow> validate_field lax t j | None \<Rightarrow> dflt) of
       None \<Rightarrow> Raise ValueError
     | Some v \<Rightarrow> bind_res (construct lax fs kw) (\<lambda>d. Ok ((f, v) # d)))"

text \<open>The instances of a class, as their dumps.\<close>

definition field_types :: "model_class \<Rightarrow> (string \<times> field_type) list" where
  "field_types cls = map (\<lambda>(f, t, dflt). (f, t)) cls"

definition instance_of :: "model_class \<Rightarrow> (string, json) dict \<Rightarrow> bool" where
  "instance_of cls d \<longleftrightarrow>
    dkeys d = dkeys cls \<and> list_all (\<lambda>(f, t). has_type t (jget d f)) (field_types cls)"

lemma instance_of_iff:
  "instance_of cls d \<longleftrightarrow> dkeys d = dkeys cls \<and> (\<forall>(f, t, dflt) \<in> set cls. has_type t (jget d f))"
  by (auto simp: instance_of_def field_types_def list_all_iff)

text \<open>Classes whose field names differ and whose defaults have their types.\<close>

definition class_ok :: "model_class \<Rightarrow> bool" where
  "class_ok cls \<longleftrightarrow> dict_ok cls \<and>
    list_all (\<lambda>(f, t, dflt). case dflt of None \<Rightarrow> True | Some v \<Rightarrow> has_type t v) cls"

lemma validate_field_typed: "lax_ok lax \<Longrightarrow> validate_field lax t j = Some v \<Longrightarrow> has_type t v"
  by (auto simp: validate_field_def lax_ok_def split: if_splits)

lemma construct_typed:
  assumes "lax_ok lax" "class_ok cls" "construct lax cls kw = Ok d"
  shows "instance_of cls d"
  using assms(2,3)
proof (induction cls arbitrary: d)
  case Nil
  then show ?case by (simp add: instance_of_iff)
next
  case (Cons c cls)
  obtain f t dflt where c: "c = (f, t, dflt)" by (cases c) auto
  obtain v e where v: "(case map_of kw f of Some j \<Rightarrow> validate_field lax t j | None \<Rightarrow> dflt) = Some v"
    and e: "construct lax cls kw = Ok e" and d: "d = (f, v) # e"
    using Cons.prems(2) unfolding c by (auto simp: bind_res_def split: option.splits res.splits)
  have "has_type t v"
    using v Cons.prems(1) validate_field_typed [OF assms(1)]
    by (auto simp: c class_ok_def split: option.splits)
  moreover have "instance_of cls e"
    using Cons.prems(1) e by (intro Cons.IH) (auto simp: class_ok_def c dict_ok_def)
  moreover have "f \<notin> set (dkeys cls)" using Cons.prems(1) by (simp add: c class_ok_def dict_ok_def)
  moreover have "jget d g = jget e g" if "(g, u) \<in> set cls" for g u
    using that calculation(3) by (auto simp: d jget_def dget_def rev_image_eqI)
  ultimately show ?case
    unfolding instance_of_iff d c by (auto simp: jget_def dget_def)
qed

text \<open>Constructing an instance again from its dump gives the instance.\<close>

lemma construct_agree:
  assumes "dkeys d = dkeys cls" "dict_ok d" "\<forall>f \<in> set (dkeys d). map_of kw f = map_of d f"
    "\<forall>(f, t, dflt) \<in> set cls. has_type t (jget d f)"
  shows "construct lax cls kw = Ok d"
  using assms
proof (induction cls arbitrary: d)
  case (Cons c cls)
  obtain f t dflt where c: "c = (f, t, dflt)" by (cases c) auto
  obtain v e where d: "d = (f, v) # e" using Cons.prems(1) by (cases d) (auto simp: c)
  have new: "f \<notin> set (dkeys e)" using Cons.prems(2) by (simp add: d dict_ok_def)
  have "construct lax cls kw = Ok e"
  proof (rule Cons.IH)
    show "\<forall>g \<in> set (dkeys e). map_of kw g = map_of e g" using Cons.prems(3) new by (auto simp: d)
    show "\<forall>(g, t, dflt) \<in> set cls. has_type t (jget e g)"
    proof clarify
      fix g t dflt assume g: "(g, t, dflt) \<in> set cls"
      have "dkeys e = dkeys cls" using Cons.prems(1) by (simp add: c d)
      then have "g \<in> set (dkeys e)" using g by force
      then have "g \<noteq> f" using new by blast
      moreover have "has_type t (jget d g)" using Cons.prems(4) g by auto
      ultimately show "has_type t (jget e g)" by (simp add: d jget_def dget_def)
    qed
  qed (use Cons.prems in \<open>auto simp: c d dict_ok_def\<close>)
  moreover have "map_of kw f = Some v" "has_type t v"
    using Cons.prems(3,4) by (auto simp: c d jget_def dget_def)
  ultimately show ?case by (simp add: c d validate_field_def)
qed simp

lemma construct_again: "instance_of cls d \<Longrightarrow> class_ok cls \<Longrightarrow> construct lax cls d = Ok d"
  by (rule construct_agree) (auto simp: instance_of_iff class_ok_def dict_ok_def)

section \<open>The classes\<close>

definition required :: "field_type \<Rightarrow> field_type \<times> json option" where
  "required t = (t, None)"

definition optional :: "field_type \<Rightarrow> field_type \<times> json option" where
  "optional t = (FOpt t, Some JNull)"

text \<open>The base class; its two factories are the argument \<open>fresh\<close>. A \<open>datetime\<close> is its text.\<close>

definition EventEnvelope :: "string \<times> string \<Rightarrow> model_class" where
  "EventEnvelope fresh =
    [(''event_id'', FStr, Some (JStr (fst fresh))), (''created_at'', FStr, Some (JStr (snd fresh))),
     (''user_id'', optional FStr), (''virtual_environment_id'', optional FStr), (''endpoint_id'', optional FStr),
     (''runtime_type'', optional (FLit [''process'', ''container'']))]"

definition FailureDetail :: model_class where
  "FailureDetail =
    [(''error_class'', required FStr), (''error_code'', required FInt), (''component'', required FStr),
     (''message'', required FStr), (''traceback'', optional FStr), (''is_transient'', FBool, Some (JBool False))]"

definition model_field :: "model_class \<Rightarrow> field_type" where
  "model_field cls = FModel (map (\<lambda>(f, t, dflt). (f, t)) cls)"

text \<open>A subclass: its own fields override and extend the ones of the envelope.\<close>

definition event_class :: "string \<times> string \<Rightarrow> model_class \<Rightarrow> model_class" where
  "event_class fresh own = dmerge (EventEnvelope fresh) own"

definition new_event ::
  "lax_parse \<Rightarrow> string \<times> string \<Rightarrow> model_class \<Rightarrow> (string, json) dict \<Rightarrow> event_data res" where
  "new_event lax fresh own kw = construct lax (event_class fresh own) kw"

definition failed :: model_class where
  "failed = [(''failure'', required (model_field FailureDetail))]"

definition EndpointStarted :: model_class where
  "EndpointStarted = [(''router_bind'', required FStr), (''pub_bind'', required FStr)]"

definition EndpointMetricsReported :: model_class where
  "EndpointMetricsReported = [(''metrics'', FDict FAny, Some (JObj []))]"

definition EndpointStopped :: model_class where
  "EndpointStopped = [(''uptime_ms'', required FFloat)]"

definition LeaderElected :: model_class where
  "LeaderElected = [(''leader_ids'', required (FList FStr)), (''term'', required FInt)]"

definition ConsensusViewChanged :: model_class where
  "ConsensusViewChanged = [(''term'', required FInt), (''was_leader'', required FBool),
     (''is_leader'', required FBool), (''leader_ids'', required (FList FStr))]"

definition ClusterQuorumLost :: model_class where
  "ClusterQuorumLost =
    [(''term'', required FInt), (''member_count'', required FInt), (''quorum_size'', required FInt)]"

definition ClusterQuorumRestored :: model_class where
  "ClusterQuorumRestored =
    [(''term'', required FInt), (''member_count'', required FInt), (''quorum_size'', required FInt)]"

definition ClusterDegraded :: model_class where
  "ClusterDegraded =
    [(''term'', required FInt), (''member_count'', required FInt), (''quorum_size'', required FInt),
     (''evicted_peer_id'', required FStr)]"

definition fn_fields :: model_class where
  "fn_fields = [(''function_id'', required FStr), (''version'', required FInt)]"

definition FunctionRegistered :: model_class where
  "FunctionRegistered = fn_fields @ [(''name'', optional FStr), (''runtime_spec'', optional (FDict FAny)),
     (''params_schema'', optional (FList (FDict FAny))), (''owner_user_id'', optional FStr)]"

definition FunctionRegisterFailed :: model_class where
  "FunctionRegisterFailed = fn_fields @ failed"

definition build_fields :: model_class where
  "build_fields = [(''function_id'', optional FStr), (''python_version'', required FStr), (''image_tag'', required FStr)]"

definition FunctionBuildStarted :: model_class where
  "FunctionBuildStarted = build_fields"

definition FunctionBuildCompleted :: model_class where
  "FunctionBuildCompleted = build_fields @ [(''duration_ms'', required FFloat)]"

definition FunctionBuildFailed :: model_class where
  "FunctionBuildFailed = build_fields @ failed"

definition FunctionDeployed :: model_class where
  "FunctionDeployed = fn_fields"

definition FunctionDeployFailed :: model_class where
  "FunctionDeployFailed = fn_fields @ failed"

definition FunctionActivated :: model_class where
  "FunctionActivated = fn_fields @ [(''job_id'', required FStr)]"

definition FunctionDeactivated :: model_class where
  "FunctionDeactivated = fn_fields @ [(''state'', required FStr)]"

definition FunctionUpdated :: model_class where
  "FunctionUpdated = fn_fields @ [(''params_schema'', optional (FList (FDict FAny))), (''env_vars'', optional (FDict FStr))]"

definition FunctionStopped :: model_class where
  "FunctionStopped = fn_fields @ [(''reason'', required (FLit [''idle_ttl'', ''max_invocations'', ''dismissed'']))]"

definition FunctionCrashed :: model_class where
  "FunctionCrashed = fn_fields"

definition FunctionDeleted :: model_class where
  "FunctionDeleted = fn_fields"

definition FunctionDeleteFailed :: model_class where
  "FunctionDeleteFailed = fn_fields @ failed"

definition job_fields :: model_class where
  "job_fields = [(''job_id'', required FStr), (''function_id'', required FStr)]"

definition JobQueued :: model_class where
  "JobQueued = job_fields @ [(''version'', optional FInt), (''params'', optional (FDict FAny))]"

definition JobStarted :: model_class where
  "JobStarted = job_fields @ [(''version'', optional FInt), (''params'', optional (FDict FAny))]"

definition JobCompleted :: model_class where
  "JobCompleted = job_fields @ [(''duration_ms'', optional FFloat)]"

definition JobFailed :: model_class where
  "JobFailed = job_fields @ failed @ [(''duration_ms'', optional FFloat)]"

definition DataBucketCreated :: model_class where
  "DataBucketCreated = [(''name'', required FStr), (''quota_bytes'', required FInt)]"

definition data_fields :: model_class where
  "data_fields = [(''name'', required FStr), (''version'', required FInt)]"

definition DataRegistered :: model_class where
  "DataRegistered = data_fields @ [(''format'', required FStr), (''kind'', required FStr),
     (''total_size'', required FInt), (''total_chunks'', required FInt)]"

definition DataUploadCompleted :: model_class where
  "DataUploadCompleted = data_fields"

definition DataDeleted :: model_class where
  "DataDeleted = data_fields"

definition EndpointVirtualEnvironmentAssigned :: model_class where
  "EndpointVirtualEnvironmentAssigned = []"

definition EndpointVirtualEnvironmentDetached :: model_class where
  "EndpointVirtualEnvironmentDetached = [(''previous_virtual_environment_id'', required FStr)]"

text \<open>The classes by their event type, for the events that endpoints publish.\<close>

definition published_classes :: "(string, model_class) dict" where
  "published_classes =
    [(''EndpointStarted'', EndpointStarted), (''EndpointMetricsReported'', EndpointMetricsReported),
     (''EndpointStopped'', EndpointStopped), (''LeaderElected'', LeaderElected),
     (''ConsensusViewChanged'', ConsensusViewChanged), (''ClusterQuorumLost'', ClusterQuorumLost),
     (''ClusterQuorumRestored'', ClusterQuorumRestored), (''ClusterDegraded'', ClusterDegraded),
     (''FunctionRegistered'', FunctionRegistered), (''FunctionRegisterFailed'', FunctionRegisterFailed),
     (''FunctionBuildStarted'', FunctionBuildStarted), (''FunctionBuildCompleted'', FunctionBuildCompleted),
     (''FunctionBuildFailed'', FunctionBuildFailed), (''FunctionDeployed'', FunctionDeployed),
     (''FunctionDeployFailed'', FunctionDeployFailed), (''FunctionActivated'', FunctionActivated),
     (''FunctionDeactivated'', FunctionDeactivated), (''FunctionUpdated'', FunctionUpdated),
     (''FunctionStopped'', FunctionStopped), (''FunctionCrashed'', FunctionCrashed),
     (''FunctionDeleted'', FunctionDeleted), (''FunctionDeleteFailed'', FunctionDeleteFailed),
     (''JobQueued'', JobQueued), (''JobStarted'', JobStarted), (''JobCompleted'', JobCompleted),
     (''JobFailed'', JobFailed), (''DataBucketCreated'', DataBucketCreated), (''DataRegistered'', DataRegistered),
     (''DataUploadCompleted'', DataUploadCompleted), (''DataDeleted'', DataDeleted),
     (''EndpointVirtualEnvironmentAssigned'', EndpointVirtualEnvironmentAssigned),
     (''EndpointVirtualEnvironmentDetached'', EndpointVirtualEnvironmentDetached)]"

text \<open>
  An event of a published type, as it leaves an endpoint: an instance of its class. The identity
  \<open>fresh\<close> does not matter, it only gives defaults.
\<close>

definition typed_event :: "string \<Rightarrow> event_data \<Rightarrow> bool" where
  "typed_event ty d \<longleftrightarrow>
    (\<exists>own. map_of published_classes ty = Some own \<and> instance_of (event_class ([], []) own) d)"

lemmas class_defs = EventEnvelope_def FailureDetail_def required_def optional_def model_field_def failed_def
  EndpointStarted_def EndpointMetricsReported_def EndpointStopped_def LeaderElected_def ConsensusViewChanged_def
  ClusterQuorumLost_def ClusterQuorumRestored_def ClusterDegraded_def fn_fields_def FunctionRegistered_def
  FunctionRegisterFailed_def build_fields_def FunctionBuildStarted_def FunctionBuildCompleted_def
  FunctionBuildFailed_def FunctionDeployed_def FunctionDeployFailed_def FunctionActivated_def
  FunctionDeactivated_def FunctionUpdated_def FunctionStopped_def FunctionCrashed_def FunctionDeleted_def
  FunctionDeleteFailed_def job_fields_def JobQueued_def JobStarted_def JobCompleted_def JobFailed_def
  DataBucketCreated_def data_fields_def DataRegistered_def DataUploadCompleted_def DataDeleted_def
  EndpointVirtualEnvironmentAssigned_def EndpointVirtualEnvironmentDetached_def

lemma class_ok_event: "class_ok own \<Longrightarrow> class_ok (event_class fresh own)"
proof -
  assume own: "class_ok own"
  have env: "class_ok (EventEnvelope fresh)"
    by (simp add: class_ok_def EventEnvelope_def optional_def dict_ok_def)
  have "dict_ok (event_class fresh own)" using env by (simp add: event_class_def class_ok_def)
  moreover have "case dflt of None \<Rightarrow> True | Some v \<Rightarrow> has_type t v"
    if "(f, t, dflt) \<in> set (event_class fresh own)" for f t dflt
  proof -
    have "map_of (event_class fresh own) f = Some (t, dflt)"
      using that \<open>dict_ok (event_class fresh own)\<close> by (simp add: dict_ok_def)
    then have "map_of own f = Some (t, dflt) \<or> map_of (EventEnvelope fresh) f = Some (t, dflt)"
      using own by (auto simp: event_class_def map_of_dmerge class_ok_def split: option.splits)
    then have "(f, t, dflt) \<in> set own \<or> (f, t, dflt) \<in> set (EventEnvelope fresh)" by (auto dest: map_of_SomeD)
    then show ?thesis using own env by (auto simp: class_ok_def list_all_iff)
  qed
  ultimately show ?thesis by (auto simp: class_ok_def list_all_iff)
qed

lemma published_class_ok: "map_of published_classes ty = Some own \<Longrightarrow> class_ok own"
proof -
  have "list_all (\<lambda>(ty, own). class_ok own) published_classes"
    unfolding published_classes_def class_ok_def dict_ok_def class_defs by simp
  then show "map_of published_classes ty = Some own \<Longrightarrow> class_ok own"
    by (auto simp: list_all_iff dest: map_of_SomeD)
qed

text \<open>Which identity the factories gave does not matter for the types.\<close>

lemma field_types_dput: "field_types (dput f (t, dflt) cls) = dput f t (field_types cls)"
  by (induction cls) (auto simp: field_types_def)

lemma field_types_event:
  "field_types (event_class fresh own) = fold (\<lambda>(f, t). dput f t) (field_types own) (field_types (EventEnvelope fresh))"
proof -
  have "field_types (dmerge cls own) = fold (\<lambda>(f, t). dput f t) (field_types own) (field_types cls)" for cls
  proof (induction own arbitrary: cls)
    case (Cons c own)
    obtain f t dflt where "c = (f, t, dflt)" by (cases c) auto
    moreover have "field_types (c # own) = (fst c, fst (snd c)) # field_types own"
      by (simp add: field_types_def case_prod_beta)
    ultimately show ?case using Cons.IH [of "dput f (t, dflt) cls"] by (simp add: field_types_dput)
  qed (simp add: field_types_def [of "[]"])
  then show ?thesis by (simp add: event_class_def)
qed

lemma dkeys_field_types: "dkeys cls = map fst (field_types cls)"
  by (auto simp: field_types_def comp_def case_prod_beta)

lemma instance_of_fresh: "instance_of (event_class fresh own) d \<longleftrightarrow> instance_of (event_class fresh' own) d"
proof -
  have "field_types (EventEnvelope fresh) = field_types (EventEnvelope fresh')"
    by (simp add: field_types_def EventEnvelope_def optional_def)
  then show ?thesis by (simp add: instance_of_def dkeys_field_types field_types_event)
qed

lemma new_event_typed:
  assumes "lax_ok lax" "map_of published_classes ty = Some own" "new_event lax fresh own kw = Ok d"
  shows "typed_event ty d"
proof -
  have "instance_of (event_class fresh own) d"
    using construct_typed [OF assms(1) class_ok_event [OF published_class_ok [OF assms(2)]]] assms(3)
    by (simp add: new_event_def)
  then show ?thesis using assms(2) instance_of_fresh [of fresh own d "([], [])"] by (simp add: typed_event_def)
qed

text \<open>The fields of a typed event.\<close>

lemma typed_field:
  assumes "typed_event ty d" "map_of published_classes ty = Some own" "map_of own f = Some (t, dflt)"
  shows "map_of d f = Some (jget d f)" "has_type t (jget d f)"
proof -
  let ?cls = "event_class ([], []) own"
  have ok: "class_ok own" by (rule published_class_ok [OF assms(2)])
  have i: "instance_of ?cls d" using assms(1,2) by (auto simp: typed_event_def)
  have "map_of ?cls f = Some (t, dflt)"
    using ok assms(3) by (simp add: event_class_def map_of_dmerge class_ok_def)
  then have m: "(f, t, dflt) \<in> set ?cls" by (rule map_of_SomeD)
  then show "has_type t (jget d f)" using i by (auto simp: instance_of_iff)
  have "f \<in> set (dkeys d)" using m i by (force simp: instance_of_iff)
  then show "map_of d f = Some (jget d f)"
    by (cases "map_of d f") (auto simp: map_of_eq_None_iff jget_def dget_def)
qed

lemma typed_envelope:
  assumes "typed_event ty d" "map_of published_classes ty = Some own"
    "map_of own f = None" "map_of (EventEnvelope ([], [])) f = Some (t, dflt)"
  shows "map_of d f = Some (jget d f)" "has_type t (jget d f)"
proof -
  let ?cls = "event_class ([], []) own"
  have ok: "class_ok own" by (rule published_class_ok [OF assms(2)])
  have i: "instance_of ?cls d" using assms(1,2) by (auto simp: typed_event_def)
  have "map_of ?cls f = Some (t, dflt)"
    using ok assms(3,4) by (simp add: event_class_def map_of_dmerge class_ok_def)
  then have m: "(f, t, dflt) \<in> set ?cls" by (rule map_of_SomeD)
  then show "has_type t (jget d f)" using i by (auto simp: instance_of_iff)
  have "f \<in> set (dkeys d)" using m i by (force simp: instance_of_iff)
  then show "map_of d f = Some (jget d f)"
    by (cases "map_of d f") (auto simp: map_of_eq_None_iff jget_def dget_def)
qed

end
