(* ===== verification/External_Bridge.thy ===== *)
theory External_Bridge
  imports Event_Models Results
begin

text \<open>
  The bridge that turns the internal events of an endpoint into the published ones
  (\<open>axo_endpoint/core/external/bridge.py\<close>) and the publisher that sends them
  (\<open>service/transport/event_publisher.py\<close>). A method of the bridge reads the event's payload, the
  catalog and the stored results, and returns what it published and how it ended: an exception is
  caught by the event bus. The sending side of the socket is what the frames of an event are.
\<close>

section \<open>Publishing\<close>

record bridge =
  br_endpoint_id :: string
  br_results :: "string \<Rightarrow> function_result option res"
  br_functions :: "storage_key \<Rightarrow> function_record option res"
  br_virtual_environment_id :: json
  br_lax :: lax_parse
  br_fresh :: "nat \<Rightarrow> string \<times> string"

type_synonym publishing = "(string \<times> event_data) list \<times> unit res"

text \<open>
  \<open>_publish\<close> with the construction of its argument; \<open>i\<close> numbers the events that one method makes.
  The virtual environment is stamped on a copy, which pydantic does not check again.
\<close>

definition bridge_publish :: "bridge \<Rightarrow> nat \<Rightarrow> string \<Rightarrow> model_class \<Rightarrow> (string, json) dict \<Rightarrow> publishing" where
  "bridge_publish B i ty own kw =
    (case new_event (br_lax B) (br_fresh B i) own ((''endpoint_id'', JStr (br_endpoint_id B)) # kw) of
       Ok d \<Rightarrow> ([(ty, dput ''virtual_environment_id'' (br_virtual_environment_id B) d)], Ok ())
     | Err e \<Rightarrow> ([], Err e)
     | Raise ex \<Rightarrow> ([], Raise ex))"

definition no_publish :: publishing where
  "no_publish = ([], Ok ())"

definition then_publish :: "publishing \<Rightarrow> publishing \<Rightarrow> publishing" where
  "then_publish p q = (case snd p of Ok _ \<Rightarrow> (fst p @ fst q, snd q) | _ \<Rightarrow> p)"

definition with_value :: "'a res \<Rightarrow> ('a \<Rightarrow> publishing) \<Rightarrow> publishing" where
  "with_value r f = (case r of Ok x \<Rightarrow> f x | Err e \<Rightarrow> ([], Err e) | Raise ex \<Rightarrow> ([], Raise ex))"

definition get_function_record :: "bridge \<Rightarrow> json \<Rightarrow> json \<Rightarrow> function_record option res" where
  "get_function_record B function_id version =
    bind_res (json_str function_id) (\<lambda>i.
    bind_res (if version = JNull then Ok None else bind_res (exact_int version) (\<lambda>v. Ok (Some v))) (\<lambda>v.
      (case br_functions B (StorageKey i v None) of Err _ \<Rightarrow> Ok None | r \<Rightarrow> r)))"

definition runtime_type_of :: "function_record option \<Rightarrow> json" where
  "runtime_type_of r =
    (case r of None \<Rightarrow> JNull
     | Some f \<Rightarrow> (case fr_runtime_spec f of None \<Rightarrow> JNull | Some s \<Rightarrow> JStr (rs_type s)))"

definition runtime_type_for :: "bridge \<Rightarrow> json \<Rightarrow> json \<Rightarrow> json res" where
  "runtime_type_for B function_id version =
    bind_res (get_function_record B function_id version) (\<lambda>r. Ok (runtime_type_of r))"

text \<open>The record of a version that is known; no record is looked up for an unknown one.\<close>

definition record_if_known :: "bridge \<Rightarrow> json \<Rightarrow> json \<Rightarrow> function_record option res" where
  "record_if_known B function_id version =
    (if version = JNull then Ok None else get_function_record B function_id version)"

definition get_job_error :: "bridge \<Rightarrow> json \<Rightarrow> string res" where
  "get_job_error B job =
    bind_res (json_str job) (\<lambda>j.
      (case br_results B j of
         Raise ex \<Rightarrow> Raise ex
       | Ok (Some r) \<Rightarrow> Ok (jr_error r)
       | _ \<Rightarrow> Ok ''unknown error''))"

section \<open>Function lifecycle\<close>

definition schema_of :: "function_record option \<Rightarrow> json" where
  "schema_of r = (case r of None \<Rightarrow> JNull | Some f \<Rightarrow> params_schema_to_list (fr_params_schema f))"

definition on_function_registered :: "bridge \<Rightarrow> event \<Rightarrow> publishing" where
  "on_function_registered B e =
    with_value (jitem (ev_payload e) ''function_id'') (\<lambda>f.
    with_value (jitem (ev_payload e) ''version'') (\<lambda>v.
    with_value (get_function_record B f v) (\<lambda>r.
      bridge_publish B 0 ''FunctionRegistered'' FunctionRegistered
        [(''function_id'', f), (''version'', v),
         (''name'', case r of None \<Rightarrow> JNull | Some x \<Rightarrow> JStr (fr_name x)),
         (''runtime_spec'', case r of None \<Rightarrow> JNull | Some x \<Rightarrow> json_opt spec_to_dict (fr_runtime_spec x)),
         (''runtime_type'', runtime_type_of r), (''params_schema'', schema_of r)])))"

definition env_vars_of :: "function_record option \<Rightarrow> json" where
  "env_vars_of r =
    (case r of None \<Rightarrow> JNull
     | Some f \<Rightarrow> json_opt (\<lambda>s. JObj (map (\<lambda>(k, v). (k, JStr v)) (rs_env_vars s))) (fr_runtime_spec f))"

definition on_function_changed :: "bridge \<Rightarrow> event \<Rightarrow> publishing" where
  "on_function_changed B e =
    with_value (jitem (ev_payload e) ''function_id'') (\<lambda>f.
    with_value (jitem (ev_payload e) ''version'') (\<lambda>v.
    with_value (get_function_record B f v) (\<lambda>r.
      bridge_publish B 0 ''FunctionUpdated'' FunctionUpdated
        [(''function_id'', f), (''version'', v), (''params_schema'', schema_of r), (''env_vars'', env_vars_of r)])))"

text \<open>\<open>FailureDetail(**failure)\<close> and the failures that the bridge makes itself.\<close>

definition failure_of :: "bridge \<Rightarrow> json \<Rightarrow> json res" where
  "failure_of B j = bind_res (json_dict j) (\<lambda>kw. bind_res (construct (br_lax B) FailureDetail kw) (\<lambda>d. Ok (JObj d)))"

definition own_failure :: "bridge \<Rightarrow> string \<Rightarrow> string \<Rightarrow> json \<Rightarrow> json res" where
  "own_failure B cls part text =
    failure_of B (JObj [(''error_class'', JStr cls), (''error_code'', JInt 0), (''component'', JStr part), (''message'', text)])"

text \<open>Events about a version are skipped when the payload has none.\<close>

definition for_version :: "event \<Rightarrow> (json \<Rightarrow> json \<Rightarrow> publishing) \<Rightarrow> publishing" where
  "for_version e f =
    with_value (jitem (ev_payload e) ''function_id'') (\<lambda>i.
      let v = jget (ev_payload e) ''version'' in if v = JNull then no_publish else f i v)"

definition on_function_register_failed :: "bridge \<Rightarrow> event \<Rightarrow> publishing" where
  "on_function_register_failed B e = for_version e (\<lambda>f v.
    with_value (jitem (ev_payload e) ''failure'') (\<lambda>x.
    with_value (failure_of B x) (\<lambda>failure.
      bridge_publish B 0 ''FunctionRegisterFailed'' FunctionRegisterFailed
        [(''function_id'', f), (''version'', v), (''failure'', failure)])))"

definition on_function_deployed :: "bridge \<Rightarrow> event \<Rightarrow> publishing" where
  "on_function_deployed B e = for_version e (\<lambda>f v.
    bridge_publish B 0 ''FunctionDeployed'' FunctionDeployed
      [(''function_id'', f), (''version'', v),
       (''runtime_type'', JStr (if ev_type e \<in> {''CONTAINER_SPAWNED'', ''CONTAINER_READY''} then ''container'' else ''process''))])"

definition on_function_deploy_failed :: "bridge \<Rightarrow> event \<Rightarrow> publishing" where
  "on_function_deploy_failed B e = for_version e (\<lambda>f v.
    let crash = (ev_type e = ''CONTAINER_CRASHED'') in
    with_value (own_failure B (if crash then ''CONTAINER_ERROR'' else ''FUNCTION_RUNTIME_ERROR'')
        (if crash then ''container_spawner'' else ''process_runtime'')
        (dget (ev_payload e) ''error_message'' (JStr ''deploy failed''))) (\<lambda>failure.
      bridge_publish B 0 ''FunctionDeployFailed'' FunctionDeployFailed
        [(''function_id'', f), (''version'', v), (''failure'', failure),
         (''runtime_type'', JStr (if crash then ''container'' else ''process''))]))"

definition on_function_stopped :: "bridge \<Rightarrow> event \<Rightarrow> publishing" where
  "on_function_stopped B e = for_version e (\<lambda>f v.
    with_value (runtime_type_for B f v) (\<lambda>rt.
    with_value (jitem (ev_payload e) ''reason'') (\<lambda>reason.
      bridge_publish B 0 ''FunctionStopped'' FunctionStopped
        [(''function_id'', f), (''version'', v), (''reason'', reason), (''runtime_type'', rt)])))"

definition on_function_crashed :: "bridge \<Rightarrow> event \<Rightarrow> publishing" where
  "on_function_crashed B e = for_version e (\<lambda>f v.
    with_value (runtime_type_for B f v) (\<lambda>rt.
      bridge_publish B 0 ''FunctionCrashed'' FunctionCrashed
        [(''function_id'', f), (''version'', v), (''runtime_type'', rt)]))"

definition on_function_build_event :: "bridge \<Rightarrow> event \<Rightarrow> publishing" where
  "on_function_build_event B e =
    (let p = ev_payload e in
     with_value (jitem p ''python_version'') (\<lambda>py.
     with_value (jitem p ''image_tag'') (\<lambda>tag.
       let kw = [(''function_id'', jget p ''function_id''), (''python_version'', py), (''image_tag'', tag),
                 (''runtime_type'', JStr ''container'')] in
       if ev_type e = ''FUNCTION_BUILD_STARTED'' then
         bridge_publish B 0 ''FunctionBuildStarted'' FunctionBuildStarted kw
       else if ev_type e = ''FUNCTION_BUILD_COMPLETED'' then
         with_value (jitem p ''duration_ms'') (\<lambda>ms.
           bridge_publish B 0 ''FunctionBuildCompleted'' FunctionBuildCompleted ((''duration_ms'', ms) # kw))
       else
         with_value (own_failure B ''CONTAINER_ERROR'' ''container_spawner''
             (dget p ''error_message'' (JStr ''build failed''))) (\<lambda>failure.
           bridge_publish B 0 ''FunctionBuildFailed'' FunctionBuildFailed ((''failure'', failure) # kw)))))"

definition on_function_removed :: "bridge \<Rightarrow> event \<Rightarrow> publishing" where
  "on_function_removed B e =
    with_value (jitem (ev_payload e) ''function_id'') (\<lambda>f.
    with_value (jitem (ev_payload e) ''version'') (\<lambda>v.
      bridge_publish B 0 ''FunctionDeleted'' FunctionDeleted [(''function_id'', f), (''version'', v)]))"

definition on_function_delete_failed :: "bridge \<Rightarrow> event \<Rightarrow> publishing" where
  "on_function_delete_failed B e =
    with_value (jitem (ev_payload e) ''failure'') (\<lambda>x.
    with_value (jitem (ev_payload e) ''function_id'') (\<lambda>f.
    with_value (jitem (ev_payload e) ''version'') (\<lambda>v.
    with_value (failure_of B x) (\<lambda>failure.
      bridge_publish B 0 ''FunctionDeleteFailed'' FunctionDeleteFailed
        [(''function_id'', f), (''version'', v), (''failure'', failure)]))))"

section \<open>Jobs\<close>

definition on_job_queued :: "bridge \<Rightarrow> event \<Rightarrow> publishing" where
  "on_job_queued B e =
    (let p = ev_payload e; v = jget p ''function_version'' in
     with_value (jitem p ''function_id'') (\<lambda>f.
     with_value (jitem p ''job_id'') (\<lambda>job.
     with_value (runtime_type_for B f v) (\<lambda>rt.
       bridge_publish B 0 ''JobQueued'' JobQueued
         [(''job_id'', job), (''function_id'', f), (''version'', v), (''params'', jget p ''params''),
          (''runtime_type'', rt)]))))"

definition on_job_running :: "bridge \<Rightarrow> event \<Rightarrow> publishing" where
  "on_job_running B e =
    (let p = ev_payload e; v = jget p ''function_version'' in
     with_value (jitem p ''job_id'') (\<lambda>job.
     with_value (jitem p ''function_id'') (\<lambda>f.
     with_value (record_if_known B f v) (\<lambda>r.
       then_publish
         (bridge_publish B 0 ''JobStarted'' JobStarted
           [(''job_id'', job), (''function_id'', f), (''version'', v), (''params'', jget p ''params''),
            (''runtime_type'', runtime_type_of r)])
         (if v = JNull then no_publish
          else bridge_publish B 1 ''FunctionActivated'' FunctionActivated
            [(''function_id'', f), (''version'', v), (''job_id'', job), (''runtime_type'', runtime_type_of r)])))))"

definition on_job_done :: "bridge \<Rightarrow> event \<Rightarrow> publishing" where
  "on_job_done B e =
    (let p = ev_payload e; v = jget p ''function_version''; ms = jget p ''duration_ms'';
         is_done = (ev_type e = ''JOB_COMPLETED'') in
     with_value (jitem p ''job_id'') (\<lambda>job.
     with_value (jitem p ''function_id'') (\<lambda>f.
     with_value (record_if_known B f v) (\<lambda>r.
       let kw = [(''job_id'', job), (''function_id'', f), (''duration_ms'', ms), (''runtime_type'', runtime_type_of r)] in
       then_publish
         (if is_done then bridge_publish B 0 ''JobCompleted'' JobCompleted kw
          else
            with_value (get_job_error B job) (\<lambda>text.
            with_value (own_failure B ''FUNCTION_RUNTIME_ERROR'' ''runtime'' (JStr text)) (\<lambda>failure.
              bridge_publish B 0 ''JobFailed'' JobFailed ((''failure'', failure) # kw))))
         (if v = JNull then no_publish
          else bridge_publish B 1 ''FunctionDeactivated'' FunctionDeactivated
            [(''function_id'', f), (''version'', v), (''state'', JStr (if is_done then ''COMPLETED'' else ''FAILED'')),
             (''runtime_type'', runtime_type_of r)])))))"

section \<open>Data, buckets and consensus\<close>

text \<open>The events whose fields are fields of the payload; a missing one is a \<open>KeyError\<close>.\<close>

fun copied :: "(string, json) dict \<Rightarrow> (string \<times> string) list \<Rightarrow> (string, json) dict res" where
  "copied p [] = Ok []"
| "copied p ((f, k) # fs) = bind_res (jitem p k) (\<lambda>v. bind_res (copied p fs) (\<lambda>kw. Ok ((f, v) # kw)))"

definition publish_copied ::
  "bridge \<Rightarrow> string \<Rightarrow> model_class \<Rightarrow> (string \<times> string) list \<Rightarrow> event \<Rightarrow> publishing" where
  "publish_copied B ty own fs e = with_value (copied (ev_payload e) fs) (\<lambda>kw. bridge_publish B 0 ty own kw)"

definition on_bucket_registered :: "bridge \<Rightarrow> event \<Rightarrow> publishing" where
  "on_bucket_registered B =
    publish_copied B ''DataBucketCreated'' DataBucketCreated [(''name'', ''name''), (''quota_bytes'', ''quota_bytes'')]"

definition on_data_registered :: "bridge \<Rightarrow> event \<Rightarrow> publishing" where
  "on_data_registered B = publish_copied B ''DataRegistered'' DataRegistered
    [(''name'', ''data_id''), (''version'', ''version''), (''format'', ''format''), (''kind'', ''kind''),
     (''total_size'', ''total_size''), (''total_chunks'', ''total_chunks'')]"

definition on_data_upload_completed :: "bridge \<Rightarrow> event \<Rightarrow> publishing" where
  "on_data_upload_completed B =
    publish_copied B ''DataUploadCompleted'' DataUploadCompleted [(''name'', ''data_id''), (''version'', ''version'')]"

definition on_data_removed :: "bridge \<Rightarrow> event \<Rightarrow> publishing" where
  "on_data_removed B = publish_copied B ''DataDeleted'' DataDeleted [(''name'', ''data_id''), (''version'', ''version'')]"

definition on_leader_elected :: "bridge \<Rightarrow> event \<Rightarrow> publishing" where
  "on_leader_elected B = publish_copied B ''LeaderElected'' LeaderElected
    [(''leader_ids'', ''leader_ids''), (''term'', ''term'')]"

definition on_consensus_view_changed :: "bridge \<Rightarrow> event \<Rightarrow> publishing" where
  "on_consensus_view_changed B = publish_copied B ''ConsensusViewChanged'' ConsensusViewChanged
    [(''term'', ''term''), (''was_leader'', ''was_leader''), (''is_leader'', ''is_leader''),
     (''leader_ids'', ''leader_ids'')]"

definition quorum_copies :: "(string \<times> string) list" where
  "quorum_copies = [(''term'', ''term''), (''member_count'', ''member_count''), (''quorum_size'', ''quorum_size'')]"

definition on_cluster_quorum_event :: "bridge \<Rightarrow> event \<Rightarrow> publishing" where
  "on_cluster_quorum_event B e =
    (if ev_type e = ''CLUSTER_QUORUM_LOST'' then
       publish_copied B ''ClusterQuorumLost'' ClusterQuorumLost quorum_copies e
     else if ev_type e = ''CLUSTER_QUORUM_RESTORED'' then
       publish_copied B ''ClusterQuorumRestored'' ClusterQuorumRestored quorum_copies e
     else if ev_type e = ''CLUSTER_DEGRADED'' then
       publish_copied B ''ClusterDegraded'' ClusterDegraded
         (quorum_copies @ [(''evicted_peer_id'', ''evicted_peer_id'')]) e
     else no_publish)"

section \<open>Subscriptions\<close>

text \<open>The subscriptions of the application, in their order; each event type has one method.\<close>

definition bridge_subscriptions :: "(string \<times> (bridge \<Rightarrow> event \<Rightarrow> publishing)) list" where
  "bridge_subscriptions =
    [(state_value REGISTERED, on_function_registered), (''FUNCTION_REPLICATED'', on_function_registered),
     (''FUNCTION_REGISTER_FAILED'', on_function_register_failed), (''FUNCTION_DEPLOYED'', on_function_deployed),
     (''CONTAINER_SPAWNED'', on_function_deployed), (''CONTAINER_READY'', on_function_deployed),
     (''FUNCTION_DEPLOY_FAILED'', on_function_deploy_failed), (''CONTAINER_CRASHED'', on_function_deploy_failed),
     (''FUNCTION_UPDATED'', on_function_changed), (''FUNCTION_STOPPED'', on_function_stopped),
     (''FUNCTION_CRASHED'', on_function_crashed), (''FUNCTION_BUILD_STARTED'', on_function_build_event),
     (''FUNCTION_BUILD_COMPLETED'', on_function_build_event), (''FUNCTION_BUILD_FAILED'', on_function_build_event),
     (''FUNCTION_DELETED'', on_function_removed), (''FUNCTION_DELETE_FAILED'', on_function_delete_failed),
     (''JOB_SUBMITTED'', on_job_queued), (''JOB_STARTED'', on_job_running), (''JOB_COMPLETED'', on_job_done),
     (''JOB_FAILED'', on_job_done), (''BUCKET_REGISTERED'', on_bucket_registered),
     (''DATA_REGISTERED'', on_data_registered), (''DATA_UPLOAD_COMPLETED'', on_data_upload_completed),
     (''DATA_DELETED'', on_data_removed), (''LEADER_ELECTED'', on_leader_elected),
     (''CONSENSUS_VIEW_CHANGED'', on_consensus_view_changed), (''CLUSTER_QUORUM_LOST'', on_cluster_quorum_event),
     (''CLUSTER_QUORUM_RESTORED'', on_cluster_quorum_event), (''CLUSTER_DEGRADED'', on_cluster_quorum_event)]"

definition bridge_on_event :: "bridge \<Rightarrow> event \<Rightarrow> publishing" where
  "bridge_on_event B e =
    (case map_of bridge_subscriptions (ev_type e) of None \<Rightarrow> no_publish | Some h \<Rightarrow> h B e)"

text \<open>The frames of a published event, as its publisher sends them.\<close>

definition publisher_frames :: "string \<Rightarrow> string \<times> event_data \<Rightarrow> bytes list" where
  "publisher_frames endpoint p = encode_command (encode_event (fst p) endpoint (JObj (snd p)))"

end
