(* ===== verification/Event_Flow.thy ===== *)
theory Event_Flow
  imports External_Bridge
begin

text \<open>
  From an internal event of an endpoint to the read model of the manager: what the bridge
  publishes has the type of its class, finds its stream, and is projected without an exception
  on a read model whose documents have the shapes that the projector relies on, which the
  projection keeps.
\<close>

section \<open>The read model's shapes\<close>

definition is_array :: "json option \<Rightarrow> bool" where
  "is_array a = (case a of None \<Rightarrow> True | Some (JList _) \<Rightarrow> True | _ \<Rightarrow> False)"

definition ve_typed :: "doc \<Rightarrow> bool" where
  "ve_typed d \<longleftrightarrow> has_type (FOpt FStr) (doc_get d ''virtual_environment_id'')"

definition shapes_ok :: "coll read_model \<Rightarrow> bool" where
  "shapes_ok v \<longleftrightarrow>
    (\<forall>k d. endpoints v k = Some d \<longrightarrow> ve_typed d) \<and>
    (\<forall>k d. function_docs v k = Some d \<longrightarrow> is_array (d ''endpoint_id'')) \<and>
    (\<forall>k d. consensus v k = Some d \<longrightarrow> is_array (d ''reported_by'')) \<and>
    (\<forall>k d. jobs v k = Some d \<longrightarrow> is_ok (doc_to_job d))"

definition read_model_ok :: "'c vem \<Rightarrow> 'c read_model \<Rightarrow> bool" where
  "read_model_ok E s \<longleftrightarrow> shapes_ok (rm_view E s)"

text \<open>A step that neither raises nor breaks the shapes.\<close>

definition step_ok :: "unit res \<times> coll read_model \<Rightarrow> bool" where
  "step_ok r \<longleftrightarrow> fst r = Ok () \<and> shapes_ok (snd r)"

named_theorems step_intros \<open>steps that keep the shapes\<close>

lemma step_ok_return [step_intros]: "shapes_ok s \<Longrightarrow> step_ok (Ok (), s)"
  by (simp add: step_ok_def)

lemma step_ok_field: "map_of d k = Some v \<Longrightarrow> step_ok (f v) \<Longrightarrow> step_ok (with_field d k s f)"
  by (simp add: with_field_def)

lemma step_ok_res: "r = Ok x \<Longrightarrow> step_ok (f x) \<Longrightarrow> step_ok (with_res r s f)"
  by (simp add: with_res_def)

lemma step_ok_and_then [step_intros]:
  "step_ok r \<Longrightarrow> (\<And>s. shapes_ok s \<Longrightarrow> step_ok (f s)) \<Longrightarrow> step_ok (and_then r f)"
  by (cases r) (auto simp: step_ok_def and_then_def)

lemma shapes_ok_notes [simp]:
  "shapes_ok (broadcast t m s) = shapes_ok s" "shapes_ok (publish st ty d s) = shapes_ok s"
  by (simp_all add: shapes_ok_def broadcast_def publish_def)

lemma is_array_simps [simp]: "is_array None" "is_array (Some (JList xs))"
  by (simp_all add: is_array_def)

lemma is_array_added: "is_array a \<Longrightarrow> \<exists>xs. add_to_array a x = Some (JList xs)"
  by (auto simp: is_array_def add_to_array_def split: option.splits json.splits)

lemma coll_set_Some: "coll_set k d v i = Some e \<longleftrightarrow> (if i = k then e = doc_or_new v k ++ d else v i = Some e)"
  by (auto simp: coll_set_def)

lemma doc_or_new_array: "(\<forall>i e. v i = Some e \<longrightarrow> is_array (e f)) \<Longrightarrow> is_array (doc_or_new v k f)"
  by (auto simp: doc_or_new_def split: option.splits)

section \<open>The steps\<close>

lemma step_endpoint:
  assumes "db E = map_mongo" "shapes_ok s" "has_type (FOpt FStr) (jget d ''virtual_environment_id'')"
    "map_of d ''virtual_environment_id'' \<noteq> None"
  shows "shapes_ok (endpoint_apply E k d s)"
proof -
  have "ve_typed (e ++ map_of d)" for e
    using assms(3,4) by (auto simp: ve_typed_def doc_get_def jget_def dget_def)
  then show ?thesis using assms(1,2) by (auto simp: shapes_ok_def endpoint_apply_def coll_set_Some)
qed

lemma step_function:
  assumes "db E = map_mongo" "shapes_ok s" "map_of d ''function_id'' = Some i" "map_of d ''version'' = Some v"
  shows "step_ok (function_apply E d s)"
proof -
  let ?k = "function_key i v" and ?r = "map_of (dpop ''endpoint_id'' d)"
  have docs: "\<forall>i e. function_docs s i = Some e \<longrightarrow> is_array (e ''endpoint_id'')"
    using assms(2) by (simp add: shapes_ok_def)
  have rest: "?r ''endpoint_id'' = None" by (simp add: map_of_dpop)
  have own: "is_array ((doc_or_new (function_docs s) ?k ++ ?r) ''endpoint_id'')"
    using doc_or_new_array [OF docs] rest by (simp add: map_add_def)
  obtain xs where xs: "add_to_array ((doc_or_new (function_docs s) ?k ++ ?r) ''endpoint_id'') (jget d ''endpoint_id'') = Some (JList xs)"
    using is_array_added [OF own] by blast
  show ?thesis
    using assms own xs rest docs
    by (auto simp: function_apply_def with_field_def Let_def store_def step_ok_def coll_set_add_def shapes_ok_def
        coll_set_Some)
qed

lemma step_deleted:
  assumes "db E = map_mongo" "shapes_ok s" "map_of d ''function_id'' = Some i" "map_of d ''version'' = Some v"
    "map_of d ''created_at'' = Some t"
  shows "step_ok (function_mark_deleted E d s)"
proof -
  have docs: "\<forall>i e. function_docs s i = Some e \<longrightarrow> is_array (e ''endpoint_id'')"
    using assms(2) by (simp add: shapes_ok_def)
  show ?thesis
    using assms docs doc_or_new_array [OF docs]
    by (auto simp: function_mark_deleted_def with_field_def step_ok_def shapes_ok_def coll_set_Some)
qed

lemma step_consensus:
  assumes "db E = map_mongo" "shapes_ok s" "map_of d ''term'' = Some t" "map_of d ''reported_by'' = None"
  shows "step_ok (consensus_record E e d s)"
proof -
  have docs: "\<forall>i e. consensus s i = Some e \<longrightarrow> is_array (e ''reported_by'')"
    using assms(2) by (simp add: shapes_ok_def)
  have own: "is_array ((doc_or_new (consensus s) t ++ map_of d) ''reported_by'')"
    using doc_or_new_array [OF docs] assms(4) by (simp add: map_add_def)
  obtain xs where "add_to_array ((doc_or_new (consensus s) t ++ map_of d) ''reported_by'') e = Some (JList xs)"
    using is_array_added [OF own] by blast
  then show ?thesis
    using assms docs
    by (auto simp: consensus_record_def with_field_def store_def step_ok_def coll_set_add_def shapes_ok_def)
qed

lemma shapes_ok_workspaces [simp]:
  "shapes_ok (clear_leader_endpoint_id E s) = shapes_ok s"
  "shapes_ok (set_leader_endpoint_id E ve l s) = shapes_ok s"
  by (simp_all add: shapes_ok_def clear_leader_endpoint_id_def set_leader_endpoint_id_def)

lemma step_leader:
  assumes "db E = map_mongo" "shapes_ok s" "has_type (FList FStr) (jget d ''leader_ids'')"
  shows "step_ok (apply_leader_change E fresh d s)"
proof -
  obtain ids where ids: "jget d ''leader_ids'' = JList ids" "list_all (has_type FStr) ids"
    using assms(3) by (cases "jget d ''leader_ids''") simp_all
  show ?thesis
  proof (cases ids)
    case (Cons l ls)
    obtain leader where leader: "l = JStr leader" using ids(2) Cons by (cases l) simp_all
    let ?s = "clear_leader_endpoint_id E s"
    have "has_type (FOpt FStr) (ep_ve ep)" if "endpoint_get E ?s l = Some ep" for ep
      using that assms(1,2) unfolding shapes_ok_def ve_typed_def
      by (force simp: endpoint_get_def doc_to_endpoint_def clear_leader_endpoint_id_def simp del: has_type.simps)
    then show ?thesis
      using assms(2) ids(1) Cons leader
      by (auto simp: apply_leader_change_def Let_def step_ok_def split: list.split option.split json.split)
  qed (use ids assms in \<open>simp add: apply_leader_change_def step_ok_def\<close>)
qed

lemma job_doc_decodes: "doc_to_job (e ++ job_doc j) = Ok j"
  by (cases j; cases "job_state j")
    (simp_all add: doc_to_job_def job_doc_def field_def doc_get_def status_of_value_def)

lemma step_job:
  assumes "db E = map_mongo" "shapes_ok s" "map_of d ''job_id'' = Some i" "map_of d ''function_id'' = Some f"
  shows "step_ok (job_apply E ty d s)"
proof -
  have saved: "shapes_ok (job_save E j s)" for j
    using assms(1,2) by (auto simp: shapes_ok_def job_save_def coll_set_Some job_doc_decodes)
  have "\<exists>found. job_get E s i = Ok found"
  proof (cases "jobs s i")
    case (Some e)
    then have "is_ok (doc_to_job e)" using assms(2) by (simp add: shapes_ok_def)
    then obtain j where "doc_to_job e = Ok j" by (cases "doc_to_job e") simp_all
    then show ?thesis using Some assms(1) by (simp add: job_get_def)
  qed (use assms in \<open>simp add: job_get_def\<close>)
  then obtain found where "job_get E s i = Ok found" by blast
  then show ?thesis
    using saved assms
    by (auto simp: job_apply_def with_field_def with_res_def step_ok_def field_def split: option.split)
qed

lemma shapes_ok_items [simp]:
  "shapes_ok (bucket_save E k q t s) = shapes_ok s" "shapes_ok (item_save E i s) = shapes_ok s"
  "shapes_ok (item_set_status E n v st s) = shapes_ok s" "shapes_ok (item_delete E n v s) = shapes_ok s"
  by (simp_all add: shapes_ok_def bucket_save_def item_save_def item_set_status_def item_delete_def)

lemma step_activity:
  assumes "shapes_ok s" "map_of d ''created_at'' = Some (JStr t)" "parse_time E t \<noteq> None" "map_of d ''event_id'' = Some i"
  shows "step_ok (activity_record E ty d s)"
  using assms by (auto simp: activity_record_def with_field_def with_res_def parse_created_at_def step_ok_def shapes_ok_def)

section \<open>Typed events\<close>

text \<open>
  The fields that the classes of published events have, checked by evaluation below: \<open>classes_have
  tys f t\<close> says that each published class of a type in \<open>tys\<close> has the required field \<open>f\<close>.
\<close>

definition classes_have :: "string list \<Rightarrow> string \<Rightarrow> field_type \<Rightarrow> bool" where
  "classes_have tys f t =
    list_all (\<lambda>(ty, own). ty \<in> set tys \<longrightarrow> map_of own f = Some (t, None)) published_classes"

lemmas type_group_defs = endpoint_event_types_def function_event_types_def consensus_event_types_def
  leader_bearing_event_types_def job_event_types_def bucket_event_types_def activity_only_event_types_def
  user_profile_event_types_def virtual_env_event_types_def choreography_event_types_def

lemma typed_has:
  assumes "typed_event ty d" "classes_have tys f t" "ty \<in> set tys"
  obtains v where "map_of d f = Some v" "jget d f = v" "has_type t v"
proof -
  obtain own where own: "map_of published_classes ty = Some own"
    using assms(1) by (auto simp: typed_event_def)
  have "map_of own f = Some (t, None)"
    using assms(2,3) map_of_SomeD [OF own] by (auto simp: classes_have_def list_all_iff)
  from typed_field [OF assms(1) own this] show thesis using that by blast
qed

definition versioned_types :: "string list" where
  "versioned_types = function_event_types @ [''FunctionDeleted'', ''FunctionDeleteFailed'', ''FunctionEndpointDetached'']"

definition build_types :: "string list" where
  "build_types = [''FunctionBuildStarted'', ''FunctionBuildCompleted'', ''FunctionBuildFailed'']"

definition data_types :: "string list" where
  "data_types = [''DataRegistered'', ''DataUploadCompleted'', ''DataDeleted'']"

lemmas check_defs = classes_have_def published_classes_def class_defs type_group_defs versioned_types_def
  build_types_def data_types_def

lemma versioned_fields: "classes_have versioned_types ''function_id'' FStr" "classes_have versioned_types ''version'' FInt"
  by (simp_all add: check_defs)

lemma build_class_fields: "classes_have build_types ''python_version'' FStr"
  by (simp add: check_defs)

lemma consensus_fields: "classes_have consensus_event_types ''term'' FInt"
  "classes_have leader_bearing_event_types ''leader_ids'' (FList FStr)"
  by (simp_all add: check_defs)

lemma job_class_fields: "classes_have job_event_types ''job_id'' FStr" "classes_have job_event_types ''function_id'' FStr"
  by (simp_all add: check_defs)

lemma bucket_class_fields: "classes_have bucket_event_types ''name'' FStr" "classes_have data_types ''version'' FInt"
  "classes_have [''DataBucketCreated''] ''quota_bytes'' FInt" "classes_have [''DataRegistered''] ''format'' FStr"
  "classes_have [''DataRegistered''] ''kind'' FStr" "classes_have [''DataRegistered''] ''total_size'' FInt"
  "classes_have [''DataRegistered''] ''total_chunks'' FInt"
  by (simp_all add: check_defs)

text \<open>No class overrides a field of the envelope, and no type is one of the manager's own.\<close>

lemma classes_plain:
  "list_all (\<lambda>(ty, own). list_all (\<lambda>f. map_of own f = None)
     (''reported_by'' # dkeys (EventEnvelope ([], [])))) published_classes"
  by (simp add: check_defs)

definition routed_types :: "string list" where
  "routed_types = endpoint_event_types @ versioned_types @ build_types @ consensus_event_types @ job_event_types @ bucket_event_types"

lemma published_routed: "list_all (\<lambda>ty. ty \<in> set routed_types) (dkeys published_classes)"
  by (simp add: published_classes_def routed_types_def type_group_defs versioned_types_def build_types_def)

lemma typed_routed: "typed_event ty d \<Longrightarrow> ty \<in> set routed_types"
  using published_routed by (force simp: typed_event_def list_all_iff dest: map_of_SomeD)

lemma typed_envelope_field:
  assumes "typed_event ty d" "map_of (EventEnvelope ([], [])) f = Some (t, dflt)"
  obtains v where "map_of d f = Some v" "jget d f = v" "has_type t v"
proof -
  obtain own where own: "map_of published_classes ty = Some own"
    using assms(1) by (auto simp: typed_event_def)
  have "f \<in> set (dkeys (EventEnvelope ([], [])))" using assms(2) by (force dest: map_of_SomeD)
  then have "map_of own f = None"
    using classes_plain(1) map_of_SomeD [OF own] by (auto simp: list_all_iff)
  from typed_envelope [OF assms(1) own this assms(2)] show thesis using that by blast
qed

lemma envelope_types:
  "map_of (EventEnvelope ([], [])) ''event_id'' = Some (FStr, Some (JStr []))"
  "map_of (EventEnvelope ([], [])) ''created_at'' = Some (FStr, Some (JStr []))"
  "map_of (EventEnvelope ([], [])) ''endpoint_id'' = Some (FOpt FStr, Some JNull)"
  "map_of (EventEnvelope ([], [])) ''virtual_environment_id'' = Some (FOpt FStr, Some JNull)"
  by (simp_all add: EventEnvelope_def optional_def)

lemma typed_no_reporters: "typed_event ty d \<Longrightarrow> map_of d ''reported_by'' = None"
proof -
  assume d: "typed_event ty d"
  then obtain own where own: "map_of published_classes ty = Some own"
    and i: "instance_of (event_class ([], []) own) d" by (auto simp: typed_event_def)
  have "map_of own ''reported_by'' = None" using classes_plain(1) map_of_SomeD [OF own] by (auto simp: list_all_iff)
  then have "''reported_by'' \<notin> set (dkeys (event_class ([], []) own))"
    unfolding event_class_def dkeys_dmerge by (simp add: map_of_eq_None_iff EventEnvelope_def)
  moreover have "dkeys d = dkeys (event_class ([], []) own)" using i by (simp add: instance_of_def)
  ultimately have "''reported_by'' \<notin> set (dkeys d)" by (simp only: not_False_eq_True)
  then show ?thesis by (simp add: map_of_eq_None_iff)
qed

text \<open>Every typed event has a stream.\<close>

lemma typed_stream:
  assumes d: "typed_event ty d"
  shows "\<exists>st. stream_name_for (JStr ty) ep (JObj d) = Ok st"
proof -
  have eq: "stream_name_for (JStr ty) ep (JObj d) =
    (if ty \<in> set endpoint_event_types then Ok (''endpoints-'' @ py_str ep)
     else if ty \<in> set versioned_types then
       bind_res (item (JObj d) ''function_id'') (\<lambda>f.
       bind_res (item (JObj d) ''version'') (\<lambda>v. Ok (''functions-'' @ py_str f @ ''-'' @ py_str v)))
     else if ty \<in> set build_types then
       (if py_truthy (jget d ''function_id'') then Ok (''functions-'' @ py_str (jget d ''function_id''))
        else bind_res (item (JObj d) ''python_version'') (\<lambda>v. Ok (''functions-base-image-py'' @ py_str v)))
     else if ty \<in> set consensus_event_types then Ok (''consensus-'' @ py_str ep)
     else if ty \<in> set job_event_types then
       bind_res (item (JObj d) ''function_id'') (\<lambda>f. Ok (''activity-'' @ py_str f))
     else if ty = ''DataBucketCreated'' then
       bind_res (item (JObj d) ''name'') (\<lambda>n. Ok (''buckets-'' @ py_str n))
     else if ty \<in> set data_types then
       bind_res (bind_res (item (JObj d) ''name'') name_of) (\<lambda>n. Ok (''buckets-'' @ bucket_part n))
     else Raise ValueError)"
    unfolding stream_name_for_def versioned_types_def build_types_def data_types_def json.case object_of_def
      bind_res_simps by (rule refl)
  have bucket: "ty \<in> set bucket_event_types \<longleftrightarrow> ty = ''DataBucketCreated'' \<or> ty \<in> set data_types"
    by (auto simp: bucket_event_types_def data_types_def)
  have has: "\<exists>v. item (JObj d) f = Ok v \<and> has_type t v" if "classes_have tys f t" "ty \<in> set tys" for tys f t
    using typed_has [OF d that] by (fastforce simp: item_def)
  consider "ty \<in> set endpoint_event_types" | "ty \<in> set versioned_types" | "ty \<in> set build_types"
    | "ty \<in> set consensus_event_types" | "ty \<in> set job_event_types" | "ty \<in> set bucket_event_types"
    using typed_routed [OF d] unfolding routed_types_def set_append Un_iff by blast
  then show ?thesis
  proof cases
    case 2
    from has [OF versioned_fields(1) this] has [OF versioned_fields(2) this] obtain f v
      where "item (JObj d) ''function_id'' = Ok f" "item (JObj d) ''version'' = Ok v" by blast
    with 2 show ?thesis unfolding eq by (cases "ty \<in> set endpoint_event_types") simp_all
  next
    case 3
    from has [OF build_class_fields this] obtain v where v: "item (JObj d) ''python_version'' = Ok v" by blast
    show ?thesis
    proof (cases "ty \<in> set versioned_types")
      case True
      from has [OF versioned_fields(1) this] has [OF versioned_fields(2) this] show ?thesis using True unfolding eq by auto
    qed (use v 3 in \<open>simp add: eq\<close>)
  next
    case 5
    from has [OF job_class_fields(2) this] obtain f where "item (JObj d) ''function_id'' = Ok f" by blast
    moreover obtain v where "ty \<in> set versioned_types \<longrightarrow> item (JObj d) ''version'' = Ok v"
      using has [OF versioned_fields(2)] by blast
    moreover obtain w where "ty \<in> set build_types \<longrightarrow> item (JObj d) ''python_version'' = Ok w"
      using has [OF build_class_fields] by blast
    ultimately show ?thesis using 5 unfolding eq by simp
  next
    case 6
    from has [OF bucket_class_fields(1) this] obtain n where n: "item (JObj d) ''name'' = Ok n" "has_type FStr n" by blast
    then obtain m where m: "n = JStr m" by (cases n) simp_all
    have other: "ty \<notin> set versioned_types" "ty \<notin> set build_types" "ty \<notin> set job_event_types"
      using 6 by (auto simp: type_group_defs versioned_types_def build_types_def)
    show ?thesis using n m other 6 [unfolded bucket] unfolding eq by (auto simp: name_of_def)
  next
    case 4
    then have "ty \<notin> set versioned_types" "ty \<notin> set build_types"
      by (auto simp: type_group_defs versioned_types_def build_types_def)
    then show ?thesis using 4 by (simp add: eq)
  qed (simp add: eq)
qed

section \<open>Projection\<close>

lemma unpublished: "map_of published_classes ''FunctionEndpointDetached'' = None"
  by (simp add: published_classes_def)

text \<open>Every typed event is projected, on maps for collections.\<close>

lemma typed_compute:
  assumes E: "db E = map_mongo" and s: "shapes_ok s" and d: "typed_event ty d"
    and ty: "ty \<in> set endpoint_event_types \<or> ty \<in> set function_event_types \<or>
      ty \<in> set [''FunctionDeleted'', ''FunctionEndpointDetached''] \<or> ty \<in> set consensus_event_types"
  shows "step_ok (compute_apply E fresh ty d s)"
proof -
  have env: "\<exists>v. map_of d f = Some v \<and> jget d f = v \<and> has_type t v"
    if "map_of (EventEnvelope ([], [])) f = Some (t, dflt)" for f t dflt
    using typed_envelope_field [OF d that] by metis
  have own: "\<exists>v. map_of d f = Some v \<and> jget d f = v \<and> has_type t v" if "classes_have tys f t" "ty \<in> set tys" for tys f t
    using typed_has [OF d that] by metis
  obtain e where e: "map_of d ''endpoint_id'' = Some e" using env [OF envelope_types(3)] by blast
  have ve: "has_type (FOpt FStr) (jget d ''virtual_environment_id'')" "map_of d ''virtual_environment_id'' \<noteq> None"
    using typed_envelope_field [OF d envelope_types(4)] by (metis, metis option.distinct(1))
  obtain c where c: "map_of d ''created_at'' = Some c" using env [OF envelope_types(2)] by blast
  have versioned: "\<exists>i v. map_of d ''function_id'' = Some i \<and> map_of d ''version'' = Some v"
    if "ty \<in> set versioned_types" using own [OF versioned_fields(1) that] own [OF versioned_fields(2) that] by blast
  have detached: "ty \<noteq> ''FunctionEndpointDetached''"
    using d unpublished by (auto simp: typed_event_def)
  have put: "map_of (dput ''status'' x d) f = map_of d f" if "f \<noteq> ''status''" for f x using that by (simp add: map_of_dput)
  consider "ty \<in> set endpoint_event_types"
    | "ty \<notin> set endpoint_event_types" "ty \<in> set function_event_types"
    | "ty \<notin> set endpoint_event_types" "ty \<notin> set function_event_types" "ty = ''FunctionDeleted''"
    | "ty \<notin> set endpoint_event_types" "ty \<notin> set function_event_types" "ty \<noteq> ''FunctionDeleted''" "ty \<in> set consensus_event_types"
    using ty detached by auto
  then show ?thesis
  proof cases
    case 1
    have "shapes_ok (endpoint_apply E e (dput ''status'' x d) s)" for x
      using ve by (intro step_endpoint [OF E s]) (simp_all add: jget_def dget_def map_of_dput)
    moreover have "shapes_ok (endpoint_apply E e d s)" using ve by (intro step_endpoint [OF E s])
    ultimately show ?thesis using 1 e
      by (auto simp: compute_apply_def with_field_def Let_def step_ok_def split: option.split)
  next
    case 2
    then have "ty \<in> set versioned_types" by (simp add: versioned_types_def)
    then obtain i v where iv: "map_of d ''function_id'' = Some i" "map_of d ''version'' = Some v" using versioned by blast
    have "step_ok (function_apply E (dput ''container_status'' x d) s)" for x
      using iv by (intro step_function [OF E s]) (simp_all add: map_of_dput)
    moreover have "step_ok (function_apply E d s)" using iv by (intro step_function [OF E s])
    ultimately show ?thesis using 2
      by (auto simp: compute_apply_def Let_def step_ok_return split: option.split intro!: step_ok_and_then)
  next
    case 3
    then have "ty \<in> set versioned_types" by (simp add: versioned_types_def)
    then obtain i v where iv: "map_of d ''function_id'' = Some i" "map_of d ''version'' = Some v" using versioned by blast
    show ?thesis using 3 iv c step_deleted [OF E s iv c]
      by (auto simp: compute_apply_def with_field_def step_ok_return intro!: step_ok_and_then)
  next
    case 4
    have "ty \<noteq> ''FunctionEndpointDetached''" by (rule detached)
    obtain t where t: "map_of d ''term'' = Some t" using own [OF consensus_fields(1) 4(4)] by blast
    have leader: "has_type (FList FStr) (jget d ''leader_ids'')" if "ty \<in> set leader_bearing_event_types"
      using own [OF consensus_fields(2) that] by blast
    have "step_ok (if ty \<in> set leader_bearing_event_types then apply_leader_change E fresh d s1 else (Ok (), s1))"
      if "shapes_ok s1" for s1
      using step_leader [OF E that leader] that by (simp add: step_ok_return)
    then show ?thesis using 4 detached e step_consensus [OF E s t typed_no_reporters [OF d]]
      by (auto simp: compute_apply_def with_field_def intro!: step_ok_and_then)
  qed
qed

lemma typed_bucket:
  assumes s: "shapes_ok s" and d: "typed_event ty d" and ty: "ty \<in> set bucket_event_types"
  shows "step_ok (bucket_apply E ty d s)"
proof -
  have own: "\<exists>v. map_of d f = Some v \<and> has_type t v" if "classes_have tys f t" "ty \<in> set tys" for tys f t
    using typed_has [OF d that] by metis
  obtain c where c: "map_of d ''created_at'' = Some c" using typed_envelope_field [OF d envelope_types(2)] by metis
  obtain n where n: "map_of d ''name'' = Some n" "has_type FStr n" using own [OF bucket_class_fields(1) ty] by blast
  then obtain m where m: "n = JStr m" by (cases n) simp_all
  consider "ty = ''DataBucketCreated''" | "ty = ''DataRegistered''" | "ty = ''DataUploadCompleted''" | "ty = ''DataDeleted''"
    using ty by (auto simp: bucket_event_types_def)
  then show ?thesis
  proof cases
    case 1
    then obtain q where "map_of d ''quota_bytes'' = Some q" using own [OF bucket_class_fields(3)] by auto
    then show ?thesis using 1 n c s by (simp add: bucket_apply_def with_field_def step_ok_return)
  next
    case 2
    then have "ty \<in> set data_types" "ty \<in> set [''DataRegistered'']" by (simp_all add: data_types_def)
    then obtain v f k sz ch where "map_of d ''version'' = Some v" "map_of d ''format'' = Some f" "map_of d ''kind'' = Some k"
      "map_of d ''total_size'' = Some sz" "map_of d ''total_chunks'' = Some ch"
      using own [OF bucket_class_fields(2)] own [OF bucket_class_fields(4)] own [OF bucket_class_fields(5)]
        own [OF bucket_class_fields(6)] own [OF bucket_class_fields(7)] by blast
    then show ?thesis using 2 n m s
      by (simp add: bucket_apply_def with_field_def with_res_def name_of_def Let_def step_ok_return)
  next
    case 3
    then obtain v where "map_of d ''version'' = Some v" using own [OF bucket_class_fields(2)] by (auto simp: data_types_def)
    then show ?thesis using 3 n m s
      by (simp add: bucket_apply_def with_field_def with_res_def name_of_def Let_def step_ok_return)
  next
    case 4
    then obtain v where "map_of d ''version'' = Some v" using own [OF bucket_class_fields(2)] by (auto simp: data_types_def)
    then show ?thesis using 4 n m s
      by (simp add: bucket_apply_def with_field_def with_res_def name_of_def Let_def step_ok_return)
  qed
qed

lemma routed_known: "list_all (\<lambda>ty. ty \<in> set all_known_event_types \<and> ty \<notin> set user_profile_event_types \<and>
   ty \<notin> set virtual_env_event_types \<and> ty \<notin> set choreography_event_types) routed_types"
  by (simp add: routed_types_def versioned_types_def build_types_def all_known_event_types_def type_group_defs)

lemma typed_applied:
  assumes E: "db E = map_mongo" and s: "shapes_ok s" and d: "typed_event ty d"
    and t: "jget d ''created_at'' = JStr t" "parse_time E t \<noteq> None"
  shows "step_ok (apply_event E fresh ty d s)"
proof -
  have ty: "ty \<in> set routed_types" by (rule typed_routed [OF d])
  then have known: "ty \<in> set all_known_event_types" "ty \<notin> set user_profile_event_types"
    "ty \<notin> set virtual_env_event_types" "ty \<notin> set choreography_event_types"
    using routed_known by (auto simp: list_all_iff)
  obtain i where i: "map_of d ''event_id'' = Some i" using typed_envelope_field [OF d envelope_types(1)] by metis
  have c: "map_of d ''created_at'' = Some (JStr t)" using typed_envelope_field [OF d envelope_types(2)] t(1) by metis
  have "step_ok (route E fresh ty d s1)" if s1: "shapes_ok s1" for s1
  proof -
    consider "ty \<in> set endpoint_event_types \<or> ty \<in> set function_event_types \<or>
        ty \<in> set [''FunctionDeleted'', ''FunctionEndpointDetached''] \<or> ty \<in> set consensus_event_types"
      | "ty \<in> set activity_only_event_types" | "ty \<in> set job_event_types" | "ty \<in> set bucket_event_types"
      using known unfolding all_known_event_types_def set_append Un_iff by blast
    then show ?thesis
    proof cases
      case 1
      then show ?thesis using typed_compute [OF E s1 d 1] by (simp only: route_def if_True)
    next
      case 2
      then show ?thesis
        using s1 typed_compute [OF E s1 d] by (simp only: route_def if_True) (simp add: step_ok_return split: if_split)
    next
      case 3
      have "ty \<notin> set activity_only_event_types" using 3 by (auto simp: type_group_defs)
      obtain j f where "map_of d ''job_id'' = Some j" "map_of d ''function_id'' = Some f"
        using typed_has [OF d job_class_fields(1) 3] typed_has [OF d job_class_fields(2) 3] by metis
      from step_job [OF E s1 this] show ?thesis
        using 3 known typed_compute [OF E s1 d] \<open>ty \<notin> set activity_only_event_types\<close>
        unfolding route_def by (simp only: if_False if_True split: if_split) blast
    next
      case 4
      have other: "ty \<notin> set activity_only_event_types" "ty \<notin> set job_event_types" using 4 by (auto simp: type_group_defs)
      show ?thesis
        using 4 known typed_compute [OF E s1 d] typed_bucket [OF s1 d 4] other
        unfolding route_def by (simp only: if_False if_True split: if_split) blast
    qed
  qed
  then show ?thesis
    using known step_activity [OF s c t(2) i] by (simp add: apply_event_def step_ok_and_then)
qed

section \<open>What the bridge publishes\<close>

definition bridge_ok :: "bridge \<Rightarrow> bool" where
  "bridge_ok B \<longleftrightarrow> lax_ok (br_lax B) \<and> has_type (FOpt FStr) (br_virtual_environment_id B)"

text \<open>An event of the bridge: of its class, and made at the time that the factory gave.\<close>

definition bridge_event :: "bridge \<Rightarrow> string \<times> event_data \<Rightarrow> bool" where
  "bridge_event B p \<longleftrightarrow> typed_event (fst p) (snd p) \<and>
    (\<exists>i. jget (snd p) ''created_at'' = JStr (snd (br_fresh B i)))"

definition publishes :: "bridge \<Rightarrow> publishing \<Rightarrow> bool" where
  "publishes B p \<longleftrightarrow> (\<forall>x \<in> set (fst p). bridge_event B x)"

lemma publishes_simps [simp]:
  "publishes B no_publish" "publishes B ([], r)"
  by (simp_all add: publishes_def no_publish_def)

lemma publishes_then: "publishes B p \<Longrightarrow> publishes B q \<Longrightarrow> publishes B (then_publish p q)"
  by (auto simp: publishes_def then_publish_def split: res.split)

lemma publishes_value: "(\<And>x. r = Ok x \<Longrightarrow> publishes B (f x)) \<Longrightarrow> publishes B (with_value r f)"
  by (cases r) (simp_all add: with_value_def)

lemma publishes_version: "(\<And>i v. publishes B (f i v)) \<Longrightarrow> publishes B (for_version e f)"
  by (simp add: for_version_def publishes_value Let_def)

lemma typed_stamped:
  assumes "typed_event ty d" "has_type (FOpt FStr) v"
  shows "typed_event ty (dput ''virtual_environment_id'' v d)"
proof -
  obtain own where own: "map_of published_classes ty = Some own" and i: "instance_of (event_class ([], []) own) d"
    using assms(1) by (auto simp: typed_event_def)
  let ?cls = "event_class ([], []) own"
  have ok: "class_ok own" by (rule published_class_ok [OF own])
  have "map_of own ''virtual_environment_id'' = None"
    using classes_plain map_of_SomeD [OF own] by (auto simp: list_all_iff EventEnvelope_def)
  then have ve: "map_of ?cls ''virtual_environment_id'' = Some (FOpt FStr, Some JNull)"
    using ok by (simp add: event_class_def map_of_dmerge class_ok_def envelope_types)
  then have "''virtual_environment_id'' \<in> set (dkeys ?cls)" by (force dest: map_of_SomeD)
  then have in_d: "''virtual_environment_id'' \<in> set (dkeys d)" using i by (simp add: instance_of_def)
  have keys: "dkeys (dput k v d) = dkeys d" if "k \<in> set (dkeys d)" for k
    using that by (induction d) auto
  have distinct: "dict_ok ?cls" using class_ok_event [OF ok] by (simp add: class_ok_def)
  have "has_type t (jget (dput ''virtual_environment_id'' v d) f)" if "(f, t, dflt) \<in> set ?cls" for f t dflt
  proof (cases "f = ''virtual_environment_id''")
    case True
    then have "t = FOpt FStr" using that ve distinct by (simp add: dict_ok_mem_iff)
    then show ?thesis using True assms(2) by (simp add: jget_def dget_def map_of_dput del: has_type.simps)
  next
    case False
    then show ?thesis using that i by (auto simp: instance_of_iff jget_def dget_def map_of_dput)
  qed
  then have "instance_of ?cls (dput ''virtual_environment_id'' v d)"
    using i keys [OF in_d] by (auto simp: instance_of_iff)
  then show ?thesis using own by (simp add: typed_event_def)
qed

lemma construct_default:
  assumes "construct lax cls kw = Ok d" "map_of cls f = Some (t, Some v)" "map_of kw f = None"
  shows "map_of d f = Some v"
  using assms
proof (induction cls arbitrary: d)
  case (Cons c cls)
  then show ?case
    by (cases c) (auto simp: bind_res_def split: option.splits res.splits if_splits)
qed simp

lemma bridge_publishes:
  assumes B: "bridge_ok B" and own: "map_of published_classes ty = Some own" and kw: "map_of kw ''created_at'' = None"
  shows "publishes B (bridge_publish B i ty own kw)"
proof (cases "new_event (br_lax B) (br_fresh B i) own ((''endpoint_id'', JStr (br_endpoint_id B)) # kw)")
  case (Ok d)
  have "typed_event ty d" using B by (intro new_event_typed [OF _ own Ok]) (simp add: bridge_ok_def)
  then have "typed_event ty (dput ''virtual_environment_id'' (br_virtual_environment_id B) d)"
    using B by (intro typed_stamped) (simp_all add: bridge_ok_def)
  moreover have "map_of d ''created_at'' = Some (JStr (snd (br_fresh B i)))"
  proof (rule construct_default [OF Ok [unfolded new_event_def]])
    have "map_of own ''created_at'' = None"
      using classes_plain map_of_SomeD [OF own] by (auto simp: list_all_iff EventEnvelope_def)
    then show "map_of (event_class (br_fresh B i) own) ''created_at'' = Some (FStr, Some (JStr (snd (br_fresh B i))))"
      using published_class_ok [OF own]
      by (simp add: event_class_def map_of_dmerge class_ok_def) (simp add: EventEnvelope_def)
  qed (simp add: kw)
  ultimately show ?thesis
    using Ok by (auto simp: bridge_publish_def publishes_def bridge_event_def jget_def dget_def map_of_dput)
qed (simp_all add: bridge_publish_def)

lemma published_lookup:
  "map_of published_classes ''LeaderElected'' = Some LeaderElected"
  "map_of published_classes ''ConsensusViewChanged'' = Some ConsensusViewChanged"
  "map_of published_classes ''ClusterQuorumLost'' = Some ClusterQuorumLost"
  "map_of published_classes ''ClusterQuorumRestored'' = Some ClusterQuorumRestored"
  "map_of published_classes ''ClusterDegraded'' = Some ClusterDegraded"
  "map_of published_classes ''FunctionRegistered'' = Some FunctionRegistered"
  "map_of published_classes ''FunctionRegisterFailed'' = Some FunctionRegisterFailed"
  "map_of published_classes ''FunctionBuildStarted'' = Some FunctionBuildStarted"
  "map_of published_classes ''FunctionBuildCompleted'' = Some FunctionBuildCompleted"
  "map_of published_classes ''FunctionBuildFailed'' = Some FunctionBuildFailed"
  "map_of published_classes ''FunctionDeployed'' = Some FunctionDeployed"
  "map_of published_classes ''FunctionDeployFailed'' = Some FunctionDeployFailed"
  "map_of published_classes ''FunctionActivated'' = Some FunctionActivated"
  "map_of published_classes ''FunctionDeactivated'' = Some FunctionDeactivated"
  "map_of published_classes ''FunctionUpdated'' = Some FunctionUpdated"
  "map_of published_classes ''FunctionStopped'' = Some FunctionStopped"
  "map_of published_classes ''FunctionCrashed'' = Some FunctionCrashed"
  "map_of published_classes ''FunctionDeleted'' = Some FunctionDeleted"
  "map_of published_classes ''FunctionDeleteFailed'' = Some FunctionDeleteFailed"
  "map_of published_classes ''JobQueued'' = Some JobQueued"
  "map_of published_classes ''JobStarted'' = Some JobStarted"
  "map_of published_classes ''JobCompleted'' = Some JobCompleted"
  "map_of published_classes ''JobFailed'' = Some JobFailed"
  "map_of published_classes ''DataBucketCreated'' = Some DataBucketCreated"
  "map_of published_classes ''DataRegistered'' = Some DataRegistered"
  "map_of published_classes ''DataUploadCompleted'' = Some DataUploadCompleted"
  "map_of published_classes ''DataDeleted'' = Some DataDeleted"
  by (simp_all add: published_classes_def)

lemma copied_keys: "copied p fs = Ok kw \<Longrightarrow> dkeys kw = map fst fs"
  by (induction fs arbitrary: kw) (auto simp: bind_res_def split: res.splits)

lemma publishes_copied:
  assumes "bridge_ok B" "map_of published_classes ty = Some own" "''created_at'' \<notin> set (map fst fs)"
  shows "publishes B (publish_copied B ty own fs e)"
  unfolding publish_copied_def
proof (rule publishes_value)
  fix kw assume "copied (ev_payload e) fs = Ok kw"
  then have "map_of kw ''created_at'' = None"
    using copied_keys [of "ev_payload e" fs kw] assms(3) unfolding map_of_eq_None_iff by (metis set_map)
  then show "publishes B (bridge_publish B 0 ty own kw)" by (rule bridge_publishes [OF assms(1,2)])
qed

lemma publishes_if: "(p \<Longrightarrow> publishes B x) \<Longrightarrow> (\<not> p \<Longrightarrow> publishes B y) \<Longrightarrow> publishes B (if p then x else y)"
  by simp

lemmas publishing = publishes_then publishes_value publishes_version publishes_if bridge_publishes publishes_copied

lemma function_methods_publish:
  assumes B: "bridge_ok B"
  shows "publishes B (on_function_registered B e)" "publishes B (on_function_changed B e)"
    "publishes B (on_function_register_failed B e)" "publishes B (on_function_deployed B e)"
    "publishes B (on_function_deploy_failed B e)" "publishes B (on_function_stopped B e)"
    "publishes B (on_function_crashed B e)" "publishes B (on_function_build_event B e)"
    "publishes B (on_function_removed B e)" "publishes B (on_function_delete_failed B e)"
  unfolding on_function_registered_def on_function_changed_def on_function_register_failed_def
    on_function_deployed_def on_function_deploy_failed_def on_function_stopped_def on_function_crashed_def
    on_function_build_event_def on_function_removed_def on_function_delete_failed_def Let_def
  by (intro publishing B published_lookup; simp)+

lemma other_methods_publish:
  assumes B: "bridge_ok B"
  shows "publishes B (on_job_queued B e)" "publishes B (on_job_running B e)" "publishes B (on_job_done B e)"
    "publishes B (on_bucket_registered B e)" "publishes B (on_data_registered B e)"
    "publishes B (on_data_upload_completed B e)" "publishes B (on_data_removed B e)"
    "publishes B (on_leader_elected B e)" "publishes B (on_consensus_view_changed B e)"
    "publishes B (on_cluster_quorum_event B e)"
  unfolding on_job_queued_def on_job_running_def on_job_done_def on_bucket_registered_def on_data_registered_def
    on_data_upload_completed_def on_data_removed_def on_leader_elected_def on_consensus_view_changed_def
    on_cluster_quorum_event_def Let_def quorum_copies_def
  by (intro publishing B published_lookup publishes_simps; simp)+

lemma bridge_on_event_publishes:
  assumes "bridge_ok B"
  shows "publishes B (bridge_on_event B e)"
proof (cases "map_of bridge_subscriptions (ev_type e)")
  case (Some h)
  have "list_all (\<lambda>(ty, h). publishes B (h B e)) bridge_subscriptions"
    by (simp add: bridge_subscriptions_def function_methods_publish [OF assms] other_methods_publish [OF assms])
  then show ?thesis using map_of_SomeD [OF Some] Some by (auto simp: bridge_on_event_def list_all_iff)
qed (simp add: bridge_on_event_def)

section \<open>Properties\<close>

text \<open>
  C38: What an endpoint publishes cannot go wrong on its way. For every internal event, each
  event that the bridge makes of it has the type of its class, whatever the payload was; the
  manager finds a stream for it; and projecting it raises nothing, on every read model whose
  documents have the shapes that the projector expects, which the projection keeps.
\<close>

theorem published_events_project:
  assumes "mongo_ok (db E)" "read_model_ok E s" "bridge_ok B" "\<forall>i. parse_time E (snd (br_fresh B i)) \<noteq> None"
    "(ty, d) \<in> set (fst (bridge_on_event B e))"
  shows "typed_event ty d \<and> is_ok (stream_name_for (JStr ty) ep (JObj d)) \<and>
    fst (apply_event E fresh ty d s) = Ok () \<and> read_model_ok E (snd (apply_event E fresh ty d s))"
proof -
  have "bridge_event B (ty, d)"
    using bridge_on_event_publishes [OF assms(3), of e] assms(5) unfolding publishes_def by blast
  then obtain i where d: "typed_event ty d" and t: "jget d ''created_at'' = JStr (snd (br_fresh B i))"
    unfolding bridge_event_def by auto
  have "step_ok (apply_event (map_env E) fresh ty d (rm_view E s))"
    using assms(2,4) by (intro typed_applied [OF _ _ d t]) (simp_all add: read_model_ok_def)
  then have "step_ok (lift E (apply_event E fresh ty d s))" by (simp only: apply_event_view_of [OF assms(1)])
  then show ?thesis
    using d typed_stream [OF d, of ep] by (auto simp: step_ok_def lift_def read_model_ok_def)
qed

definition sample_bridge :: bridge where
  "sample_bridge = \<lparr>br_endpoint_id = ''node-1'', br_results = (\<lambda>j. Ok None), br_functions = (\<lambda>k. Ok None),
     br_virtual_environment_id = JStr ''ve'', br_lax = strict, br_fresh = (\<lambda>i. (''e'', ''t''))\<rparr>"

definition sample_crash :: event where
  "sample_crash = \<lparr>ev_type = ''FUNCTION_CRASHED'',
     ev_payload = [(''function_id'', JStr ''f''), (''version'', JInt 1)], ev_time = 0\<rparr>"

definition sample_published :: event_data where
  "sample_published =
    [(''event_id'', JStr ''e''), (''created_at'', JStr ''t''), (''user_id'', JNull),
     (''virtual_environment_id'', JStr ''ve''), (''endpoint_id'', JStr ''node-1''), (''runtime_type'', JNull),
     (''function_id'', JStr ''f''), (''version'', JInt 1)]"

lemma sample_crash_published:
  "bridge_on_event sample_bridge sample_crash = ([(''FunctionCrashed'', sample_published)], Ok ())"
  by code_simp

lemma read_model_ok_empty: "read_model_ok mem_env empty_model"
proof -
  have "view mem_mongo [] k = None" for k
    by (simp add: view_def mem_mongo_def)
  then show ?thesis by (simp add: read_model_ok_def shapes_ok_def rm_view_def empty_model_def mem_env_def)
qed

lemma published_events_project_witness:
  "typed_event ''FunctionCrashed'' sample_published \<and>
   is_ok (stream_name_for (JStr ''FunctionCrashed'') (JStr ''node-1'') (JObj sample_published)) \<and>
   fst (apply_event mem_env (''x'', ''t'') ''FunctionCrashed'' sample_published empty_model) = Ok () \<and>
   read_model_ok mem_env (snd (apply_event mem_env (''x'', ''t'') ''FunctionCrashed'' sample_published empty_model))"
proof (rule published_events_project [OF mem_env_ok(1) read_model_ok_empty])
  show "bridge_ok sample_bridge" by (simp add: bridge_ok_def sample_bridge_def)
  show "\<forall>i. parse_time mem_env (snd (br_fresh sample_bridge i)) \<noteq> None" by (simp add: mem_env_def)
  show "(''FunctionCrashed'', sample_published) \<in> set (fst (bridge_on_event sample_bridge sample_crash))"
    by (simp add: sample_crash_published)
qed

text \<open>
  A function registered with another \<open>runtime_type\<close> than \<open>process\<close> and \<open>container\<close>, which
  nothing checks at its registration, is never announced: its event cannot be constructed.
\<close>

lemma unknown_runtime_type_unpublished:
  assumes "br_lax B (FOpt (FLit [''process'', ''container''])) (JStr rt) = None" "rt \<notin> {''process'', ''container''}"
    "br_functions B (StorageKey f (Some v) None) = Ok (Some r)" "fr_runtime_spec r = Some s" "rs_type s = rt"
    "e = \<lparr>ev_type = ''REGISTERED'', ev_payload = [(''function_id'', JStr f), (''version'', JInt v)], ev_time = t\<rparr>"
  shows "bridge_on_event B e = ([], Raise ValueError)"
proof -
  have "event_class (br_fresh B 0) FunctionRegistered = EventEnvelope (br_fresh B 0) @ FunctionRegistered"
    unfolding event_class_def by (rule dmerge_disjoint) (simp_all add: EventEnvelope_def FunctionRegistered_def fn_fields_def)
  moreover have "construct lax (c1 @ (''runtime_type'', FOpt (FLit [''process'', ''container'']), dflt) # c2) kw = Raise ValueError"
    if "map_of kw ''runtime_type'' = Some (JStr rt)" "lax = br_lax B" "\<forall>(f, t, x) \<in> set c1. map_of kw f \<noteq> None \<longrightarrow> has_type t (jget kw f)"
      "\<forall>(f, t, x) \<in> set c1. x \<noteq> None" for lax c1 dflt c2 kw
    using that(3,4)
  proof (induction c1)
    case Nil
    then show ?case using assms(1,2) that(1,2) by (simp add: validate_field_def)
  next
    case (Cons c c1)
    then show ?case
      by (cases c) (auto simp: validate_field_def jget_def dget_def bind_res_def split: option.splits)
  qed
  ultimately show ?thesis
    using assms
    by (simp add: bridge_on_event_def bridge_subscriptions_def on_function_registered_def bridge_publish_def
        new_event_def with_value_def jitem_def get_function_record_def json_str_def exact_int_def runtime_type_of_def
        EventEnvelope_def optional_def validate_field_def)
qed

end
