(* ===== verification/Activity.thy ===== *)
theory Activity
  imports Event_Bus Results
begin

text \<open>
  The activity feed of an endpoint: the bounded repository (\<open>axo_shared/activity/repository.py\<close>),
  its records (\<open>axo_shared/activity/models.py\<close>), the bridge that fills it from the event bus
  (\<open>axo_endpoint/core/activity/bridge.py\<close>) and the handler that reads it back
  (\<open>service/handlers/activity_list.py\<close>). The lemmas show that the repository keeps its bound
  and always holds the newest records.
\<close>

section \<open>Records\<close>

record activity_entry =
  ac_id :: string
  ac_type :: string
  ac_function_id :: json
  ac_function_version :: json
  ac_job_id :: json
  ac_timestamp :: flt
  ac_failure :: json
  ac_service_name :: json

definition entry_json :: "activity_entry \<Rightarrow> json" where
  "entry_json a = JObj [(''id'', JStr (ac_id a)), (''activity_type'', JStr (ac_type a)),
     (''function_id'', ac_function_id a), (''function_version'', ac_function_version a),
     (''job_id'', ac_job_id a), (''timestamp'', JFloat (ac_timestamp a)), (''failure'', ac_failure a),
     (''service_name'', ac_service_name a)]"

section \<open>The repository\<close>

text \<open>A \<open>deque\<close> with a maximal length, oldest entry first, and the entries by their ids.\<close>

record repository =
  rp_max :: nat
  rp_entries :: "activity_entry list"
  rp_by_id :: "(string, activity_entry) dict"

definition repository_init :: "nat \<Rightarrow> repository" where
  "repository_init max_entries = \<lparr>rp_max = max_entries, rp_entries = [], rp_by_id = []\<rparr>"

definition deque_append :: "nat \<Rightarrow> 'a \<Rightarrow> 'a list \<Rightarrow> 'a list" where
  "deque_append n x xs = drop (length xs + 1 - n) (xs @ [x])"

definition repository_save :: "activity_entry \<Rightarrow> repository \<Rightarrow> unit res \<times> repository" where
  "repository_save a rp =
    (let full = (rp_max rp \<le> length (rp_entries rp)) in
     if full \<and> rp_entries rp = [] then (Raise IndexError, rp)
     else
       (let ids = (if full then dpop (ac_id (hd (rp_entries rp))) (rp_by_id rp) else rp_by_id rp)
        in (Ok (), rp\<lparr>rp_entries := deque_append (rp_max rp) a (rp_entries rp), rp_by_id := dput (ac_id a) a ids\<rparr>)))"

definition repository_get :: "string \<Rightarrow> repository \<Rightarrow> activity_entry option" where
  "repository_get i rp = map_of (rp_by_id rp) i"

text \<open>\<open>xs[:limit]\<close>: a negative limit counts from the end.\<close>

definition py_take :: "int \<Rightarrow> 'a list \<Rightarrow> 'a list" where
  "py_take n xs = (if 0 \<le> n then take (nat n) xs else take (length xs - nat (- n)) xs)"

definition list_recent :: "int \<Rightarrow> repository \<Rightarrow> activity_entry list" where
  "list_recent limit rp = py_take limit (rev (rp_entries rp))"

definition list_by_function_id :: "json \<Rightarrow> int \<Rightarrow> repository \<Rightarrow> activity_entry list" where
  "list_by_function_id f limit rp = py_take limit (filter (\<lambda>a. ac_function_id a = f) (rev (rp_entries rp)))"

lemma deque_append_last: "0 < n \<Longrightarrow> \<exists>ys. deque_append n x xs = ys @ [x]"
  by (cases "length xs + 1 - n \<le> length xs") (auto simp: deque_append_def)

lemma length_deque_append: "length (deque_append n x xs) = min n (length xs + 1)"
  by (simp add: deque_append_def)

text \<open>After any number of saves the repository holds the last of them, newest last.\<close>

definition save_all :: "activity_entry list \<Rightarrow> repository \<Rightarrow> repository" where
  "save_all as rp = fold (\<lambda>a rp. snd (repository_save a rp)) as rp"

lemma save_entries:
  "0 < rp_max rp \<Longrightarrow> rp_entries (snd (repository_save a rp)) = deque_append (rp_max rp) a (rp_entries rp) \<and>
    rp_max (snd (repository_save a rp)) = rp_max rp"
  by (auto simp: repository_save_def Let_def)

lemma repository_holds_newest:
  assumes "0 < n"
  shows "rp_entries (save_all as (repository_init n)) = drop (length as - n) as"
proof -
  have "rp_max (save_all as (repository_init n)) = n \<and>
    rp_entries (save_all as (repository_init n)) = drop (length as - n) as"
  proof (induction as rule: rev_induct)
    case (snoc a as)
    let ?rp = "save_all as (repository_init n)"
    have "save_all (as @ [a]) (repository_init n) = snd (repository_save a ?rp)" by (simp add: save_all_def)
    moreover have "deque_append n a (drop (length as - n) as) = drop (length (as @ [a]) - n) (as @ [a])"
      by (cases "n \<le> length as") (simp_all add: deque_append_def Suc_diff_le)
    ultimately show ?case using save_entries [of ?rp a] snoc assms by simp
  qed (simp add: save_all_def repository_init_def)
  then show ?thesis ..
qed

section \<open>The bridge\<close>

definition job_entry :: "event \<Rightarrow> string \<Rightarrow> json \<Rightarrow> json \<Rightarrow> activity_entry" where
  "job_entry e job f failure = \<lparr>ac_id = job @ '':'' @ ev_type e, ac_type = ev_type e, ac_function_id = f,
     ac_function_version = JNull, ac_job_id = JStr job, ac_timestamp = ev_time e, ac_failure = failure,
     ac_service_name = JNull\<rparr>"

definition activity_job_submitted :: "event \<Rightarrow> activity_entry res" where
  "activity_job_submitted e =
    bind_res (bind_res (jitem (ev_payload e) ''job_id'') json_str) (\<lambda>job.
    bind_res (jitem (ev_payload e) ''function_id'') (\<lambda>f. Ok (job_entry e job f JNull)))"

definition runtime_failure :: "string \<Rightarrow> json" where
  "runtime_failure text = JObj [(''error_class'', JStr ''FUNCTION_RUNTIME_ERROR''), (''error_code'', JInt 0),
     (''component'', JStr ''runtime''), (''message'', JStr text), (''traceback'', JNull), (''is_transient'', JBool False)]"

definition activity_job_finished ::
  "('s, storage_key, function_result) backend \<Rightarrow> 's \<Rightarrow> event \<Rightarrow> activity_entry res" where
  "activity_job_finished B results e =
    bind_res (bind_res (jitem (ev_payload e) ''job_id'') json_str) (\<lambda>job.
    bind_res (jitem (ev_payload e) ''function_id'') (\<lambda>f.
      (case b_get B results (pkey job) of
         Raise ex \<Rightarrow> Raise ex
       | Ok (Some r) \<Rightarrow> Ok (job_entry e job f (if jr_ok r then JNull else runtime_failure (jr_error r)))
       | _ \<Rightarrow> Ok (job_entry e job f JNull))))"

text \<open>The id of a container's record has the texts of its function and of its time.\<close>

definition activity_container_event :: "event \<Rightarrow> activity_entry res" where
  "activity_container_event e =
    (let f = dget (ev_payload e) ''function_id'' (JStr []) in
     bind_res (json_str f) (\<lambda>fid.
       Ok \<lparr>ac_id = fid @ '':'' @ ev_type e @ '':'' @ str_float (ev_time e), ac_type = ev_type e, ac_function_id = f,
         ac_function_version = jget (ev_payload e) ''version'', ac_job_id = JNull, ac_timestamp = ev_time e,
         ac_failure = JNull, ac_service_name = jget (ev_payload e) ''service_name''\<rparr>))"

definition save_entry :: "activity_entry res \<Rightarrow> repository \<Rightarrow> repository \<times> py_exc option" where
  "save_entry r rp =
    (case r of
       Ok a \<Rightarrow> (case repository_save a rp of
                  (Ok _, rp) \<Rightarrow> (rp, None) | (Err e, rp) \<Rightarrow> (rp, Some (PyRaised e)) | (Raise ex, rp) \<Rightarrow> (rp, Some ex))
     | Err e \<Rightarrow> (rp, Some (PyRaised e))
     | Raise ex \<Rightarrow> (rp, Some ex))"

section \<open>The handler\<close>

definition handle_activity_list :: "command \<Rightarrow> repository \<Rightarrow> command_result res" where
  "handle_activity_list c rp =
    with_env c (\<lambda>d.
      let f = jget d ''function_id''; limit = dget d ''limit'' (JInt 100)
      in bind_res (if limit = JNull then Ok (int (length (rp_entries rp))) else exact_int limit) (\<lambda>n.
         Ok (result_ok [(''records'', JList (map entry_json
           (if py_truthy f then list_by_function_id f n rp else list_recent n rp)))])))"

end
