(* ===== verification/Jobs.thy ===== *)
theory Jobs
  imports Process_Runtime Router Event_Flow Activity
begin

text \<open>
  The jobs of an endpoint: what is recorded when one completes and how one is submitted
  (\<open>service/handlers/job_submit.py\<close>), the forwarded submission, the cancellation and the result
  (\<open>job_forward.py\<close>, \<open>job_cancel.py\<close>, \<open>job_result.py\<close>), the dispatch to a runtime
  (\<open>service/runtime/dispatcher.py\<close>), the assignment to a virtual environment
  (\<open>virtual_env_assign.py\<close>) and what the application keeps of active jobs (\<open>service/app.py\<close>).

  The node's state holds what these share: the results, the data registry, the runtime, the active
  jobs, the clients waiting for a push, the activity feed and what was published. The parameters
  of a job are an object; a result handed to the replication thread is put into an outbox.
\<close>

section \<open>The node\<close>

record ('s, 'c, 'b, 'p) job_node =
  jn_results :: 's
  jn_data :: "('c, 'b) data_state"
  jn_runtime :: 'p
  jn_active :: "string list"
  jn_identities :: "(string, bytes) dict"
  jn_pushed :: "(bytes \<times> command_result) list"
  jn_activity :: repository
  jn_published :: "(string \<times> event_data) list"
  jn_replicating :: "function_result list"
  jn_virtual_env :: json

text \<open>The publisher is configured or not; with it come pydantic's parser and the identities of events.\<close>

record ('s, 'c, 'b) job_env =
  je_endpoint_id :: string
  je_results :: "('s, storage_key, function_result) backend"
  je_data :: "('c, 'b) data_env"
  je_catalog :: catalog
  je_publisher :: "(lax_parse \<times> (nat \<Rightarrow> string \<times> string)) option"

type_synonym ('s, 'c, 'b, 'p) job_handler = "event \<Rightarrow> ('s, 'c, 'b, 'p) job_node \<Rightarrow> ('s, 'c, 'b, 'p) job_node \<times> py_exc option"

section \<open>The subscribers of the node's events\<close>

definition bus_activity ::
  "('s \<Rightarrow> event \<Rightarrow> activity_entry res) \<Rightarrow> ('s, 'c, 'b, 'p) job_handler" where
  "bus_activity f e n =
    (case save_entry (f (jn_results n) e) (jn_activity n) of (rp, exc) \<Rightarrow> (n\<lparr>jn_activity := rp\<rparr>, exc))"

definition node_bridge :: "('s, 'c, 'b) job_env \<Rightarrow> ('s, 'c, 'b, 'p) job_node \<Rightarrow> lax_parse \<Rightarrow> (nat \<Rightarrow> string \<times> string) \<Rightarrow> bridge" where
  "node_bridge E n lax fresh = \<lparr>br_endpoint_id = je_endpoint_id E,
     br_results = (\<lambda>j. b_get (je_results E) (jn_results n) (pkey j)), br_functions = je_catalog E,
     br_virtual_environment_id = jn_virtual_env n, br_lax = lax,
     br_fresh = (\<lambda>i. fresh (length (jn_published n) + i))\<rparr>"

definition ended :: "unit res \<Rightarrow> py_exc option" where
  "ended r = (case r of Ok _ \<Rightarrow> None | Err e \<Rightarrow> Some (PyRaised e) | Raise ex \<Rightarrow> Some ex)"

definition bus_bridge :: "('s, 'c, 'b) job_env \<Rightarrow> (bridge \<Rightarrow> event \<Rightarrow> publishing) \<Rightarrow> ('s, 'c, 'b, 'p) job_handler" where
  "bus_bridge E h e n =
    (case je_publisher E of
       None \<Rightarrow> (n, None)
     | Some (lax, fresh) \<Rightarrow>
         (case h (node_bridge E n lax fresh) e of
            (ps, r) \<Rightarrow> (n\<lparr>jn_published := jn_published n @ ps\<rparr>, ended r)))"

text \<open>\<open>RouterServer._on_job_event\<close>: the push to the client that submitted the job.\<close>

definition bus_push :: "('s, 'c, 'b) job_env \<Rightarrow> ('s, 'c, 'b, 'p) job_handler" where
  "bus_push E e n =
    (case on_job_event (je_results E) (jn_results n) e (jn_identities n) of
       (Ok None, ids) \<Rightarrow> (n\<lparr>jn_identities := ids\<rparr>, None)
     | (Ok (Some p), ids) \<Rightarrow> (n\<lparr>jn_identities := ids, jn_pushed := jn_pushed n @ [p]\<rparr>, None)
     | (Err x, ids) \<Rightarrow> (n\<lparr>jn_identities := ids\<rparr>, Some (PyRaised x))
     | (Raise ex, ids) \<Rightarrow> (n\<lparr>jn_identities := ids\<rparr>, Some ex))"

definition event_job :: "event \<Rightarrow> string res" where
  "event_job e = bind_res (jitem (ev_payload e) ''job_id'') json_str"

definition on_active :: "(string \<Rightarrow> string list \<Rightarrow> string list) \<Rightarrow> ('s, 'c, 'b, 'p) job_handler" where
  "on_active f e n =
    (case event_job e of
       Ok job \<Rightarrow> (n\<lparr>jn_active := f job (jn_active n)\<rparr>, None)
     | Err x \<Rightarrow> (n, Some (PyRaised x))
     | Raise ex \<Rightarrow> (n, Some ex))"

definition app_on_job_submitted :: "('s, 'c, 'b, 'p) job_handler" where
  "app_on_job_submitted = on_active List.insert"

definition app_on_job_finished :: "('s, 'c, 'b, 'p) job_handler" where
  "app_on_job_finished = on_active removeAll"

text \<open>The subscriptions of the application that concern jobs, in the order of its constructor.\<close>

definition subscribe_all :: "(string \<times> 'n handler) list \<Rightarrow> 'n bus \<Rightarrow> 'n bus" where
  "subscribe_all hs bus = fold (\<lambda>(ty, h). subscribe ty h) hs bus"

definition job_subscriptions ::
  "('s, 'c, 'b) job_env \<Rightarrow> (string \<times> ('s, 'c, 'b, 'p) job_handler) list" where
  "job_subscriptions E =
    [(''JOB_SUBMITTED'', bus_activity (\<lambda>_. activity_job_submitted)),
      (''JOB_COMPLETED'', bus_activity (activity_job_finished (je_results E))),
      (''JOB_FAILED'', bus_activity (activity_job_finished (je_results E)))]
     @ map (\<lambda>ty. (ty, bus_activity (\<lambda>_. activity_container_event)))
         [''CONTAINER_SPAWNED'', ''CONTAINER_READY'', ''CONTAINER_CRASHED'', ''CONTAINER_DISMISSED'']
     @ map (\<lambda>(ty, h). (ty, bus_bridge E h)) bridge_subscriptions
     @ [(''JOB_COMPLETED'', bus_push E), (''JOB_FAILED'', bus_push E),
        (''JOB_SUBMITTED'', app_on_job_submitted), (''JOB_COMPLETED'', app_on_job_finished),
        (''JOB_FAILED'', app_on_job_finished)]"

definition job_bus :: "('s, 'c, 'b) job_env \<Rightarrow> ('s, 'c, 'b, 'p) job_node bus" where
  "job_bus E = subscribe_all (job_subscriptions E) bus_init"

definition announce :: "('s, 'c, 'b) job_env \<Rightarrow> event \<Rightarrow> ('s, 'c, 'b, 'p) job_node \<Rightarrow> ('s, 'c, 'b, 'p) job_node" where
  "announce E e n = fst (emit (job_bus E) e n)"

section \<open>Completion\<close>

text \<open>\<open>round(x, 2)\<close> of a number of millionths, halves to even.\<close>

definition round2 :: "flt \<Rightarrow> flt" where
  "round2 x =
    (let q = x div 10000; r = x mod 10000
     in 10000 * (if r < 5000 then q else if 5000 < r then q + 1 else if even q then q else q + 1))"

definition duration_since :: "flt option \<Rightarrow> flt \<Rightarrow> flt option" where
  "duration_since started now = map_option (\<lambda>t. round2 ((now - t) * 1000)) started"

text \<open>The output and the references of a returned value; other values than JSON are registered as data.\<close>

definition value_octets :: "py_value \<Rightarrow> bytes" where
  "value_octets v = (case v of VBytes b \<Rightarrow> b | VObject b \<Rightarrow> b | VJson j \<Rightarrow> [])"

definition result_name :: "string \<Rightarrow> string" where
  "result_name job = ''job-result-'' @ job"

definition record_output ::
  "('s, 'c, 'b) job_env \<Rightarrow> string \<Rightarrow> py_value \<Rightarrow> flt \<Rightarrow> ('s, 'c, 'b, 'p) job_node \<Rightarrow>
   ((string, json) dict \<times> (string, storage_key) dict) res \<times> ('s, 'c, 'b, 'p) job_node" where
  "record_output E job v now n =
    (case v of
       VJson j \<Rightarrow> (Ok ([(''value'', j), (''type'', JStr ''json'')], []), n)
     | _ \<Rightarrow>
         (case register_and_store (je_data E) (result_name job) 1 ''pickle'' ''fs'' (value_octets v) now 262144 None
             ''sha256'' (jn_data n) of
            (r, st, evs) \<Rightarrow>
              (let n = fold (announce E) evs (n\<lparr>jn_data := st\<rparr>) in
               case r of
                 Raise ex \<Rightarrow> (Raise ex, n)
               | Err _ \<Rightarrow> (Ok ([(''type'', JStr ''bytes'')], []), n)
               | Ok x \<Rightarrow>
                   (Ok ([(''type'', JStr ''bytes'')], [(''value'', StorageKey (dr_name x) (Some (dr_version x)) None)]), n))))"

definition finished_event :: "string \<Rightarrow> invocation_handle \<Rightarrow> flt option \<Rightarrow> flt \<Rightarrow> event" where
  "finished_event ty h ms now = \<lparr>ev_type = ty,
     ev_payload = [(''job_id'', JStr (ih_job_id h)), (''function_id'', JStr (ih_function_id h)),
       (''function_version'', json_opt JInt (ih_version h)), (''duration_ms'', json_opt JFloat ms)], ev_time = now\<rparr>"

text \<open>A put of the results backend, whose result the code does not look at.\<close>

definition put_result ::
  "('s, 'c, 'b) job_env \<Rightarrow> function_result \<Rightarrow> ('s, 'c, 'b, 'p) job_node \<Rightarrow> unit res \<times> ('s, 'c, 'b, 'p) job_node" where
  "put_result E r n =
    (case b_put (je_results E) (jn_results n) (pkey (jr_job_id r)) r of
       (Raise ex, s) \<Rightarrow> (Raise ex, n\<lparr>jn_results := s\<rparr>)
     | (_, s) \<Rightarrow> (Ok (), n\<lparr>jn_results := s\<rparr>))"

definition record_completion ::
  "('s, 'c, 'b) job_env \<Rightarrow> function_result \<Rightarrow> event \<Rightarrow> ('s, 'c, 'b, 'p) job_node \<Rightarrow> unit res \<times> ('s, 'c, 'b, 'p) job_node" where
  "record_completion E r e n =
    (case put_result E r n of
       (Ok _, n) \<Rightarrow> (let n = announce E e n in (Ok (), n\<lparr>jn_replicating := jn_replicating n @ [r]\<rparr>))
     | (x, n) \<Rightarrow> (x, n))"

definition on_complete ::
  "('s, 'c, 'b) job_env \<Rightarrow> invocation_handle \<Rightarrow> py_value res \<Rightarrow> string list \<Rightarrow> flt \<Rightarrow>
   ('s, 'c, 'b, 'p) job_node \<Rightarrow> unit res \<times> ('s, 'c, 'b, 'p) job_node" where
  "on_complete E h outcome warnings now n =
    (let ms = duration_since (ih_started_at h) now; job = ih_job_id h in
     case outcome of
       Ok v \<Rightarrow>
         (case record_output E job v now n of
            (Ok (output, refs), n) \<Rightarrow>
              record_completion E \<lparr>jr_job_id = job, jr_ok = True, jr_output = output, jr_refs = refs, jr_error = [],
                jr_duration_ms = ms, jr_warnings = warnings\<rparr> (finished_event ''JOB_COMPLETED'' h ms now) n
          | (Err e, n) \<Rightarrow> (Err e, n)
          | (Raise ex, n) \<Rightarrow> (Raise ex, n))
     | Err e \<Rightarrow>
         record_completion E \<lparr>jr_job_id = job, jr_ok = False, jr_output = [], jr_refs = [], jr_error = err_msg e,
           jr_duration_ms = ms, jr_warnings = warnings\<rparr> (finished_event ''JOB_FAILED'' h ms now) n
     | Raise ex \<Rightarrow> (Raise ex, n))"

section \<open>Runtimes\<close>

text \<open>The interface of a runtime, on the node that it runs in.\<close>

record 'n function_runtime =
  ft_invoke :: "storage_key \<Rightarrow> string \<Rightarrow> job_params \<Rightarrow> flt \<Rightarrow> 'n \<Rightarrow> invocation_handle res \<times> 'n"
  ft_cancel :: "string \<Rightarrow> flt \<Rightarrow> 'n \<Rightarrow> bool res \<times> 'n"

definition dispatcher_invoke ::
  "catalog \<Rightarrow> 'n function_runtime \<Rightarrow> 'n function_runtime \<Rightarrow> storage_key \<Rightarrow> string \<Rightarrow> job_params \<Rightarrow> flt \<Rightarrow> 'n \<Rightarrow>
   invocation_handle res \<times> 'n" where
  "dispatcher_invoke get_fn P C key job params now n =
    (case get_fn key of
       Raise ex \<Rightarrow> (Raise ex, n)
     | Ok (Some r) \<Rightarrow>
         (if (case fr_runtime_spec r of None \<Rightarrow> False | Some s \<Rightarrow> rs_type s = ''container'')
          then ft_invoke C key job params now n else ft_invoke P key job params now n)
     | _ \<Rightarrow> (Err (AxoErr InvocationError (''function '' @ py_repr (sk_id key) @ '' not found'')), n))"

definition dispatcher_cancel ::
  "'n function_runtime \<Rightarrow> 'n function_runtime \<Rightarrow> string \<Rightarrow> flt \<Rightarrow> 'n \<Rightarrow> bool res \<times> 'n" where
  "dispatcher_cancel P C job now n =
    (case ft_cancel P job now n of
       (Ok p, n) \<Rightarrow>
         (case ft_cancel C job now n of (Ok c, n) \<Rightarrow> (Ok (p \<or> c), n) | x \<Rightarrow> x)
     | x \<Rightarrow> x)"

definition runtime_dispatcher :: "catalog \<Rightarrow> 'n function_runtime \<Rightarrow> 'n function_runtime \<Rightarrow> 'n function_runtime" where
  "runtime_dispatcher get_fn P C =
    \<lparr>ft_invoke = dispatcher_invoke get_fn P C, ft_cancel = dispatcher_cancel P C\<rparr>"

text \<open>
  What the process runtime reports is done on the node in the order of its report: its events are
  announced, its completed jobs recorded. An exception of the recording ends the reporting thread.
\<close>

fun do_effects ::
  "('s, 'c, 'b) job_env \<Rightarrow> flt \<Rightarrow> effect list \<Rightarrow> ('s, 'c, 'b, 'p) job_node \<Rightarrow> unit res \<times> ('s, 'c, 'b, 'p) job_node" where
  "do_effects E now [] n = (Ok (), n)"
| "do_effects E now (Emitted e # es) n = do_effects E now es (announce E e n)"
| "do_effects E now (Completed h r ws # es) n =
    (case on_complete E h r ws now n of (Ok _, n) \<Rightarrow> do_effects E now es n | x \<Rightarrow> x)"

definition after_effects :: "'a res \<Rightarrow> unit res \<times> 'n \<Rightarrow> 'a res \<times> 'n" where
  "after_effects r x = (case fst x of Ok _ \<Rightarrow> (r, snd x) | Err e \<Rightarrow> (Err e, snd x) | Raise ex \<Rightarrow> (Raise ex, snd x))"

definition node_process_runtime ::
  "('s, 'c, 'b) job_env \<Rightarrow> ('s, 'c, 'b, process_runtime) job_node function_runtime" where
  "node_process_runtime E = \<lparr>
     ft_invoke = (\<lambda>key job params now n.
       case prt_invoke (je_catalog E) key job params now (jn_runtime n) of
         (r, pr, effs) \<Rightarrow> after_effects r (do_effects E now effs (n\<lparr>jn_runtime := pr\<rparr>))),
     ft_cancel = (\<lambda>job now n.
       case prt_cancel job now (jn_runtime n) of
         (r, pr, effs) \<Rightarrow> after_effects r (do_effects E now effs (n\<lparr>jn_runtime := pr\<rparr>)))\<rparr>"

section \<open>Submission\<close>

text \<open>The parameters that the function gets: checked and filled when it declares a schema.\<close>

definition job_params_for :: "catalog \<Rightarrow> storage_key \<Rightarrow> job_params \<Rightarrow> job_params res" where
  "job_params_for get_fn key params =
    (case get_fn key of
       Raise ex \<Rightarrow> Raise ex
     | Ok (Some r) \<Rightarrow>
         (case fr_params_schema r of
            Some (p # ps) \<Rightarrow> validate_and_fill_params (p # ps) params
          | _ \<Rightarrow> Ok params)
     | _ \<Rightarrow> Ok params)"

definition submitted_event :: "storage_key \<Rightarrow> string \<Rightarrow> job_params \<Rightarrow> flt \<Rightarrow> event" where
  "submitted_event key job params now = \<lparr>ev_type = ''JOB_SUBMITTED'',
     ev_payload = [(''job_id'', JStr job), (''function_id'', JStr (sk_id key)),
       (''function_version'', json_opt JInt (sk_version key)), (''params'', JObj params)], ev_time = now\<rparr>"

definition pending_result :: "string \<Rightarrow> function_result" where
  "pending_result job = bare_result job False ''PENDING''"

definition start_job ::
  "('s, 'c, 'b) job_env \<Rightarrow> ('s, 'c, 'b, 'p) job_node function_runtime \<Rightarrow> storage_key \<Rightarrow> string \<Rightarrow> job_params \<Rightarrow> flt \<Rightarrow>
   ('s, 'c, 'b, 'p) job_node \<Rightarrow> command_result res \<times> ('s, 'c, 'b, 'p) job_node" where
  "start_job E R key job params now n =
    (case put_result E (pending_result job) n of
       (Ok _, n) \<Rightarrow>
         (case ft_invoke R key job params now (announce E (submitted_event key job params now) n) of
            (Raise ex, n) \<Rightarrow> (Raise ex, n)
          | (Err raw, n) \<Rightarrow>
              (let e = AxoErr InvocationError (err_msg raw) in
               case put_result E (bare_result job False (err_msg e)) n of
                 (Raise ex, n) \<Rightarrow> (Raise ex, n)
               | (_, n) \<Rightarrow> (Ok (from_error_meta e [(''job_id'', JStr job)]), n))
          | (Ok _, n) \<Rightarrow> (Ok (result_ok [(''job_id'', JStr job), (''status'', JStr ''QUEUED'')]), n))
     | (Err e, n) \<Rightarrow> (Err e, n)
     | (Raise ex, n) \<Rightarrow> (Raise ex, n))"

definition parse_submission :: "command \<Rightarrow> (storage_key \<times> job_params) option res" where
  "parse_submission c = with_env c (\<lambda>d.
    let f = jget d ''function_id''; v = jget d ''function_version'' in
    if \<not> py_truthy f \<or> v = JNull then Ok None
    else
      bind_res (json_str f) (\<lambda>i. bind_res (exact_int v) (\<lambda>n.
      bind_res (json_dict (dget d ''params'' (JObj []))) (\<lambda>params. Ok (Some (ckey (i, n), params))))))"

definition submit_job ::
  "('s, 'c, 'b) job_env \<Rightarrow> ('s, 'c, 'b, 'p) job_node function_runtime \<Rightarrow> command \<Rightarrow> string \<Rightarrow> flt \<Rightarrow>
   ('s, 'c, 'b, 'p) job_node \<Rightarrow> command_result res \<times> ('s, 'c, 'b, 'p) job_node" where
  "submit_job E R c job now n =
    (case parse_submission c of
       Raise ex \<Rightarrow> (Raise ex, n)
     | Err e \<Rightarrow> (Err e, n)
     | Ok None \<Rightarrow> (Ok (from_error (missing_error ''function_id and function_version are required'')), n)
     | Ok (Some (key, params)) \<Rightarrow>
         (case job_params_for (je_catalog E) key params of
            Raise ex \<Rightarrow> (Raise ex, n)
          | Err e \<Rightarrow> (Ok (from_error e), n)
          | Ok ps \<Rightarrow> start_job E R key job ps now n))"

text \<open>A job id is minted for a submission and given with a forwarded one.\<close>

definition handle_job_submit ::
  "('s, 'c, 'b) job_env \<Rightarrow> ('s, 'c, 'b, 'p) job_node function_runtime \<Rightarrow> string \<Rightarrow> flt \<Rightarrow>
   ('s, 'c, 'b, 'p) job_node command_handler" where
  "handle_job_submit E R fresh_id now c n = submit_job E R c fresh_id now n"

definition command_job :: "command \<Rightarrow> string option res" where
  "command_job c = with_env c (\<lambda>d.
    let j = jget d ''job_id'' in if py_truthy j then bind_res (json_str j) (\<lambda>job. Ok (Some job)) else Ok None)"

definition with_job ::
  "command \<Rightarrow> 'n \<Rightarrow> (string \<Rightarrow> command_result res \<times> 'n) \<Rightarrow> command_result res \<times> 'n" where
  "with_job c n f =
    (case command_job c of
       Raise ex \<Rightarrow> (Raise ex, n)
     | Err e \<Rightarrow> (Err e, n)
     | Ok None \<Rightarrow> (Ok (from_error (missing_error ''job_id is required'')), n)
     | Ok (Some job) \<Rightarrow> f job)"

definition handle_job_forward ::
  "('s, 'c, 'b) job_env \<Rightarrow> ('s, 'c, 'b, 'p) job_node function_runtime \<Rightarrow> flt \<Rightarrow> ('s, 'c, 'b, 'p) job_node command_handler" where
  "handle_job_forward E R now c n = with_job c n (\<lambda>job. submit_job E R c job now n)"

section \<open>Cancellation and results\<close>

definition job_not_found :: "string \<Rightarrow> axo_error" where
  "job_not_found text = AxoErr JobNotFoundError text"

definition handle_job_cancel :: "'n function_runtime \<Rightarrow> flt \<Rightarrow> 'n command_handler" where
  "handle_job_cancel R now c n = with_job c n (\<lambda>job.
    (case ft_cancel R job now n of
       (Raise ex, n) \<Rightarrow> (Raise ex, n)
     | (Err e, n) \<Rightarrow> (Err e, n)
     | (Ok was_there, n) \<Rightarrow>
         (Ok (if was_there then result_ok [(''job_id'', JStr job), (''status'', JStr ''CANCELLED'')]
              else from_error_meta (job_not_found ''job not found or already finished'') [(''job_id'', JStr job)]), n)))"

definition job_result_reply :: "string \<Rightarrow> function_result \<Rightarrow> command_result" where
  "job_result_reply job r =
    (if jr_error r = ''PENDING'' then result_ok [(''job_id'', JStr job), (''status'', JStr ''PENDING'')]
     else result_ok
       [(''job_id'', JStr job), (''status'', JStr (if jr_ok r then ''COMPLETED'' else ''FAILED'')),
        (''result_ok'', JBool (jr_ok r)), (''output'', JObj (jr_output r)), (''refs'', refs_json (jr_refs r)),
        (''error'', JStr (jr_error r)), (''duration_ms'', json_opt JFloat (jr_duration_ms r)),
        (''warnings'', JList (map JStr (jr_warnings r)))])"

definition handle_job_result ::
  "('s, storage_key, function_result) backend \<Rightarrow> ('s, 'c, 'b, 'p) job_node command_handler" where
  "handle_job_result B c n = with_job c n (\<lambda>job.
    (case b_get B (jn_results n) (pkey job) of
       Raise ex \<Rightarrow> (Raise ex, n)
     | Err raw \<Rightarrow> (Ok (from_error_meta (AxoErr StorageFailureError (err_msg raw)) [(''job_id'', JStr job)]), n)
     | Ok None \<Rightarrow> (Ok (from_error_meta (job_not_found ''job not found'') [(''job_id'', JStr job)]), n)
     | Ok (Some r) \<Rightarrow> (Ok (job_result_reply job r), n)))"

section \<open>The virtual environment of the endpoint\<close>

definition publish_own ::
  "('s, 'c, 'b) job_env \<Rightarrow> string \<Rightarrow> model_class \<Rightarrow> (string, json) dict \<Rightarrow> ('s, 'c, 'b, 'p) job_node \<Rightarrow>
   command_result res \<times> ('s, 'c, 'b, 'p) job_node" where
  "publish_own E ty own kw n =
    (case je_publisher E of
       None \<Rightarrow> (Ok (result_ok []), n)
     | Some (lax, fresh) \<Rightarrow>
         (case new_event lax (fresh (length (jn_published n))) own ((''endpoint_id'', JStr (je_endpoint_id E)) # kw) of
            Raise ex \<Rightarrow> (Raise ex, n)
          | Err e \<Rightarrow> (Err e, n)
          | Ok d \<Rightarrow> (Ok (result_ok []), n\<lparr>jn_published := jn_published n @ [(ty, d)]\<rparr>)))"

definition handle_virtual_env_assign :: "('s, 'c, 'b) job_env \<Rightarrow> ('s, 'c, 'b, 'p) job_node command_handler" where
  "handle_virtual_env_assign E c n =
    (if jn_active n \<noteq> [] then
       (Ok (from_error (AxoErr EndpointBusyError ''endpoint has active jobs, cannot reassign its virtual environment'')), n)
     else
       (case with_env c (\<lambda>d. Ok (jget d ''virtual_environment_id'')) of
          Raise ex \<Rightarrow> (Raise ex, n)
        | Err e \<Rightarrow> (Err e, n)
        | Ok ve \<Rightarrow>
            (let previous = jn_virtual_env n; n = n\<lparr>jn_virtual_env := ve\<rparr> in
             if ve \<noteq> JNull then
               publish_own E ''EndpointVirtualEnvironmentAssigned'' EndpointVirtualEnvironmentAssigned
                 [(''virtual_environment_id'', ve)] n
             else if previous \<noteq> JNull then
               publish_own E ''EndpointVirtualEnvironmentDetached'' EndpointVirtualEnvironmentDetached
                 [(''previous_virtual_environment_id'', previous)] n
             else (Ok (result_ok []), n))))"

section \<open>What the subscribers keep\<close>

text \<open>An announcement changes neither the results nor the data nor the runtime of the node.\<close>

definition keeps_core :: "('s, 'c, 'b, 'p) job_node \<Rightarrow> ('s, 'c, 'b, 'p) job_node \<Rightarrow> bool" where
  "keeps_core n n' \<longleftrightarrow> jn_results n' = jn_results n \<and> jn_data n' = jn_data n \<and> jn_runtime n' = jn_runtime n \<and>
    jn_virtual_env n' = jn_virtual_env n \<and> jn_replicating n' = jn_replicating n"

lemma keeps_core_refl [simp]: "keeps_core n n"
  by (simp add: keeps_core_def)

lemma keeps_core_trans: "keeps_core n m \<Longrightarrow> keeps_core m k \<Longrightarrow> keeps_core n k"
  by (simp add: keeps_core_def)

lemma bus_keeps:
  "keeps_core n (fst (bus_activity f e n))" "keeps_core n (fst (bus_bridge E h e n))"
  "keeps_core n (fst (bus_push E e n))" "keeps_core n (fst (app_on_job_submitted e n))"
  "keeps_core n (fst (app_on_job_finished e n))"
  by (auto simp: keeps_core_def bus_activity_def bus_bridge_def bus_push_def app_on_job_submitted_def
      app_on_job_finished_def on_active_def split: prod.splits option.splits res.splits)

lemma dget_subscribe_all:
  "dget (subscribe_all hs bus) ty [] = dget bus ty [] @ map snd (filter (\<lambda>(t, h). t = ty) hs)"
  by (induction hs arbitrary: bus) (auto simp: subscribe_all_def)

lemma announce_fold:
  "announce E e n = fold (\<lambda>h n. fst (h e n)) (dget (job_bus E) (ev_type e) []) n"
  by (simp add: announce_def emit_def call_handlers_state)

lemma announce_keeps:
  fixes n :: "('s, 'c, 'b, 'p) job_node"
  shows "keeps_core n (announce E e n)"
proof -
  have all: "list_all (\<lambda>(ty, h). keeps_core m (fst (h e m))) (job_subscriptions E)" for m :: "('s, 'c, 'b, 'p) job_node"
    by (simp add: job_subscriptions_def bus_keeps list.pred_map comp_def case_prod_beta list_all_iff)
  have "keeps_core m (fst (h e m))" if "h \<in> set (dget (job_bus E) (ev_type e) [])" for h and m :: "('s, 'c, 'b, 'p) job_node"
    using that all [of m]
    by (auto simp: job_bus_def dget_subscribe_all list_all_iff)
  then have "set hs \<subseteq> set (dget (job_bus E) (ev_type e) []) \<Longrightarrow> keeps_core m (fold (\<lambda>h n. fst (h e n)) hs m)"
    for hs and m :: "('s, 'c, 'b, 'p) job_node"
  proof (induction hs arbitrary: m)
    case (Cons h hs)
    then show ?case using keeps_core_trans [of m "fst (h e m)"] by simp
  qed simp
  then show ?thesis by (simp add: announce_fold)
qed

text \<open>Which jobs are active, and which clients wait, after an announcement.\<close>

lemma submitted_handlers:
  "dget (job_bus E) ''JOB_SUBMITTED'' [] =
    [bus_activity (\<lambda>_. activity_job_submitted), bus_bridge E on_job_queued, app_on_job_submitted]"
  by (simp add: job_bus_def dget_subscribe_all job_subscriptions_def bridge_subscriptions_def)

lemma finished_handlers:
  "dget (job_bus E) ''JOB_COMPLETED'' [] = [bus_activity (activity_job_finished (je_results E)), bus_bridge E on_job_done,
     bus_push E, app_on_job_finished]"
  "dget (job_bus E) ''JOB_FAILED'' [] = [bus_activity (activity_job_finished (je_results E)), bus_bridge E on_job_done,
     bus_push E, app_on_job_finished]"
  by (simp_all add: job_bus_def dget_subscribe_all job_subscriptions_def bridge_subscriptions_def)

lemma bus_keeps_active:
  "jn_active (fst (bus_activity f e n)) = jn_active n" "jn_active (fst (bus_bridge E h e n)) = jn_active n"
  "jn_active (fst (bus_push E e n)) = jn_active n"
  by (auto simp: bus_activity_def bus_bridge_def bus_push_def split: prod.splits option.splits res.splits)

lemma announce_submitted:
  "jn_active (announce E (submitted_event key job params now) n) = List.insert job (jn_active n)"
  by (simp add: announce_fold submitted_event_def submitted_handlers app_on_job_submitted_def on_active_def
      event_job_def jitem_def json_str_def bus_keeps_active)

lemma announce_finished:
  assumes "ty \<in> {''JOB_COMPLETED'', ''JOB_FAILED''}"
  shows "jn_active (announce E (finished_event ty h ms now) n) = removeAll (ih_job_id h) (jn_active n)"
  using assms by (auto simp: announce_fold finished_event_def finished_handlers app_on_job_finished_def on_active_def
      event_job_def jitem_def json_str_def bus_keeps_active)

lemma announce_all_keeps:
  fixes n :: "('s, 'c, 'b, 'p) job_node"
  shows "keeps_core n (fold (announce E) evs n)"
proof (induction evs arbitrary: n)
  case (Cons e evs)
  then show ?case using keeps_core_trans [OF announce_keeps [of n E e]] by simp
qed simp

text \<open>Events of other types than the job's leave the active jobs as they are.\<close>

lemma other_handlers:
  assumes "ty \<notin> {''JOB_SUBMITTED'', ''JOB_COMPLETED'', ''JOB_FAILED''}"
  shows "\<forall>h \<in> set (dget (job_bus E) ty []). \<forall>e (n :: ('s, 'c, 'b, 'p) job_node). jn_active (fst (h e n)) = jn_active n"
  using assms
  by (auto simp: job_bus_def dget_subscribe_all job_subscriptions_def bus_keeps_active)

lemma announce_other:
  fixes n :: "('s, 'c, 'b, 'p) job_node"
  assumes "ev_type e \<notin> {''JOB_SUBMITTED'', ''JOB_COMPLETED'', ''JOB_FAILED''}"
  shows "jn_active (announce E e n) = jn_active n"
proof -
  have keep: "\<forall>h \<in> set hs. \<forall>e n. jn_active (fst (h e n)) = jn_active n \<Longrightarrow>
      jn_active (fold (\<lambda>h n. fst (h e n)) hs n) = jn_active n" for hs :: "('s, 'c, 'b, 'p) job_handler list"
    by (induction hs arbitrary: n) auto
  show ?thesis unfolding announce_fold by (rule keep [OF other_handlers [OF assms, of E]])
qed

text \<open>The record of a stored blob is the one that its name gives.\<close>

lemma register_and_store_record:
  assumes "register_and_store E name v fmt k data now cb h algo st = (Ok r, st', evs)"
  shows "dr_name r = name \<and> dr_version r = v"
proof -
  have same: "store_chunks E name v data cb now r0 is st0 = (Ok r, st', evs0) \<Longrightarrow> r0 = r" for r0 "is" st0 evs0
    by (induction "is" arbitrary: st0 evs0) (auto split: prod.splits res.splits)
  obtain r0 st0 evs0 evs1 where "data_register E name v fmt k (int (length data)) cb now h algo st = (Ok r0, st0, evs0)"
    and s: "store_chunks E name v data cb now r0 (chunk_indices (dr_total_chunks r0)) st0 = (Ok r, st', evs1)"
    using assms by (auto simp: register_and_store_def split: prod.splits res.splits)
  moreover have "dr_name r0 = name \<and> dr_version r0 = v"
    using calculation(1)
    by (auto simp: data_register_def Let_def split: prod.splits res.splits option.splits if_splits)
  ultimately show ?thesis using same [OF s] by simp
qed

section \<open>A completed job\<close>

lemma put_result_mem:
  assumes "je_results E = mem_backend" "plain_inv (jn_results n)"
  obtains n' where "put_result E r n = (Ok (), n')" "plain_inv (jn_results n')"
    "plain_view (jn_results n') = (plain_view (jn_results n))(jr_job_id r \<mapsto> r)"
    "jn_data n' = jn_data n" "jn_runtime n' = jn_runtime n" "jn_active n' = jn_active n"
    "jn_replicating n' = jn_replicating n" "jn_virtual_env n' = jn_virtual_env n"
proof -
  obtain q s where "b_put mem_backend (jn_results n) (pkey (jr_job_id r)) r = (Ok q, s)" "plain_inv s"
    "\<forall>j. plain_view s j = ((plain_view (jn_results n))(jr_job_id r \<mapsto> r)) j"
    using mem_plain.put [OF assms(2), of "jr_job_id r" r] by auto
  then show thesis using that [of "n\<lparr>jn_results := s\<rparr>"] assms(1) by (auto simp: put_result_def fun_eq_iff)
qed

lemma handle_job_result_mem:
  assumes "plain_inv (jn_results n)" "command_job c = Ok (Some job)" "plain_view (jn_results n) job = Some r"
  shows "handle_job_result mem_backend c n = (Ok (job_result_reply job r), n)"
  using mem_plain.get [OF assms(1), of job] assms by (simp add: handle_job_result_def with_job_def)

text \<open>Recording a completion: the result is stored, the job is no longer active, the copy goes out.\<close>

lemma record_completion_mem:
  assumes E: "je_results E = mem_backend" and inv: "plain_inv (jn_results n)"
    and ty: "ty \<in> {''JOB_COMPLETED'', ''JOB_FAILED''}" and job: "jr_job_id r = ih_job_id h"
  obtains n' where "record_completion E r (finished_event ty h ms now) n = (Ok (), n')" "plain_inv (jn_results n')"
    "plain_view (jn_results n') = (plain_view (jn_results n))(jr_job_id r \<mapsto> r)" "jn_data n' = jn_data n"
    "jn_active n' = removeAll (jr_job_id r) (jn_active n)" "jn_replicating n' = jn_replicating n @ [r]"
    "jn_runtime n' = jn_runtime n"
proof -
  let ?e = "finished_event ty h ms now"
  obtain m where m: "put_result E r n = (Ok (), m)" "plain_inv (jn_results m)"
    "plain_view (jn_results m) = (plain_view (jn_results n))(jr_job_id r \<mapsto> r)" "jn_data m = jn_data n"
    "jn_runtime m = jn_runtime n" "jn_active m = jn_active n" "jn_replicating m = jn_replicating n"
    by (rule put_result_mem [OF E inv])
  have "keeps_core m (announce E ?e m)" by (rule announce_keeps)
  then show thesis
    using that [of "(announce E ?e m)\<lparr>jn_replicating := jn_replicating (announce E ?e m) @ [r]\<rparr>"] m
      announce_finished [OF ty, of E h ms now m] job
    by (simp add: record_completion_def keeps_core_def Let_def)
qed

text \<open>Recording the output: JSON stays in the result, other values are stored and can be read back.\<close>

lemma record_output_stored:
  assumes D: "je_data E = node_env H root" and ok: "node_data.state_ok (jn_data n)"
    and path: "clean_path (result_name job)" and v: "\<not> is_json_safe_value v"
  obtains n' where "record_output E job v now n =
      (Ok ([(''type'', JStr ''bytes'')], [(''value'', StorageKey (result_name job) (Some 1) None)]), n')"
    "read_whole (node_env H root) (result_name job) 1 (jn_data n') = Ok (value_octets v)"
    "jn_results n' = jn_results n" "jn_replicating n' = jn_replicating n"
proof -
  obtain r st evs where r: "register_and_store (node_env H root) (result_name job) 1 ''pickle'' ''fs'' (value_octets v)
      now 262144 None ''sha256'' (jn_data n) = (Ok r, st, evs)"
    and read: "read_whole (node_env H root) (result_name job) 1 st = Ok (value_octets v)"
    using node_data.store_then_read [OF ok _ clean_chunk_path [OF path], where cb = 262144 and v = 1 and H = H and root = root]
    by (metis zero_less_numeral)
  have rec: "dr_name r = result_name job" "dr_version r = 1" using register_and_store_record [OF r] by simp_all
  have "keeps_core (n\<lparr>jn_data := st\<rparr>) (fold (announce E) evs (n\<lparr>jn_data := st\<rparr>))" by (rule announce_all_keeps)
  then show thesis
    using that [of "fold (announce E) evs (n\<lparr>jn_data := st\<rparr>)"] r read rec v D
    by (cases v) (simp_all add: record_output_def keeps_core_def is_json_safe_value_def)
qed


text \<open>The active jobs that no event of a list names stay active.\<close>

lemma announce_keeps_job:
  fixes n :: "('s, 'c, 'b, 'p) job_node"
  assumes "event_job e \<noteq> Ok job" "job \<in> set (jn_active n)"
  shows "job \<in> set (jn_active (announce E e n))"
proof -
  have keep: "h \<in> snd ` set (job_subscriptions E) \<Longrightarrow> job \<in> set (jn_active m) \<Longrightarrow> job \<in> set (jn_active (fst (h e m)))"
    for h and m :: "('s, 'c, 'b, 'p) job_node"
    using assms(1)
    by (auto simp: job_subscriptions_def bus_keeps_active app_on_job_submitted_def app_on_job_finished_def on_active_def
        split: res.splits)
  have "set hs \<subseteq> snd ` set (job_subscriptions E) \<Longrightarrow> job \<in> set (jn_active m) \<Longrightarrow>
      job \<in> set (jn_active (fold (\<lambda>h n. fst (h e n)) hs m))" for hs and m :: "('s, 'c, 'b, 'p) job_node"
    by (induction hs arbitrary: m) (simp_all add: keep)
  moreover have "set (dget (job_bus E) (ev_type e) []) \<subseteq> snd ` set (job_subscriptions E)"
    by (auto simp: job_bus_def dget_subscribe_all)
  ultimately show ?thesis unfolding announce_fold using assms(2) by blast
qed

lemma announce_all_keep_job:
  fixes n :: "('s, 'c, 'b, 'p) job_node"
  assumes "\<forall>e \<in> set evs. event_job e \<noteq> Ok job" "job \<in> set (jn_active n)"
  shows "job \<in> set (jn_active (fold (announce E) evs n))"
  using assms by (induction evs arbitrary: n) (simp_all add: announce_keeps_job)


section \<open>Properties\<close>

lemma on_complete_value:
  fixes n :: "(function_result mem, data_record mem, file_tree, 'p) job_node"
  assumes E: "je_results E = mem_backend" "je_data E = node_env H root"
    and inv: "plain_inv (jn_results n)" and ok: "node_data.state_ok (jn_data n)"
    and path: "clean_path (result_name (ih_job_id h))"
  obtains n' outp refs where "on_complete E h (Ok v) ws now n = (Ok (), n')" "plain_inv (jn_results n')"
    "plain_view (jn_results n') = (plain_view (jn_results n))(ih_job_id h \<mapsto>
       \<lparr>jr_job_id = ih_job_id h, jr_ok = True, jr_output = outp, jr_refs = refs, jr_error = [],
        jr_duration_ms = duration_since (ih_started_at h) now, jr_warnings = ws\<rparr>)"
    "ih_job_id h \<notin> set (jn_active n')" "map jr_job_id (jn_replicating n') = map jr_job_id (jn_replicating n) @ [ih_job_id h]"
    "case v of VJson j \<Rightarrow> outp = [(''value'', j), (''type'', JStr ''json'')] \<and> refs = []
     | _ \<Rightarrow> outp = [(''type'', JStr ''bytes'')] \<and> refs = [(''value'', StorageKey (result_name (ih_job_id h)) (Some 1) None)] \<and>
        read_whole (node_env H root) (result_name (ih_job_id h)) 1 (jn_data n') = Ok (value_octets v)"
proof -
  let ?job = "ih_job_id h"
  let ?r = "\<lambda>out rf. \<lparr>jr_job_id = ?job, jr_ok = True, jr_output = out, jr_refs = rf, jr_error = [],
        jr_duration_ms = duration_since (ih_started_at h) now, jr_warnings = ws\<rparr>"
  obtain m out rf where m: "record_output E ?job v now n = (Ok (out, rf), m)" "jn_results m = jn_results n"
    "jn_replicating m = jn_replicating n"
    and shape: "case v of VJson j \<Rightarrow> out = [(''value'', j), (''type'', JStr ''json'')] \<and> rf = []
     | _ \<Rightarrow> out = [(''type'', JStr ''bytes'')] \<and> rf = [(''value'', StorageKey (result_name ?job) (Some 1) None)] \<and>
        read_whole (node_env H root) (result_name ?job) 1 (jn_data m) = Ok (value_octets v)"
  proof (cases "is_json_safe_value v")
    case True
    then show thesis using that by (cases v) (simp_all add: record_output_def is_json_safe_value_def)
  next
    case False
    then show thesis
      by (rule record_output_stored [OF E(2) ok path, of v now])
        (use False in \<open>cases v; auto simp: is_json_safe_value_def intro: that\<close>)
  qed
  obtain n' where "record_completion E (?r out rf) (finished_event ''JOB_COMPLETED'' h (duration_since (ih_started_at h) now) now) m
      = (Ok (), n')" "plain_inv (jn_results n')"
    "plain_view (jn_results n') = (plain_view (jn_results m))(?job \<mapsto> ?r out rf)" "jn_data n' = jn_data m"
    "jn_active n' = removeAll ?job (jn_active m)" "jn_replicating n' = jn_replicating m @ [?r out rf]"
    using record_completion_mem [OF E(1), of m "''JOB_COMPLETED''" "?r out rf" h "duration_since (ih_started_at h) now" now] m inv
    by auto
  then show thesis using m shape
    by (intro that [of n' out rf]) (simp_all add: on_complete_def Let_def cong: py_value.case_cong)
qed

text \<open>
  C39: What a function returned is what the client gets. When a job returns a value, the completion
  is recorded: the job is no longer active, its result goes out for replication, the results of the
  other jobs stay, and JOB_RESULT answers COMPLETED. A JSON value is in the answer; for any other
  value the answer refers to version 1 of the data \<open>job-result-<job id>\<close>, whose whole content is
  the returned octets.
\<close>

theorem job_result_returned:
  fixes n :: "(function_result mem, data_record mem, file_tree, 'p) job_node"
  assumes "je_results E = mem_backend" "je_data E = node_env H root"
    "plain_inv (jn_results n)" "cat_inv (ds_catalog (jn_data n))" "map_of (ds_blobs (jn_data n)) ''fs'' = Some tree"
    "dict_ok tree" "clean_path (result_name (ih_job_id h))" "command_job c = Ok (Some (ih_job_id h))"
  shows "\<exists>n' outp refs. on_complete E h (Ok v) ws now n = (Ok (), n') \<and>
    handle_job_result mem_backend c n' = (Ok (result_ok
      [(''job_id'', JStr (ih_job_id h)), (''status'', JStr ''COMPLETED''), (''result_ok'', JBool True),
       (''output'', JObj outp), (''refs'', refs_json refs), (''error'', JStr []),
       (''duration_ms'', json_opt JFloat (duration_since (ih_started_at h) now)),
       (''warnings'', JList (map JStr ws))]), n') \<and>
    (case v of VJson j \<Rightarrow> outp = [(''value'', j), (''type'', JStr ''json'')] \<and> refs = []
     | _ \<Rightarrow> outp = [(''type'', JStr ''bytes'')] \<and> refs = [(''value'', StorageKey (result_name (ih_job_id h)) (Some 1) None)] \<and>
        read_whole (je_data E) (result_name (ih_job_id h)) 1 (jn_data n') = Ok (value_octets v)) \<and>
    ih_job_id h \<notin> set (jn_active n') \<and>
    map jr_job_id (jn_replicating n') = map jr_job_id (jn_replicating n) @ [ih_job_id h] \<and>
    (\<forall>j. j \<noteq> ih_job_id h \<longrightarrow> plain_view (jn_results n') j = plain_view (jn_results n) j)"
proof -
  have ok: "node_data.state_ok (jn_data n)" using assms(4-6) by (simp add: node_data.state_ok_def)
  obtain n' outp refs where n': "on_complete E h (Ok v) ws now n = (Ok (), n')" "plain_inv (jn_results n')"
    "plain_view (jn_results n') = (plain_view (jn_results n))(ih_job_id h \<mapsto>
       \<lparr>jr_job_id = ih_job_id h, jr_ok = True, jr_output = outp, jr_refs = refs, jr_error = [],
        jr_duration_ms = duration_since (ih_started_at h) now, jr_warnings = ws\<rparr>)"
    "ih_job_id h \<notin> set (jn_active n')" "map jr_job_id (jn_replicating n') = map jr_job_id (jn_replicating n) @ [ih_job_id h]"
    "case v of VJson j \<Rightarrow> outp = [(''value'', j), (''type'', JStr ''json'')] \<and> refs = []
     | _ \<Rightarrow> outp = [(''type'', JStr ''bytes'')] \<and> refs = [(''value'', StorageKey (result_name (ih_job_id h)) (Some 1) None)] \<and>
        read_whole (node_env H root) (result_name (ih_job_id h)) 1 (jn_data n') = Ok (value_octets v)"
    by (rule on_complete_value [OF assms(1-3) ok assms(7)])
  show ?thesis
    using n' assms(2) handle_job_result_mem [OF n'(2) assms(8)]
    by (intro exI [of _ n'] exI [of _ outp] exI [of _ refs]) (simp add: job_result_reply_def cong: py_value.case_cong)
qed

definition example_env :: "(function_result mem, data_record mem, file_tree) job_env" where
  "example_env = \<lparr>je_endpoint_id = ''ep'', je_results = mem_backend, je_data = node_env (\<lambda>_. None) ''/srv'',
     je_catalog = (\<lambda>_. Ok None), je_publisher = None\<rparr>"

definition example_node :: "(function_result mem, data_record mem, file_tree, nat) job_node" where
  "example_node = \<lparr>jn_results = mem_init, jn_data = example_state, jn_runtime = 0, jn_active = [''j''],
     jn_identities = [], jn_pushed = [], jn_activity = repository_init 10, jn_published = [],
     jn_replicating = [], jn_virtual_env = JNull\<rparr>"


definition example_handle :: invocation_handle where
  "example_handle = \<lparr>ih_job_id = ''j'', ih_function_id = ''f'', ih_version = Some 1, ih_started_at = Some 0\<rparr>"

definition ask_result :: command where
  "ask_result = \<lparr>operation = ''JOB_RESULT'', content_type = ''json'',
     envelope = JObj [(''job_id'', JStr ''j'')], payload = []\<rparr>"

lemma job_result_returned_witness:
  "\<exists>n' outp refs. on_complete example_env example_handle (Ok (VBytes ''v'')) [] 0 example_node = (Ok (), n') \<and>
    handle_job_result mem_backend ask_result n' = (Ok (result_ok
      [(''job_id'', JStr ''j''), (''status'', JStr ''COMPLETED''), (''result_ok'', JBool True),
       (''output'', JObj outp), (''refs'', refs_json refs), (''error'', JStr []),
       (''duration_ms'', json_opt JFloat (duration_since (Some 0) 0)), (''warnings'', JList [])]), n') \<and>
    outp = [(''type'', JStr ''bytes'')] \<and> refs = [(''value'', StorageKey (result_name ''j'') (Some 1) None)] \<and>
    read_whole (je_data example_env) (result_name ''j'') 1 (jn_data n') = Ok ''v'' \<and> ''j'' \<notin> set (jn_active n') \<and>
    map jr_job_id (jn_replicating n') = [''j''] \<and> (\<forall>j. j \<noteq> ''j'' \<longrightarrow> plain_view (jn_results n') j = None)"
  using job_result_returned [of example_env "\<lambda>_. None" "''/srv''" example_node "[]" example_handle ask_result
      "VBytes ''v''" "[]" 0]
  by (simp add: example_env_def example_node_def example_handle_def ask_result_def command_job_def with_env_def
      result_name_def clean_path_def clean_segment_def plain_segment_def json_str_def value_octets_def)

text \<open>
  C40: A submission that cannot start leaves the endpoint busy for good. The submission of a
  function that the registry does not hold is announced, so its job becomes active; the dispatcher
  refuses it, the failure is stored and answered, but no JOB_FAILED is announced. The job stays
  active through all later events that are not about it, and every VIRTUAL_ENV_ASSIGN is refused
  although no job runs.
\<close>

theorem failed_submission_blocks_assignment:
  fixes n :: "(function_result mem, 'c, 'b, 'p) job_node"
  assumes "je_results E = mem_backend" "plain_inv (jn_results n)" "je_catalog E key = Ok None"
    "parse_submission c = Ok (Some (key, params))" "\<forall>e \<in> set evs. event_job e \<noteq> Ok job"
  shows "\<exists>n'. handle_job_submit E (runtime_dispatcher (je_catalog E) P C) job now c n =
      (Ok (from_error_meta (AxoErr InvocationError (''function '' @ py_repr (sk_id key) @ '' not found''))
        [(''job_id'', JStr job)]), n') \<and>
    plain_view (jn_results n') job = Some (bare_result job False (''function '' @ py_repr (sk_id key) @ '' not found'')) \<and>
    jn_replicating n' = jn_replicating n \<and>
    handle_virtual_env_assign E assign (fold (announce E) evs n') =
      (Ok (from_error (AxoErr EndpointBusyError ''endpoint has active jobs, cannot reassign its virtual environment'')),
       fold (announce E) evs n')"
proof -
  let ?msg = "''function '' @ py_repr (sk_id key) @ '' not found''"
  obtain m where m: "put_result E (pending_result job) n = (Ok (), m)" "plain_inv (jn_results m)"
    "jn_replicating m = jn_replicating n"
    by (rule put_result_mem [OF assms(1,2)])
  let ?a = "announce E (submitted_event key job params now) m"
  have a: "keeps_core m ?a" "jn_active ?a = List.insert job (jn_active m)"
    by (simp_all add: announce_keeps announce_submitted)
  have inv: "plain_inv (jn_results ?a)" using a(1) m(2) by (simp add: keeps_core_def)
  obtain n' where n': "put_result E (bare_result job False ?msg) ?a = (Ok (), n')" "jn_active n' = jn_active ?a"
    "jn_replicating n' = jn_replicating ?a"
    "plain_view (jn_results n') = (plain_view (jn_results ?a))(jr_job_id (bare_result job False ?msg) \<mapsto> bare_result job False ?msg)"
    by (rule put_result_mem [OF assms(1) inv])
  have "job \<in> set (jn_active (fold (announce E) evs n'))"
    by (rule announce_all_keep_job [OF assms(5)]) (simp add: n'(2) a(2))
  then have "jn_active (fold (announce E) evs n') \<noteq> []" by auto
  then show ?thesis using m n' a(1) assms(3,4)
    by (intro exI [of _ n'])
      (simp add: handle_job_submit_def submit_job_def job_params_for_def start_job_def runtime_dispatcher_def
        dispatcher_invoke_def Let_def handle_virtual_env_assign_def keeps_core_def bare_result_def)
qed

definition submit_f :: command where
  "submit_f = \<lparr>operation = ''JOB_SUBMIT'', content_type = ''json'',
     envelope = JObj [(''function_id'', JStr ''f''), (''function_version'', JInt 1)], payload = []\<rparr>"

definition assign_v :: command where
  "assign_v = \<lparr>operation = ''VIRTUAL_ENV_ASSIGN'', content_type = ''json'',
     envelope = JObj [(''virtual_environment_id'', JStr ''v'')], payload = []\<rparr>"

definition no_runtime :: "'n function_runtime" where
  "no_runtime = \<lparr>ft_invoke = (\<lambda>_ _ _ _ n. (Raise ValueError, n)), ft_cancel = (\<lambda>_ _ n. (Ok False, n))\<rparr>"

lemma failed_submission_blocks_assignment_witness:
  "\<exists>n'. handle_job_submit example_env (runtime_dispatcher (\<lambda>_. Ok None) no_runtime no_runtime) ''k'' 0 submit_f example_node =
      (Ok (from_error_meta (AxoErr InvocationError (''function '' @ py_repr ''f'' @ '' not found''))
        [(''job_id'', JStr ''k'')]), n') \<and>
    handle_virtual_env_assign example_env assign_v (fold (announce example_env) [finished_event ''JOB_COMPLETED'' example_handle None 0] n') =
      (Ok (from_error (AxoErr EndpointBusyError ''endpoint has active jobs, cannot reassign its virtual environment'')),
       fold (announce example_env) [finished_event ''JOB_COMPLETED'' example_handle None 0] n')"
proof -
  have parse: "parse_submission submit_f = Ok (Some (ckey (''f'', 1), []))"
    by (simp add: submit_f_def parse_submission_def with_env_def Let_def json_str_def exact_int_def json_dict_def)
  have env: "je_results example_env = mem_backend" "je_catalog example_env = (\<lambda>_. Ok None)"
    "plain_inv (jn_results example_node)" by (simp_all add: example_env_def example_node_def)
  have other: "event_job (finished_event ''JOB_COMPLETED'' example_handle None 0) = Ok ''j''"
    by (simp add: event_job_def finished_event_def example_handle_def jitem_def json_str_def)
  show ?thesis
    using failed_submission_blocks_assignment [of example_env example_node "ckey (''f'', 1)" submit_f "[]"
        "[finished_event ''JOB_COMPLETED'' example_handle None 0]" "''k''" no_runtime no_runtime 0 assign_v]
      parse env other by fastforce
qed

end
