(* ===== verification/Container_Pool.thy ===== *)
theory Container_Pool
  imports Ledger Replication Process_Runtime Activity
begin

text \<open>
  The containers of an endpoint: the handle of a container and its name
  (\<open>service/container/handle.py\<close>), the docker primitives (\<open>axo_shared/container/spawner.py\<close>) and the
  summoner that keeps the pools of containers (\<open>service/container/spawner.py\<close>). Docker's daemon is
  a parameter. A thread that an operation starts is one of its effects; what the thread does is a
  definition of its own.
\<close>

section \<open>Names\<close>

definition py_lower_char :: "char \<Rightarrow> char" where
  "py_lower_char c =
    (let n = of_char c :: nat in
     if 65 \<le> n \<and> n \<le> 90 \<or> 192 \<le> n \<and> n \<le> 222 \<and> n \<noteq> 215 then char_of (n + 32) else c)"

definition py_strip_char :: "char \<Rightarrow> string \<Rightarrow> string" where
  "py_strip_char c s = rev (dropWhile (\<lambda>x. x = c) (rev (dropWhile (\<lambda>x. x = c) s)))"

text \<open>The class \<open>[a-z0-9-]\<close>.\<close>

definition label_char :: "char \<Rightarrow> bool" where
  "label_char c = (let n = of_char c :: nat in 97 \<le> n \<and> n \<le> 122 \<or> 48 \<le> n \<and> n \<le> 57 \<or> n = 45)"

definition slug_of :: "string \<Rightarrow> string" where
  "slug_of function_id =
    (let s = py_strip_char (CHR ''-'')
       (filter label_char (map (\<lambda>c. if c = CHR ''_'' then CHR ''-'' else c) (map py_lower_char function_id)))
     in if s = [] then ''fn'' else s)"

definition pool_suffix :: "int \<Rightarrow> int \<Rightarrow> string" where
  "pool_suffix version pool_index =
    ''-v'' @ str_int version @ (if 0 < pool_index then ''-p'' @ str_int pool_index else [])"

definition sanitize_container_name :: "string \<Rightarrow> int \<Rightarrow> int \<Rightarrow> string" where
  "sanitize_container_name function_id version pool_index =
    (let suffix = pool_suffix version pool_index;
         max_slug_len = 63 - int (length ''fn-'') - int (length suffix)
     in ''fn-'' @ py_take max_slug_len (slug_of function_id) @ suffix)"

section \<open>Handles\<close>

datatype container_status = STARTING | BOOTSTRAPPING | READY | BUSY | IDLE | CRASHED | DISMISSED

record container =
  ct_function_id :: string
  ct_version :: int
  ct_service_name :: string
  ct_mode :: string
  ct_zmq_address :: string
  ct_http_address :: string
  ct_container_id :: "string option"
  ct_service_id :: "string option"
  ct_status :: container_status
  ct_last_used :: flt
  ct_invocation_count :: nat
  ct_pool_index :: int
  ct_max_duration :: flt
  ct_ready_event :: bool
  ct_current_job :: "string option"
  ct_queue :: "(string \<times> job_params) list"

definition ct_dead :: "container \<Rightarrow> bool" where
  "ct_dead c = (ct_status c \<in> {CRASHED, DISMISSED})"

lemma ct_dead_iff: "ct_dead c \<longleftrightarrow> ct_status c = CRASHED \<or> ct_status c = DISMISSED"
  by (simp add: ct_dead_def)

lemma ct_dead_code [code]: "ct_dead c = (case ct_status c of CRASHED \<Rightarrow> True | DISMISSED \<Rightarrow> True | _ \<Rightarrow> False)"
  by (simp add: ct_dead_def split: container_status.split)

section \<open>Docker\<close>

text \<open>
  A call of the docker SDK: its value, or one of the exceptions that the code tells apart
  (\<open>NotFound\<close> with \<open>ImageNotFound\<close>, \<open>BuildError\<close>, any other \<open>DockerException\<close>) with its text.
  An exception that is not caught is an \<open>APIError\<close>, which Python takes for an \<open>OSError\<close>.
\<close>

datatype 'a docker_result = Docker_Ok 'a | Docker_Not_Found string | Docker_Build_Error string | Docker_Error string

record mount_spec =
  mt_source :: string
  mt_target :: string
  mt_mode :: string

text \<open>The arguments of \<open>services.create\<close> and of \<open>containers.run\<close>.\<close>

record service_args =
  sa_image :: string
  sa_name :: string
  sa_env :: "string list"
  sa_networks :: "string list option"
  sa_mounts :: "string list option"
  sa_resources :: "(int option \<times> int option) option"

record run_args =
  ra_image :: string
  ra_name :: string
  ra_environment :: "(string, string) dict"
  ra_network :: "string option"
  ra_volumes :: "(string, string \<times> string) dict option"
  ra_mem_limit :: "int option"
  ra_nano_cpus :: "int option"

record 'd docker =
  dk_create_service :: "service_args \<Rightarrow> 'd \<Rightarrow> string docker_result \<times> 'd"
  dk_remove_service :: "string \<Rightarrow> 'd \<Rightarrow> unit docker_result \<times> 'd"
  dk_run_container :: "run_args \<Rightarrow> 'd \<Rightarrow> string docker_result \<times> 'd"
  dk_stop_container :: "string \<Rightarrow> 'd \<Rightarrow> unit docker_result \<times> 'd"
  dk_remove_container :: "string \<Rightarrow> 'd \<Rightarrow> unit docker_result \<times> 'd"
  dk_get_image :: "string \<Rightarrow> 'd \<Rightarrow> unit docker_result \<times> 'd"
  dk_build_image :: "string \<Rightarrow> (string, string) dict \<Rightarrow> 'd \<Rightarrow> unit docker_result \<times> 'd"

text \<open>\<open>ContainerSpawnError\<close> is a plain exception that has a text only.\<close>

definition spawn_error :: "string \<Rightarrow> axo_error" where
  "spawn_error text = AxoErr (ErrClass ''ContainerSpawnError'' 0 []) text"

lemma err_msg_spawn_error [simp]: "err_msg (spawn_error t) = t"
  by (simp add: spawn_error_def)

definition caught :: "('a \<Rightarrow> 'b) \<Rightarrow> 'a docker_result \<Rightarrow> 'b res" where
  "caught f r =
    (case r of Docker_Ok x \<Rightarrow> Ok (f x) | Docker_Not_Found t \<Rightarrow> Err (spawn_error t)
     | Docker_Build_Error t \<Rightarrow> Err (spawn_error t) | Docker_Error t \<Rightarrow> Err (spawn_error t))"

definition mounts_for_swarm :: "mount_spec list \<Rightarrow> string list" where
  "mounts_for_swarm ms = map (\<lambda>m. mt_source m @ '':'' @ mt_target m @ '':'' @ mt_mode m) ms"

definition mounts_for_docker :: "mount_spec list \<Rightarrow> (string, string \<times> string) dict" where
  "mounts_for_docker ms = fold (\<lambda>m. dput (mt_source m) (mt_target m, mt_mode m)) ms []"

definition or_none :: "'a list \<Rightarrow> 'a list option" where
  "or_none xs = (if xs = [] then None else Some xs)"

record spawn_request =
  sp_mode :: string
  sp_image :: string
  sp_name :: string
  sp_env :: "(string, string) dict"
  sp_network :: "string option"
  sp_mounts :: "mount_spec list"
  sp_mem_limit :: "int option"
  sp_nano_cpus :: "int option"

text \<open>The ids of what was spawned: of the container and of the service.\<close>

definition spawner_spawn ::
  "'d docker \<Rightarrow> spawn_request \<Rightarrow> 'd \<Rightarrow> (string option \<times> string option) res \<times> 'd" where
  "spawner_spawn D q d =
    (if sp_mode q = ''swarm'' then
       (case dk_create_service D \<lparr>sa_image = sp_image q, sa_name = sp_name q,
            sa_env = map (\<lambda>(k, v). k @ ''='' @ v) (sp_env q),
            sa_networks = (case sp_network q of None \<Rightarrow> None | Some n \<Rightarrow> if n = [] then None else Some [n]),
            sa_mounts = or_none (mounts_for_swarm (sp_mounts q)),
            sa_resources = (if sp_mem_limit q = None \<and> sp_nano_cpus q = None then None
                            else Some (sp_mem_limit q, sp_nano_cpus q))\<rparr> d of
          (r, d) \<Rightarrow> (caught (\<lambda>i. (None, Some i)) r, d))
     else
       (case dk_run_container D \<lparr>ra_image = sp_image q, ra_name = sp_name q, ra_environment = sp_env q,
            ra_network = sp_network q, ra_volumes = or_none (mounts_for_docker (sp_mounts q)),
            ra_mem_limit = sp_mem_limit q, ra_nano_cpus = sp_nano_cpus q\<rparr> d of
          (r, d) \<Rightarrow> (caught (\<lambda>i. (Some i, None)) r, d)))"

definition truthy_text :: "string option \<Rightarrow> bool" where
  "truthy_text t = (case t of None \<Rightarrow> False | Some s \<Rightarrow> s \<noteq> [])"

definition stopped :: "unit docker_result \<Rightarrow> unit res" where
  "stopped r = (case r of Docker_Not_Found _ \<Rightarrow> Ok () | _ \<Rightarrow> caught (\<lambda>_. ()) r)"

definition spawner_stop ::
  "'d docker \<Rightarrow> string \<Rightarrow> string option \<Rightarrow> string option \<Rightarrow> 'd \<Rightarrow> unit res \<times> 'd" where
  "spawner_stop D mode container_id service_id d =
    (if mode = ''swarm'' \<and> truthy_text service_id then
       (case dk_remove_service D (the service_id) d of (r, d) \<Rightarrow> (stopped r, d))
     else if truthy_text container_id then
       (case dk_stop_container D (the container_id) d of
          (Docker_Ok _, d) \<Rightarrow> (case dk_remove_container D (the container_id) d of (r, d) \<Rightarrow> (stopped r, d))
        | (r, d) \<Rightarrow> (stopped r, d))
     else (Ok (), d))"

definition spawner_ensure_image :: "'d docker \<Rightarrow> string \<Rightarrow> 'd \<Rightarrow> string res \<times> 'd" where
  "spawner_ensure_image D img d =
    (case dk_get_image D img d of
       (Docker_Not_Found _, d) \<Rightarrow> (Err (spawn_error (''image '' @ py_repr img @ '' not found'')), d)
     | (r, d) \<Rightarrow> (caught (\<lambda>_. img) r, d))"

text \<open>Of a failing build only \<open>BuildError\<close> is caught.\<close>

definition spawner_build_image ::
  "'d docker \<Rightarrow> string \<Rightarrow> (string, string) dict \<Rightarrow> 'd \<Rightarrow> string res \<times> 'd" where
  "spawner_build_image D tag buildargs d =
    (case dk_build_image D tag buildargs d of
       (Docker_Ok _, d) \<Rightarrow> (Ok tag, d)
     | (Docker_Build_Error t, d) \<Rightarrow> (Err (spawn_error t), d)
     | (_, d) \<Rightarrow> (Raise OSError, d))"

section \<open>The summoner\<close>

record container_config =
  cc_endpoint_id :: string
  cc_backend :: string
  cc_job_port :: int
  cc_http_port :: int
  cc_runner_image :: string
  cc_auto_build :: bool
  cc_network :: string
  cc_pip_cache :: string
  cc_memory_limit :: int
  cc_cpu_limit :: flt
  cc_result_bind :: string
  cc_router_bind :: string
  cc_dataio_timeout :: string
  cc_container_host :: "string option"
  cc_readiness_timeout :: flt

text \<open>
  What an operation does besides its state: events, completed jobs, released slots, questions to the
  leader, forwarded jobs, and started threads: the spawning of a container, the poll of its readiness up to a deadline, a dispatch that
  waits for a cold container, and a retry.
\<close>

datatype thread =
    Spawn_Thread nat runtime_spec
  | Poll_Thread nat flt
  | Dispatch_Thread nat string job_params
  | Retry_Thread storage_key string job_params

datatype container_effect =
    Emits event
  | Completes invocation_handle "py_value res" "string list"
  | Releases string int int
  | Asks string int int
  | Forwards string string
  | Starts thread

record 'd summoner =
  sm_containers :: "(nat, container) dict"
  sm_handles :: "(pool, nat list) dict"
  sm_next :: nat
  sm_docker :: 'd

definition summoner_init :: "'d \<Rightarrow> 'd summoner" where
  "summoner_init d = \<lparr>sm_containers = [], sm_handles = [], sm_next = 0, sm_docker = d\<rparr>"

definition the_container :: "('d, 'x) summoner_scheme \<Rightarrow> nat \<Rightarrow> container" where
  "the_container s i = the (map_of (sm_containers s) i)"

definition with_container :: "nat \<Rightarrow> (container \<Rightarrow> container) \<Rightarrow> ('d, 'x) summoner_scheme \<Rightarrow> ('d, 'x) summoner_scheme" where
  "with_container i f s =
    (case map_of (sm_containers s) i of
       None \<Rightarrow> s
     | Some c \<Rightarrow> s\<lparr>sm_containers := dput i (f c) (sm_containers s)\<rparr>)"

abbreviation members :: "pool \<Rightarrow> ('d, 'x) summoner_scheme \<Rightarrow> nat list" where
  "members k s \<equiv> dget (sm_handles s) k []"

definition live_members :: "pool \<Rightarrow> ('d, 'x) summoner_scheme \<Rightarrow> nat list" where
  "live_members k s = filter (\<lambda>i. \<not> ct_dead (the_container s i)) (members k s)"

definition all_members :: "('d, 'x) summoner_scheme \<Rightarrow> nat list" where
  "all_members s = concat (dvalues (sm_handles s))"

definition container_key :: "container \<Rightarrow> pool" where
  "container_key c = (ct_function_id c, ct_version c)"

definition container_event :: "string \<Rightarrow> container \<Rightarrow> (string, json) dict \<Rightarrow> flt \<Rightarrow> container_effect" where
  "container_event ty c extra now = Emits \<lparr>ev_type = ty,
     ev_payload = [(''function_id'', JStr (ct_function_id c)), (''version'', JInt (ct_version c))] @ extra, ev_time = now\<rparr>"

text \<open>Removing a stopped container from its pool, and an empty pool with it.\<close>

definition forget :: "nat \<Rightarrow> ('d, 'x) summoner_scheme \<Rightarrow> ('d, 'x) summoner_scheme" where
  "forget i s =
    (let k = container_key (the_container s i) in
     case map_of (sm_handles s) k of
       None \<Rightarrow> s
     | Some pool \<Rightarrow>
         (let pool = remove1 i pool in
          s\<lparr>sm_handles := (if pool = [] then dpop k (sm_handles s) else dput k pool (sm_handles s))\<rparr>))"

definition dismiss ::
  "'d docker \<Rightarrow> nat \<Rightarrow> string \<Rightarrow> flt \<Rightarrow> ('d, 'x) summoner_scheme \<Rightarrow> ('d, 'x) summoner_scheme \<times> container_effect list" where
  "dismiss D i reason now s =
    (let s = with_container i (\<lambda>c. c\<lparr>ct_status := DISMISSED\<rparr>) s; c = the_container s i in
     case spawner_stop D (ct_mode c) (ct_container_id c) (ct_service_id c) (sm_docker s) of
       (Ok _, d) \<Rightarrow>
         (forget i (s\<lparr>sm_docker := d\<rparr>),
          [container_event ''CONTAINER_DISMISSED'' c
             [(''service_name'', JStr (ct_service_name c)), (''pool_index'', JInt (ct_pool_index c))] now,
           container_event ''FUNCTION_STOPPED'' c [(''reason'', JStr reason)] now])
     | (_, d) \<Rightarrow> (s\<lparr>sm_docker := d\<rparr>, []))"

fun dismiss_all ::
  "'d docker \<Rightarrow> string \<Rightarrow> flt \<Rightarrow> nat list \<Rightarrow> ('d, 'x) summoner_scheme \<Rightarrow> ('d, 'x) summoner_scheme \<times> container_effect list" where
  "dismiss_all D reason now [] s = (s, [])"
| "dismiss_all D reason now (i # is) s =
    (case dismiss D i reason now s of
       (s, es) \<Rightarrow> (case dismiss_all D reason now is s of (s, es') \<Rightarrow> (s, es @ es')))"

definition dismiss_stale ::
  "'d docker \<Rightarrow> pool \<Rightarrow> flt \<Rightarrow> ('d, 'x) summoner_scheme \<Rightarrow> ('d, 'x) summoner_scheme \<times> container_effect list" where
  "dismiss_stale D k now s =
    dismiss_all D ''stale_before_respawn'' now (filter (\<lambda>i. ct_dead (the_container s i)) (members k s)) s"

definition new_container :: "container_config \<Rightarrow> pool \<Rightarrow> runtime_spec \<Rightarrow> int \<Rightarrow> container" where
  "new_container C k spec pool_index =
    (let name = sanitize_container_name (fst k) (snd k) pool_index in
     \<lparr>ct_function_id = fst k, ct_version = snd k, ct_service_name = name, ct_mode = cc_backend C,
      ct_zmq_address = ''tcp://'' @ name @ '':'' @ str_int (cc_job_port C),
      ct_http_address = ''http://'' @ name @ '':'' @ str_int (cc_http_port C),
      ct_container_id = None, ct_service_id = None, ct_status = STARTING, ct_last_used = 0,
      ct_invocation_count = 0, ct_pool_index = pool_index, ct_max_duration = rs_max_duration_seconds spec,
      ct_ready_event = False, ct_current_job = None, ct_queue = []\<rparr>)"

definition reserve ::
  "container_config \<Rightarrow> pool \<Rightarrow> runtime_spec \<Rightarrow> int \<Rightarrow> ('d, 'x) summoner_scheme \<Rightarrow>
   nat \<times> ('d, 'x) summoner_scheme \<times> container_effect list" where
  "reserve C k spec pool_index s =
    (let i = sm_next s in
     (i, s\<lparr>sm_containers := dput i (new_container C k spec pool_index) (sm_containers s),
           sm_handles := dput k (members k s @ [i]) (sm_handles s), sm_next := i + 1\<rparr>,
      [Starts (Spawn_Thread i spec)]))"

definition available :: "container \<Rightarrow> bool" where
  "available c = (ct_status c \<notin> {BUSY, STARTING})"

lemma available_code [code]: "available c = (case ct_status c of BUSY \<Rightarrow> False | STARTING \<Rightarrow> False | _ \<Rightarrow> True)"
  by (simp add: available_def split: container_status.split)

definition least_invoked :: "('d, 'x) summoner_scheme \<Rightarrow> nat list \<Rightarrow> nat option" where
  "least_invoked s is =
    (case is of [] \<Rightarrow> None | i # is \<Rightarrow> Some (py_min_by (\<lambda>i. ct_invocation_count (the_container s i)) i is))"

definition summon ::
  "container_config \<Rightarrow> 'd docker \<Rightarrow> pool \<Rightarrow> runtime_spec \<Rightarrow> flt \<Rightarrow> ('d, 'x) summoner_scheme \<Rightarrow>
   nat \<times> ('d, 'x) summoner_scheme \<times> container_effect list" where
  "summon C D k spec now s =
    (case dismiss_stale D k now s of
       (s, es) \<Rightarrow>
         (let live = live_members k s in
          case find (\<lambda>i. available (the_container s i)) live of
            Some i \<Rightarrow> (i, s, es)
          | None \<Rightarrow>
              (case (if max 1 (rs_max_concurrency spec) \<le> int (length live) then least_invoked s live else None) of
                 Some i \<Rightarrow> (i, s, es)
               | None \<Rightarrow>
                   (case reserve C k spec (int (length (members k s))) s of
                      (i, s, es') \<Rightarrow> (i, s, es @ es')))))"

definition find_idle ::
  "'d docker \<Rightarrow> pool \<Rightarrow> flt \<Rightarrow> ('d, 'x) summoner_scheme \<Rightarrow>
   nat option \<times> ('d, 'x) summoner_scheme \<times> container_effect list" where
  "find_idle D k now s =
    (case dismiss_stale D k now s of
       (s, es) \<Rightarrow> (find (\<lambda>i. available (the_container s i)) (live_members k s), s, es))"

definition least_busy :: "pool \<Rightarrow> ('d, 'x) summoner_scheme \<Rightarrow> nat option" where
  "least_busy k s = least_invoked s (live_members k s)"

definition summon_at ::
  "container_config \<Rightarrow> 'd docker \<Rightarrow> pool \<Rightarrow> runtime_spec \<Rightarrow> int \<Rightarrow> flt \<Rightarrow> ('d, 'x) summoner_scheme \<Rightarrow>
   nat \<times> ('d, 'x) summoner_scheme \<times> container_effect list" where
  "summon_at C D k spec pool_index now s =
    (case dismiss_stale D k now s of
       (s, es) \<Rightarrow> (case reserve C k spec pool_index s of (i, s, es') \<Rightarrow> (i, s, es @ es')))"

definition pool_summary :: "('d, 'x) summoner_scheme \<Rightarrow> (string, (string, int) dict) dict" where
  "pool_summary s =
    fold (\<lambda>(k, pool).
      let live = filter (\<lambda>i. \<not> ct_dead (the_container s i)) pool;
          idle = filter (\<lambda>i. ct_status (the_container s i) = READY \<or> ct_status (the_container s i) = IDLE) live
      in dput (pool_metrics_key (fst k) (snd k)) [(''live'', int (length live)), (''idle'', int (length idle))])
    (sm_handles s) []"

definition get_handle :: "pool \<Rightarrow> ('d, 'x) summoner_scheme \<Rightarrow> nat option" where
  "get_handle k s = find (\<lambda>i. \<not> ct_dead (the_container s i)) (members k s)"

text \<open>A sweep dismisses the containers that it chose before; the evicted functions are logged only.\<close>

definition sweep_containers ::
  "'d docker \<Rightarrow> (container \<Rightarrow> bool) \<Rightarrow> string \<Rightarrow> flt \<Rightarrow> ('d, 'x) summoner_scheme \<Rightarrow>
   ('d, 'x) summoner_scheme \<times> container_effect list" where
  "sweep_containers D p reason now s = dismiss_all D reason now (filter (\<lambda>i. p (the_container s i)) (all_members s)) s"

definition sweep_idle_containers ::
  "'d docker \<Rightarrow> flt \<Rightarrow> flt \<Rightarrow> ('d, 'x) summoner_scheme \<Rightarrow> ('d, 'x) summoner_scheme \<times> container_effect list" where
  "sweep_idle_containers D ttl now =
    sweep_containers D (\<lambda>c. ct_status c = IDLE \<and> 0 < ct_last_used c \<and> ttl < now - ct_last_used c) ''idle_ttl'' now"

definition sweep_used_containers ::
  "'d docker \<Rightarrow> int \<Rightarrow> flt \<Rightarrow> ('d, 'x) summoner_scheme \<Rightarrow> ('d, 'x) summoner_scheme \<times> container_effect list" where
  "sweep_used_containers D m now s =
    (if m \<le> 0 then (s, [])
     else sweep_containers D (\<lambda>c. m \<le> int (ct_invocation_count c)) ''max_invocations'' now s)"

definition sweep_crashed ::
  "'d docker \<Rightarrow> flt \<Rightarrow> ('d, 'x) summoner_scheme \<Rightarrow> ('d, 'x) summoner_scheme \<times> container_effect list" where
  "sweep_crashed D now = sweep_containers D (\<lambda>c. ct_status c = CRASHED) ''crashed'' now"

section \<open>The threads of the summoner\<close>

definition runner_image :: "container_config \<Rightarrow> string \<Rightarrow> string" where
  "runner_image C python_version = cc_runner_image C @ '':py'' @ python_version"

definition build_event :: "string \<Rightarrow> string \<Rightarrow> string \<Rightarrow> (string, json) dict \<Rightarrow> flt \<Rightarrow> container_effect" where
  "build_event ty python_version tag extra now = Emits \<lparr>ev_type = ty,
     ev_payload = [(''function_id'', JNull), (''python_version'', JStr python_version), (''image_tag'', JStr tag)] @ extra,
     ev_time = now\<rparr>"

definition build_runner_image ::
  "container_config \<Rightarrow> 'd docker \<Rightarrow> string \<Rightarrow> flt \<Rightarrow> flt \<Rightarrow> ('d, 'x) summoner_scheme \<Rightarrow>
   string res \<times> ('d, 'x) summoner_scheme \<times> container_effect list" where
  "build_runner_image C D python_version now ms s =
    (let tag = runner_image C python_version; start = build_event ''FUNCTION_BUILD_STARTED'' python_version tag [] now in
     case spawner_build_image D tag [(''PYTHON_VERSION'', python_version)] (sm_docker s) of
       (Raise ex, d) \<Rightarrow> (Raise ex, s\<lparr>sm_docker := d\<rparr>, [start])
     | (Err raw, d) \<Rightarrow>
         (let e = AxoErr ContainerError (err_msg raw)
          in (Err e, s\<lparr>sm_docker := d\<rparr>,
              [start, build_event ''FUNCTION_BUILD_FAILED'' python_version tag [(''error_message'', JStr (err_msg e))] now]))
     | (Ok _, d) \<Rightarrow>
         (Ok tag, s\<lparr>sm_docker := d\<rparr>,
          [start, build_event ''FUNCTION_BUILD_COMPLETED'' python_version tag [(''duration_ms'', JFloat ms)] now]))"

definition ensure_image ::
  "container_config \<Rightarrow> 'd docker \<Rightarrow> string \<Rightarrow> string \<Rightarrow> flt \<Rightarrow> flt \<Rightarrow> ('d, 'x) summoner_scheme \<Rightarrow>
   string res \<times> ('d, 'x) summoner_scheme \<times> container_effect list" where
  "ensure_image C D img python_version now ms s =
    (case spawner_ensure_image D img (sm_docker s) of
       (Err _, d) \<Rightarrow>
         (if \<not> cc_auto_build C then
            (Err (AxoErr ContainerError (''image '' @ py_repr img @ '' not found and auto-build is disabled'')),
             s\<lparr>sm_docker := d\<rparr>, [])
          else
            (case spawner_ensure_image D img d of
               (Err _, d) \<Rightarrow> build_runner_image C D python_version now ms (s\<lparr>sm_docker := d\<rparr>)
             | (r, d) \<Rightarrow> (r, s\<lparr>sm_docker := d\<rparr>, [])))
     | (r, d) \<Rightarrow> (r, s\<lparr>sm_docker := d\<rparr>, []))"

definition endpoint_host :: "container_config \<Rightarrow> string" where
  "endpoint_host C = (case cc_container_host C of Some h \<Rightarrow> h | None \<Rightarrow> cc_endpoint_id C)"

definition endpoint_address :: "container_config \<Rightarrow> string" where
  "endpoint_address C = ''tcp://'' @ endpoint_host C @ '':'' @ after_last (CHR '':'') (cc_router_bind C)"

definition starts_with :: "string \<Rightarrow> string \<Rightarrow> bool" where
  "starts_with p s = (take (length p) s = p)"

text \<open>\<open>s.replace(old, new)\<close> for a nonempty \<open>old\<close>; the number counts the characters of a match.\<close>

fun replace_from :: "string \<Rightarrow> string \<Rightarrow> nat \<Rightarrow> string \<Rightarrow> string" where
  "replace_from old new k [] = []"
| "replace_from old new (Suc k) (c # s) = replace_from old new k s"
| "replace_from old new 0 (c # s) =
    (if starts_with old (c # s) then new @ replace_from old new (length old - 1) s
     else c # replace_from old new 0 s)"

definition py_replace :: "string \<Rightarrow> string \<Rightarrow> string \<Rightarrow> string" where
  "py_replace old new s = replace_from old new 0 s"

definition container_env :: "container_config \<Rightarrow> container \<Rightarrow> runtime_spec \<Rightarrow> (string, string) dict" where
  "container_env C c spec = dmerge
    [(''AXO_ENDPOINT_ADDRESS'', endpoint_address C),
     (''AXO_RESULT_ADDRESS'', py_replace ''0.0.0.0'' (endpoint_host C) (cc_result_bind C)),
     (''AXO_FUNCTION_ID'', ct_function_id c), (''AXO_FUNCTION_VERSION'', str_int (ct_version c)),
     (''AXO_JOB_PORT'', str_int (cc_job_port C)), (''AXO_FASTAPI_PORT'', str_int (cc_http_port C)),
     (''AXO_DATAIO_TIMEOUT_SECONDS'', cc_dataio_timeout C)]
    (rs_env_vars spec)"

definition spawn_request_for :: "container_config \<Rightarrow> container \<Rightarrow> runtime_spec \<Rightarrow> string \<Rightarrow> spawn_request" where
  "spawn_request_for C c spec img = \<lparr>sp_mode = cc_backend C, sp_image = img, sp_name = ct_service_name c,
     sp_env = container_env C c spec, sp_network = Some (cc_network C),
     sp_mounts = [\<lparr>mt_source = cc_pip_cache C, mt_target = ''/root/.cache/pip'', mt_mode = ''rw''\<rparr>],
     sp_mem_limit = Some (case rs_memory_limit_bytes spec of Some m \<Rightarrow> if m = 0 then cc_memory_limit C else m
                          | None \<Rightarrow> cc_memory_limit C),
     sp_nano_cpus = Some (1000 * (case rs_cpu_limit spec of Some x \<Rightarrow> if x = 0 then cc_cpu_limit C else x
                                  | None \<Rightarrow> cc_cpu_limit C))\<rparr>"

definition crash_container :: "container \<Rightarrow> container" where
  "crash_container c = c\<lparr>ct_status := CRASHED, ct_ready_event := True\<rparr>"

definition spawn_in_background ::
  "container_config \<Rightarrow> 'd docker \<Rightarrow> nat \<Rightarrow> runtime_spec \<Rightarrow> flt \<Rightarrow> flt \<Rightarrow> ('d, 'x) summoner_scheme \<Rightarrow>
   unit res \<times> ('d, 'x) summoner_scheme \<times> container_effect list" where
  "spawn_in_background C D i spec now ms s =
    (let c = the_container s i;
         img = (if truthy_text (rs_image spec) then the (rs_image spec) else runner_image C (rs_python_version spec)) in
     case ensure_image C D img (rs_python_version spec) now ms s of
       (Raise ex, s, es) \<Rightarrow> (Raise ex, s, es)
     | (Err _, s, es) \<Rightarrow> (Ok (), with_container i crash_container s, es)
     | (Ok _, s, es) \<Rightarrow>
         (case spawner_spawn D (spawn_request_for C c spec img) (sm_docker s) of
            (Ok (cid, sid), d) \<Rightarrow>
              (Ok (), with_container i (\<lambda>c. c\<lparr>ct_container_id := cid, ct_service_id := sid, ct_status := BOOTSTRAPPING\<rparr>)
                 (s\<lparr>sm_docker := d\<rparr>),
               es @ [container_event ''CONTAINER_SPAWNED'' c [(''service_name'', JStr (ct_service_name c))] now,
                     Starts (Poll_Thread i (now + cc_readiness_timeout C))])
          | (_, d) \<Rightarrow> (Ok (), with_container i crash_container (s\<lparr>sm_docker := d\<rparr>), es)))"

text \<open>One round of the poll: whether the thread goes on, and what it did.\<close>

definition poll_readiness ::
  "container_config \<Rightarrow> nat \<Rightarrow> flt \<Rightarrow> flt \<Rightarrow> bool \<Rightarrow> ('d, 'x) summoner_scheme \<Rightarrow>
   bool \<times> ('d, 'x) summoner_scheme \<times> container_effect list" where
  "poll_readiness C i deadline now healthy s =
    (let c = the_container s i; name = (''service_name'', JStr (ct_service_name c)) in
     if now < deadline then
       (if ct_dead c then (False, s, [])
        else if healthy then
          (False, with_container i (\<lambda>c. c\<lparr>ct_status := READY, ct_ready_event := True\<rparr>) s,
           [container_event ''CONTAINER_READY'' c [name] now])
        else (True, s, []))
     else
       (False, with_container i crash_container s,
        [container_event ''CONTAINER_CRASHED'' c [name, (''error_message'',
           JStr (''container did not become ready within '' @ str_float (cc_readiness_timeout C) @ ''s''))] now]))"

section \<open>The names of containers\<close>

lemma label_char_dash: "label_char (CHR ''-'')" "label_char (CHR ''v'')" "label_char (CHR ''p'')" "label_char (CHR ''f'')"
  "label_char (CHR ''n'')"
  by (simp_all add: label_char_def)

lemma label_char_digit: "is_digit c \<Longrightarrow> label_char c"
  by (auto simp: is_digit_def label_char_def Let_def)

lemma label_str_nat: "list_all label_char (str_nat n)"
  by (auto simp: list_all_iff intro: label_char_digit str_nat_is_digit)

lemma label_str_int: "list_all label_char (str_int i)"
  using label_str_nat by (auto simp: str_int_def label_char_dash)

lemma label_slug: "list_all label_char (slug_of f)"
proof -
  have "set (py_strip_char c s) \<subseteq> set s" for c s
    by (auto simp: py_strip_char_def dest!: set_dropWhileD)
  then show ?thesis
    by (fastforce simp: slug_of_def Let_def list_all_iff label_char_dash)
qed

lemma set_py_take: "set (py_take n xs) \<subseteq> set xs"
  by (auto simp: py_take_def dest: in_set_takeD)

text \<open>The digits at the end of a name, and what stands before them.\<close>

lemma digits_at_end:
  assumes "\<not> is_digit c"
  shows "takeWhile is_digit (rev (a @ c # str_nat n)) = rev (str_nat n)"
    "dropWhile is_digit (rev (a @ c # str_nat n)) = c # rev a"
proof -
  have "list_all is_digit (rev (str_nat n))" by (auto simp: list_all_iff intro: str_nat_is_digit)
  then show "takeWhile is_digit (rev (a @ c # str_nat n)) = rev (str_nat n)"
    "dropWhile is_digit (rev (a @ c # str_nat n)) = c # rev a"
    using assms by (simp_all add: list_all_iff takeWhile_append2 dropWhile_append2)
qed

lemma number_at_end:
  assumes "\<not> is_digit c" "\<not> is_digit c'" "a @ c # str_nat n = a' @ c' # str_nat n'"
  shows "n = n' \<and> c = c' \<and> a = a'"
proof -
  have "rev (str_nat n) = rev (str_nat n')" "c # rev a = c' # rev a'"
    using digits_at_end [OF assms(1), of a n] digits_at_end [OF assms(2), of a' n'] assms(3) by metis+
  then show ?thesis by (simp add: str_nat_inj)
qed

lemma pool_suffix_cases:
  assumes "0 \<le> v"
  obtains "p \<le> 0" "pool_suffix v p = ''-'' @ CHR ''v'' # str_nat (nat v)"
  | "0 < p" "pool_suffix v p = (''-v'' @ str_nat (nat v) @ ''-'') @ CHR ''p'' # str_nat (nat p)"
  using assms by (cases "0 < p") (simp_all add: pool_suffix_def str_int_def)

lemma pool_suffix_inject:
  assumes "0 \<le> v" "0 \<le> p" "0 \<le> v'" "0 \<le> p'" "a @ pool_suffix v p = a' @ pool_suffix v' p'"
  shows "v = v' \<and> p = p'"
proof -
  have nd: "\<not> is_digit (CHR ''v'')" "\<not> is_digit (CHR ''p'')" "\<not> is_digit (CHR ''-'')" by (simp_all add: is_digit_def)
  note number = number_at_end [OF nd(1) nd(1)] number_at_end [OF nd(1) nd(2)] number_at_end [OF nd(2) nd(1)]
    number_at_end [OF nd(2) nd(2)]
  show ?thesis
  proof (cases rule: pool_suffix_cases [OF assms(1), of p]; cases rule: pool_suffix_cases [OF assms(3), of p'])
    assume small: "p \<le> 0" "p' \<le> 0" and s: "pool_suffix v p = ''-'' @ CHR ''v'' # str_nat (nat v)"
      "pool_suffix v' p' = ''-'' @ CHR ''v'' # str_nat (nat v')"
    have "(a @ ''-'') @ CHR ''v'' # str_nat (nat v) = (a' @ ''-'') @ CHR ''v'' # str_nat (nat v')"
      using assms(5) unfolding s by simp
    with small show ?thesis using number(1) [of "a @ ''-''" "nat v" "a' @ ''-''" "nat v'"] assms by (simp add: eq_nat_nat_iff)
  next
    assume s: "pool_suffix v p = ''-'' @ CHR ''v'' # str_nat (nat v)"
      "pool_suffix v' p' = (''-v'' @ str_nat (nat v') @ ''-'') @ CHR ''p'' # str_nat (nat p')"
    then show ?thesis
      using number(2) [of "a @ ''-''" "nat v" "a' @ ''-v'' @ str_nat (nat v') @ ''-''" "nat p'"] assms(5) by simp
  next
    assume s: "pool_suffix v p = (''-v'' @ str_nat (nat v) @ ''-'') @ CHR ''p'' # str_nat (nat p)"
      "pool_suffix v' p' = ''-'' @ CHR ''v'' # str_nat (nat v')"
    then show ?thesis
      using number(3) [of "a @ ''-v'' @ str_nat (nat v) @ ''-''" "nat p" "a' @ ''-''" "nat v'"] assms(5) by simp
  next
    assume "0 < p" "0 < p'"
      and s: "pool_suffix v p = (''-v'' @ str_nat (nat v) @ ''-'') @ CHR ''p'' # str_nat (nat p)"
      "pool_suffix v' p' = (''-v'' @ str_nat (nat v') @ ''-'') @ CHR ''p'' # str_nat (nat p')"
    then have e: "p = p'" "a @ ''-v'' @ str_nat (nat v) @ ''-'' = a' @ ''-v'' @ str_nat (nat v') @ ''-''"
      using number(4) [of "a @ ''-v'' @ str_nat (nat v) @ ''-''" "nat p" "a' @ ''-v'' @ str_nat (nat v') @ ''-''" "nat p'"]
        assms by auto
    then show ?thesis using number(1) [of "a @ ''-''" "nat v" "a' @ ''-''" "nat v'"] assms by (simp add: eq_nat_nat_iff)
  qed
qed

section \<open>Properties\<close>

text \<open>
  C5: A container's name is a DNS label: letters, digits and dashes, at most 63 of them, as long
  as the numbers in it are not absurdly long; and no two members of the pools of one function,
  of whatever versions, share a name, although the id of the function is cut off.
\<close>

theorem container_name_label:
  assumes "0 \<le> version" "0 \<le> pool_index" "length (str_int version) + length (str_int pool_index) \<le> 56"
  shows "length (sanitize_container_name function_id version pool_index) \<le> 63 \<and>
    list_all label_char (sanitize_container_name function_id version pool_index) \<and>
    (\<forall>v p. 0 \<le> v \<longrightarrow> 0 \<le> p \<longrightarrow> sanitize_container_name function_id v p =
       sanitize_container_name function_id version pool_index \<longrightarrow> v = version \<and> p = pool_index)"
proof (intro conjI allI impI)
  let ?s = "pool_suffix version pool_index"
  have len: "length ?s \<le> 60" using assms(3) by (simp add: pool_suffix_def)
  then show "length (sanitize_container_name function_id version pool_index) \<le> 63"
    by (simp add: sanitize_container_name_def Let_def py_take_def)
  have "list_all label_char ?s" by (simp add: pool_suffix_def label_char_dash label_str_int)
  then show "list_all label_char (sanitize_container_name function_id version pool_index)"
    using label_slug [of function_id] set_py_take
    by (fastforce simp: sanitize_container_name_def Let_def label_char_dash list_all_iff)
next
  fix v p
  assume "0 \<le> v" "0 \<le> p" "sanitize_container_name function_id v p = sanitize_container_name function_id version pool_index"
  then show "v = version" "p = pool_index"
    using assms pool_suffix_inject [of v p version pool_index]
    unfolding sanitize_container_name_def Let_def append_assoc [symmetric] by blast+
qed

lemma container_name_label_witness:
  "sanitize_container_name ''My_Function'' 2 1 = ''fn-my-function-v2-p1'' \<and>
   length (sanitize_container_name ''My_Function'' 2 1) \<le> 63"
proof
  show "sanitize_container_name ''My_Function'' 2 1 = ''fn-my-function-v2-p1''" by code_simp
  have "length (str_int 2) + length (str_int 1) \<le> 56" by code_simp
  then show "length (sanitize_container_name ''My_Function'' 2 1) \<le> 63"
    using container_name_label [of 2 1 "''My_Function''"] by simp
qed

end
