(* ===== verification/Container_Runtime.thy ===== *)
theory Container_Runtime
  imports Container_Pool
begin

text \<open>
  The runtime that runs functions in containers (\<open>service/runtime/container_runtime.py\<close>): where a
  job is placed, the wait for a cold container, the pump of a container, the reaction to a crash
  and to a timeout with its retries, and cancellation. The threads' interleaving is a list of
  actions, each of them one uninterrupted piece of one thread. The scratch folders are left out.
\<close>

section \<open>State\<close>

text \<open>
  A pump thread serves one container: it is about to check the container's status, blocked at its
  queue, or waiting for the outcome of a job since a time and up to a deadline.
\<close>

datatype pump_phase = At_Check | At_Queue | Receiving string job_params flt "flt option" | Ended

record pump_thread =
  pt_container :: nat
  pt_phase :: pump_phase

text \<open>The summoner's state, the retries that jobs used, and the pump threads by service name.\<close>

record 'd container_runtime = "'d summoner" +
  cr_attempts :: "(string, nat) dict"
  cr_pumps :: "(string, pump_thread) dict"

definition container_runtime_init :: "'d \<Rightarrow> 'd container_runtime" where
  "container_runtime_init d = \<lparr>sm_containers = [], sm_handles = [], sm_next = 0, sm_docker = d,
     cr_attempts = [], cr_pumps = []\<rparr>"

text \<open>
  The cluster as the runtime sees it: the leader's decision on growth, which may depend on what the
  operation did before it asks, and the forwarding of a job.
\<close>

record placement =
  pl_self :: string
  pl_growth :: "container_effect list \<Rightarrow> string \<Rightarrow> int \<Rightarrow> int \<Rightarrow> slot_decision res"
  pl_forward :: "string \<Rightarrow> storage_key \<Rightarrow> string \<Rightarrow> job_params \<Rightarrow> unit res"

text \<open>What the runtime is built with; the placement is missing until the application attaches it.\<close>

record 'd runtime_env =
  re_config :: container_config
  re_docker :: "'d docker"
  re_catalog :: catalog
  re_lossy :: "bytes \<Rightarrow> string"

type_synonym ('d, 'a) runtime_op =
  "'d container_runtime \<Rightarrow> 'a res \<times> 'd container_runtime \<times> container_effect list"

definition and_then_op :: "('d, 'a) runtime_op \<Rightarrow> ('a \<Rightarrow> ('d, 'b) runtime_op) \<Rightarrow> ('d, 'b) runtime_op" where
  "and_then_op f g s =
    (case f s of
       (Ok x, s, es) \<Rightarrow> (case g x s of (r, s, es') \<Rightarrow> (r, s, es @ es'))
     | (Err e, s, es) \<Rightarrow> (Err e, s, es)
     | (Raise ex, s, es) \<Rightarrow> (Raise ex, s, es))"

fun each_op :: "('a \<Rightarrow> ('d, unit) runtime_op) \<Rightarrow> 'a list \<Rightarrow> ('d, unit) runtime_op" where
  "each_op f [] s = (Ok (), s, [])"
| "each_op f (x # xs) s = and_then_op (f x) (\<lambda>_. each_op f xs) s"

definition handle_of :: "container \<Rightarrow> string \<Rightarrow> flt option \<Rightarrow> invocation_handle" where
  "handle_of c job started = \<lparr>ih_job_id = job, ih_function_id = ct_function_id c, ih_version = Some (ct_version c),
     ih_started_at = started\<rparr>"

section \<open>Dispatch\<close>

definition pump_alive :: "pump_thread option \<Rightarrow> bool" where
  "pump_alive t = (case t of None \<Rightarrow> False | Some p \<Rightarrow> pt_phase p \<noteq> Ended)"

definition ensure_pump :: "nat \<Rightarrow> 'd container_runtime \<Rightarrow> 'd container_runtime" where
  "ensure_pump i s =
    (let name = ct_service_name (the_container s i) in
     if pump_alive (map_of (cr_pumps s) name) then s
     else s\<lparr>cr_pumps := dput name \<lparr>pt_container = i, pt_phase = At_Check\<rparr> (cr_pumps s)\<rparr>)"

definition enqueue_job :: "nat \<Rightarrow> string \<Rightarrow> job_params \<Rightarrow> flt \<Rightarrow> 'd container_runtime \<Rightarrow> 'd container_runtime" where
  "enqueue_job i job params now = with_container i (\<lambda>c. c\<lparr>ct_status := BUSY, ct_last_used := now,
     ct_invocation_count := ct_invocation_count c + 1, ct_queue := ct_queue c @ [(job, params)]\<rparr>)"

text \<open>The thread of a cold dispatch, once the container's event is set or its wait has timed out.\<close>

definition dispatch_once_ready ::
  "nat \<Rightarrow> string \<Rightarrow> job_params \<Rightarrow> flt \<Rightarrow> 'd container_runtime \<Rightarrow> 'd container_runtime \<times> container_effect list" where
  "dispatch_once_ready i job params now s =
    (let c = the_container s i in
     if \<not> ct_ready_event c \<or> ct_dead c then
       (s, [Completes (handle_of c job None)
          (Err (AxoErr ContainerError (''container for '' @ py_repr (ct_function_id c) @ '' did not become ready''))) []])
     else (enqueue_job i job params now (ensure_pump i s), []))"

definition dispatch ::
  "nat \<Rightarrow> string \<Rightarrow> job_params \<Rightarrow> flt \<Rightarrow> 'd container_runtime \<Rightarrow> 'd container_runtime \<times> container_effect list" where
  "dispatch i job params now s =
    (let c = the_container s i in
     if ct_ready_event c \<and> \<not> ct_dead c then (enqueue_job i job params now (ensure_pump i s), [])
     else ((if ct_dead c then s else with_container i (\<lambda>c. c\<lparr>ct_status := BUSY\<rparr>) s),
           [Starts (Dispatch_Thread i job params)]))"

section \<open>Placement\<close>

definition invocation_error :: "string \<Rightarrow> axo_error" where
  "invocation_error text = AxoErr InvocationError text"

definition key_pool :: "storage_key \<Rightarrow> pool" where
  "key_pool key = (sk_id key, case sk_version key of None \<Rightarrow> 0 | Some v \<Rightarrow> v)"

text \<open>An attribute of a missing specification raises \<open>AttributeError\<close>.\<close>

definition with_spec :: "runtime_spec option \<Rightarrow> (runtime_spec \<Rightarrow> ('d, 'a) runtime_op) \<Rightarrow> ('d, 'a) runtime_op" where
  "with_spec spec f s = (case spec of None \<Rightarrow> (Raise AttributeError, s, []) | Some x \<Rightarrow> f x s)"

definition place_job ::
  "'d runtime_env \<Rightarrow> placement \<Rightarrow> storage_key \<Rightarrow> string \<Rightarrow> job_params \<Rightarrow> runtime_spec \<Rightarrow> flt \<Rightarrow>
   slot_decision \<Rightarrow> ('d, nat option) runtime_op" where
  "place_job V P key job params spec now decision s =
    (case decision of
       Retry \<Rightarrow> (Err (invocation_error ''cluster concurrency ledger is mid-reconciliation, retry shortly''), s, [])
     | Granted idx \<Rightarrow>
         (case summon_at (re_config V) (re_docker V) (key_pool key) spec idx now s of (i, s, es) \<Rightarrow> (Ok (Some i), s, es))
     | Place target \<Rightarrow>
         (if target = pl_self P then
            (case least_busy (key_pool key) s of
               None \<Rightarrow> (Err (invocation_error ''leader named this endpoint as owner but no local container exists''), s, [])
             | Some i \<Rightarrow> (Ok (Some i), s, []))
          else
            (case pl_forward P target key job params of
               Raise ex \<Rightarrow> (Raise ex, s, [])
             | Err e \<Rightarrow> (Err (invocation_error (err_msg e)), s, [])
             | Ok _ \<Rightarrow> (Ok None, s, [Forwards job target]))))"

definition grow_or_place ::
  "'d runtime_env \<Rightarrow> placement \<Rightarrow> container_effect list \<Rightarrow> storage_key \<Rightarrow> string \<Rightarrow> job_params \<Rightarrow> runtime_spec \<Rightarrow> flt \<Rightarrow>
   ('d, nat option) runtime_op" where
  "grow_or_place V P before key job params spec now s =
    (case key_pool key of
       (f, v) \<Rightarrow>
         (case pl_growth P before f v (rs_max_concurrency spec) of
            Raise ex \<Rightarrow> (Raise ex, s, [Asks f v (rs_max_concurrency spec)])
          | Err e \<Rightarrow> (Err (invocation_error (err_msg e)), s, [Asks f v (rs_max_concurrency spec)])
          | Ok decision \<Rightarrow>
              (case place_job V P key job params spec now decision s of
                 (r, s, es) \<Rightarrow> (r, s, Asks f v (rs_max_concurrency spec) # es))))"

definition resolve_placement ::
  "'d runtime_env \<Rightarrow> placement \<Rightarrow> storage_key \<Rightarrow> string \<Rightarrow> job_params \<Rightarrow> runtime_spec option \<Rightarrow> flt \<Rightarrow>
   ('d, nat option) runtime_op" where
  "resolve_placement V P key job params spec now s =
    (case find_idle (re_docker V) (key_pool key) now s of
       (Some i, s, es) \<Rightarrow> (Ok (Some i), s, es)
     | (None, s, es) \<Rightarrow>
         (case with_spec spec (\<lambda>spec. grow_or_place V P es key job params spec now) s of
            (r, s, es') \<Rightarrow> (r, s, es @ es')))"

definition choose_container ::
  "'d runtime_env \<Rightarrow> placement option \<Rightarrow> storage_key \<Rightarrow> string \<Rightarrow> job_params \<Rightarrow> runtime_spec option \<Rightarrow> flt \<Rightarrow>
   ('d, nat option) runtime_op" where
  "choose_container V P key job params spec now =
    (case P of
       None \<Rightarrow> with_spec spec (\<lambda>spec s.
         case summon (re_config V) (re_docker V) (key_pool key) spec now s of (i, s, es) \<Rightarrow> (Ok (Some i), s, es))
     | Some P \<Rightarrow> resolve_placement V P key job params spec now)"

definition crt_invoke ::
  "'d runtime_env \<Rightarrow> placement option \<Rightarrow> storage_key \<Rightarrow> string \<Rightarrow> job_params \<Rightarrow> flt \<Rightarrow>
   ('d, invocation_handle) runtime_op" where
  "crt_invoke V P key job params now s =
    (case re_catalog V key of
       Raise ex \<Rightarrow> (Raise ex, s, [])
     | Ok (Some r) \<Rightarrow>
         and_then_op (choose_container V P key job params (fr_runtime_spec r) now) (\<lambda>chosen s.
           case (case chosen of None \<Rightarrow> (s, []) | Some i \<Rightarrow> dispatch i job params now s) of
             (s, es) \<Rightarrow> (Ok \<lparr>ih_job_id = job, ih_function_id = sk_id key, ih_version = sk_version key,
                           ih_started_at = None\<rparr>, s, es)) s
     | _ \<Rightarrow> (Err (invocation_error (''function '' @ py_repr (sk_id key) @ '' not found'')), s, []))"

section \<open>Crashes, timeouts and retries\<close>

definition max_retries_for :: "catalog \<Rightarrow> string \<Rightarrow> int option \<Rightarrow> int res" where
  "max_retries_for get_fn function_id version =
    (case get_fn (StorageKey function_id version (Some function_id)) of
       Raise ex \<Rightarrow> Raise ex
     | Ok (Some r) \<Rightarrow> Ok (case fr_runtime_spec r of None \<Rightarrow> 0 | Some s \<Rightarrow> max 0 (rs_max_retries s))
     | _ \<Rightarrow> Ok 0)"

definition retry_or_finalize ::
  "'d runtime_env \<Rightarrow> axo_error \<Rightarrow> invocation_handle \<times> job_params \<Rightarrow> ('d, unit) runtime_op" where
  "retry_or_finalize V e job_params s =
    (case job_params of
       (h, params) \<Rightarrow>
         (let job = ih_job_id h in
          case max_retries_for (re_catalog V) (ih_function_id h) (ih_version h) of
            Raise ex \<Rightarrow> (Raise ex, s, [])
          | Err x \<Rightarrow> (Err x, s, [])
          | Ok m \<Rightarrow>
              (let attempts = dget (cr_attempts s) job 0 in
               if int attempts < m then
                 (Ok (), s\<lparr>cr_attempts := dput job (attempts + 1) (cr_attempts s)\<rparr>,
                  [Starts (Retry_Thread (StorageKey (ih_function_id h) (ih_version h) (Some (ih_function_id h))) job params)])
               else (Ok (), s\<lparr>cr_attempts := dpop job (cr_attempts s)\<rparr>, [Completes h (Err e) []]))))"

definition perform_retry ::
  "'d runtime_env \<Rightarrow> placement option \<Rightarrow> storage_key \<Rightarrow> string \<Rightarrow> job_params \<Rightarrow> flt \<Rightarrow> ('d, unit) runtime_op" where
  "perform_retry V P key job params now s =
    (case crt_invoke V P key job params now s of
       (Ok _, s, es) \<Rightarrow> (Ok (), s, es)
     | (Raise ex, s, es) \<Rightarrow> (Raise ex, s, es)
     | (Err e, s, es) \<Rightarrow>
         (Ok (), s\<lparr>cr_attempts := dpop job (cr_attempts s)\<rparr>,
          es @ [Completes \<lparr>ih_job_id = job, ih_function_id = sk_id key, ih_version = sk_version key, ih_started_at = None\<rparr>
             (Err e) []]))"

definition release_effect :: "placement option \<Rightarrow> container \<Rightarrow> container_effect list" where
  "release_effect P c =
    (case P of None \<Rightarrow> [] | Some _ \<Rightarrow> [Releases (ct_function_id c) (ct_version c) (ct_pool_index c)])"

text \<open>The common part of the three ends: the container is dismissed and its slot released.\<close>

definition tear_down ::
  "'d runtime_env \<Rightarrow> placement option \<Rightarrow> nat \<Rightarrow> string \<Rightarrow> flt \<Rightarrow> 'd container_runtime \<Rightarrow>
   'd container_runtime \<times> container_effect list" where
  "tear_down V P i reason now s =
    (case dismiss (re_docker V) i reason now (with_container i (\<lambda>c. c\<lparr>ct_status := CRASHED\<rparr>) s) of
       (s, es) \<Rightarrow> (s, es @ release_effect P (the_container s i)))"

definition drain_jobs_of :: "nat \<Rightarrow> 'd container_runtime \<Rightarrow> (string \<times> job_params) list \<times> 'd container_runtime" where
  "drain_jobs_of i s = (ct_queue (the_container s i), with_container i (\<lambda>c. c\<lparr>ct_queue := []\<rparr>) s)"

text \<open>The job in flight is retried or failed first, then those that were queued behind it.\<close>

definition end_container ::
  "'d runtime_env \<Rightarrow> placement option \<Rightarrow> nat \<Rightarrow> string \<Rightarrow> axo_error \<Rightarrow> axo_error \<Rightarrow> invocation_handle \<Rightarrow> job_params \<Rightarrow> flt \<Rightarrow>
   ('d, unit) runtime_op" where
  "end_container V P i reason e sibling_error h params now s =
    (if ct_dead (the_container s i) then (Ok (), s, [])
     else
       (case tear_down V P i reason now s of
          (s, es) \<Rightarrow>
            (case and_then_op (retry_or_finalize V e (h, params)) (\<lambda>_ s.
               case drain_jobs_of i s of
                 (queued, s) \<Rightarrow> each_op (retry_or_finalize V sibling_error)
                   (map (\<lambda>(job, ps). (handle_of (the_container s i) job None, ps)) queued) s) s of
               (r, s, es') \<Rightarrow> (r, s, es @ es'))))"

definition container_crash :: "string \<Rightarrow> axo_error" where
  "container_crash text = AxoErr ContainerCrashError text"

definition handle_container_crash ::
  "'d runtime_env \<Rightarrow> placement option \<Rightarrow> nat \<Rightarrow> invocation_handle \<Rightarrow> string \<Rightarrow> job_params \<Rightarrow> flt \<Rightarrow> ('d, unit) runtime_op" where
  "handle_container_crash V P i h reason params now =
    end_container V P i ''crashed'' (container_crash reason) (container_crash reason) h params now"

definition handle_container_timeout ::
  "'d runtime_env \<Rightarrow> placement option \<Rightarrow> nat \<Rightarrow> invocation_handle \<Rightarrow> job_params \<Rightarrow> flt \<Rightarrow> ('d, unit) runtime_op" where
  "handle_container_timeout V P i h params now s =
    end_container V P i ''timeout''
      (AxoErr JobTimeoutError (''job exceeded max_duration_seconds='' @ str_float (ct_max_duration (the_container s i))))
      (container_crash (''container recycled after a sibling job'' @ [CHR 0x27] @ ''s timeout'')) h params now s"
section \<open>The pump\<close>

definition with_pump :: "string \<Rightarrow> pump_phase \<Rightarrow> 'd container_runtime \<Rightarrow> 'd container_runtime" where
  "with_pump name ph s =
    (case map_of (cr_pumps s) name of
       None \<Rightarrow> s
     | Some t \<Rightarrow> s\<lparr>cr_pumps := dput name (t\<lparr>pt_phase := ph\<rparr>) (cr_pumps s)\<rparr>)"

definition pump_check :: "string \<Rightarrow> 'd container_runtime \<Rightarrow> 'd container_runtime" where
  "pump_check name s =
    (case map_of (cr_pumps s) name of
       Some t \<Rightarrow>
         (if pt_phase t = At_Check
          then with_pump name (if ct_dead (the_container s (pt_container t)) then Ended else At_Queue) s else s)
     | None \<Rightarrow> s)"

definition container_deadline :: "container \<Rightarrow> flt \<Rightarrow> flt option" where
  "container_deadline c now = (if 0 < ct_max_duration c then Some (now + ct_max_duration c) else None)"

definition started_event :: "container \<Rightarrow> string \<Rightarrow> job_params \<Rightarrow> flt \<Rightarrow> container_effect" where
  "started_event c job params now = Emits \<lparr>ev_type = ''JOB_STARTED'',
     ev_payload = [(''job_id'', JStr job), (''function_id'', JStr (ct_function_id c)),
       (''function_version'', JInt (ct_version c)), (''params'', JObj params)], ev_time = now\<rparr>"

text \<open>
  What ends the thread with a call of its own: \<open>break\<close> after the crash or the timeout was handled;
  an exception ends it as well.
\<close>

definition pump_over ::
  "string \<Rightarrow> unit res \<times> 'd container_runtime \<times> container_effect list \<Rightarrow> 'd container_runtime \<times> container_effect list" where
  "pump_over name x = (case x of (_, s, es) \<Rightarrow> (with_pump name Ended s, es))"

text \<open>The wait of one second at the queue is over, with a job or without; sending it may fail.\<close>

definition pump_get ::
  "'d runtime_env \<Rightarrow> placement option \<Rightarrow> string \<Rightarrow> string option \<Rightarrow> flt \<Rightarrow> 'd container_runtime \<Rightarrow>
   'd container_runtime \<times> container_effect list" where
  "pump_get V P name send_error now s =
    (case map_of (cr_pumps s) name of
       Some t \<Rightarrow>
         (if pt_phase t = At_Queue then
            (let i = pt_container t; c = the_container s i in
             case ct_queue c of
               [] \<Rightarrow> (with_pump name At_Check
                        (with_container i (\<lambda>c. if ct_status c = BUSY then c\<lparr>ct_status := IDLE\<rparr> else c) s), [])
             | (job, params) # q \<Rightarrow>
                 (let s = with_container i (\<lambda>c. c\<lparr>ct_queue := q, ct_current_job := Some job\<rparr>) s in
                  case send_error of
                    Some text \<Rightarrow> pump_over name (handle_container_crash V P i (handle_of c job None) text params now s)
                  | None \<Rightarrow> (with_pump name (Receiving job params now (container_deadline c now)) s,
                             [started_event c job params now])))
          else (s, []))
     | None \<Rightarrow> (s, []))"

text \<open>What a wait for the socket brings: nothing within its second, an error, or frames.\<close>

datatype socket_event = Quiet bool | Broken string | Frames "bytes list"

text \<open>The warnings are a list of texts, as the runner sends them; other JSON counts as none.\<close>

definition parse_warnings :: "bytes \<Rightarrow> string list" where
  "parse_warnings b =
    (case loads_bytes b of
       Ok (JList js) \<Rightarrow> (case those (map (\<lambda>j. case j of JStr t \<Rightarrow> Some t | _ \<Rightarrow> None) js) of Some ts \<Rightarrow> ts | None \<Rightarrow> [])
     | _ \<Rightarrow> [])"

definition lossy_text :: "'d runtime_env \<Rightarrow> bytes \<Rightarrow> string" where
  "lossy_text V b = (case utf8_decode b of Some t \<Rightarrow> t | None \<Rightarrow> re_lossy V b)"

definition container_outcome :: "'d runtime_env \<Rightarrow> string \<Rightarrow> bytes \<Rightarrow> py_value res" where
  "container_outcome V status body =
    (if status = ''ok'' then Ok (case loads_bytes body of Ok j \<Rightarrow> VJson j | _ \<Rightarrow> VBytes body)
     else Err (AxoErr FunctionRuntimeError (lossy_text V body)))"

definition receive_outcome ::
  "'d runtime_env \<Rightarrow> string \<Rightarrow> nat \<Rightarrow> invocation_handle \<Rightarrow> bytes \<Rightarrow> bytes \<Rightarrow> bytes \<Rightarrow> 'd container_runtime \<Rightarrow>
   'd container_runtime \<times> container_effect list" where
  "receive_outcome V name i h status body warnings s =
    (case utf8_decode status of
       None \<Rightarrow> (with_pump name Ended s, [])
     | Some st \<Rightarrow>
         (with_pump name At_Check (with_container i (\<lambda>c. c\<lparr>ct_current_job := None, ct_status := IDLE\<rparr>)
            (s\<lparr>cr_attempts := dpop (ih_job_id h) (cr_attempts s)\<rparr>)),
          [Completes h (container_outcome V st body) (parse_warnings warnings)]))"

definition parse_io_request :: "bytes \<Rightarrow> bytes \<Rightarrow> (string \<times> io_ref) res" where
  "parse_io_request op ref =
    (case utf8_decode op of
       None \<Rightarrow> Raise UnicodeDecodeError
     | Some o' \<Rightarrow> bind_res (loads_bytes ref) (\<lambda>j.
         case j of JObj d \<Rightarrow> bind_res (io_ref_from_dict d) (\<lambda>r. Ok (o', r)) | _ \<Rightarrow> Raise TypeError))"

text \<open>
  One round of the wait for the outcome. An \<open>io_request\<close> is served on the data registry; its reply
  is not kept here, only whether sending it failed.
\<close>

definition pump_receive ::
  "'d runtime_env \<Rightarrow> ('c, 'b) data_env \<Rightarrow> placement option \<Rightarrow> string \<Rightarrow> socket_event \<Rightarrow> string option \<Rightarrow> flt \<Rightarrow>
   'd container_runtime \<times> ('c, 'b) data_state \<Rightarrow>
   ('d container_runtime \<times> ('c, 'b) data_state) \<times> container_effect list" where
  "pump_receive V E P name what send_error now s_st =
    (let s = fst s_st; st = snd s_st; keep = (\<lambda>r. ((fst r, st), snd r)) in
     case map_of (cr_pumps s) name of
       None \<Rightarrow> ((s, st), [])
     | Some t \<Rightarrow>
         (case pt_phase t of
            Receiving job params started deadline \<Rightarrow>
              (let i = pt_container t; c = the_container s i; h = handle_of c job (Some started);
                   crash = (\<lambda>text s. pump_over name (handle_container_crash V P i h text params now s)) in
               case what of
                 Quiet disconnected \<Rightarrow>
                   (if disconnected then keep (crash ''container disconnected (heartbeat timeout)'' s)
                    else (case deadline of
                            Some d \<Rightarrow> if d < now then keep (pump_over name (handle_container_timeout V P i h params now s))
                                      else ((s, st), [])
                          | None \<Rightarrow> ((s, st), [])))
               | Broken text \<Rightarrow> keep (crash text s)
               | Frames [] \<Rightarrow> keep (crash ''empty frame from container'' s)
               | Frames (tag # fs) \<Rightarrow>
                   (if tag = ''result'' then
                      (case fs of
                         [_, status, body, warnings] \<Rightarrow> keep (receive_outcome V name i h status body warnings s)
                       | _ \<Rightarrow> keep (crash ''unexpected frame count for result'' s))
                    else if tag = ''io_request'' then
                      (case fs of
                         [_, op, ref, data] \<Rightarrow>
                           (case parse_io_request op ref of
                              Ok (o', r) \<Rightarrow>
                                (case resolve_io_request E True o' r (if data = [] then None else Some data) now st of
                                   (Raise ex, st, evs) \<Rightarrow> ((with_pump name Ended s, st), map Emits evs)
                                 | (_, st, evs) \<Rightarrow>
                                     (case send_error of
                                        None \<Rightarrow> ((s, st), map Emits evs)
                                      | Some text \<Rightarrow>
                                          (case crash text s of (s, es) \<Rightarrow> ((s, st), map Emits evs @ es))))
                            | _ \<Rightarrow> ((with_pump name Ended s, st), []))
                       | _ \<Rightarrow> keep (crash ''unexpected frame count for io_request'' s))
                    else keep (crash (''unexpected tag b'' @ py_repr tag @ '' from container'') s)))
          | _ \<Rightarrow> ((s, st), [])))"

section \<open>Cancellation\<close>

fun cancel_in ::
  "'d runtime_env \<Rightarrow> placement option \<Rightarrow> string \<Rightarrow> flt \<Rightarrow> nat list \<Rightarrow> 'd container_runtime \<Rightarrow>
   bool \<times> 'd container_runtime \<times> container_effect list" where
  "cancel_in V P job now [] s = (False, s, [])"
| "cancel_in V P job now (i # is) s =
    (let c = the_container s i in
     if ct_current_job c = Some job then
       (case tear_down V P i ''cancelled'' now s of
          (s, es) \<Rightarrow>
            (case drain_jobs_of i (s\<lparr>cr_attempts := dpop job (cr_attempts s)\<rparr>) of
               (queued, s) \<Rightarrow>
                 (True, s, es @ Completes (handle_of c job None) (Err (AxoErr JobCancelledError ''job was cancelled'')) [] #
                    map (\<lambda>(j, _). Completes (handle_of c j None)
                      (Err (container_crash ''container dismissed to cancel a sibling job'')) []) queued)))
     else if job \<in> fst ` set (ct_queue c) then
       (True, with_container i (\<lambda>c. c\<lparr>ct_queue := filter (\<lambda>(j, _). j \<noteq> job) (ct_queue c)\<rparr>) s,
        [Completes (handle_of c job None) (Err (AxoErr JobCancelledError ''job was cancelled before it started'')) []])
     else cancel_in V P job now is s)"

definition crt_cancel ::
  "'d runtime_env \<Rightarrow> placement option \<Rightarrow> string \<Rightarrow> flt \<Rightarrow> 'd container_runtime \<Rightarrow>
   bool \<times> 'd container_runtime \<times> container_effect list" where
  "crt_cancel V P job now s = cancel_in V P job now (all_members s) s"

section \<open>Runs\<close>

text \<open>
  What the threads of the runtime do, in any order: a submission, one round of a background thread,
  one step of a pump, a cancellation, a sweep.
\<close>

datatype crt_action =
    Submit string int string job_params "placement option" flt
  | Run_Spawn nat runtime_spec flt flt
  | Run_Poll nat flt flt bool
  | Run_Dispatch nat string job_params flt
  | Run_Retry storage_key string job_params "placement option" flt
  | Pump_Check string
  | Pump_Get string "placement option" "string option" flt
  | Pump_Receive string "placement option" socket_event "string option" flt
  | Cancel_Job string "placement option" flt
  | Sweep_Idle_Containers flt flt
  | Sweep_Used_Containers int flt
  | Sweep_Crashed_Containers flt

record ('d, 'c, 'b) crt_run =
  rn_rt :: "'d container_runtime"
  rn_data :: "('c, 'b) data_state"
  rn_threads :: "thread list"
  rn_accepted :: "string list"
  rn_forwarded :: "string list"
  rn_completed :: "(string \<times> py_value res) list"
  rn_effects :: "container_effect list"

definition rn_init :: "'d \<Rightarrow> ('c, 'b) data_state \<Rightarrow> ('d, 'c, 'b) crt_run" where
  "rn_init d st = \<lparr>rn_rt = container_runtime_init d, rn_data = st, rn_threads = [], rn_accepted = [], rn_forwarded = [],
     rn_completed = [], rn_effects = []\<rparr>"

fun note_effect :: "container_effect \<Rightarrow> ('d, 'c, 'b) crt_run \<Rightarrow> ('d, 'c, 'b) crt_run" where
  "note_effect (Completes h r ws) u = u\<lparr>rn_completed := rn_completed u @ [(ih_job_id h, r)]\<rparr>"
| "note_effect (Forwards job target) u = u\<lparr>rn_forwarded := rn_forwarded u @ [job]\<rparr>"
| "note_effect (Starts t) u = u\<lparr>rn_threads := rn_threads u @ [t]\<rparr>"
| "note_effect _ u = u"

definition note_all :: "'d container_runtime \<times> container_effect list \<Rightarrow> ('d, 'c, 'b) crt_run \<Rightarrow> ('d, 'c, 'b) crt_run" where
  "note_all x u = fold (\<lambda>e u. note_effect e (u\<lparr>rn_effects := rn_effects u @ [e]\<rparr>)) (snd x) (u\<lparr>rn_rt := fst x\<rparr>)"

definition thread_done :: "thread \<Rightarrow> ('d, 'c, 'b) crt_run \<Rightarrow> ('d, 'c, 'b) crt_run" where
  "thread_done t u = u\<lparr>rn_threads := remove1 t (rn_threads u)\<rparr>"

fun crt_step :: "'d runtime_env \<Rightarrow> ('c, 'b) data_env \<Rightarrow> crt_action \<Rightarrow> ('d, 'c, 'b) crt_run \<Rightarrow> ('d, 'c, 'b) crt_run" where
  "crt_step V E (Submit f v job params P now) u =
    (case crt_invoke V P (ckey (f, v)) job params now (rn_rt u) of
       (r, s, es) \<Rightarrow> note_all (s, es) (if is_ok r then u\<lparr>rn_accepted := rn_accepted u @ [job]\<rparr> else u))"
| "crt_step V E (Run_Spawn i spec now ms) u =
    (if Spawn_Thread i spec \<in> set (rn_threads u)
     then (case spawn_in_background (re_config V) (re_docker V) i spec now ms (rn_rt u) of
             (_, s, es) \<Rightarrow> note_all (s, es) (thread_done (Spawn_Thread i spec) u)) else u)"
| "crt_step V E (Run_Poll i deadline now healthy) u =
    (if Poll_Thread i deadline \<in> set (rn_threads u)
     then (case poll_readiness (re_config V) i deadline now healthy (rn_rt u) of
             (goes_on, s, es) \<Rightarrow> note_all (s, es) (if goes_on then u else thread_done (Poll_Thread i deadline) u)) else u)"
| "crt_step V E (Run_Dispatch i job params now) u =
    (if Dispatch_Thread i job params \<in> set (rn_threads u)
     then note_all (dispatch_once_ready i job params now (rn_rt u)) (thread_done (Dispatch_Thread i job params) u) else u)"
| "crt_step V E (Run_Retry key job params P now) u =
    (if Retry_Thread key job params \<in> set (rn_threads u)
     then (case perform_retry V P key job params now (rn_rt u) of
             (_, s, es) \<Rightarrow> note_all (s, es) (thread_done (Retry_Thread key job params) u)) else u)"
| "crt_step V E (Pump_Check name) u = u\<lparr>rn_rt := pump_check name (rn_rt u)\<rparr>"
| "crt_step V E (Pump_Get name P send_error now) u = note_all (pump_get V P name send_error now (rn_rt u)) u"
| "crt_step V E (Pump_Receive name P what send_error now) u =
    (case pump_receive V E P name what send_error now (rn_rt u, rn_data u) of
       ((s, st), es) \<Rightarrow> note_all (s, es) (u\<lparr>rn_data := st\<rparr>))"
| "crt_step V E (Cancel_Job job P now) u =
    (case crt_cancel V P job now (rn_rt u) of (_, s, es) \<Rightarrow> note_all (s, es) u)"
| "crt_step V E (Sweep_Idle_Containers ttl now) u = note_all (sweep_idle_containers (re_docker V) ttl now (rn_rt u)) u"
| "crt_step V E (Sweep_Used_Containers m now) u = note_all (sweep_used_containers (re_docker V) m now (rn_rt u)) u"
| "crt_step V E (Sweep_Crashed_Containers now) u = note_all (sweep_crashed (re_docker V) now (rn_rt u)) u"

definition crt_run :: "'d runtime_env \<Rightarrow> ('c, 'b) data_env \<Rightarrow> crt_action list \<Rightarrow> ('d, 'c, 'b) crt_run \<Rightarrow> ('d, 'c, 'b) crt_run" where
  "crt_run V E as u = fold (crt_step V E) as u"

end
