(* ===== verification/Container_Faults.thy ===== *)
theory Container_Faults
  imports Container_Runtime
begin

text \<open>
  Where the container runtime loses jobs and containers: runs of its actions after which no thread
  can make progress. A job whose container a sweep took is never reported; a pump that outlives its
  container starves the next container of the same name; an image build that fails in an unexpected
  way occupies a slot for good; and a cold container does not keep its claim.
\<close>

section \<open>A small installation\<close>

definition sample_docker :: "unit docker" where
  "sample_docker = \<lparr>dk_create_service = (\<lambda>_ d. (Docker_Ok ''s'', d)), dk_remove_service = (\<lambda>_ d. (Docker_Ok (), d)),
     dk_run_container = (\<lambda>_ d. (Docker_Ok ''c'', d)), dk_stop_container = (\<lambda>_ d. (Docker_Ok (), d)),
     dk_remove_container = (\<lambda>_ d. (Docker_Ok (), d)), dk_get_image = (\<lambda>_ d. (Docker_Ok (), d)),
     dk_build_image = (\<lambda>_ _ d. (Docker_Ok (), d))\<rparr>"

text \<open>The image is missing, and the daemon refuses to build one.\<close>

definition unbuildable :: "unit docker" where
  "unbuildable = sample_docker\<lparr>dk_get_image := (\<lambda>_ d. (Docker_Not_Found ''no such image'', d)),
     dk_build_image := (\<lambda>_ _ d. (Docker_Error ''server error'', d))\<rparr>"

definition sample_config :: container_config where
  "sample_config = \<lparr>cc_endpoint_id = ''e'', cc_backend = ''docker'', cc_job_port = 1, cc_http_port = 2,
     cc_runner_image = ''r'', cc_auto_build = True, cc_network = ''n'', cc_pip_cache = ''p'', cc_memory_limit = 1,
     cc_cpu_limit = 1000000, cc_result_bind = ''b'', cc_router_bind = ''b'', cc_dataio_timeout = ''5'',
     cc_container_host = None, cc_readiness_timeout = 60\<rparr>"

definition container_spec :: runtime_spec where
  "container_spec = default_spec\<lparr>rs_type := ''container'', rs_max_concurrency := 2, rs_max_retries := 0\<rparr>"

definition container_function :: catalog where
  "container_function key = Ok (Some \<lparr>fr_code = [], fr_function_id = ''f'', fr_name = ''f'', fr_version = 1,
     fr_created_at = 0, fr_state = REGISTERED, fr_runtime_spec = Some container_spec, fr_code_format = ''source'',
     fr_params_schema = None\<rparr>)"

definition installation :: "'d docker \<Rightarrow> 'd runtime_env" where
  "installation D = \<lparr>re_config = sample_config, re_docker = D, re_catalog = container_function, re_lossy = (\<lambda>b. b)\<rparr>"

definition leader_says :: "slot_decision \<Rightarrow> placement option" where
  "leader_says d = Some \<lparr>pl_self = ''e'', pl_growth = (\<lambda>_ _ _ _. Ok d), pl_forward = (\<lambda>_ _ _ _. Ok ())\<rparr>"

type_synonym sample_run = "(unit, data_record mem, file_tree) crt_run"

definition run_containers :: "unit docker \<Rightarrow> crt_action list \<Rightarrow> sample_run" where
  "run_containers D as = crt_run (installation D) sample_env as (rn_init () sample_data)"

text \<open>A job that found no container runs in a new one.\<close>

definition cold_start :: "nat \<Rightarrow> string \<Rightarrow> crt_action list" where
  "cold_start i job = [Submit ''f'' 1 job [] (leader_says (Granted 0)) 0, Run_Spawn i container_spec 1 0,
     Run_Poll i 61 2 True, Run_Dispatch i job [] 3]"

definition sent_ok :: "string \<Rightarrow> socket_event" where
  "sent_ok job = Frames [''result'', job, ''ok'', ''1'', ''[]'']"

section \<open>When nothing moves any more\<close>

text \<open>The rounds of the background threads and of the pumps.\<close>

fun thread_action :: "crt_action \<Rightarrow> bool" where
  "thread_action (Submit f v job ps P now) = False"
| "thread_action (Cancel_Job job P now) = False"
| "thread_action (Sweep_Idle_Containers ttl now) = False"
| "thread_action (Sweep_Used_Containers m now) = False"
| "thread_action (Sweep_Crashed_Containers now) = False"
| "thread_action _ = True"

definition quiescent :: "('d, 'c, 'b) crt_run \<Rightarrow> bool" where
  "quiescent u \<longleftrightarrow> rn_threads u = [] \<and> list_all (\<lambda>(_, t). pt_phase t = Ended) (cr_pumps (rn_rt u))"

lemma note_nothing [simp]: "note_all (s, []) u = u\<lparr>rn_rt := s\<rparr>"
  by (simp add: note_all_def)

lemma pump_receive_other:
  assumes "\<forall>t. map_of (cr_pumps s) name = Some t \<longrightarrow> pt_phase t = At_Check \<or> pt_phase t = At_Queue \<or> pt_phase t = Ended"
  shows "pump_receive V E P name w e now (s, st) = ((s, st), [])"
  using assms by (auto simp: pump_receive_def Let_def split: option.split)

lemma quiescent_pump: "quiescent u \<Longrightarrow> map_of (cr_pumps (rn_rt u)) name = Some t \<Longrightarrow> pt_phase t = Ended"
  by (auto simp: quiescent_def list_all_iff dest: map_of_SomeD)

lemma quiescent_step:
  assumes "quiescent u" "thread_action a"
  shows "crt_step V E a u = u"
proof (cases a)
  case (Pump_Check name)
  then show ?thesis using quiescent_pump [OF assms(1), of name] by (auto simp: pump_check_def split: option.split)
next
  case (Pump_Get name P e now)
  then show ?thesis using quiescent_pump [OF assms(1), of name] by (auto simp: pump_get_def split: option.split)
next
  case (Pump_Receive name P w e now)
  then show ?thesis using quiescent_pump [OF assms(1), of name] by (simp add: pump_receive_other)
qed (use assms in \<open>simp_all add: quiescent_def\<close>)

lemma quiescent_run: "quiescent u \<Longrightarrow> list_all thread_action as \<Longrightarrow> crt_run V E as u = u"
  by (induction as) (simp_all add: crt_run_def quiescent_step)

section \<open>A sweep takes a running container\<close>

definition swept :: sample_run where
  "swept = run_containers sample_docker
     (cold_start 0 ''a'' @ [Pump_Check ''fn-f-v1'', Pump_Get ''fn-f-v1'' (leader_says Retry) None 4,
      Sweep_Used_Containers 1 5, Pump_Receive ''fn-f-v1'' (leader_says Retry) (Quiet True) None 6])"

lemma swept_state: "quiescent swept" "rn_accepted swept = [''a'']" "rn_completed swept = []" "rn_forwarded swept = []"
  unfolding swept_def quiescent_def by code_simp+

text \<open>
  C6: A sweep loses the job that a container is running. The sweep of containers that reached
  their maximal number of invocations does not ask whether they are busy; the pump of a container
  that was dismissed takes the broken connection for the end of a cancellation and reports
  nothing. The job was accepted and is neither forwarded nor ever completed, whatever the threads
  of the runtime still do.
\<close>

theorem sweep_loses_container_job:
  "rn_accepted swept = [''a''] \<and> rn_forwarded swept = [] \<and>
   (\<forall>as. list_all thread_action as \<longrightarrow> rn_completed (crt_run (installation sample_docker) sample_env as swept) = [])"
  by (simp add: swept_state quiescent_run)

lemma sweep_loses_container_job_witness:
  "rn_completed (crt_run (installation sample_docker) sample_env
     [Pump_Receive ''fn-f-v1'' (leader_says Retry) (sent_ok ''a'') None 7] swept) = []"
  using sweep_loses_container_job by simp

section \<open>A pump that outlives its container\<close>

definition starved :: sample_run where
  "starved = run_containers sample_docker
     (cold_start 0 ''a'' @ [Pump_Check ''fn-f-v1'', Pump_Get ''fn-f-v1'' (leader_says Retry) None 4,
        Cancel_Job ''a'' (leader_says Retry) 5, Pump_Receive ''fn-f-v1'' (leader_says Retry) (sent_ok ''a'') None 6]
      @ cold_start 1 ''b'')"

text \<open>The pump of the name serves the old container, which has no jobs; the new one has one.\<close>

definition starving :: "sample_run \<Rightarrow> bool" where
  "starving u \<longleftrightarrow> rn_threads u = [] \<and>
     (\<exists>t. cr_pumps (rn_rt u) = [(''fn-f-v1'', t)] \<and> pt_container t = 0 \<and> (pt_phase t = At_Check \<or> pt_phase t = At_Queue)) \<and>
     (\<exists>c d. sm_containers (rn_rt u) = [(0, c), (1, d)] \<and> ct_queue c = [] \<and> \<not> ct_dead c \<and> ct_queue d = [(''b'', [])])"

lemma starving_step:
  assumes "starving u" "thread_action a"
  shows "starving (crt_step V E a u) \<and> rn_completed (crt_step V E a u) = rn_completed u"
proof (cases a)
  case (Pump_Check name)
  then show ?thesis using assms(1) by (auto simp: starving_def pump_check_def with_pump_def the_container_def)
next
  case (Pump_Get name P e now)
  then show ?thesis using assms(1)
    by (auto simp: starving_def pump_get_def with_pump_def the_container_def with_container_def ct_dead_iff Let_def)
next
  case (Pump_Receive name P w e now)
  have "pump_receive V E P name w e now (rn_rt u, rn_data u) = ((rn_rt u, rn_data u), [])"
    using assms(1) by (intro pump_receive_other) (auto simp: starving_def split: if_splits)
  then show ?thesis using assms(1) Pump_Receive by simp
qed (use assms in \<open>simp_all add: starving_def\<close>)

lemma starving_run:
  "starving u \<Longrightarrow> list_all thread_action as \<Longrightarrow>
   starving (crt_run V E as u) \<and> rn_completed (crt_run V E as u) = rn_completed u"
proof (induction as arbitrary: u)
  case (Cons a as)
  then show ?case using starving_step [of u a V E] by (simp add: crt_run_def)
qed (simp add: crt_run_def)

lemma starved_state:
  "starving starved" "rn_accepted starved = [''a'', ''b'']"
  "rn_completed starved = [(''a'', Err (AxoErr JobCancelledError ''job was cancelled'')), (''a'', Ok (VJson (JInt 1)))]"
proof -
  have "rn_threads starved = [] \<and> cr_pumps (rn_rt starved) = [(''fn-f-v1'', \<lparr>pt_container = 0, pt_phase = At_Check\<rparr>)] \<and>
    map fst (sm_containers (rn_rt starved)) = [0, 1] \<and>
    map (\<lambda>(_, c). (ct_queue c, ct_status c)) (sm_containers (rn_rt starved)) = [([], IDLE), ([(''b'', [])], BUSY)]"
    unfolding starved_def by code_simp
  then show "starving starved" by (auto simp: starving_def ct_dead_iff map_eq_Cons_conv)
  show "rn_accepted starved = [''a'', ''b'']" unfolding starved_def by code_simp
  show "rn_completed starved = [(''a'', Err (AxoErr JobCancelledError ''job was cancelled'')), (''a'', Ok (VJson (JInt 1)))]"
    unfolding starved_def by code_simp
qed

text \<open>
  C7: A cancellation can starve the next container. When the result of a cancelled job arrives
  after the cancellation, it is reported a second time, and the pump marks its dismissed container
  idle and goes on serving its empty queue. Pumps are known by the name of their container; the
  container that gets the freed slot has the same name, finds a pump alive, and starts none: its
  job is never sent, whatever the threads of the runtime do.
\<close>

theorem stale_pump_starves_container:
  "rn_accepted starved = [''a'', ''b''] \<and>
   (\<forall>as. list_all thread_action as \<longrightarrow>
     map fst (rn_completed (crt_run (installation sample_docker) sample_env as starved)) = [''a'', ''a''] \<and>
     ct_queue (the_container (rn_rt (crt_run (installation sample_docker) sample_env as starved)) 1) = [(''b'', [])])"
proof (intro conjI allI impI)
  show "rn_accepted starved = [''a'', ''b'']" by (rule starved_state(2))
  fix as
  assume "list_all thread_action as"
  then have "starving (crt_run (installation sample_docker) sample_env as starved)"
    and r: "rn_completed (crt_run (installation sample_docker) sample_env as starved) = rn_completed starved"
    using starving_run starved_state(1) by blast+
  then show "ct_queue (the_container (rn_rt (crt_run (installation sample_docker) sample_env as starved)) 1) = [(''b'', [])]"
    by (auto simp: starving_def the_container_def)
  show "map fst (rn_completed (crt_run (installation sample_docker) sample_env as starved)) = [''a'', ''a'']"
    by (simp add: r starved_state(3))
qed

lemma stale_pump_starves_container_witness:
  "ct_queue (the_container (rn_rt (crt_run (installation sample_docker) sample_env
     [Pump_Check ''fn-f-v1'', Pump_Get ''fn-f-v1'' (leader_says Retry) None 9] starved)) 1) = [(''b'', [])]"
  using stale_pump_starves_container by simp

section \<open>An image that cannot be built\<close>

definition blocked :: sample_run where
  "blocked = run_containers unbuildable
     [Submit ''f'' 1 ''a'' [] (leader_says (Granted 0)) 0, Run_Spawn 0 container_spec 1 0]"

text \<open>The container waits forever for the thread that died; every job for it waits with it.\<close>

definition blocking :: "sample_run \<Rightarrow> bool" where
  "blocking u \<longleftrightarrow> cr_pumps (rn_rt u) = [] \<and> sm_handles (rn_rt u) = [((''f'', 1), [0])] \<and>
     (\<exists>c. sm_containers (rn_rt u) = [(0, c)] \<and> ct_status c = BUSY \<and> \<not> ct_ready_event c \<and> ct_invocation_count c = 0) \<and>
     list_all (\<lambda>t. case t of Dispatch_Thread i job ps \<Rightarrow> i = 0 | _ \<Rightarrow> False) (rn_threads u) \<and>
     list_all (\<lambda>(_, r). \<not> is_ok r) (rn_completed u)"

text \<open>
  Later actions: rounds of threads, sweeps, and submissions that the leader sends to this endpoint,
  which owns the slot.
\<close>

fun later_action :: "crt_action \<Rightarrow> bool" where
  "later_action (Submit f v job ps P now) = (f = ''f'' \<and> v = 1 \<and> P = leader_says (Place ''e''))"
| "later_action (Cancel_Job job P now) = False"
| "later_action _ = True"

lemma blocking_threads:
  assumes "blocking u"
  shows "Spawn_Thread i spec \<notin> set (rn_threads u)" "Poll_Thread i d \<notin> set (rn_threads u)"
    "Retry_Thread key job ps \<notin> set (rn_threads u)" "Dispatch_Thread i job ps \<in> set (rn_threads u) \<Longrightarrow> i = 0"
  using assms by (force simp: blocking_def list_all_iff)+

lemma blocking_dispatch:
  assumes "blocking u"
  shows "blocking (note_all (dispatch_once_ready 0 job ps now (rn_rt u)) (thread_done t u))"
proof -
  have "list_all p (remove1 t xs)" if "list_all p xs" for p :: "thread \<Rightarrow> bool" and xs
    using that set_remove1_subset [of t xs] by (auto simp: list_all_iff)
  then show ?thesis using assms
    by (auto simp: blocking_def dispatch_once_ready_def the_container_def note_all_def thread_done_def Let_def)
qed

lemma blocking_alive: "blocking u \<Longrightarrow> ct_status (the_container (rn_rt u) 0) = BUSY"
  by (auto simp: blocking_def the_container_def)

lemma blocking_sweeps:
  assumes "blocking u"
  shows "sweep_idle_containers D ttl now (rn_rt u) = (rn_rt u, [])" "sweep_used_containers D m now (rn_rt u) = (rn_rt u, [])"
    "sweep_crashed D now (rn_rt u) = (rn_rt u, [])"
  using assms
  by (auto simp: blocking_def sweep_idle_containers_def sweep_used_containers_def sweep_crashed_def sweep_containers_def
      all_members_def the_container_def)

lemma blocking_submit:
  assumes "blocking u"
  shows "\<exists>s h. crt_invoke (installation D) (leader_says (Place ''e'')) (ckey (''f'', 1)) job ps now (rn_rt u) =
      (Ok h, s, [Asks ''f'' 1 2, Starts (Dispatch_Thread 0 job ps)]) \<and>
    cr_pumps s = [] \<and> sm_handles s = [((''f'', 1), [0])] \<and>
    (\<exists>c. sm_containers s = [(0, c)] \<and> ct_status c = BUSY \<and> \<not> ct_ready_event c \<and> ct_invocation_count c = 0)"
proof -
  obtain c where c: "sm_containers (rn_rt u) = [(0, c)]" "ct_status c = BUSY" "\<not> ct_ready_event c"
    "ct_invocation_count c = 0" and k: "sm_handles (rn_rt u) = [((''f'', 1), [0])]" "cr_pumps (rn_rt u) = []"
    using assms by (auto simp: blocking_def)
  have the: "the_container (rn_rt u) 0 = c" by (simp add: the_container_def c)
  have idle: "find_idle D (''f'', 1) now (rn_rt u) = (None, rn_rt u, [])"
    by (simp add: find_idle_def dismiss_stale_def live_members_def k the ct_dead_iff c available_def)
  have busy: "least_busy (''f'', 1) (rn_rt u) = Some 0"
    by (simp add: least_busy_def least_invoked_def live_members_def k the ct_dead_iff c)
  show ?thesis
    by (simp add: crt_invoke_def installation_def container_function_def choose_container_def leader_says_def
        resolve_placement_def key_pool_def ckey_def idle busy with_spec_def grow_or_place_def place_job_def and_then_op_def container_spec_def
        dispatch_def the c k ct_dead_iff with_container_def Let_def)
qed

lemma blocking_step:
  assumes "blocking u" "later_action a"
  shows "blocking (crt_step (installation D) E a u)"
proof (cases a)
  case (Submit f v job ps P now)
  then have "f = ''f''" "v = 1" "P = leader_says (Place ''e'')" using assms(2) by simp_all
  then show ?thesis
    using blocking_submit [OF assms(1), of D job ps now] assms(1) Submit
    by (auto simp: blocking_def note_all_def)
next
  case (Run_Dispatch i job ps now)
  have "i = 0" if "Dispatch_Thread i job ps \<in> set (rn_threads u)" using that by (rule blocking_threads(4) [OF assms(1)])
  then show ?thesis using assms(1) blocking_dispatch [OF assms(1)] Run_Dispatch
    by (cases "Dispatch_Thread i job ps \<in> set (rn_threads u)") simp_all
next
  case (Pump_Check name)
  then show ?thesis using assms(1) by (simp add: blocking_def pump_check_def)
next
  case (Pump_Get name P e now)
  then show ?thesis using assms(1) by (simp add: blocking_def pump_get_def)
next
  case (Pump_Receive name P w e now)
  have "pump_receive (installation D) E P name w e now (rn_rt u, rn_data u) = ((rn_rt u, rn_data u), [])"
    using assms(1) by (intro pump_receive_other) (simp add: blocking_def)
  then show ?thesis using assms(1) Pump_Receive by (simp add: blocking_def)
qed (use assms blocking_threads [OF assms(1)] blocking_sweeps [OF assms(1)] in simp_all)

lemma blocked_state: "blocking blocked" "rn_accepted blocked = [''a'']"
proof -
  have "rn_threads blocked = [Dispatch_Thread 0 ''a'' []] \<and> cr_pumps (rn_rt blocked) = [] \<and>
    sm_handles (rn_rt blocked) = [((''f'', 1), [0])] \<and> map fst (sm_containers (rn_rt blocked)) = [0] \<and>
    map (\<lambda>(_, c). (ct_status c, ct_ready_event c, ct_invocation_count c)) (sm_containers (rn_rt blocked)) = [(BUSY, False, 0)] \<and>
    rn_completed blocked = []"
    unfolding blocked_def by code_simp
  then show "blocking blocked" by (auto simp: blocking_def map_eq_Cons_conv)
  show "rn_accepted blocked = [''a'']" unfolding blocked_def by code_simp
qed

lemma blocking_run: "blocking u \<Longrightarrow> list_all later_action as \<Longrightarrow> blocking (crt_run (installation D) E as u)"
  by (induction as arbitrary: u) (simp_all add: crt_run_def blocking_step)

text \<open>
  C8: An unexpected failure of an image build occupies a slot for good. Of the exceptions of a
  build only one class is caught, so another one ends the thread that was to start the container.
  The container then stays in its pool, neither ready nor crashed; no sweep takes it, the leader
  goes on sending jobs to it as the owner of the slot, and none of them ever succeeds.
\<close>

theorem failed_build_occupies_slot:
  "rn_accepted blocked = [''a''] \<and>
   (\<forall>as. list_all later_action as \<longrightarrow>
     (let u = crt_run (installation unbuildable) sample_env as blocked in
      members (''f'', 1) (rn_rt u) = [0] \<and> \<not> ct_dead (the_container (rn_rt u) 0) \<and>
      \<not> ct_ready_event (the_container (rn_rt u) 0) \<and> list_all (\<lambda>(_, r). \<not> is_ok r) (rn_completed u)))"
proof (intro conjI allI impI)
  show "rn_accepted blocked = [''a'']" by (rule blocked_state(2))
  fix as
  assume "list_all later_action as"
  then have "blocking (crt_run (installation unbuildable) sample_env as blocked)"
    by (rule blocking_run [OF blocked_state(1)])
  then show "let u = crt_run (installation unbuildable) sample_env as blocked in
      members (''f'', 1) (rn_rt u) = [0] \<and> \<not> ct_dead (the_container (rn_rt u) 0) \<and>
      \<not> ct_ready_event (the_container (rn_rt u) 0) \<and> list_all (\<lambda>(_, r). \<not> is_ok r) (rn_completed u)"
    by (auto simp: blocking_def the_container_def ct_dead_iff Let_def)
qed

lemma failed_build_occupies_slot_witness:
  "let u = crt_run (installation unbuildable) sample_env
     [Run_Dispatch 0 ''a'' [] 99, Submit ''f'' 1 ''b'' [] (leader_says (Place ''e'')) 100, Sweep_Crashed_Containers 101] blocked
   in members (''f'', 1) (rn_rt u) = [0] \<and> \<not> ct_ready_event (the_container (rn_rt u) 0)"
  using conjunct2 [OF failed_build_occupies_slot] by (simp add: Let_def)

section \<open>The claim of a cold container\<close>

text \<open>
  A submission marks its cold container busy, so that the next one does not take it as well. The
  thread that starts the container overwrites the mark: of two submissions with room for two
  containers, the second gets the same cold container if the first was spawned in between.
\<close>

lemma cold_claim_is_lost:
  "let u = run_containers sample_docker
       [Submit ''f'' 1 ''a'' [] None 0, Run_Spawn 0 container_spec 1 0, Submit ''f'' 1 ''b'' [] None 2];
     u' = run_containers sample_docker
       [Submit ''f'' 1 ''a'' [] None 0, Submit ''f'' 1 ''b'' [] None 2]
   in members (''f'', 1) (rn_rt u) = [0] \<and> \<not> ct_ready_event (the_container (rn_rt u) 0) \<and>
     members (''f'', 1) (rn_rt u') = [0, 1]"
  by code_simp

end
