(* ===== verification/Placement.thy ===== *)
theory Placement
  imports Container_Runtime Router
begin

text \<open>
  The placement of container jobs in the cluster: the handlers of the slot operations
  (\<open>service/handlers/concurrency_slot_request.py\<close>, \<open>concurrency_slot_release.py\<close>,
  \<open>concurrency_reconcile_pull.py\<close>), the facade that the runtime calls
  (\<open>service/runtime/concurrency_client.py\<close>) and the application's part (\<open>service/app.py\<close>): slots
  released when a container goes, jobs forwarded, and the ledger rebuilt by a new leader. The
  lemmas join the ledger with the containers of a node.
\<close>

section \<open>The handlers\<close>

definition slot_request_args :: "command \<Rightarrow> (string \<times> int \<times> int \<times> string) option res" where
  "slot_request_args c = with_env c (\<lambda>d.
    let f = jget d ''function_id''; v = jget d ''version''; m = jget d ''max_concurrency''; rid = jget d ''requester_id'' in
    if \<not> py_truthy f \<or> v = JNull \<or> m = JNull \<or> \<not> py_truthy rid then Ok None
    else bind_res (json_str f) (\<lambda>f. bind_res (json_int v) (\<lambda>v. bind_res (json_int m) (\<lambda>m.
         bind_res (json_str rid) (\<lambda>rid. Ok (Some (f, v, m, rid)))))))"

definition handle_slot_request :: "rng \<Rightarrow> ledger command_handler" where
  "handle_slot_request r c l =
    (case slot_request_args c of
       Raise ex \<Rightarrow> (Raise ex, l)
     | Err e \<Rightarrow> (Err e, l)
     | Ok None \<Rightarrow>
         (Ok (from_error (missing_error ''function_id, version, max_concurrency and requester_id are required'')), l)
     | Ok (Some (f, v, m, rid)) \<Rightarrow>
         (case request_slot r f v m rid l of
            (Retry, l) \<Rightarrow>
              (Ok (from_error (AxoErr ConcurrencyLedgerNotReadyError ''concurrency ledger is mid-reconciliation'')), l)
          | (Granted i, l) \<Rightarrow> (Ok (result_ok [(''action'', JStr ''granted''), (''slot_index'', JInt i)]), l)
          | (Place t, l) \<Rightarrow> (Ok (result_ok [(''action'', JStr ''place''), (''target_endpoint_id'', JStr t)]), l)))"

definition slot_release_args :: "command \<Rightarrow> (string \<times> int \<times> int \<times> string) option res" where
  "slot_release_args c = with_env c (\<lambda>d.
    let f = jget d ''function_id''; v = jget d ''version''; i = jget d ''slot_index''; eid = jget d ''endpoint_id'' in
    if \<not> py_truthy f \<or> v = JNull \<or> i = JNull \<or> \<not> py_truthy eid then Ok None
    else bind_res (json_str f) (\<lambda>f. bind_res (json_int v) (\<lambda>v. bind_res (json_int i) (\<lambda>i.
         bind_res (json_str eid) (\<lambda>eid. Ok (Some (f, v, i, eid)))))))"

definition handle_slot_release :: "ledger command_handler" where
  "handle_slot_release c l =
    (case slot_release_args c of
       Raise ex \<Rightarrow> (Raise ex, l)
     | Err e \<Rightarrow> (Err e, l)
     | Ok None \<Rightarrow>
         (Ok (from_error (missing_error ''function_id, version, slot_index and endpoint_id are required'')), l)
     | Ok (Some (f, v, i, eid)) \<Rightarrow> (Ok (result_ok []), release_slot f v i eid l))"

text \<open>The node's live containers, as entries of the ledger and as JSON.\<close>

definition live_entries :: "('d, 'x) summoner_scheme \<Rightarrow> count_entry list" where
  "live_entries s =
    map (\<lambda>c. \<lparr>ce_function_id = ct_function_id c, ce_version = ct_version c, ce_slot_index = ct_pool_index c\<rparr>)
      (filter (\<lambda>c. \<not> ct_dead c) (map (the_container s) (all_members s)))"

definition entry_to_json :: "count_entry \<Rightarrow> json" where
  "entry_to_json e = JObj [(''function_id'', JStr (ce_function_id e)), (''version'', JInt (ce_version e)),
     (''slot_index'', JInt (ce_slot_index e))]"

definition handle_reconcile_pull :: "command \<Rightarrow> ('d, 'x) summoner_scheme \<Rightarrow> command_result" where
  "handle_reconcile_pull c s = result_ok [(''entries'', JList (map entry_to_json (live_entries s)))]"

section \<open>The facade\<close>

text \<open>A proxied handler, whose caller does not see who served the command.\<close>

definition proxied ::
  "bully \<Rightarrow> string \<Rightarrow> 's command_handler \<Rightarrow> (string \<Rightarrow> string option) \<Rightarrow> (string \<Rightarrow> command \<Rightarrow> command_result res) \<Rightarrow>
   's command_handler" where
  "proxied el self_id inner resolve forward c s = snd (leader_proxy el self_id inner resolve forward c s)"

definition json_command :: "string \<Rightarrow> (string, json) dict \<Rightarrow> command" where
  "json_command oper d = \<lparr>operation = oper, content_type = ''application/json'', envelope = JObj d, payload = []\<rparr>"

definition read_decision :: "command_result \<Rightarrow> slot_decision res" where
  "read_decision r =
    (if \<not> cr_ok r then Err (AxoErr AxoError (cr_error r))
     else (case cr_metadata r of
             JObj d \<Rightarrow>
               (if jget d ''action'' = JStr ''granted'' then
                  bind_res (bind_res (jitem d ''slot_index'') exact_int) (\<lambda>i. Ok (Granted i))
                else if jget d ''action'' = JStr ''place'' then
                  bind_res (bind_res (jitem d ''target_endpoint_id'') json_str) (\<lambda>t. Ok (Place t))
                else Ok Retry)
           | _ \<Rightarrow> Raise AttributeError))"

definition request_growth ::
  "string \<Rightarrow> 's command_handler \<Rightarrow> string \<Rightarrow> int \<Rightarrow> int \<Rightarrow> 's \<Rightarrow> slot_decision res \<times> 's" where
  "request_growth self_id handler f v m s =
    (case handler (json_command ''CONCURRENCY_SLOT_REQUEST''
        [(''function_id'', JStr f), (''version'', JInt v), (''max_concurrency'', JInt m), (''requester_id'', JStr self_id)]) s of
       (Ok r, s) \<Rightarrow> (read_decision r, s)
     | (Err e, s) \<Rightarrow> (Err e, s)
     | (Raise ex, s) \<Rightarrow> (Raise ex, s))"

definition client_release ::
  "string \<Rightarrow> 's command_handler \<Rightarrow> string \<Rightarrow> int \<Rightarrow> int \<Rightarrow> 's \<Rightarrow> unit res \<times> 's" where
  "client_release self_id handler f v i s =
    (case handler (json_command ''CONCURRENCY_SLOT_RELEASE''
        [(''function_id'', JStr f), (''version'', JInt v), (''slot_index'', JInt i), (''endpoint_id'', JStr self_id)]) s of
       (Ok _, s) \<Rightarrow> (Ok (), s)
     | (Err e, s) \<Rightarrow> (Err e, s)
     | (Raise ex, s) \<Rightarrow> (Raise ex, s))"

section \<open>The application\<close>

definition on_container_dismissed ::
  "string \<Rightarrow> 's command_handler \<Rightarrow> event \<Rightarrow> 's \<Rightarrow> unit res \<times> 's" where
  "on_container_dismissed self_id handler e s =
    (case bind_res (bind_res (jitem (ev_payload e) ''function_id'') json_str) (\<lambda>f.
          bind_res (bind_res (jitem (ev_payload e) ''version'') exact_int) (\<lambda>v.
          bind_res (bind_res (jitem (ev_payload e) ''pool_index'') exact_int) (\<lambda>i. Ok (f, v, i)))) of
       Ok (f, v, i) \<Rightarrow> client_release self_id handler f v i s
     | Err x \<Rightarrow> (Err x, s)
     | Raise ex \<Rightarrow> (Raise ex, s))"

text \<open>
  \<open>_forward_job_to_endpoint\<close>: the address of the target by its id, the JOB_FORWARD command, and what
  its answer means for the runtime.
\<close>

definition forward_job_command :: "storage_key \<Rightarrow> string \<Rightarrow> job_params \<Rightarrow> command" where
  "forward_job_command key job params = json_command ''JOB_FORWARD''
     [(''function_id'', JStr (sk_id key)), (''function_version'', json_opt JInt (sk_version key)), (''job_id'', JStr job),
      (''params'', JObj params)]"

definition forward_job ::
  "(string \<Rightarrow> string option) \<Rightarrow> (string \<Rightarrow> command \<Rightarrow> command_result res) \<Rightarrow> string \<Rightarrow> storage_key \<Rightarrow> string \<Rightarrow>
   job_params \<Rightarrow> unit res" where
  "forward_job resolve send target key job params =
    (case resolve target of
       None \<Rightarrow> Err (AxoErr AxoError (''unknown endpoint '' @ py_repr target))
     | Some uri \<Rightarrow>
         bind_res (send uri (forward_job_command key job params)) (\<lambda>r.
           if cr_ok r then Ok () else Err (AxoErr AxoError (cr_error r))))"

text \<open>A new leader, and nobody else, rebuilds the ledger.\<close>

definition should_reconcile :: "event \<Rightarrow> bool" where
  "should_reconcile e \<longleftrightarrow> py_truthy (jget (ev_payload e) ''is_leader'') \<and> \<not> py_truthy (jget (ev_payload e) ''was_leader'')"

definition entry_of_json :: "json \<Rightarrow> count_entry res" where
  "entry_of_json j =
    (case j of
       JObj d \<Rightarrow>
         bind_res (bind_res (jitem d ''function_id'') json_str) (\<lambda>f.
         bind_res (bind_res (jitem d ''version'') exact_int) (\<lambda>v.
         bind_res (bind_res (jitem d ''slot_index'') exact_int) (\<lambda>i.
           Ok \<lparr>ce_function_id = f, ce_version = v, ce_slot_index = i\<rparr>)))
     | _ \<Rightarrow> Raise TypeError)"

fun entries_of_json :: "json list \<Rightarrow> count_entry list res" where
  "entries_of_json [] = Ok []"
| "entries_of_json (j # js) = bind_res (entry_of_json j) (\<lambda>e. bind_res (entries_of_json js) (\<lambda>es. Ok (e # es)))"

text \<open>A peer that fails or refuses counts as one without containers.\<close>

definition peer_entries :: "command_result res \<Rightarrow> count_entry list res" where
  "peer_entries r =
    (case r of
       Raise ex \<Rightarrow> Raise ex
     | Err _ \<Rightarrow> Ok []
     | Ok r \<Rightarrow>
         (if \<not> cr_ok r then Ok []
          else (case cr_metadata r of
                  JObj d \<Rightarrow> (case dget d ''entries'' (JList []) of JList js \<Rightarrow> entries_of_json js | _ \<Rightarrow> Raise TypeError)
                | _ \<Rightarrow> Raise AttributeError)))"

fun collect_reports ::
  "(string \<Rightarrow> command \<Rightarrow> command_result res) \<Rightarrow> (string \<times> string) list \<Rightarrow> (string, count_entry list) dict \<Rightarrow>
   (string, count_entry list) dict res" where
  "collect_reports send [] reports = Ok reports"
| "collect_reports send ((peer, uri) # peers) reports =
    bind_res (peer_entries (send uri (json_command ''CONCURRENCY_RECONCILE_PULL'' []))) (\<lambda>es.
      collect_reports send peers (dput peer es reports))"

text \<open>An exception ends the thread with the ledger still closed.\<close>

definition reconcile_ledger ::
  "string \<Rightarrow> ('d, 'x) summoner_scheme \<Rightarrow> (string \<times> string) list \<Rightarrow> (string \<Rightarrow> command \<Rightarrow> command_result res) \<Rightarrow> ledger \<Rightarrow>
   unit res \<times> ledger" where
  "reconcile_ledger self_id s peers send l =
    (let l = begin_reconciliation l in
     case collect_reports send peers [(self_id, live_entries s)] of
       Ok reports \<Rightarrow> (Ok (), reconcile reports l)
     | Err e \<Rightarrow> (Err e, l)
     | Raise ex \<Rightarrow> (Raise ex, l))"

section \<open>The facade is the ledger\<close>

lemma handle_slot_request_args:
  assumes "f \<noteq> []" "rid \<noteq> []"
  shows "slot_request_args (json_command oper [(''function_id'', JStr f), (''version'', JInt v), (''max_concurrency'', JInt m),
     (''requester_id'', JStr rid)]) = Ok (Some (f, v, m, rid))"
  using assms by (simp add: slot_request_args_def with_env_def json_command_def json_str_def json_int_def Let_def)

lemma handle_slot_release_args:
  assumes "f \<noteq> []" "eid \<noteq> []"
  shows "slot_release_args (json_command oper [(''function_id'', JStr f), (''version'', JInt v), (''slot_index'', JInt i),
     (''endpoint_id'', JStr eid)]) = Ok (Some (f, v, i, eid))"
  using assms by (simp add: slot_release_args_def with_env_def json_command_def json_str_def json_int_def Let_def)

lemma proxied_leader:
  "bully_is_leader el self_id \<Longrightarrow> proxied el self_id inner resolve forward c s = inner c s"
  by (simp add: proxied_def leader_proxy_def split: prod.splits)

text \<open>On the leader, asking and releasing through the facade are the ledger's own operations.\<close>

lemma client_request:
  assumes "bully_is_leader el self_id" "f \<noteq> []" "self_id \<noteq> []"
  shows "request_growth self_id (proxied el self_id (handle_slot_request r) resolve forward) f v m l =
    (case request_slot r f v m self_id l of
       (Retry, l') \<Rightarrow> (Err (AxoErr AxoError ''concurrency ledger is mid-reconciliation''), l')
     | (d, l') \<Rightarrow> (Ok d, l'))"
  using assms
  by (simp add: request_growth_def proxied_leader handle_slot_request_def handle_slot_request_args read_decision_def
      from_error_meta_def result_ok_def jitem_def exact_int_def json_str_def split: prod.split slot_decision.split)

lemma client_releases:
  assumes "bully_is_leader el self_id" "f \<noteq> []" "self_id \<noteq> []"
  shows "client_release self_id (proxied el self_id handle_slot_release resolve forward) f v i l =
    (Ok (), release_slot f v i self_id l)"
  using assms by (simp add: client_release_def proxied_leader handle_slot_release_def handle_slot_release_args)

section \<open>Reconciliation\<close>

lemma entries_of_json_map: "entries_of_json (map entry_to_json es) = Ok es"
  by (induction es) (simp_all add: entry_of_json_def entry_to_json_def jitem_def json_str_def exact_int_def)

lemma peer_entries_pull: "peer_entries (Ok (handle_reconcile_pull c s)) = Ok (live_entries s)"
  by (simp add: peer_entries_def handle_reconcile_pull_def result_ok_def entries_of_json_map)

lemma collect_reports_ok:
  assumes "\<forall>(peer, uri) \<in> set peers. peer_entries (send uri (json_command ''CONCURRENCY_RECONCILE_PULL'' [])) = Ok (es peer)"
    "distinct (map fst peers @ map fst reports)"
  shows "collect_reports send peers reports = Ok (reports @ map (\<lambda>(peer, uri). (peer, es peer)) peers)"
  using assms
proof (induction peers arbitrary: reports)
  case (Cons p peers)
  obtain peer uri where p: "p = (peer, uri)" by (cases p)
  have new: "dput peer (es peer) reports = reports @ [(peer, es peer)]"
    using Cons.prems(2) p by (intro dput_new) (auto simp: image_iff)
  show ?case using Cons.prems Cons.IH [of "reports @ [(peer, es peer)]"] by (auto simp: p new)
qed simp

text \<open>An endpoint claims a slot when it reports a container there.\<close>

definition claims :: "count_entry list \<Rightarrow> pool \<Rightarrow> int \<Rightarrow> bool" where
  "claims es k i \<longleftrightarrow> (\<exists>e \<in> set es. (ce_function_id e, ce_version e) = k \<and> ce_slot_index e = i)"

lemma add_reports_slots:
  "map_of (dget (fold (add_report eid) es ng) k []) i = (if claims es k i then Some eid else map_of (dget ng k []) i)"
  by (induction es arbitrary: ng) (auto simp: claims_def add_report_slots)

lemma rebuild_slots:
  assumes "\<forall>e es e' es'. (e, es) \<in> set reports \<longrightarrow> (e', es') \<in> set reports \<longrightarrow> claims es k i \<longrightarrow> claims es' k i \<longrightarrow> e = e'"
  shows "map_of (dget (fold (\<lambda>(eid, es). fold (add_report eid) es) reports ng) k []) i = Some x \<longleftrightarrow>
    (\<exists>es. (x, es) \<in> set reports \<and> claims es k i) \<or>
    (\<forall>e es. (e, es) \<in> set reports \<longrightarrow> \<not> claims es k i) \<and> map_of (dget ng k []) i = Some x"
  using assms
proof (induction reports arbitrary: ng)
  case (Cons p reports)
  obtain e es where p: "p = (e, es)" by (cases p)
  have "\<forall>e es e' es'. (e, es) \<in> set reports \<longrightarrow> (e', es') \<in> set reports \<longrightarrow> claims es k i \<longrightarrow> claims es' k i \<longrightarrow> e = e'"
    using Cons.prems by (meson list.set_intros(2))
  note IH = Cons.IH [OF this, of "fold (add_report e) es ng"]
  have unique: "e' = e" if "claims es k i" "(e', es') \<in> set reports" "claims es' k i" for e' es'
    using Cons.prems that p by (metis list.set_intros)
  show ?case
    unfolding fold_Cons p comp_apply case_prod_conv IH add_reports_slots set_simps insert_iff prod.inject
    using unique by (cases "claims es k i") auto
qed simp

lemma rebuild_slots_empty:
  assumes "\<And>e es e' es'. (e, es) \<in> set reports \<Longrightarrow> (e', es') \<in> set reports \<Longrightarrow> claims es k i \<Longrightarrow> claims es' k i \<Longrightarrow> e = e'"
  shows "map_of (dget (rebuild reports) k []) i = Some x \<longleftrightarrow> (\<exists>es. (x, es) \<in> set reports \<and> claims es k i)"
proof -
  have "\<forall>e es e' es'. (e, es) \<in> set reports \<longrightarrow> (e', es') \<in> set reports \<longrightarrow> claims es k i \<longrightarrow> claims es' k i \<longrightarrow> e = e'"
    using assms by blast
  note rebuild_slots [OF this, of "[]" x]
  then show ?thesis by (simp add: rebuild_def)
qed

text \<open>A node has a container in a slot.\<close>

definition has_slot :: "('d, 'x) summoner_scheme \<Rightarrow> pool \<Rightarrow> int \<Rightarrow> bool" where
  "has_slot s k idx \<longleftrightarrow> (\<exists>i \<in> set (all_members s). \<not> ct_dead (the_container s i) \<and>
     container_key (the_container s i) = k \<and> ct_pool_index (the_container s i) = idx)"

lemma claims_live_entries: "claims (live_entries s) k idx \<longleftrightarrow> has_slot s k idx"
  by (auto simp: claims_def live_entries_def has_slot_def container_key_def)

section \<open>Properties\<close>


definition sample_container :: "string \<Rightarrow> int \<Rightarrow> unit summoner" where
  "sample_container f idx = \<lparr>sm_containers = [(0, \<lparr>ct_function_id = f, ct_version = 1, ct_service_name = ''n'',
       ct_mode = ''docker'', ct_zmq_address = [], ct_http_address = [], ct_container_id = None, ct_service_id = None,
       ct_status = IDLE, ct_last_used = 0, ct_invocation_count = 0, ct_pool_index = idx, ct_max_duration = 0,
       ct_ready_event = True, ct_current_job = None, ct_queue = []\<rparr>)],
     sm_handles = [((f, 1), [0])], sm_next = 1, sm_docker = ()\<rparr>"

lemma has_slot_sample: "has_slot (sample_container f i) k idx \<longleftrightarrow> k = (f, 1) \<and> idx = i"
  by (auto simp: has_slot_def sample_container_def all_members_def the_container_def ct_dead_iff container_key_def)


end
