(* ===== verification/Cluster.thy ===== *)
theory Cluster
  imports Container_Faults Placement
begin

text \<open>
  The endpoints of a cluster under one ledger: what the operations of a container runtime do to the
  leader's ledger, through the facade and the handlers, and the runs of several endpoints. The
  lemmas show that every container of a pool holds a slot of the ledger, operation by operation;
  the cap of the ledger is then a cap on the containers.
\<close>

declare split_paired_All [simp del] split_paired_Ex [simp del]

section \<open>The leader's ledger\<close>

text \<open>What an effect does to the ledger; a dismissed container goes through the application's subscription.\<close>

fun ledger_effect :: "rng \<Rightarrow> string \<Rightarrow> container_effect \<Rightarrow> ledger \<Rightarrow> ledger" where
  "ledger_effect r eid (Asks f v m) l = snd (request_growth eid (handle_slot_request r) f v m l)"
| "ledger_effect r eid (Releases f v i) l = snd (client_release eid handle_slot_release f v i l)"
| "ledger_effect r eid (Emits e) l =
    (if ev_type e = ''CONTAINER_DISMISSED'' then snd (on_container_dismissed eid handle_slot_release e l) else l)"
| "ledger_effect r eid _ l = l"

definition ledger_effects :: "rng \<Rightarrow> string \<Rightarrow> container_effect list \<Rightarrow> ledger \<Rightarrow> ledger" where
  "ledger_effects r eid es l = fold (ledger_effect r eid) es l"

lemma ledger_effects_simps [simp]:
  "ledger_effects r eid [] l = l"
  "ledger_effects r eid (e # es) l = ledger_effects r eid es (ledger_effect r eid e l)"
  "ledger_effects r eid (es @ es') l = ledger_effects r eid es' (ledger_effects r eid es l)"
  by (simp_all add: ledger_effects_def)

text \<open>The placement of an endpoint: the facade's decisions are the leader's answers.\<close>

definition ledger_placement ::
  "rng \<Rightarrow> string \<Rightarrow> (string \<Rightarrow> storage_key \<Rightarrow> string \<Rightarrow> job_params \<Rightarrow> unit res) \<Rightarrow> ledger \<Rightarrow> placement" where
  "ledger_placement r eid forward l = \<lparr>pl_self = eid,
     pl_growth = (\<lambda>es f v m. fst (request_growth eid (handle_slot_request r) f v m (ledger_effects r eid es l))),
     pl_forward = forward\<rparr>"

fun placed_by :: "placement \<Rightarrow> crt_action \<Rightarrow> crt_action" where
  "placed_by P (Submit f v job ps Q now) = Submit f v job ps (Some P) now"
| "placed_by P (Run_Retry key job ps Q now) = Run_Retry key job ps (Some P) now"
| "placed_by P (Pump_Get name Q e now) = Pump_Get name (Some P) e now"
| "placed_by P (Pump_Receive name Q w e now) = Pump_Receive name (Some P) w e now"
| "placed_by P (Cancel_Job job Q now) = Cancel_Job job (Some P) now"
| "placed_by P a = a"

section \<open>What the calls of the facade do to grants\<close>

lemma request_growth_cases:
  obtains "snd (request_growth eid (handle_slot_request r) f v m l) = l"
    "\<And>i. fst (request_growth eid (handle_slot_request r) f v m l) \<noteq> Ok (Granted i)"
  | d where "request_slot r f v m eid l = (d, snd (request_growth eid (handle_slot_request r) f v m l))"
    "\<And>i. fst (request_growth eid (handle_slot_request r) f v m l) = Ok (Granted i) \<Longrightarrow> d = Granted i"
proof (cases "f = [] \<or> eid = []")
  case True
  then have "slot_request_args (json_command ''CONCURRENCY_SLOT_REQUEST'' [(''function_id'', JStr f), (''version'', JInt v),
      (''max_concurrency'', JInt m), (''requester_id'', JStr eid)]) = Ok None"
    by (auto simp: slot_request_args_def with_env_def json_command_def Let_def)
  then show thesis
    by (intro that(1)) (simp_all add: request_growth_def handle_slot_request_def read_decision_def from_error_meta_def)
next
  case False
  obtain d l' where d: "request_slot r f v m eid l = (d, l')" by fastforce
  have "request_growth eid (handle_slot_request r) f v m l = (case d of
       Retry \<Rightarrow> (Err (AxoErr AxoError ''concurrency ledger is mid-reconciliation''), l') | _ \<Rightarrow> (Ok d, l'))"
    using False by (simp add: request_growth_def handle_slot_request_def handle_slot_request_args read_decision_def
        from_error_meta_def result_ok_def jitem_def exact_int_def json_str_def d split: slot_decision.split)
  then show thesis using d by (intro that(2) [of d]) (auto split: slot_decision.splits)
qed

lemma growth_keeps:
  assumes "rng_ok r" "map_of (pool_grants l k) i = Some x"
  shows "map_of (pool_grants (snd (request_growth eid (handle_slot_request r) f v m l)) k) i = Some x"
proof (cases rule: request_growth_cases [of eid r f v m l])
  case (2 d)
  show ?thesis
  proof (cases "k = (f, v)")
    case True
    then show ?thesis
      using request_slot_cases [OF assms(1) 2(1)] assms(2) smallest_unused_free [of "pool_grants l (f, v)"] by auto
  qed (use request_slot_other_pools [OF 2(1)] assms(2) in \<open>simp add: dget_def\<close>)
qed (use assms in simp)

lemma growth_granted:
  assumes "rng_ok r" "fst (request_growth eid (handle_slot_request r) f v m l) = Ok (Granted i)"
  shows "map_of (pool_grants l (f, v)) i = None"
    "map_of (pool_grants (snd (request_growth eid (handle_slot_request r) f v m l)) (f, v)) i = Some eid"
proof -
  have "map_of (pool_grants l (f, v)) i = None \<and>
    map_of (pool_grants (snd (request_growth eid (handle_slot_request r) f v m l)) (f, v)) i = Some eid"
  proof (cases rule: request_growth_cases [of eid r f v m l])
    case (2 d)
    then have "request_slot r f v m eid l = (Granted i, snd (request_growth eid (handle_slot_request r) f v m l))"
      using assms(2) by blast
    from request_slot_cases [OF assms(1) this] show ?thesis using smallest_unused_free by auto
  qed (use assms in blast)
  then show "map_of (pool_grants l (f, v)) i = None"
    "map_of (pool_grants (snd (request_growth eid (handle_slot_request r) f v m l)) (f, v)) i = Some eid"
    by simp_all
qed

lemma growth_within:
  assumes "rng_ok r" "within_cap cap l" "m = cap (f, v)"
  shows "within_cap cap (snd (request_growth eid (handle_slot_request r) f v m l))"
proof (cases rule: request_growth_cases [of eid r f v m l])
  case (2 d)
  then show ?thesis using within_cap_request [OF assms(1,2), of f v eid] assms(3) by (metis snd_conv)
qed (use assms in simp)

lemma client_release_cases:
  "snd (client_release eid handle_slot_release f v i l) = l \<or>
   snd (client_release eid handle_slot_release f v i l) = release_slot f v i eid l"
proof (cases "f = [] \<or> eid = []")
  case True
  then have "slot_release_args (json_command ''CONCURRENCY_SLOT_RELEASE'' [(''function_id'', JStr f), (''version'', JInt v),
      (''slot_index'', JInt i), (''endpoint_id'', JStr eid)]) = Ok None"
    by (auto simp: slot_release_args_def with_env_def json_command_def Let_def)
  then show ?thesis by (simp add: client_release_def handle_slot_release_def)
qed (simp add: client_release_def handle_slot_release_def handle_slot_release_args)

lemma dpop_Nil: "dpop i g = [] \<Longrightarrow> j \<noteq> i \<Longrightarrow> map_of g j = None"
  using map_of_dpop [of i g j] by simp

lemma map_of_release_slot:
  "map_of (pool_grants (release_slot f v i eid l) k) j =
    (if k = (f, v) \<and> j = i \<and> map_of (pool_grants l k) j = Some eid then None else map_of (pool_grants l k) j)"
  by (auto simp: release_slot_def Let_def dget_def split: option.splits dest: dpop_Nil)

lemma release_keeps:
  assumes "map_of (pool_grants l k) j = Some x" "k = (f, v) \<Longrightarrow> j = i \<Longrightarrow> x \<noteq> eid"
  shows "map_of (pool_grants (snd (client_release eid handle_slot_release f v i l)) k) j = Some x"
  using client_release_cases [of eid f v i l] assms by (auto simp: map_of_release_slot)

lemma release_within:
  "within_cap cap l \<Longrightarrow> within_cap cap (snd (client_release eid handle_slot_release f v i l))"
  using client_release_cases [of eid f v i l] within_cap_release [of cap l f v i eid] by metis

lemma dismissed_event:
  "on_container_dismissed eid h \<lparr>ev_type = ty, ev_payload = [(''function_id'', JStr f), (''version'', JInt v),
     (''service_name'', JStr n), (''pool_index'', JInt i)], ev_time = now\<rparr> l = client_release eid h f v i l"
  by (simp add: on_container_dismissed_def jitem_def json_str_def exact_int_def)

text \<open>The effects of an endpoint keep the grants of the others, and the cap if they ask for it.\<close>

lemma ledger_effect_others:
  assumes "rng_ok r" "x \<noteq> eid" "map_of (pool_grants l k) i = Some x"
  shows "map_of (pool_grants (ledger_effect r eid e l) k) i = Some x"
proof (cases e)
  case (Emits ev)
  show ?thesis
  proof (cases "on_container_dismissed eid handle_slot_release ev l")
    case (Pair res l')
    then have "l' = l \<or> (\<exists>f v i. l' = snd (client_release eid handle_slot_release f v i l))"
      by (auto simp: on_container_dismissed_def split: res.splits prod.splits) (metis snd_conv)+
    then show ?thesis using Pair Emits assms(2,3) release_keeps [of l k i x] by auto
  qed
qed (use assms growth_keeps release_keeps in auto)

lemma ledger_effects_others:
  "rng_ok r \<Longrightarrow> x \<noteq> eid \<Longrightarrow> map_of (pool_grants l k) i = Some x \<Longrightarrow>
   map_of (pool_grants (ledger_effects r eid es l) k) i = Some x"
  by (induction es arbitrary: l) (simp_all add: ledger_effect_others)

lemma ledger_effect_within:
  assumes "rng_ok r" "within_cap cap l" "\<And>f v m. e = Asks f v m \<Longrightarrow> m = cap (f, v)"
  shows "within_cap cap (ledger_effect r eid e l)"
proof (cases e)
  case (Emits ev)
  show ?thesis
  proof (cases "on_container_dismissed eid handle_slot_release ev l")
    case (Pair res l')
    then have "l' = l \<or> (\<exists>f v i. l' = snd (client_release eid handle_slot_release f v i l))"
      by (auto simp: on_container_dismissed_def split: res.splits prod.splits) (metis snd_conv)+
    then show ?thesis using Pair Emits assms(2) release_within [of cap l eid] by auto
  qed
qed (use assms growth_within release_within in auto)

lemma ledger_effects_within:
  "rng_ok r \<Longrightarrow> within_cap cap l \<Longrightarrow> (\<And>f v m. Asks f v m \<in> set es \<Longrightarrow> m = cap (f, v)) \<Longrightarrow>
   within_cap cap (ledger_effects r eid es l)"
  by (induction es arbitrary: l) (simp_all add: ledger_effect_within)

section \<open>Containers that hold their slots\<close>

definition knows :: "('d, 'x) summoner_scheme \<Rightarrow> nat \<Rightarrow> bool" where
  "knows s i \<longleftrightarrow> map_of (sm_containers s) i \<noteq> None"

lemma with_container_facts [simp]:
  "sm_handles (with_container i f s) = sm_handles s" "sm_next (with_container i f s) = sm_next s"
  "sm_docker (with_container i f s) = sm_docker s" "knows (with_container i f s) j = knows s j"
  "knows s j \<Longrightarrow> the_container (with_container i f s) j = (if j = i then f (the_container s i) else the_container s j)"
  by (auto simp: with_container_def knows_def the_container_def split: option.split)

lemma with_container_pumps [simp]: "cr_pumps (with_container i f s) = cr_pumps s"
  by (simp add: with_container_def split: option.split)

abbreviation slot_of :: "('d, 'x) summoner_scheme \<Rightarrow> nat \<Rightarrow> int" where
  "slot_of s i \<equiv> ct_pool_index (the_container s i)"

abbreviation key_of :: "('d, 'x) summoner_scheme \<Rightarrow> nat \<Rightarrow> pool" where
  "key_of s i \<equiv> container_key (the_container s i)"

text \<open>
  Every member of a pool has a slot of its own that the ledger grants to the endpoint; a container
  that is alive is a member of its pool; and the pumps serve containers that exist.
\<close>

definition pool_backed :: "string \<Rightarrow> ledger \<Rightarrow> 'd container_runtime \<Rightarrow> pool \<Rightarrow> bool" where
  "pool_backed eid l s k \<longleftrightarrow> distinct (map (slot_of s) (members k s)) \<and>
    (\<forall>i \<in> set (members k s). knows s i \<and> key_of s i = k \<and> map_of (pool_grants l k) (slot_of s i) = Some eid)"

definition alive_pooled :: "'d container_runtime \<Rightarrow> bool" where
  "alive_pooled s \<longleftrightarrow> (\<forall>i. knows s i \<longrightarrow> \<not> ct_dead (the_container s i) \<longrightarrow> i \<in> set (members (key_of s i) s))"

definition store_ok :: "'d container_runtime \<Rightarrow> bool" where
  "store_ok s \<longleftrightarrow> dict_ok (sm_handles s) \<and> (\<forall>i. sm_next s \<le> i \<longrightarrow> \<not> knows s i) \<and>
    (\<forall>name t. map_of (cr_pumps s) name = Some t \<longrightarrow> knows s (pt_container t))"

definition backed :: "string \<Rightarrow> ledger \<Rightarrow> 'd container_runtime \<Rightarrow> bool" where
  "backed eid l s \<longleftrightarrow> store_ok s \<and> alive_pooled s \<and> (\<forall>k. pool_backed eid l s k)"

lemma backedD:
  assumes "backed eid l s"
  shows "store_ok s" "alive_pooled s" "pool_backed eid l s k"
    "i \<in> set (members k s) \<Longrightarrow> knows s i" "i \<in> set (members k s) \<Longrightarrow> key_of s i = k"
    "i \<in> set (members k s) \<Longrightarrow> map_of (pool_grants l k) (slot_of s i) = Some eid"
    "knows s i \<Longrightarrow> \<not> ct_dead (the_container s i) \<Longrightarrow> i \<in> set (members (key_of s i) s)"
    "distinct (members k s)" "inj_on (slot_of s) (set (members k s))"
  using assms unfolding backed_def pool_backed_def alive_pooled_def distinct_map by blast+

lemma backed_keeps:
  assumes "backed eid l s"
    "\<And>k i. map_of (pool_grants l k) i = Some eid \<Longrightarrow> (\<exists>j \<in> set (members k s). slot_of s j = i) \<Longrightarrow>
       map_of (pool_grants l' k) i = Some eid"
  shows "backed eid l' s"
  using assms unfolding backed_def pool_backed_def by blast

text \<open>A change of a container that keeps its identity and brings nothing dead back to life.\<close>

lemma backed_with_container:
  assumes "backed eid l s"
    "container_key (f (the_container s i)) = key_of s i" "ct_pool_index (f (the_container s i)) = slot_of s i"
    "ct_dead (the_container s i) \<Longrightarrow> ct_dead (f (the_container s i))"
  shows "backed eid l (with_container i f s)"
proof -
  have m: "members k (with_container i f s) = members k s" for k by simp
  have k: "key_of (with_container i f s) j = key_of s j" "slot_of (with_container i f s) j = slot_of s j"
    "ct_dead (the_container s j) \<Longrightarrow> ct_dead (the_container (with_container i f s) j)" if "knows s j" for j
    using assms that by auto
  have "pool_backed eid l (with_container i f s) p" for p
  proof -
    have "\<forall>j \<in> set (members p s). knows s j" using backedD(4) [OF assms(1)] by blast
    then have "map (slot_of (with_container i f s)) (members p s) = map (slot_of s) (members p s)"
      using k(2) by (intro map_cong) auto
    then show ?thesis using backedD(3) [OF assms(1), of p] k(1,2)
      unfolding pool_backed_def m with_container_facts(4) by metis
  qed
  moreover have "alive_pooled (with_container i f s)"
    using backedD(2) [OF assms(1)] k(1,3) unfolding alive_pooled_def m with_container_facts(4) by metis
  moreover have "store_ok (with_container i f s)" using backedD(1) [OF assms(1)] by (simp add: store_ok_def)
  ultimately show ?thesis by (simp add: backed_def)
qed

lemma backed_fields [simp]:
  "backed eid l (s\<lparr>cr_attempts := a\<rparr>) = backed eid l s" "backed eid l (s\<lparr>sm_docker := d\<rparr>) = backed eid l s"
  "knows (s\<lparr>cr_attempts := a\<rparr>) = knows s" "knows (s\<lparr>sm_docker := d\<rparr>) = knows s" "knows (s\<lparr>cr_pumps := p\<rparr>) = knows s"
  "the_container (s\<lparr>cr_attempts := a\<rparr>) = the_container s" "the_container (s\<lparr>sm_docker := d\<rparr>) = the_container s"
  "the_container (s\<lparr>cr_pumps := p\<rparr>) = the_container s"
  by (simp_all add: backed_def pool_backed_def alive_pooled_def store_ok_def knows_def the_container_def fun_eq_iff)

lemma backed_pumps:
  assumes "backed eid l s" "\<And>name t. map_of p name = Some t \<Longrightarrow> knows s (pt_container t)"
  shows "backed eid l (s\<lparr>cr_pumps := p\<rparr>)"
  using assms by (simp add: backed_def pool_backed_def alive_pooled_def store_ok_def)

lemma pump_known: "backed eid l s \<Longrightarrow> map_of (cr_pumps s) name = Some t \<Longrightarrow> knows s (pt_container t)"
  by (auto simp: backed_def store_ok_def)

lemma backed_with_pump:
  assumes "backed eid l s"
  shows "backed eid l (with_pump name ph s)" "knows (with_pump name ph s) = knows s"
    "the_container (with_pump name ph s) = the_container s"
  using assms pump_known [OF assms] by (auto simp: with_pump_def split: option.split if_splits intro!: backed_pumps [OF assms])

section \<open>Reserving and dismissing\<close>

lemma members_forget:
  "members k (forget i s) = (if k = key_of s i then remove1 i (members k s) else members k s)"
  by (auto simp: forget_def Let_def dget_def split: option.split)

lemma forget_facts [simp]:
  "sm_containers (forget i s) = sm_containers s" "sm_next (forget i s) = sm_next s" "knows (forget i s) = knows s"
  "the_container (forget i s) = the_container s" "dict_ok (sm_handles s) \<Longrightarrow> dict_ok (sm_handles (forget i s))"
  by (auto simp: forget_def Let_def knows_def the_container_def fun_eq_iff split: option.split)

lemma forget_pumps [simp]: "cr_pumps (forget i s) = cr_pumps s"
  by (simp add: forget_def Let_def split: option.split)

text \<open>A slot that is granted to the endpoint and has no container yet.\<close>

definition open_slot :: "string \<Rightarrow> pool \<Rightarrow> int \<Rightarrow> ledger \<Rightarrow> 'd container_runtime \<Rightarrow> bool" where
  "open_slot eid k idx l s \<longleftrightarrow> map_of (pool_grants l k) idx = Some eid \<and> (\<forall>i \<in> set (members k s). slot_of s i \<noteq> idx)"

lemma backed_reserve:
  assumes "backed eid l s" "open_slot eid k idx l s" "reserve C k spec idx s = (i, s', es)"
  shows "backed eid l s'" "\<And>j. knows s j \<Longrightarrow> knows s' j" "knows s' i" "es = [Starts (Spawn_Thread i spec)]"
proof -
  have i: "i = sm_next s" and es: "es = [Starts (Spawn_Thread i spec)]"
    and s': "s' = s\<lparr>sm_containers := dput i (new_container C k spec idx) (sm_containers s),
           sm_handles := dput k (members k s @ [i]) (sm_handles s), sm_next := i + 1\<rparr>"
    using assms(3) by (auto simp: reserve_def Let_def)
  have new: "\<not> knows s i" using backedD(1) [OF assms(1)] by (simp add: store_ok_def i)
  have kn: "knows s' j \<longleftrightarrow> j = i \<or> knows s j" for j by (auto simp: s' knows_def)
  have c: "the_container s' j = (if j = i then new_container C k spec idx else the_container s j)" for j
    by (simp add: s' the_container_def)
  have n: "container_key (new_container C k spec idx) = k" "ct_pool_index (new_container C k spec idx) = idx"
    by (simp_all add: new_container_def container_key_def Let_def)
  have m: "members p s' = (if p = k then members p s @ [i] else members p s)" for p by (simp add: s')
  have ni: "i \<notin> set (members p s)" for p using backedD(4) [OF assms(1)] new by blast
  have sl: "map (slot_of s') (members p s) = map (slot_of s) (members p s)" for p
    using ni [of p] by (intro map_cong) (auto simp: c)
  have "pool_backed eid l s' p" for p
  proof (cases "p = k")
    case True
    have e: "map (slot_of s') (members k s') = map (slot_of s) (members k s) @ [idx]" using sl [of k] by (simp add: m c n)
    have "distinct (map (slot_of s') (members k s'))"
      unfolding e using backedD(3) [OF assms(1), of k] assms(2) by (auto simp: pool_backed_def open_slot_def)
    then show ?thesis
      using backedD(3) [OF assms(1), of k] assms(2) ni [of k] True
      unfolding pool_backed_def open_slot_def by (auto simp: m kn c n)
  next
    case False
    have e: "map (slot_of s') (members p s') = map (slot_of s) (members p s)" using sl [of p] False by (simp add: m)
    show ?thesis using backedD(3) [OF assms(1), of p] ni [of p] False
      unfolding pool_backed_def e by (auto simp: m kn c)
  qed
  moreover have "alive_pooled s'"
    using backedD(2) [OF assms(1)] new by (auto simp: alive_pooled_def m kn c n)
  moreover have "store_ok s'"
    using backedD(1) [OF assms(1)] by (auto simp: store_ok_def kn i) (simp_all add: s' i)
  ultimately show "backed eid l s'" by (simp add: backed_def)
  show "\<And>j. knows s j \<Longrightarrow> knows s' j" "knows s' i" "es = [Starts (Spawn_Thread i spec)]" using kn es by auto
qed

text \<open>Docker stops every container that it is asked to stop.\<close>

definition always_stops :: "'d docker \<Rightarrow> bool" where
  "always_stops D \<longleftrightarrow> (\<forall>mode cid sid d. fst (spawner_stop D mode cid sid d) = Ok ())"

lemma distinct_map_remove1: "distinct (map f xs) \<Longrightarrow> distinct (map f (remove1 i xs))"
proof (induction xs)
  case (Cons x xs)
  then show ?case using set_remove1_subset [of i xs] by auto
qed simp

lemma backed_forget:
  assumes "backed eid l s" "i \<in> set (members k s)" "ct_dead (the_container s i)"
  shows "backed eid l (forget i s)" "\<And>j. j \<in> set (members k (forget i s)) \<Longrightarrow> slot_of s j \<noteq> slot_of s i"
proof -
  have ki: "key_of s i = k" by (rule backedD(5) [OF assms(1,2)])
  have m: "members p (forget i s) = (if p = k then remove1 i (members p s) else members p s)" for p
    by (simp add: members_forget ki)
  have sub: "j \<in> set (members p s)" if "j \<in> set (members p (forget i s))" for p j
    using that set_remove1_subset [of i "members p s"] by (auto simp: m split: if_splits)
  have d: "distinct (map (slot_of s) (members p (forget i s)))" for p
    using backedD(3) [OF assms(1), of p] by (auto simp: m pool_backed_def intro: distinct_map_remove1)
  have "pool_backed eid l (forget i s) p" for p
    using d backedD(4,5,6) [OF assms(1) sub [of _ p]] by (simp add: pool_backed_def)
  moreover have "alive_pooled (forget i s)"
    unfolding alive_pooled_def m forget_facts
  proof (intro allI impI)
    fix j
    assume "knows s j" "\<not> ct_dead (the_container s j)"
    then have "j \<in> set (members (key_of s j) s)" "j \<noteq> i" using backedD(7) [OF assms(1)] assms(3) by blast+
    then show "j \<in> set (if key_of s j = k then remove1 i (members (key_of s j) s) else members (key_of s j) s)"
      by (cases "key_of s j = k") (metis in_set_remove1, metis)
  qed
  moreover have "store_ok (forget i s)" using backedD(1) [OF assms(1)] by (simp add: store_ok_def)
  ultimately show "backed eid l (forget i s)" by (simp add: backed_def)
  fix j
  assume j: "j \<in> set (members k (forget i s))"
  then have "j \<noteq> i" using backedD(8) [OF assms(1), of k] by (auto simp: m)
  then show "slot_of s j \<noteq> slot_of s i" using inj_onD [OF backedD(9) [OF assms(1)] _ sub [OF j] assms(2)] by blast
qed

text \<open>What a dismissal of a member does: to the pools, the containers, the ledger.\<close>

lemma dismiss_facts:
  assumes "always_stops D" "backed eid l s" "i \<in> set (members k s)" "dismiss D i reason now s = (s', es)"
  shows "members p s' = (if p = k then remove1 i (members p s) else members p s)" "knows s' = knows s"
    "knows s j \<Longrightarrow> the_container s' j = (if j = i then (the_container s i)\<lparr>ct_status := DISMISSED\<rparr> else the_container s j)"
    "Starts t \<notin> set es" "Asks f v m \<notin> set es" "cr_attempts s' = cr_attempts s"
    "ledger_effects r eid es l = snd (client_release eid handle_slot_release (fst k) (snd k) (slot_of s i) l)"
    "backed eid (ledger_effects r eid es l) s'"
proof -
  let ?s = "with_container i (\<lambda>c. c\<lparr>ct_status := DISMISSED\<rparr>) s"
  let ?c = "the_container ?s i"
  let ?stop = "spawner_stop D (ct_mode ?c) (ct_container_id ?c) (ct_service_id ?c) (sm_docker ?s)"
  have "fst ?stop = Ok ()" using assms(1) by (simp add: always_stops_def)
  then obtain d where d: "?stop = (Ok (), d)" by (metis prod.collapse)
  have kn: "knows s i" and ki: "key_of s i = k" using backedD(4,5) [OF assms(2,3)] by simp_all
  have s': "s' = forget i (?s\<lparr>sm_docker := d\<rparr>)"
    and es: "es = [container_event ''CONTAINER_DISMISSED'' ?c
             [(''service_name'', JStr (ct_service_name ?c)), (''pool_index'', JInt (ct_pool_index ?c))] now,
           container_event ''FUNCTION_STOPPED'' ?c [(''reason'', JStr reason)] now]"
    using assms(4) d by (simp_all add: dismiss_def Let_def)
  have c: "ct_pool_index ?c = slot_of s i" "ct_function_id ?c = fst k" "ct_version ?c = snd k" "container_key ?c = k"
    "ct_dead ?c" using kn ki by (auto simp: container_key_def ct_dead_iff)
  have b: "backed eid l (?s\<lparr>sm_docker := d\<rparr>)"
    unfolding backed_fields by (rule backed_with_container [OF assms(2)]) (auto simp: container_key_def ct_dead_iff)
  have mem: "i \<in> set (members k (?s\<lparr>sm_docker := d\<rparr>))" using assms(3) by simp
  have dead: "ct_dead (the_container (?s\<lparr>sm_docker := d\<rparr>) i)" using c(5) by simp
  have ki': "key_of (?s\<lparr>sm_docker := d\<rparr>) i = k" using c(4) by simp
  show m: "members p s' = (if p = k then remove1 i (members p s) else members p s)" for p
    unfolding s' members_forget ki' by simp
  show "knows s' = knows s" by (simp add: s' fun_eq_iff)
  show the: "the_container s' j = (if j = i then (the_container s i)\<lparr>ct_status := DISMISSED\<rparr> else the_container s j)"
    if "knows s j" for j using that by (simp add: s')
  show "Starts t \<notin> set es" "Asks f v m \<notin> set es" by (simp_all add: es container_event_def)
  have fs: "cr_attempts (forget i u) = cr_attempts u" for u :: "'a container_runtime"
    by (simp add: forget_def Let_def split: option.split)
  have ws: "cr_attempts (with_container i f s) = cr_attempts s" for f by (simp add: with_container_def split: option.split)
  show "cr_attempts s' = cr_attempts s" by (simp add: s' fs ws)
  show l: "ledger_effects r eid es l = snd (client_release eid handle_slot_release (fst k) (snd k) (slot_of s i) l)"
    by (simp add: es container_event_def dismissed_event c(1,2,3))
  show "backed eid (ledger_effects r eid es l) s'"
  proof (rule backed_keeps)
    show "backed eid l s'" unfolding s' by (rule backed_forget(1) [OF b mem dead])
    fix p idx
    assume g: "map_of (pool_grants l p) idx = Some eid" and j: "\<exists>j \<in> set (members p s'). slot_of s' j = idx"
    have "idx \<noteq> slot_of s i" if p: "p = k"
    proof -
      obtain j where j: "j \<in> set (members k s')" "slot_of s' j = idx" using j p by blast
      then have "slot_of (?s\<lparr>sm_docker := d\<rparr>) j \<noteq> slot_of (?s\<lparr>sm_docker := d\<rparr>) i"
        using backed_forget(2) [OF b mem dead] unfolding s' by blast
      moreover have "slot_of (?s\<lparr>sm_docker := d\<rparr>) j = idx" using j(2) by (simp add: s')
      moreover have "slot_of (?s\<lparr>sm_docker := d\<rparr>) i = slot_of s i" unfolding backed_fields by (rule c(1))
      ultimately show ?thesis by metis
    qed
    then show "map_of (pool_grants (ledger_effects r eid es l) p) idx = Some eid"
      unfolding l by (intro release_keeps [OF g]) auto
  qed
qed

section \<open>Sound operations\<close>

fun thread_known :: "('d, 'x) summoner_scheme \<Rightarrow> thread \<Rightarrow> bool" where
  "thread_known s (Dispatch_Thread i job ps) = knows s i"
| "thread_known s _ = True"

text \<open>
  An operation with its effects is sound when it keeps the containers backed by the ledger that its
  effects lead to, forgets no container, starts threads for containers that exist only, and asks
  for growth within the cap.
\<close>

definition sound ::
  "rng \<Rightarrow> (pool \<Rightarrow> int) \<Rightarrow> string \<Rightarrow> ledger \<Rightarrow> 'd container_runtime \<Rightarrow>
   'd container_runtime \<times> container_effect list \<Rightarrow> bool" where
  "sound r cap eid l s x \<longleftrightarrow> backed eid (ledger_effects r eid (snd x) l) (fst x) \<and> (\<forall>i. knows s i \<longrightarrow> knows (fst x) i) \<and>
     (\<forall>t. Starts t \<in> set (snd x) \<longrightarrow> thread_known (fst x) t) \<and>
     (\<forall>f v m. Asks f v m \<in> set (snd x) \<longrightarrow> m = cap (f, v))"

lemma soundD:
  assumes "sound r cap eid l s (s', es)"
  shows "backed eid (ledger_effects r eid es l) s'" "knows s i \<Longrightarrow> knows s' i"
    "Starts t \<in> set es \<Longrightarrow> thread_known s' t" "Asks f v m \<in> set es \<Longrightarrow> m = cap (f, v)"
  using assms unfolding sound_def by simp_all

lemma thread_known_mono: "thread_known s t \<Longrightarrow> (\<And>i. knows s i \<Longrightarrow> knows s' i) \<Longrightarrow> thread_known s' t"
  by (cases t) simp_all

lemma sound_seq:
  assumes "sound r cap eid l s (s1, es1)" "sound r cap eid (ledger_effects r eid es1 l) s1 (s2, es2)"
  shows "sound r cap eid l s (s2, es1 @ es2)"
  unfolding sound_def fst_conv snd_conv ledger_effects_simps set_append Un_iff
  using soundD [OF assms(1)] soundD [OF assms(2)] thread_known_mono [of s1 _ s2] by blast

lemma sound_then:
  assumes "sound r cap eid l s (s1, es)" "backed eid (ledger_effects r eid es l) s2" "\<And>i. knows s1 i \<Longrightarrow> knows s2 i"
  shows "sound r cap eid l s (s2, es)"
  using assms thread_known_mono [of s1 _ s2] by (simp add: sound_def)

text \<open>Effects that do not concern the ledger.\<close>

fun aside :: "container_effect \<Rightarrow> bool" where
  "aside (Completes h v ws) = True"
| "aside (Forwards job target) = True"
| "aside (Starts t) = True"
| "aside (Emits e) = (ev_type e \<noteq> ''CONTAINER_DISMISSED'')"
| "aside _ = False"

lemma aside_ledger: "list_all aside es \<Longrightarrow> ledger_effects r eid es l = l"
proof (induction es)
  case (Cons e es)
  then show ?case by (cases e) simp_all
qed simp

lemma sound_aside:
  assumes "backed eid l s'" "\<And>i. knows s i \<Longrightarrow> knows s' i" "list_all aside es"
    "\<And>t. Starts t \<in> set es \<Longrightarrow> thread_known s' t"
  shows "sound r cap eid l s (s', es)"
proof -
  have "Asks f v m \<notin> set es" for f v m using assms(3) by (auto simp: list_all_iff)
  then show ?thesis using assms by (simp add: sound_def aside_ledger)
qed

lemmas sound_quiet = sound_aside [of eid l s' s "[]" for eid l s' s, simplified]

lemma sound_dismiss:
  assumes "always_stops D" "backed eid l s" "i \<in> set (members k s)"
  shows "sound r cap eid l s (dismiss D i reason now s)"
proof -
  obtain s' es where d: "dismiss D i reason now s = (s', es)" by fastforce
  note facts = dismiss_facts [OF assms d]
  show ?thesis unfolding d sound_def fst_conv snd_conv using facts(2,4,5,8) by simp
qed

lemma open_slot_dismiss:
  assumes "always_stops D" "backed eid l s" "i \<in> set (members k s)" "dismiss D i reason now s = (s', es)"
    "open_slot eid p idx l s"
  shows "open_slot eid p idx (ledger_effects r eid es l) s'"
proof -
  note facts = dismiss_facts [OF assms(1-4)]
  have "map_of (pool_grants (ledger_effects r eid es l) p) idx = Some eid"
    unfolding facts(7) using assms(3,5) by (intro release_keeps) (auto simp: open_slot_def)
  moreover have "slot_of s' j \<noteq> idx" if "j \<in> set (members p s')" for j
  proof -
    have "j \<in> set (members p s)" using that set_remove1_subset [of i "members p s"] by (auto simp: facts(1) split: if_splits)
    moreover from this have "slot_of s' j = slot_of s j"
      using facts(3) [of j] backedD(4) [OF assms(2)] by simp
    ultimately show ?thesis using assms(5) by (simp add: open_slot_def)
  qed
  ultimately show ?thesis by (simp add: open_slot_def)
qed

lemma in_all_members: "store_ok s \<Longrightarrow> i \<in> set (all_members s) \<longleftrightarrow> (\<exists>k. i \<in> set (members k s))"
proof -
  assume "store_ok s"
  then have d: "dict_ok (sm_handles s)" by (simp add: store_ok_def)
  have "i \<in> set (all_members s) \<longleftrightarrow> (\<exists>k pool. map_of (sm_handles s) k = Some pool \<and> i \<in> set pool)"
    by (simp only: all_members_def in_concat_dvalues dict_ok_mem_iff [OF d])
  moreover have "(\<exists>pool. map_of (sm_handles s) k = Some pool \<and> i \<in> set pool) \<longleftrightarrow> i \<in> set (members k s)" for k
    by (cases "map_of (sm_handles s) k") simp_all
  ultimately show ?thesis by presburger
qed

lemma sound_dismiss_all:
  assumes "always_stops D" "backed eid l s" "distinct xs" "\<And>i. i \<in> set xs \<Longrightarrow> \<exists>k. i \<in> set (members k s)"
    "dismiss_all D reason now xs s = (s', es)"
  shows "sound r cap eid l s (s', es) \<and> (\<forall>p. set (members p s') \<subseteq> set (members p s)) \<and>
    (\<forall>p idx. open_slot eid p idx l s \<longrightarrow> open_slot eid p idx (ledger_effects r eid es l) s')"
  using assms(2-)
proof (induction xs arbitrary: s es l)
  case Nil
  then show ?case by (auto intro: sound_quiet)
next
  case (Cons i xs)
  obtain k where k: "i \<in> set (members k s)" using Cons.prems(3) by (metis list.set_intros(1))
  obtain s1 es1 where d: "dismiss D i reason now s = (s1, es1)" by fastforce
  obtain es2 where r: "dismiss_all D reason now xs s1 = (s', es2)" and es: "es = es1 @ es2"
    using Cons.prems(4) by (auto simp: d split: prod.splits)
  note facts = dismiss_facts [OF assms(1) Cons.prems(1) k d]
  have mem: "\<exists>k. j \<in> set (members k s1)" if j: "j \<in> set xs" for j
  proof -
    obtain p where "j \<in> set (members p s)" using Cons.prems(3) j by (metis list.set_intros(2))
    moreover have "j \<noteq> i" using j Cons.prems(2) by auto
    ultimately have "j \<in> set (members p s1)" unfolding facts(1) by (cases "p = k") auto
    then show ?thesis by blast
  qed
  have "distinct xs" using Cons.prems(2) by simp
  note IH = Cons.IH [OF facts(8) this mem r]
  have "sound r cap eid l s (s', es)"
    unfolding es using sound_dismiss [OF assms(1) Cons.prems(1) k, of r cap reason now] IH unfolding d
    by (blast intro: sound_seq)
  moreover have "set (members p s') \<subseteq> set (members p s)" for p
    using IH set_remove1_subset [of i "members p s"] by (fastforce simp: facts(1) split: if_splits)
  moreover have "open_slot eid p idx l s \<Longrightarrow> open_slot eid p idx (ledger_effects r eid es l) s'" for p idx
    using IH open_slot_dismiss [OF assms(1) Cons.prems(1) k d] by (simp add: es)
  ultimately show ?case by blast
qed

section \<open>The summoner's operations\<close>

lemma sound_dismiss_stale:
  assumes "always_stops D" "backed eid l s" "dismiss_stale D k now s = (s', es)"
  shows "sound r cap eid l s (s', es)" "set (members p s') \<subseteq> set (members p s)"
    "open_slot eid p idx l s \<Longrightarrow> open_slot eid p idx (ledger_effects r eid es l) s'"
proof -
  let ?xs = "filter (\<lambda>i. ct_dead (the_container s i)) (members k s)"
  have "distinct ?xs" using backedD(8) [OF assms(2)] by simp
  moreover have "\<exists>k. i \<in> set (members k s)" if "i \<in> set ?xs" for i using that by auto
  ultimately have "sound r cap eid l s (s', es) \<and> (\<forall>p. set (members p s') \<subseteq> set (members p s)) \<and>
      (\<forall>p idx. open_slot eid p idx l s \<longrightarrow> open_slot eid p idx (ledger_effects r eid es l) s')"
    using assms(3) unfolding dismiss_stale_def by (intro sound_dismiss_all [OF assms(1,2)])
  then show "sound r cap eid l s (s', es)" "set (members p s') \<subseteq> set (members p s)"
    "open_slot eid p idx l s \<Longrightarrow> open_slot eid p idx (ledger_effects r eid es l) s'"
    by blast+
qed

lemma distinct_pools:
  assumes "dict_ok d" "\<And>k pool. (k, pool) \<in> set d \<Longrightarrow> distinct pool \<and> (\<forall>i \<in> set pool. key i = k)"
  shows "distinct (concat (dvalues d))"
  using assms
proof (induction d)
  case (Cons q d)
  obtain k pool where q: "q = (k, pool)" by (cases q)
  have d: "dict_ok d" "k \<notin> fst ` set d" using Cons.prems(1) by (auto simp: dict_ok_def q)
  have one: "distinct pool \<and> (\<forall>i \<in> set pool. key i = k)" using Cons.prems(2) [of k pool] q by simp
  have rest: "distinct pool' \<and> (\<forall>i \<in> set pool'. key i = k')" if "(k', pool') \<in> set d" for k' pool'
    using Cons.prems(2) [of k' pool'] that by simp
  have "i \<notin> set (concat (dvalues d))" if "i \<in> set pool" for i
  proof
    assume "i \<in> set (concat (dvalues d))"
    then obtain k' pool' where p: "(k', pool') \<in> set d" "i \<in> set pool'" by (auto simp: in_concat_dvalues)
    then have "k' = k" using one rest [OF p(1)] that by metis
    then show False using d(2) p(1) by (auto simp: image_iff)
  qed
  then show ?case using Cons.IH [OF d(1) rest] one q by auto
qed simp

lemma sound_sweep:
  assumes "always_stops D" "backed eid l s"
  shows "sound r cap eid l s (sweep_containers D p reason now s)"
proof -
  let ?xs = "filter (\<lambda>i. p (the_container s i)) (all_members s)"
  have d: "dict_ok (sm_handles s)" using backedD(1) [OF assms(2)] by (simp add: store_ok_def)
  have "distinct pool \<and> (\<forall>i \<in> set pool. key_of s i = k)" if "(k, pool) \<in> set (sm_handles s)" for k pool
  proof -
    have "members k s = pool" using that by (simp add: dict_ok_mem_iff [OF d])
    then show ?thesis using backedD(8) [OF assms(2), of k] backedD(5) [OF assms(2), of _ k] by blast
  qed
  then have "distinct (all_members s)" unfolding all_members_def by (rule distinct_pools [OF d])
  then have "distinct ?xs" by simp
  moreover have "\<exists>k. i \<in> set (members k s)" if "i \<in> set ?xs" for i
    using that in_all_members [OF backedD(1) [OF assms(2)], of i] by simp
  moreover obtain s' es where "dismiss_all D reason now ?xs s = (s', es)" by fastforce
  ultimately show ?thesis unfolding sweep_containers_def using sound_dismiss_all [OF assms(1,2)] by fastforce
qed

lemma find_in: "find p xs = Some x \<Longrightarrow> x \<in> set xs"
  by (metis find_Some_iff nth_mem)

lemma sound_find_idle:
  assumes "always_stops D" "backed eid l s" "find_idle D k now s = (found, s', es)"
  shows "sound r cap eid l s (s', es)" "found = Some i \<Longrightarrow> i \<in> set (members k s')"
    "open_slot eid p idx l s \<Longrightarrow> open_slot eid p idx (ledger_effects r eid es l) s'"
proof -
  have d: "dismiss_stale D k now s = (s', es)" and f: "found = find (\<lambda>i. available (the_container s' i)) (live_members k s')"
    using assms(3) by (auto simp: find_idle_def split: prod.splits)
  note stale = sound_dismiss_stale [OF assms(1,2) d]
  show "sound r cap eid l s (s', es)" "open_slot eid p idx l s \<Longrightarrow> open_slot eid p idx (ledger_effects r eid es l) s'"
    by (rule stale(1), rule stale(3))
  show "found = Some i \<Longrightarrow> i \<in> set (members k s')" using find_in [of _ "live_members k s'" i] f by (simp add: live_members_def)
qed

lemma py_min_by_in: "py_min_by f x xs \<in> insert x (set xs)"
proof (induction xs arbitrary: x)
  case (Cons y ys)
  show ?case using Cons [of "if f y < f x then y else x"] by (auto split: if_splits)
qed simp

lemma least_busy_in: "least_busy k s = Some i \<Longrightarrow> i \<in> set (members k s)"
proof -
  assume "least_busy k s = Some i"
  then obtain x xs where "live_members k s = x # xs" "i = py_min_by (\<lambda>i. ct_invocation_count (the_container s i)) x xs"
    by (auto simp: least_busy_def least_invoked_def split: list.splits)
  then have "i \<in> set (live_members k s)" using py_min_by_in by (metis list.simps(15))
  then show ?thesis by (simp add: live_members_def)
qed

lemma sound_summon_at:
  assumes "always_stops D" "backed eid l s" "open_slot eid k idx l s" "summon_at C D k spec idx now s = (i, s', es)"
  shows "sound r cap eid l s (s', es)" "knows s' i"
proof -
  obtain s1 es1 es2 where d: "dismiss_stale D k now s = (s1, es1)" and r: "reserve C k spec idx s1 = (i, s', es2)"
    and es: "es = es1 @ es2"
    using assms(4) by (auto simp: summon_at_def split: prod.splits)
  note stale = sound_dismiss_stale [OF assms(1,2) d]
  note b = soundD [OF stale(1)]
  note res = backed_reserve [OF b(1) stale(3) [OF assms(3)] r]
  show "knows s' i" by (rule res(3))
  show "sound r cap eid l s (s', es)"
    unfolding es by (rule sound_seq [OF stale(1)], rule sound_aside) (use res in auto)
qed

section \<open>The runtime's operations\<close>

lemma backed_ensure_pump:
  assumes "backed eid l s" "knows s i"
  shows "backed eid l (ensure_pump i s)" "knows (ensure_pump i s) = knows s" "the_container (ensure_pump i s) = the_container s"
proof -
  show "backed eid l (ensure_pump i s)"
  proof (cases "ensure_pump i s = s")
    case False
    then show ?thesis using assms pump_known [OF assms(1)]
      by (auto simp: ensure_pump_def Let_def split: if_splits intro!: backed_pumps)
  qed (use assms in simp)
  show "knows (ensure_pump i s) = knows s" "the_container (ensure_pump i s) = the_container s"
    by (simp_all add: ensure_pump_def Let_def)
qed

lemma backed_enqueue:
  "backed eid l s \<Longrightarrow> \<not> ct_dead (the_container s i) \<Longrightarrow> backed eid l (enqueue_job i job ps now s)"
  "knows (enqueue_job i job ps now s) = knows s"
  by (auto simp: enqueue_job_def container_key_def fun_eq_iff intro!: backed_with_container)

lemma sound_send:
  assumes "backed eid l s" "knows s i" "\<not> ct_dead (the_container s i)"
  shows "sound r cap eid l s (enqueue_job i job ps now (ensure_pump i s), [])"
proof (rule sound_quiet)
  show "backed eid l (enqueue_job i job ps now (ensure_pump i s))"
    using assms(3) by (intro backed_enqueue(1) backed_ensure_pump(1) assms(1,2)) (simp add: backed_ensure_pump(3) [OF assms(1,2)])
  show "\<And>j. knows s j \<Longrightarrow> knows (enqueue_job i job ps now (ensure_pump i s)) j"
    by (simp add: backed_enqueue(2) backed_ensure_pump(2) [OF assms(1,2)])
qed

lemma sound_dispatch_once_ready:
  assumes "backed eid l s" "knows s i"
  shows "sound r cap eid l s (dispatch_once_ready i job ps now s)"
  using assms sound_send [OF assms] by (auto simp: dispatch_once_ready_def Let_def intro: sound_aside)

lemma sound_dispatch:
  assumes "backed eid l s" "knows s i"
  shows "sound r cap eid l s (dispatch i job ps now s)"
proof (cases "ct_ready_event (the_container s i) \<and> \<not> ct_dead (the_container s i)")
  case True
  then show ?thesis using sound_send [OF assms] by (simp add: dispatch_def Let_def)
next
  case False
  have "backed eid l (with_container i (\<lambda>c. c\<lparr>ct_status := BUSY\<rparr>) s)" if "\<not> ct_dead (the_container s i)"
    using that assms(1) by (intro backed_with_container) (simp_all add: container_key_def)
  then show ?thesis using False assms
    by (auto simp: dispatch_def Let_def intro!: sound_aside)
qed

text \<open>The specifications of a catalog name the caps.\<close>

definition capped :: "(pool \<Rightarrow> int) \<Rightarrow> 'd runtime_env \<Rightarrow> bool" where
  "capped cap V \<longleftrightarrow> (\<forall>key r spec. re_catalog V key = Ok (Some r) \<longrightarrow> fr_runtime_spec r = Some spec \<longrightarrow>
     rs_max_concurrency spec = cap (key_pool key))"

definition chosen_known :: "'d container_runtime \<Rightarrow> nat option res \<Rightarrow> bool" where
  "chosen_known s r \<longleftrightarrow> (\<forall>i. r = Ok (Some i) \<longrightarrow> knows s i)"

lemma sound_place_job:
  assumes "always_stops (re_docker V)" "backed eid l s"
    "\<And>idx. decision = Granted idx \<Longrightarrow> open_slot eid (key_pool key) idx l s"
    "place_job V P key job ps spec now decision s = (res, s', es)"
  shows "sound r cap eid l s (s', es) \<and> chosen_known s' res"
proof (cases decision)
  case (Granted idx)
  obtain i where "summon_at (re_config V) (re_docker V) (key_pool key) spec idx now s = (i, s', es)" "res = Ok (Some i)"
    using assms(4) Granted by (auto simp: place_job_def split: prod.splits)
  then show ?thesis using sound_summon_at [OF assms(1,2) assms(3) [OF Granted]] by (auto simp: chosen_known_def)
next
  case (Place target)
  have "list_all aside es \<and> (\<forall>t. Starts t \<notin> set es) \<and> s' = s \<and> chosen_known s res"
    using assms(4) Place backedD(4) [OF assms(2) least_busy_in [of "key_pool key" s]]
    by (auto simp: place_job_def chosen_known_def split: if_splits option.splits res.splits)
  then show ?thesis using assms(2) by (auto intro: sound_aside)
next
  case Retry
  then show ?thesis using assms(2,4) by (auto simp: place_job_def chosen_known_def intro: sound_quiet)
qed

lemma sound_grow_or_place:
  assumes "always_stops (re_docker V)" "rng_ok r" "rs_max_concurrency spec = cap (key_pool key)"
    "backed eid (ledger_effects r eid before l) s"
    "grow_or_place V (ledger_placement r eid forward l) before key job ps spec now s = (res, s', es)"
  shows "sound r cap eid (ledger_effects r eid before l) s (s', es) \<and> chosen_known s' res"
proof -
  obtain f v where k: "key_pool key = (f, v)" by fastforce
  let ?l = "ledger_effects r eid before l"
  let ?ask = "Asks f v (rs_max_concurrency spec)"
  let ?req = "request_growth eid (handle_slot_request r) f v (rs_max_concurrency spec) ?l"
  have b: "backed eid (snd ?req) s"
    by (rule backed_keeps [OF assms(4)]) (rule growth_keeps [OF assms(2)])
  have slots: "open_slot eid (key_pool key) idx (snd ?req) s" if "fst ?req = Ok (Granted idx)" for idx
    using growth_granted [OF assms(2) that] backedD(6) [OF assms(4), of _ "(f, v)"]
    by (auto simp: open_slot_def k)
  have ask: "sound r cap eid ?l s (s, [?ask])" using b assms(3) by (simp add: sound_def k)
  show ?thesis
  proof (cases "fst ?req")
    case (Ok d)
    obtain es2 where p: "place_job V (ledger_placement r eid forward l) key job ps spec now d s = (res, s', es2)"
      and es: "es = ?ask # es2"
      using assms(5) Ok k by (auto simp: grow_or_place_def ledger_placement_def split: prod.splits)
    have "sound r cap eid (snd ?req) s (s', es2) \<and> chosen_known s' res"
      by (rule sound_place_job [OF assms(1) b _ p]) (rule slots, simp add: Ok)
    then show ?thesis using sound_seq [OF ask, of s' es2] by (simp add: es)
  next
    case (Err e)
    then show ?thesis using assms(5) ask k
      by (auto simp: grow_or_place_def ledger_placement_def chosen_known_def)
  next
    case (Raise ex)
    then show ?thesis using assms(5) ask k
      by (auto simp: grow_or_place_def ledger_placement_def chosen_known_def)
  qed
qed

lemma sound_choose:
  assumes "always_stops (re_docker V)" "rng_ok r" "\<And>x. spec = Some x \<Longrightarrow> rs_max_concurrency x = cap (key_pool key)"
    "backed eid l s"
    "choose_container V (Some (ledger_placement r eid forward l)) key job ps spec now s = (res, s', es)"
  shows "sound r cap eid l s (s', es) \<and> chosen_known s' res"
proof -
  obtain found s1 es1 where f: "find_idle (re_docker V) (key_pool key) now s = (found, s1, es1)"
    by (metis prod_cases3)
  note idle = sound_find_idle [OF assms(1,4) f]
  note b = soundD(1) [OF idle(1), of r]
  show ?thesis
  proof (cases found)
    case (Some i)
    then show ?thesis using assms(5) f idle(1,2) backedD(4) [OF b, of i "key_pool key"]
      by (auto simp: choose_container_def resolve_placement_def chosen_known_def)
  next
    case None
    show ?thesis
    proof (cases spec)
      case (Some x)
      obtain es2 where g: "grow_or_place V (ledger_placement r eid forward l) es1 key job ps x now s1 = (res, s', es2)"
        and es: "es = es1 @ es2"
        using assms(5) f None Some by (auto simp: choose_container_def resolve_placement_def with_spec_def split: prod.splits)
      show ?thesis
        using sound_grow_or_place [where cap = cap, OF assms(1,2) assms(3) [OF Some] b g] sound_seq [OF idle(1)] by (simp add: es)
    next
      case None
      then show ?thesis using assms(5) f \<open>found = None\<close> idle(1)
        by (auto simp: choose_container_def resolve_placement_def with_spec_def chosen_known_def)
    qed
  qed
qed

lemma sound_invoke:
  assumes "always_stops (re_docker V)" "rng_ok r" "capped cap V" "backed eid l s"
    "crt_invoke V (Some (ledger_placement r eid forward l)) key job ps now s = (res, s', es)"
  shows "sound r cap eid l s (s', es)"
proof (cases "re_catalog V key")
  case (Ok found)
  show ?thesis
  proof (cases found)
    case (Some x)
    obtain c s1 es1 where ch: "choose_container V (Some (ledger_placement r eid forward l)) key job ps (fr_runtime_spec x) now s =
        (c, s1, es1)" by (metis prod_cases3)
    have "rs_max_concurrency spec = cap (key_pool key)" if "fr_runtime_spec x = Some spec" for spec
      using assms(3) Ok Some that by (auto simp: capped_def)
    note chosen = sound_choose [where cap = cap, OF assms(1,2) this assms(4) ch]
    show ?thesis
    proof (cases c)
      case (Ok found')
      show ?thesis
      proof (cases found')
        case None
        then show ?thesis using assms(5) chosen Some \<open>re_catalog V key = Ok found\<close> Ok ch
          by (auto simp: crt_invoke_def and_then_op_def)
      next
        case (Some i)
        obtain s2 es2 where d: "dispatch i job ps now s1 = (s2, es2)" by fastforce
        have "knows s1 i" using chosen Ok Some by (simp add: chosen_known_def)
        then have "sound r cap eid (ledger_effects r eid es1 l) s1 (s2, es2)"
          using sound_dispatch [of eid "ledger_effects r eid es1 l" s1 i] soundD(1) chosen d by metis
        then show ?thesis
          using assms(5) chosen \<open>found = Some x\<close> \<open>re_catalog V key = Ok found\<close> Ok Some ch d
          by (auto simp: crt_invoke_def and_then_op_def intro: sound_seq)
      qed
    qed (use assms(5) chosen Some Ok ch in \<open>auto simp: crt_invoke_def and_then_op_def\<close>)
  qed (use assms(4,5) Ok in \<open>auto simp: crt_invoke_def intro: sound_quiet\<close>)
qed (use assms(4,5) in \<open>auto simp: crt_invoke_def intro: sound_quiet\<close>)

lemma sound_retry_or_finalize:
  assumes "backed eid l s"
  shows "sound r cap eid l s (snd (retry_or_finalize V e x s))"
  using assms
  by (cases x) (auto simp: retry_or_finalize_def Let_def split: res.splits intro!: sound_aside)

lemma sound_each_retry:
  assumes "backed eid l s"
  shows "sound r cap eid l s (snd (each_op (retry_or_finalize V e) xs s))"
  using assms
proof (induction xs arbitrary: s l)
  case Nil
  then show ?case by (simp add: sound_quiet)
next
  case (Cons x xs)
  obtain res s1 es1 where x: "retry_or_finalize V e x s = (res, s1, es1)" by (metis prod_cases3)
  have first: "sound r cap eid l s (s1, es1)" using sound_retry_or_finalize [OF Cons.prems, of r cap V e x] x by simp
  then show ?case using Cons.IH [OF soundD(1) [OF first]] x
    by (auto simp: and_then_op_def split: res.splits prod.splits intro: sound_seq)
qed

lemma sound_release:
  assumes "backed eid l s" "\<And>i. i \<in> set (members (f, v) s) \<Longrightarrow> slot_of s i \<noteq> idx"
  shows "sound r cap eid l s (s, [Releases f v idx])"
proof -
  have "backed eid (snd (client_release eid handle_slot_release f v idx l)) s"
    using assms(2) by (intro backed_keeps [OF assms(1)] release_keeps) auto
  then show ?thesis by (simp add: sound_def)
qed

lemma sound_tear_down:
  assumes "always_stops (re_docker V)" "backed eid l s" "i \<in> set (members k s)"
  shows "sound r cap eid l s (tear_down V P i reason now s)"
proof -
  let ?s = "with_container i (\<lambda>c. c\<lparr>ct_status := CRASHED\<rparr>) s"
  have b: "backed eid l ?s"
    by (rule backed_with_container [OF assms(2)]) (simp_all add: container_key_def ct_dead_iff)
  have mem: "i \<in> set (members k ?s)" using assms(3) by simp
  obtain s1 es1 where d: "dismiss (re_docker V) i reason now ?s = (s1, es1)" by fastforce
  note facts = dismiss_facts [OF assms(1) b mem d]
  have first: "sound r cap eid l ?s (s1, es1)" using sound_dismiss [OF assms(1) b mem, of r cap reason now] d by simp
  then have crash: "sound r cap eid l s (s1, es1)" by (simp add: sound_def)
  have kn: "knows s i" "key_of s i = k" using backedD(4,5) [OF assms(2,3)] by simp_all
  have c: "the_container s1 i = (the_container s i)\<lparr>ct_status := DISMISSED\<rparr>" using facts(3) [of i] kn(1) by simp
  have "slot_of s1 j \<noteq> slot_of s1 i" if "j \<in> set (members k s1)" for j
  proof -
    have j: "j \<in> set (members k s)" "j \<noteq> i"
      using that backedD(8) [OF b, of k] set_remove1_subset [of i "members k s"] by (auto simp: facts(1))
    then have "slot_of s j \<noteq> slot_of s i" using inj_onD [OF backedD(9) [OF assms(2), of k]] assms(3) by blast
    then show ?thesis using facts(3) [of j] backedD(4) [OF assms(2) j(1)] j(2) c by simp
  qed
  then have "sound r cap eid (ledger_effects r eid es1 l) s1 (s1, release_effect P (the_container s1 i))"
    using sound_release [OF soundD(1) [OF crash], of "fst k" "snd k" "slot_of s1 i" r cap] kn(2)
      sound_quiet [OF soundD(1) [OF crash]]
    by (auto simp: release_effect_def c container_key_def split: option.split)
  from sound_seq [OF crash this] show ?thesis by (simp add: tear_down_def d)
qed

lemma tear_down_known: "sound r cap eid l s (tear_down V P i reason now s) \<Longrightarrow> tear_down V P i reason now s = (s', es) \<Longrightarrow>
   knows s j \<Longrightarrow> knows s' j"
  using soundD(2) by metis

lemma backed_drain: "backed eid l s \<Longrightarrow> backed eid l (snd (drain_jobs_of i s))" "knows (snd (drain_jobs_of i s)) = knows s"
  by (auto simp: drain_jobs_of_def container_key_def ct_dead_iff fun_eq_iff intro!: backed_with_container)

text \<open>What is alive and known is a member, so the end of a container dismisses a member or nothing.\<close>

lemma sound_end_container:
  assumes "always_stops (re_docker V)" "backed eid l s" "knows s i"
  shows "sound r cap eid l s (snd (end_container V P i reason e e' h ps now s))"
proof (cases "ct_dead (the_container s i)")
  case True
  then show ?thesis using assms(2) by (simp add: end_container_def sound_quiet)
next
  case False
  obtain s1 es1 where t: "tear_down V P i reason now s = (s1, es1)" by fastforce
  have first: "sound r cap eid l s (s1, es1)"
    using sound_tear_down [OF assms(1,2) backedD(7) [OF assms(2,3) False]] t by metis
  obtain res s2 es2 where f: "retry_or_finalize V e (h, ps) s1 = (res, s2, es2)" by (metis prod_cases3)
  have second: "sound r cap eid (ledger_effects r eid es1 l) s1 (s2, es2)"
    using sound_retry_or_finalize [OF soundD(1) [OF first], of r cap V e "(h, ps)"] f by simp
  obtain queued s3 where d: "drain_jobs_of i s2 = (queued, s3)" by fastforce
  have b3: "backed eid (ledger_effects r eid es2 (ledger_effects r eid es1 l)) s3" "knows s3 = knows s2"
    using backed_drain(1) [of eid _ s2 i] backed_drain(2) [of i s2] soundD(1) [OF second] d by (metis snd_conv)+
  let ?rest = "each_op (retry_or_finalize V e') (map (\<lambda>(job, ps). (handle_of (the_container s3 i) job None, ps)) queued) s3"
  obtain res' s4 es4 where g: "?rest = (res', s4, es4)" by (metis prod_cases3)
  have "sound r cap eid (ledger_effects r eid es2 (ledger_effects r eid es1 l)) s3 (s4, es4)"
    using sound_each_retry [OF b3(1), of r cap V e'] g by (metis snd_conv)
  then have third: "sound r cap eid (ledger_effects r eid es2 (ledger_effects r eid es1 l)) s2 (s4, es4)"
    using b3(2) by (simp add: sound_def)
  show ?thesis
    using False t f d g sound_seq [OF first second] sound_seq [OF first sound_seq [OF second third]]
    by (cases res) (auto simp: end_container_def and_then_op_def)
qed

lemma sound_crash:
  assumes "always_stops (re_docker V)" "backed eid l s" "knows s i"
  shows "sound r cap eid l s (snd (handle_container_crash V P i h text ps now s))"
    "sound r cap eid l s (snd (handle_container_timeout V P i h ps now s))"
  unfolding handle_container_crash_def handle_container_timeout_def by (rule sound_end_container [OF assms])+

section \<open>The pump\<close>

text \<open>Requests for data emit events of data only.\<close>

lemma finalize_stream_events:
  "finalize_stream E name version now st = (r, st', evs) \<Longrightarrow>
   \<forall>e \<in> set evs. ev_type e = ''DATA_REGISTERED'' \<or> ev_type e = ''DATA_UPLOAD_COMPLETED''"
  by (auto simp: finalize_stream_def Let_def registered_event_def upload_completed_event_def data_event_def
      split: option.splits res.splits prod.splits if_splits)

lemma append_chunk_events: "append_chunk E name version data st = (r, st', evs) \<Longrightarrow> evs = []"
  by (auto simp: append_chunk_def split: option.splits res.splits prod.splits)

lemma with_registered_events:
  assumes "\<And>name version st r st' evs. f name version st = (r, st', evs) \<Longrightarrow> list_all p evs"
    "with_registered hr ref f st = (r, st', evs)"
  shows "list_all p evs"
  using assms(2) by (auto simp: with_registered_def split: if_splits res.splits option.splits prod.splits dest: assms(1))

lemma io_request_events:
  assumes "resolve_io_request E hr oper ref body now st = (r, st', evs)"
  shows "list_all (\<lambda>e. ev_type e \<noteq> ''CONTAINER_DISMISSED'') evs"
proof -
  let ?p = "\<lambda>e. ev_type e \<noteq> ''CONTAINER_DISMISSED''"
  have 1: "list_all ?p evs" if "io_write E ref data st = (r, st', evs)" for data
    using that by (auto simp: io_write_def split: option.splits prod.splits)
  have 2: "list_all ?p evs" if "io_chunk_status E hr ref st = (r, st', evs)"
    using that unfolding io_chunk_status_def
    by (rule with_registered_events [rotated]) (auto split: prod.splits res.splits if_splits)
  have 3: "list_all ?p evs" if "io_read_chunk E hr ref st = (r, st', evs)"
  proof -
    have "list_all ?p evs" if "with_registered hr ref (\<lambda>name version st. (wrap_res (read_chunk E name version i st), st, [])) st =
        (r, st', evs)" for i
      using that by (rule with_registered_events [rotated]) auto
    then show ?thesis using that by (auto simp: io_read_chunk_def split: if_splits option.splits)
  qed
  have 4: "list_all ?p evs" if "io_open_stream hr ref data st = (r, st', evs)" for data
    using that unfolding io_open_stream_def
    by (rule with_registered_events [rotated]) (auto split: res.splits)
  have 5: "list_all ?p evs" if "io_append_chunk E hr ref data st = (r, st', evs)" for data
    using that unfolding io_append_chunk_def
    by (rule with_registered_events [rotated]) (auto split: prod.splits res.splits dest: append_chunk_events)
  have 6: "list_all ?p evs" if "io_finalize_stream E hr ref now st = (r, st', evs)"
    using that unfolding io_finalize_stream_def
    by (rule with_registered_events [rotated])
      (auto simp: list_all_iff split: prod.splits res.splits dest!: finalize_stream_events)
  show ?thesis using assms 1 2 3 4 5 6 unfolding resolve_io_request_def Let_def by (auto split: if_splits)
qed

lemma sound_with_pump:
  assumes "sound r cap eid l s (s', es)"
  shows "sound r cap eid l s (with_pump name ph s', es)"
proof -
  note b = backed_with_pump [OF soundD(1) [OF assms], of name ph]
  show ?thesis by (rule sound_then [OF assms b(1)]) (simp add: b(2))
qed

lemma sound_pump_over: "sound r cap eid l s (snd x) \<Longrightarrow> sound r cap eid l s (pump_over name x)"
  by (cases x) (simp add: pump_over_def sound_with_pump)

lemma backed_take_job:
  assumes "backed eid l s"
  shows "backed eid l (with_container i (\<lambda>c. c\<lparr>ct_queue := q, ct_current_job := job\<rparr>) s)"
  by (rule backed_with_container [OF assms]) (simp_all add: container_key_def ct_dead_iff)

lemma sound_pump_get:
  assumes "always_stops (re_docker V)" "backed eid l s"
  shows "sound r cap eid l s (pump_get V P name err now s)"
proof (cases "map_of (cr_pumps s) name")
  case (Some t)
  let ?i = "pt_container t"
  have kn: "knows s ?i" by (rule pump_known [OF assms(2) Some])
  show ?thesis
  proof (cases "pt_phase t = At_Queue")
    case True
    show ?thesis
    proof (cases "ct_queue (the_container s ?i)")
      case Nil
      have "backed eid l (with_container ?i (\<lambda>c. if ct_status c = BUSY then c\<lparr>ct_status := IDLE\<rparr> else c) s)"
        by (rule backed_with_container [OF assms(2)]) (auto simp: container_key_def ct_dead_iff)
      then show ?thesis using Some True Nil backed_with_pump
        by (fastforce simp: pump_get_def Let_def intro!: sound_quiet)
    next
      case (Cons p q)
      obtain job ps where p: "p = (job, ps)" by (cases p)
      let ?s = "with_container ?i (\<lambda>c. c\<lparr>ct_queue := q, ct_current_job := Some job\<rparr>) s"
      have b: "backed eid l ?s" by (rule backed_take_job [OF assms(2)])
      show ?thesis
      proof (cases err)
        case None
        then show ?thesis using Some True Cons p backed_with_pump [OF b]
          by (auto simp: pump_get_def Let_def started_event_def intro!: sound_aside)
      next
        case (Some what)
        have "sound r cap eid l ?s (pump_over name
            (handle_container_crash V P ?i (handle_of (the_container s ?i) job None) what ps now ?s))"
          using kn by (intro sound_pump_over sound_crash assms(1) b) simp
        then show ?thesis using Some True Cons p \<open>map_of (cr_pumps s) name = Some t\<close>
          by (simp add: pump_get_def Let_def sound_def)
      qed
    qed
  qed (use Some assms(2) in \<open>simp add: pump_get_def sound_quiet\<close>)
qed (use assms(2) in \<open>simp add: pump_get_def sound_quiet\<close>)

text \<open>
  A container is heard of as long as it is in its pool: no outcome of a dismissed container is read,
  and no dismissed container is started. A pump that ignores this marks a dismissed container idle.
\<close>

fun orderly :: "crt_action \<Rightarrow> ('d, 'c, 'b) crt_run \<Rightarrow> bool" where
  "orderly (Run_Spawn i spec now ms) u = (\<not> ct_dead (the_container (rn_rt u) i))"
| "orderly (Pump_Receive name P (Frames fs) e now) u =
    (case map_of (cr_pumps (rn_rt u)) name of None \<Rightarrow> True | Some t \<Rightarrow> \<not> ct_dead (the_container (rn_rt u) (pt_container t)))"
| "orderly _ u = True"

lemma sound_receive_outcome:
  assumes "backed eid l s" "\<not> ct_dead (the_container s i)"
  shows "sound r cap eid l s (receive_outcome V name i h status body warnings s)"
proof (cases "utf8_decode status")
  case None
  then show ?thesis using sound_with_pump [OF sound_quiet [OF assms(1), of s r cap]] by (simp add: receive_outcome_def)
next
  case (Some st)
  let ?s = "with_container i (\<lambda>c. c\<lparr>ct_current_job := None, ct_status := IDLE\<rparr>) (s\<lparr>cr_attempts := dpop (ih_job_id h) (cr_attempts s)\<rparr>)"
  have "backed eid l ?s"
    using assms by (intro backed_with_container) (simp_all add: container_key_def)
  then have "sound r cap eid l s (?s, [Completes h (container_outcome V st body) (parse_warnings warnings)])"
    by (intro sound_aside) simp_all
  from sound_with_pump [OF this] show ?thesis using Some by (simp add: receive_outcome_def)
qed

lemma sound_pump_receive:
  assumes "always_stops (re_docker V)" "backed eid l s"
    "\<And>fs t. what = Frames fs \<Longrightarrow> map_of (cr_pumps s) name = Some t \<Longrightarrow> \<not> ct_dead (the_container s (pt_container t))"
    "pump_receive V E P name what err now (s, st) = ((s', st'), es)"
  shows "sound r cap eid l s (s', es)"
proof (cases "map_of (cr_pumps s) name")
  case (Some t)
  let ?i = "pt_container t"
  note quiet = sound_quiet [OF assms(2), of s r cap]
  have kn: "knows s ?i" by (rule pump_known [OF assms(2) Some])
  show ?thesis
  proof (cases "pt_phase t")
    case (Receiving job ps started deadline)
    let ?h = "handle_of (the_container s ?i) job (Some started)"
    have crash: "sound r cap eid l s (pump_over name (handle_container_crash V P ?i ?h reason ps now s))"
      "sound r cap eid l s (pump_over name (handle_container_timeout V P ?i ?h ps now s))" for reason
      by (intro sound_pump_over sound_crash assms(1,2) kn)+
    note unfold = pump_receive_def Let_def Some Receiving
    show ?thesis
    proof (cases what)
      case (Quiet x)
      then show ?thesis using assms(4) crash quiet by (auto simp: unfold split: if_splits option.splits)
    next
      case (Broken x)
      then show ?thesis using assms(4) crash by (auto simp: unfold)
    next
      case (Frames fs)
      note alive = assms(3) [OF Frames Some]
      show ?thesis
      proof (cases fs)
        case Nil
        then show ?thesis using assms(4) crash Frames by (auto simp: unfold)
      next
        case (Cons tag rest)
        consider "tag = ''result''" "\<exists>a b c d. rest = [a, b, c, d]" | "tag = ''result''" "\<nexists>a b c d. rest = [a, b, c, d]"
          | "tag = ''io_request''" "\<exists>a b c d. rest = [a, b, c, d]" | "tag = ''io_request''" "\<nexists>a b c d. rest = [a, b, c, d]"
          | "tag \<noteq> ''result''" "tag \<noteq> ''io_request''" by blast
        then show ?thesis
        proof cases
          case 1
          then obtain a b c d where "rest = [a, b, c, d]" by blast
          then have "(s', es) = receive_outcome V name ?i ?h b c d s" using assms(4) Frames Cons 1 by (auto simp: unfold)
          then show ?thesis using sound_receive_outcome [OF assms(2) alive] by metis
        next
          case 2
          then have "(s', es) = pump_over name (handle_container_crash V P ?i ?h ''unexpected frame count for result'' ps now s)"
            using assms(4) Frames Cons by (auto simp: unfold split: list.splits)
          then show ?thesis using crash(1) by metis
        next
          case 3
          then obtain a b c d where rest: "rest = [a, b, c, d]" by blast
          show ?thesis
          proof (cases "parse_io_request b c")
            case (Ok x)
            obtain oper ref where x: "x = (oper, ref)" by (cases x)
            obtain res st1 evs where io: "resolve_io_request E True oper ref (if d = [] then None else Some d) now st = (res, st1, evs)"
              by (metis prod_cases3)
            have evs: "list_all aside (map Emits evs)" using io_request_events [OF io] by (simp add: list_all_iff)
            have "Starts u \<notin> set (map Emits evs)" for u by auto
            then have first: "sound r cap eid l s (s, map Emits evs)" using sound_aside [OF assms(2) _ evs] by metis
            have tag: "\<not> ''io_request'' = ''result''" by simp
            show ?thesis
            proof (cases "\<exists>ex. res = Raise ex")
              case True
              then have "(s', es) = (with_pump name Ended s, map Emits evs)"
                using assms(4) Frames Cons 3 rest Ok x io by (auto simp: unfold)
              then show ?thesis using sound_with_pump [OF first] by simp
            next
              case False
              note live = this
              show ?thesis
              proof (cases err)
                case None
                then have "(s', es) = (s, map Emits evs)"
                  using assms(4) Frames Cons 3 rest Ok x io live by (auto simp: unfold split: res.splits)
                then show ?thesis using first by simp
              next
                case (Some msg)
                obtain s2 es2 where c: "pump_over name (handle_container_crash V P ?i ?h msg ps now s) = (s2, es2)" by fastforce
                have "(s', es) = (s2, map Emits evs @ es2)"
                  using assms(4) Frames Cons 3 rest Ok x io live Some c \<open>map_of (cr_pumps s) name = Some t\<close>
                  by (auto simp: unfold split: res.splits)
                then show ?thesis
                  using sound_seq [OF first, of s2 es2] crash(1) [of msg] c by (simp add: aside_ledger [OF evs])
              qed
            qed
          qed (use assms(4) Frames Cons 3 rest sound_with_pump [OF quiet] in \<open>auto simp: unfold\<close>)
        next
          case 4
          then have "(s', es) = pump_over name (handle_container_crash V P ?i ?h ''unexpected frame count for io_request'' ps now s)"
            using assms(4) Frames Cons by (auto simp: unfold split: list.splits)
          then show ?thesis using crash(1) by metis
        next
          case 5
          then have "(s', es) = pump_over name (handle_container_crash V P ?i ?h
              (''unexpected tag b'' @ py_repr tag @ '' from container'') ps now s)"
            using assms(4) Frames Cons by (auto simp: unfold)
          then show ?thesis using crash(1) by metis
        qed
      qed
    qed
  qed (use assms(4) Some quiet in \<open>auto simp: pump_receive_def Let_def\<close>)
qed (use assms(2,4) in \<open>auto simp: pump_receive_def Let_def intro: sound_quiet\<close>)

section \<open>The other actions\<close>

lemma sound_cancel_in:
  assumes "always_stops (re_docker V)" "backed eid l s" "\<And>i. i \<in> set xs \<Longrightarrow> \<exists>k. i \<in> set (members k s)"
  shows "sound r cap eid l s (snd (cancel_in V P job now xs s))"
  using assms(3)
proof (induction xs)
  case Nil
  then show ?case using assms(2) by (simp add: sound_quiet)
next
  case (Cons i xs)
  obtain k where k: "i \<in> set (members k s)" using Cons.prems by (metis list.set_intros(1))
  consider "ct_current_job (the_container s i) = Some job"
    | "ct_current_job (the_container s i) \<noteq> Some job" "job \<in> fst ` set (ct_queue (the_container s i))"
    | "ct_current_job (the_container s i) \<noteq> Some job" "job \<notin> fst ` set (ct_queue (the_container s i))" by blast
  then show ?case
  proof cases
    case 1
    obtain s1 es1 where t: "tear_down V P i ''cancelled'' now s = (s1, es1)" by fastforce
    have first: "sound r cap eid l s (s1, es1)" using sound_tear_down [OF assms(1,2) k] t by metis
    let ?s = "s1\<lparr>cr_attempts := dpop job (cr_attempts s1)\<rparr>"
    obtain queued s2 where d: "drain_jobs_of i ?s = (queued, s2)" by fastforce
    have "backed eid (ledger_effects r eid es1 l) s2" "knows s2 = knows s1"
      using backed_drain(1) [of eid _ ?s i] backed_drain(2) [of i ?s] soundD(1) [OF first] d
      by (metis snd_conv backed_fields(1), metis snd_conv backed_fields(3))
    then have "sound r cap eid (ledger_effects r eid es1 l) s1 (s2,
        Completes (handle_of (the_container s i) job None) (Err (AxoErr JobCancelledError ''job was cancelled'')) [] #
          map (\<lambda>(j, _). Completes (handle_of (the_container s i) j None)
            (Err (container_crash ''container dismissed to cancel a sibling job'')) []) queued)"
      by (intro sound_aside) (auto simp: list_all_iff)
    from sound_seq [OF first this] show ?thesis using 1 t d by (simp add: Let_def)
  next
    case 2
    have "backed eid l (with_container i (\<lambda>c. c\<lparr>ct_queue := filter (\<lambda>(j, _). j \<noteq> job) (ct_queue c)\<rparr>) s)"
      by (rule backed_with_container [OF assms(2)]) (simp_all add: container_key_def ct_dead_iff)
    then show ?thesis using 2 by (auto simp: Let_def intro!: sound_aside)
  next
    case 3
    then show ?thesis using Cons.IH Cons.prems by (simp add: Let_def)
  qed
qed

lemma sound_cancel:
  assumes "always_stops (re_docker V)" "backed eid l s"
  shows "sound r cap eid l s (snd (crt_cancel V P job now s))"
  unfolding crt_cancel_def
  by (rule sound_cancel_in [OF assms]) (simp add: in_all_members [OF backedD(1) [OF assms(2)]])

lemma ensure_image_facts:
  fixes s s' :: "'d container_runtime"
  assumes "ensure_image C D img py now ms s = (res, s', es)"
  shows "\<exists>d. s' = s\<lparr>sm_docker := d\<rparr>" "list_all aside es" "Starts t \<notin> set es"
proof -
  have b: "(\<exists>d. s2 = s1\<lparr>sm_docker := d\<rparr>) \<and> list_all aside es2 \<and> (\<forall>t. Starts t \<notin> set es2)"
    if "build_runner_image C D py now ms s1 = (res2, s2, es2)" for s1 s2 :: "'d container_runtime" and res2 es2
    using that by (auto simp: build_runner_image_def build_event_def Let_def split: prod.splits res.splits)
  obtain r1 d1 where 1: "spawner_ensure_image D img (sm_docker s) = (r1, d1)" by fastforce
  obtain r2 d2 where 2: "spawner_ensure_image D img d1 = (r2, d2)" by fastforce
  have built: "(\<exists>d. s' = s\<lparr>sm_docker := d\<rparr>) \<and> list_all aside es \<and> (\<forall>t. Starts t \<notin> set es)"
    if "build_runner_image C D py now ms (s\<lparr>sm_docker := d2\<rparr>) = (res, s', es)"
    using b [OF that] by auto
  have "(\<exists>d. s' = s\<lparr>sm_docker := d\<rparr>) \<and> list_all aside es \<and> (\<forall>t. Starts t \<notin> set es)"
  proof (cases r1)
    case (Err x)
    show ?thesis
    proof (cases "cc_auto_build C")
      case True
      then show ?thesis using assms built Err by (cases r2) (auto simp: ensure_image_def 1 2)
    next
      case False
      then have "s' = s\<lparr>sm_docker := d1\<rparr>" "es = []" using assms Err by (simp_all add: ensure_image_def 1)
      then show ?thesis by auto
    qed
  qed (use assms in \<open>auto simp: ensure_image_def 1\<close>)
  then show "\<exists>d. s' = s\<lparr>sm_docker := d\<rparr>" "list_all aside es" "Starts t \<notin> set es" by simp_all
qed

lemma backed_crash_container: "backed eid l s \<Longrightarrow> backed eid l (with_container i crash_container s)"
  by (rule backed_with_container) (simp_all add: crash_container_def container_key_def ct_dead_iff)

lemma sound_spawn:
  assumes "backed eid l s" "\<not> ct_dead (the_container s i)"
  shows "sound r cap eid l s (snd (spawn_in_background C D i spec now ms s))"
proof -
  let ?img = "if truthy_text (rs_image spec) then the (rs_image spec) else runner_image C (rs_python_version spec)"
  obtain res s1 es1 where e: "ensure_image C D ?img (rs_python_version spec) now ms s = (res, s1, es1)" by (metis prod_cases3)
  obtain d where s1: "s1 = s\<lparr>sm_docker := d\<rparr>" using ensure_image_facts(1) [OF e] by blast
  have b: "backed eid l s1" "knows s1 = knows s" "the_container s1 = the_container s" using assms(1) by (simp_all add: s1)
  have first: "sound r cap eid l s (s1, es1)"
    using sound_aside [OF b(1) _ ensure_image_facts(2) [OF e]] ensure_image_facts(3) [OF e] b(2) by metis
  have end1: "sound r cap eid l s (with_container i crash_container s1, es1)"
    by (rule sound_then [OF first backed_crash_container [OF soundD(1) [OF first]]]) simp
  show ?thesis
  proof (cases res)
    case (Ok x)
    obtain got d' where sp: "spawner_spawn D (spawn_request_for C (the_container s i) spec ?img) (sm_docker s1) = (got, d')"
      by fastforce
    have first': "sound r cap eid l s (s1\<lparr>sm_docker := d'\<rparr>, es1)" 
      by (rule sound_then [OF first]) (use soundD(1) [OF first] in simp_all)
    note b' = soundD(1) [OF first']
    show ?thesis
    proof (cases got)
      case (Ok ids)
      obtain cid sid where ids: "ids = (cid, sid)" by fastforce
      let ?f = "\<lambda>c. c\<lparr>ct_container_id := cid, ct_service_id := sid, ct_status := BOOTSTRAPPING\<rparr>"
      have dead: "\<not> ct_dead (the_container (s1\<lparr>sm_docker := d'\<rparr>) i)" using assms(2) b(3) by simp
      have "backed eid (ledger_effects r eid es1 l) (with_container i ?f (s1\<lparr>sm_docker := d'\<rparr>))"
        by (rule backed_with_container [OF b']) (use dead in \<open>simp_all add: container_key_def\<close>)
      then have "sound r cap eid (ledger_effects r eid es1 l) (s1\<lparr>sm_docker := d'\<rparr>) (with_container i ?f (s1\<lparr>sm_docker := d'\<rparr>),
          [container_event ''CONTAINER_SPAWNED'' (the_container s i)
             [(''service_name'', JStr (ct_service_name (the_container s i)))] now,
           Starts (Poll_Thread i (now + cc_readiness_timeout C))])"
        by (intro sound_aside) (auto simp: container_event_def)
      from sound_seq [OF first' this] show ?thesis
        using e sp Ok ids \<open>res = Ok x\<close> by (simp add: spawn_in_background_def Let_def)
    next
      case (Err x')
      have "sound r cap eid l s (with_container i crash_container (s1\<lparr>sm_docker := d'\<rparr>), es1)"
        by (rule sound_then [OF first' backed_crash_container [OF b']]) simp
      then show ?thesis using e sp Err \<open>res = Ok x\<close> by (simp add: spawn_in_background_def Let_def)
    next
      case (Raise x')
      have "sound r cap eid l s (with_container i crash_container (s1\<lparr>sm_docker := d'\<rparr>), es1)"
        by (rule sound_then [OF first' backed_crash_container [OF b']]) simp
      then show ?thesis using e sp Raise \<open>res = Ok x\<close> by (simp add: spawn_in_background_def Let_def)
    qed
  qed (use e first end1 in \<open>simp_all add: spawn_in_background_def Let_def\<close>)
qed

lemma sound_poll:
  assumes "backed eid l s"
  shows "sound r cap eid l s (snd (poll_readiness C i deadline now healthy s))"
proof -
  have "backed eid l (with_container i (\<lambda>c. c\<lparr>ct_status := READY, ct_ready_event := True\<rparr>) s)"
    if "\<not> ct_dead (the_container s i)"
    using that by (intro backed_with_container [OF assms]) (simp_all add: container_key_def)
  then show ?thesis using assms backed_crash_container [OF assms, of i]
    by (auto simp: poll_readiness_def Let_def container_event_def intro!: sound_aside)
qed

lemma sound_perform_retry:
  assumes "always_stops (re_docker V)" "rng_ok r" "capped cap V" "backed eid l s"
  shows "sound r cap eid l s (snd (perform_retry V (Some (ledger_placement r eid forward l)) key job ps now s))"
proof -
  obtain res s1 es1 where i: "crt_invoke V (Some (ledger_placement r eid forward l)) key job ps now s = (res, s1, es1)"
    by (metis prod_cases3)
  note first = sound_invoke [OF assms i]
  have "sound r cap eid (ledger_effects r eid es1 l) s1 (s1\<lparr>cr_attempts := dpop job (cr_attempts s1)\<rparr>, [Completes h v ws])" for h v ws
    using soundD(1) [OF first] by (intro sound_aside) simp_all
  then show ?thesis using first sound_seq [OF first] i
    by (auto simp: perform_retry_def split: res.splits)
qed

section \<open>Steps of an endpoint\<close>

lemma note_all_facts:
  "rn_rt (note_all x u) = fst x" "rn_effects (note_all x u) = rn_effects u @ snd x"
  "set (rn_threads (note_all x u)) = set (rn_threads u) \<union> {t. Starts t \<in> set (snd x)}"
proof -
  have one: "rn_rt (note_effect e u) = rn_rt u" "rn_effects (note_effect e u) = rn_effects u"
    "set (rn_threads (note_effect e u)) = set (rn_threads u) \<union> {t. e = Starts t}" for e and u :: "('a, 'b, 'c) crt_run"
    by (cases e; simp; blast)+
  have all: "rn_rt (fold (\<lambda>e u. note_effect e (u\<lparr>rn_effects := rn_effects u @ [e]\<rparr>)) es u) = rn_rt u \<and>
    rn_effects (fold (\<lambda>e u. note_effect e (u\<lparr>rn_effects := rn_effects u @ [e]\<rparr>)) es u) = rn_effects u @ es \<and>
    set (rn_threads (fold (\<lambda>e u. note_effect e (u\<lparr>rn_effects := rn_effects u @ [e]\<rparr>)) es u)) =
      set (rn_threads u) \<union> {t. Starts t \<in> set es}" for es and u :: "('a, 'b, 'c) crt_run"
    by (induction es arbitrary: u) (auto simp: one)
  show "rn_rt (note_all x u) = fst x" "rn_effects (note_all x u) = rn_effects u @ snd x"
    "set (rn_threads (note_all x u)) = set (rn_threads u) \<union> {t. Starts t \<in> set (snd x)}"
    using all [of "snd x" "u\<lparr>rn_rt := fst x\<rparr>"] by (simp_all add: note_all_def)
qed

definition run_backed :: "string \<Rightarrow> ledger \<Rightarrow> ('d, 'c, 'b) crt_run \<Rightarrow> bool" where
  "run_backed eid l u \<longleftrightarrow> backed eid l (rn_rt u) \<and> (\<forall>t \<in> set (rn_threads u). thread_known (rn_rt u) t)"

text \<open>The effects of a step.\<close>

definition step_effects :: "('d, 'c, 'b) crt_run \<Rightarrow> ('d, 'c, 'b) crt_run \<Rightarrow> container_effect list" where
  "step_effects u u' = drop (length (rn_effects u)) (rn_effects u')"

definition step_ok :: "rng \<Rightarrow> (pool \<Rightarrow> int) \<Rightarrow> string \<Rightarrow> ledger \<Rightarrow> ('d, 'c, 'b) crt_run \<Rightarrow> ('d, 'c, 'b) crt_run \<Rightarrow> bool" where
  "step_ok r cap eid l u u' \<longleftrightarrow> run_backed eid (ledger_effects r eid (step_effects u u') l) u' \<and>
     (\<forall>f v m. Asks f v m \<in> set (step_effects u u') \<longrightarrow> m = cap (f, v))"

lemma step_ok_note:
  assumes "run_backed eid l u" "sound r cap eid l (rn_rt u) (s', es)"
    "rn_effects u0 = rn_effects u" "set (rn_threads u0) \<subseteq> set (rn_threads u)"
  shows "step_ok r cap eid l u (note_all (s', es) u0)"
  using assms soundD [OF assms(2)] thread_known_mono [of "rn_rt u" _ s']
  by (auto simp: step_ok_def step_effects_def run_backed_def note_all_facts)

lemma node_step_same:
  assumes "run_backed eid l u" shows "step_ok r cap eid l u u"
  using assms by (simp add: step_ok_def step_effects_def)

lemma thread_done_facts: "rn_effects (thread_done t u) = rn_effects u" "set (rn_threads (thread_done t u)) \<subseteq> set (rn_threads u)"
  using set_remove1_subset by (simp_all add: thread_done_def)

lemma step_sound:
  assumes "always_stops (re_docker V)" "rng_ok r" "capped cap V" "run_backed eid l u" "orderly a u"
  shows "step_ok r cap eid l u (crt_step V E (placed_by (ledger_placement r eid forward l) a) u)"
proof -
  have b: "backed eid l (rn_rt u)" using assms(4) by (simp add: run_backed_def)
  note noted = step_ok_note [OF assms(4)] and same = node_step_same [OF assms(4)]
  let ?P = "Some (ledger_placement r eid forward l)"
  show ?thesis
  proof (cases a)
    case (Submit f v job ps P now)
    obtain res s' es where i: "crt_invoke V ?P (ckey (f, v)) job ps now (rn_rt u) = (res, s', es)" by (metis prod_cases3)
    show ?thesis using noted [OF sound_invoke [OF assms(1-3) b i]] i Submit by simp
  next
    case (Run_Spawn i spec now ms)
    then show ?thesis
      using same noted [OF _ thread_done_facts] sound_spawn [OF b, of i r cap "re_config V" "re_docker V" spec now ms] assms(5)
      by (cases "spawn_in_background (re_config V) (re_docker V) i spec now ms (rn_rt u)") simp
  next
    case (Run_Poll i deadline now healthy)
    then show ?thesis
      using same noted [OF _ thread_done_facts] noted [OF _ refl subset_refl] sound_poll [OF b, of r cap "re_config V" i deadline now healthy]
      by (cases "poll_readiness (re_config V) i deadline now healthy (rn_rt u)") simp
  next
    case (Run_Dispatch i job ps now)
    have "sound r cap eid l (rn_rt u) (dispatch_once_ready i job ps now (rn_rt u))"
      if "Dispatch_Thread i job ps \<in> set (rn_threads u)"
      using that assms(4) sound_dispatch_once_ready [OF b] by (force simp: run_backed_def)
    then show ?thesis using Run_Dispatch same noted [OF _ thread_done_facts]
      by (cases "dispatch_once_ready i job ps now (rn_rt u)") simp
  next
    case (Run_Retry key job ps P now)
    then show ?thesis
      using same noted [OF _ thread_done_facts] sound_perform_retry [OF assms(1-3) b, of forward key job ps now]
      by (cases "perform_retry V ?P key job ps now (rn_rt u)") simp
  next
    case (Pump_Check name)
    have "backed eid l (pump_check name (rn_rt u))" "knows (pump_check name (rn_rt u)) = knows (rn_rt u)"
      using b backed_with_pump [OF b] by (simp_all add: pump_check_def split: option.split)
    then have "step_ok r cap eid l u (note_all (pump_check name (rn_rt u), []) u)"
      by (intro noted sound_quiet) simp_all
    then show ?thesis using Pump_Check by simp
  next
    case (Pump_Get name P e now)
    then show ?thesis using noted [OF _ refl subset_refl] sound_pump_get [OF assms(1) b, of r cap ?P name e now]
      by (cases "pump_get V ?P name e now (rn_rt u)") simp
  next
    case (Pump_Receive name P what e now)
    obtain s' st' es where p: "pump_receive V E ?P name what e now (rn_rt u, rn_data u) = ((s', st'), es)" by (metis prod_cases3 prod.collapse)
    have "\<not> ct_dead (the_container (rn_rt u) (pt_container t))"
      if "what = Frames fs" "map_of (cr_pumps (rn_rt u)) name = Some t" for fs t
      using assms(5) Pump_Receive that by simp
    note sound = sound_pump_receive [OF assms(1) b this p]
    have "step_ok r cap eid l u (note_all (s', es) (u\<lparr>rn_data := st'\<rparr>))" by (rule noted [OF sound]) simp_all
    then show ?thesis using Pump_Receive p by simp
  next
    case (Cancel_Job job P now)
    then show ?thesis using noted [OF _ refl subset_refl] sound_cancel [OF assms(1) b, of r cap ?P job now]
      by (cases "crt_cancel V ?P job now (rn_rt u)") simp
  next
    case (Sweep_Idle_Containers ttl now)
    have "sound r cap eid l (rn_rt u) (sweep_idle_containers (re_docker V) ttl now (rn_rt u))"
      unfolding sweep_idle_containers_def by (rule sound_sweep [OF assms(1) b])
    then show ?thesis using noted [OF _ refl subset_refl] Sweep_Idle_Containers
      by (cases "sweep_idle_containers (re_docker V) ttl now (rn_rt u)") simp
  next
    case (Sweep_Used_Containers m now)
    have "sound r cap eid l (rn_rt u) (sweep_used_containers (re_docker V) m now (rn_rt u))"
      unfolding sweep_used_containers_def using sound_sweep [OF assms(1) b] sound_quiet [OF b] by simp
    then show ?thesis using noted [OF _ refl subset_refl] Sweep_Used_Containers
      by (cases "sweep_used_containers (re_docker V) m now (rn_rt u)") simp
  next
    case (Sweep_Crashed_Containers now)
    have "sound r cap eid l (rn_rt u) (sweep_crashed (re_docker V) now (rn_rt u))"
      unfolding sweep_crashed_def by (rule sound_sweep [OF assms(1) b])
    then show ?thesis using noted [OF _ refl subset_refl] Sweep_Crashed_Containers
      by (cases "sweep_crashed (re_docker V) now (rn_rt u)") simp
  qed
qed

section \<open>The cluster\<close>

text \<open>
  The ledger of the leader and the runs of the endpoints; an action is a step of one endpoint, whose
  effects the leader applies, or the metrics of an endpoint reaching the leader.
\<close>

type_synonym ('d, 'c, 'b) cluster = "ledger \<times> (string, ('d, 'c, 'b) crt_run) dict"

datatype cluster_action =
    Node_Acts rng string "string \<Rightarrow> storage_key \<Rightarrow> string \<Rightarrow> job_params \<Rightarrow> unit res" crt_action
  | Metrics_Arrive string "(string, (string, int) dict) dict"

fun cluster_step ::
  "(string \<Rightarrow> 'd runtime_env) \<Rightarrow> ('c, 'b) data_env \<Rightarrow> cluster_action \<Rightarrow> ('d, 'c, 'b) cluster \<Rightarrow> ('d, 'c, 'b) cluster" where
  "cluster_step V E (Node_Acts r eid forward a) (l, N) =
    (case map_of N eid of
       None \<Rightarrow> (l, N)
     | Some u \<Rightarrow>
         (let u' = crt_step (V eid) E (placed_by (ledger_placement r eid forward l) a) u
          in (ledger_effects r eid (step_effects u u') l, dput eid u' N)))"
| "cluster_step V E (Metrics_Arrive eid pools) (l, N) = (ingest_peer_metrics eid pools l, N)"

definition cluster_run ::
  "(string \<Rightarrow> 'd runtime_env) \<Rightarrow> ('c, 'b) data_env \<Rightarrow> cluster_action list \<Rightarrow> ('d, 'c, 'b) cluster \<Rightarrow> ('d, 'c, 'b) cluster" where
  "cluster_run V E as c = fold (cluster_step V E) as c"

definition cluster_init :: "string \<Rightarrow> (string \<times> 'd \<times> ('c, 'b) data_state) list \<Rightarrow> ('d, 'c, 'b) cluster" where
  "cluster_init strat ns = (ledger_init strat, map (\<lambda>(eid, d, st). (eid, rn_init d st)) ns)"

text \<open>The random choices are among the candidates, and the containers behave, at every step.\<close>

fun allowed :: "cluster_action \<Rightarrow> ('d, 'c, 'b) cluster \<Rightarrow> bool" where
  "allowed (Node_Acts r eid forward a) (l, N) \<longleftrightarrow> rng_ok r \<and> (case map_of N eid of None \<Rightarrow> True | Some u \<Rightarrow> orderly a u)"
| "allowed (Metrics_Arrive eid pools) c = True"

fun all_allowed ::
  "(string \<Rightarrow> 'd runtime_env) \<Rightarrow> ('c, 'b) data_env \<Rightarrow> cluster_action list \<Rightarrow> ('d, 'c, 'b) cluster \<Rightarrow> bool" where
  "all_allowed V E [] c = True"
| "all_allowed V E (a # as) c \<longleftrightarrow> allowed a c \<and> all_allowed V E as (cluster_step V E a c)"

definition containers_of :: "pool \<Rightarrow> ('d, 'c, 'b) cluster \<Rightarrow> nat" where
  "containers_of k c = (\<Sum>(eid, u) \<leftarrow> snd c. length (members k (rn_rt u)))"

definition cluster_backed :: "(pool \<Rightarrow> int) \<Rightarrow> ('d, 'c, 'b) cluster \<Rightarrow> bool" where
  "cluster_backed cap c \<longleftrightarrow> within_cap cap (fst c) \<and> dict_ok (snd c) \<and>
     (\<forall>eid u. map_of (snd c) eid = Some u \<longrightarrow> run_backed eid (fst c) u)"

lemma run_backed_keeps:
  assumes "run_backed eid l u" "\<And>k i. map_of (pool_grants l k) i = Some eid \<Longrightarrow> map_of (pool_grants l' k) i = Some eid"
  shows "run_backed eid l' u"
  using assms backed_keeps [of eid l "rn_rt u" l'] by (auto simp: run_backed_def)

lemma run_backed_grants: "grants l' = grants l \<Longrightarrow> run_backed eid l' u = run_backed eid l u"
  by (simp add: run_backed_def backed_def pool_backed_def)

lemma cluster_backed_step:
  assumes "\<And>e. always_stops (re_docker (V e))" "\<And>e. capped cap (V e)" "cluster_backed cap c" "allowed a c"
  shows "cluster_backed cap (cluster_step V E a c)"
proof -
  obtain l N where c: "c = (l, N)" by (cases c)
  have inv: "within_cap cap l" "dict_ok N" "\<And>e u. map_of N e = Some u \<Longrightarrow> run_backed e l u"
    using assms(3) by (auto simp: cluster_backed_def c)
  show ?thesis
  proof (cases a)
    case (Node_Acts r eid forward a')
    show ?thesis
    proof (cases "map_of N eid")
      case None
      then show ?thesis using assms(3) Node_Acts c by simp
    next
      case (Some u)
      let ?u = "crt_step (V eid) E (placed_by (ledger_placement r eid forward l) a') u"
      let ?l = "ledger_effects r eid (step_effects u ?u) l"
      have r: "rng_ok r" and o: "orderly a' u" using assms(4) Node_Acts Some by (auto simp: c)
      have step: "step_ok r cap eid l u ?u" by (rule step_sound [OF assms(1) r assms(2) inv(3) [OF Some] o])
      then have "within_cap cap ?l" using ledger_effects_within [OF r inv(1)] by (simp add: step_ok_def)
      moreover have "run_backed e ?l x" if "map_of (dput eid ?u N) e = Some x" for e x
      proof (cases "e = eid")
        case True
        then show ?thesis using that step by (auto simp: step_ok_def)
      next
        case False
        then have "map_of N e = Some x" using that by simp
        from run_backed_keeps [OF inv(3) [OF this]] show ?thesis using ledger_effects_others [OF r False] by blast
      qed
      ultimately show ?thesis using inv(2) Node_Acts Some by (simp add: c Let_def cluster_backed_def)
    qed
  next
    case (Metrics_Arrive eid pools)
    then show ?thesis
      using inv by (auto simp: c cluster_backed_def within_cap_grants [OF ingest_grants(1)] run_backed_grants [OF ingest_grants(1)])
  qed
qed

lemma cluster_backed_run:
  assumes "\<And>e. always_stops (re_docker (V e))" "\<And>e. capped cap (V e)" "cluster_backed cap c" "all_allowed V E as c"
  shows "cluster_backed cap (cluster_run V E as c)"
  using assms(3,4)
proof (induction as arbitrary: c)
  case (Cons a as)
  then show ?case using cluster_backed_step [where E = E and a = a, OF assms(1,2) Cons.prems(1)] by (simp add: cluster_run_def)
qed (simp add: cluster_run_def)

lemma run_backed_init: "run_backed eid l (rn_init d st)"
  by (simp add: run_backed_def rn_init_def container_runtime_init_def backed_def store_ok_def alive_pooled_def
      pool_backed_def knows_def)

lemma cluster_backed_init:
  assumes "distinct (map fst ns)"
  shows "cluster_backed cap (cluster_init strat ns)"
proof -
  have "run_backed eid (ledger_init strat) u" if "map_of (map (\<lambda>(eid, d, st). (eid, rn_init d st)) ns) eid = Some u" for eid u
    using map_of_SomeD [OF that] by (auto simp: run_backed_init)
  moreover have "dict_ok (map (\<lambda>(eid, d, st). (eid, rn_init d st)) ns)"
    using assms by (simp add: dict_ok_def comp_def case_prod_beta)
  ultimately show ?thesis
    by (simp add: cluster_backed_def cluster_init_def within_cap_def) (simp add: ledger_init_def le_max_iff_disj)
qed

text \<open>The containers of an endpoint are at most its grants; the grants of all are at most the pool's.\<close>

lemma backed_count:
  assumes "backed eid l s"
  shows "length (members k s) \<le> length (filter (\<lambda>p. snd p = eid) (pool_grants l k))"
proof -
  let ?slots = "map (slot_of s) (members k s)" and ?own = "filter (\<lambda>p. snd p = eid) (pool_grants l k)"
  have "distinct ?slots" using backedD(3) [OF assms] by (simp add: pool_backed_def)
  then have "length (members k s) = card (set ?slots)" by (metis distinct_card length_map)
  also have "set ?slots \<subseteq> fst ` set ?own"
  proof
    fix i
    assume "i \<in> set ?slots"
    then have "map_of (pool_grants l k) i = Some eid" using backedD(6) [OF assms, of _ k] by auto
    from map_of_SomeD [OF this] show "i \<in> fst ` set ?own" by force
  qed
  then have "card (set ?slots) \<le> card (fst ` set ?own)" by (intro card_mono) auto
  also have "\<dots> \<le> length ?own" by (metis card_image_le card_length finite_set order_trans)
  finally show ?thesis .
qed

lemma owners_count:
  "distinct es \<Longrightarrow> (\<Sum>e \<leftarrow> es. length (filter (\<lambda>p. snd p = e) g)) \<le> length g"
proof (induction es arbitrary: g)
  case (Cons e es)
  let ?rest = "filter (\<lambda>p. snd p \<noteq> e) g"
  have "filter (\<lambda>p. snd p = e') g = filter (\<lambda>p. snd p = e') ?rest" if "e' \<in> set es" for e'
    using Cons.prems that by (auto intro: filter_cong)
  then have "(\<Sum>e' \<leftarrow> es. length (filter (\<lambda>p. snd p = e') g)) = (\<Sum>e' \<leftarrow> es. length (filter (\<lambda>p. snd p = e') ?rest))"
    by (metis (mono_tags, lifting) map_eq_conv)
  also have "\<dots> \<le> length ?rest" by (rule Cons.IH) (use Cons.prems in simp)
  finally show ?case using sum_length_filter_compl [of "\<lambda>p. snd p = e" g] by simp
qed simp

lemma cluster_backed_count:
  assumes "cluster_backed cap c"
  shows "int (containers_of k c) \<le> max 1 (cap k)"
proof -
  let ?g = "pool_grants (fst c) k"
  have "length (members k (rn_rt u)) \<le> length (filter (\<lambda>p. snd p = eid) ?g)" if "(eid, u) \<in> set (snd c)" for eid u
    using assms that backed_count [of eid "fst c" "rn_rt u" k]
    by (auto simp: cluster_backed_def run_backed_def dict_ok_mem_iff)
  then have "containers_of k c \<le> (\<Sum>(eid, u) \<leftarrow> snd c. length (filter (\<lambda>p. snd p = eid) ?g))"
    unfolding containers_of_def by (intro sum_list_mono) auto
  also have "\<dots> = (\<Sum>eid \<leftarrow> map fst (snd c). length (filter (\<lambda>p. snd p = eid) ?g))"
    unfolding map_map comp_def by (rule arg_cong [of _ _ sum_list]) auto
  also have "\<dots> \<le> length ?g" using assms by (intro owners_count) (simp add: cluster_backed_def dict_ok_def)
  also have "int \<dots> \<le> max 1 (cap k)" using assms by (simp add: cluster_backed_def within_cap_def)
  finally show ?thesis by simp
qed

section \<open>Properties\<close>


definition first_choice :: rng where
  "first_choice = \<lparr>sample2 = (\<lambda>xs. (hd xs, hd (tl xs))), choice = hd\<rparr>"

lemma first_choice_ok: "rng_ok first_choice"
proof -
  have "hd xs \<in> set xs \<and> hd (tl xs) \<in> set xs" if "2 \<le> length xs" for xs :: "string list"
    using that by (cases xs; cases "tl xs") auto
  then show ?thesis by (auto simp: rng_ok_def first_choice_def)
qed

lemma allowed_submit: "rng_ok r \<Longrightarrow> allowed (Node_Acts r eid forward (Submit f v job ps P now)) c"
  by (cases c) (simp split: option.split)

definition act :: "string \<Rightarrow> crt_action \<Rightarrow> cluster_action" where
  "act eid a = Node_Acts first_choice eid (\<lambda>_ _ _ _. Ok ()) a"

lemma sample_docker_stops: "always_stops (re_docker (installation sample_docker))"
  by (simp add: always_stops_def installation_def spawner_stop_def sample_docker_def stopped_def caught_def)

lemma installation_capped: "capped (\<lambda>_. 2) (installation D)"
  by (auto simp: capped_def installation_def container_function_def container_spec_def)

definition two_nodes :: "(unit, data_record mem, file_tree) cluster" where
  "two_nodes = cluster_init ''random'' [(''a'', (), sample_data), (''b'', (), sample_data)]"


section \<open>When Docker does not stop a container\<close>

text \<open>Docker, whose daemon fails to stop a container as often as its state says.\<close>

definition failing_docker :: "nat docker" where
  "failing_docker = \<lparr>dk_create_service = (\<lambda>_ d. (Docker_Ok ''s'', d)), dk_remove_service = (\<lambda>_ d. (Docker_Ok (), d)),
     dk_run_container = (\<lambda>_ d. (Docker_Ok ''c'', d)),
     dk_stop_container = (\<lambda>_ d. if d = 0 then (Docker_Ok (), 0) else (Docker_Error ''timed out'', d - 1)),
     dk_remove_container = (\<lambda>_ d. (Docker_Ok (), d)), dk_get_image = (\<lambda>_ d. (Docker_Ok (), d)),
     dk_build_image = (\<lambda>_ _ d. (Docker_Ok (), d))\<rparr>"

definition single_spec :: runtime_spec where
  "single_spec = default_spec\<lparr>rs_type := ''container'', rs_max_concurrency := 1, rs_max_retries := 0\<rparr>"

definition single_function :: catalog where
  "single_function key = Ok (Some \<lparr>fr_code = [], fr_function_id = ''f'', fr_name = ''f'', fr_version = 1,
     fr_created_at = 0, fr_state = REGISTERED, fr_runtime_spec = Some single_spec, fr_code_format = ''source'',
     fr_params_schema = None\<rparr>)"

definition single_env :: "nat runtime_env" where
  "single_env = \<lparr>re_config = sample_config, re_docker = failing_docker, re_catalog = single_function, re_lossy = (\<lambda>b. b)\<rparr>"

text \<open>
  A container crashes while Docker fails to stop it twice; a job is submitted to the same endpoint,
  and then one to another endpoint.
\<close>

definition crash_run :: "nat \<Rightarrow> (nat, data_record mem, file_tree) cluster" where
  "crash_run n = cluster_run (\<lambda>_. single_env) sample_env
     (map (act ''a'') [Submit ''f'' 1 ''j'' [] None 0, Run_Spawn 0 single_spec 1 0, Run_Poll 0 61 2 True,
        Run_Dispatch 0 ''j'' [] 3, Pump_Check ''fn-f-v1'', Pump_Get ''fn-f-v1'' None None 4,
        Pump_Receive ''fn-f-v1'' None (Quiet True) None 5, Submit ''f'' 1 ''k'' [] None 6]
      @ [act ''b'' (Submit ''f'' 1 ''l'' [] None 7)])
     (cluster_init ''random'' [(''a'', n, sample_data), (''b'', 0, sample_data)])"

definition live_containers :: "pool \<Rightarrow> ('d, 'c, 'b) cluster \<Rightarrow> nat" where
  "live_containers k c = (\<Sum>(eid, u) \<leftarrow> snd c. length (live_members k (rn_rt u)))"


end
