(* ===== verification/Heartbeat.thy ===== *)
theory Heartbeat
  imports Placement
begin

text \<open>
  The heartbeats by which endpoints know of each other: the frames and the subscriber's table of
  peers (\<open>service/transport/heartbeat_zmq.py\<close>, \<open>core/network/heartbeat.py\<close>), the announcement of a peer
  (\<open>service/handlers/peer_announce.py\<close>), and the application's loop (\<open>service/app.py\<close>), whose
  every round publishes the metrics, ticks the consensus and feeds the ledger. The lemmas join
  the table with the election and the ledger.
\<close>

section \<open>Peers\<close>

record peer_info =
  pi_peer_id :: string
  pi_service_name :: string
  pi_rpc_uri :: string
  pi_metrics :: "(string, json) dict"
  pi_last_seen :: flt
  pi_pub_bind :: json

definition hb_topic :: bytes where
  "hb_topic = ''AXO_ENDPOINT.HEARTBEAT''"

definition heartbeat_frames :: "string \<Rightarrow> string \<Rightarrow> string \<Rightarrow> (string, json) dict \<Rightarrow> bytes list" where
  "heartbeat_frames pid service uri metrics =
    [hb_topic, utf8_encode pid, utf8_encode service, utf8_encode uri, dumps_bytes (JObj metrics)]"

section \<open>The subscriber\<close>

text \<open>The connected addresses, the table of peers, and whether the receiving thread lives.\<close>

record subscriber =
  sb_connected :: "string list"
  sb_peers :: "(string, peer_info) dict"
  sb_alive :: bool

definition subscriber_init :: "string list \<Rightarrow> subscriber" where
  "subscriber_init addresses = \<lparr>sb_connected = remdups addresses, sb_peers = [], sb_alive = True\<rparr>"

text \<open>An address is remembered before the socket is connected to it; the socket may refuse it.\<close>

definition subscriber_connect :: "(string \<Rightarrow> bool) \<Rightarrow> string \<Rightarrow> subscriber \<Rightarrow> unit res \<times> subscriber" where
  "subscriber_connect valid address s =
    (if address \<in> set (sb_connected s) then (Ok (), s)
     else ((if valid address then Ok () else Raise OSError), s\<lparr>sb_connected := sb_connected s @ [address]\<rparr>))"

text \<open>
  Numbers that may be subtracted from a time; the latency itself is only logged. An integer too large
  for a float would raise as well.
\<close>

definition is_number :: "json \<Rightarrow> bool" where
  "is_number j = (case j of JInt _ \<Rightarrow> True | JFloat _ \<Rightarrow> True | JBool _ \<Rightarrow> True | _ \<Rightarrow> False)"

definition decode_text :: "bytes \<Rightarrow> string res" where
  "decode_text b = (case utf8_decode b of None \<Rightarrow> Raise UnicodeDecodeError | Some t \<Rightarrow> Ok t)"

text \<open>What a message says: nothing if it is dropped.\<close>

definition read_heartbeat :: "bytes list \<Rightarrow> flt \<Rightarrow> peer_info option res" where
  "read_heartbeat frames now =
    (case frames of
       [_, pid_b, service_b, uri_b, metrics_b] \<Rightarrow>
         (case loads_bytes metrics_b of
            Ok (JObj d) \<Rightarrow>
              (if jget d ''__sent_at__'' \<noteq> JNull \<and> \<not> is_number (jget d ''__sent_at__'') then Raise TypeError
               else
                 bind_res (decode_text pid_b) (\<lambda>pid. bind_res (decode_text service_b) (\<lambda>service.
                 bind_res (decode_text uri_b) (\<lambda>uri.
                   Ok (Some \<lparr>pi_peer_id = pid, pi_service_name = service, pi_rpc_uri = uri,
                     pi_metrics = dpop ''__pub_bind__'' (dpop ''__sent_at__'' d), pi_last_seen = now,
                     pi_pub_bind = dget d ''__pub_bind__'' (JStr [])\<rparr>)))))
          | Ok (JList _) \<Rightarrow> Raise TypeError
          | Ok _ \<Rightarrow> Raise AttributeError
          | _ \<Rightarrow> Ok None)
     | _ \<Rightarrow> Ok None)"

text \<open>The peer is recorded; whether it is new decides about the callback.\<close>

definition on_heartbeat :: "peer_info \<Rightarrow> subscriber \<Rightarrow> bool \<times> subscriber" where
  "on_heartbeat i s =
    (map_of (sb_peers s) (pi_peer_id i) = None, s\<lparr>sb_peers := dput (pi_peer_id i) i (sb_peers s)\<rparr>)"

text \<open>
  One message in the receiving thread. The callback for a new peer runs in it; it works on the rest
  of the application, and what it raises ends the thread, like every other exception.
\<close>

definition receive_heartbeat ::
  "(peer_info \<Rightarrow> subscriber \<times> 'w \<Rightarrow> unit res \<times> subscriber \<times> 'w) \<Rightarrow> bytes list \<Rightarrow> flt \<Rightarrow> subscriber \<times> 'w \<Rightarrow> subscriber \<times> 'w" where
  "receive_heartbeat on_new_peer frames now sw =
    (case sw of
       (s, w) \<Rightarrow>
         (if \<not> sb_alive s then (s, w)
          else
            (case read_heartbeat frames now of
               Ok None \<Rightarrow> (s, w)
             | Ok (Some i) \<Rightarrow>
                 (case on_heartbeat i s of
                    (is_new, s) \<Rightarrow>
                      (if \<not> is_new then (s, w)
                       else
                         (case on_new_peer i (s, w) of
                            (Ok _, s, w) \<Rightarrow> (s, w)
                          | (_, s, w) \<Rightarrow> (s\<lparr>sb_alive := False\<rparr>, w))))
             | _ \<Rightarrow> (s\<lparr>sb_alive := False\<rparr>, w))))"

definition evict_stale :: "flt \<Rightarrow> flt \<Rightarrow> subscriber \<Rightarrow> string list \<times> subscriber" where
  "evict_stale ttl now s =
    (let stale_ids = map fst (filter (\<lambda>(_, i). ttl < now - pi_last_seen i) (sb_peers s))
     in (stale_ids, s\<lparr>sb_peers := fold dpop stale_ids (sb_peers s)\<rparr>))"

definition get_peer :: "string \<Rightarrow> subscriber \<Rightarrow> peer_info option" where
  "get_peer pid s = map_of (sb_peers s) pid"

definition list_peers :: "subscriber \<Rightarrow> peer_info list" where
  "list_peers s = dvalues (sb_peers s)"

section \<open>Announcements\<close>

definition handle_peer_announce :: "bool \<Rightarrow> (string \<Rightarrow> bool) \<Rightarrow> subscriber command_handler" where
  "handle_peer_announce local_mode valid c s =
    (case with_env c (\<lambda>d.
            let pub = dget d ''pub_bind'' (JStr []); pid = dget d ''peer_id'' (JStr []) in
            if \<not> py_truthy pub \<or> \<not> py_truthy pid then Ok None
            else bind_res (json_str pub) (\<lambda>pub. bind_res (json_str pid) (\<lambda>pid. Ok (Some (pub, pid))))) of
       Raise ex \<Rightarrow> (Raise ex, s)
     | Err e \<Rightarrow> (Err e, s)
     | Ok None \<Rightarrow> (Ok (result_ok []), s)
     | Ok (Some (pub, pid)) \<Rightarrow>
         (case subscriber_connect valid (resolve_peer_address pub pid local_mode) s of
            (Ok _, s) \<Rightarrow> (Ok (result_ok []), s)
          | (Err e, s) \<Rightarrow> (Err e, s)
          | (Raise ex, s) \<Rightarrow> (Raise ex, s)))"

definition peer_announce_command :: "string \<Rightarrow> string \<Rightarrow> command" where
  "peer_announce_command pub_bind self_id =
    json_command ''PEER_ANNOUNCE'' [(''pub_bind'', JStr pub_bind), (''peer_id'', JStr self_id)]"

text \<open>
  \<open>_on_new_peer\<close>: connect to the peer, announce this endpoint to it, and pull its state. The
  announcement and the pull are parameters on the rest of the application.
\<close>

definition on_new_peer ::
  "bool \<Rightarrow> (string \<Rightarrow> bool) \<Rightarrow> (string \<Rightarrow> 'w \<Rightarrow> unit res \<times> 'w) \<Rightarrow> (string \<Rightarrow> 'w \<Rightarrow> unit res \<times> 'w) \<Rightarrow>
   peer_info \<Rightarrow> subscriber \<times> 'w \<Rightarrow> unit res \<times> subscriber \<times> 'w" where
  "on_new_peer local_mode valid announce pull i sw =
    (case sw of
       (s, w) \<Rightarrow>
         (case (if py_truthy (pi_pub_bind i) then
                  (case json_str (pi_pub_bind i) of
                     Ok pub \<Rightarrow> subscriber_connect valid (resolve_peer_address pub (pi_peer_id i) local_mode) s
                   | _ \<Rightarrow> (Raise AttributeError, s))
                else (Ok (), s)) of
            (Ok _, s) \<Rightarrow>
              (let uri = resolve_peer_address (pi_rpc_uri i) (pi_peer_id i) local_mode in
               case announce uri w of
                 (Ok _, w) \<Rightarrow> (case pull uri w of (r, w) \<Rightarrow> (r, s, w))
               | (r, w) \<Rightarrow> (r, s, w))
          | (r, s) \<Rightarrow> (r, s, w)))"

definition resolve_leader_rpc_uri :: "bool \<Rightarrow> subscriber \<Rightarrow> string \<Rightarrow> string option" where
  "resolve_leader_rpc_uri local_mode s pid =
    map_option (\<lambda>i. resolve_peer_address (pi_rpc_uri i) (pi_peer_id i) local_mode) (get_peer pid s)"

definition peer_rpc_uris :: "bool \<Rightarrow> subscriber \<Rightarrow> string list" where
  "peer_rpc_uris local_mode s = map (\<lambda>i. resolve_peer_address (pi_rpc_uri i) (pi_peer_id i) local_mode) (list_peers s)"

section \<open>A round of the loop\<close>

definition summary_json :: "(string, (string, int) dict) dict \<Rightarrow> json" where
  "summary_json pools = JObj (map (\<lambda>(k, counts). (k, JObj (map (\<lambda>(x, n). (x, JInt n)) counts))) pools)"

definition collect_metrics ::
  "string \<Rightarrow> (string, json) dict \<Rightarrow> tick_state \<Rightarrow> (string, (string, int) dict) dict \<Rightarrow> (string, json) dict" where
  "collect_metrics self_id counters ts pools = dmerge counters
    [(''consensus_role'', JStr (if bully_is_leader (ts_elector ts) self_id then ''leader'' else ''follower'')),
     (''consensus_term'', JInt (view_term (bully_current_view (ts_elector ts)))),
     (''consensus_leader_ids'', id_list (leader_ids (bully_current_view (ts_elector ts)))),
     (''consensus_dirty_pending'', JInt (int (pending_count (ts_tracker ts)))),
     (''container_pools'', summary_json pools)]"

text \<open>The pools that a peer reports are JSON; the entries before an unusable one have been taken in.\<close>

fun ingest_entries :: "string \<Rightarrow> (string \<times> json) list \<Rightarrow> ledger \<Rightarrow> unit res \<times> ledger" where
  "ingest_entries eid [] l = (Ok (), l)"
| "ingest_entries eid ((raw_key, counts) # rest) l =
    (if parse_pool_metrics_key raw_key = None then ingest_entries eid rest l
     else
       (case counts of
          JObj d \<Rightarrow>
            (case bind_res (json_int (dget d ''live'' (JInt 0))) (\<lambda>live.
                  bind_res (json_int (dget d ''idle'' (JInt 0))) (\<lambda>idle. Ok (live, idle))) of
               Ok (live, idle) \<Rightarrow>
                 ingest_entries eid rest (ingest_peer_metrics eid [(raw_key, [(''live'', live), (''idle'', idle)])] l)
             | Err e \<Rightarrow> (Err e, l)
             | Raise ex \<Rightarrow> (Raise ex, l))
        | _ \<Rightarrow> (Raise AttributeError, l)))"

definition ingest_reported :: "string \<Rightarrow> json \<Rightarrow> ledger \<Rightarrow> unit res \<times> ledger" where
  "ingest_reported eid j l = (case j of JObj d \<Rightarrow> ingest_entries eid d l | _ \<Rightarrow> (Raise AttributeError, l))"

fun ingest_peers :: "peer_info list \<Rightarrow> ledger \<Rightarrow> unit res \<times> ledger" where
  "ingest_peers [] l = (Ok (), l)"
| "ingest_peers (i # is) l =
    (case ingest_reported (pi_peer_id i) (dget (pi_metrics i) ''container_pools'' (JObj [])) l of
       (Ok _, l) \<Rightarrow> ingest_peers is l
     | r \<Rightarrow> r)"

text \<open>What the loop works on, and the settings it reads.\<close>

record endpoint_state =
  es_tick :: tick_state
  es_ledger :: ledger
  es_high_water :: nat
  es_members :: "string set option"

record heartbeat_config =
  hc_self_id :: string
  hc_router_bind :: string
  hc_pub_bind :: string
  hc_idle_seconds :: flt
  hc_local_mode :: bool

record round_output =
  ro_metrics :: "(string, json) dict"
  ro_frames :: "bytes list"
  ro_events :: "event list"
  ro_pushes :: "push list"

definition heartbeat_round ::
  "heartbeat_config \<Rightarrow> flt \<Rightarrow> (string, json) dict \<Rightarrow> (string, (string, int) dict) dict \<Rightarrow> subscriber \<Rightarrow> endpoint_state \<Rightarrow>
   unit res \<times> endpoint_state \<times> round_output" where
  "heartbeat_round H now counters pools s es =
    (let metrics = collect_metrics (hc_self_id H) counters (es_tick es) pools;
         frames = heartbeat_frames (hc_self_id H) ''axo-endpoint'' (hc_router_bind H)
           (dmerge metrics [(''__pub_bind__'', JStr (hc_pub_bind H)), (''__sent_at__'', JFloat now)])
     in case run_consensus_tick (es_tick es) (map (\<lambda>i. (pi_peer_id i, pi_rpc_uri i)) (list_peers s)) (hc_self_id H)
              (hc_idle_seconds H) now (hc_local_mode H) True (es_high_water es) (es_members es) of
          (ts, events, pushes, high_water, ids) \<Rightarrow>
            (let es = es\<lparr>es_tick := ts, es_high_water := high_water, es_members := Some ids\<rparr>;
                 out = \<lparr>ro_metrics = metrics, ro_frames = frames, ro_events = events, ro_pushes = pushes\<rparr>
             in case ingest_peers (list_peers s) (ingest_peer_metrics (hc_self_id H) pools (es_ledger es)) of
                  (Ok _, l) \<Rightarrow>
                    (Ok (), es\<lparr>es_ledger := (if bully_is_leader (ts_elector ts) (hc_self_id H)
                                           then reap_unknown_owners ids l else l)\<rparr>, out)
                | (r, l) \<Rightarrow> (r, es\<lparr>es_ledger := l\<rparr>, out)))"

section \<open>What a heartbeat carries\<close>

lemma decode_text_encode [simp]: "decode_text (utf8_encode t) = Ok t"
  by (simp add: decode_text_def)

lemma dpop_append: "dpop k (d @ d') = dpop k d @ dpop k d'"
  by (simp add: AList.delete_eq)

lemma dpop_absent: "k \<notin> set (dkeys d) \<Longrightarrow> dpop k d = d"
  by (induction d) (auto simp: AList.delete_eq)

text \<open>The metrics with the two private entries, as the loop sends them.\<close>

definition sent_metrics :: "string \<Rightarrow> flt \<Rightarrow> (string, json) dict \<Rightarrow> (string, json) dict" where
  "sent_metrics pub_bind now metrics = dmerge metrics [(''__pub_bind__'', JStr pub_bind), (''__sent_at__'', JFloat now)]"

lemma sent_metrics_append:
  assumes "''__pub_bind__'' \<notin> set (dkeys m)" "''__sent_at__'' \<notin> set (dkeys m)"
  shows "sent_metrics pub now m = m @ [(''__pub_bind__'', JStr pub), (''__sent_at__'', JFloat now)]"
  unfolding sent_metrics_def using assms by (intro dmerge_disjoint) auto

lemma map_of_sent_metrics:
  "map_of (sent_metrics pub now m) ''__sent_at__'' = Some (JFloat now)"
  "map_of (sent_metrics pub now m) ''__pub_bind__'' = Some (JStr pub)"
  by (simp_all add: sent_metrics_def)

lemma read_heartbeat_frames:
  assumes "json_ok (JObj metrics)" "''__pub_bind__'' \<notin> set (dkeys metrics)" "''__sent_at__'' \<notin> set (dkeys metrics)"
  shows "read_heartbeat (heartbeat_frames pid service uri (sent_metrics pub sent metrics)) now =
    Ok (Some \<lparr>pi_peer_id = pid, pi_service_name = service, pi_rpc_uri = uri, pi_metrics = metrics, pi_last_seen = now,
      pi_pub_bind = JStr pub\<rparr>)"
proof -
  let ?m = "sent_metrics pub sent metrics"
  note m = sent_metrics_append [OF assms(2,3), of pub sent]
  have "json_ok (JObj ?m)" using assms by (auto simp: m)
  then have l: "loads_bytes (dumps_bytes (JObj ?m)) = Ok (JObj ?m)" by (rule loads_dumps)
  have p: "dpop ''__pub_bind__'' (dpop ''__sent_at__'' ?m) = metrics"
    unfolding m dpop_append dpop_absent [OF assms(2)] dpop_absent [OF assms(3)] by (simp add: AList.delete_eq)
  have s: "jget ?m ''__sent_at__'' = JFloat sent" "dget ?m ''__pub_bind__'' (JStr []) = JStr pub"
    using map_of_sent_metrics [of pub sent metrics] by (simp_all add: jget_def)
  show ?thesis
    unfolding read_heartbeat_def heartbeat_frames_def by (simp add: l p s is_number_def)
qed

section \<open>The table of peers\<close>

lemma fold_dpop: "map_of (fold dpop ks d) k = (if k \<in> set ks then None else map_of d k)"
  by (induction ks arbitrary: d) auto

lemma dict_ok_fold_dpop: "dict_ok d \<Longrightarrow> dict_ok (fold dpop ks d)"
  by (induction ks arbitrary: d) auto

lemma evict_stale_peers:
  assumes "dict_ok (sb_peers s)" "evict_stale ttl now s = (ids, s')"
  shows "map_of (sb_peers s') pid = Some i \<longleftrightarrow> map_of (sb_peers s) pid = Some i \<and> now - pi_last_seen i \<le> ttl"
    "pid \<in> set ids \<longleftrightarrow> (\<exists>i. map_of (sb_peers s) pid = Some i \<and> ttl < now - pi_last_seen i)"
    "dict_ok (sb_peers s')" "sb_alive s' = sb_alive s"
proof -
  show ids: "pid \<in> set ids \<longleftrightarrow> (\<exists>i. map_of (sb_peers s) pid = Some i \<and> ttl < now - pi_last_seen i)"
    using assms by (force simp: evict_stale_def Let_def dict_ok_mem_iff)
  have s': "s' = s\<lparr>sb_peers := fold dpop ids (sb_peers s)\<rparr>" using assms(2) by (auto simp: evict_stale_def Let_def)
  then show "map_of (sb_peers s') pid = Some i \<longleftrightarrow> map_of (sb_peers s) pid = Some i \<and> now - pi_last_seen i \<le> ttl"
    using ids by (auto simp: fold_dpop not_less)
  show "dict_ok (sb_peers s')" "sb_alive s' = sb_alive s" using assms(1) by (simp_all add: s' dict_ok_fold_dpop)
qed

lemma list_peers_iff: "dict_ok (sb_peers s) \<Longrightarrow> i \<in> set (list_peers s) \<longleftrightarrow> (\<exists>pid. map_of (sb_peers s) pid = Some i)"
proof -
  assume ok: "dict_ok (sb_peers s)"
  have "i \<in> set (list_peers s) \<longleftrightarrow> (\<exists>pid. (pid, i) \<in> set (sb_peers s))" by (force simp: list_peers_def)
  then show ?thesis by (simp add: dict_ok_mem_iff [OF ok])
qed

text \<open>The table names every peer by the id in its entry.\<close>

definition peers_named :: "subscriber \<Rightarrow> bool" where
  "peers_named s \<longleftrightarrow> dict_ok (sb_peers s) \<and> (\<forall>pid i. map_of (sb_peers s) pid = Some i \<longrightarrow> pi_peer_id i = pid)"

lemma peers_named_keep:
  "peers_named (subscriber_init as)" "peers_named s \<Longrightarrow> peers_named (snd (on_heartbeat i s))"
  "peers_named s \<Longrightarrow> peers_named (snd (evict_stale ttl now s))" "peers_named s \<Longrightarrow> peers_named (snd (subscriber_connect v a s))"
proof -
  show "peers_named s \<Longrightarrow> peers_named (snd (evict_stale ttl now s))"
    using evict_stale_peers [of s ttl now "fst (evict_stale ttl now s)" "snd (evict_stale ttl now s)"]
    by (auto simp: peers_named_def)
qed (auto simp: peers_named_def subscriber_init_def on_heartbeat_def subscriber_connect_def split: if_splits)

lemma peer_ids:
  assumes "peers_named s"
  shows "pi_peer_id ` set (list_peers s) = {pid. map_of (sb_peers s) pid \<noteq> None}"
  using assms list_peers_iff [of s] by (force simp: peers_named_def)

section \<open>The ledger in a round\<close>

lemma ingest_entries_grants: "grants (snd (ingest_entries eid es l)) = grants l"
proof (induction es arbitrary: l)
  case (Cons e es)
  obtain k j where e: "e = (k, j)" by (cases e)
  show ?case using Cons by (simp add: e ingest_grants split: json.split res.split)
qed simp

lemma ingest_peers_grants: "grants (snd (ingest_peers is l)) = grants l"
proof (induction "is" arbitrary: l)
  case (Cons i "is")
  have one: "grants (snd (ingest_reported eid j l)) = grants l" for eid j and l :: ledger
    by (simp add: ingest_reported_def ingest_entries_grants split: json.split)
  show ?case
  proof (cases "ingest_reported (pi_peer_id i) (dget (pi_metrics i) ''container_pools'' (JObj [])) l")
    case (Pair r l')
    then have "grants l' = grants l" using one [of "pi_peer_id i" "dget (pi_metrics i) ''container_pools'' (JObj [])" l] by simp
    then show ?thesis using Cons Pair by (cases r) simp_all
  qed
qed simp

lemma reaped_slots:
  assumes "dict_ok (grants l)" "dict_ok (pool_grants l k)"
  shows "map_of (pool_grants (reap_unknown_owners known l) k) i = Some e \<longleftrightarrow> map_of (pool_grants l k) i = Some e \<and> e \<in> known"
proof -
  have "pool_grants (reap_unknown_owners known l) k = reap_pool known (pool_grants l k)"
    using map_of_reaped [OF assms(1), of known k] by (simp add: reap_unknown_owners_def)
  moreover have "dict_ok (reap_pool known (pool_grants l k))" by (rule reap_pool_facts(1) [OF assms(2)])
  ultimately show ?thesis
    using assms(2) by (simp add: dict_ok_mem_iff [symmetric]) (auto simp: reap_pool_def)
qed

lemma round_facts:
  assumes "heartbeat_round H now counters pools s es = (r, es', out)"
    "b_self_id (ts_elector (es_tick es)) = hc_self_id H"
  shows "leader_ids (b_view (ts_elector (es_tick es'))) = {Max (insert (hc_self_id H) (pi_peer_id ` set (list_peers s)))}"
    "es_members es' = Some (insert (hc_self_id H) (pi_peer_id ` set (list_peers s)))"
    "is_ok r \<Longrightarrow> \<exists>l. grants l = grants (es_ledger es) \<and>
      es_ledger es' = (if bully_is_leader (ts_elector (es_tick es')) (hc_self_id H)
        then reap_unknown_owners (insert (hc_self_id H) (pi_peer_id ` set (list_peers s))) l else l)"
proof -
  let ?peers = "map (\<lambda>i. (pi_peer_id i, pi_rpc_uri i)) (list_peers s)"
  obtain ts events pushes hw ids where t: "run_consensus_tick (es_tick es) ?peers (hc_self_id H) (hc_idle_seconds H) now
      (hc_local_mode H) True (es_high_water es) (es_members es) = (ts, events, pushes, hw, ids)"
    by (rule prod_cases5)
  have ids: "ids = insert (hc_self_id H) (pi_peer_id ` set (list_peers s))"
    using tick_high_water [OF t] by (simp add: image_image)
  have el: "ts_elector ts = bully_recompute (ts_elector (es_tick es)) (tick_members ?peers (hc_local_mode H)) now"
    using tick_elector [of "es_tick es" ?peers "hc_self_id H" "hc_idle_seconds H" now "hc_local_mode H" True "es_high_water es" "es_members es"] t
    by simp
  have "peer_id ` set (tick_members ?peers (hc_local_mode H)) = pi_peer_id ` set (list_peers s)"
    by (auto simp: tick_members_def image_image)
  then have leader: "leader_ids (b_view (ts_elector ts)) = {Max (insert (hc_self_id H) (pi_peer_id ` set (list_peers s)))}"
    unfolding el bully_recompute_leader assms(2) by simp
  obtain r' l where i: "ingest_peers (list_peers s) (ingest_peer_metrics (hc_self_id H) pools (es_ledger es)) = (r', l)"
    by (rule prod.exhaust)
  have g: "grants l = grants (es_ledger es)"
    using ingest_peers_grants [of "list_peers s" "ingest_peer_metrics (hc_self_id H) pools (es_ledger es)"] i by (simp add: ingest_grants)
  have e: "es_tick es' = ts" "es_members es' = Some ids"
    using assms(1) by (cases r'; simp add: heartbeat_round_def Let_def t i; auto)+
  have led: "is_ok r \<Longrightarrow> es_ledger es' = (if bully_is_leader (ts_elector ts) (hc_self_id H) then reap_unknown_owners ids l else l)"
    using assms(1) by (cases r'; simp add: heartbeat_round_def Let_def t i; auto)
  show "leader_ids (b_view (ts_elector (es_tick es'))) = {Max (insert (hc_self_id H) (pi_peer_id ` set (list_peers s)))}"
    "es_members es' = Some (insert (hc_self_id H) (pi_peer_id ` set (list_peers s)))"
    using leader e ids by simp_all
  show "\<exists>l. grants l = grants (es_ledger es) \<and>
      es_ledger es' = (if bully_is_leader (ts_elector (es_tick es')) (hc_self_id H)
        then reap_unknown_owners (insert (hc_self_id H) (pi_peer_id ` set (list_peers s))) l else l)" if "is_ok r"
    using g led [OF that] e ids by (intro exI [of _ l]) simp
qed

section \<open>Properties\<close>

text \<open>
  C18: What an endpoint publishes is what a subscriber learns: a heartbeat with any metrics brings
  the peer into the table with these metrics, its addresses and the time it came in, whatever
  was known of it before, and no other entry changes.
\<close>

theorem heartbeat_is_recorded:
  assumes "sb_alive s" "json_ok (JObj metrics)" "''__pub_bind__'' \<notin> set (dkeys metrics)" "''__sent_at__'' \<notin> set (dkeys metrics)"
    "\<And>i s w. sb_peers (fst (snd (new_peer i (s, w)))) = sb_peers s"
  shows "map_of (sb_peers (fst (receive_heartbeat new_peer
      (heartbeat_frames pid service uri (sent_metrics pub sent metrics)) now (s, w)))) p =
    (if p = pid then Some \<lparr>pi_peer_id = pid, pi_service_name = service, pi_rpc_uri = uri, pi_metrics = metrics,
       pi_last_seen = now, pi_pub_bind = JStr pub\<rparr>
     else map_of (sb_peers s) p)"
proof -
  let ?i = "\<lparr>pi_peer_id = pid, pi_service_name = service, pi_rpc_uri = uri, pi_metrics = metrics, pi_last_seen = now,
      pi_pub_bind = JStr pub\<rparr>"
  let ?s = "snd (on_heartbeat ?i s)"
  obtain r s' w' where n: "new_peer ?i (?s, w) = (r, s', w')" by (rule prod_cases3)
  have "sb_peers s' = sb_peers ?s" using assms(5) [of ?i ?s w] n by simp
  then show ?thesis
    using assms(1) n by (cases r) (simp_all add: receive_heartbeat_def read_heartbeat_frames [OF assms(2-4)] on_heartbeat_def)
qed

lemma on_new_peer_keeps_peers:
  "sb_peers (fst (snd (on_new_peer lm valid announce pull i (s, w)))) = sb_peers s"
  by (auto simp: on_new_peer_def subscriber_connect_def Let_def split: res.split prod.split)

lemma heartbeat_is_recorded_witness:
  "map_of (sb_peers (fst (receive_heartbeat (on_new_peer True (\<lambda>_. True) (\<lambda>_ w. (Ok (), w)) (\<lambda>_ w. (Ok (), w)))
      (heartbeat_frames ''b'' ''axo-endpoint'' ''tcp://0.0.0.0:1'' (sent_metrics ''tcp://0.0.0.0:2'' 1 [])) 7
      (subscriber_init [], ())))) ''b'' \<noteq> None"
  by (subst heartbeat_is_recorded) (simp_all add: subscriber_init_def on_new_peer_keeps_peers)

text \<open>
  C17: Slots follow the heartbeats. When stale peers are evicted and the leader then goes through a
  round of its loop, a slot stays granted exactly when its owner is the leader itself or a peer
  whose last heartbeat is at most the time to live old: the slots of a silent peer are
  freed, those of a live one are not touched.
\<close>

theorem slots_follow_heartbeats:
  assumes "peers_named s" "within_cap cap (es_ledger es)" "b_self_id (ts_elector (es_tick es)) = hc_self_id H"
    "heartbeat_round H now counters pools (snd (evict_stale ttl now s)) es = (Ok (), es', out)"
    "bully_is_leader (ts_elector (es_tick es')) (hc_self_id H)"
  shows "map_of (pool_grants (es_ledger es') k) idx = Some e \<longleftrightarrow>
    map_of (pool_grants (es_ledger es) k) idx = Some e \<and>
    (e = hc_self_id H \<or> (\<exists>i. map_of (sb_peers s) e = Some i \<and> now - pi_last_seen i \<le> ttl))"
proof -
  let ?s = "snd (evict_stale ttl now s)"
  have named: "peers_named ?s" by (rule peers_named_keep(3) [OF assms(1)])
  have ok: "dict_ok (sb_peers s)" using assms(1) by (simp add: peers_named_def)
  have known: "pi_peer_id ` set (list_peers ?s) = {pid. \<exists>i. map_of (sb_peers s) pid = Some i \<and> now - pi_last_seen i \<le> ttl}"
    using peer_ids [OF named] evict_stale_peers(1) [OF ok, of ttl now "fst (evict_stale ttl now s)" ?s] by auto
  obtain l where l: "grants l = grants (es_ledger es)"
    "es_ledger es' = reap_unknown_owners (insert (hc_self_id H) (pi_peer_id ` set (list_peers ?s))) l"
    using round_facts(3) [OF assms(4,3)] assms(5) by auto
  have "dict_ok (grants l)" "dict_ok (pool_grants l k)" using within_capD(1,2) [OF assms(2)] l(1) by simp_all
  from reaped_slots [OF this] show ?thesis unfolding l(2) known using l(1) by auto
qed

definition lone_state :: endpoint_state where
  "lone_state = \<lparr>es_tick = \<lparr>ts_elector = bully_init ''b'', ts_tracker = tracker_init 1, ts_machine = cluster_state_init\<rparr>,
     es_ledger = (ledger_init ''random'')\<lparr>grants := [((''f'', 1), [(0, ''a'')])]\<rparr>, es_high_water = 0, es_members = None\<rparr>"

definition sample_config :: heartbeat_config where
  "sample_config = \<lparr>hc_self_id = ''b'', hc_router_bind = ''tcp://0.0.0.0:1'', hc_pub_bind = ''tcp://0.0.0.0:2'',
     hc_idle_seconds = 1, hc_local_mode = True\<rparr>"

definition sample_peer :: peer_info where
  "sample_peer = \<lparr>pi_peer_id = ''a'', pi_service_name = ''axo-endpoint'', pi_rpc_uri = ''tcp://0.0.0.0:3'', pi_metrics = [],
     pi_last_seen = 1, pi_pub_bind = JStr []\<rparr>"

lemma slots_follow_heartbeats_witness:
  "\<exists>es' out. heartbeat_round sample_config 9 [] [] (snd (evict_stale 2 9 \<lparr>sb_connected = [], sb_peers = [(''a'', sample_peer)],
       sb_alive = True\<rparr>)) lone_state = (Ok (), es', out) \<and>
     map_of (pool_grants (es_ledger lone_state) (''f'', 1)) 0 = Some ''a'' \<and>
     map_of (pool_grants (es_ledger es') (''f'', 1)) 0 \<noteq> Some ''a''"
proof -
  let ?s = "\<lparr>sb_connected = [], sb_peers = [(''a'', sample_peer)], sb_alive = True\<rparr>"
  obtain r es' out where h: "heartbeat_round sample_config 9 [] [] (snd (evict_stale 2 9 ?s)) lone_state = (r, es', out)"
    by (rule prod_cases3)
  have l: "list_peers (snd (evict_stale 2 9 ?s)) = []" by (simp add: evict_stale_def sample_peer_def list_peers_def)
  have self: "b_self_id (ts_elector (es_tick lone_state)) = hc_self_id sample_config"
    by (simp add: lone_state_def sample_config_def bully_init_def)
  have r: "r = Ok ()" using h by (auto simp: heartbeat_round_def Let_def l split: prod.splits)
  have led: "bully_is_leader (ts_elector (es_tick es')) (hc_self_id sample_config)"
    using round_facts(1) [OF h self] by (simp add: l bully_is_leader_def)
  have cap: "within_cap (\<lambda>_. 1) (es_ledger lone_state)"
    by (auto simp: within_cap_def lone_state_def dict_ok_def dget_def)
  have named: "peers_named ?s" by (simp add: peers_named_def sample_peer_def dict_ok_def)
  have "map_of (pool_grants (es_ledger es') (''f'', 1)) 0 \<noteq> Some ''a''"
    unfolding slots_follow_heartbeats [OF named cap self h [unfolded r] led]
    by (simp add: sample_config_def sample_peer_def)
  then show ?thesis using h r by (auto simp: lone_state_def)
qed

text \<open>
  C19: One heartbeat whose metrics are JSON but no object ends the thread that receives
  heartbeats: nothing published afterwards is recorded, so that once the time to live has passed
  every peer is evicted, and from its next round on the node takes itself for the leader.
\<close>

lemma receive_heartbeat_dead: "\<not> sb_alive s \<Longrightarrow> receive_heartbeat np fs t (s, w) = (s, w)"
  by (simp add: receive_heartbeat_def)

lemma receive_heartbeats_dead: "\<not> sb_alive s \<Longrightarrow> fold (\<lambda>(fs, t). receive_heartbeat np fs t) msgs (s, w) = (s, w)"
  by (induction msgs) (auto simp: receive_heartbeat_dead)

theorem malformed_heartbeat_isolates_node:
  assumes "loads_bytes m = Ok j" "\<And>d. j \<noteq> JObj d"
    "\<And>i. i \<in> set (list_peers s) \<Longrightarrow> ttl < later - pi_last_seen i"
    "receive_heartbeat np [topic, p, v, u, m] now (s, w) = (s', w')"
    "heartbeat_round H later counters pools (snd (evict_stale ttl later s')) es = (r, es', out)"
    "b_self_id (ts_elector (es_tick es)) = hc_self_id H"
  shows "fold (\<lambda>(fs, t). receive_heartbeat np fs t) msgs (s', w') = (s', w') \<and>
    list_peers (snd (evict_stale ttl later s')) = [] \<and>
    leader_ids (b_view (ts_elector (es_tick es'))) = {hc_self_id H}"
proof -
  have s': "\<not> sb_alive s'" "sb_peers s' = sb_peers s"
    using assms(1,2,4) by (cases j; auto simp: receive_heartbeat_def read_heartbeat_def split: if_splits)+
  have "pid \<in> set (fst (evict_stale ttl later s'))" if "(pid, i) \<in> set (sb_peers s)" for pid i
    using assms(3) [of i] that s'(2) by (force simp: evict_stale_def list_peers_def Let_def)
  then have "map_of (sb_peers (snd (evict_stale ttl later s'))) pid = None" for pid
    using map_of_SomeD [of "sb_peers s" pid] s'(2)
    by (cases "map_of (sb_peers s) pid") (auto simp: evict_stale_def Let_def fold_dpop)
  then have "map_of (sb_peers (snd (evict_stale ttl later s'))) = Map.empty" by blast
  then have l: "list_peers (snd (evict_stale ttl later s')) = []" by (simp add: list_peers_def)
  then show ?thesis using round_facts(1) [OF assms(5,6)] by (simp add: receive_heartbeats_dead [OF s'(1)])
qed

lemma malformed_heartbeat_isolates_node_witness:
  "\<exists>s' w' es' r out. receive_heartbeat (\<lambda>i (s, w). (Ok (), s, w)) [hb_topic, ''c'', ''axo-endpoint'', ''tcp://0.0.0.0:1'', ''[]'']
       5 (\<lparr>sb_connected = [], sb_peers = [(''a'', sample_peer)], sb_alive = True\<rparr>, ()) = (s', w') \<and>
     heartbeat_round sample_config 9 [] [] (snd (evict_stale 2 9 s')) lone_state = (r, es', out) \<and>
     leader_ids (b_view (ts_elector (es_tick es'))) = {''b''}"
proof -
  let ?s = "\<lparr>sb_connected = [], sb_peers = [(''a'', sample_peer)], sb_alive = True\<rparr>"
  let ?np = "\<lambda>i (s, w). (Ok (), s, w)"
  have j: "loads_bytes ''[]'' = Ok (JList [])" by code_simp
  obtain s' w' where
    m: "receive_heartbeat ?np [hb_topic, ''c'', ''axo-endpoint'', ''tcp://0.0.0.0:1'', ''[]''] 5 (?s, ()) = (s', w')"
    by (rule prod.exhaust)
  obtain r es' out where h: "heartbeat_round sample_config 9 [] [] (snd (evict_stale 2 9 s')) lone_state = (r, es', out)"
    by (rule prod_cases3)
  have self: "b_self_id (ts_elector (es_tick lone_state)) = hc_self_id sample_config"
    by (simp add: lone_state_def sample_config_def bully_init_def)
  have "leader_ids (b_view (ts_elector (es_tick es'))) = {hc_self_id sample_config}"
    by (rule malformed_heartbeat_isolates_node [OF j _ _ m h self, THEN conjunct2, THEN conjunct2])
      (simp_all add: list_peers_def sample_peer_def)
  then show ?thesis using m h by (auto simp: sample_config_def)
qed

end
