(* ===== verification/Spec2Isabelle.thy ===== *)
theory Spec2Isabelle
  imports Ledger Choreography_Run Result_Sync Jobs Cluster Heartbeat
begin

text \<open>
  A model of the Axo platform and its correctness.

  \<^bold>\<open>The program.\<close> Three Python packages. An \<^emph>\<open>endpoint\<close> (\<open>axo_endpoint\<close>) stores functions and data,
  runs jobs in worker processes or containers, and forms a cluster with other endpoints: the
  largest id leads, the leader replicates the registries' metadata and grants container slots,
  results of jobs are copied to every node. The \<^emph>\<open>virtual environment manager\<close> (\<open>axo_vem\<close>) takes the
  events that the endpoints publish, keeps them in an event store, projects them into a read model
  in MongoDB, serves use cases that send commands to endpoints, and runs choreographies, graphs of
  functions and buckets. \<open>axo_shared\<close> has what both use: commands, events, errors, schemas.

  \<^bold>\<open>Values and effects.\<close> A \<open>str\<close> is a list of code points below 256 and \<open>bytes\<close> the same list read
  as octets; a \<open>dict\<close> is an association list in insertion order (\<open>dput\<close>, \<open>dpop\<close>, \<open>dget\<close>); an
  \<open>int\<close> is unbounded; a \<open>float\<close> is a number of millionths (\<open>flt\<close>); JSON is the datatype \<open>json\<close>
  with its printer and parser (Json). An operation returns \<open>Ok\<close>, an error of the program's own
  catalogue (\<open>Err\<close>, Errors), or an exception that leaves it (\<open>Raise\<close>), with the state it leaves
  behind; where JSON of another type reaches the code, the model raises the exception that Python
  raises first. Clocks, random choices, minted ids, hashes, the file system's \<open>realpath\<close>, the
  network and the database are parameters. What is asked of MongoDB (\<open>collections\<close> in Mongo) and of
  the converters (\<open>map_env\<close> in Projector) are laws of locales that the in-memory instances
  \<open>mem_mongo\<close> and \<open>mem_env\<close> satisfy. Methods that hold a lock are atomic steps; logging and the
  durations that are only logged are left out.

  \<^bold>\<open>Theories.\<close>

  \<^item> Prelude, Pystring, Base64, Json, Errors: Python data, text and JSON; the error catalogue.
  \<^item> Protocol: \<open>axo_shared/protocol.py\<close>, \<open>wire.py\<close>, \<open>events/envelope.py\<close>.
  \<^item> Storage, In_Memory, Filesystem: \<open>core/storage\<close>. The interface of a backend is the record
    \<open>backend\<close>, its contract the locales \<open>kv_store\<close> and \<open>catalog_store\<close>, interpreted on the
    in-memory and the filesystem backend.
  \<^item> Election, Ledger, Replication: \<open>core/consensus\<close> and \<open>service/consensus_loop.py\<close>: the bully
    elector and the leader proxy, the ledger of container slots, the dirty tracker, the replicated
    state and the tick of the loop.
  \<^item> Functions, Data, Buckets, Dataio: the registries of functions (\<open>core/functions\<close>), data and
    buckets (\<open>core/data\<close>), their command handlers (\<open>service/handlers\<close>), and the io requests of
    running functions (\<open>core/dataio\<close>).
  \<^item> Event_Bus, Sync: \<open>core/events\<close>; the bridges between registries and replication and the
    STATE_SYNC handlers.
  \<^item> Results, Result_Sync: results of jobs, their replication with retries, the consistency sweeper.
  \<^item> Router, Process_Runtime, Jobs, Activity: \<open>dispatch/in_memory_dispatcher.py\<close> and
    \<open>transport/router_server.py\<close>; worker pools, pumps, cancellation and sweeps
    (\<open>service/runtime/process_runtime.py\<close>); the life of a job on a node with all subscribers of its
    events; the activity feed.
  \<^item> Container_Pool, Container_Runtime: the names and handles of containers, the Docker primitives, the
    summoner with its threads (\<open>service/container\<close>, \<open>axo_shared/container/spawner.py\<close>), and the runtime
    that places, sends, retries and cancels jobs (\<open>service/runtime/container_runtime.py\<close>). The Docker
    daemon is a record of functions on a state of its own.
  \<^item> Placement, Cluster, Container_Faults: the slot handlers, the facade of the ledger and the
    reconciliation of a new leader; several endpoints under one ledger, where every effect of a
    runtime on the ledger goes through the handlers; runs in which jobs and containers are lost.
  \<^item> Heartbeat: the heartbeats and the table of peers (\<open>service/transport/heartbeat_zmq.py\<close>), the
    announcements, and a round of the application's loop, which ties the table to the election, the
    replication and the ledger.
  \<^item> Event_Models, External_Bridge, Event_Flow: the classes of published events
    (\<open>axo_shared/events/models.py\<close>), the bridge that publishes them
    (\<open>core/external/bridge.py\<close>), and the way of an event to the read model.
  \<^item> Mongo, Read_Model, Projector, Subscriber: the repositories, one projection handler per
    aggregate, ingestion and catch-up with its checkpoint.
  \<^item> Use_Cases, Choreography_Graph, Choreography_Run: the use cases over commands, events and the
    read model, the liveness worker; the graph operations and the orchestrator.

  \<^bold>\<open>What the lemmas show.\<close> For the stores: values put are found, other keys stay, and no path
  leaves the root. For the registries: registration, update, deletion, chunked upload and quota on
  every branch. For the cluster: agreement on the leader, the cap of the ledger, pushes that make
  the followers' registries equal to the leader's, results on every reachable peer, and, over the
  runs of several container runtimes, an invariant (every member of a pool holds a slot of its own
  in the ledger) that makes the cap of the ledger a cap on the containers; slots that follow the
  heartbeats of their owners. For jobs:
  every accepted job is queued, running or reported on the actions listed in Process_Runtime, a
  returned value is what the client reads, and the places where a job is lost. For the manager:
  events keep the shapes of the read model and are projected without an exception, redelivery is
  harmless, a choreography starts a node only after its dependencies and ends with the right
  status. The theorems that belong to defects state what the code does.

  \<^bold>\<open>Termination.\<close> Loops are structural or have measures: the remaining nodes (waves), the nodes not
  yet reached (\<open>downstream_of\<close>), the time to the deadline (polls, whose clock advances by at least
  the poll interval), the attempts left (retries, backoff). The search for a free slot index is
  bounded by the length of the pool, which is enough because a pool of \<open>n\<close> slots misses an index
  up to \<open>n\<close>. Threads that run forever are modelled as runs of single steps.

  \<^bold>\<open>Not modelled.\<close> Sockets, threads and the docker client; the pickling codecs; pydantic beyond the
  fields of the events; the HTTP and WebSocket layer, authentication and the web interface, which
  call the use cases; the superseded code under \<open>old\<close>, which nothing imports.
\<close>

end
